(* ===== verification/M3_Prelude.thy ===== *)
theory M3_Prelude
  imports Main "HOL-Library.Word" "HOL-Library.Code_Target_Nat"
begin

unbundle bit_operations_syntax

text \<open>
  Shared ground of the development: the names of the machine-integer types, the
  collections of simplification rules the component theories fill, and the
  generic facts on lists and words that several components use.

  A \<open>std::array\<close> of the program is a list whose length is part of the owner's
  well-formedness predicate; \<open>size_t\<close> indices are natural numbers.
\<close>

type_synonym u8 = "8 word"
type_synonym u16 = "16 word"
type_synonym u32 = "32 word"
type_synonym u64 = "64 word"

named_theorems wf_simps \<open>unfolding rules of the components' well-formedness predicates\<close>
named_theorems frame_simps \<open>fields an operation leaves alone\<close>
named_theorems codec_simps \<open>round-trip rules of the byte and word codecs\<close>

subsection \<open>Lists used as fixed arrays\<close>

text \<open>A loop \<open>for (i = 0; i < n; ++i) if (p(a[i])) return i; return n;\<close> over an array.\<close>

fun first_index :: "('a \<Rightarrow> bool) \<Rightarrow> 'a list \<Rightarrow> nat" where
  "first_index p [] = 0"
| "first_index p (x # xs) = (if p x then 0 else Suc (first_index p xs))"

lemma first_index_le: "first_index p xs \<le> length xs"
  by (induction xs) auto

lemma first_index_less_iff: "first_index p xs < length xs \<longleftrightarrow> (\<exists>x \<in> set xs. p x)"
  by (induction xs) auto

lemma first_index_nth: "first_index p xs < length xs \<Longrightarrow> p (xs ! first_index p xs)"
  by (induction xs) auto

lemma first_index_before: "i < first_index p xs \<Longrightarrow> \<not> p (xs ! i)"
  by (induction xs arbitrary: i) (auto simp: nth_Cons split: if_splits nat.splits)

lemma first_index_none: "\<not> (\<exists>x \<in> set xs. p x) \<Longrightarrow> first_index p xs = length xs"
  by (induction xs) auto

lemma list_all_update: "list_all p xs \<Longrightarrow> p x \<Longrightarrow> list_all p (xs[i := x])"
  by (auto simp: list_all_iff dest: set_update_subset_insert [THEN subsetD])

lemma length_filter_update:
  "i < length xs \<Longrightarrow>
     length (filter p (xs[i := x])) + (if p (xs ! i) then 1 else 0)
       = length (filter p xs) + (if p x then 1 else 0)"
proof (induction xs arbitrary: i)
  case Nil
  then show ?case by simp
next
  case (Cons y ys)
  show ?case
  proof (cases i)
    case 0
    then show ?thesis by simp
  next
    case (Suc j)
    with Cons.prems have "j < length ys" by simp
    from Cons.IH [OF this] Suc show ?thesis by simp
  qed
qed

lemma list_ex_nth: "list_ex p xs \<longleftrightarrow> (\<exists>i < length xs. p (xs ! i))"
  by (metis list_ex_length)

subsection \<open>Digits\<close>

lemma radix_inject:
  fixes a b p q k :: int
  assumes "a * k + p = b * k + q" "0 \<le> p" "p < k" "0 \<le> q" "q < k"
  shows "a = b \<and> p = q"
proof -
  have "(a * k + p) div k = a" "(b * k + q) div k = b"
    using assms(2-5) by (simp_all add: div_add1_eq)
  then have "a = b" using assms(1) by metis
  then show ?thesis using assms(1) by simp
qed

subsection \<open>Sequence words\<close>

text \<open>The low bit and the successor of a sequence word, read as a number.\<close>

lemma even_unat: "even (unat s) \<longleftrightarrow> even s" for s :: "'a::len word"
proof -
  have "bit (unat s) 0 = bit s 0" by (simp only: bit_unsigned_iff) simp
  then show ?thesis by (simp add: bit_0)
qed

lemma low_bit: "s AND 1 = 0 \<longleftrightarrow> even (unat s)" for s :: "'a::len word"
  unfolding even_unat by (simp add: and_one_eq even_iff_mod_2_eq_zero)

lemma or_one_cases: "even s \<Longrightarrow> s OR 1 = s + 1" "odd s \<Longrightarrow> s OR 1 = s" for s :: "'a::len word"
  by (simp_all add: or_one_eq)

lemma unat_next: "unat s + 1 < 2 ^ LENGTH('a) \<Longrightarrow> unat (s + 1) = unat s + 1" for s :: "'a::len word"
  by (simp add: unat_word_ariths)

end
