(* ===== verification/Float64.thy ===== *)
theory Float64
  imports M3_Prelude
begin

text \<open>
  The \<open>double\<close> of the program: IEEE-754 binary64, round to nearest, ties to even.
  A value is its bit pattern, because the program copies patterns to and from
  bytes (\<open>std::memcpy\<close> of a \<open>double\<close>). Arithmetic decodes the operands to an exact
  integer times a power of two, computes exactly and rounds once. All of it is
  integer arithmetic, so concrete operations evaluate in the kernel.

  The one freedom IEEE-754 leaves, the payload of a NaN result, is fixed to the
  default quiet NaN; the program only ever tests results with \<open>std::isfinite\<close>.
\<close>

subsection \<open>Bit patterns\<close>

datatype f64 = F64 (f64_bits: u64)

definition f64_mag :: "f64 \<Rightarrow> int" where
  "f64_mag x = uint (f64_bits x) mod 2 ^ 63"

definition f64_neg :: "f64 \<Rightarrow> bool" where
  "f64_neg x \<longleftrightarrow> 2 ^ 63 \<le> uint (f64_bits x)"

definition f64_make :: "bool \<Rightarrow> int \<Rightarrow> f64" where
  "f64_make s mag = F64 (word_of_int (if s then 2 ^ 63 + mag else mag))"

abbreviation inf_mag :: int where "inf_mag \<equiv> 9218868437227405312"  \<comment> \<open>\<open>2047 * 2 ^ 52\<close>\<close>

definition is_finite :: "f64 \<Rightarrow> bool" where
  "is_finite x \<longleftrightarrow> f64_mag x < inf_mag"

definition is_nan :: "f64 \<Rightarrow> bool" where
  "is_nan x \<longleftrightarrow> inf_mag < f64_mag x"

definition is_inf :: "f64 \<Rightarrow> bool" where
  "is_inf x \<longleftrightarrow> f64_mag x = inf_mag"

definition f64_nan :: f64 where "f64_nan = F64 0x7FF8000000000000"

definition f64_infinity :: "bool \<Rightarrow> f64" where "f64_infinity s = f64_make s inf_mag"

subsection \<open>Comparison\<close>

text \<open>
  Away from NaN, the order of the values is the order of the signed magnitudes of
  their patterns; both zeros have key 0.
\<close>

definition f64_key :: "f64 \<Rightarrow> int" where
  "f64_key x = (if f64_neg x then - f64_mag x else f64_mag x)"

instantiation f64 :: ord
begin

definition less_f64 :: "f64 \<Rightarrow> f64 \<Rightarrow> bool" where
  "x < y \<longleftrightarrow> \<not> is_nan x \<and> \<not> is_nan y \<and> f64_key x < f64_key y"

definition less_eq_f64 :: "f64 \<Rightarrow> f64 \<Rightarrow> bool" where
  "x \<le> y \<longleftrightarrow> \<not> is_nan x \<and> \<not> is_nan y \<and> f64_key x \<le> f64_key y"

instance ..

end

text \<open>C++ \<open>==\<close>, which identifies the two zeros and is false on NaN.\<close>

definition f64_eq :: "f64 \<Rightarrow> f64 \<Rightarrow> bool" where
  "f64_eq x y \<longleftrightarrow> \<not> is_nan x \<and> \<not> is_nan y \<and> f64_key x = f64_key y"

text \<open>\<open>std::min\<close>, \<open>std::max\<close> and \<open>std::clamp\<close>, with the library's choice of operand.\<close>

definition std_min :: "'a::ord \<Rightarrow> 'a \<Rightarrow> 'a" where
  "std_min a b = (if b < a then b else a)"

definition std_max :: "'a::ord \<Rightarrow> 'a \<Rightarrow> 'a" where
  "std_max a b = (if a < b then b else a)"

definition std_clamp :: "'a::ord \<Rightarrow> 'a \<Rightarrow> 'a \<Rightarrow> 'a" where
  "std_clamp v lo hi = (if v < lo then lo else if hi < v then hi else v)"

subsection \<open>Rounding\<close>

function bit_length :: "int \<Rightarrow> int" where
  "bit_length n = (if n \<le> 0 then 0 else 1 + bit_length (n div 2))"
  by pat_completeness auto
termination
  by (relation "measure nat") auto

declare bit_length.simps [simp del]

text \<open>Divide by \<open>2 ^ k\<close>, to the nearest integer, ties to even.\<close>

definition rne :: "int \<Rightarrow> nat \<Rightarrow> int" where
  "rne m k =
     (let q = m div 2 ^ k; r = m mod 2 ^ k
      in if 2 * r < 2 ^ k then q
         else if 2 ^ k < 2 * r then q + 1
         else if even q then q else q + 1)"

text \<open>
  For \<open>0 < m\<close>: the exponent of the last kept bit of \<open>m * 2 ^ e\<close> (subnormal results
  keep \<open>2 ^ -1074\<close>), the significand rounded there, and the magnitude pattern they
  make, before the overflow test.
\<close>

definition round_exp :: "int \<Rightarrow> int \<Rightarrow> int" where
  "round_exp m e = max (e + bit_length m - 53) (-1074)"

definition round_man :: "int \<Rightarrow> int \<Rightarrow> int" where
  "round_man m e =
     (let q = round_exp m e
      in if q \<le> e then m * 2 ^ nat (e - q) else rne m (nat (q - e)))"

definition round_mag :: "int \<Rightarrow> int \<Rightarrow> int" where
  "round_mag m e = (round_exp m e + 1074) * 2 ^ 52 + round_man m e"

definition f64_round :: "bool \<Rightarrow> int \<Rightarrow> int \<Rightarrow> f64" where
  "f64_round s m e =
     (if m = 0 then f64_make s 0
      else let mag = round_mag m e
           in if inf_mag \<le> mag then f64_infinity s else f64_make s mag)"

text \<open>The exact value of a finite pattern is \<open>f64_man x * 2 ^ f64_exp x\<close>, with the sign apart.\<close>

definition f64_man :: "f64 \<Rightarrow> int" where
  "f64_man x = (let f = f64_mag x mod 2 ^ 52
                in if f64_mag x < 2 ^ 52 then f else 2 ^ 52 + f)"

definition f64_exp :: "f64 \<Rightarrow> int" where
  "f64_exp x = (if f64_mag x < 2 ^ 52 then -1074 else f64_mag x div 2 ^ 52 - 1075)"

definition f64_sman :: "f64 \<Rightarrow> int" where
  "f64_sman x = (if f64_neg x then - f64_man x else f64_man x)"

subsection \<open>Arithmetic\<close>

definition f64_add :: "f64 \<Rightarrow> f64 \<Rightarrow> f64" where
  "f64_add x y =
     (if is_nan x \<or> is_nan y then f64_nan
      else if is_inf x then (if is_inf y \<and> f64_neg x \<noteq> f64_neg y then f64_nan else x)
      else if is_inf y then y
      else let e = min (f64_exp x) (f64_exp y);
               n = f64_sman x * 2 ^ nat (f64_exp x - e) + f64_sman y * 2 ^ nat (f64_exp y - e)
           in if n = 0 then f64_make (f64_neg x \<and> f64_neg y) 0
              else f64_round (n < 0) \<bar>n\<bar> e)"

definition f64_negate :: "f64 \<Rightarrow> f64" where
  "f64_negate x = f64_make (\<not> f64_neg x) (f64_mag x)"

definition f64_mul :: "f64 \<Rightarrow> f64 \<Rightarrow> f64" where
  "f64_mul x y =
     (let s = (f64_neg x \<noteq> f64_neg y)
      in if is_nan x \<or> is_nan y then f64_nan
         else if is_inf x \<or> is_inf y
         then (if f64_mag x = 0 \<or> f64_mag y = 0 then f64_nan else f64_infinity s)
         else f64_round s (f64_man x * f64_man y) (f64_exp x + f64_exp y))"

text \<open>
  The nearest double to \<open>n / d\<close> scaled by \<open>2 ^ e\<close>: 128 extra quotient bits and a
  sticky bit for the remainder, far more than the 53 kept.
\<close>

definition round_quotient :: "bool \<Rightarrow> int \<Rightarrow> int \<Rightarrow> int \<Rightarrow> f64" where
  "round_quotient s n d e =
     (let q = n * 2 ^ 128 div d; r = n * 2 ^ 128 mod d
      in f64_round s (2 * q + (if r = 0 then 0 else 1)) (e - 129))"

definition f64_div :: "f64 \<Rightarrow> f64 \<Rightarrow> f64" where
  "f64_div x y =
     (let s = (f64_neg x \<noteq> f64_neg y)
      in if is_nan x \<or> is_nan y then f64_nan
         else if is_inf x then (if is_inf y then f64_nan else f64_infinity s)
         else if is_inf y then f64_make s 0
         else if f64_mag y = 0 then (if f64_mag x = 0 then f64_nan else f64_infinity s)
         else round_quotient s (f64_man x) (f64_man y) (f64_exp x - f64_exp y))"

instantiation f64 :: "{zero, one, plus, minus, uminus, times, inverse, abs}"
begin

definition zero_f64 :: f64 where "0 = F64 0"
definition one_f64 :: f64 where "1 = F64 0x3FF0000000000000"
definition plus_f64 :: "f64 \<Rightarrow> f64 \<Rightarrow> f64" where "x + y = f64_add x y"
definition uminus_f64 :: "f64 \<Rightarrow> f64" where "- x = f64_negate x"
definition minus_f64 :: "f64 \<Rightarrow> f64 \<Rightarrow> f64" where "x - y = f64_add x (f64_negate y)"
definition times_f64 :: "f64 \<Rightarrow> f64 \<Rightarrow> f64" where "x * y = f64_mul x y"
definition divide_f64 :: "f64 \<Rightarrow> f64 \<Rightarrow> f64" where "x div y = f64_div x y"
definition inverse_f64 :: "f64 \<Rightarrow> f64" where "inverse x = f64_div 1 x"
definition abs_f64 :: "f64 \<Rightarrow> f64" where "\<bar>x\<bar> = f64_make False (f64_mag x)"

instance ..

end

subsection \<open>Conversions\<close>

definition f64_of_int :: "int \<Rightarrow> f64" where
  "f64_of_int i = f64_round (i < 0) \<bar>i\<bar> 0"

text \<open>The decimal literal \<open>n / d\<close> of the source, correctly rounded as the compiler does.\<close>

definition f64_rat :: "int \<Rightarrow> int \<Rightarrow> f64" where
  "f64_rat n d = (if n = 0 then 0 else round_quotient (n < 0) \<bar>n\<bar> d 0)"

text \<open>The magnitude truncated to an integer, and rounded to nearest with ties away from zero.\<close>

definition trunc_mag :: "f64 \<Rightarrow> int" where
  "trunc_mag x = (if 0 \<le> f64_exp x then f64_man x * 2 ^ nat (f64_exp x)
                  else f64_man x div 2 ^ nat (- f64_exp x))"

definition round_away_mag :: "f64 \<Rightarrow> int" where
  "round_away_mag x = (if 0 \<le> f64_exp x then f64_man x * 2 ^ nat (f64_exp x)
                       else (2 * f64_man x + 2 ^ nat (- f64_exp x)) div 2 ^ (nat (- f64_exp x) + 1))"

definition ceil_mag :: "f64 \<Rightarrow> int" where
  "ceil_mag x = (if 0 \<le> f64_exp x then f64_man x * 2 ^ nat (f64_exp x)
                 else - ((- f64_man x) div 2 ^ nat (- f64_exp x)))"

text \<open>\<open>static_cast\<close> to an integer type (truncation), \<open>std::lround\<close>, \<open>std::round\<close> and \<open>std::ceil\<close>.\<close>

definition f64_trunc :: "f64 \<Rightarrow> int" where
  "f64_trunc x = (if f64_neg x then - trunc_mag x else trunc_mag x)"

definition f64_lround :: "f64 \<Rightarrow> int" where
  "f64_lround x = (if f64_neg x then - round_away_mag x else round_away_mag x)"

definition std_round :: "f64 \<Rightarrow> f64" where
  "std_round x = (if \<not> is_finite x then x else f64_round (f64_neg x) (round_away_mag x) 0)"

definition std_ceil :: "f64 \<Rightarrow> f64" where
  "std_ceil x = (if \<not> is_finite x then x
                 else f64_round (f64_neg x) (if f64_neg x then trunc_mag x else ceil_mag x) 0)"

end
