(* ===== verification/Float64_Laws.thy ===== *)
theory Float64_Laws
  imports Float64
begin

text \<open>
  What the components rely on about binary64: the order is total away from NaN,
  clamping lands in its interval whatever the operand, rounding is monotone and
  exact on representable values, and integers below \<open>2 ^ 53\<close> compute exactly.
\<close>

subsection \<open>Patterns\<close>

lemma uint_64_bounds: "0 \<le> uint (w::u64)" "uint (w::u64) < 18446744073709551616"
  using uint_bounded [of w] by simp_all

lemma f64_mag_bounds [simp]: "0 \<le> f64_mag x" "f64_mag x < 9223372036854775808"
  by (simp_all add: f64_mag_def)

lemma uint_f64_bits: "uint (f64_bits x) = (if f64_neg x then 2 ^ 63 + f64_mag x else f64_mag x)"
proof (cases "2 ^ 63 \<le> uint (f64_bits x)")
  case True
  then have "uint (f64_bits x) mod 2 ^ 63 = (uint (f64_bits x) - 2 ^ 63) mod 2 ^ 63"
    by (simp add: mod_diff_eq)
  also have "\<dots> = uint (f64_bits x) - 2 ^ 63"
    using True uint_64_bounds [of "f64_bits x"] by (intro mod_pos_pos_trivial) simp_all
  finally show ?thesis using True by (simp add: f64_neg_def f64_mag_def)
next
  case False
  then show ?thesis
    using uint_64_bounds [of "f64_bits x"] by (simp add: f64_neg_def f64_mag_def)
qed

lemma f64_make_collapse [simp]: "f64_make (f64_neg x) (f64_mag x) = x"
proof -
  have "F64 (word_of_int (uint (f64_bits x))) = x" by simp
  then show ?thesis by (simp add: f64_make_def uint_f64_bits split: if_splits)
qed

lemma uint_make:
  "0 \<le> m \<Longrightarrow> m < 2 ^ 63 \<Longrightarrow>
     uint (f64_bits (f64_make s m)) = (if s then 2 ^ 63 + m else m)"
  by (simp add: f64_make_def uint_word_of_int take_bit_eq_mod)

lemma f64_mag_make [simp]: "0 \<le> m \<Longrightarrow> m < 2 ^ 63 \<Longrightarrow> f64_mag (f64_make s m) = m"
  by (simp add: f64_mag_def uint_make)

lemma f64_neg_make [simp]: "0 \<le> m \<Longrightarrow> m < 2 ^ 63 \<Longrightarrow> f64_neg (f64_make s m) = s"
  by (simp add: f64_neg_def uint_make)

lemma f64_eqI: "f64_neg x = f64_neg y \<Longrightarrow> f64_mag x = f64_mag y \<Longrightarrow> x = y"
proof -
  assume "f64_neg x = f64_neg y" "f64_mag x = f64_mag y"
  then have "f64_make (f64_neg x) (f64_mag x) = f64_make (f64_neg y) (f64_mag y)" by simp
  then show ?thesis by (simp only: f64_make_collapse)
qed

lemma f64_mag_zero [simp]: "f64_mag 0 = 0" and f64_neg_zero [simp]: "\<not> f64_neg 0"
  by (simp_all add: zero_f64_def f64_mag_def f64_neg_def)

lemma zero_f64_make: "0 = f64_make False 0"
  by (rule f64_eqI) simp_all

subsection \<open>Order\<close>

lemma is_finite_not_nan [simp]: "is_finite x \<Longrightarrow> \<not> is_nan x"
  by (simp add: is_finite_def is_nan_def)

lemma is_finite_not_inf [simp]: "is_finite x \<Longrightarrow> \<not> is_inf x"
  by (simp add: is_finite_def is_inf_def)

lemma is_finite_key: "is_finite x \<longleftrightarrow> \<bar>f64_key x\<bar> < inf_mag"
  by (simp add: is_finite_def f64_key_def)

lemma f64_less_trans: "(x::f64) < y \<Longrightarrow> y < z \<Longrightarrow> x < z"
  by (simp add: less_f64_def)

lemma f64_le_trans: "(x::f64) \<le> y \<Longrightarrow> y \<le> z \<Longrightarrow> x \<le> z"
  by (simp add: less_eq_f64_def)

lemma f64_not_less: "\<not> is_nan x \<Longrightarrow> \<not> is_nan y \<Longrightarrow> \<not> (x < y) \<longleftrightarrow> y \<le> (x::f64)"
  by (auto simp: less_f64_def less_eq_f64_def)

lemma f64_le_refl: "\<not> is_nan x \<Longrightarrow> x \<le> (x::f64)"
  by (simp add: less_eq_f64_def)

lemma f64_le_not_nan: "(x::f64) \<le> y \<Longrightarrow> \<not> is_nan x \<and> \<not> is_nan y"
  by (simp add: less_eq_f64_def)

lemma f64_less_imp_le: "(x::f64) < y \<Longrightarrow> x \<le> y"
  by (simp add: less_f64_def less_eq_f64_def)

lemma f64_between_finite:
  "is_finite lo \<Longrightarrow> is_finite hi \<Longrightarrow> lo \<le> x \<Longrightarrow> x \<le> hi \<Longrightarrow> is_finite x"
  by (auto simp: less_eq_f64_def is_finite_key)

text \<open>
  The program bounds a value by \<open>std::max(lo, std::min(v, hi))\<close>. With finite bounds the
  result is in the interval for every \<open>v\<close>, a NaN included (it becomes \<open>lo\<close>).
\<close>

lemma max_min_bounds:
  assumes "is_finite lo" "is_finite hi" "lo \<le> hi"
  shows "lo \<le> std_max lo (std_min v hi)" "std_max lo (std_min v hi) \<le> hi"
        "is_finite (std_max lo (std_min v hi))"
  using assms by (auto simp: std_max_def std_min_def less_f64_def less_eq_f64_def is_finite_key
      split: if_splits)

lemma max_min_id:
  "lo \<le> v \<Longrightarrow> v \<le> hi \<Longrightarrow> f64_key lo < f64_key v \<or> lo = v \<Longrightarrow>
     std_max lo (std_min v hi) = (v::f64)"
  by (auto simp: std_max_def std_min_def less_f64_def less_eq_f64_def)

lemma std_clamp_bounds:
  assumes "\<not> is_nan v" "lo \<le> (hi::f64)"
  shows "lo \<le> std_clamp v lo hi" "std_clamp v lo hi \<le> hi"
  using assms by (auto simp: std_clamp_def less_f64_def less_eq_f64_def)

lemma std_clamp_finite:
  "\<not> is_nan v \<Longrightarrow> is_finite lo \<Longrightarrow> is_finite hi \<Longrightarrow> lo \<le> hi \<Longrightarrow> is_finite (std_clamp v lo hi)"
  by (rule f64_between_finite [OF _ _ std_clamp_bounds])

subsection \<open>Binary lengths and rounding to an integer\<close>

lemma bit_length_bounds:
  "0 < n \<Longrightarrow> 0 < bit_length n \<and> 2 ^ nat (bit_length n - 1) \<le> n \<and> n < 2 ^ nat (bit_length n)"
proof (induction n rule: bit_length.induct)
  case (1 n)
  show ?case
  proof (cases "n = 1")
    case True
    then show ?thesis by (simp add: bit_length.simps)
  next
    case False
    with 1 have IH: "0 < bit_length (n div 2) \<and> 2 ^ nat (bit_length (n div 2) - 1) \<le> n div 2 \<and>
        n div 2 < 2 ^ nat (bit_length (n div 2))"
      by auto
    obtain k where k: "bit_length (n div 2) = 1 + int k"
      using IH by (metis add.commute int_one_le_iff_zero_less le_add_diff_inverse2 nat_0_le
          diff_ge_0_iff_ge)
    have n: "bit_length n = 2 + int k"
      using 1 k by (simp add: bit_length.simps [of n])
    from IH k have "2 ^ k \<le> n div 2" "n div 2 < 2 ^ Suc k"
      by (simp_all add: nat_add_distrib)
    then have "2 * 2 ^ k \<le> n \<and> n < 4 * 2 ^ k" by auto
    then show ?thesis by (simp add: n nat_add_distrib)
  qed
qed

lemma bit_length_pos: "0 < n \<Longrightarrow> 0 < bit_length n"
  by (simp add: bit_length_bounds)

lemma bit_length_double: "0 < n \<Longrightarrow> bit_length (2 * n) = 1 + bit_length n"
  by (subst bit_length.simps) simp

lemma bit_length_scale: "0 < n \<Longrightarrow> bit_length (n * 2 ^ k) = bit_length n + int k"
proof (induction k)
  case 0
  then show ?case by simp
next
  case (Suc k)
  have "bit_length (n * 2 ^ Suc k) = bit_length (2 * (n * 2 ^ k))" by (simp add: ac_simps)
  also have "\<dots> = 1 + bit_length (n * 2 ^ k)" using Suc by (intro bit_length_double) simp
  finally show ?case using Suc by simp
qed

lemma bit_length_mono: "0 < m \<Longrightarrow> m \<le> n \<Longrightarrow> bit_length m \<le> bit_length n"
proof (rule ccontr)
  assume "0 < m" "m \<le> n" "\<not> bit_length m \<le> bit_length n"
  then have "nat (bit_length n) \<le> nat (bit_length m - 1)"
    using bit_length_pos [of n] by simp
  then have "(2::int) ^ nat (bit_length n) \<le> 2 ^ nat (bit_length m - 1)"
    by (rule power_increasing) simp
  then show False
    using bit_length_bounds [of m] bit_length_bounds [of n] \<open>0 < m\<close> \<open>m \<le> n\<close> by linarith
qed

lemma rne_shift: "rne (m * 2 ^ i) (i + k) = rne m k"
proof -
  have q: "m * 2 ^ i div 2 ^ (i + k) = m div 2 ^ k"
    by (simp add: power_add mult.commute [of m])
  have "m * 2 ^ i mod 2 ^ (i + k) = (2 ^ i * m) mod (2 ^ i * 2 ^ k)"
    by (simp only: power_add mult.commute [of m])
  then have r: "m * 2 ^ i mod 2 ^ (i + k) = 2 ^ i * (m mod 2 ^ k)"
    by (simp only: mult_mod_right)
  have c: "2 * (2 ^ i * x) < 2 ^ (i + k) \<longleftrightarrow> 2 * x < 2 ^ k"
    "2 ^ (i + k) < 2 * (2 ^ i * x) \<longleftrightarrow> 2 ^ k < 2 * x" for x :: int
    unfolding power_add mult.left_commute [of 2] by simp_all
  show ?thesis unfolding rne_def Let_def q r c ..
qed

lemma rne_exact: "rne (m * 2 ^ (k + j)) k = m * 2 ^ j"
  by (simp add: rne_def Let_def power_add mult.commute mult.left_commute)

lemma rne_0 [simp]: "rne m 0 = m"
  by (simp add: rne_def)

lemma rne_near: "2 * \<bar>rne m k * 2 ^ k - m\<bar> \<le> 2 ^ k"
proof -
  define q r where "q = m div 2 ^ k" and "r = m mod 2 ^ k"
  have m: "m = q * 2 ^ k + r" unfolding q_def r_def by (rule div_mult_mod_eq [symmetric])
  have "0 \<le> r" "r < 2 ^ k" by (simp_all add: r_def)
  then show ?thesis
    by (simp add: rne_def Let_def flip: q_def r_def) (simp add: m algebra_simps)
qed

lemma rne_mono:
  assumes "m \<le> n"
  shows "rne m k \<le> rne n k"
proof (cases "m div 2 ^ k = n div 2 ^ k")
  case True
  then have "m mod 2 ^ k \<le> n mod 2 ^ k"
    using assms by (metis add_le_cancel_left mult_div_mod_eq)
  then show ?thesis using True by (auto simp: rne_def Let_def)
next
  case False
  then have "m div 2 ^ k + 1 \<le> n div 2 ^ k"
    using assms zdiv_mono1 [of m n "2 ^ k"] by simp
  then show ?thesis by (auto simp: rne_def Let_def)
qed

subsection \<open>Rounding to a pattern\<close>

lemma round_exp_scale: "0 < m \<Longrightarrow> round_exp (m * 2 ^ k) (e - int k) = round_exp m e"
  by (simp add: round_exp_def bit_length_scale)

lemma round_man_scale:
  assumes "0 < m"
  shows "round_man (m * 2 ^ k) (e - int k) = round_man m e"
proof -
  define q where "q = round_exp m e"
  have q': "round_exp (m * 2 ^ k) (e - int k) = q"
    using assms by (simp add: q_def round_exp_scale)
  consider "q \<le> e - int k" | "e - int k < q" "q \<le> e" | "e < q" by linarith
  then show ?thesis
  proof cases
    case 1
    then have "nat (e - q) = k + nat (e - int k - q)" by simp
    with 1 show ?thesis by (simp add: round_man_def q' power_add flip: q_def)
  next
    case 2
    then have "k = nat (q - (e - int k)) + nat (e - q)" by simp
    then have "rne (m * 2 ^ k) (nat (q - (e - int k))) = m * 2 ^ nat (e - q)"
      using rne_exact [of m "nat (q - (e - int k))" "nat (e - q)"] by simp
    with 2 show ?thesis by (simp add: round_man_def q' flip: q_def)
  next
    case 3
    then have "nat (q - (e - int k)) = k + nat (q - e)" by simp
    with 3 show ?thesis by (simp add: round_man_def q' rne_shift flip: q_def)
  qed
qed

lemma round_mag_scale: "0 < m \<Longrightarrow> round_mag (m * 2 ^ k) (e - int k) = round_mag m e"
  by (simp add: round_mag_def round_exp_scale round_man_scale)

text \<open>The rounded significand has at most 53 bits, and exactly 53 above the subnormal range.\<close>

lemma round_man_bounds:
  assumes "0 < m"
  shows "0 \<le> round_man m e" "round_man m e \<le> 2 ^ 53"
    "-1074 < round_exp m e \<Longrightarrow> 2 ^ 52 \<le> round_man m e"
proof -
  define q where "q = round_exp m e"
  have b: "2 ^ nat (bit_length m - 1) \<le> m" "m < 2 ^ nat (bit_length m)" "0 < bit_length m"
    using bit_length_bounds [OF assms(1)] by auto
  have bq: "e + bit_length m - 53 \<le> q" by (simp add: q_def round_exp_def)
  show "0 \<le> round_man m e"
    using rne_mono [of 0 m "nat (q - e)"] assms(1)
    by (simp add: round_man_def Let_def rne_def flip: q_def)
  show "round_man m e \<le> 2 ^ 53"
  proof (cases "q \<le> e")
    case True
    then have "m * 2 ^ nat (e - q) \<le> 2 ^ nat (bit_length m) * 2 ^ nat (e - q)"
      using b by simp
    also have "\<dots> \<le> 2 ^ 53"
      unfolding power_add [symmetric]
      using True bq b by (intro power_increasing) auto
    finally show ?thesis using True by (simp add: round_man_def flip: q_def)
  next
    case False
    have "m \<le> 2 ^ nat (bit_length m)" using b by simp
    also have "\<dots> \<le> 2 ^ (nat (q - e) + 53)"
      using False bq b by (intro power_increasing) auto
    finally have "rne m (nat (q - e)) \<le> rne (1 * 2 ^ (nat (q - e) + 53)) (nat (q - e))"
      by (intro rne_mono) simp
    then show ?thesis
      using False rne_exact [of 1 "nat (q - e)" 53] by (simp add: round_man_def flip: q_def)
  qed
  assume "-1074 < round_exp m e"
  then have q: "q = e + bit_length m - 53"
    by (simp add: q_def round_exp_def max_def split: if_splits)
  show "2 ^ 52 \<le> round_man m e"
  proof (cases "q \<le> e")
    case True
    have "(2::int) ^ 52 = 2 ^ nat (bit_length m - 1) * 2 ^ nat (e - q)"
      unfolding power_add [symmetric] using True q b
      by (intro arg_cong [where f = "power 2"]) auto
    also have "\<dots> \<le> m * 2 ^ nat (e - q)" using b by simp
    finally show ?thesis using True by (simp add: round_man_def flip: q_def)
  next
    case False
    have "(2::int) ^ (nat (q - e) + 52) = 2 ^ nat (bit_length m - 1)"
      using False q b by (intro arg_cong [where f = "power 2"]) auto
    then have "2 ^ (nat (q - e) + 52) \<le> m" using b by simp
    then have "rne (1 * 2 ^ (nat (q - e) + 52)) (nat (q - e)) \<le> rne m (nat (q - e))"
      by (intro rne_mono) simp
    then show ?thesis
      using False rne_exact [of 1 "nat (q - e)" 52] by (simp add: round_man_def flip: q_def)
  qed
qed

lemma round_exp_mono: "0 < m \<Longrightarrow> m \<le> n \<Longrightarrow> round_exp m e \<le> round_exp n e"
  using bit_length_mono [of m n] by (simp add: round_exp_def)

lemma round_exp_ge: "-1074 \<le> round_exp m e"
  by (simp add: round_exp_def)

lemma round_mag_mono_man:
  assumes "0 < m" "m \<le> n"
  shows "round_mag m e \<le> round_mag n e"
proof (cases "round_exp m e = round_exp n e")
  case True
  then have "round_man m e \<le> round_man n e"
    using assms by (simp add: round_man_def Let_def rne_mono)
  then show ?thesis using True by (simp add: round_mag_def)
next
  case False
  then have lt: "round_exp m e < round_exp n e" using round_exp_mono [OF assms, of e] by simp
  then have "round_man m e \<le> 2 ^ 53" "2 ^ 52 \<le> round_man n e"
    using round_man_bounds [of m e] round_man_bounds [of n e] assms round_exp_ge [of m e] by auto
  moreover have "(round_exp m e + 1075) * 2 ^ 52 \<le> (round_exp n e + 1074) * 2 ^ 52"
    using lt by simp
  ultimately show ?thesis by (simp add: round_mag_def)
qed

text \<open>Monotone in the value \<open>m * 2 ^ e\<close>, compared at a common exponent.\<close>

lemma round_mag_mono:
  assumes "0 < m" "0 < n" "m * 2 ^ nat (e - min e f) \<le> n * 2 ^ nat (f - min e f)"
  shows "round_mag m e \<le> round_mag n f"
proof -
  define g where "g = min e f"
  have "round_mag m e = round_mag (m * 2 ^ nat (e - g)) g"
    using round_mag_scale [OF assms(1), of "nat (e - g)" e] by (simp add: g_def)
  moreover have "round_mag n f = round_mag (n * 2 ^ nat (f - g)) g"
    using round_mag_scale [OF assms(2), of "nat (f - g)" f] by (simp add: g_def)
  ultimately show ?thesis
    using round_mag_mono_man [of "m * 2 ^ nat (e - g)" "n * 2 ^ nat (f - g)" g] assms
    by (simp add: g_def)
qed

lemma round_mag_nonneg: "0 < m \<Longrightarrow> 0 \<le> round_mag m e"
  using round_man_bounds(1) [of m e] round_exp_ge [of m e] by (simp add: round_mag_def)

subsection \<open>Decoding is exact\<close>

lemma f64_man_bounds: "0 \<le> f64_man x" "f64_man x < 2 ^ 53"
proof -
  have "f64_mag x mod 2 ^ 52 < 2 ^ 52" "0 \<le> f64_mag x mod 2 ^ 52" by simp_all
  then show "0 \<le> f64_man x" "f64_man x < 2 ^ 53" by (simp_all add: f64_man_def Let_def)
qed

lemma f64_man_0_iff: "f64_man x = 0 \<longleftrightarrow> f64_mag x = 0"
proof -
  have "0 \<le> f64_mag x mod 2 ^ 52" by simp
  moreover have "f64_mag x < 2 ^ 52 \<Longrightarrow> f64_mag x mod 2 ^ 52 = f64_mag x"
    by (intro mod_pos_pos_trivial) simp_all
  ultimately show ?thesis
    by (cases "f64_mag x < 2 ^ 52") (simp_all add: f64_man_def Let_def)
qed

lemma f64_exp_ge: "-1074 \<le> f64_exp x"
proof (cases "f64_mag x < 2 ^ 52")
  case False
  then have "2 ^ 52 div 2 ^ 52 \<le> f64_mag x div 2 ^ 52" by (intro zdiv_mono1) simp_all
  with False show ?thesis by (simp add: f64_exp_def)
qed (simp add: f64_exp_def)

text \<open>Re-rounding a decoded pattern gives the pattern back.\<close>

lemma round_mag_decode:
  assumes "0 < f64_mag x"
  shows "round_mag (f64_man x) (f64_exp x) = f64_mag x"
proof (cases "f64_mag x < 2 ^ 52")
  case True
  then have m: "f64_man x = f64_mag x" "f64_exp x = -1074"
    by (simp_all add: f64_man_def f64_exp_def)
  have "nat (bit_length (f64_mag x) - 1) < 52"
    using bit_length_bounds [OF assms] True
    by (metis order.strict_trans1 power_strict_increasing_iff one_less_numeral_iff semiring_norm(76))
  then have "bit_length (f64_mag x) \<le> 53" by simp
  then show ?thesis by (simp add: round_mag_def round_exp_def round_man_def Let_def m)
next
  case False
  define f where "f = f64_mag x mod 2 ^ 52"
  have f: "0 \<le> f" "f < 2 ^ 52" by (simp_all add: f_def)
  have m: "f64_man x = 2 ^ 52 + f" "f64_exp x = f64_mag x div 2 ^ 52 - 1075"
    using False by (simp_all add: f64_man_def f64_exp_def f_def Let_def)
  define b where "b = bit_length (f64_man x)"
  have b: "2 ^ nat (b - 1) \<le> f64_man x" "f64_man x < 2 ^ nat b" "0 < b"
    using bit_length_bounds [of "f64_man x"] f m by (simp_all add: b_def)
  have "(2::int) ^ 52 < 2 ^ nat b" using b f m by linarith
  moreover have "(2::int) ^ nat (b - 1) < 2 ^ 53" using b(1) f64_man_bounds(2) [of x] by linarith
  ultimately have "52 < nat b" "nat (b - 1) < 53"
    by (metis power_strict_increasing_iff one_less_numeral_iff semiring_norm(76))+
  then have b53: "b = 53" by simp
  then have "round_mag (f64_man x) (f64_exp x) = (f64_exp x + 1074) * 2 ^ 52 + f64_man x"
    using f64_exp_ge [of x] by (simp add: round_mag_def round_exp_def round_man_def Let_def flip: b_def)
  also have "\<dots> = f64_mag x div 2 ^ 52 * 2 ^ 52 + f" by (simp add: m algebra_simps)
  also have "\<dots> = f64_mag x" unfolding f_def by (rule div_mult_mod_eq)
  finally show ?thesis .
qed

lemma f64_round_decode [simp]:
  assumes "is_finite x"
  shows "f64_round (f64_neg x) (f64_man x) (f64_exp x) = x"
proof (cases "f64_mag x = 0")
  case True
  then show ?thesis
    by (metis f64_man_0_iff f64_make_collapse f64_round_def)
next
  case False
  then have "0 < f64_mag x" using f64_mag_bounds(1) [of x] by linarith
  then show ?thesis
    using assms False by (simp add: f64_round_def f64_man_0_iff round_mag_decode is_finite_def)
qed

lemma f64_round_scale: "0 \<le> m \<Longrightarrow> f64_round s (m * 2 ^ k) (e - int k) = f64_round s m e"
  by (cases "m = 0") (simp_all add: f64_round_def round_mag_scale)

subsection \<open>Magnitudes, significands and values keep the same order\<close>

text \<open>The value of a finite pattern as a multiple of the least subnormal.\<close>

definition subnormal_bits :: nat where "subnormal_bits = 1074"

definition f64_scaled :: "f64 \<Rightarrow> int" where
  "f64_scaled x = f64_man x * 2 ^ nat (f64_exp x + int subnormal_bits)"

lemma f64_mag_decode: "f64_mag x = (f64_exp x + 1074) * 2 ^ 52 + f64_man x"
proof (cases "f64_mag x < 2 ^ 52")
  case True
  then show ?thesis by (simp add: f64_man_def f64_exp_def)
next
  case False
  have "f64_mag x = f64_mag x div 2 ^ 52 * 2 ^ 52 + f64_mag x mod 2 ^ 52"
    by (rule div_mult_mod_eq [symmetric])
  with False show ?thesis by (simp add: f64_man_def f64_exp_def Let_def algebra_simps)
qed

lemma f64_man_normal: "-1074 < f64_exp x \<Longrightarrow> 2 ^ 52 \<le> f64_man x"
  by (auto simp: f64_exp_def f64_man_def Let_def split: if_splits)

lemma f64_dyadic_le:
  assumes "f64_mag x \<le> f64_mag y"
  shows "f64_exp x < f64_exp y \<or> f64_exp x = f64_exp y \<and> f64_man x \<le> f64_man y"
proof (rule ccontr)
  assume "\<not> ?thesis"
  then consider "f64_exp y < f64_exp x" | "f64_exp x = f64_exp y" "f64_man y < f64_man x"
    by linarith
  then show False
  proof cases
    case 1
    then have "2 ^ 52 \<le> f64_man x" using f64_exp_ge [of y] by (intro f64_man_normal) simp
    moreover have "(f64_exp y + 1075) * 2 ^ 52 \<le> (f64_exp x + 1074) * 2 ^ 52" using 1 by simp
    ultimately show False
      using assms f64_man_bounds [of y] f64_mag_decode [of x] f64_mag_decode [of y] by simp
  next
    case 2
    then show False using assms f64_mag_decode [of x] f64_mag_decode [of y] by simp
  qed
qed

lemma f64_value_le:
  assumes "f64_mag x \<le> f64_mag y" "g \<le> f64_exp x" "g \<le> f64_exp y"
  shows "f64_man x * 2 ^ nat (f64_exp x - g) \<le> f64_man y * 2 ^ nat (f64_exp y - g)"
proof -
  from f64_dyadic_le [OF assms(1)] consider
    "f64_exp x < f64_exp y" | "f64_exp x = f64_exp y" "f64_man x \<le> f64_man y" by auto
  then show ?thesis
  proof cases
    case 1
    define k where "k = nat (f64_exp y - f64_exp x - 1)"
    have k: "nat (f64_exp y - g) = Suc k + nat (f64_exp x - g)"
      using 1 assms(2,3) by (simp add: k_def)
    have "2 ^ 52 \<le> f64_man y" using 1 f64_exp_ge [of x] by (intro f64_man_normal) simp
    then have "f64_man x \<le> f64_man y * 2" using f64_man_bounds [of x] by simp
    also have "\<dots> \<le> f64_man y * 2 ^ Suc k"
      using f64_man_bounds(1) [of y] by (intro mult_left_mono) (simp_all add: one_le_power)
    finally have "f64_man x * 2 ^ nat (f64_exp x - g)
        \<le> f64_man y * 2 ^ Suc k * 2 ^ nat (f64_exp x - g)"
      by (intro mult_right_mono) simp_all
    then show ?thesis by (simp only: k power_add mult.assoc)
  next
    case 2
    then show ?thesis by simp
  qed
qed

lemma f64_scaled_mono: "f64_mag x \<le> f64_mag y \<Longrightarrow> f64_scaled x \<le> f64_scaled y"
  using f64_value_le [of x y "- int subnormal_bits"] f64_exp_ge [of x] f64_exp_ge [of y]
  by (simp add: f64_scaled_def subnormal_bits_def)

lemma f64_scaled_nonneg: "0 \<le> f64_scaled x"
  using f64_man_bounds(1) [of x] by (simp add: f64_scaled_def)

lemma scaled_div:
  fixes m e :: int
  assumes "0 \<le> e + int k"
  shows "(if 0 \<le> e then m * 2 ^ nat e else m div 2 ^ nat (- e)) = m * 2 ^ nat (e + int k) div 2 ^ k"
proof (cases "0 \<le> e")
  case True
  then have "nat (e + int k) = nat e + k" by simp
  with True show ?thesis by (simp add: power_add mult.assoc [symmetric])
next
  case False
  then have "k = nat (- e) + nat (e + int k)" using assms by simp
  then have "(2::int) ^ k = 2 ^ nat (- e) * 2 ^ nat (e + int k)" by (metis power_add)
  with False show ?thesis by simp
qed

lemma trunc_mag_scaled: "trunc_mag x = f64_scaled x div 2 ^ subnormal_bits"
  unfolding trunc_mag_def f64_scaled_def using f64_exp_ge [of x]
  by (intro scaled_div) (simp add: subnormal_bits_def)

lemma round_away_mag_scaled:
  "round_away_mag x = (2 * f64_scaled x + 2 ^ subnormal_bits) div (2 * 2 ^ subnormal_bits)"
proof (cases "0 \<le> f64_exp x")
  case True
  then have "nat (f64_exp x + int subnormal_bits) = nat (f64_exp x) + subnormal_bits" by simp
  moreover have "(2 * (n * p) + p) div (2 * p) = n" if "0 < p" for n p :: int
  proof -
    have "(2 * (n * p) + p) div (2 * p) = (n * (2 * p) + p) div (2 * p)" by (simp add: ac_simps)
    also have "\<dots> = n" using that by (subst div_mult_self3) simp_all
    finally show ?thesis .
  qed
  moreover from this [of "2 ^ subnormal_bits" "f64_man x * 2 ^ nat (f64_exp x)"]
  have "(2 * (f64_man x * 2 ^ nat (f64_exp x) * 2 ^ subnormal_bits) + 2 ^ subnormal_bits)
      div (2 * 2 ^ subnormal_bits) = f64_man x * 2 ^ nat (f64_exp x)"
    by simp
  ultimately show ?thesis
    using True by (simp add: round_away_mag_def f64_scaled_def power_add mult.assoc)
next
  case False
  define a b :: int where "a = 2 ^ nat (- f64_exp x)" and
    "b = 2 ^ nat (f64_exp x + int subnormal_bits)"
  have "subnormal_bits = nat (- f64_exp x) + nat (f64_exp x + int subnormal_bits)"
    using False f64_exp_ge [of x] by (simp add: subnormal_bits_def)
  then have ab: "(2::int) ^ subnormal_bits = a * b" unfolding a_def b_def by (metis power_add)
  have "0 < b" by (simp add: b_def)
  then have "((2 * f64_man x + a) * b) div ((2 * a) * b) = (2 * f64_man x + a) div (2 * a)"
    by simp
  then show ?thesis
    using False by (simp add: round_away_mag_def f64_scaled_def ab algebra_simps flip: a_def b_def)
qed

lemma trunc_mag_mono: "f64_mag x \<le> f64_mag y \<Longrightarrow> trunc_mag x \<le> trunc_mag y"
  by (simp add: trunc_mag_scaled f64_scaled_mono zdiv_mono1)

lemma round_away_mag_mono: "f64_mag x \<le> f64_mag y \<Longrightarrow> round_away_mag x \<le> round_away_mag y"
  by (simp add: round_away_mag_scaled f64_scaled_mono zdiv_mono1)

lemma trunc_mag_nonneg: "0 \<le> trunc_mag x"
  by (simp add: trunc_mag_scaled f64_scaled_nonneg pos_imp_zdiv_nonneg_iff)

lemma round_away_mag_nonneg: "0 \<le> round_away_mag x"
  by (simp add: round_away_mag_scaled f64_scaled_nonneg pos_imp_zdiv_nonneg_iff)

lemma f64_scaled_0: "f64_mag x = 0 \<Longrightarrow> f64_scaled x = 0"
  by (simp add: f64_scaled_def f64_man_0_iff)

lemma trunc_mag_0: "f64_mag x = 0 \<Longrightarrow> trunc_mag x = 0"
  by (simp add: trunc_mag_scaled f64_scaled_0)

lemma round_away_mag_0: "f64_mag x = 0 \<Longrightarrow> round_away_mag x = 0"
  by (simp add: round_away_mag_scaled f64_scaled_0 div_pos_pos_trivial)

text \<open>Truncation and rounding to an integer are monotone, so a clamped value converts in range.\<close>

lemma signed_mono:
  assumes "\<And>x y. f64_mag x \<le> f64_mag y \<Longrightarrow> g x \<le> (g y :: int)" "\<And>x. 0 \<le> g x"
    and "\<And>x. f64_mag x = 0 \<Longrightarrow> g x = 0" and "f64_key x \<le> f64_key y"
  shows "(if f64_neg x then - g x else g x) \<le> (if f64_neg y then - g y else g y)"
proof -
  have "f64_mag x = 0 \<and> f64_mag y = 0" if "\<not> f64_neg x" "f64_neg y"
    using that assms(4) f64_mag_bounds(1) [of x] f64_mag_bounds(1) [of y]
    unfolding f64_key_def by (simp only: if_True if_False) linarith
  then show ?thesis
    using assms(1) [of x y] assms(1) [of y x] assms(2) [of x] assms(2) [of y] assms(3) [of x]
      assms(3) [of y] assms(4)
    by (auto simp: f64_key_def split: if_splits)
qed

lemma f64_trunc_mono: "(x::f64) \<le> y \<Longrightarrow> f64_trunc x \<le> f64_trunc y"
  unfolding f64_trunc_def less_eq_f64_def
  by (rule signed_mono) (simp_all add: trunc_mag_mono trunc_mag_nonneg trunc_mag_0)

lemma f64_lround_mono: "(x::f64) \<le> y \<Longrightarrow> f64_lround x \<le> f64_lround y"
  unfolding f64_lround_def less_eq_f64_def
  by (rule signed_mono)
    (simp_all add: round_away_mag_mono round_away_mag_nonneg round_away_mag_0)

subsection \<open>Integers below \<open>2 ^ 53\<close> are exact\<close>

lemma round_int:
  assumes "0 < m" "m < 2 ^ 53"
  defines "b \<equiv> bit_length m"
  shows "round_mag m 0 = (b + 1021) * 2 ^ 52 + m * 2 ^ nat (53 - b)"
    "0 < b" "b \<le> 53" "2 ^ 52 \<le> m * 2 ^ nat (53 - b)" "m * 2 ^ nat (53 - b) < 2 ^ 53"
proof -
  have b: "0 < b" "2 ^ nat (b - 1) \<le> m" "m < 2 ^ nat b"
    using bit_length_bounds [OF assms(1)] by (auto simp: b_def)
  then have "(2::int) ^ nat (b - 1) < 2 ^ 53" using assms(2) by linarith
  then have "nat (b - 1) < 53"
    by (metis power_strict_increasing_iff one_less_numeral_iff semiring_norm(76))
  then show b53: "0 < b" "b \<le> 53" using b by simp_all
  have e: "round_exp m 0 = b - 53" using b53 by (simp add: round_exp_def b_def)
  have r: "round_man m 0 = m * 2 ^ nat (53 - b)" using b53 by (simp add: round_man_def e)
  show "round_mag m 0 = (b + 1021) * 2 ^ 52 + m * 2 ^ nat (53 - b)"
    by (simp add: round_mag_def e r)
  show "2 ^ 52 \<le> m * 2 ^ nat (53 - b)"
    using round_man_bounds(3) [OF assms(1), of 0] b53 by (simp add: e r)
  have "m * 2 ^ nat (53 - b) < 2 ^ nat b * 2 ^ nat (53 - b)" using b by simp
  also have "\<dots> = 2 ^ 53"
    unfolding power_add [symmetric] using b53 by (intro arg_cong [where f = "power 2"]) simp
  finally show "m * 2 ^ nat (53 - b) < 2 ^ 53" .
qed

lemma f64_of_int_mag:
  assumes "0 < \<bar>i\<bar>" "\<bar>i\<bar> < 2 ^ 53"
  shows "f64_of_int i = f64_make (i < 0) (round_mag \<bar>i\<bar> 0)" "0 < round_mag \<bar>i\<bar> 0"
    "round_mag \<bar>i\<bar> 0 < inf_mag"
proof -
  note r = round_int [OF assms]
  have "(bit_length \<bar>i\<bar> + 1021) * 2 ^ 52 \<le> 1074 * 2 ^ 52"
    using r(3) by (intro mult_right_mono) simp_all
  with r(5) show lt: "round_mag \<bar>i\<bar> 0 < inf_mag" by (simp add: r(1))
  have "0 \<le> (bit_length \<bar>i\<bar> + 1021) * 2 ^ 52" using r(2) by simp
  with r(4) show "0 < round_mag \<bar>i\<bar> 0" by (simp add: r(1))
  show "f64_of_int i = f64_make (i < 0) (round_mag \<bar>i\<bar> 0)"
    using assms lt by (simp add: f64_of_int_def f64_round_def)
qed

lemma f64_of_int_0 [simp]: "f64_of_int 0 = 0"
  by (simp add: f64_of_int_def f64_round_def zero_f64_make)

text \<open>The decoded pattern of an integer below \<open>2 ^ 53\<close>: finite, signed as the integer, exact.\<close>

lemma div_mod_block:
  assumes "0 \<le> (r::int)" "r < 2 ^ 52"
  shows "(a * 2 ^ 52 + r) div 2 ^ 52 = a" "(a * 2 ^ 52 + r) mod 2 ^ 52 = r"
  using assms by (simp_all add: add.commute [of _ r])

lemma f64_of_int_decoded:
  assumes "\<bar>i\<bar> < 2 ^ 53"
  shows "is_finite (f64_of_int i) \<and> (f64_neg (f64_of_int i) \<longleftrightarrow> i < 0) \<and>
      f64_exp (f64_of_int i) \<le> 0 \<and>
      f64_man (f64_of_int i) = \<bar>i\<bar> * 2 ^ nat (- f64_exp (f64_of_int i))"
proof (cases "i = 0")
  case True
  then show ?thesis
    by (simp add: is_finite_def f64_exp_def f64_man_def)
next
  case False
  define b where "b = bit_length \<bar>i\<bar>"
  have pos: "0 < \<bar>i\<bar>" using False by simp
  note r = round_int [OF pos assms, folded b_def] and o = f64_of_int_mag [OF pos assms]
  define m where "m = \<bar>i\<bar> * 2 ^ nat (53 - b)"
  have m: "2 ^ 52 \<le> m" "m < 2 ^ 53" using r by (simp_all add: m_def)
  have mag: "f64_mag (f64_of_int i) = (b + 1021) * 2 ^ 52 + m"
    using o r by (simp add: m_def)
  then have "f64_mag (f64_of_int i) = (b + 1022) * 2 ^ 52 + (m - 2 ^ 52)" by simp
  moreover have "0 \<le> m - 2 ^ 52" "m - 2 ^ 52 < 2 ^ 52" using m by simp_all
  ultimately have d: "f64_mag (f64_of_int i) div 2 ^ 52 = b + 1022"
    and md: "f64_mag (f64_of_int i) mod 2 ^ 52 = m - 2 ^ 52"
    by (simp_all only: div_mod_block)
  have big: "\<not> f64_mag (f64_of_int i) < 2 ^ 52"
    using m r(2) by (simp add: mag)
  have e: "f64_exp (f64_of_int i) = b - 53" using big d by (simp add: f64_exp_def)
  have "f64_man (f64_of_int i) = \<bar>i\<bar> * 2 ^ nat (- f64_exp (f64_of_int i))"
    using big md by (simp add: f64_man_def e m_def)
  moreover have "is_finite (f64_of_int i)" "f64_neg (f64_of_int i) \<longleftrightarrow> i < 0"
    using o by (simp_all add: is_finite_def)
  ultimately show ?thesis using r(3) e by simp
qed

lemmas f64_of_int_decode =
  f64_of_int_decoded [THEN conjunct1]
  f64_of_int_decoded [THEN conjunct2, THEN conjunct1]
  f64_of_int_decoded [THEN conjunct2, THEN conjunct2, THEN conjunct1]
  f64_of_int_decoded [THEN conjunct2, THEN conjunct2, THEN conjunct2]

lemma f64_of_int_sman:
  "\<bar>i\<bar> < 2 ^ 53 \<Longrightarrow> f64_sman (f64_of_int i) = i * 2 ^ nat (- f64_exp (f64_of_int i))"
  using f64_of_int_decode(2,4) [of i] by (simp add: f64_sman_def)

lemma f64_of_int_finite [simp]: "\<bar>i\<bar> < 2 ^ 53 \<Longrightarrow> is_finite (f64_of_int i)"
  by (rule f64_of_int_decode)

lemma f64_round_int:
  "0 \<le> m \<Longrightarrow> f64_round s (m * 2 ^ k) (- int k) = f64_round s m 0"
  using f64_round_scale [of m s k 0] by simp

theorem f64_add_int:
  assumes "\<bar>i\<bar> < 2 ^ 53" "\<bar>j\<bar> < 2 ^ 53"
  shows "f64_of_int i + f64_of_int j = f64_of_int (i + j)"
proof -
  define x y where "x = f64_of_int i" and "y = f64_of_int j"
  define e where "e = min (f64_exp x) (f64_exp y)"
  have e: "f64_exp x \<le> 0" "f64_exp y \<le> 0" "e \<le> f64_exp x" "e \<le> f64_exp y"
    using f64_of_int_decode(3) [OF assms(1)] f64_of_int_decode(3) [OF assms(2)]
    by (simp_all add: x_def y_def e_def)
  have "nat (- f64_exp x) + nat (f64_exp x - e) = nat (- e)"
    "nat (- f64_exp y) + nat (f64_exp y - e) = nat (- e)" using e by linarith+
  then have n: "f64_sman x * 2 ^ nat (f64_exp x - e) + f64_sman y * 2 ^ nat (f64_exp y - e)
      = (i + j) * 2 ^ nat (- e)"
    using f64_of_int_sman [OF assms(1)] f64_of_int_sman [OF assms(2)]
    by (simp add: x_def [symmetric] y_def [symmetric] mult.assoc distrib_right
        flip: power_add)
  have fin: "is_finite x" "is_finite y" using assms by (simp_all add: x_def y_def)
  have neg: "f64_neg x \<longleftrightarrow> i < 0" "f64_neg y \<longleftrightarrow> j < 0"
    using f64_of_int_decode(2) assms by (simp_all add: x_def y_def)
  have "f64_add x y = f64_of_int (i + j)"
  proof (cases "i + j = 0")
    case True
    then have "\<not> (f64_neg x \<and> f64_neg y)" using neg by linarith
    then show ?thesis using True fin n by (auto simp: f64_add_def Let_def zero_f64_make simp flip: e_def)
  next
    case False
    have "\<bar>(i + j) * 2 ^ nat (- e)\<bar> = \<bar>i + j\<bar> * 2 ^ nat (- e)" by (simp add: abs_mult)
    moreover have "(i + j) * 2 ^ nat (- e) < 0 \<longleftrightarrow> i + j < 0" by (simp add: mult_less_0_iff)
    ultimately show ?thesis
      using False fin n f64_round_int [of "\<bar>i + j\<bar>" "i + j < 0" "nat (- e)"] e
      by (simp add: f64_add_def Let_def f64_of_int_def flip: e_def)
  qed
  then show ?thesis by (simp add: plus_f64_def x_def y_def)
qed

lemma f64_neg_of_int:
  assumes "\<bar>i\<bar> < 2 ^ 53" "i \<noteq> 0"
  shows "f64_negate (f64_of_int i) = f64_of_int (- i)"
proof -
  have "0 < \<bar>i\<bar>" "0 < \<bar>- i\<bar>" "\<bar>- i\<bar> < 2 ^ 53" using assms by auto
  then show ?thesis
    using f64_of_int_mag [of i] f64_of_int_mag [of "- i"] assms
    by (cases "i < 0") (auto simp: f64_negate_def)
qed

theorem f64_sub_int:
  assumes "\<bar>i\<bar> < 2 ^ 53" "\<bar>j\<bar> < 2 ^ 53" "j \<noteq> 0 \<or> i \<noteq> 0"
  shows "f64_of_int i - f64_of_int j = f64_of_int (i - j)"
proof (cases "j = 0")
  case True
  have "f64_add (f64_of_int i) (f64_negate 0) = f64_of_int i"
  proof -
    have z: "f64_mag (f64_negate 0) = 0" by (simp add: f64_negate_def)
    have "is_finite (f64_negate 0)" "is_finite (f64_of_int i)"
      using z assms(1) f64_of_int_decode(1) [of i] by (simp_all add: is_finite_def)
    moreover have "f64_exp (f64_negate 0) = -1074" "f64_sman (f64_negate 0) = 0"
      using z f64_man_0_iff [of "f64_negate 0"] by (simp_all add: f64_exp_def f64_sman_def)
    moreover have "f64_sman (f64_of_int i) \<noteq> 0"
      using f64_of_int_sman [OF assms(1)] True assms(3) by simp
    ultimately show ?thesis
      using f64_exp_ge [of "f64_of_int i"] f64_round_decode [of "f64_of_int i"]
        f64_round_scale [of "f64_man (f64_of_int i)" "f64_neg (f64_of_int i)"
          "nat (f64_exp (f64_of_int i) + 1074)" "f64_exp (f64_of_int i)"]
        f64_man_bounds(1) [of "f64_of_int i"]
      by (auto simp: f64_add_def Let_def f64_sman_def abs_mult mult_less_0_iff min_def)
  qed
  then show ?thesis using True by (simp add: minus_f64_def)
next
  case False
  then show ?thesis
    using f64_add_int [of i "- j"] assms f64_neg_of_int [of j]
    by (simp add: minus_f64_def plus_f64_def)
qed

text \<open>Multiplying and dividing non-negative integers and one.\<close>

theorem f64_mul_int:
  assumes "0 \<le> i" "i < 2 ^ 53" "0 \<le> j" "j < 2 ^ 53"
  shows "f64_of_int i * f64_of_int j = f64_of_int (i * j)"
proof -
  define x y where "x = f64_of_int i" and "y = f64_of_int j"
  have ab: "\<bar>i\<bar> < 2 ^ 53" "\<bar>j\<bar> < 2 ^ 53" using assms by simp_all
  note dx = f64_of_int_decode [OF ab(1), folded x_def] and dy = f64_of_int_decode [OF ab(2), folded y_def]
  define k where "k = nat (- f64_exp x) + nat (- f64_exp y)"
  have m: "f64_man x * f64_man y = (i * j) * 2 ^ k"
    using dx(4) dy(4) assms by (simp add: k_def power_add ac_simps)
  have e: "f64_exp x + f64_exp y = - int k" using dx(3) dy(3) by (simp add: k_def)
  have "f64_round False (f64_man x * f64_man y) (f64_exp x + f64_exp y)
      = f64_round False (i * j) 0"
    unfolding m e using assms by (intro f64_round_int) simp
  moreover have "\<not> f64_neg x" "\<not> f64_neg y" using dx(2) dy(2) assms by simp_all
  moreover have "\<not> is_nan x" "\<not> is_inf x" "\<not> is_nan y" "\<not> is_inf y"
    using dx(1) dy(1) by (simp_all add: is_finite_def is_nan_def is_inf_def)
  ultimately have "f64_mul x y = f64_round False (i * j) 0"
    by (simp only: f64_mul_def Let_def) simp
  moreover have "\<not> i * j < 0" "\<bar>i * j\<bar> = i * j" using assms by (simp_all add: not_less)
  ultimately have "f64_mul x y = f64_of_int (i * j)" by (simp only: f64_of_int_def)
  then show ?thesis by (simp only: times_f64_def x_def y_def)
qed

lemma one_f64_decode: "f64_mag 1 = 4607182418800017408" "\<not> f64_neg 1" "is_finite 1"
    "f64_man 1 = 2 ^ 52" "f64_exp 1 = -52"
  by (simp_all add: one_f64_def f64_mag_def f64_neg_def is_finite_def f64_man_def f64_exp_def)

theorem f64_div_one:
  assumes "is_finite x"
  shows "x div 1 = x"
proof -
  have "f64_man x * 2 ^ 128 = f64_man x * 2 ^ 76 * 2 ^ 52" by simp
  then have q: "f64_man x * 2 ^ 128 div 2 ^ 52 = f64_man x * 2 ^ 76"
    "f64_man x * 2 ^ 128 mod 2 ^ 52 = 0" by (simp_all only: nonzero_mult_div_cancel_right
        mod_mult_self2_is_0 power_not_zero) simp
  have "round_quotient (f64_neg x) (f64_man x) (2 ^ 52) (f64_exp x + 52)
      = f64_round (f64_neg x) (f64_man x * 2 ^ 77) (f64_exp x - int 77)"
    by (simp only: round_quotient_def Let_def q) (simp add: ac_simps)
  also have "\<dots> = x"
    using assms f64_round_scale [OF f64_man_bounds(1) [of x], of "f64_neg x" 77 "f64_exp x"] by simp
  finally show ?thesis
    using assms one_f64_decode by (simp add: divide_f64_def f64_div_def Let_def)
qed

lemma f64_scaled_of_int:
  assumes "\<bar>i\<bar> < 2 ^ 53"
  shows "f64_scaled (f64_of_int i) = \<bar>i\<bar> * 2 ^ subnormal_bits"
proof -
  define x where "x = f64_of_int i"
  note d = f64_of_int_decode [OF assms, folded x_def]
  have "nat (- f64_exp x) + nat (f64_exp x + int subnormal_bits) = subnormal_bits"
    using d(3) f64_exp_ge [of x] by (simp add: subnormal_bits_def)
  then show ?thesis
    using d(4) by (simp add: f64_scaled_def mult.assoc flip: x_def power_add)
qed

lemma trunc_mag_of_int: "\<bar>i\<bar> < 2 ^ 53 \<Longrightarrow> trunc_mag (f64_of_int i) = \<bar>i\<bar>"
  by (simp add: trunc_mag_scaled f64_scaled_of_int)

lemma round_away_mag_of_int:
  assumes "\<bar>i\<bar> < 2 ^ 53"
  shows "round_away_mag (f64_of_int i) = \<bar>i\<bar>"
proof -
  define p :: int where "p = 2 ^ subnormal_bits"
  have "0 < p" by (simp add: p_def)
  then have "(2 * (\<bar>i\<bar> * p) + p) div (2 * p) = (\<bar>i\<bar> * (2 * p) + p) div (2 * p)"
    by (simp add: ac_simps)
  also have "\<dots> = \<bar>i\<bar>" using \<open>0 < p\<close> by (subst div_mult_self3) simp_all
  finally show ?thesis
    by (simp add: round_away_mag_scaled f64_scaled_of_int [OF assms] flip: p_def)
qed

theorem f64_trunc_of_int [simp]: "\<bar>i\<bar> < 2 ^ 53 \<Longrightarrow> f64_trunc (f64_of_int i) = i"
  using f64_of_int_decode(2) [of i] by (simp add: f64_trunc_def trunc_mag_of_int)

theorem f64_lround_of_int [simp]: "\<bar>i\<bar> < 2 ^ 53 \<Longrightarrow> f64_lround (f64_of_int i) = i"
  using f64_of_int_decode(2) [of i] by (simp add: f64_lround_def round_away_mag_of_int)

theorem std_round_of_int: "\<bar>i\<bar> < 2 ^ 53 \<Longrightarrow> std_round (f64_of_int i) = f64_of_int i"
  using f64_of_int_decode(1,2) [of i]
  by (simp add: std_round_def round_away_mag_of_int) (simp add: f64_of_int_def)

text \<open>The order of the doubles is the order of the integers.\<close>

lemma f64_key_of_int_mono:
  assumes "\<bar>i\<bar> < 2 ^ 53" "\<bar>j\<bar> < 2 ^ 53" "i < j"
  shows "f64_key (f64_of_int i) < f64_key (f64_of_int j)"
proof (rule ccontr)
  assume "\<not> ?thesis"
  then have "f64_of_int j \<le> f64_of_int i"
    using assms by (simp add: less_eq_f64_def)
  from f64_trunc_mono [OF this] show False using assms by simp
qed

theorem f64_of_int_less_iff:
  assumes "\<bar>i\<bar> < 2 ^ 53" "\<bar>j\<bar> < 2 ^ 53"
  shows "f64_of_int i < f64_of_int j \<longleftrightarrow> i < j"
  using f64_key_of_int_mono [OF assms] f64_key_of_int_mono [OF assms(2,1)] assms
  by (cases i j rule: linorder_cases) (auto simp: less_f64_def)

theorem f64_of_int_le_iff:
  assumes "\<bar>i\<bar> < 2 ^ 53" "\<bar>j\<bar> < 2 ^ 53"
  shows "f64_of_int i \<le> f64_of_int j \<longleftrightarrow> i \<le> j"
  using f64_of_int_less_iff [OF assms(2,1)] assms
  by (auto simp: f64_not_less [symmetric])

theorem f64_of_int_eq_iff:
  assumes "\<bar>i\<bar> < 2 ^ 53" "\<bar>j\<bar> < 2 ^ 53"
  shows "f64_eq (f64_of_int i) (f64_of_int j) \<longleftrightarrow> i = j"
  using f64_key_of_int_mono [OF assms] f64_key_of_int_mono [OF assms(2,1)] assms
  by (cases i j rule: linorder_cases) (auto simp: f64_eq_def)

subsection \<open>Rounding never crosses a representable value\<close>

theorem f64_round_le:
  assumes "is_finite y" "\<not> f64_neg y" "0 \<le> m"
    and "m * 2 ^ nat (e - min e (f64_exp y)) \<le> f64_man y * 2 ^ nat (f64_exp y - min e (f64_exp y))"
  shows "f64_round False m e \<le> y"
proof (cases "m = 0")
  case True
  then show ?thesis
    using assms(1,2) by (simp add: f64_round_def less_eq_f64_def is_nan_def f64_key_def is_finite_def)
next
  case False
  then have "0 < m" using assms(3) by simp
  then have "0 < f64_man y"
    using assms(4) f64_man_bounds(1) [of y]
    by (metis less_le mult_eq_0_iff not_le zero_less_mult_iff zero_less_numeral zero_less_power)
  then have "0 < f64_mag y" using f64_man_0_iff [of y] f64_mag_bounds(1) [of y] by linarith
  have "round_mag m e \<le> f64_mag y"
    using round_mag_mono [OF \<open>0 < m\<close> \<open>0 < f64_man y\<close> assms(4)] round_mag_decode [OF \<open>0 < f64_mag y\<close>]
    by simp
  then show ?thesis
    using assms(1,2) False round_mag_nonneg [OF \<open>0 < m\<close>, of e]
    by (simp add: f64_round_def Let_def is_finite_def less_eq_f64_def is_nan_def f64_key_def)
qed

end
