(* ===== verification/Types_Model.thy ===== *)
theory Types_Model
  imports M3_Prelude Float64_Laws
begin

text \<open>
  The data every component shares: \<open>include/m3/types.hpp\<close>, \<open>constants.hpp\<close>,
  \<open>fixed_vector.hpp\<close> and \<open>pitch_math.hpp\<close>.

  The enumerations have the fixed underlying type \<open>std::uint8_t\<close>, the program casts bytes
  to them and tests values for being one of the enumerators. Where it does, the datatype has
  one more constructor for the bytes that name no enumerator.
\<close>

subsection \<open>Constants\<close>

definition kDecisionQuantum :: nat where "kDecisionQuantum = 64"
definition kMaxHostFrames :: nat where "kMaxHostFrames = 16384"
definition kMaxVoices :: nat where "kMaxVoices = 8"
definition kMaxTickTransitions :: nat where "kMaxTickTransitions = 16"
definition kTunerNoSignalNote :: u8 where "kTunerNoSignalNote = 128"
definition kUnassignedVoiceId :: u8 where "kUnassignedVoiceId = 255"
definition kM3OpenNotes :: "u8 list" where
  "kM3OpenNotes = [32, 36, 40, 44, 48, 52, 56, 60]"

lemmas constant_defs = kDecisionQuantum_def kMaxHostFrames_def kMaxVoices_def
  kMaxTickTransitions_def kTunerNoSignalNote_def kUnassignedVoiceId_def

subsection \<open>Enumerations\<close>

datatype MidiRouting = routing_single | routing_per_voice | routing_unlisted u8
datatype ProfileMode = profile_m3 | profile_general | profile_unlisted u8
datatype VelocityMode = velocity_fixed | velocity_dynamic | velocity_unlisted u8
datatype TransitionKind = note_off | note_on | kind_unlisted u8

datatype Status =
    status_ready
  | status_panic_hold
  | status_reconfiguring
  | status_midi_output_blocked
  | status_invalid_input_or_state
  | status_unsupported_layout

datatype PrepareError =
    prepare_none | invalid_sample_rate | invalid_config | unsafe_frame_count

text \<open>The casts between the bytes and the enumerations.\<close>

fun MidiRouting_to_u8 :: "MidiRouting \<Rightarrow> u8" where
  "MidiRouting_to_u8 routing_single = 0"
| "MidiRouting_to_u8 routing_per_voice = 1"
| "MidiRouting_to_u8 (routing_unlisted b) = b"

definition MidiRouting_of_u8 :: "u8 \<Rightarrow> MidiRouting" where
  "MidiRouting_of_u8 b =
     (if b = 0 then routing_single else if b = 1 then routing_per_voice else routing_unlisted b)"

fun ProfileMode_to_u8 :: "ProfileMode \<Rightarrow> u8" where
  "ProfileMode_to_u8 profile_m3 = 0"
| "ProfileMode_to_u8 profile_general = 1"
| "ProfileMode_to_u8 (profile_unlisted b) = b"

definition ProfileMode_of_u8 :: "u8 \<Rightarrow> ProfileMode" where
  "ProfileMode_of_u8 b =
     (if b = 0 then profile_m3 else if b = 1 then profile_general else profile_unlisted b)"

fun VelocityMode_to_u8 :: "VelocityMode \<Rightarrow> u8" where
  "VelocityMode_to_u8 velocity_fixed = 0"
| "VelocityMode_to_u8 velocity_dynamic = 1"
| "VelocityMode_to_u8 (velocity_unlisted b) = b"

definition VelocityMode_of_u8 :: "u8 \<Rightarrow> VelocityMode" where
  "VelocityMode_of_u8 b =
     (if b = 0 then velocity_fixed else if b = 1 then velocity_dynamic else velocity_unlisted b)"

fun Status_to_u8 :: "Status \<Rightarrow> u8" where
  "Status_to_u8 status_ready = 0"
| "Status_to_u8 status_panic_hold = 1"
| "Status_to_u8 status_reconfiguring = 2"
| "Status_to_u8 status_midi_output_blocked = 3"
| "Status_to_u8 status_invalid_input_or_state = 4"
| "Status_to_u8 status_unsupported_layout = 5"

lemma enum_of_to_u8 [codec_simps]:
  "MidiRouting_of_u8 0 = routing_single" "MidiRouting_of_u8 1 = routing_per_voice"
  "ProfileMode_of_u8 0 = profile_m3" "ProfileMode_of_u8 1 = profile_general"
  "VelocityMode_of_u8 0 = velocity_fixed" "VelocityMode_of_u8 1 = velocity_dynamic"
  by (simp_all add: MidiRouting_of_u8_def ProfileMode_of_u8_def VelocityMode_of_u8_def)

lemma Status_to_u8_inject: "Status_to_u8 a = Status_to_u8 b \<longleftrightarrow> a = b"
  by (cases a; cases b) simp_all

text \<open>
  The program compares statuses by their underlying byte (the more severe one wins), so
  they are ordered by it.
\<close>

instantiation Status :: linorder
begin

definition less_eq_Status :: "Status \<Rightarrow> Status \<Rightarrow> bool" where
  "a \<le> b \<longleftrightarrow> Status_to_u8 a \<le> Status_to_u8 b"

definition less_Status :: "Status \<Rightarrow> Status \<Rightarrow> bool" where
  "a < b \<longleftrightarrow> Status_to_u8 a < Status_to_u8 b"

instance
  by standard (auto simp: less_eq_Status_def less_Status_def Status_to_u8_inject [symmetric])

end

subsection \<open>Records\<close>

record TunerEstimate =
  te_updated :: bool
  te_signal :: bool
  te_note :: u8
  te_cents :: f64

definition TunerEstimate_default :: TunerEstimate where
  "TunerEstimate_default =
     \<lparr>te_updated = False, te_signal = False, te_note = kTunerNoSignalNote, te_cents = 0\<rparr>"

record PersistentConfig =
  midi_routing :: MidiRouting
  profile_mode :: ProfileMode
  a4_hz :: f64
  input_trim_db :: f64
  sensitivity :: u8
  response :: u8
  lowest_note :: u8
  highest_note :: u8
  max_polyphony :: u8
  max_fret :: u8
  velocity_mode :: VelocityMode
  fixed_velocity :: u8
  midi_channel :: u8
  dry_passthrough :: bool

definition PersistentConfig_default :: PersistentConfig where
  "PersistentConfig_default =
     \<lparr>midi_routing = routing_single, profile_mode = profile_m3, a4_hz = f64_of_int 440,
      input_trim_db = f64_of_int 0, sensitivity = 50, response = 25, lowest_note = 32,
      highest_note = 84, max_polyphony = 8, max_fret = 24, velocity_mode = velocity_dynamic,
      fixed_velocity = 100, midi_channel = 1, dry_passthrough = True\<rparr>"

record VoiceTransition =
  vt_sample_offset :: u32
  vt_kind :: TransitionKind
  vt_note :: u8
  vt_velocity :: u8
  vt_sequence :: u32
  vt_voice_id :: u8

definition VoiceTransition_default :: VoiceTransition where
  "VoiceTransition_default =
     \<lparr>vt_sample_offset = 0, vt_kind = note_off, vt_note = 0, vt_velocity = 0, vt_sequence = 0,
      vt_voice_id = kUnassignedVoiceId\<rparr>"

subsection \<open>Fixed vectors and pitch arithmetic\<close>

text \<open>\<open>FixedVector<T, Capacity>\<close> is the list of its first \<open>size_\<close> elements.\<close>

definition fixed_vector_push_back :: "nat \<Rightarrow> 'a list \<Rightarrow> 'a \<Rightarrow> bool \<times> 'a list" where
  "fixed_vector_push_back capacity xs x =
     (if capacity \<le> length xs then (False, xs) else (True, xs @ [x]))"

lemma fixed_vector_push_back_bound:
  "length xs \<le> capacity \<Longrightarrow> length (snd (fixed_vector_push_back capacity xs x)) \<le> capacity"
  by (simp add: fixed_vector_push_back_def)

text \<open>\<open>std::exp2\<close> is the argument \<open>exp2\<close>.\<close>

definition midi_to_frequency :: "(f64 \<Rightarrow> f64) \<Rightarrow> f64 \<Rightarrow> f64 \<Rightarrow> f64" where
  "midi_to_frequency exp2 midi_note a4 =
     a4 * exp2 ((midi_note - f64_of_int 69) div f64_of_int 12)"

end
