(* ===== verification/Note_Ledger.thy ===== *)
theory Note_Ledger
  imports Types_Model
begin

text \<open>
  The ledger of generated notes (\<open>src/generated_note_ledger.cpp\<close>): the transitions queued
  for one block, ordered for delivery; the eight voices the host has been told to sound;
  and the flags that block the output after a failed push and hold it after a panic.

  The sink the ledger pushes to is a function on a state \<open>'s\<close>. It also gets the ledger and
  returns it, because the CLAP sink calls back into the ledger (\<open>report_output_failure\<close>)
  while the ledger is inside \<open>deliver\<close>. Allocation success is an argument.
\<close>

subsection \<open>State\<close>

record ActiveVoice =
  av_active :: bool
  av_pending_release :: bool
  av_note :: u8
  av_channel :: u8
  av_voice_id :: u8

definition ActiveVoice_default :: ActiveVoice where
  "ActiveVoice_default =
     \<lparr>av_active = False, av_pending_release = False, av_note = 0, av_channel = 0,
      av_voice_id = kUnassignedVoiceId\<rparr>"

record NoteLedger =
  storage :: "VoiceTransition list option"
  capacity :: nat
  queue_size :: nat
  max_frames :: u32
  voices :: "ActiveVoice list"
  active_count :: u8
  invalid_transition :: bool
  output_blocked :: bool
  cleanup_complete :: bool
  panic_hold :: bool
  recovery_requested :: bool
  hold_calls_remaining :: u8

definition NoteLedger_default :: NoteLedger where
  "NoteLedger_default =
     \<lparr>storage = None, capacity = 0, queue_size = 0, max_frames = 0,
      voices = replicate kMaxVoices ActiveVoice_default, active_count = 0,
      invalid_transition = False, output_blocked = False, cleanup_complete = False,
      panic_hold = False, recovery_requested = False, hold_calls_remaining = 0\<rparr>"

record NoteDeliveryResult =
  nd_output_blocked :: bool
  nd_panic_hold :: bool
  nd_detection_allowed :: bool

text \<open>\<open>NoteEventSink\<close>: \<open>None\<close> is the null function pointer.\<close>

type_synonym 's push_fun =
  "NoteLedger \<Rightarrow> 's \<Rightarrow> VoiceTransition \<Rightarrow> u8 \<Rightarrow> bool \<times> NoteLedger \<times> 's"

type_synonym 's note_event_sink = "'s push_fun option"

subsection \<open>Storage\<close>

definition kQuietPeak :: f64 where "kQuietPeak = f64_rat 1 10000"

definition ledger_ticks :: "u32 \<Rightarrow> nat" where
  "ledger_ticks frames = (unat frames + kDecisionQuantum - 1) div kDecisionQuantum"

text \<open>
  \<open>alloc\<close> says whether \<open>new (std::nothrow)\<close> of that many transitions succeeds. The test
  against the largest \<open>size_t\<close> is the source's.
\<close>

definition allocate_storage :: "(nat \<Rightarrow> bool) \<Rightarrow> u32 \<Rightarrow> NoteLedger \<Rightarrow> bool \<times> NoteLedger" where
  "allocate_storage alloc frames L =
     (if frames = 0 \<or> kMaxHostFrames < unat frames then (False, L)
      else if (2 ^ 64 - 1 - kMaxVoices) div kMaxTickTransitions < ledger_ticks frames
      then (False, L)
      else let requested = ledger_ticks frames * kMaxTickTransitions + kMaxVoices
           in if \<not> alloc requested then (False, L)
              else (True, L\<lparr>storage := Some (replicate requested VoiceTransition_default),
                            capacity := requested, max_frames := frames\<rparr>))"

definition drop_storage :: "NoteLedger \<Rightarrow> NoteLedger" where
  "drop_storage L =
     L\<lparr>storage := None, capacity := 0, queue_size := 0, max_frames := 0,
       invalid_transition := False\<rparr>"

definition ledger_deactivate :: "NoteLedger \<Rightarrow> NoteLedger" where
  "ledger_deactivate L =
     L\<lparr>storage := None, capacity := 0, queue_size := 0, max_frames := 0,
       voices := replicate kMaxVoices ActiveVoice_default, active_count := 0,
       invalid_transition := False, output_blocked := False, cleanup_complete := False,
       panic_hold := False, recovery_requested := False, hold_calls_remaining := 0\<rparr>"

definition ledger_activate :: "(nat \<Rightarrow> bool) \<Rightarrow> u32 \<Rightarrow> NoteLedger \<Rightarrow> bool \<times> NoteLedger" where
  "ledger_activate alloc frames L = allocate_storage alloc frames (ledger_deactivate L)"

definition activate_preserving_pending ::
  "(nat \<Rightarrow> bool) \<Rightarrow> u32 \<Rightarrow> NoteLedger \<Rightarrow> bool \<times> NoteLedger" where
  "activate_preserving_pending alloc frames L = allocate_storage alloc frames (drop_storage L)"

definition ledger_begin_block :: "NoteLedger \<Rightarrow> NoteLedger" where
  "ledger_begin_block L = L\<lparr>queue_size := 0, invalid_transition := False\<rparr>"

subsection \<open>Releases, blocking and recovery\<close>

text \<open>The loop marks every active voice; \<open>any\<close> is whether it met one.\<close>

definition mark_release :: "ActiveVoice \<Rightarrow> ActiveVoice" where
  "mark_release v = (if av_active v then v\<lparr>av_pending_release := True\<rparr> else v)"

definition request_release_all :: "NoteLedger \<Rightarrow> NoteLedger" where
  "request_release_all L =
     (let L' = L\<lparr>voices := map mark_release (voices L)\<rparr>
      in if list_ex av_active (voices L) then L'\<lparr>cleanup_complete := False\<rparr> else L')"

definition enter_blocked :: "NoteLedger \<Rightarrow> NoteLedger" where
  "enter_blocked L =
     request_release_all (L\<lparr>output_blocked := True, cleanup_complete := False\<rparr>)"

definition report_output_failure :: "NoteLedger \<Rightarrow> NoteLedger" where
  "report_output_failure L = enter_blocked L"

definition request_recovery :: "NoteLedger \<Rightarrow> NoteLedger" where
  "request_recovery L =
     L\<lparr>panic_hold := True, recovery_requested := True, hold_calls_remaining := 1\<rparr>"

definition release_storage_preserving_pending :: "NoteLedger \<Rightarrow> NoteLedger" where
  "release_storage_preserving_pending L = drop_storage (request_release_all L)"

subsection \<open>The queue\<close>

definition transition_before :: "VoiceTransition \<Rightarrow> VoiceTransition \<Rightarrow> bool" where
  "transition_before l r =
     (if vt_sample_offset l \<noteq> vt_sample_offset r then vt_sample_offset l < vt_sample_offset r
      else if vt_kind l \<noteq> vt_kind r then vt_kind l = note_off
      else vt_sequence l < vt_sequence r)"

text \<open>The \<open>while\<close> loop that shifts later entries up, and the store after it.\<close>

fun shift_insert :: "VoiceTransition list \<Rightarrow> nat \<Rightarrow> VoiceTransition \<Rightarrow> VoiceTransition list" where
  "shift_insert st 0 t = st[0 := t]"
| "shift_insert st (Suc p) t =
     (if transition_before t (st ! p) then shift_insert (st[Suc p := st ! p]) p t
      else st[Suc p := t])"

definition valid_transition :: "VoiceTransition \<Rightarrow> u32 \<Rightarrow> bool" where
  "valid_transition t frames \<longleftrightarrow>
     (let off = (vt_kind t = note_off); on = (vt_kind t = note_on);
          valid_velocity = (off \<and> vt_velocity t = 0
                            \<or> on \<and> 0 < vt_velocity t \<and> vt_velocity t \<le> 127);
          valid_voice = (vt_voice_id t = kUnassignedVoiceId
                         \<or> unat (vt_voice_id t) < kMaxVoices)
      in vt_sample_offset t < frames \<and> (off \<or> on) \<and> vt_note t \<le> 127
         \<and> valid_velocity \<and> valid_voice)"

definition queue_transition :: "VoiceTransition \<Rightarrow> u32 \<Rightarrow> NoteLedger \<Rightarrow> bool \<times> NoteLedger" where
  "queue_transition t frames L =
     (case storage L of
        None \<Rightarrow> (False, L\<lparr>invalid_transition := True\<rparr>)
      | Some st \<Rightarrow>
          if capacity L \<le> queue_size L \<or> frames = 0 \<or> max_frames L < frames
             \<or> \<not> valid_transition t frames
          then (False, L\<lparr>invalid_transition := True\<rparr>)
          else (True, L\<lparr>storage := Some (shift_insert st (queue_size L) t),
                        queue_size := queue_size L + 1\<rparr>))"

fun queue_releases_from ::
  "ActiveVoice list \<Rightarrow> u32 \<Rightarrow> u32 \<Rightarrow> u32 \<Rightarrow> bool \<Rightarrow> NoteLedger \<Rightarrow> bool \<times> NoteLedger" where
  "queue_releases_from [] offset frames seq complete L = (complete, L)"
| "queue_releases_from (v # vs) offset frames seq complete L =
     (if \<not> av_active v then queue_releases_from vs offset frames seq complete L
      else let t = \<lparr>vt_sample_offset = offset, vt_kind = note_off, vt_note = av_note v,
                    vt_velocity = 0, vt_sequence = seq, vt_voice_id = av_voice_id v\<rparr>;
               (ok, L') = queue_transition t frames L
           in queue_releases_from vs offset frames (seq + 1) (ok \<and> complete) L')"

definition queue_active_releases :: "u32 \<Rightarrow> u32 \<Rightarrow> NoteLedger \<Rightarrow> bool \<times> NoteLedger" where
  "queue_active_releases offset frames L =
     queue_releases_from (voices L) offset frames 0 True L"

text \<open>The transitions the next delivery reads.\<close>

definition queued :: "NoteLedger \<Rightarrow> VoiceTransition list" where
  "queued L = (case storage L of None \<Rightarrow> [] | Some st \<Rightarrow> take (queue_size L) st)"

subsection \<open>Searching the voices\<close>

definition occupied :: "ActiveVoice \<Rightarrow> bool" where
  "occupied v \<longleftrightarrow> av_active v \<or> av_pending_release v"

definition voice_matches :: "VoiceTransition \<Rightarrow> ActiveVoice \<Rightarrow> bool" where
  "voice_matches t v \<longleftrightarrow>
     occupied v \<and> av_note v = vt_note t
     \<and> (if unat (vt_voice_id t) < kMaxVoices then av_voice_id v = vt_voice_id t
        else av_voice_id v = kUnassignedVoiceId)"

definition find_voice :: "NoteLedger \<Rightarrow> VoiceTransition \<Rightarrow> nat" where
  "find_voice L t = first_index (voice_matches t) (voices L)"

definition find_free_voice :: "NoteLedger \<Rightarrow> nat" where
  "find_free_voice L = first_index (\<lambda>v. \<not> av_active v \<and> \<not> av_pending_release v) (voices L)"

definition ledger_is_active :: "NoteLedger \<Rightarrow> u8 \<Rightarrow> bool" where
  "ledger_is_active L n \<longleftrightarrow>
     n \<le> 127 \<and> list_ex (\<lambda>v. av_active v \<and> av_note v = n) (voices L)"

definition ledger_is_pending_release :: "NoteLedger \<Rightarrow> u8 \<Rightarrow> bool" where
  "ledger_is_pending_release L n \<longleftrightarrow>
     n \<le> 127 \<and> list_ex (\<lambda>v. av_pending_release v \<and> av_note v = n) (voices L)"

definition release_pending :: "NoteLedger \<Rightarrow> bool" where
  "release_pending L \<longleftrightarrow> list_ex av_pending_release (voices L)"

subsection \<open>Channels\<close>

text \<open>\<open>((start - 1 + slot) % 16) + 1\<close>, in 32-bit unsigned arithmetic, cast to a byte.\<close>

definition route_channel :: "u8 \<Rightarrow> u8 \<Rightarrow> u8" where
  "route_channel start slot = ucast (((ucast start :: u32) - 1 + ucast slot) mod 16 + 1)"

definition channel_used :: "NoteLedger \<Rightarrow> u8 \<Rightarrow> bool" where
  "channel_used L c \<longleftrightarrow> list_ex (\<lambda>v. occupied v \<and> av_channel v = c) (voices L)"

fun first_free_channel :: "NoteLedger \<Rightarrow> u8 \<Rightarrow> nat list \<Rightarrow> u8" where
  "first_free_channel L start [] = 0"
| "first_free_channel L start (slot # slots) =
     (let c = route_channel start (of_nat slot)
      in if channel_used L c then first_free_channel L start slots else c)"

definition allocate_channel :: "NoteLedger \<Rightarrow> MidiRouting \<Rightarrow> u8 \<Rightarrow> VoiceTransition \<Rightarrow> u8" where
  "allocate_channel L routing start t =
     (if start < 1 \<or> 16 < start then 0
      else if routing = routing_single then start
      else if routing \<noteq> routing_per_voice then 0
      else if unat (vt_voice_id t) < kMaxVoices
      then let c = route_channel start (vt_voice_id t) in if channel_used L c then 0 else c
      else first_free_channel L start [0..<kMaxVoices])"

subsection \<open>Delivery\<close>

definition push ::
  "'s note_event_sink \<Rightarrow> NoteLedger \<Rightarrow> 's \<Rightarrow> VoiceTransition \<Rightarrow> u8 \<Rightarrow> bool \<times> NoteLedger \<times> 's" where
  "push sink L s t channel =
     (case sink of
        None \<Rightarrow> (False, L, s)
      | Some f \<Rightarrow> if 1 \<le> channel \<and> channel \<le> 16 then f L s t channel else (False, L, s))"

text \<open>\<open>if (voice.active && active_count_ > 0U) --active_count_; voice = {};\<close>\<close>

definition clear_voice :: "nat \<Rightarrow> NoteLedger \<Rightarrow> NoteLedger" where
  "clear_voice slot L =
     L\<lparr>active_count := (if av_active (voices L ! slot) \<and> 0 < active_count L
                        then active_count L - 1 else active_count L),
       voices := (voices L)[slot := ActiveVoice_default]\<rparr>"

definition release_transition :: "ActiveVoice \<Rightarrow> nat \<Rightarrow> VoiceTransition" where
  "release_transition v n =
     \<lparr>vt_sample_offset = 0, vt_kind = note_off, vt_note = av_note v, vt_velocity = 0,
      vt_sequence = of_nat n, vt_voice_id = av_voice_id v\<rparr>"

text \<open>The two nested loops of \<open>retry_pending_releases\<close>: the voices, and around them the notes.\<close>

fun retry_slots ::
  "'s note_event_sink \<Rightarrow> nat \<Rightarrow> nat list \<Rightarrow> NoteLedger \<Rightarrow> 's \<Rightarrow> bool \<times> NoteLedger \<times> 's" where
  "retry_slots sink n [] L s = (True, L, s)"
| "retry_slots sink n (slot # slots) L s =
     (let v = voices L ! slot
      in if \<not> av_pending_release v \<or> unat (av_note v) \<noteq> n then retry_slots sink n slots L s
         else let (ok, L', s') = push sink L s (release_transition v n) (av_channel v)
              in if \<not> ok then (False, enter_blocked L', s')
                 else retry_slots sink n slots (clear_voice slot L') s')"

fun retry_notes ::
  "'s note_event_sink \<Rightarrow> nat list \<Rightarrow> NoteLedger \<Rightarrow> 's \<Rightarrow> bool \<times> NoteLedger \<times> 's" where
  "retry_notes sink [] L s = (True, L, s)"
| "retry_notes sink (n # ns) L s =
     (let (ok, L', s') = retry_slots sink n [0..<kMaxVoices] L s
      in if ok then retry_notes sink ns L' s' else (False, L', s'))"

definition retry_pending_releases ::
  "'s note_event_sink \<Rightarrow> NoteLedger \<Rightarrow> 's \<Rightarrow> bool \<times> NoteLedger \<times> 's" where
  "retry_pending_releases sink L s =
     (if \<not> release_pending L then (True, L\<lparr>cleanup_complete := True\<rparr>, s)
      else let (ok, L', s') = retry_notes sink [0..<128] L s
           in if ok then (True, L'\<lparr>cleanup_complete := True\<rparr>, s') else (False, L', s'))"

definition finish_hold :: "f64 \<Rightarrow> bool \<Rightarrow> bool \<Rightarrow> NoteLedger \<Rightarrow> NoteLedger" where
  "finish_hold selected_peak finite_input supported_layout L =
     (if \<not> panic_hold L then L
      else if 0 < hold_calls_remaining L
      then L\<lparr>hold_calls_remaining := hold_calls_remaining L - 1\<rparr>
      else if recovery_requested L \<and> cleanup_complete L \<and> finite_input \<and> supported_layout
              \<and> is_finite selected_peak \<and> selected_peak < kQuietPeak
      then L\<lparr>panic_hold := False, recovery_requested := False, output_blocked := False,
             cleanup_complete := False\<rparr>
      else L)"

text \<open>The two branches of the delivery loop; the first component is whether the loop goes on.\<close>

definition deliver_note_off ::
  "'s note_event_sink \<Rightarrow> VoiceTransition \<Rightarrow> NoteLedger \<Rightarrow> 's \<Rightarrow> bool \<times> NoteLedger \<times> 's" where
  "deliver_note_off sink t L s =
     (let slot = find_voice L t
      in if length (voices L) \<le> slot then (False, enter_blocked L, s)
         else let (ok, L', s') = push sink L s t (av_channel (voices L ! slot))
              in if \<not> ok
                 then (False,
                       enter_blocked (L'\<lparr>voices := (voices L')
                          [slot := (voices L' ! slot)\<lparr>av_pending_release := True\<rparr>]\<rparr>), s')
                 else (True, clear_voice slot L', s'))"

definition identity_in_use :: "NoteLedger \<Rightarrow> VoiceTransition \<Rightarrow> bool" where
  "identity_in_use L t \<longleftrightarrow>
     find_voice L t < length (voices L)
     \<or> unat (vt_voice_id t) < kMaxVoices
       \<and> list_ex (\<lambda>v. occupied v \<and> av_voice_id v = vt_voice_id t) (voices L)"

definition add_voice :: "nat \<Rightarrow> VoiceTransition \<Rightarrow> u8 \<Rightarrow> NoteLedger \<Rightarrow> NoteLedger" where
  "add_voice slot t channel L =
     L\<lparr>voices := (voices L)
         [slot := \<lparr>av_active = True, av_pending_release = False, av_note = vt_note t,
                   av_channel = channel, av_voice_id = vt_voice_id t\<rparr>],
       active_count := active_count L + 1\<rparr>"

definition deliver_note_on ::
  "'s note_event_sink \<Rightarrow> MidiRouting \<Rightarrow> u8 \<Rightarrow> VoiceTransition \<Rightarrow> NoteLedger \<Rightarrow> 's
     \<Rightarrow> bool \<times> NoteLedger \<times> 's" where
  "deliver_note_on sink routing start t L s =
     (if panic_hold L then (True, L, s)
      else if identity_in_use L t then (False, enter_blocked L, s)
      else if kMaxVoices \<le> unat (active_count L) then (False, enter_blocked L, s)
      else let channel = allocate_channel L routing start t; slot = find_free_voice L
           in if channel = 0 \<or> length (voices L) \<le> slot then (False, enter_blocked L, s)
              else let (ok, L', s') = push sink L s t channel
                   in if \<not> ok then (False, enter_blocked L', s')
                      else (True, add_voice slot t channel L', s'))"

fun deliver_events ::
  "'s note_event_sink \<Rightarrow> MidiRouting \<Rightarrow> u8 \<Rightarrow> u32 \<Rightarrow> VoiceTransition list \<Rightarrow> NoteLedger \<Rightarrow> 's
     \<Rightarrow> NoteLedger \<times> 's" where
  "deliver_events sink routing start frames [] L s = (L, s)"
| "deliver_events sink routing start frames (t # ts) L s =
     (if frames \<le> vt_sample_offset t then deliver_events sink routing start frames ts L s
      else let (go, L', s') = (if vt_kind t = note_off then deliver_note_off sink t L s
                               else deliver_note_on sink routing start t L s)
           in if go then deliver_events sink routing start frames ts L' s' else (L', s'))"

text \<open>The checks of a block's delivery; a failed check only sets \<open>invalid_transition_\<close>.\<close>

definition check_delivery :: "u32 \<Rightarrow> MidiRouting \<Rightarrow> u8 \<Rightarrow> NoteLedger \<Rightarrow> NoteLedger" where
  "check_delivery frames routing start L =
     (let L1 = (if start < 1 \<or> 16 < start
                   \<or> (routing \<noteq> routing_single \<and> routing \<noteq> routing_per_voice)
                then L\<lparr>invalid_transition := True\<rparr> else L)
      in if list_ex (\<lambda>t. frames \<le> vt_sample_offset t) (queued L1)
         then L1\<lparr>invalid_transition := True\<rparr> else L1)"

definition deliver_queued ::
  "u32 \<Rightarrow> 's note_event_sink \<Rightarrow> f64 \<Rightarrow> bool \<Rightarrow> bool \<Rightarrow> MidiRouting \<Rightarrow> u8 \<Rightarrow> NoteLedger \<Rightarrow> 's
     \<Rightarrow> NoteDeliveryResult \<times> NoteLedger \<times> 's" where
  "deliver_queued frames sink selected_peak finite_input supported_layout routing start L s =
     (if storage L = None \<or> frames = 0 \<or> max_frames L < frames
      then (\<lparr>nd_output_blocked = output_blocked L, nd_panic_hold = panic_hold L,
             nd_detection_allowed = False\<rparr>, L\<lparr>invalid_transition := True\<rparr>, s)
      else let L2 = check_delivery frames routing start L;
               (L3, s3) = (if \<not> release_pending L2 \<and> \<not> output_blocked L2
                           then deliver_events sink routing start frames (queued L2) L2 s
                           else (L2, s));
               L4 = finish_hold selected_peak finite_input supported_layout L3
           in (\<lparr>nd_output_blocked = output_blocked L4, nd_panic_hold = panic_hold L4,
                nd_detection_allowed =
                  (\<not> invalid_transition L4 \<and> \<not> output_blocked L4 \<and> \<not> panic_hold L4)\<rparr>, L4, s3))"

definition deliver ::
  "u32 \<Rightarrow> 's note_event_sink \<Rightarrow> f64 \<Rightarrow> bool \<Rightarrow> bool \<Rightarrow> MidiRouting \<Rightarrow> u8 \<Rightarrow> NoteLedger \<Rightarrow> 's
     \<Rightarrow> NoteDeliveryResult \<times> NoteLedger \<times> 's" where
  "deliver frames sink selected_peak finite_input supported_layout routing start L s =
     (let (_, L', s') = retry_pending_releases sink L s
      in deliver_queued frames sink selected_peak finite_input supported_layout routing start L' s')"

end
