(* ===== verification/Note_Queue.thy ===== *)
theory Note_Queue
  imports Note_Ledger "HOL-Library.Multiset" "HOL-Library.Product_Lexorder"
begin

text \<open>
  The queue of \<open>Note_Ledger\<close> against its specification: the shifting insertion keeps the
  accepted transitions in the stable order by sample offset, then note-offs before
  note-ons, then sequence number.
\<close>

subsection \<open>The order as a key\<close>

definition queue_key :: "VoiceTransition \<Rightarrow> nat \<times> bool \<times> nat" where
  "queue_key t = (unat (vt_sample_offset t), vt_kind t \<noteq> note_off, unat (vt_sequence t))"

definition listed_kind :: "VoiceTransition \<Rightarrow> bool" where
  "listed_kind t \<longleftrightarrow> vt_kind t = note_off \<or> vt_kind t = note_on"

lemma valid_transition_listed: "valid_transition t frames \<Longrightarrow> listed_kind t"
  by (auto simp: valid_transition_def listed_kind_def Let_def)

lemma valid_transition_mono:
  "valid_transition t frames \<Longrightarrow> frames \<le> frames' \<Longrightarrow> valid_transition t frames'"
  by (auto simp: valid_transition_def Let_def)

lemma transition_before_key:
  "listed_kind l \<Longrightarrow> listed_kind r \<Longrightarrow> transition_before l r \<longleftrightarrow> queue_key l < queue_key r"
  by (auto simp: transition_before_def queue_key_def listed_kind_def word_less_nat_alt
        word_unat_eq_iff)

subsection \<open>The shifting loop\<close>

lemma shift_insert_length [simp]: "length (shift_insert st p t) = length st"
  by (induction st p t rule: shift_insert.induct) simp_all

lemma shift_insert_above: "p < i \<Longrightarrow> shift_insert st p t ! i = st ! i"
  by (induction st p t rule: shift_insert.induct) simp_all

lemma shift_insert_split:
  "p < length st \<Longrightarrow>
     \<exists>k \<le> p. take (Suc p) (shift_insert st p t) = take k st @ t # drop k (take p st)
        \<and> (\<forall>i. k \<le> i \<longrightarrow> i < p \<longrightarrow> transition_before t (st ! i))
        \<and> (0 < k \<longrightarrow> \<not> transition_before t (st ! (k - 1)))"
proof (induction st p t rule: shift_insert.induct)
  case (1 st t)
  then show ?case by (cases st) auto
next
  case (2 st p t)
  show ?case
  proof (cases "transition_before t (st ! p)")
    case False
    then have "take (Suc (Suc p)) (shift_insert st (Suc p) t) = take (Suc p) st @ [t]"
      using 2 by (simp add: take_Suc_conv_app_nth)
    with False show ?thesis by (intro exI [of _ "Suc p"]) auto
  next
    case True
    let ?st = "st[Suc p := st ! p]"
    obtain k where k: "k \<le> p"
      "take (Suc p) (shift_insert ?st p t) = take k ?st @ t # drop k (take p ?st)"
      "\<forall>i. k \<le> i \<longrightarrow> i < p \<longrightarrow> transition_before t (?st ! i)"
      "0 < k \<longrightarrow> \<not> transition_before t (?st ! (k - 1))"
      using 2 True by auto
    have last: "shift_insert ?st p t ! Suc p = st ! p"
      using "2.prems" by (simp add: shift_insert_above)
    have "take (Suc (Suc p)) (shift_insert st (Suc p) t)
        = (take k st @ t # drop k (take p st)) @ [st ! p]"
      using True k(1,2) "2.prems" last by (simp add: take_Suc_conv_app_nth [of "Suc p"])
    also have "\<dots> = take k st @ t # drop k (take (Suc p) st)"
      using k(1) "2.prems" by (simp add: take_Suc_conv_app_nth)
    finally show ?thesis
      using k True by (intro exI [of _ k]) (auto simp: less_Suc_eq)
  qed
qed

subsection \<open>Storage invariant\<close>

text \<open>
  What the storage holds between calls: its capacity is sixteen transitions for each tick
  of the largest block and eight more, and its live part is valid and in order.
\<close>

definition storage_wf :: "NoteLedger \<Rightarrow> bool" where
  "storage_wf L \<longleftrightarrow>
     (case storage L of
        None \<Rightarrow> capacity L = 0 \<and> queue_size L = 0 \<and> max_frames L = 0
      | Some st \<Rightarrow>
          length st = capacity L
          \<and> capacity L = ledger_ticks (max_frames L) * kMaxTickTransitions + kMaxVoices
          \<and> 0 < max_frames L \<and> unat (max_frames L) \<le> kMaxHostFrames
          \<and> queue_size L \<le> capacity L)
     \<and> list_all (\<lambda>t. valid_transition t (max_frames L)) (queued L)
     \<and> sorted (map queue_key (queued L))"

lemma storage_wf_length:
  "storage_wf L \<Longrightarrow> length (queued L) = queue_size L"
  by (auto simp: storage_wf_def queued_def split: option.splits)

lemma storage_wf_cong:
  "storage L' = storage L \<Longrightarrow> capacity L' = capacity L \<Longrightarrow> queue_size L' = queue_size L
     \<Longrightarrow> max_frames L' = max_frames L \<Longrightarrow> storage_wf L' = storage_wf L"
  by (simp add: storage_wf_def queued_def split: option.splits)

lemma sort_key_snoc_sorted:
  assumes "sorted (map f (take k xs @ t # drop k xs))"
    and "\<And>x. x \<in> set (drop k xs) \<Longrightarrow> f x \<noteq> f t"
  shows "take k xs @ t # drop k xs = sort_key f (xs @ [t])"
proof (rule sym, rule properties_for_sort_key)
  show "mset (take k xs @ t # drop k xs) = mset (xs @ [t])"
    using arg_cong [where f = mset, OF append_take_drop_id [of k xs]]
    by (simp del: append_take_drop_id)
  show "filter (\<lambda>x. f y = f x) (take k xs @ t # drop k xs) = filter (\<lambda>x. f y = f x) (xs @ [t])"
    if "y \<in> set (take k xs @ t # drop k xs)" for y
  proof (cases "f y = f t")
    case True
    then have "filter (\<lambda>x. f y = f x) (drop k xs) = []"
      using assms(2) True by (metis (mono_tags, lifting) filter_False)
    moreover have "filter (\<lambda>x. f y = f x) xs
        = filter (\<lambda>x. f y = f x) (take k xs) @ filter (\<lambda>x. f y = f x) (drop k xs)"
      by (metis append_take_drop_id filter_append)
    ultimately show ?thesis using True by simp
  next
    case False
    then show ?thesis by simp (metis append_take_drop_id filter_append)
  qed
  show "sorted (map f (take k xs @ t # drop k xs))" by (fact assms(1))
qed

lemma queue_transition_ok_iff:
  "fst (queue_transition t frames L) \<longleftrightarrow>
     storage L \<noteq> None \<and> queue_size L < capacity L \<and> frames \<noteq> 0 \<and> frames \<le> max_frames L
     \<and> valid_transition t frames"
  by (auto simp: queue_transition_def split: option.splits)

lemma queue_transition_rejected:
  "\<not> fst (queue_transition t frames L)
     \<Longrightarrow> snd (queue_transition t frames L) = L\<lparr>invalid_transition := True\<rparr>"
  by (auto simp: queue_transition_def split: option.splits if_splits)

lemma queue_transition_accepted:
  assumes wf: "storage_wf L" and ok: "fst (queue_transition t frames L)"
  defines "L' \<equiv> snd (queue_transition t frames L)"
  shows "queued L' = sort_key queue_key (queued L @ [t])" and "storage_wf L'"
proof -
  from ok obtain st where st: "storage L = Some st" and room: "queue_size L < capacity L"
    and fr: "frames \<le> max_frames L" and valid: "valid_transition t frames"
    by (auto simp: queue_transition_ok_iff)
  have L': "L' = L\<lparr>storage := Some (shift_insert st (queue_size L) t),
                   queue_size := queue_size L + 1\<rparr>"
    using ok st unfolding L'_def by (auto simp: queue_transition_def split: if_splits)
  let ?p = "queue_size L" and ?xs = "take (queue_size L) st"
  have len: "?p < length st" using wf st room by (simp add: storage_wf_def)
  have qd: "queued L = ?xs" using st by (simp add: queued_def)
  obtain k where k: "k \<le> ?p" "take (Suc ?p) (shift_insert st ?p t) = take k st @ t # drop k ?xs"
    "\<And>i. k \<le> i \<Longrightarrow> i < ?p \<Longrightarrow> transition_before t (st ! i)"
    "0 < k \<Longrightarrow> \<not> transition_before t (st ! (k - 1))"
    using shift_insert_split [OF len] by blast
  have all: "list_all (\<lambda>t. valid_transition t (max_frames L)) ?xs"
    and srt: "sorted (map queue_key ?xs)"
    using wf qd by (simp_all add: storage_wf_def)
  have lk: "listed_kind x" if "x \<in> set ?xs" for x
    using all that valid_transition_listed by (auto simp: list_all_iff)
  note lt = valid_transition_listed [OF valid]
  have after: "queue_key t < queue_key x" if "x \<in> set (drop k ?xs)" for x
  proof -
    obtain i where i: "i < length (drop k ?xs)" "x = drop k ?xs ! i"
      using \<open>x \<in> set (drop k ?xs)\<close> by (metis in_set_conv_nth)
    then have "x = st ! (k + i)" "k + i < ?p" using len by auto
    moreover have "x \<in> set ?xs" using that by (rule in_set_dropD)
    ultimately show ?thesis using k(3) [of "k + i"] transition_before_key [OF lt lk] by simp
  qed
  have before: "queue_key x \<le> queue_key t" if "x \<in> set (take k ?xs)" for x
  proof -
    obtain i where i: "i < k" "x = ?xs ! i"
      using \<open>x \<in> set (take k ?xs)\<close> k(1) len by (auto simp: in_set_conv_nth)
    have "queue_key x \<le> queue_key (?xs ! (k - 1))"
      using srt i k(1) len by (auto simp: sorted_iff_nth_mono)
    moreover have "\<not> queue_key t < queue_key (?xs ! (k - 1))"
      using k(1,4) i len transition_before_key [OF lt lk, of "?xs ! (k - 1)"] nth_mem [of "k - 1" ?xs]
      by simp
    ultimately show ?thesis by (simp add: not_less)
  qed
  have srt': "sorted (map queue_key (take k ?xs @ t # drop k ?xs))"
  proof -
    have "sorted (map queue_key (take k ?xs))" "sorted (map queue_key (drop k ?xs))"
      using sorted_wrt_take [OF srt, of k] sorted_wrt_drop [OF srt, of k]
      by (simp_all only: take_map drop_map)
    then show ?thesis
      using after before by (fastforce simp: sorted_append less_imp_le intro: order_trans)
  qed
  have q': "queued L' = take k ?xs @ t # drop k ?xs"
    using k(1,2) by (simp add: L' queued_def min_def)
  show sk: "queued L' = sort_key queue_key (queued L @ [t])"
    unfolding q' qd using after by (intro sort_key_snoc_sorted srt') force
  have "list_all (\<lambda>t. valid_transition t (max_frames L)) (queued L')"
    using all valid_transition_mono [OF valid fr] set_take_subset [of k ?xs] set_drop_subset [of k ?xs]
    by (auto simp: q' list_all_iff)
  then show "storage_wf L'"
    using wf st room srt' q' by (simp add: storage_wf_def L' queued_def)
qed

end
