(* ===== verification/Note_Invariant.thy ===== *)
theory Note_Invariant
  imports Note_Queue
begin

text \<open>
  The invariant of the ledger (\<open>Note_Ledger\<close>) and its preservation by every operation that
  does not push; the effect of the elementary voice updates on the multiset of sounding
  notes.
\<close>

subsection \<open>Invariant\<close>

definition voice_wf :: "ActiveVoice \<Rightarrow> bool" where
  "voice_wf v \<longleftrightarrow>
     (if av_active v
      then 1 \<le> av_channel v \<and> av_channel v \<le> 16 \<and> av_note v \<le> 127
           \<and> (av_voice_id v = kUnassignedVoiceId \<or> unat (av_voice_id v) < kMaxVoices)
      else v = ActiveVoice_default)"

text \<open>A string of the instrument sounds once; without a string, a pitch sounds once.\<close>

definition identity :: "u8 \<Rightarrow> u8 \<Rightarrow> u8 \<times> u8" where
  "identity vid n = (if unat vid < kMaxVoices then (vid, 0) else (kUnassignedVoiceId, n))"

definition active_voices :: "NoteLedger \<Rightarrow> ActiveVoice multiset" where
  "active_voices L = filter_mset av_active (mset (voices L))"

definition voice_identity :: "ActiveVoice \<Rightarrow> u8 \<times> u8" where
  "voice_identity v = identity (av_voice_id v) (av_note v)"

definition voices_wf :: "NoteLedger \<Rightarrow> bool" where
  "voices_wf L \<longleftrightarrow>
     length (voices L) = kMaxVoices
     \<and> list_all voice_wf (voices L)
     \<and> unat (active_count L) = size (active_voices L)
     \<and> (\<forall>a. count (image_mset voice_identity (active_voices L)) a \<le> 1)"

definition flags_wf :: "NoteLedger \<Rightarrow> bool" where
  "flags_wf L \<longleftrightarrow>
     recovery_requested L = panic_hold L \<and> hold_calls_remaining L \<le> 1
     \<and> (\<not> panic_hold L \<longrightarrow> hold_calls_remaining L = 0)"

definition ledger_wf :: "NoteLedger \<Rightarrow> bool" where
  "ledger_wf L \<longleftrightarrow> storage_wf L \<and> voices_wf L \<and> flags_wf L"

text \<open>The notes the ledger holds open: channel and pitch of each active voice.\<close>

definition open_notes :: "NoteLedger \<Rightarrow> (u8 \<times> u8) multiset" where
  "open_notes L = image_mset (\<lambda>v. (av_channel v, av_note v)) (active_voices L)"

lemma voice_wf_default [simp]: "voice_wf ActiveVoice_default"
  by (simp add: voice_wf_def ActiveVoice_default_def)

lemma ActiveVoice_default_sel [simp]:
  "\<not> av_active ActiveVoice_default" "\<not> av_pending_release ActiveVoice_default"
  by (simp_all add: ActiveVoice_default_def)

lemma voice_wf_pending: "voice_wf v \<Longrightarrow> av_pending_release v \<Longrightarrow> av_active v"
  by (auto simp: voice_wf_def split: if_splits)

lemma voice_wf_occupied: "voice_wf v \<Longrightarrow> occupied v \<longleftrightarrow> av_active v"
  by (auto simp: occupied_def voice_wf_pending)

lemma voices_wf_nth: "voices_wf L \<Longrightarrow> i < kMaxVoices \<Longrightarrow> voice_wf (voices L ! i)"
  by (auto simp: voices_wf_def list_all_length)

lemma mset_filter_update:
  "i < length xs \<Longrightarrow> P (xs ! i) \<Longrightarrow> \<not> P y
     \<Longrightarrow> filter_mset P (mset (xs[i := y])) = filter_mset P (mset xs) - {#xs ! i#}"
  "i < length xs \<Longrightarrow> \<not> P (xs ! i) \<Longrightarrow> P y
     \<Longrightarrow> filter_mset P (mset (xs[i := y])) = add_mset y (filter_mset P (mset xs))"
  by (simp_all add: mset_update multiset_eq_iff)

lemma nth_in_filter_mset: "i < length xs \<Longrightarrow> P (xs ! i) \<Longrightarrow> xs ! i \<in># filter_mset P (mset xs)"
  by simp

subsection \<open>The elementary updates\<close>

lemma active_voices_cong: "voices L' = voices L \<Longrightarrow> active_voices L' = active_voices L"
  by (simp add: active_voices_def)

lemma voices_wf_cong:
  "voices L' = voices L \<Longrightarrow> active_count L' = active_count L \<Longrightarrow> voices_wf L' = voices_wf L"
  by (simp add: voices_wf_def active_voices_def)

lemma open_notes_cong: "voices L' = voices L \<Longrightarrow> open_notes L' = open_notes L"
  by (simp add: open_notes_def active_voices_def)

lemma active_voices_clear:
  assumes "slot < length (voices L)" "av_active (voices L ! slot)"
  shows "active_voices (clear_voice slot L) = active_voices L - {#voices L ! slot#}"
  using assms by (simp add: active_voices_def clear_voice_def mset_filter_update)

lemma voices_wf_clear:
  assumes wf: "voices_wf L" and s: "slot < kMaxVoices" "av_active (voices L ! slot)"
  shows "voices_wf (clear_voice slot L)"
    and "open_notes (clear_voice slot L)
         = open_notes L - {#(av_channel (voices L ! slot), av_note (voices L ! slot))#}"
    and "(av_channel (voices L ! slot), av_note (voices L ! slot)) \<in># open_notes L"
proof -
  from wf have len: "length (voices L) = kMaxVoices"
    and cnt: "unat (active_count L) = size (active_voices L)" by (simp_all add: voices_wf_def)
  have mem: "voices L ! slot \<in># active_voices L"
    using s len by (simp add: active_voices_def)
  then have "0 < size (active_voices L)" by (metis gr0I size_eq_0_iff_empty empty_not_add_mset insert_DiffM)
  then have pos: "0 < active_count L" using cnt by (simp add: word_less_nat_alt)
  have av: "active_voices (clear_voice slot L) = active_voices L - {#voices L ! slot#}"
    using s len by (intro active_voices_clear) simp_all
  have "unat (active_count (clear_voice slot L)) = size (active_voices L) - 1"
    using s pos cnt by (simp add: clear_voice_def unat_minus_one word_gt_0)
  then show "voices_wf (clear_voice slot L)"
    using wf mem len s av
    by (auto simp: voices_wf_def size_Diff_singleton clear_voice_def list_all_update
        image_mset_Diff count_image_mset intro: le_trans [OF diff_le_self])
  show "open_notes (clear_voice slot L)
      = open_notes L - {#(av_channel (voices L ! slot), av_note (voices L ! slot))#}"
    using mem by (simp add: open_notes_def av image_mset_Diff)
  show "(av_channel (voices L ! slot), av_note (voices L ! slot)) \<in># open_notes L"
    using mem by (auto simp: open_notes_def)
qed

lemma voices_wf_add:
  assumes wf: "voices_wf L" and s: "slot < kMaxVoices" "\<not> av_active (voices L ! slot)"
    and t: "vt_note t \<le> 127" "1 \<le> c" "c \<le> 16"
      "vt_voice_id t = kUnassignedVoiceId \<or> unat (vt_voice_id t) < kMaxVoices"
    and new: "identity (vt_voice_id t) (vt_note t) \<notin># image_mset voice_identity (active_voices L)"
    and room: "unat (active_count L) < kMaxVoices"
  shows "voices_wf (add_voice slot t c L)"
    and "open_notes (add_voice slot t c L) = add_mset (c, vt_note t) (open_notes L)"
proof -
  define v where "v = \<lparr>av_active = True, av_pending_release = False, av_note = vt_note t,
                      av_channel = c, av_voice_id = vt_voice_id t\<rparr>"
  have len: "length (voices L) = kMaxVoices"
    and cnt: "unat (active_count L) = size (active_voices L)"
    using wf by (simp_all add: voices_wf_def)
  have vs: "voices (add_voice slot t c L) = (voices L)[slot := v]"
    by (simp add: add_voice_def v_def)
  have av: "active_voices (add_voice slot t c L) = add_mset v (active_voices L)"
    using s len by (simp add: active_voices_def vs mset_filter_update v_def)
  have "unat (active_count L + 1) = unat (active_count L) + 1"
    using room by (simp add: unat_word_ariths kMaxVoices_def)
  then have "unat (active_count (add_voice slot t c L)) = size (active_voices L) + 1"
    using cnt by (simp add: add_voice_def)
  moreover have "voice_wf v" using t by (simp add: voice_wf_def v_def)
  moreover have "voice_identity v = identity (vt_voice_id t) (vt_note t)"
    by (simp add: voice_identity_def v_def)
  moreover have "count (image_mset voice_identity (active_voices L)) (voice_identity v) = 0"
    using new calculation(3) by (metis count_eq_zero_iff)
  ultimately show "voices_wf (add_voice slot t c L)"
    using wf len av unfolding voices_wf_def by (auto simp: vs list_all_update)
  show "open_notes (add_voice slot t c L) = add_mset (c, vt_note t) (open_notes L)"
    by (simp add: open_notes_def av) (simp add: v_def)
qed

lemma active_mark_release [simp]:
  "av_active (mark_release v) = av_active v" "av_note (mark_release v) = av_note v"
  "av_channel (mark_release v) = av_channel v" "av_voice_id (mark_release v) = av_voice_id v"
  "av_pending_release (mark_release v) \<longleftrightarrow> av_active v \<or> av_pending_release v"
  by (simp_all add: mark_release_def)

lemma filter_map_mark_release:
  "filter_mset av_active (mset (map mark_release vs)) =
     image_mset mark_release (filter_mset av_active (mset vs))"
  by (induction vs) simp_all

lemma voice_wf_mark_release: "voice_wf v \<Longrightarrow> voice_wf (mark_release v)"
  by (cases "av_active v") (auto simp: voice_wf_def mark_release_def)

lemma voice_fun_mark_release:
  "(\<lambda>v. (av_channel v, av_note v)) \<circ> mark_release = (\<lambda>v. (av_channel v, av_note v))"
  "voice_identity \<circ> mark_release = voice_identity"
  by (auto simp: voice_identity_def)

lemma voices_wf_map_release:
  assumes "voices_wf L" "voices L' = map mark_release (voices L)" "active_count L' = active_count L"
  shows "voices_wf L'" and "open_notes L' = open_notes L"
proof -
  have av: "active_voices L' = image_mset mark_release (active_voices L)"
    by (simp only: active_voices_def assms(2) filter_map_mark_release)
  have "image_mset voice_identity (active_voices L') = image_mset voice_identity (active_voices L)"
    by (simp only: av multiset.map_comp voice_fun_mark_release)
  then show "voices_wf L'"
    using assms av by (auto simp: voices_wf_def list_all_iff voice_wf_mark_release)
  show "open_notes L' = open_notes L"
    by (simp only: open_notes_def av multiset.map_comp voice_fun_mark_release)
qed

lemma request_release_all_sel [frame_simps]:
  "storage (request_release_all L) = storage L" "capacity (request_release_all L) = capacity L"
  "queue_size (request_release_all L) = queue_size L"
  "max_frames (request_release_all L) = max_frames L"
  "voices (request_release_all L) = map mark_release (voices L)"
  "active_count (request_release_all L) = active_count L"
  "output_blocked (request_release_all L) = output_blocked L"
  "invalid_transition (request_release_all L) = invalid_transition L"
  "panic_hold (request_release_all L) = panic_hold L"
  "recovery_requested (request_release_all L) = recovery_requested L"
  "hold_calls_remaining (request_release_all L) = hold_calls_remaining L"
  by (simp_all add: request_release_all_def Let_def)

lemma enter_blocked_sel [frame_simps]:
  "storage (enter_blocked L) = storage L" "capacity (enter_blocked L) = capacity L"
  "queue_size (enter_blocked L) = queue_size L" "max_frames (enter_blocked L) = max_frames L"
  "voices (enter_blocked L) = map mark_release (voices L)"
  "active_count (enter_blocked L) = active_count L" "output_blocked (enter_blocked L)"
  "invalid_transition (enter_blocked L) = invalid_transition L"
  "panic_hold (enter_blocked L) = panic_hold L"
  "recovery_requested (enter_blocked L) = recovery_requested L"
  "hold_calls_remaining (enter_blocked L) = hold_calls_remaining L"
  by (simp_all add: enter_blocked_def frame_simps)

lemma mark_release_idem [simp]: "mark_release (mark_release v) = mark_release v"
  by (simp add: mark_release_def)

lemma enter_blocked_cleanup [frame_simps]: "\<not> cleanup_complete (enter_blocked L)"
  by (simp add: enter_blocked_def request_release_all_def Let_def)

lemma enter_blocked_idem: "enter_blocked (enter_blocked L) = enter_blocked L"
  by (rule NoteLedger.equality) (simp_all add: frame_simps enter_blocked_cleanup)

lemma ledger_wf_blocked:
  assumes "ledger_wf L"
  shows "ledger_wf (enter_blocked L)" and "open_notes (enter_blocked L) = open_notes L"
    and "ledger_wf (request_release_all L)" and "open_notes (request_release_all L) = open_notes L"
  using assms voices_wf_map_release [of L "enter_blocked L"]
    voices_wf_map_release [of L "request_release_all L"]
    storage_wf_cong [of "enter_blocked L" L] storage_wf_cong [of "request_release_all L" L]
  by (simp_all add: ledger_wf_def flags_wf_def frame_simps)

lemma enter_blocked_mark_pending:
  assumes "slot < length (voices L)" "av_active (voices L ! slot)"
  shows "enter_blocked (L\<lparr>voices := (voices L)
           [slot := (voices L ! slot)\<lparr>av_pending_release := True\<rparr>]\<rparr>) = enter_blocked L"
proof -
  have "mark_release ((voices L ! slot)\<lparr>av_pending_release := True\<rparr>) = mark_release (voices L ! slot)"
    using assms by (simp add: mark_release_def)
  then have "map mark_release ((voices L)[slot := (voices L ! slot)\<lparr>av_pending_release := True\<rparr>])
      = map mark_release (voices L)"
    using assms by (simp add: map_update list_update_same_conv)
  then show ?thesis
    by (intro NoteLedger.equality) (simp_all add: frame_simps enter_blocked_cleanup)
qed

subsection \<open>Operations that do not push\<close>

lemma active_voices_default:
  "voices L = replicate n ActiveVoice_default \<Longrightarrow> active_voices L = {#}"
  by (auto simp: active_voices_def filter_mset_eq_conv multiset_eq_iff)

lemma voices_wf_default: "voices L = replicate kMaxVoices ActiveVoice_default \<Longrightarrow>
    active_count L = 0 \<Longrightarrow> voices_wf L"
  "voices L = replicate kMaxVoices ActiveVoice_default \<Longrightarrow> open_notes L = {#}"
  by (simp_all add: voices_wf_def active_voices_default open_notes_def list_all_length)

lemma ledger_wf_default: "ledger_wf NoteLedger_default" "open_notes NoteLedger_default = {#}"
  by (simp_all add: ledger_wf_def storage_wf_def flags_wf_def voices_wf_default
      NoteLedger_default_def queued_def)

lemma ledger_wf_deactivate: "ledger_wf (ledger_deactivate L)" "open_notes (ledger_deactivate L) = {#}"
  by (simp_all add: ledger_wf_def storage_wf_def flags_wf_def voices_wf_default
      ledger_deactivate_def queued_def)

lemma ledger_wf_drop_storage:
  assumes "ledger_wf L"
  shows "ledger_wf (drop_storage L)" "open_notes (drop_storage L) = open_notes L"
  using assms voices_wf_cong [of "drop_storage L" L] open_notes_cong [of "drop_storage L" L]
  by (simp_all add: ledger_wf_def storage_wf_def flags_wf_def drop_storage_def queued_def)

lemma ledger_wf_begin_block:
  assumes "ledger_wf L"
  shows "ledger_wf (ledger_begin_block L)" "open_notes (ledger_begin_block L) = open_notes L"
  using assms voices_wf_cong [of "ledger_begin_block L" L] open_notes_cong [of "ledger_begin_block L" L]
  by (auto simp: ledger_wf_def storage_wf_def flags_wf_def ledger_begin_block_def queued_def
      split: option.splits)

lemma ledger_wf_allocate:
  assumes "ledger_wf L" "queue_size L = 0"
  shows "ledger_wf (snd (allocate_storage alloc frames L))"
    and "open_notes (snd (allocate_storage alloc frames L)) = open_notes L"
  using assms
    voices_wf_cong [of "snd (allocate_storage alloc frames L)" L]
    open_notes_cong [of "snd (allocate_storage alloc frames L)" L]
  by (auto simp: ledger_wf_def storage_wf_def flags_wf_def allocate_storage_def Let_def queued_def
      word_gt_0 split: option.splits)

lemma ledger_wf_activate:
  "ledger_wf (snd (ledger_activate alloc frames L))"
  "open_notes (snd (ledger_activate alloc frames L)) = {#}"
  using ledger_wf_allocate [OF ledger_wf_deactivate(1) [of L], of alloc frames] ledger_wf_deactivate [of L]
  by (simp_all add: ledger_activate_def ledger_deactivate_def)

lemma ledger_wf_activate_preserving:
  assumes "ledger_wf L"
  shows "ledger_wf (snd (activate_preserving_pending alloc frames L))"
    and "open_notes (snd (activate_preserving_pending alloc frames L)) = open_notes L"
  using ledger_wf_allocate [OF ledger_wf_drop_storage(1) [OF assms], of alloc frames]
    ledger_wf_drop_storage(2) [OF assms]
  by (simp_all add: activate_preserving_pending_def drop_storage_def)

lemma ledger_wf_release_storage:
  assumes "ledger_wf L"
  shows "ledger_wf (release_storage_preserving_pending L)"
    and "open_notes (release_storage_preserving_pending L) = open_notes L"
  using ledger_wf_drop_storage [OF ledger_wf_blocked(3) [OF assms]] ledger_wf_blocked(4) [OF assms]
  by (simp_all add: release_storage_preserving_pending_def)

lemma queue_transition_frame:
  "voices (snd (queue_transition t frames L)) = voices L"
  "active_count (snd (queue_transition t frames L)) = active_count L"
  "panic_hold (snd (queue_transition t frames L)) = panic_hold L"
  "recovery_requested (snd (queue_transition t frames L)) = recovery_requested L"
  "hold_calls_remaining (snd (queue_transition t frames L)) = hold_calls_remaining L"
  "output_blocked (snd (queue_transition t frames L)) = output_blocked L"
  "cleanup_complete (snd (queue_transition t frames L)) = cleanup_complete L"
  by (simp_all add: queue_transition_def split: option.splits)

lemma ledger_wf_queue_transition:
  assumes "ledger_wf L"
  shows "ledger_wf (snd (queue_transition t frames L))"
    and "open_notes (snd (queue_transition t frames L)) = open_notes L"
proof -
  have "storage_wf (snd (queue_transition t frames L))"
  proof (cases "fst (queue_transition t frames L)")
    case True
    then show ?thesis using assms queue_transition_accepted(2) by (simp add: ledger_wf_def)
  next
    case False
    then show ?thesis
      using assms storage_wf_cong [of "L\<lparr>invalid_transition := True\<rparr>" L]
      by (simp add: queue_transition_rejected ledger_wf_def)
  qed
  then show "ledger_wf (snd (queue_transition t frames L))"
    using assms voices_wf_cong [OF queue_transition_frame(1,2)]
    by (simp add: ledger_wf_def flags_wf_def queue_transition_frame)
  show "open_notes (snd (queue_transition t frames L)) = open_notes L"
    by (rule open_notes_cong) (rule queue_transition_frame)
qed

lemma ledger_wf_queue_releases:
  "ledger_wf L \<Longrightarrow>
     ledger_wf (snd (queue_releases_from vs offset frames seq complete L))
     \<and> open_notes (snd (queue_releases_from vs offset frames seq complete L)) = open_notes L
     \<and> voices (snd (queue_releases_from vs offset frames seq complete L)) = voices L"
proof (induction vs offset frames seq complete L rule: queue_releases_from.induct)
  case (1 offset frames seq complete L)
  then show ?case by simp
next
  case (2 v vs offset frames seq complete L)
  let ?t = "\<lparr>vt_sample_offset = offset, vt_kind = note_off, vt_note = av_note v, vt_velocity = 0,
            vt_sequence = seq, vt_voice_id = av_voice_id v\<rparr>"
  show ?case
    using 2 ledger_wf_queue_transition [OF "2.prems", of ?t frames]
      queue_transition_frame(1) [of ?t frames L]
    by (cases "queue_transition ?t frames L") (auto simp: Let_def)
qed

lemma ledger_wf_request_recovery:
  assumes "ledger_wf L"
  shows "ledger_wf (request_recovery L)" "open_notes (request_recovery L) = open_notes L"
  using assms voices_wf_cong [of "request_recovery L" L] open_notes_cong [of "request_recovery L" L]
    storage_wf_cong [of "request_recovery L" L]
  by (simp_all add: ledger_wf_def flags_wf_def request_recovery_def)

lemma finish_hold_frame [frame_simps]:
  "voices (finish_hold p f l L) = voices L" "active_count (finish_hold p f l L) = active_count L"
  "storage (finish_hold p f l L) = storage L" "capacity (finish_hold p f l L) = capacity L"
  "queue_size (finish_hold p f l L) = queue_size L" "max_frames (finish_hold p f l L) = max_frames L"
  "invalid_transition (finish_hold p f l L) = invalid_transition L"
  by (simp_all add: finish_hold_def)

lemma ledger_wf_finish_hold:
  assumes "ledger_wf L"
  shows "ledger_wf (finish_hold p f l L)" "open_notes (finish_hold p f l L) = open_notes L"
proof -
  have "flags_wf (finish_hold p f l L)"
  proof (cases "0 < hold_calls_remaining L")
    case True
    then have "hold_calls_remaining L = 1"
      using assms by (simp add: ledger_wf_def flags_wf_def word_le_nat_alt word_less_nat_alt
          word_unat_eq_iff)
    then show ?thesis using assms by (simp add: ledger_wf_def flags_wf_def finish_hold_def)
  next
    case False
    then show ?thesis using assms by (simp add: ledger_wf_def flags_wf_def finish_hold_def word_gt_0)
  qed
  then show "ledger_wf (finish_hold p f l L)"
    using assms storage_wf_cong [of "finish_hold p f l L" L] voices_wf_cong [of "finish_hold p f l L" L]
    by (simp add: ledger_wf_def frame_simps)
  show "open_notes (finish_hold p f l L) = open_notes L"
    by (rule open_notes_cong) (simp add: frame_simps)
qed

end
