(* ===== verification/Note_Delivery.thy ===== *)
theory Note_Delivery
  imports Note_Invariant
begin

text \<open>
  Delivery of the ledger (\<open>Note_Ledger\<close>) against the contract of its sink. The contract is
  the locale \<open>note_sink\<close>: a push that succeeds adds one note message to what the host
  received and leaves the ledger alone; a push that fails adds none and at most blocks the
  ledger. Under it the notes the host sounds are exactly the notes the ledger holds open.
\<close>

subsection \<open>Note messages\<close>

text \<open>Channel (one-based) and pitch.\<close>

datatype note_msg = msg_on u8 u8 | msg_off u8 u8

definition note_msg_of :: "VoiceTransition \<Rightarrow> u8 \<Rightarrow> note_msg" where
  "note_msg_of t c = (if vt_kind t = note_off then msg_off c (vt_note t) else msg_on c (vt_note t))"

text \<open>What the ledger may push: a listed kind, a MIDI pitch, a velocity that is zero exactly on a note-off.\<close>

definition sendable :: "VoiceTransition \<Rightarrow> bool" where
  "sendable t \<longleftrightarrow> listed_kind t \<and> vt_note t \<le> 127 \<and> vt_velocity t \<le> 127
     \<and> (vt_kind t = note_off \<longleftrightarrow> vt_velocity t = 0)"

lemma valid_sendable: "valid_transition t m \<Longrightarrow> sendable t"
  by (auto simp: valid_transition_def sendable_def listed_kind_def Let_def)

lemma release_sendable: "voice_wf v \<Longrightarrow> av_active v \<Longrightarrow> sendable (release_transition v n)"
  by (simp add: sendable_def release_transition_def listed_kind_def voice_wf_def)

text \<open>
  Playing messages to a synthesiser that sounds the notes of a multiset. \<open>None\<close> is a
  note-off for a note that does not sound.
\<close>

fun play :: "note_msg list \<Rightarrow> (u8 \<times> u8) multiset \<Rightarrow> (u8 \<times> u8) multiset option" where
  "play [] M = Some M"
| "play (msg_on c n # ms) M = play ms (add_mset (c, n) M)"
| "play (msg_off c n # ms) M = (if (c, n) \<in># M then play ms (M - {#(c, n)#}) else None)"

lemma play_append: "play (ms @ ms') M = (case play ms M of None \<Rightarrow> None | Some M' \<Rightarrow> play ms' M')"
  by (induction ms M rule: play.induct) auto

definition in_sync :: "('s \<Rightarrow> note_msg list) \<Rightarrow> NoteLedger \<Rightarrow> 's \<Rightarrow> bool" where
  "in_sync msgs L s \<longleftrightarrow> play (msgs s) {#} = Some (open_notes L)"

subsection \<open>Delivery steps that stay inside the ledger\<close>

lemma find_voice_active:
  assumes "voices_wf L" "find_voice L t < length (voices L)"
  shows "find_voice L t < kMaxVoices" "av_active (voices L ! find_voice L t)"
    "av_note (voices L ! find_voice L t) = vt_note t"
proof -
  have "voice_matches t (voices L ! find_voice L t)"
    using assms(2) unfolding find_voice_def by (rule first_index_nth)
  moreover show "find_voice L t < kMaxVoices" using assms by (simp add: voices_wf_def)
  ultimately show "av_active (voices L ! find_voice L t)"
    "av_note (voices L ! find_voice L t) = vt_note t"
    using voices_wf_nth [OF assms(1)] by (auto simp: voice_matches_def voice_wf_occupied)
qed

lemma find_free_inactive:
  assumes "voices_wf L" "find_free_voice L < length (voices L)"
  shows "find_free_voice L < kMaxVoices" "\<not> av_active (voices L ! find_free_voice L)"
  using assms first_index_nth [of "\<lambda>v. \<not> av_active v \<and> \<not> av_pending_release v" "voices L"]
  by (auto simp: find_free_voice_def voices_wf_def)

lemma identity_fresh:
  assumes wf: "voices_wf L" and new: "\<not> identity_in_use L t"
    and vid: "vt_voice_id t = kUnassignedVoiceId \<or> unat (vt_voice_id t) < kMaxVoices"
  shows "identity (vt_voice_id t) (vt_note t) \<notin># image_mset voice_identity (active_voices L)"
proof
  assume "identity (vt_voice_id t) (vt_note t) \<in># image_mset voice_identity (active_voices L)"
  then obtain v where v: "v \<in> set (voices L)" "av_active v"
    "voice_identity v = identity (vt_voice_id t) (vt_note t)"
    by (auto simp: active_voices_def)
  then have occ: "occupied v" by (simp add: occupied_def)
  have vvid: "av_voice_id v = kUnassignedVoiceId \<or> unat (av_voice_id v) < kMaxVoices"
    using wf v by (auto simp: voices_wf_def list_all_iff voice_wf_def split: if_splits)
  have big: "\<not> unat kUnassignedVoiceId < kMaxVoices"
    by (simp add: kUnassignedVoiceId_def kMaxVoices_def)
  show False
  proof (cases "unat (vt_voice_id t) < kMaxVoices")
    case True
    then have "av_voice_id v = vt_voice_id t"
      using v(3) vvid big by (auto simp: voice_identity_def identity_def split: if_splits)
    then show False using new v(1) occ True by (auto simp: identity_in_use_def list_ex_iff)
  next
    case False
    then have "av_voice_id v = kUnassignedVoiceId" "av_note v = vt_note t"
      using v(3) vvid vid big by (auto simp: voice_identity_def identity_def split: if_splits)
    then have "voice_matches t v" using False occ by (simp add: voice_matches_def)
    then have "find_voice L t < length (voices L)"
      using v(1) by (auto simp: find_voice_def first_index_less_iff)
    then show False using new by (simp add: identity_in_use_def)
  qed
qed

lemma unat_route_channel:
  "unat (route_channel s k) = unat (ucast s - 1 + ucast k :: u32) mod 16 + 1"
proof -
  let ?x = "ucast s - 1 + ucast k :: u32"
  have "unat ?x mod 16 < 16" by simp
  then have "unat (?x mod 16 + 1) = unat ?x mod 16 + 1"
    unfolding unat_word_ariths unat_mod by simp
  then show ?thesis
    using \<open>unat ?x mod 16 < 16\<close> unfolding route_channel_def unsigned_ucast_eq
    by (simp add: take_bit_eq_mod)
qed

lemma unat_route_channel_nat:
  "1 \<le> s \<Longrightarrow> unat (route_channel s k) = (unat s - 1 + unat k) mod 16 + 1"
proof -
  assume s: "1 \<le> s"
  have "unat (ucast s - 1 + ucast k :: u32) = unat s - 1 + unat k"
  proof -
    have "unat s < 256" "unat k < 256" using unsigned_less [of s] unsigned_less [of k] by simp_all
    moreover have "1 \<le> unat s" using s by (simp add: word_le_nat_alt)
    moreover have "unat (ucast s :: u32) = unat s" "unat (ucast k :: u32) = unat k"
      using calculation by (simp_all add: unsigned_ucast_eq take_bit_eq_mod)
    ultimately show ?thesis
      by (simp add: unat_word_ariths unat_sub word_le_nat_alt)
  qed
  then show ?thesis by (simp add: unat_route_channel)
qed

lemma route_channel_range: "1 \<le> route_channel s k" "route_channel s k \<le> 16"
  by (simp_all add: word_le_nat_alt unat_route_channel Suc_le_eq)

lemma allocated_channel_range: "allocate_channel L routing start t \<le> 16"
proof -
  have "first_free_channel L start slots \<le> 16" for slots
    by (induction slots) (auto simp: Let_def route_channel_range)
  then show ?thesis by (auto simp: allocate_channel_def Let_def route_channel_range)
qed

lemma clear_voice_frame [frame_simps]:
  "storage (clear_voice slot L) = storage L" "capacity (clear_voice slot L) = capacity L"
  "queue_size (clear_voice slot L) = queue_size L" "max_frames (clear_voice slot L) = max_frames L"
  "panic_hold (clear_voice slot L) = panic_hold L"
  "recovery_requested (clear_voice slot L) = recovery_requested L"
  "hold_calls_remaining (clear_voice slot L) = hold_calls_remaining L"
  "voices (clear_voice slot L) = (voices L)[slot := ActiveVoice_default]"
  by (simp_all add: clear_voice_def)

lemma add_voice_frame [frame_simps]:
  "storage (add_voice slot t c L) = storage L" "capacity (add_voice slot t c L) = capacity L"
  "queue_size (add_voice slot t c L) = queue_size L" "max_frames (add_voice slot t c L) = max_frames L"
  "panic_hold (add_voice slot t c L) = panic_hold L"
  "recovery_requested (add_voice slot t c L) = recovery_requested L"
  "hold_calls_remaining (add_voice slot t c L) = hold_calls_remaining L"
  by (simp_all add: add_voice_def)

lemma ledger_wf_clear:
  assumes "ledger_wf L" "slot < kMaxVoices" "av_active (voices L ! slot)"
  shows "ledger_wf (clear_voice slot L)"
  using assms voices_wf_clear(1) [of L slot] storage_wf_cong [of "clear_voice slot L" L]
  by (simp add: ledger_wf_def flags_wf_def frame_simps)

lemma in_sync_cong:
  "msgs s' = msgs s \<Longrightarrow> open_notes L' = open_notes L \<Longrightarrow> in_sync msgs L' s' = in_sync msgs L s"
  by (simp add: in_sync_def)

lemma in_sync_off:
  assumes "in_sync msgs L s" "ledger_wf L" "slot < kMaxVoices" "av_active (voices L ! slot)"
    and "msgs s' = msgs s @ [msg_off (av_channel (voices L ! slot)) (av_note (voices L ! slot))]"
  shows "in_sync msgs (clear_voice slot L) s'"
  using assms voices_wf_clear(2,3) [of L slot] by (simp add: in_sync_def play_append ledger_wf_def)

text \<open>
  Clearing the pending voices of the slots \<open>P\<close>, nothing else changing; and the note-offs of
  the pending voices with pitch \<open>n\<close> among some slots.
\<close>

definition cleared_by :: "(nat \<Rightarrow> bool) \<Rightarrow> NoteLedger \<Rightarrow> NoteLedger \<Rightarrow> bool" where
  "cleared_by P L L' \<longleftrightarrow>
     length (voices L') = length (voices L)
     \<and> (\<forall>i < length (voices L). voices L' ! i =
          (if av_pending_release (voices L ! i) \<and> P i then ActiveVoice_default else voices L ! i))
     \<and> L'\<lparr>voices := [], active_count := 0\<rparr> = L\<lparr>voices := [], active_count := 0\<rparr>"

definition slot_releases :: "NoteLedger \<Rightarrow> nat \<Rightarrow> nat list \<Rightarrow> note_msg list" where
  "slot_releases L n slots =
     map (\<lambda>i. msg_off (av_channel (voices L ! i)) (av_note (voices L ! i)))
       (filter (\<lambda>i. av_pending_release (voices L ! i) \<and> unat (av_note (voices L ! i)) = n) slots)"

definition release_messages :: "NoteLedger \<Rightarrow> note_msg list" where
  "release_messages L = concat (map (\<lambda>n. slot_releases L n [0..<kMaxVoices]) [0..<128])"

lemma cleared_by_refl: "cleared_by (\<lambda>i. False) L L"
  by (simp add: cleared_by_def)

subsection \<open>The contract of a sink\<close>

locale note_sink =
  fixes f :: "'s push_fun"
    and msgs :: "'s \<Rightarrow> note_msg list"
  assumes accepted: "sendable t \<Longrightarrow> 1 \<le> c \<Longrightarrow> c \<le> 16 \<Longrightarrow> f L s t c = (True, L', s')
        \<Longrightarrow> L' = L \<and> msgs s' = msgs s @ [note_msg_of t c]"
    and rejected:
      "f L s t c = (False, L', s') \<Longrightarrow> (L' = L \<or> L' = enter_blocked L) \<and> msgs s' = msgs s"
begin

lemma push_accepted:
  "sendable t \<Longrightarrow> push (Some f) L s t c = (True, L', s')
     \<Longrightarrow> L' = L \<and> msgs s' = msgs s @ [note_msg_of t c] \<and> 1 \<le> c \<and> c \<le> 16"
  by (auto simp: push_def split: if_splits dest: accepted)

lemma push_rejected:
  "push (Some f) L s t c = (False, L', s') \<Longrightarrow> (L' = L \<or> L' = enter_blocked L) \<and> msgs s' = msgs s"
  by (auto simp: push_def split: if_splits dest: rejected)

lemma push_rejected_blocked:
  "push (Some f) L s t c = (False, L', s') \<Longrightarrow> enter_blocked L' = enter_blocked L \<and> msgs s' = msgs s"
  using push_rejected enter_blocked_idem by metis

lemma blocked_sync:
  assumes "ledger_wf L" "in_sync msgs L s" "msgs s' = msgs s"
  shows "ledger_wf (enter_blocked L)" "in_sync msgs (enter_blocked L) s'"
  using assms ledger_wf_blocked in_sync_cong by metis+

lemma deliver_note_off_sync:
  assumes wf: "ledger_wf L" "in_sync msgs L s" and off: "vt_kind t = note_off"
    and valid: "valid_transition t m"
    and d: "deliver_note_off (Some f) t L s = (go, L', s')"
  shows "ledger_wf L' \<and> in_sync msgs L' s' \<and> (\<not> go \<longrightarrow> L' = enter_blocked L)"
proof (cases "length (voices L) \<le> find_voice L t")
  case True
  then show ?thesis using d blocked_sync [OF wf refl] by (auto simp: deliver_note_off_def)
next
  case False
  let ?slot = "find_voice L t"
  have v: "?slot < kMaxVoices" "av_active (voices L ! ?slot)" "av_note (voices L ! ?slot) = vt_note t"
    using find_voice_active [of L t] wf False by (simp_all add: ledger_wf_def not_le)
  obtain ok L1 s1 where p: "push (Some f) L s t (av_channel (voices L ! ?slot)) = (ok, L1, s1)"
    by (metis prod_cases3)
  show ?thesis
  proof (cases ok)
    case True
    then have "L1 = L" "msgs s1 = msgs s @ [msg_off (av_channel (voices L ! ?slot)) (vt_note t)]"
      using push_accepted [OF valid_sendable [OF valid]] p off by (auto simp: note_msg_of_def)
    then show ?thesis
      using d p True False v wf in_sync_off [OF wf(2,1) v(1,2), of s1] ledger_wf_clear [OF wf(1) v(1,2)]
      by (auto simp: deliver_note_off_def Let_def)
  next
    case False': False
    have r: "L1 = L \<or> L1 = enter_blocked L" "msgs s1 = msgs s"
      using push_rejected [of L s t _ L1 s1] p False' by auto
    have "?slot < length (voices L1)" "av_active (voices L1 ! ?slot)"
      using r(1) v False by (auto simp: frame_simps)
    then have "L' = enter_blocked L1"
      using d p False False' by (simp add: deliver_note_off_def Let_def enter_blocked_mark_pending)
    then have "L' = enter_blocked L" using r(1) by (auto simp: enter_blocked_idem)
    moreover have "s' = s1" "\<not> go" using d p False False' by (simp_all add: deliver_note_off_def Let_def)
    ultimately show ?thesis using blocked_sync [OF wf r(2)] by simp
  qed
qed

lemma deliver_note_on_sync:
  assumes wf: "ledger_wf L" "in_sync msgs L s" and on: "vt_kind t \<noteq> note_off"
    and valid: "valid_transition t m"
    and d: "deliver_note_on (Some f) routing start t L s = (go, L', s')"
  shows "ledger_wf L' \<and> in_sync msgs L' s' \<and> (\<not> go \<longrightarrow> L' = enter_blocked L)"
proof -
  let ?slot = "find_free_voice L" and ?c = "allocate_channel L routing start t"
  consider "panic_hold L"
    | "\<not> panic_hold L" "identity_in_use L t \<or> kMaxVoices \<le> unat (active_count L)
          \<or> ?c = 0 \<or> length (voices L) \<le> ?slot"
    | "\<not> panic_hold L" "\<not> identity_in_use L t" "unat (active_count L) < kMaxVoices" "?c \<noteq> 0"
        "?slot < length (voices L)"
    by fastforce
  then show ?thesis
  proof cases
    case 1
    then show ?thesis using d wf by (auto simp: deliver_note_on_def)
  next
    case 2
    then have "L' = enter_blocked L" "s' = s" "\<not> go"
      using d by (auto simp: deliver_note_on_def Let_def split: if_splits)
    then show ?thesis using blocked_sync [OF wf refl] by simp
  next
    case 3
    obtain ok L1 s1 where p: "push (Some f) L s t ?c = (ok, L1, s1)" by (metis prod_cases3)
    have res: "(go, L', s') = (if ok then (True, add_voice ?slot t ?c L1, s1)
                              else (False, enter_blocked L1, s1))"
      using d p 3 by (cases ok) (auto simp: deliver_note_on_def Let_def)
    show ?thesis
    proof (cases ok)
      case False
      then show ?thesis
        using res push_rejected_blocked p blocked_sync [OF wf] by auto
    next
      case True
      have a: "L1 = L" "msgs s1 = msgs s @ [note_msg_of t ?c]" "1 \<le> ?c" "?c \<le> 16"
        using push_accepted [OF valid_sendable [OF valid], of L s ?c L1 s1] p True by auto
      have vid: "vt_voice_id t = kUnassignedVoiceId \<or> unat (vt_voice_id t) < kMaxVoices"
        and n: "vt_note t \<le> 127"
        using valid by (auto simp: valid_transition_def Let_def)
      have vw: "voices_wf L" using wf by (simp add: ledger_wf_def)
      note fr = find_free_inactive [OF vw 3(5)]
      note add = voices_wf_add [OF vw fr n a(3,4) vid identity_fresh [OF vw 3(2) vid] 3(3)]
      have "ledger_wf L'" "in_sync msgs L' s'"
        using res True a add wf on storage_wf_cong [of "add_voice ?slot t ?c L" L]
        by (auto simp: ledger_wf_def flags_wf_def frame_simps in_sync_def play_append note_msg_of_def)
      then show ?thesis using res True by simp
    qed
  qed
qed

lemma deliver_events_sync:
  "ledger_wf L \<Longrightarrow> in_sync msgs L s \<Longrightarrow> list_all (\<lambda>t. valid_transition t m) ts
     \<Longrightarrow> deliver_events (Some f) routing start frames ts L s = (L', s')
     \<Longrightarrow> ledger_wf L' \<and> in_sync msgs L' s'"
proof (induction "Some f" routing start frames ts L s rule: deliver_events.induct)
  case (1 routing start frames L s)
  then show ?case by simp
next
  case (2 routing start frames t ts L s)
  show ?case
  proof (cases "frames \<le> vt_sample_offset t")
    case True
    then show ?thesis using 2 by simp
  next
    case False
    obtain go L1 s1 where d: "(if vt_kind t = note_off then deliver_note_off (Some f) t L s
        else deliver_note_on (Some f) routing start t L s) = (go, L1, s1)" by (metis prod_cases3)
    have "ledger_wf L1 \<and> in_sync msgs L1 s1"
      using d deliver_note_off_sync [OF "2.prems"(1,2), of t m] deliver_note_on_sync [OF "2.prems"(1,2), of t m]
        "2.prems"(3) by (auto split: if_splits)
    then show ?thesis
      using 2 d False by (auto split: if_splits)
  qed
qed

lemma retry_slots_sync:
  "ledger_wf L \<Longrightarrow> in_sync msgs L s \<Longrightarrow> set slots \<subseteq> {..<kMaxVoices}
     \<Longrightarrow> retry_slots (Some f) n slots L s = (ok, L', s')
     \<Longrightarrow> ledger_wf L' \<and> in_sync msgs L' s' \<and> (\<not> ok \<longrightarrow> output_blocked L')"
proof (induction "Some f" n slots L s rule: retry_slots.induct)
  case (1 n L s)
  then show ?case by simp
next
  case (2 n slot slots L s)
  let ?v = "voices L ! slot"
  show ?case
  proof (cases "av_pending_release ?v \<and> unat (av_note ?v) = n")
    case False
    then show ?thesis using 2 by (auto simp: Let_def)
  next
    case True
    obtain b L1 s1 where p: "push (Some f) L s (release_transition ?v n) (av_channel ?v) = (b, L1, s1)"
      by (metis prod_cases3)
    have slot: "slot < kMaxVoices" using "2.prems"(3) by simp
    then have act: "av_active ?v"
      using True "2.prems"(1) voices_wf_nth voice_wf_pending by (auto simp: ledger_wf_def)
    have send: "sendable (release_transition ?v n)"
      using release_sendable [OF voices_wf_nth [OF _ slot] act] "2.prems"(1) by (simp add: ledger_wf_def)
    show ?thesis
    proof (cases b)
      case b: True
      then have a: "L1 = L" "msgs s1 = msgs s @ [msg_off (av_channel ?v) (av_note ?v)]"
        using push_accepted [of _ L s _ L1 s1] p send by (auto simp: note_msg_of_def release_transition_def)
      have "retry_slots (Some f) n slots (clear_voice slot L) s1 = (ok, L', s')"
        using "2.prems"(4) True p b a(1) by (simp add: Let_def)
      moreover note ledger_wf_clear [OF "2.prems"(1) slot act]
        in_sync_off [OF "2.prems"(2,1) slot act a(2)]
      ultimately show ?thesis
        using "2.hyps"(2) [OF refl _ p [symmetric] refl] True b a(1) "2.prems"(3) by simp
    next
      case b: False
      have "L' = enter_blocked L1" "s' = s1" "\<not> ok"
        using "2.prems"(4) True p b by (simp_all add: Let_def)
      then show ?thesis
        using p b push_rejected_blocked [of L s _ _ L1 s1] blocked_sync [OF "2.prems"(1,2), of s1]
        by (simp add: frame_simps)
    qed
  qed
qed

lemma retry_notes_sync:
  "ledger_wf L \<Longrightarrow> in_sync msgs L s \<Longrightarrow> retry_notes (Some f) ns L s = (ok, L', s')
     \<Longrightarrow> ledger_wf L' \<and> in_sync msgs L' s' \<and> (\<not> ok \<longrightarrow> output_blocked L')"
proof (induction ns arbitrary: L s)
  case Nil
  then show ?case by simp
next
  case (Cons n ns)
  obtain b L1 s1 where p: "retry_slots (Some f) n [0..<kMaxVoices] L s = (b, L1, s1)"
    by (metis prod_cases3)
  then have w: "ledger_wf L1 \<and> in_sync msgs L1 s1 \<and> (\<not> b \<longrightarrow> output_blocked L1)"
    using retry_slots_sync [OF Cons.prems(1,2) _ p] by (auto simp: subset_iff)
  with p Cons.prems show ?case using Cons.IH [of L1 s1] by (cases b) auto
qed

lemma cleanup_sync:
  assumes "ledger_wf L" "in_sync msgs L s"
  shows "ledger_wf (L\<lparr>cleanup_complete := c\<rparr>)" "in_sync msgs (L\<lparr>cleanup_complete := c\<rparr>) s"
    "ledger_wf (L\<lparr>invalid_transition := c\<rparr>)" "in_sync msgs (L\<lparr>invalid_transition := c\<rparr>) s"
  using assms voices_wf_cong [of "L\<lparr>cleanup_complete := c\<rparr>" L] storage_wf_cong [of "L\<lparr>cleanup_complete := c\<rparr>" L]
    voices_wf_cong [of "L\<lparr>invalid_transition := c\<rparr>" L] storage_wf_cong [of "L\<lparr>invalid_transition := c\<rparr>" L]
    open_notes_cong [of "L\<lparr>invalid_transition := c\<rparr>" L] open_notes_cong [of "L\<lparr>cleanup_complete := c\<rparr>" L]
  by (simp_all add: ledger_wf_def flags_wf_def in_sync_def)

lemma retry_pending_releases_sync:
  assumes "ledger_wf L" "in_sync msgs L s" "retry_pending_releases (Some f) L s = (ok, L', s')"
  shows "ledger_wf L' \<and> in_sync msgs L' s' \<and> (\<not> ok \<longrightarrow> output_blocked L')"
proof (cases "release_pending L")
  case False
  then show ?thesis using assms cleanup_sync by (auto simp: retry_pending_releases_def)
next
  case True
  obtain b L1 s1 where p: "retry_notes (Some f) [0..<128] L s = (b, L1, s1)" by (metis prod_cases3)
  then have w: "ledger_wf L1 \<and> in_sync msgs L1 s1 \<and> (\<not> b \<longrightarrow> output_blocked L1)"
    using retry_notes_sync [OF assms(1,2)] by blast
  with p assms(3) True show ?thesis
    using cleanup_sync [of L1 s1] by (cases b) (auto simp: retry_pending_releases_def)
qed

lemma deliver_queued_sync:
  assumes "ledger_wf L" "in_sync msgs L s"
    and "deliver_queued frames (Some f) p fin lay routing start L s = (r, L', s')"
  shows "ledger_wf L' \<and> in_sync msgs L' s'"
proof (cases "storage L = None \<or> frames = 0 \<or> max_frames L < frames")
  case True
  then show ?thesis using assms cleanup_sync by (auto simp: deliver_queued_def)
next
  case False
  define L2 where "L2 = check_delivery frames routing start L"
  have w2: "ledger_wf L2" "in_sync msgs L2 s"
    unfolding L2_def check_delivery_def Let_def
    using assms(1,2) cleanup_sync [of L s True] cleanup_sync [of "L\<lparr>invalid_transition := True\<rparr>" s True]
    by (simp_all split: if_split)
  define ls where "ls = (if \<not> release_pending L2 \<and> \<not> output_blocked L2
      then deliver_events (Some f) routing start frames (queued L2) L2 s else (L2, s))"
  have v2: "list_all (\<lambda>t. valid_transition t (max_frames L2)) (queued L2)"
    using w2(1) by (simp add: ledger_wf_def storage_wf_def)
  have w3: "ledger_wf (fst ls)" "in_sync msgs (fst ls) (snd ls)"
    using deliver_events_sync [OF w2 v2, of routing start frames "fst ls" "snd ls"] w2
    by (auto simp: ls_def split: if_splits)
  have "L' = finish_hold p fin lay (fst ls)" "s' = snd ls"
    using assms(3) False unfolding deliver_queued_def Let_def L2_def [symmetric] ls_def [symmetric]
    by (simp_all only: if_False case_prod_unfold prod.inject simp_thms)
  then show ?thesis
    using w3 ledger_wf_finish_hold [OF w3(1)] by (auto simp: in_sync_def)
qed

theorem deliver_sync:
  assumes "ledger_wf L" "in_sync msgs L s"
    and "deliver frames (Some f) p fin lay routing start L s = (r, L', s')"
  shows "ledger_wf L'" "in_sync msgs L' s'"
proof -
  obtain ok L1 s1 where p: "retry_pending_releases (Some f) L s = (ok, L1, s1)" by (metis prod_cases3)
  have "ledger_wf L1" "in_sync msgs L1 s1"
    using retry_pending_releases_sync [OF assms(1,2) p] by simp_all
  moreover have "deliver_queued frames (Some f) p fin lay routing start L1 s1 = (r, L', s')"
    using assms(3) p by (simp add: deliver_def)
  ultimately show "ledger_wf L'" "in_sync msgs L' s'" using deliver_queued_sync by blast+
qed

text \<open>A retry that succeeds: which voices it clears and which messages it sends.\<close>

lemma retry_slots_ok:
  "ledger_wf L \<Longrightarrow> set slots \<subseteq> {..<kMaxVoices} \<Longrightarrow> distinct slots
     \<Longrightarrow> retry_slots (Some f) n slots L s = (True, L', s')
     \<Longrightarrow> cleared_by (\<lambda>i. i \<in> set slots \<and> unat (av_note (voices L ! i)) = n) L L'
       \<and> msgs s' = msgs s @ slot_releases L n slots \<and> ledger_wf L'"
proof (induction "Some f" n slots L s rule: retry_slots.induct)
  case (1 n L s)
  then show ?case by (simp add: cleared_by_refl slot_releases_def)
next
  case (2 n slot slots L s)
  let ?v = "voices L ! slot"
  show ?case
  proof (cases "av_pending_release ?v \<and> unat (av_note ?v) = n")
    case False
    then show ?thesis
      using 2 by (auto simp: Let_def cleared_by_def slot_releases_def)
  next
    case True
    obtain b L1 s1 where p: "push (Some f) L s (release_transition ?v n) (av_channel ?v) = (b, L1, s1)"
      by (metis prod_cases3)
    then have b: "b" using "2.prems"(4) True by (cases b) (simp_all add: Let_def)
    have slot: "slot < kMaxVoices" and len: "length (voices L) = kMaxVoices"
      using "2.prems"(1,2) by (simp_all add: ledger_wf_def voices_wf_def)
    then have act: "av_active ?v"
      using True "2.prems"(1) voices_wf_nth voice_wf_pending by (auto simp: ledger_wf_def)
    have send: "sendable (release_transition ?v n)"
      using release_sendable [OF voices_wf_nth [OF _ slot] act] "2.prems"(1) by (simp add: ledger_wf_def)
    from b have a: "L1 = L" "msgs s1 = msgs s @ [msg_off (av_channel ?v) (av_note ?v)]"
      using push_accepted [of _ L s _ L1 s1] p send by (auto simp: note_msg_of_def release_transition_def)
    have "retry_slots (Some f) n slots (clear_voice slot L) s1 = (True, L', s')"
      using "2.prems"(4) True p b a(1) by (simp add: Let_def)
    then have IH: "cleared_by (\<lambda>i. i \<in> set slots \<and> unat (av_note (voices (clear_voice slot L) ! i)) = n)
          (clear_voice slot L) L'"
      "msgs s' = msgs s1 @ slot_releases (clear_voice slot L) n slots" "ledger_wf L'"
      using "2.hyps"(2) [OF refl _ p [symmetric] refl] True b a(1) "2.prems"(2,3)
        ledger_wf_clear [OF "2.prems"(1) slot act] by simp_all
    have nth: "voices (clear_voice slot L) ! x = voices L ! x" if "x \<in> set slots" for x
      using "2.prems"(3) that by (cases "x = slot") (auto simp: frame_simps)
    have "slot_releases (clear_voice slot L) n slots = slot_releases L n slots"
      unfolding slot_releases_def by (intro map_cong filter_cong) (auto simp: nth)
    moreover have "slot_releases L n (slot # slots)
        = msg_off (av_channel ?v) (av_note ?v) # slot_releases L n slots"
      using True by (simp add: slot_releases_def)
    moreover have "cleared_by (\<lambda>i. i \<in> set (slot # slots) \<and> unat (av_note (voices L ! i)) = n) L L'"
      using IH(1) True slot len "2.prems"(3)
      by (auto simp: cleared_by_def frame_simps nth_list_update clear_voice_def split: if_splits)
    ultimately show ?thesis using IH a by simp
  qed
qed

lemma retry_notes_ok:
  "ledger_wf L \<Longrightarrow> distinct ns \<Longrightarrow> retry_notes (Some f) ns L s = (True, L', s')
     \<Longrightarrow> cleared_by (\<lambda>i. unat (av_note (voices L ! i)) \<in> set ns) L L'
       \<and> msgs s' = msgs s @ concat (map (\<lambda>n. slot_releases L n [0..<kMaxVoices]) ns)
       \<and> ledger_wf L'"
proof (induction ns arbitrary: L s)
  case Nil
  then show ?case by (simp add: cleared_by_refl)
next
  case (Cons n ns)
  obtain b L1 s1 where p: "retry_slots (Some f) n [0..<kMaxVoices] L s = (b, L1, s1)"
    by (metis prod_cases3)
  with Cons.prems have r: "b" "retry_notes (Some f) ns L1 s1 = (True, L', s')"
    by (cases b; simp)+
  have slots: "cleared_by (\<lambda>i. i \<in> set [0..<kMaxVoices] \<and> unat (av_note (voices L ! i)) = n) L L1"
    "msgs s1 = msgs s @ slot_releases L n [0..<kMaxVoices]" "ledger_wf L1"
    using retry_slots_ok [OF Cons.prems(1) _ _ p [unfolded eqTrueI [OF r(1)]]]
    by (auto simp: subset_iff)
  note IH = Cons.IH [OF slots(3) _ r(2)]
  have len: "length (voices L) = kMaxVoices" using Cons.prems(1) by (simp add: ledger_wf_def voices_wf_def)
  have rel: "slot_releases L1 m [0..<kMaxVoices] = slot_releases L m [0..<kMaxVoices]" if "m \<in> set ns" for m
    using slots(1) len that Cons.prems(2) unfolding slot_releases_def cleared_by_def
    by (intro map_cong filter_cong) auto
  have "cleared_by (\<lambda>i. unat (av_note (voices L ! i)) \<in> set (n # ns)) L L'"
    using slots(1) IH Cons.prems(2) len by (auto simp: cleared_by_def split: if_splits)
  moreover have "concat (map (\<lambda>m. slot_releases L1 m [0..<kMaxVoices]) ns)
      = concat (map (\<lambda>m. slot_releases L m [0..<kMaxVoices]) ns)"
    using rel by (intro arg_cong [where f = concat] map_cong) simp_all
  ultimately show ?case using IH slots(2) Cons.prems(2) by simp
qed

text \<open>
  A retry that succeeds has sent one note-off for each pending voice, lowest pitch first,
  and has cleared those voices and no other.
\<close>

theorem retry_pending_releases_ok:
  assumes wf: "ledger_wf L" and r: "retry_pending_releases (Some f) L s = (True, L', s')"
  shows "voices L' = map (\<lambda>v. if av_pending_release v then ActiveVoice_default else v) (voices L)"
    and "msgs s' = msgs s @ release_messages L" and "cleanup_complete L'"
    and "\<not> release_pending L'"
proof -
  have note128: "unat (av_note v) < 128" if "v \<in> set (voices L)" for v
    using wf that by (auto simp: ledger_wf_def voices_wf_def list_all_iff voice_wf_def
        ActiveVoice_default_def word_le_nat_alt split: if_splits)
  have *: "voices L' = map (\<lambda>v. if av_pending_release v then ActiveVoice_default else v) (voices L)
      \<and> msgs s' = msgs s @ release_messages L \<and> cleanup_complete L'"
  proof (cases "release_pending L")
    case False
    then have n: "\<not> av_pending_release v" if "v \<in> set (voices L)" for v
      using that by (auto simp: release_pending_def list_ex_iff)
    then have "map (\<lambda>v. if av_pending_release v then ActiveVoice_default else v) (voices L) = voices L"
      by (simp add: map_idI)
    moreover have "length (voices L) = kMaxVoices" using wf by (simp add: ledger_wf_def voices_wf_def)
    then have "slot_releases L m [0..<kMaxVoices] = []" for m
      using n by (auto simp: slot_releases_def filter_empty_conv)
    then have "release_messages L = []" by (simp add: release_messages_def)
    ultimately show ?thesis using r False by (auto simp: retry_pending_releases_def)
  next
    case True
    obtain b L1 where "retry_notes (Some f) [0..<128] L s = (b, L1, s')"
      using r True by (auto simp: retry_pending_releases_def split: prod.splits if_splits)
    moreover from this have L': "b" "L' = L1\<lparr>cleanup_complete := True\<rparr>"
      using r True by (auto simp: retry_pending_releases_def split: if_splits)
    ultimately have n: "cleared_by (\<lambda>i. unat (av_note (voices L ! i)) \<in> set [0..<128]) L L1"
      "msgs s' = msgs s @ release_messages L"
      using retry_notes_ok [OF wf, of "[0..<128]" s L1 s'] by (auto simp: release_messages_def)
    have "voices L1 = map (\<lambda>v. if av_pending_release v then ActiveVoice_default else v) (voices L)"
      using n(1) note128 by (intro nth_equalityI) (auto simp: cleared_by_def)
    then show ?thesis using n(2) L' by simp
  qed
  then show "voices L' = map (\<lambda>v. if av_pending_release v then ActiveVoice_default else v) (voices L)"
    and "msgs s' = msgs s @ release_messages L" and "cleanup_complete L'" by blast+
  show "\<not> release_pending L'" using * by (auto simp: release_pending_def list_ex_iff)
qed

end

end
