(* ===== verification/Note_Steps.thy ===== *)
theory Note_Steps
  imports Note_Delivery
begin

text \<open>
  Delivery as an abstract state machine: whatever the sink answers, a delivery takes the
  voices of the ledger through steps of three kinds, blocking, ending a sounding voice and
  starting a voice on an allocated channel. Invariants of the voices then follow by
  induction on the steps; here, that per-voice routing gives each voice its own channel.
\<close>

inductive voice_step :: "MidiRouting \<Rightarrow> u8 \<Rightarrow> NoteLedger \<Rightarrow> NoteLedger \<Rightarrow> bool"
  for routing start where
  block: "voice_step routing start L (enter_blocked L)"
| ends: "slot < kMaxVoices \<Longrightarrow> av_active (voices L ! slot)
     \<Longrightarrow> voice_step routing start L (clear_voice slot L)"
| starts: "slot < kMaxVoices \<Longrightarrow> \<not> av_active (voices L ! slot) \<Longrightarrow> \<not> panic_hold L
     \<Longrightarrow> \<not> identity_in_use L t \<Longrightarrow> allocate_channel L routing start t \<noteq> 0
     \<Longrightarrow> voice_step routing start L (add_voice slot t (allocate_channel L routing start t) L)"

abbreviation voice_steps :: "MidiRouting \<Rightarrow> u8 \<Rightarrow> NoteLedger \<Rightarrow> NoteLedger \<Rightarrow> bool" where
  "voice_steps routing start \<equiv> (voice_step routing start)\<^sup>*\<^sup>*"

context note_sink
begin

lemma deliver_note_off_steps:
  assumes "voices_wf L" "deliver_note_off (Some f) t L s = (go, L', s')" "sendable t"
  shows "voice_step routing start L L'"
proof (cases "length (voices L) \<le> find_voice L t")
  case True
  then show ?thesis using assms by (auto simp: deliver_note_off_def intro: voice_step.block)
next
  case False
  let ?slot = "find_voice L t"
  have v: "?slot < kMaxVoices" "av_active (voices L ! ?slot)"
    using find_voice_active [of L t] assms(1) False by simp_all
  obtain ok L1 s1 where p: "push (Some f) L s t (av_channel (voices L ! ?slot)) = (ok, L1, s1)"
    by (metis prod_cases3)
  show ?thesis
  proof (cases ok)
    case True
    then have "L1 = L" using push_accepted [OF assms(3)] p by simp
    then have "L' = clear_voice ?slot L"
      using assms(2) p True False by (simp add: deliver_note_off_def Let_def)
    then show ?thesis using v voice_step.ends by simp
  next
    case b: False
    then have r: "L1 = L \<or> L1 = enter_blocked L" using push_rejected [of L s t _ L1 s1] p by simp
    then have "?slot < length (voices L1)" "av_active (voices L1 ! ?slot)"
      using v False by (auto simp: frame_simps)
    then have "L' = enter_blocked L1"
      using assms(2) p False b by (simp add: deliver_note_off_def Let_def enter_blocked_mark_pending)
    then show ?thesis using r voice_step.block [of routing start L] by (auto simp: enter_blocked_idem)
  qed
qed

lemma deliver_note_on_steps:
  assumes wf: "voices_wf L" and d: "deliver_note_on (Some f) routing start t L s = (go, L', s')"
    and send: "sendable t"
  shows "voice_steps routing start L L'"
proof -
  let ?slot = "find_free_voice L" and ?c = "allocate_channel L routing start t"
  obtain ok L1 s1 where p: "push (Some f) L s t ?c = (ok, L1, s1)" by (metis prod_cases3)
  have "L' = L \<or> L' = enter_blocked L
     \<or> L' = enter_blocked L1 \<and> \<not> ok
     \<or> L' = add_voice ?slot t ?c L1 \<and> ok \<and> \<not> panic_hold L \<and> \<not> identity_in_use L t \<and> ?c \<noteq> 0
       \<and> ?slot < length (voices L)"
    using d p by (auto simp: deliver_note_on_def Let_def not_le split: if_splits)
  moreover have "ok \<Longrightarrow> L1 = L" "\<not> ok \<Longrightarrow> enter_blocked L1 = enter_blocked L"
    using push_accepted [OF send, of L s ?c L1 s1] push_rejected_blocked [of L s t ?c L1 s1] p by auto
  moreover have "voice_step routing start L (enter_blocked L)" by (rule voice_step.block)
  ultimately show ?thesis
    using find_free_inactive [OF wf] voice_step.starts [of ?slot L t routing start]
    by (metis (no_types, lifting) r_into_rtranclp rtranclp.rtrancl_refl)
qed

lemma deliver_events_steps:
  "ledger_wf L \<Longrightarrow> in_sync msgs L s \<Longrightarrow> list_all (\<lambda>t. valid_transition t m) ts
     \<Longrightarrow> deliver_events (Some f) routing start frames ts L s = (L', s')
     \<Longrightarrow> voice_steps routing start L L'"
proof (induction ts arbitrary: L s)
  case Nil
  then show ?case by simp
next
  case (Cons t ts)
  obtain go L1 s1 where d: "(if vt_kind t = note_off then deliver_note_off (Some f) t L s
      else deliver_note_on (Some f) routing start t L s) = (go, L1, s1)" by (metis prod_cases3)
  have v: "valid_transition t m" "list_all (\<lambda>t. valid_transition t m) ts" using Cons.prems(3) by simp_all
  have w1: "ledger_wf L1 \<and> in_sync msgs L1 s1"
    using d deliver_note_off_sync [OF Cons.prems(1,2) _ v(1)]
      deliver_note_on_sync [OF Cons.prems(1,2) _ v(1)] by (auto split: if_splits)
  have "voice_steps routing start L L1"
    using d deliver_note_off_steps [OF _ _ valid_sendable [OF v(1)], of L s go L1 s1 routing start]
      deliver_note_on_steps [OF _ _ valid_sendable [OF v(1)]] Cons.prems(1)
    by (auto simp: ledger_wf_def split: if_splits)
  moreover have "voice_steps routing start L1 L'" if "\<not> frames \<le> vt_sample_offset t" "go"
    using Cons.IH [of L1 s1] w1 v(2) Cons.prems(4) d that by (simp split: if_splits)
  moreover have "L' = L1" if "\<not> frames \<le> vt_sample_offset t" "\<not> go"
    using Cons.prems(4) d that by (simp split: if_splits)
  moreover have "voice_steps routing start L L'" if "frames \<le> vt_sample_offset t"
    using Cons.IH [of L s] Cons.prems v(2) that by simp
  ultimately show ?case by (metis rtranclp_trans)
qed

lemma retry_slots_steps:
  "ledger_wf L \<Longrightarrow> in_sync msgs L s \<Longrightarrow> set slots \<subseteq> {..<kMaxVoices}
     \<Longrightarrow> retry_slots (Some f) n slots L s = (ok, L', s') \<Longrightarrow> voice_steps routing start L L'"
proof (induction slots arbitrary: L s)
  case Nil
  then show ?case by simp
next
  case (Cons slot slots)
  let ?v = "voices L ! slot"
  show ?case
  proof (cases "av_pending_release ?v \<and> unat (av_note ?v) = n")
    case False
    then show ?thesis using Cons by (auto simp: Let_def)
  next
    case True
    obtain b L1 s1 where p: "push (Some f) L s (release_transition ?v n) (av_channel ?v) = (b, L1, s1)"
      by (metis prod_cases3)
    have slot: "slot < kMaxVoices" using Cons.prems(3) by simp
    have vw: "voice_wf ?v" using voices_wf_nth [OF _ slot] Cons.prems(1) by (simp add: ledger_wf_def)
    then have act: "av_active ?v" using True voice_wf_pending by simp
    show ?thesis
    proof (cases b)
      case b: True
      then have a: "L1 = L" "msgs s1 = msgs s @ [msg_off (av_channel ?v) (av_note ?v)]"
        using push_accepted [OF release_sendable [OF vw act], of L s n _ L1 s1] p
        by (auto simp: note_msg_of_def release_transition_def)
      have "retry_slots (Some f) n slots (clear_voice slot L) s1 = (ok, L', s')"
        using Cons.prems(4) True p b a(1) by (simp add: Let_def)
      then have "voice_steps routing start (clear_voice slot L) L'"
        using Cons.IH ledger_wf_clear [OF Cons.prems(1) slot act] in_sync_off [OF Cons.prems(2,1) slot act a(2)]
          Cons.prems(3) by simp
      then show ?thesis
        using voice_step.ends [of slot L routing start, OF slot act] by (rule converse_rtranclp_into_rtranclp [rotated])
    next
      case b: False
      have "L' = enter_blocked L1" using Cons.prems(4) True p b by (simp add: Let_def)
      then show ?thesis
        using p b push_rejected_blocked [of L s _ _ L1 s1] voice_step.block [of routing start L] by auto
    qed
  qed
qed

lemma retry_notes_steps:
  "ledger_wf L \<Longrightarrow> in_sync msgs L s \<Longrightarrow> retry_notes (Some f) ns L s = (ok, L', s')
     \<Longrightarrow> voice_steps routing start L L'"
proof (induction ns arbitrary: L s)
  case Nil
  then show ?case by simp
next
  case (Cons n ns)
  obtain b L1 s1 where p: "retry_slots (Some f) n [0..<kMaxVoices] L s = (b, L1, s1)"
    by (metis prod_cases3)
  have sl: "set [0..<kMaxVoices] \<subseteq> {..<kMaxVoices}" by auto
  have w: "ledger_wf L1" "in_sync msgs L1 s1" and st: "voice_steps routing start L L1"
    using retry_slots_sync [OF Cons.prems(1,2) sl p] retry_slots_steps [OF Cons.prems(1,2) sl p] by auto
  have "voice_steps routing start L1 L'"
    using Cons.prems(3) p Cons.IH [OF w] by (cases b) auto
  with st show ?case by (rule rtranclp_trans)
qed

end

subsection \<open>Channels of per-voice routing\<close>

definition channels_distinct :: "NoteLedger \<Rightarrow> bool" where
  "channels_distinct L \<longleftrightarrow> (\<forall>c. count (image_mset av_channel (active_voices L)) c \<le> 1)"

lemma channels_distinct_cong: "voices L' = voices L \<Longrightarrow> channels_distinct L' = channels_distinct L"
  by (simp add: channels_distinct_def active_voices_def)

lemma first_free_channel_unused:
  "first_free_channel L start slots = c \<Longrightarrow> c \<noteq> 0 \<Longrightarrow> \<not> channel_used L c"
  by (induction slots) (auto simp: Let_def split: if_splits)

lemma allocate_per_voice_unused:
  "allocate_channel L routing_per_voice start t = c \<Longrightarrow> c \<noteq> 0 \<Longrightarrow> \<not> channel_used L c"
  using first_free_channel_unused by (auto simp: allocate_channel_def Let_def split: if_splits)

lemma voice_step_channels:
  assumes "voice_step routing_per_voice start L L'" "length (voices L) = kMaxVoices" "channels_distinct L"
  shows "length (voices L') = kMaxVoices \<and> channels_distinct L'"
  using assms(1)
proof (cases rule: voice_step.cases)
  case block
  have "av_channel \<circ> mark_release = av_channel" by auto
  then have "image_mset av_channel (active_voices L') = image_mset av_channel (active_voices L)"
    using block by (simp only: active_voices_def frame_simps filter_map_mark_release multiset.map_comp)
  then show ?thesis using assms(2,3) block by (simp add: channels_distinct_def frame_simps)
next
  case (ends slot)
  then have "active_voices L' = active_voices L - {#voices L ! slot#}" "voices L ! slot \<in># active_voices L"
    using assms(2) active_voices_clear [of slot L] by (simp_all add: active_voices_def)
  then show ?thesis
    using assms(2,3) ends
    by (auto simp: channels_distinct_def image_mset_Diff frame_simps intro: le_trans [OF diff_le_self])
next
  case (starts slot t)
  let ?c = "allocate_channel L routing_per_voice start t"
  have "active_voices L' = add_mset \<lparr>av_active = True, av_pending_release = False,
      av_note = vt_note t, av_channel = ?c, av_voice_id = vt_voice_id t\<rparr> (active_voices L)"
    using starts assms(2) by (simp add: active_voices_def add_voice_def mset_filter_update)
  moreover have "count (image_mset av_channel (active_voices L)) ?c = 0"
    using allocate_per_voice_unused [OF refl starts(6)]
    by (auto simp: channel_used_def list_ex_iff active_voices_def occupied_def count_eq_zero_iff)
  ultimately show ?thesis
    using assms(2,3) starts(1) by (auto simp: channels_distinct_def add_voice_def)
qed

lemma voice_steps_channels:
  assumes "voice_steps routing_per_voice start L L'" "length (voices L) = kMaxVoices" "channels_distinct L"
  shows "channels_distinct L'"
proof -
  have "length (voices L') = kMaxVoices \<and> channels_distinct L'"
    using assms by (induction rule: rtranclp_induct) (auto dest: voice_step_channels)
  then show ?thesis ..
qed

context note_sink
begin

lemma retry_channels_distinct:
  assumes "ledger_wf L" "in_sync msgs L s" "channels_distinct L"
    and r: "retry_pending_releases (Some f) L s = (ok, L', s')"
  shows "channels_distinct L'"
proof (cases "release_pending L")
  case False
  then show ?thesis
    using r assms(3) channels_distinct_cong [of "L\<lparr>cleanup_complete := True\<rparr>" L]
    by (auto simp: retry_pending_releases_def)
next
  case True
  obtain b L1 s1 where p: "retry_notes (Some f) [0..<128] L s = (b, L1, s1)" by (metis prod_cases3)
  have "channels_distinct L1"
    using voice_steps_channels [OF retry_notes_steps [OF assms(1,2) p]] assms(1,3)
    by (simp add: ledger_wf_def voices_wf_def)
  then show ?thesis
    using r True p channels_distinct_cong [of "L1\<lparr>cleanup_complete := True\<rparr>" L1]
    by (cases b) (auto simp: retry_pending_releases_def)
qed

lemma deliver_queued_channels_distinct:
  assumes "ledger_wf L" "in_sync msgs L s" "channels_distinct L"
    and d: "deliver_queued frames (Some f) p fin lay routing_per_voice start L s = (r, L', s')"
  shows "channels_distinct L'"
proof (cases "storage L = None \<or> frames = 0 \<or> max_frames L < frames")
  case True
  then show ?thesis
    using assms channels_distinct_cong [of "L\<lparr>invalid_transition := True\<rparr>" L]
    by (auto simp: deliver_queued_def)
next
  case False
  define L2 where "L2 = check_delivery frames routing_per_voice start L"
  have w2: "ledger_wf L2" "in_sync msgs L2 s" "channels_distinct L2"
    unfolding L2_def check_delivery_def Let_def
    using assms(1-3) cleanup_sync [of L s True] cleanup_sync [of "L\<lparr>invalid_transition := True\<rparr>" s True]
      channels_distinct_cong [of "L\<lparr>invalid_transition := True\<rparr>" L]
    by (simp_all split: if_split)
  define ls where "ls = (if \<not> release_pending L2 \<and> \<not> output_blocked L2
      then deliver_events (Some f) routing_per_voice start frames (queued L2) L2 s else (L2, s))"
  have v2: "list_all (\<lambda>t. valid_transition t (max_frames L2)) (queued L2)"
    using w2(1) by (simp add: ledger_wf_def storage_wf_def)
  have "channels_distinct (fst ls)"
    using voice_steps_channels [OF deliver_events_steps [OF w2(1,2) v2]] w2
    by (auto simp: ls_def ledger_wf_def voices_wf_def prod_eq_iff split: if_splits)
  moreover have "L' = finish_hold p fin lay (fst ls)"
    using d False unfolding deliver_queued_def Let_def L2_def [symmetric] ls_def [symmetric]
    by (simp_all only: if_False case_prod_unfold prod.inject simp_thms)
  ultimately show ?thesis
    using channels_distinct_cong [of L' "fst ls"] by (simp add: frame_simps)
qed

theorem deliver_channels_distinct:
  assumes "ledger_wf L" "in_sync msgs L s" "channels_distinct L"
    and d: "deliver frames (Some f) p fin lay routing_per_voice start L s = (r, L', s')"
  shows "channels_distinct L'"
proof -
  obtain ok L1 s1 where r1: "retry_pending_releases (Some f) L s = (ok, L1, s1)" by (metis prod_cases3)
  have "deliver_queued frames (Some f) p fin lay routing_per_voice start L1 s1 = (r, L', s')"
    using d r1 by (simp add: deliver_def)
  then show ?thesis
    using deliver_queued_channels_distinct retry_pending_releases_sync [OF assms(1,2) r1]
      retry_channels_distinct [OF assms(1-3) r1] by blast
qed

end

subsection \<open>Holding and blocking\<close>

text \<open>
  The steps leave the panic flags alone and never unblock, so only \<open>finish_hold\<close> ends a hold
  or a block. While the hold lasts the host gets note-offs only.
\<close>

lemma voice_step_flags:
  assumes "voice_step routing start L L'"
  shows "panic_hold L' = panic_hold L" "recovery_requested L' = recovery_requested L"
    "hold_calls_remaining L' = hold_calls_remaining L" "output_blocked L \<Longrightarrow> output_blocked L'"
  using assms by (auto elim!: voice_step.cases simp: frame_simps) (simp_all add: clear_voice_def add_voice_def)

lemma voice_steps_flags:
  assumes "voice_steps routing start L L'"
  shows "panic_hold L' = panic_hold L \<and> recovery_requested L' = recovery_requested L
    \<and> hold_calls_remaining L' = hold_calls_remaining L \<and> (output_blocked L \<longrightarrow> output_blocked L')"
  using assms by (induction rule: rtranclp_induct) (auto simp: voice_step_flags)

fun is_msg_off :: "note_msg \<Rightarrow> bool" where
  "is_msg_off (msg_off _ _) = True"
| "is_msg_off (msg_on _ _) = False"

definition only_offs :: "('s \<Rightarrow> note_msg list) \<Rightarrow> 's \<Rightarrow> 's \<Rightarrow> bool" where
  "only_offs msgs s s' \<longleftrightarrow> (\<exists>ms. msgs s' = msgs s @ ms \<and> list_all is_msg_off ms)"

lemma only_offs_refl: "msgs s' = msgs s \<Longrightarrow> only_offs msgs s s'"
  by (simp add: only_offs_def)

lemma only_offs_trans: "only_offs msgs s s1 \<Longrightarrow> only_offs msgs s1 s2 \<Longrightarrow> only_offs msgs s s2"
  by (auto simp: only_offs_def)

context note_sink
begin

lemma push_off_only:
  assumes "sendable t" "vt_kind t = note_off" "push (Some f) L s t c = (ok, L', s')"
  shows "only_offs msgs s s'"
  using assms push_accepted [of t L s c L' s'] push_rejected [of L s t c L' s']
  by (cases ok) (auto simp: only_offs_def note_msg_of_def)

lemma deliver_events_hold:
  "ledger_wf L \<Longrightarrow> in_sync msgs L s \<Longrightarrow> list_all (\<lambda>t. valid_transition t m) ts \<Longrightarrow> panic_hold L
     \<Longrightarrow> deliver_events (Some f) routing start frames ts L s = (L', s') \<Longrightarrow> only_offs msgs s s'"
proof (induction ts arbitrary: L s)
  case Nil
  then show ?case by (simp add: only_offs_refl)
next
  case (Cons t ts)
  have v: "valid_transition t m" "list_all (\<lambda>t. valid_transition t m) ts" using Cons.prems(3) by simp_all
  consider "frames \<le> vt_sample_offset t" | "\<not> frames \<le> vt_sample_offset t" "vt_kind t \<noteq> note_off"
    | "\<not> frames \<le> vt_sample_offset t" "vt_kind t = note_off" by blast
  then show ?case
  proof cases
    case 1
    then show ?thesis using Cons v by simp
  next
    case 2
    then show ?thesis using Cons v by (simp add: deliver_note_on_def)
  next
    case 3
    obtain go L1 s1 where d: "deliver_note_off (Some f) t L s = (go, L1, s1)" by (metis prod_cases3)
    have w1: "ledger_wf L1" "in_sync msgs L1 s1"
      using deliver_note_off_sync [OF Cons.prems(1,2) 3(2) v(1) d] by simp_all
    have "voice_step routing start L L1"
      using deliver_note_off_steps [OF _ d valid_sendable [OF v(1)]] Cons.prems(1) by (simp add: ledger_wf_def)
    then have h: "panic_hold L1" using voice_step_flags(1) Cons.prems(4) by blast
    have "only_offs msgs s s1"
    proof (cases "length (voices L) \<le> find_voice L t")
      case True
      then show ?thesis using d by (auto simp: deliver_note_off_def only_offs_refl)
    next
      case False
      obtain ok L2 s2 where p: "push (Some f) L s t (av_channel (voices L ! find_voice L t)) = (ok, L2, s2)"
        by (metis prod_cases3)
      then have "s1 = s2" using d False by (auto simp: deliver_note_off_def Let_def split: if_splits)
      then show ?thesis using push_off_only [OF valid_sendable [OF v(1)] 3(2) p] by simp
    qed
    moreover have "only_offs msgs s1 s'"
      using Cons.prems(5) 3 d Cons.IH [OF w1 v(2) h] by (cases go) (auto simp: only_offs_refl)
    ultimately show ?thesis by (rule only_offs_trans)
  qed
qed

lemma retry_pending_steps:
  assumes "ledger_wf L" "in_sync msgs L s" "retry_pending_releases (Some f) L s = (ok, L', s')"
  shows "\<exists>L1 c. voice_steps routing start L L1 \<and> (L' = L1 \<or> L' = L1\<lparr>cleanup_complete := c\<rparr>)"
proof (cases "release_pending L")
  case False
  then show ?thesis using assms(3) by (auto simp: retry_pending_releases_def)
next
  case True
  obtain b L1 s1 where p: "retry_notes (Some f) [0..<128] L s = (b, L1, s1)" by (metis prod_cases3)
  then have "L' = L1 \<or> L' = L1\<lparr>cleanup_complete := True\<rparr>"
    using assms(3) True by (cases b) (auto simp: retry_pending_releases_def)
  then show ?thesis using retry_notes_steps [OF assms(1,2) p] by blast
qed

lemma retry_pending_flags:
  assumes "ledger_wf L" "in_sync msgs L s" "retry_pending_releases (Some f) L s = (ok, L', s')"
  shows "panic_hold L' = panic_hold L \<and> recovery_requested L' = recovery_requested L
    \<and> hold_calls_remaining L' = hold_calls_remaining L \<and> (output_blocked L \<longrightarrow> output_blocked L')"
  using retry_pending_steps [OF assms, of routing_single 1] voice_steps_flags by force

lemma retry_slots_offs:
  "ledger_wf L \<Longrightarrow> in_sync msgs L s \<Longrightarrow> set slots \<subseteq> {..<kMaxVoices}
     \<Longrightarrow> retry_slots (Some f) n slots L s = (ok, L', s') \<Longrightarrow> only_offs msgs s s'"
proof (induction slots arbitrary: L s)
  case Nil
  then show ?case by (simp add: only_offs_refl)
next
  case (Cons slot slots)
  let ?v = "voices L ! slot"
  show ?case
  proof (cases "av_pending_release ?v \<and> unat (av_note ?v) = n")
    case False
    then show ?thesis using Cons by (auto simp: Let_def)
  next
    case True
    obtain b L1 s1 where p: "push (Some f) L s (release_transition ?v n) (av_channel ?v) = (b, L1, s1)"
      by (metis prod_cases3)
    have slot: "slot < kMaxVoices" using Cons.prems(3) by simp
    have vw: "voice_wf ?v" using voices_wf_nth [OF _ slot] Cons.prems(1) by (simp add: ledger_wf_def)
    then have act: "av_active ?v" using True voice_wf_pending by simp
    note send = release_sendable [OF vw act, of n]
    have o1: "only_offs msgs s s1"
      using push_off_only [OF send _ p] by (simp add: release_transition_def)
    show ?thesis
    proof (cases b)
      case b: True
      then have a: "L1 = L" "msgs s1 = msgs s @ [msg_off (av_channel ?v) (av_note ?v)]"
        using push_accepted [OF send, of L s _ L1 s1] p by (auto simp: note_msg_of_def release_transition_def)
      have "retry_slots (Some f) n slots (clear_voice slot L) s1 = (ok, L', s')"
        using Cons.prems(4) True p b a(1) by (simp add: Let_def)
      then have "only_offs msgs s1 s'"
        using Cons.IH ledger_wf_clear [OF Cons.prems(1) slot act] in_sync_off [OF Cons.prems(2,1) slot act a(2)]
          Cons.prems(3) by simp
      with o1 show ?thesis by (rule only_offs_trans)
    next
      case b: False
      then have "s' = s1" using Cons.prems(4) True p by (simp add: Let_def)
      then show ?thesis using o1 by simp
    qed
  qed
qed

lemma retry_notes_offs:
  "ledger_wf L \<Longrightarrow> in_sync msgs L s \<Longrightarrow> retry_notes (Some f) ns L s = (ok, L', s')
     \<Longrightarrow> only_offs msgs s s'"
proof (induction ns arbitrary: L s)
  case Nil
  then show ?case by (simp add: only_offs_refl)
next
  case (Cons n ns)
  obtain b L1 s1 where p: "retry_slots (Some f) n [0..<kMaxVoices] L s = (b, L1, s1)"
    by (metis prod_cases3)
  have sl: "set [0..<kMaxVoices] \<subseteq> {..<kMaxVoices}" by auto
  have w: "ledger_wf L1" "in_sync msgs L1 s1" and o1: "only_offs msgs s s1"
    using retry_slots_sync [OF Cons.prems(1,2) sl p] retry_slots_offs [OF Cons.prems(1,2) sl p] by auto
  have "only_offs msgs s1 s'"
    using Cons.prems(3) p Cons.IH [OF w] by (cases b) (auto simp: only_offs_refl)
  with o1 show ?case by (rule only_offs_trans)
qed

lemma retry_pending_offs:
  assumes "ledger_wf L" "in_sync msgs L s" "retry_pending_releases (Some f) L s = (ok, L', s')"
  shows "only_offs msgs s s'"
proof (cases "release_pending L")
  case False
  then show ?thesis using assms(3) by (simp add: retry_pending_releases_def only_offs_refl)
next
  case True
  obtain b L1 s1 where p: "retry_notes (Some f) [0..<128] L s = (b, L1, s1)" by (metis prod_cases3)
  then have "s' = s1" using assms(3) True by (cases b) (auto simp: retry_pending_releases_def)
  then show ?thesis using retry_notes_offs [OF assms(1,2) p] by simp
qed

text \<open>What one \<open>deliver_queued\<close> does to the flags and, in a hold, to the host.\<close>

lemma deliver_queued_flags:
  assumes "ledger_wf L" "in_sync msgs L s"
    and d: "deliver_queued frames (Some f) p fin lay routing start L s = (r, L', s')"
  obtains L3 where "panic_hold L3 = panic_hold L" "recovery_requested L3 = recovery_requested L"
    "hold_calls_remaining L3 = hold_calls_remaining L" "output_blocked L \<Longrightarrow> output_blocked L3"
    "L' = L3 \<or> L' = finish_hold p fin lay L3" "panic_hold L \<Longrightarrow> only_offs msgs s s'"
proof (cases "storage L = None \<or> frames = 0 \<or> max_frames L < frames")
  case True
  then show thesis
    using d that [of "L\<lparr>invalid_transition := True\<rparr>"] by (auto simp: deliver_queued_def only_offs_refl)
next
  case False
  define L2 where "L2 = check_delivery frames routing start L"
  have w2: "ledger_wf L2" "in_sync msgs L2 s"
    unfolding L2_def check_delivery_def Let_def
    using assms(1-2) cleanup_sync [of L s True] cleanup_sync [of "L\<lparr>invalid_transition := True\<rparr>" s True]
    by (simp_all split: if_split)
  have f2: "panic_hold L2 = panic_hold L" "recovery_requested L2 = recovery_requested L"
    "hold_calls_remaining L2 = hold_calls_remaining L" "output_blocked L2 = output_blocked L"
    by (simp_all add: L2_def check_delivery_def Let_def)
  define ls where "ls = (if \<not> release_pending L2 \<and> \<not> output_blocked L2
      then deliver_events (Some f) routing start frames (queued L2) L2 s else (L2, s))"
  have v2: "list_all (\<lambda>t. valid_transition t (max_frames L2)) (queued L2)"
    using w2(1) by (simp add: ledger_wf_def storage_wf_def)
  have st: "voice_steps routing start L2 (fst ls)"
    using deliver_events_steps [OF w2 v2, of routing start frames "fst ls" "snd ls"]
    by (auto simp: ls_def split: if_splits)
  have "panic_hold L2 \<Longrightarrow> only_offs msgs s (snd ls)"
    using deliver_events_hold [OF w2 v2, of routing start frames "fst ls" "snd ls"]
    by (auto simp: ls_def only_offs_refl split: if_splits)
  moreover have "L' = finish_hold p fin lay (fst ls)" "s' = snd ls"
    using d False unfolding deliver_queued_def Let_def L2_def [symmetric] ls_def [symmetric]
    by (simp_all only: if_False case_prod_unfold prod.inject simp_thms)
  ultimately show thesis
    using that [of "fst ls"] voice_steps_flags [OF st] f2 by simp
qed

theorem deliver_hold_lasts:
  assumes "ledger_wf L" "in_sync msgs L s" "panic_hold L"
    and d: "deliver frames (Some f) p fin lay routing start L s = (r, L', s')"
  shows "only_offs msgs s s'"
    and "0 < hold_calls_remaining L \<Longrightarrow> panic_hold L'"
    and "\<not> panic_hold L' \<Longrightarrow> fin \<and> lay \<and> is_finite p \<and> p < kQuietPeak"
proof -
  obtain ok L1 s1 where r1: "retry_pending_releases (Some f) L s = (ok, L1, s1)" by (metis prod_cases3)
  have w1: "ledger_wf L1" "in_sync msgs L1 s1"
    using retry_pending_releases_sync [OF assms(1,2) r1] by simp_all
  note f1 = retry_pending_flags [OF assms(1,2) r1]
  have dq: "deliver_queued frames (Some f) p fin lay routing start L1 s1 = (r, L', s')"
    using d r1 by (simp add: deliver_def)
  obtain L3 where "panic_hold L3 = panic_hold L1" "hold_calls_remaining L3 = hold_calls_remaining L1"
    "L' = L3 \<or> L' = finish_hold p fin lay L3" "only_offs msgs s1 s'"
    using deliver_queued_flags [OF w1 dq] f1 assms(3) by metis
  moreover from this f1 assms(3) have "panic_hold L3" "hold_calls_remaining L3 = hold_calls_remaining L" by auto
  ultimately show "only_offs msgs s s'" "0 < hold_calls_remaining L \<Longrightarrow> panic_hold L'"
    "\<not> panic_hold L' \<Longrightarrow> fin \<and> lay \<and> is_finite p \<and> p < kQuietPeak"
    using only_offs_trans [OF retry_pending_offs [OF assms(1,2) r1]]
    by (auto simp: finish_hold_def split: if_splits)
qed

theorem deliver_blocked_stays:
  assumes "ledger_wf L" "in_sync msgs L s" "output_blocked L" "\<not> panic_hold L"
    and d: "deliver frames (Some f) p fin lay routing start L s = (r, L', s')"
  shows "output_blocked L'"
proof -
  obtain ok L1 s1 where r1: "retry_pending_releases (Some f) L s = (ok, L1, s1)" by (metis prod_cases3)
  have w1: "ledger_wf L1" "in_sync msgs L1 s1"
    using retry_pending_releases_sync [OF assms(1,2) r1] by simp_all
  have dq: "deliver_queued frames (Some f) p fin lay routing start L1 s1 = (r, L', s')"
    using d r1 by (simp add: deliver_def)
  obtain L3 where "panic_hold L3 = panic_hold L1" "output_blocked L1 \<Longrightarrow> output_blocked L3"
    "L' = L3 \<or> L' = finish_hold p fin lay L3"
    using deliver_queued_flags [OF w1 dq] by metis
  then show ?thesis
    using retry_pending_flags [OF assms(1,2) r1] assms(3,4) by (auto simp: finish_hold_def)
qed

end

end
