(* ===== verification/Vst3_Event_Sink.thy ===== *)
theory Vst3_Event_Sink
  imports Note_Steps
begin

text \<open>
  The VST3 sink of the ledger (\<open>vst3/vst3_event_sink.cpp\<close>): it checks a transition, builds
  the host's event and offers it to the host's event list. The list is the host's: its
  \<open>addEvent\<close> is the argument \<open>add_event\<close>, which says whether it answers \<open>kResultOk\<close> (or
  \<open>kResultTrue\<close>, the same code) and gives the host's next state. \<open>None\<close> is a null context
  or a null list.

  The float velocity \<open>velocity / 127.0F\<close> is represented by its numerator. The context keeps,
  beside the host, the events the host has accepted.
\<close>

datatype VstEventType = kNoteOnEvent | kNoteOffEvent

record VstEvent =
  ev_bus_index :: int
  ev_sample_offset :: int
  ev_type :: VstEventType
  ev_channel :: int
  ev_pitch :: int
  ev_velocity_127 :: u8
  ev_note_id :: int

record 'h Vst3EventSinkContext =
  vst_host :: 'h
  vst_delivered :: "VstEvent list"

type_synonym 'h add_event_fun = "'h \<Rightarrow> VstEvent \<Rightarrow> bool \<times> 'h"

definition vst3_note_id :: "VoiceTransition \<Rightarrow> int" where
  "vst3_note_id t =
     (let pitch = uint (vt_note t);
          ident = (if unat (vt_voice_id t) < kMaxVoices then uint (vt_voice_id t) * 128 + pitch
                      else pitch)
      in -1000 - ident)"

definition vst3_event :: "VoiceTransition \<Rightarrow> u8 \<Rightarrow> VstEvent" where
  "vst3_event t one_based_channel =
     (let on = (vt_kind t = note_on)
      in \<lparr>ev_bus_index = 0, ev_sample_offset = uint (vt_sample_offset t),
          ev_type = (if on then kNoteOnEvent else kNoteOffEvent),
          ev_channel = uint one_based_channel - 1, ev_pitch = uint (vt_note t),
          ev_velocity_127 = (if on then vt_velocity t else 0),
          ev_note_id = vst3_note_id t\<rparr>)"

definition vst3_valid :: "VoiceTransition \<Rightarrow> u8 \<Rightarrow> bool" where
  "vst3_valid t one_based_channel \<longleftrightarrow>
     (let on = (vt_kind t = note_on); off = (vt_kind t = note_off);
          valid_velocity = (on \<and> 0 < vt_velocity t \<and> vt_velocity t \<le> 127
                            \<or> off \<and> vt_velocity t = 0)
      in 1 \<le> one_based_channel \<and> one_based_channel \<le> 16 \<and> vt_note t \<le> 127
         \<and> valid_velocity \<and> (on \<or> off) \<and> vt_sample_offset t \<le> 2147483647)"

definition push_vst3_note ::
  "'h add_event_fun option \<Rightarrow> 'h Vst3EventSinkContext push_fun" where
  "push_vst3_note events L ctx t one_based_channel =
     (case events of
        None \<Rightarrow> (False, L, ctx)
      | Some add_event \<Rightarrow>
          if \<not> vst3_valid t one_based_channel then (False, L, ctx)
          else let (ok, h) = add_event (vst_host ctx) (vst3_event t one_based_channel)
               in (ok, L, ctx\<lparr>vst_host := h,
                              vst_delivered := vst_delivered ctx
                                @ (if ok then [vst3_event t one_based_channel] else [])\<rparr>))"

text \<open>The note message of an event.\<close>

definition vst3_msg :: "VstEvent \<Rightarrow> note_msg" where
  "vst3_msg e =
     (let c = word_of_int (ev_channel e + 1); n = word_of_int (ev_pitch e)
      in case ev_type e of kNoteOnEvent \<Rightarrow> msg_on c n | kNoteOffEvent \<Rightarrow> msg_off c n)"

definition vst3_msgs :: "'h Vst3EventSinkContext \<Rightarrow> note_msg list" where
  "vst3_msgs ctx = map vst3_msg (vst_delivered ctx)"

lemma vst3_msg_event:
  "vst3_valid t c \<Longrightarrow> vst3_msg (vst3_event t c) = note_msg_of t c"
  by (auto simp: vst3_msg_def vst3_event_def note_msg_of_def vst3_valid_def Let_def)

interpretation vst3_sink: note_sink "push_vst3_note events" vst3_msgs
  for events :: "'h add_event_fun option"
  by unfold_locales
    (auto simp: push_vst3_note_def vst3_msgs_def vst3_msg_event
      split: option.splits if_splits prod.splits)

lemma vst3_note_id_less_8:
  assumes "unat (vt_voice_id t) < kMaxVoices"
  shows "vst3_note_id t = -1000 - (uint (vt_voice_id t) * 128 + uint (vt_note t))"
  using assms by (simp add: vst3_note_id_def)

lemma vst3_note_id_strings_inject:
  assumes "unat (vt_voice_id t) < kMaxVoices" "unat (vt_voice_id u) < kMaxVoices"
    and "vt_note t \<le> 127" "vt_note u \<le> 127" "vst3_note_id t = vst3_note_id u"
  shows "vt_voice_id t = vt_voice_id u \<and> vt_note t = vt_note u"
proof -
  have b: "uint (vt_note t) < 128" "uint (vt_note u) < 128"
    using assms(3,4) by (simp_all add: word_le_def)
  have "uint (vt_voice_id t) * 128 + uint (vt_note t) = uint (vt_voice_id u) * 128 + uint (vt_note u)"
    using assms by (simp add: vst3_note_id_less_8)
  then have "uint (vt_voice_id t) = uint (vt_voice_id u) \<and> uint (vt_note t) = uint (vt_note u)"
    using b by (intro radix_inject [where k = 128]) simp_all
  then show ?thesis using word_uint_eqI by blast
qed

end
