(* ===== verification/Midi_Pipeline.thy ===== *)
theory Midi_Pipeline
  imports Note_Steps
begin

unbundle bit_operations_syntax

text \<open>
  The CLAP delivery of generated notes (\<open>plugin/midi_pipeline.cpp\<close>): it merges the host's own
  MIDI input into the output in time order, sends the ledger's notes between them, and after a
  failed push owes each routed channel an all-notes-off and an all-sound-off.

  The host's input list is its size and its \<open>get\<close>; the output list is the host's \<open>try_push\<close>,
  \<open>None\<close> when the list or the function pointer is null. Beside the host's state the context
  keeps what the host accepted: a MIDI event the pipeline built, or an input event passed on.
\<close>

subsection \<open>State\<close>

record MidiPipeline =
  mp_ledger :: NoteLedger
  mp_invalid_event :: bool
  mp_channel_panic_mask :: u16
  mp_routing :: MidiRouting
  mp_start_channel :: u8

definition MidiPipeline_default :: MidiPipeline where
  "MidiPipeline_default =
     \<lparr>mp_ledger = NoteLedger_default, mp_invalid_event = False, mp_channel_panic_mask = 0,
      mp_routing = routing_single, mp_start_channel = 1\<rparr>"

record MidiProcessResult =
  mr_invalid_event :: bool
  mr_output_blocked :: bool
  mr_panic_hold :: bool
  mr_detection_allowed :: bool

record ClapEvent =
  ce_size :: u32
  ce_time :: u32
  ce_space_id :: u16
  ce_type :: u16
  ce_payload :: "u8 list"

record ClapInputEvents =
  in_size :: u32
  in_get :: "u32 \<Rightarrow> ClapEvent option"

datatype ClapOutEvent =
    out_midi (om_time: u32) (om_status: u8) (om_data1: u8) (om_data2: u8)
  | out_forwarded ClapEvent

type_synonym 'h try_push_fun = "'h \<Rightarrow> ClapOutEvent \<Rightarrow> bool \<times> 'h"

text \<open>Identifiers of the CLAP interface: the core event space, a MIDI event and its size.\<close>

definition CLAP_CORE_EVENT_SPACE_ID :: u16 where "CLAP_CORE_EVENT_SPACE_ID = 0"
definition CLAP_EVENT_MIDI :: u16 where "CLAP_EVENT_MIDI = 10"
definition sizeof_clap_event_midi :: u32 where "sizeof_clap_event_midi = 24"

record 'h DeliveryContext =
  dc_pipeline :: MidiPipeline
  dc_input :: "ClapInputEvents option"
  dc_output :: "'h try_push_fun option"
  dc_frames :: u32
  dc_input_count :: u32
  dc_input_index :: u32
  dc_last_input_offset :: u32
  dc_have_last_input :: bool
  dc_host :: 'h
  dc_delivered :: "ClapOutEvent list"

subsection \<open>Operations on the ledger\<close>

definition pipeline_deactivate :: "MidiPipeline \<Rightarrow> MidiPipeline" where
  "pipeline_deactivate P =
     P\<lparr>mp_ledger := ledger_deactivate (mp_ledger P), mp_invalid_event := False,
       mp_channel_panic_mask := 0, mp_routing := routing_single, mp_start_channel := 1\<rparr>"

definition pipeline_activate :: "(nat \<Rightarrow> bool) \<Rightarrow> u32 \<Rightarrow> MidiPipeline \<Rightarrow> bool \<times> MidiPipeline" where
  "pipeline_activate alloc frames P =
     (let P1 = pipeline_deactivate P; (ok, L) = ledger_activate alloc frames (mp_ledger P1)
      in (ok, P1\<lparr>mp_ledger := L\<rparr>))"

definition pipeline_begin_block :: "MidiPipeline \<Rightarrow> MidiPipeline" where
  "pipeline_begin_block P =
     P\<lparr>mp_ledger := ledger_begin_block (mp_ledger P), mp_invalid_event := False\<rparr>"

definition pipeline_queue_transition ::
  "VoiceTransition \<Rightarrow> u32 \<Rightarrow> MidiPipeline \<Rightarrow> bool \<times> MidiPipeline" where
  "pipeline_queue_transition t frames P =
     (let (ok, L) = queue_transition t frames (mp_ledger P)
      in if \<not> ok then (False, P\<lparr>mp_ledger := L, mp_invalid_event := True\<rparr>)
         else (True, P\<lparr>mp_ledger := L\<rparr>))"

definition channel_bit :: "u8 \<Rightarrow> u16" where
  "channel_bit c = push_bit (unat (c - 1)) 1"

fun mark_slots :: "u8 \<Rightarrow> nat list \<Rightarrow> u16 \<Rightarrow> u16" where
  "mark_slots start [] marked = marked"
| "mark_slots start (slot # slots) marked =
     mark_slots start slots (marked OR channel_bit (route_channel start (of_nat slot)))"

definition mark_route_for_panic :: "MidiPipeline \<Rightarrow> MidiPipeline" where
  "mark_route_for_panic P =
     (let count = (if mp_routing P = routing_per_voice then kMaxVoices else 1)
      in P\<lparr>mp_channel_panic_mask :=
            mark_slots (mp_start_channel P) [0..<count] (mp_channel_panic_mask P)\<rparr>)"

definition enter_output_blocked :: "MidiPipeline \<Rightarrow> MidiPipeline" where
  "enter_output_blocked P =
     mark_route_for_panic (P\<lparr>mp_ledger := report_output_failure (mp_ledger P)\<rparr>)"

definition request_panic :: "u32 \<Rightarrow> u32 \<Rightarrow> MidiPipeline \<Rightarrow> bool \<times> MidiPipeline" where
  "request_panic offset frames P =
     (let (complete, L) = queue_active_releases offset frames (request_recovery (mp_ledger P));
          P1 = P\<lparr>mp_ledger := L\<rparr>
      in (complete, if \<not> complete then enter_output_blocked P1 else P1))"

definition request_reset :: "MidiPipeline \<Rightarrow> MidiPipeline" where
  "request_reset P =
     P\<lparr>mp_ledger := request_recovery (request_release_all (mp_ledger P))\<rparr>"

definition pipeline_cleanup_pending :: "MidiPipeline \<Rightarrow> bool" where
  "pipeline_cleanup_pending P \<longleftrightarrow>
     mp_channel_panic_mask P \<noteq> 0 \<or> release_pending (mp_ledger P)"

subsection \<open>Pushing to the host\<close>

definition host_push :: "ClapOutEvent \<Rightarrow> 'h DeliveryContext \<Rightarrow> bool \<times> 'h DeliveryContext" where
  "host_push e ctx =
     (case dc_output ctx of
        None \<Rightarrow> (False, ctx)
      | Some try_push \<Rightarrow>
          let (ok, h) = try_push (dc_host ctx) e
          in (ok, ctx\<lparr>dc_host := h,
                      dc_delivered := dc_delivered ctx @ (if ok then [e] else [])\<rparr>))"

definition push_midi ::
  "u32 \<Rightarrow> u8 \<Rightarrow> u8 \<Rightarrow> u8 \<Rightarrow> 'h DeliveryContext \<Rightarrow> bool \<times> 'h DeliveryContext" where
  "push_midi offset status data1 data2 ctx = host_push (out_midi offset status data1 data2) ctx"

definition push_input :: "ClapEvent \<Rightarrow> 'h DeliveryContext \<Rightarrow> bool \<times> 'h DeliveryContext" where
  "push_input e ctx = host_push (out_forwarded e) ctx"

definition set_invalid_event :: "'h DeliveryContext \<Rightarrow> 'h DeliveryContext" where
  "set_invalid_event ctx = ctx\<lparr>dc_pipeline := (dc_pipeline ctx)\<lparr>mp_invalid_event := True\<rparr>\<rparr>"

text \<open>
  One input event that is due, after the index has moved past it: rejected when it lies
  outside the block or goes back in time, skipped when it is not MIDI, else passed on.
\<close>

definition forward_input :: "ClapEvent \<Rightarrow> 'h DeliveryContext \<Rightarrow> bool \<times> 'h DeliveryContext" where
  "forward_input e ctx =
     (if dc_frames ctx \<le> ce_time e
         \<or> dc_have_last_input ctx \<and> ce_time e < dc_last_input_offset ctx
      then (True, set_invalid_event ctx)
      else let ctx1 = ctx\<lparr>dc_last_input_offset := ce_time e, dc_have_last_input := True\<rparr>
           in if ce_space_id e \<noteq> CLAP_CORE_EVENT_SPACE_ID \<or> ce_type e \<noteq> CLAP_EVENT_MIDI
              then (True, ctx1)
              else if ce_size e < sizeof_clap_event_midi then (True, set_invalid_event ctx1)
              else let (ok, ctx2) = push_input e ctx1
                   in if \<not> ok
                      then (False, ctx2\<lparr>dc_pipeline := enter_output_blocked (dc_pipeline ctx2)\<rparr>)
                      else (True, ctx2))"

definition input_header :: "'h DeliveryContext \<Rightarrow> ClapEvent option" where
  "input_header ctx =
     (case dc_input ctx of None \<Rightarrow> None | Some input \<Rightarrow> in_get input (dc_input_index ctx))"

lemma host_push_frame [frame_simps]:
  "dc_pipeline (snd (host_push e ctx)) = dc_pipeline ctx"
  "dc_input (snd (host_push e ctx)) = dc_input ctx"
  "dc_output (snd (host_push e ctx)) = dc_output ctx"
  "dc_frames (snd (host_push e ctx)) = dc_frames ctx"
  "dc_input_count (snd (host_push e ctx)) = dc_input_count ctx"
  "dc_input_index (snd (host_push e ctx)) = dc_input_index ctx"
  "dc_last_input_offset (snd (host_push e ctx)) = dc_last_input_offset ctx"
  "dc_have_last_input (snd (host_push e ctx)) = dc_have_last_input ctx"
  by (simp_all add: host_push_def split: option.split prod.split)

lemma forward_input_frame [frame_simps]:
  "dc_input_count (snd (forward_input e ctx)) = dc_input_count ctx"
  "dc_input_index (snd (forward_input e ctx)) = dc_input_index ctx"
  "dc_input (snd (forward_input e ctx)) = dc_input ctx"
  "dc_output (snd (forward_input e ctx)) = dc_output ctx"
  "dc_frames (snd (forward_input e ctx)) = dc_frames ctx"
  by (simp_all add: forward_input_def set_invalid_event_def push_input_def Let_def case_prod_unfold
      frame_simps)

text \<open>The loop of \<open>flush_inputs\<close>: it moves the index at each turn, so it ends.\<close>

function flush_inputs ::
  "u32 \<Rightarrow> bool \<Rightarrow> bool \<Rightarrow> bool \<Rightarrow> 'h DeliveryContext \<Rightarrow> bool \<times> 'h DeliveryContext" where
  "flush_inputs boundary inclusive final_flush ok ctx =
     (if dc_input_index ctx < dc_input_count ctx
      then let next = ctx\<lparr>dc_input_index := dc_input_index ctx + 1\<rparr>
           in case input_header ctx of
                None \<Rightarrow> flush_inputs boundary inclusive final_flush ok (set_invalid_event next)
              | Some e \<Rightarrow>
                  if final_flush \<or> ce_time e < boundary \<or> inclusive \<and> ce_time e = boundary
                  then flush_inputs boundary inclusive final_flush (ok \<and> fst (forward_input e next))
                         (snd (forward_input e next))
                  else (ok, ctx)
      else (ok, ctx))"
  by pat_completeness auto

lemma unat_minus_next: "i < n \<Longrightarrow> unat n - unat (i + 1) < unat n - unat i" for i n :: u32
proof -
  assume "i < n"
  then have "unat i < unat n" by (simp add: word_less_nat_alt)
  moreover have "unat n < 2 ^ LENGTH(32)" by (rule unsigned_less)
  ultimately have "unat (i + 1) = unat i + 1" by (simp add: unat_word_ariths)
  with \<open>unat i < unat n\<close> show ?thesis by simp
qed

termination flush_inputs
  by (relation "measure (\<lambda>(_, _, _, _, ctx). unat (dc_input_count ctx) - unat (dc_input_index ctx))")
    (auto simp: frame_simps set_invalid_event_def intro: unat_minus_next)

declare flush_inputs.simps [simp del]

subsection \<open>Delivering generated notes\<close>

definition push_generated ::
  "'h DeliveryContext \<Rightarrow> VoiceTransition \<Rightarrow> u8 \<Rightarrow> bool \<times> 'h DeliveryContext" where
  "push_generated ctx t one_based_channel =
     (let include_equal = (vt_kind t = note_on);
          (flushed, ctx1) = flush_inputs (vt_sample_offset t) include_equal False True ctx
      in if \<not> flushed then (False, ctx1)
         else let status = (if vt_kind t = note_off then 0x80 else 0x90) OR (one_based_channel - 1);
                  vel = (if vt_kind t = note_off then 0 else vt_velocity t);
                  (ok, ctx2) = push_midi (vt_sample_offset t) status (vt_note t) vel ctx1
              in if \<not> ok then (False, ctx2\<lparr>dc_pipeline := enter_output_blocked (dc_pipeline ctx2)\<rparr>)
                 else (True, ctx2))"

text \<open>
  The same as a sink: the ledger in the middle of \<open>deliver\<close> is the one of the pipeline the
  context points to.
\<close>

definition clap_sink :: "'h DeliveryContext push_fun" where
  "clap_sink L ctx t one_based_channel =
     (let (ok, ctx') = push_generated (ctx\<lparr>dc_pipeline := (dc_pipeline ctx)\<lparr>mp_ledger := L\<rparr>\<rparr>)
                         t one_based_channel
      in (ok, mp_ledger (dc_pipeline ctx'), ctx'))"

text \<open>The channels from 1 to 16 whose bit is set: two controllers each, then the bit is cleared.\<close>

fun retry_channels :: "nat list \<Rightarrow> 'h DeliveryContext \<Rightarrow> bool \<times> 'h DeliveryContext" where
  "retry_channels [] ctx = (True, ctx)"
| "retry_channels (c # cs) ctx =
     (let bit = channel_bit (of_nat c); P = dc_pipeline ctx
      in if mp_channel_panic_mask P AND bit = 0 then retry_channels cs ctx
         else let status = 0xB0 OR (of_nat c - 1);
                  (ok1, ctx1) = push_midi 0 status 123 0 ctx;
                  (ok2, ctx2) = (if ok1 then push_midi 0 status 120 0 ctx1 else (False, ctx1));
                  P2 = dc_pipeline ctx2
              in if \<not> (ok1 \<and> ok2)
                 then (False, ctx2\<lparr>dc_pipeline := P2\<lparr>mp_ledger := report_output_failure (mp_ledger P2)\<rparr>\<rparr>)
                 else retry_channels cs (ctx2\<lparr>dc_pipeline :=
                        P2\<lparr>mp_channel_panic_mask := mp_channel_panic_mask P2 AND NOT bit\<rparr>\<rparr>))"

definition retry_channel_panics :: "'h DeliveryContext \<Rightarrow> bool \<times> 'h DeliveryContext" where
  "retry_channel_panics ctx =
     (let P = dc_pipeline ctx
      in if mp_channel_panic_mask P = 0 \<or> release_pending (mp_ledger P)
         then (mp_channel_panic_mask P = 0, ctx)
         else retry_channels [1..<17] ctx)"

definition delivery_context ::
  "MidiPipeline \<Rightarrow> ClapInputEvents option \<Rightarrow> 'h try_push_fun option \<Rightarrow> u32 \<Rightarrow> 'h \<Rightarrow> ClapOutEvent list
     \<Rightarrow> 'h DeliveryContext" where
  "delivery_context P input output frames host delivered =
     \<lparr>dc_pipeline = P, dc_input = input, dc_output = output, dc_frames = frames,
      dc_input_count = (case input of None \<Rightarrow> 0 | Some i \<Rightarrow> in_size i), dc_input_index = 0,
      dc_last_input_offset = 0, dc_have_last_input = False, dc_host = host,
      dc_delivered = delivered\<rparr>"

definition process_rejects :: "u32 \<Rightarrow> u8 \<Rightarrow> MidiRouting \<Rightarrow> bool" where
  "process_rejects frames one_based_channel routing \<longleftrightarrow>
     frames = 0 \<or> kMaxHostFrames < unat frames \<or> one_based_channel = 0 \<or> 16 < one_based_channel
     \<or> routing \<noteq> routing_single \<and> routing \<noteq> routing_per_voice"

text \<open>\<open>process\<close> after its argument check: deliver, retry the channel panics, flush the rest.\<close>

definition process_block ::
  "u8 \<Rightarrow> f64 \<Rightarrow> bool \<Rightarrow> bool \<Rightarrow> MidiRouting \<Rightarrow> 'h DeliveryContext
     \<Rightarrow> MidiProcessResult \<times> 'h DeliveryContext" where
  "process_block one_based_channel selected_input_peak finite_input supported_layout routing ctx =
     (let retry_channel_this_call = (mp_channel_panic_mask (dc_pipeline ctx) \<noteq> 0);
          (generated, L, ctx1) = deliver (dc_frames ctx) (Some clap_sink) selected_input_peak
             finite_input supported_layout routing one_based_channel (mp_ledger (dc_pipeline ctx)) ctx;
          P1 = (dc_pipeline ctx1)\<lparr>mp_ledger := L\<rparr>;
          P2 = (if \<not> nd_detection_allowed generated \<and> \<not> nd_output_blocked generated
                   \<and> \<not> nd_panic_hold generated
                then P1\<lparr>mp_invalid_event := True\<rparr> else P1);
          P3 = (if nd_output_blocked generated \<and> mp_channel_panic_mask P2 = 0
                then mark_route_for_panic P2 else P2);
          ctx3 = ctx1\<lparr>dc_pipeline := P3\<rparr>;
          ctx4 = (if retry_channel_this_call then snd (retry_channel_panics ctx3) else ctx3);
          ctx5 = snd (flush_inputs (dc_frames ctx) False True True ctx4);
          P5 = dc_pipeline ctx5;
          blocked = output_blocked (mp_ledger P5); hold = panic_hold (mp_ledger P5)
      in (\<lparr>mr_invalid_event = mp_invalid_event P5, mr_output_blocked = blocked,
           mr_panic_hold = hold,
           mr_detection_allowed = (\<not> mp_invalid_event P5 \<and> \<not> blocked \<and> \<not> hold)\<rparr>, ctx5))"

definition pipeline_process ::
  "u32 \<Rightarrow> u8 \<Rightarrow> ClapInputEvents option \<Rightarrow> 'h try_push_fun option \<Rightarrow> f64 \<Rightarrow> bool \<Rightarrow> bool \<Rightarrow> MidiRouting
     \<Rightarrow> MidiPipeline \<Rightarrow> 'h \<Rightarrow> ClapOutEvent list
     \<Rightarrow> MidiProcessResult \<times> MidiPipeline \<times> 'h \<times> ClapOutEvent list" where
  "pipeline_process frames one_based_channel input output selected_input_peak finite_input
       supported_layout routing P host delivered =
     (if process_rejects frames one_based_channel routing
      then (\<lparr>mr_invalid_event = True, mr_output_blocked = output_blocked (mp_ledger P),
             mr_panic_hold = panic_hold (mp_ledger P), mr_detection_allowed = False\<rparr>,
            P\<lparr>mp_invalid_event := True\<rparr>, host, delivered)
      else let P1 = P\<lparr>mp_routing := routing, mp_start_channel := one_based_channel\<rparr>;
               (result, ctx) = process_block one_based_channel selected_input_peak finite_input
                  supported_layout routing (delivery_context P1 input output frames host delivered)
           in (result, dc_pipeline ctx, dc_host ctx, dc_delivered ctx))"

end
