(* ===== verification/Midi_Pipeline_Laws.thy ===== *)
theory Midi_Pipeline_Laws
  imports Midi_Pipeline
begin

unbundle bit_operations_syntax

text \<open>
  The CLAP delivery (\<open>Midi_Pipeline\<close>) keeps the contract of a note sink, so what
  \<open>Note_Delivery\<close> proves of the ledger holds of the messages a CLAP host receives.
\<close>

subsection \<open>What the host hears\<close>

text \<open>
  The note messages among the events the host accepted from the plugin itself, decoded by
  status byte. A note-on with velocity zero is a note-off, as MIDI has it; controllers and
  passed-on input carry no note of the ledger.
\<close>

definition midi_note_msg :: "u8 \<Rightarrow> u8 \<Rightarrow> u8 \<Rightarrow> note_msg list" where
  "midi_note_msg status data1 data2 =
     (let c = (status AND 15) + 1; k = status AND 0xF0
      in if k = 0x80 \<or> k = 0x90 \<and> data2 = 0 then [msg_off c data1]
         else if k = 0x90 then [msg_on c data1] else [])"

fun clap_msg :: "ClapOutEvent \<Rightarrow> note_msg list" where
  "clap_msg (out_midi _ status data1 data2) = midi_note_msg status data1 data2"
| "clap_msg (out_forwarded _) = []"

definition clap_msgs :: "'h DeliveryContext \<Rightarrow> note_msg list" where
  "clap_msgs ctx = concat (map clap_msg (dc_delivered ctx))"

lemma low_nibble:
  assumes "(x::u8) < 16"
  shows "x AND 15 = x" "x AND 0xF0 = 0"
proof -
  have "take_bit 4 x = x"
    using assms
    by (simp add: word_less_nat_alt word_unat_eq_iff unsigned_take_bit_eq take_bit_nat_eq_self)
  moreover have "x AND 15 = take_bit 4 x" by (simp add: take_bit_eq_mask mask_eq_exp_minus_1)
  ultimately show x: "x AND 15 = x" by simp
  have "(x AND 15) AND 0xF0 = 0" by (simp only: and.assoc) simp
  then show "x AND 0xF0 = 0" by (simp only: x)
qed

lemma status_nibbles:
  assumes "(x::u8) < 16"
  shows "(0x80 OR x) AND 15 = x" "(0x90 OR x) AND 15 = x" "(0x80 OR x) AND 0xF0 = 0x80"
    "(0x90 OR x) AND 0xF0 = 0x90" "(0xB0 OR x) AND 0xF0 = 0xB0"
  by (simp_all only: bit.conj_disj_distrib2 low_nibble [OF assms]) simp_all

lemma clap_msg_of:
  assumes "sendable t" "1 \<le> c" "c \<le> 16"
  shows "midi_note_msg ((if vt_kind t = note_off then 0x80 else 0x90) OR (c - 1)) (vt_note t)
           (if vt_kind t = note_off then 0 else vt_velocity t) = [note_msg_of t c]"
proof -
  have "c - 1 < 16" using assms(2,3) by (simp add: word_less_nat_alt word_le_nat_alt unat_sub)
  note n = status_nibbles [OF this]
  show ?thesis
    using assms(1) n by (auto simp: midi_note_msg_def note_msg_of_def sendable_def listed_kind_def Let_def)
qed

subsection \<open>Flushing input\<close>

lemma host_push_msgs:
  "clap_msgs (snd (host_push e ctx)) =
     clap_msgs ctx @ (if fst (host_push e ctx) then clap_msg e else [])"
  by (simp add: host_push_def clap_msgs_def split: option.split prod.split)

lemma forward_input_contract:
  "clap_msgs (snd (forward_input e ctx)) = clap_msgs ctx
   \<and> mp_ledger (dc_pipeline (snd (forward_input e ctx))) =
       (if fst (forward_input e ctx) then mp_ledger (dc_pipeline ctx)
        else enter_blocked (mp_ledger (dc_pipeline ctx)))"
proof -
  have "clap_msgs (ctx\<lparr>dc_last_input_offset := a, dc_have_last_input := b\<rparr>) = clap_msgs ctx"
    "clap_msgs (set_invalid_event ctx) = clap_msgs ctx"
    "clap_msgs (ctx\<lparr>dc_pipeline := P\<rparr>) = clap_msgs ctx" for a b P and ctx :: "'a DeliveryContext"
    by (simp_all add: clap_msgs_def set_invalid_event_def)
  then show ?thesis
    by (simp add: forward_input_def push_input_def Let_def case_prod_unfold host_push_msgs frame_simps
        enter_output_blocked_def mark_route_for_panic_def report_output_failure_def set_invalid_event_def)
qed

lemma flush_inputs_contract:
  "fst (flush_inputs b i f ok ctx) \<le> ok
   \<and> clap_msgs (snd (flush_inputs b i f ok ctx)) = clap_msgs ctx
   \<and> (mp_ledger (dc_pipeline (snd (flush_inputs b i f ok ctx))) = mp_ledger (dc_pipeline ctx)
      \<or> \<not> fst (flush_inputs b i f ok ctx)
        \<and> mp_ledger (dc_pipeline (snd (flush_inputs b i f ok ctx))) = enter_blocked (mp_ledger (dc_pipeline ctx)))"
proof (induction b i f ok ctx rule: flush_inputs.induct)
  case (1 b i f ok ctx)
  define next' where "next' = ctx\<lparr>dc_input_index := dc_input_index ctx + 1\<rparr>"
  have nx: "clap_msgs next' = clap_msgs ctx" "dc_pipeline next' = dc_pipeline ctx"
    "clap_msgs (set_invalid_event next') = clap_msgs ctx"
    "mp_ledger (dc_pipeline (set_invalid_event next')) = mp_ledger (dc_pipeline ctx)"
    by (simp_all add: next'_def clap_msgs_def set_invalid_event_def)
  show ?case
  proof (cases "dc_input_index ctx < dc_input_count ctx")
    case False
    then show ?thesis by (simp add: flush_inputs.simps [of b i f ok ctx])
  next
    case run: True
    show ?thesis
    proof (cases "input_header ctx")
      case None
      then show ?thesis
        using run 1(1) [OF run next'_def None] nx
        by (auto simp: flush_inputs.simps [of b i f ok ctx] simp flip: next'_def)
    next
      case (Some e)
      show ?thesis
      proof (cases "f \<or> ce_time e < b \<or> i \<and> ce_time e = b")
        case False
        then have "flush_inputs b i f ok ctx = (ok, ctx)"
          using run Some unfolding flush_inputs.simps [of b i f ok ctx] by (auto simp: Let_def)
        then show ?thesis by simp
      next
        case True
        have eq: "flush_inputs b i f ok ctx =
            flush_inputs b i f (ok \<and> fst (forward_input e next')) (snd (forward_input e next'))"
          using run Some True by (simp add: flush_inputs.simps [of b i f ok ctx] Let_def flip: next'_def)
        show ?thesis
          using 1(2) [OF run next'_def Some True] forward_input_contract [of e next'] nx
          unfolding eq by (auto simp: enter_blocked_idem split: if_splits)
      qed
    qed
  qed
qed

subsection \<open>The sink\<close>

lemma clap_msgs_pipeline [simp]: "clap_msgs (ctx\<lparr>dc_pipeline := P\<rparr>) = clap_msgs ctx"
  by (simp add: clap_msgs_def)

lemma ledger_enter_output_blocked [simp]:
  "mp_ledger (enter_output_blocked P) = enter_blocked (mp_ledger P)"
  by (simp add: enter_output_blocked_def mark_route_for_panic_def report_output_failure_def)

lemma push_generated_contract:
  assumes "push_generated ctx t c = (ok, ctx')"
  shows "(sendable t \<longrightarrow> 1 \<le> c \<longrightarrow> c \<le> 16 \<longrightarrow> ok \<longrightarrow> clap_msgs ctx' = clap_msgs ctx @ [note_msg_of t c])
    \<and> (\<not> ok \<longrightarrow> clap_msgs ctx' = clap_msgs ctx)
    \<and> (mp_ledger (dc_pipeline ctx') = mp_ledger (dc_pipeline ctx)
       \<or> \<not> ok \<and> mp_ledger (dc_pipeline ctx') = enter_blocked (mp_ledger (dc_pipeline ctx)))"
proof -
  let ?fl = "flush_inputs (vt_sample_offset t) (vt_kind t = note_on) False True ctx"
  define ev where "ev = out_midi (vt_sample_offset t)
      ((if vt_kind t = note_off then 0x80 else 0x90) OR (c - 1)) (vt_note t)
      (if vt_kind t = note_off then 0 else vt_velocity t)"
  define pu where "pu = host_push ev (snd ?fl)"
  have fl: "clap_msgs (snd ?fl) = clap_msgs ctx"
    "mp_ledger (dc_pipeline (snd ?fl)) = mp_ledger (dc_pipeline ctx)
      \<or> \<not> fst ?fl \<and> mp_ledger (dc_pipeline (snd ?fl)) = enter_blocked (mp_ledger (dc_pipeline ctx))"
    using flush_inputs_contract by blast+
  show ?thesis
  proof (cases "fst ?fl")
    case False
    then show ?thesis using assms fl by (auto simp: push_generated_def case_prod_unfold Let_def)
  next
    case True
    have "push_generated ctx t c = (if fst pu then (True, snd pu)
        else (False, (snd pu)\<lparr>dc_pipeline := enter_output_blocked (dc_pipeline (snd pu))\<rparr>))"
      using True by (simp add: push_generated_def case_prod_unfold Let_def push_midi_def pu_def ev_def)
    moreover have "clap_msg ev = [note_msg_of t c]" if "sendable t" "1 \<le> c" "c \<le> 16"
      using clap_msg_of [OF that] by (simp add: ev_def)
    moreover have "clap_msgs (snd pu) = clap_msgs (snd ?fl) @ (if fst pu then clap_msg ev else [])"
      "dc_pipeline (snd pu) = dc_pipeline (snd ?fl)"
      unfolding pu_def by (rule host_push_msgs) (rule host_push_frame)
    ultimately show ?thesis
      using fl True assms by (cases "fst pu") auto
  qed
qed

lemma clap_sink_contract:
  assumes "clap_sink L s t c = (ok, L', s')"
  shows "sendable t \<Longrightarrow> 1 \<le> c \<Longrightarrow> c \<le> 16 \<Longrightarrow> ok \<Longrightarrow> clap_msgs s' = clap_msgs s @ [note_msg_of t c]"
    and "\<not> ok \<Longrightarrow> clap_msgs s' = clap_msgs s"
    and "L' = L \<or> \<not> ok \<and> L' = enter_blocked L"
proof -
  define s0 where "s0 = s\<lparr>dc_pipeline := (dc_pipeline s)\<lparr>mp_ledger := L\<rparr>\<rparr>"
  have g: "push_generated s0 t c = (ok, s')" and L': "L' = mp_ledger (dc_pipeline s')"
    using assms unfolding clap_sink_def s0_def by (auto simp: case_prod_unfold prod_eq_iff Let_def)
  have e: "clap_msgs s0 = clap_msgs s" "mp_ledger (dc_pipeline s0) = L" by (simp_all add: s0_def)
  show "sendable t \<Longrightarrow> 1 \<le> c \<Longrightarrow> c \<le> 16 \<Longrightarrow> ok \<Longrightarrow> clap_msgs s' = clap_msgs s @ [note_msg_of t c]"
    and "\<not> ok \<Longrightarrow> clap_msgs s' = clap_msgs s" and "L' = L \<or> \<not> ok \<and> L' = enter_blocked L"
    using push_generated_contract [OF g, unfolded e] L' by auto
qed

interpretation clap_sink: note_sink clap_sink clap_msgs
proof unfold_locales
  show "L' = L \<and> clap_msgs s' = clap_msgs s @ [note_msg_of t c]"
    if "sendable t" "1 \<le> c" "c \<le> 16" "clap_sink L s t c = (True, L', s')" for t c L s L' s'
    using clap_sink_contract(1,3) [OF that(4)] that(1-3) by simp
  show "(L' = L \<or> L' = enter_blocked L) \<and> clap_msgs s' = clap_msgs s"
    if "clap_sink L s t c = (False, L', s')" for t c L s L' s'
    using clap_sink_contract(2,3) [OF that] by auto
qed

subsection \<open>Channel panics\<close>

text \<open>A retry sends controllers only, and leaves the voices as they are.\<close>

lemma channel_control_msgs: "c < 16 \<Longrightarrow> midi_note_msg (0xB0 OR c) d1 d2 = []"
  by (simp add: midi_note_msg_def status_nibbles)

lemma retry_channels_contract:
  "set cs \<subseteq> {1..16} \<Longrightarrow>
     clap_msgs (snd (retry_channels cs ctx)) = clap_msgs ctx
     \<and> (mp_ledger (dc_pipeline (snd (retry_channels cs ctx))) = mp_ledger (dc_pipeline ctx)
        \<or> mp_ledger (dc_pipeline (snd (retry_channels cs ctx))) = enter_blocked (mp_ledger (dc_pipeline ctx)))"
proof (induction cs arbitrary: ctx)
  case Nil
  then show ?case by simp
next
  case (Cons c cs)
  define bit where "bit = channel_bit (of_nat c)"
  define status where "status = (0xB0 OR (of_nat c - 1) :: u8)"
  define p1 where "p1 = push_midi 0 status 123 0 ctx"
  define p2 where "p2 = (if fst p1 then push_midi 0 status 120 0 (snd p1) else (False, snd p1))"
  define ctx2 where "ctx2 = (snd p2)\<lparr>dc_pipeline := (dc_pipeline (snd p2))
      \<lparr>mp_channel_panic_mask := mp_channel_panic_mask (dc_pipeline (snd p2)) AND NOT bit\<rparr>\<rparr>"
  have "unat (of_nat c - 1 :: u8) < 16"
  proof -
    have "unat (of_nat c :: u8) = c" using Cons.prems by (simp add: unat_of_nat)
    then show ?thesis using Cons.prems by (auto simp: unat_sub word_le_nat_alt)
  qed
  then have silent: "midi_note_msg status d1 d2 = []" for d1 d2
    unfolding status_def by (intro channel_control_msgs) (simp add: word_less_nat_alt)
  have p: "clap_msgs (snd p2) = clap_msgs ctx" "dc_pipeline (snd p2) = dc_pipeline ctx"
    using host_push_msgs [of "out_midi 0 status 123 0" ctx]
      host_push_msgs [of "out_midi 0 status 120 0" "snd p1"]
    by (auto simp: p1_def p2_def push_midi_def frame_simps silent)
  have d: "clap_msgs ctx2 = clap_msgs ctx" "mp_ledger (dc_pipeline ctx2) = mp_ledger (dc_pipeline ctx)"
    by (simp_all add: ctx2_def p)
  consider "mp_channel_panic_mask (dc_pipeline ctx) AND bit = 0"
    | "mp_channel_panic_mask (dc_pipeline ctx) AND bit \<noteq> 0" "\<not> (fst p1 \<and> fst p2)"
    | "mp_channel_panic_mask (dc_pipeline ctx) AND bit \<noteq> 0" "fst p1" "fst p2" by blast
  then show ?case
  proof cases
    case 1
    then show ?thesis using Cons.IH [of ctx] Cons.prems by (simp add: Let_def bit_def)
  next
    case 2
    then have "retry_channels (c # cs) ctx = (False, (snd p2)\<lparr>dc_pipeline :=
        (dc_pipeline (snd p2))\<lparr>mp_ledger := report_output_failure (mp_ledger (dc_pipeline (snd p2)))\<rparr>\<rparr>)"
      by (auto simp: Let_def case_prod_unfold p1_def p2_def status_def bit_def)
    then show ?thesis using p by (simp add: report_output_failure_def)
  next
    case 3
    then have eq: "retry_channels (c # cs) ctx = retry_channels cs ctx2"
      by (simp add: Let_def case_prod_unfold p1_def p2_def status_def bit_def ctx2_def)
    have "set cs \<subseteq> {1..16}" using Cons.prems by simp
    then show ?thesis using Cons.IH [of ctx2] eq d by simp
  qed
qed

subsection \<open>A whole call\<close>

lemma retry_channel_panics_contract:
  "clap_msgs (snd (retry_channel_panics ctx)) = clap_msgs ctx
   \<and> (mp_ledger (dc_pipeline (snd (retry_channel_panics ctx))) = mp_ledger (dc_pipeline ctx)
      \<or> mp_ledger (dc_pipeline (snd (retry_channel_panics ctx))) = enter_blocked (mp_ledger (dc_pipeline ctx)))"
proof -
  have "set [1..<17] \<subseteq> {1..16::nat}" by auto
  from retry_channels_contract [OF this, of ctx] show ?thesis
    by (simp add: retry_channel_panics_def Let_def)
qed

definition clap_synced :: "'h DeliveryContext \<Rightarrow> bool" where
  "clap_synced ctx \<longleftrightarrow>
     ledger_wf (mp_ledger (dc_pipeline ctx)) \<and> in_sync clap_msgs (mp_ledger (dc_pipeline ctx)) ctx"

lemma clap_synced_step:
  fixes ctx ctx' :: "'h DeliveryContext"
  assumes "clap_synced ctx" "clap_msgs ctx' = clap_msgs ctx"
    and "mp_ledger (dc_pipeline ctx') = mp_ledger (dc_pipeline ctx)
         \<or> mp_ledger (dc_pipeline ctx') = enter_blocked (mp_ledger (dc_pipeline ctx))"
  shows "clap_synced ctx'"
  using assms clap_sink.blocked_sync [of "mp_ledger (dc_pipeline ctx)" ctx ctx']
  by (auto simp: clap_synced_def in_sync_def)

lemma ledger_mark_route [simp]: "mp_ledger (mark_route_for_panic P) = mp_ledger P"
  by (simp add: mark_route_for_panic_def)

lemma process_block_synced:
  assumes "clap_synced ctx"
  shows "clap_synced (snd (process_block c peak fin lay routing ctx))"
proof -
  define d where "d = deliver (dc_frames ctx) (Some clap_sink) peak fin lay routing c
      (mp_ledger (dc_pipeline ctx)) ctx"
  define L ctx1 where "L = fst (snd d)" and "ctx1 = snd (snd d)"
  have "d = (fst d, L, ctx1)" by (simp add: L_def ctx1_def)
  then have s1: "ledger_wf L" "in_sync clap_msgs L ctx1"
    using clap_sink.deliver_sync assms unfolding clap_synced_def d_def by metis+
  define P1 where "P1 = (dc_pipeline ctx1)\<lparr>mp_ledger := L\<rparr>"
  define P2 where "P2 = (if \<not> nd_detection_allowed (fst d) \<and> \<not> nd_output_blocked (fst d)
      \<and> \<not> nd_panic_hold (fst d) then P1\<lparr>mp_invalid_event := True\<rparr> else P1)"
  define P3 where "P3 = (if nd_output_blocked (fst d) \<and> mp_channel_panic_mask P2 = 0
      then mark_route_for_panic P2 else P2)"
  define ctx3 where "ctx3 = ctx1\<lparr>dc_pipeline := P3\<rparr>"
  define ctx4 where "ctx4 = (if mp_channel_panic_mask (dc_pipeline ctx) \<noteq> 0
      then snd (retry_channel_panics ctx3) else ctx3)"
  have "mp_ledger P3 = L" by (simp add: P3_def P2_def P1_def)
  then have s3: "clap_synced ctx3"
    using s1 in_sync_cong [of clap_msgs ctx3 ctx1 L L] by (simp add: clap_synced_def ctx3_def)
  have s4: "clap_synced ctx4"
    using retry_channel_panics_contract [of ctx3] clap_synced_step [OF s3, of "snd (retry_channel_panics ctx3)"] s3
    by (auto simp: ctx4_def)
  have "clap_synced (snd (flush_inputs (dc_frames ctx) False True True ctx4))"
    using flush_inputs_contract [of "dc_frames ctx" False True True ctx4] clap_synced_step [OF s4]
    by auto
  moreover have "snd (process_block c peak fin lay routing ctx)
      = snd (flush_inputs (dc_frames ctx) False True True ctx4)"
    unfolding process_block_def ctx4_def ctx3_def P3_def P2_def P1_def
    by (simp only: Let_def case_prod_unfold d_def [symmetric] L_def [symmetric] ctx1_def [symmetric] snd_conv)
  ultimately show ?thesis by simp
qed

end
