(* ===== verification/Ledger_Properties.thy ===== *)
theory Ledger_Properties
  imports Vst3_Event_Sink Midi_Pipeline_Laws
begin

text \<open>
  The properties of note delivery, for the two sinks of the program: sequences of calls as
  the VST3 component and the CLAP plugin make them, and what the host has heard after them.
\<close>

subsection \<open>Sequences of calls\<close>

text \<open>
  The ledger calls of the VST3 component. Each call that pushes brings the host's event list
  of that block (\<open>None\<close> when the host gave none), and a preparation the allocator's answer.
\<close>

datatype 'h ledger_call =
    call_begin_block
  | call_queue VoiceTransition u32
  | call_queue_releases u32 u32
  | call_release_all
  | call_report_failure
  | call_recovery
  | call_retry "'h add_event_fun option"
  | call_deliver_queued u32 "'h add_event_fun option" f64 bool bool MidiRouting u8
  | call_deliver u32 "'h add_event_fun option" f64 bool bool MidiRouting u8
  | call_release_storage
  | call_activate_preserving bool u32

fun ledger_call_step ::
  "'h ledger_call \<Rightarrow> NoteLedger \<times> 'h Vst3EventSinkContext \<Rightarrow> NoteLedger \<times> 'h Vst3EventSinkContext" where
  "ledger_call_step call_begin_block (L, s) = (ledger_begin_block L, s)"
| "ledger_call_step (call_queue t frames) (L, s) = (snd (queue_transition t frames L), s)"
| "ledger_call_step (call_queue_releases offset frames) (L, s) =
     (snd (queue_active_releases offset frames L), s)"
| "ledger_call_step call_release_all (L, s) = (request_release_all L, s)"
| "ledger_call_step call_report_failure (L, s) = (report_output_failure L, s)"
| "ledger_call_step call_recovery (L, s) = (request_recovery L, s)"
| "ledger_call_step (call_retry events) (L, s) =
     snd (retry_pending_releases (Some (push_vst3_note events)) L s)"
| "ledger_call_step (call_deliver_queued frames events p fin lay routing start) (L, s) =
     snd (deliver_queued frames (Some (push_vst3_note events)) p fin lay routing start L s)"
| "ledger_call_step (call_deliver frames events p fin lay routing start) (L, s) =
     snd (deliver frames (Some (push_vst3_note events)) p fin lay routing start L s)"
| "ledger_call_step call_release_storage (L, s) = (release_storage_preserving_pending L, s)"
| "ledger_call_step (call_activate_preserving ok frames) (L, s) =
     (snd (activate_preserving_pending (\<lambda>_. ok) frames L), s)"

definition ledger_calls ::
  "'h ledger_call list \<Rightarrow> 'h \<Rightarrow> NoteLedger \<times> 'h Vst3EventSinkContext" where
  "ledger_calls cs h =
     fold ledger_call_step cs (NoteLedger_default, \<lparr>vst_host = h, vst_delivered = []\<rparr>)"

definition vst3_synced :: "NoteLedger \<times> 'h Vst3EventSinkContext \<Rightarrow> bool" where
  "vst3_synced Ls \<longleftrightarrow> ledger_wf (fst Ls) \<and> in_sync vst3_msgs (fst Ls) (snd Ls)"

lemma vst3_synced_quiet:
  assumes "vst3_synced (L, s)" "ledger_wf L'" "open_notes L' = open_notes L"
  shows "vst3_synced (L', s)"
  using assms by (simp add: vst3_synced_def in_sync_def)

lemma ledger_call_step_synced: "vst3_synced Ls \<Longrightarrow> vst3_synced (ledger_call_step c Ls)"
proof (cases Ls)
  fix L s
  assume s: "vst3_synced Ls" and Ls: "Ls = (L, s)"
  then have wf: "ledger_wf L" "in_sync vst3_msgs L s" by (simp_all add: vst3_synced_def)
  note q = vst3_synced_quiet [OF s [unfolded Ls]]
  show ?thesis
  proof (cases c)
    case (call_queue_releases offset frames)
    then show ?thesis
      using ledger_wf_queue_releases [OF wf(1)] by (simp add: Ls q queue_active_releases_def)
  next
    case (call_retry e)
    then show ?thesis
      using vst3_sink.retry_pending_releases_sync [OF wf, of e]
      by (cases "retry_pending_releases (Some (push_vst3_note e)) L s") (simp add: Ls vst3_synced_def)
  next
    case (call_deliver_queued frames e p fin lay routing start)
    then show ?thesis
      using vst3_sink.deliver_queued_sync [OF wf, of frames e p fin lay routing start]
      by (cases "deliver_queued frames (Some (push_vst3_note e)) p fin lay routing start L s")
        (simp add: Ls vst3_synced_def)
  next
    case (call_deliver frames e p fin lay routing start)
    then show ?thesis
      using vst3_sink.deliver_sync [OF wf, of frames e p fin lay routing start]
      by (cases "deliver frames (Some (push_vst3_note e)) p fin lay routing start L s")
        (simp add: Ls vst3_synced_def)
  qed (use wf in \<open>simp_all add: Ls q ledger_wf_begin_block ledger_wf_queue_transition
      ledger_wf_blocked report_output_failure_def ledger_wf_request_recovery
      ledger_wf_release_storage ledger_wf_activate_preserving\<close>)
qed

lemma ledger_calls_synced: "vst3_synced (ledger_calls cs h)"
proof -
  have "vst3_synced (fold ledger_call_step cs Ls)" if "vst3_synced Ls" for Ls
    using that by (induction cs arbitrary: Ls) (simp_all add: ledger_call_step_synced)
  moreover have "vst3_synced (NoteLedger_default, \<lparr>vst_host = h, vst_delivered = []\<rparr>)"
    using ledger_wf_default by (simp add: vst3_synced_def in_sync_def vst3_msgs_def)
  ultimately show ?thesis by (simp add: ledger_calls_def)
qed

text \<open>
  C1: No stuck and no phantom notes over VST3. After any sequence of ledger calls, whatever
  the host accepted or refused, playing the events the host accepted never releases a note
  that does not sound, and leaves sounding exactly the notes the ledger holds open.
\<close>

theorem vst3_notes_in_sync:
  "play (vst3_msgs (snd (ledger_calls cs h))) {#} = Some (open_notes (fst (ledger_calls cs h)))"
  using ledger_calls_synced [of cs h] by (simp add: vst3_synced_def in_sync_def)

subsection \<open>Calls of the CLAP plugin\<close>

datatype 'h pipeline_call =
    pcall_begin_block
  | pcall_queue VoiceTransition u32
  | pcall_panic u32 u32
  | pcall_reset
  | pcall_process u32 u8 "ClapInputEvents option" "'h try_push_fun option" f64 bool bool MidiRouting

type_synonym 'h pipeline_state = "MidiPipeline \<times> 'h \<times> ClapOutEvent list"

fun pipeline_call_step :: "'h pipeline_call \<Rightarrow> 'h pipeline_state \<Rightarrow> 'h pipeline_state" where
  "pipeline_call_step pcall_begin_block (P, h, d) = (pipeline_begin_block P, h, d)"
| "pipeline_call_step (pcall_queue t frames) (P, h, d) =
     (snd (pipeline_queue_transition t frames P), h, d)"
| "pipeline_call_step (pcall_panic offset frames) (P, h, d) = (snd (request_panic offset frames P), h, d)"
| "pipeline_call_step pcall_reset (P, h, d) = (request_reset P, h, d)"
| "pipeline_call_step (pcall_process frames c inp outp peak fin lay routing) (P, h, d) =
     snd (pipeline_process frames c inp outp peak fin lay routing P h d)"

text \<open>An activation (with the allocator's answer) and calls after it.\<close>

definition pipeline_calls ::
  "bool \<Rightarrow> u32 \<Rightarrow> 'h pipeline_call list \<Rightarrow> 'h \<Rightarrow> 'h pipeline_state" where
  "pipeline_calls ok frames cs h =
     fold pipeline_call_step cs
       (snd (pipeline_activate (\<lambda>_. ok) frames MidiPipeline_default), h, [])"

definition clap_notes :: "ClapOutEvent list \<Rightarrow> note_msg list" where
  "clap_notes es = concat (map clap_msg es)"

definition pipeline_synced :: "'h pipeline_state \<Rightarrow> bool" where
  "pipeline_synced S \<longleftrightarrow>
     ledger_wf (mp_ledger (fst S))
     \<and> play (clap_notes (snd (snd S))) {#} = Some (open_notes (mp_ledger (fst S)))"

lemma pipeline_synced_quiet:
  assumes "pipeline_synced (P, h, d)" "ledger_wf (mp_ledger P')"
    "open_notes (mp_ledger P') = open_notes (mp_ledger P)"
  shows "pipeline_synced (P', h, d)"
  using assms by (simp add: pipeline_synced_def)

lemma pipeline_process_synced:
  assumes "pipeline_synced (P, h, d)"
  shows "pipeline_synced (snd (pipeline_process frames c inp outp peak fin lay routing P h d))"
proof (cases "process_rejects frames c routing")
  case True
  then show ?thesis using assms by (simp add: pipeline_process_def pipeline_synced_def)
next
  case False
  let ?P = "P\<lparr>mp_routing := routing, mp_start_channel := c\<rparr>"
  let ?r = "process_block c peak fin lay routing (delivery_context ?P inp outp frames h d)"
  have "clap_synced (delivery_context ?P inp outp frames h d)"
    using assms by (simp add: clap_synced_def pipeline_synced_def in_sync_def clap_msgs_def
        clap_notes_def delivery_context_def)
  then have "clap_synced (snd ?r)" by (rule process_block_synced)
  then show ?thesis
    using False by (simp add: pipeline_process_def case_prod_unfold clap_synced_def pipeline_synced_def
        in_sync_def clap_msgs_def clap_notes_def Let_def)
qed

lemma pipeline_call_step_synced: "pipeline_synced S \<Longrightarrow> pipeline_synced (pipeline_call_step c S)"
proof (cases S)
  fix P h d
  assume s: "pipeline_synced S" and S: "S = (P, h, d)"
  then have wf: "ledger_wf (mp_ledger P)" by (simp add: pipeline_synced_def)
  note q = pipeline_synced_quiet [OF s [unfolded S]]
  show ?thesis
  proof (cases c)
    case (pcall_panic offset frames)
    have "ledger_wf (mp_ledger (snd (request_panic offset frames P)))
      \<and> open_notes (mp_ledger (snd (request_panic offset frames P))) = open_notes (mp_ledger P)"
      using ledger_wf_request_recovery [OF wf]
        ledger_wf_queue_releases [OF ledger_wf_request_recovery(1) [OF wf],
          of "voices (request_recovery (mp_ledger P))" offset frames 0 True]
        ledger_wf_blocked
      by (simp add: request_panic_def queue_active_releases_def Let_def case_prod_unfold)
    then show ?thesis by (simp add: S pcall_panic q)
  next
    case (pcall_process frames c inp outp peak fin lay routing)
    then show ?thesis using pipeline_process_synced s by (simp add: S)
  qed (use wf in \<open>simp_all add: S q pipeline_begin_block_def pipeline_queue_transition_def
      request_reset_def ledger_wf_begin_block ledger_wf_queue_transition ledger_wf_blocked
      ledger_wf_request_recovery case_prod_unfold Let_def\<close>)
qed

lemma pipeline_calls_synced: "pipeline_synced (pipeline_calls ok frames cs h)"
proof -
  have "pipeline_synced (fold pipeline_call_step cs S)" if "pipeline_synced S" for S
    using that by (induction cs arbitrary: S) (simp_all add: pipeline_call_step_synced)
  moreover have "pipeline_synced (snd (pipeline_activate (\<lambda>_. ok) frames MidiPipeline_default), h, [])"
    using ledger_wf_activate [of "\<lambda>_. ok" frames]
    by (simp add: pipeline_synced_def pipeline_activate_def Let_def case_prod_unfold clap_notes_def)
  ultimately show ?thesis by (simp add: pipeline_calls_def)
qed

text \<open>
  C2: No stuck and no phantom notes over CLAP. After an activation and any sequence of calls,
  with any input events and any host answers, the MIDI note messages the plugin built and
  the host accepted are matched, and leave sounding exactly the notes the ledger holds open.
\<close>

theorem clap_notes_in_sync:
  "play (clap_notes (snd (snd (pipeline_calls ok frames cs h)))) {#}
     = Some (open_notes (mp_ledger (fst (pipeline_calls ok frames cs h))))"
  using pipeline_calls_synced [of ok frames cs h] by (simp add: pipeline_synced_def)

subsection \<open>The queue\<close>

fun queue_all :: "u32 \<Rightarrow> VoiceTransition list \<Rightarrow> NoteLedger \<Rightarrow> bool \<times> NoteLedger" where
  "queue_all frames [] L = (True, L)"
| "queue_all frames (t # ts) L =
     (let (ok, L1) = queue_transition t frames L; (oks, L2) = queue_all frames ts L1
      in (ok \<and> oks, L2))"

lemma sort_key_sort_key_snoc: "sort_key f (sort_key f xs @ [t]) = sort_key f (xs @ [t])"
proof (rule properties_for_sort_key)
  show "mset (sort_key f (xs @ [t])) = mset (sort_key f xs @ [t])" by simp
  show "filter (\<lambda>x. f k = f x) (sort_key f (xs @ [t])) = filter (\<lambda>x. f k = f x) (sort_key f xs @ [t])" for k
    using sort_key_stable [of f "f k" xs] sort_key_stable [of f "f k" "xs @ [t]"]
    by (simp add: eq_commute)
  show "sorted (map f (sort_key f (xs @ [t])))" by simp
qed

lemma queue_all_sorts:
  "storage_wf L \<Longrightarrow> queued L = sort_key queue_key us \<Longrightarrow> queue_all frames ts L = (True, L')
     \<Longrightarrow> queued L' = sort_key queue_key (us @ ts)"
proof (induction ts arbitrary: L us)
  case Nil
  then show ?case by simp
next
  case (Cons t ts)
  obtain ok L1 where q: "queue_transition t frames L = (ok, L1)" by (metis surj_pair)
  then have ok: "ok" "queue_all frames ts L1 = (True, L')"
    using Cons.prems(3) by (auto simp: case_prod_unfold Let_def prod_eq_iff)
  have "queued L1 = sort_key queue_key (us @ [t])" "storage_wf L1"
    using queue_transition_accepted [OF Cons.prems(1), of t frames] q ok(1) Cons.prems(2)
      sort_key_sort_key_snoc [of queue_key us t] by simp_all
  then show ?case using Cons.IH [of L1 "us @ [t]"] ok(2) by simp
qed


definition sample_on :: "u32 \<Rightarrow> u8 \<Rightarrow> VoiceTransition" where
  "sample_on offset string =
     \<lparr>vt_sample_offset = offset, vt_kind = note_on, vt_note = 60, vt_velocity = 90,
      vt_sequence = 0, vt_voice_id = string\<rparr>"

definition sample_off :: "u32 \<Rightarrow> u8 \<Rightarrow> VoiceTransition" where
  "sample_off offset string =
     \<lparr>vt_sample_offset = offset, vt_kind = note_off, vt_note = 60, vt_velocity = 0,
      vt_sequence = 7, vt_voice_id = string\<rparr>"

definition accepting :: "unit add_event_fun option" where
  "accepting = Some (\<lambda>h e. (True, h))"


subsection \<open>Releases\<close>

lemma reachable_wf:
  "ledger_wf (fst (ledger_calls cs h))" "in_sync vst3_msgs (fst (ledger_calls cs h)) (snd (ledger_calls cs h))"
  using ledger_calls_synced [of cs h] by (simp_all add: vst3_synced_def)

text \<open>
  C4: A retry of the pending releases that succeeds has sent the host exactly one note-off for
  each pending voice, lowest pitch first, and has cleared those voices and no other.
\<close>

theorem vst3_retry_releases:
  assumes "retry_pending_releases (Some (push_vst3_note events))
      (fst (ledger_calls cs h)) (snd (ledger_calls cs h)) = (True, L', ctx')"
  shows "vst3_msgs ctx' = vst3_msgs (snd (ledger_calls cs h)) @ release_messages (fst (ledger_calls cs h))
     \<and> voices L' = map (\<lambda>v. if av_pending_release v then ActiveVoice_default else v)
                       (voices (fst (ledger_calls cs h)))
     \<and> \<not> release_pending L'"
  using vst3_sink.retry_pending_releases_ok [OF reachable_wf(1) assms] by simp

definition sample_calls :: "unit ledger_call list" where
  "sample_calls =
     [call_activate_preserving True 64, call_begin_block, call_queue (sample_on 3 2) 64,
      call_queue (sample_on 5 6) 64, call_deliver 64 accepting 0 True True routing_per_voice 1]"

text \<open>Two strings sounding, then the storage is released: the state the calls reach.\<close>

definition sample_voice :: "u8 \<Rightarrow> u8 \<Rightarrow> ActiveVoice" where
  "sample_voice channel string =
     \<lparr>av_active = True, av_pending_release = True, av_note = 60, av_channel = channel,
      av_voice_id = string\<rparr>"

definition sample_ledger :: NoteLedger where
  "sample_ledger =
     \<lparr>storage = None, capacity = 0, queue_size = 0, max_frames = 0,
      voices = sample_voice 3 2 # sample_voice 7 6 # replicate 6 ActiveVoice_default,
      active_count = 2, invalid_transition = False, output_blocked = False,
      cleanup_complete = False, panic_hold = False, recovery_requested = False,
      hold_calls_remaining = 0\<rparr>"

definition sample_event :: "VstEventType \<Rightarrow> int \<Rightarrow> u8 \<Rightarrow> u8 \<Rightarrow> VstEvent" where
  "sample_event ty offset channel string =
     \<lparr>ev_bus_index = 0, ev_sample_offset = offset, ev_type = ty, ev_channel = uint channel - 1,
      ev_pitch = 60, ev_velocity_127 = (if ty = kNoteOnEvent then 90 else 0),
      ev_note_id = -1060 - 128 * uint string\<rparr>"

definition sample_context :: "unit Vst3EventSinkContext" where
  "sample_context =
     \<lparr>vst_host = (), vst_delivered =
        [sample_event kNoteOnEvent 3 3 2, sample_event kNoteOnEvent 5 7 6]\<rparr>"

lemma sample_state:
  "ledger_calls (sample_calls @ [call_release_storage]) () = (sample_ledger, sample_context)"
  by code_simp

theorem vst3_retry_releases_witness:
  "\<exists>L' (ctx' :: unit Vst3EventSinkContext). vst3_msgs ctx' = [msg_on 3 60, msg_on 7 60, msg_off 3 60, msg_off 7 60]
     \<and> \<not> release_pending L'"
proof -
  let ?r = "retry_pending_releases (Some (push_vst3_note accepting)) sample_ledger sample_context"
  have "fst ?r" by code_simp
  then have r: "?r = (True, fst (snd ?r), snd (snd ?r))" by (metis (full_types) prod.collapse)
  have m: "vst3_msgs (snd (snd ?r)) = [msg_on 3 60, msg_on 7 60, msg_off 3 60, msg_off 7 60]"
    by code_simp
  note p = vst3_retry_releases [of accepting "sample_calls @ [call_release_storage]" "()",
      unfolded sample_state fst_conv snd_conv, OF r]
  have "\<not> release_pending (fst (snd ?r))" using p by (elim conjE)
  with m show ?thesis by (intro exI conjI)
qed

text \<open>A host that accepts every event.\<close>

locale accepting_sink = note_sink +
  assumes accepts: "sendable t \<Longrightarrow> vt_sample_offset t \<le> 2147483647 \<Longrightarrow> 1 \<le> c \<Longrightarrow> c \<le> 16
      \<Longrightarrow> fst (f L s t c)"
begin

lemma push_accepts:
  "sendable t \<Longrightarrow> vt_sample_offset t \<le> 2147483647 \<Longrightarrow> 1 \<le> c \<Longrightarrow> c \<le> 16
     \<Longrightarrow> \<exists>s'. push (Some f) L s t c = (True, L, s')"
  using accepts [of t c L s] accepted [of t c L s]
  by (cases "f L s t c") (auto simp: push_def)

lemma retry_slots_accepts:
  "ledger_wf L \<Longrightarrow> set slots \<subseteq> {..<kMaxVoices} \<Longrightarrow> fst (retry_slots (Some f) n slots L s)"
proof (induction slots arbitrary: L s)
  case Nil
  then show ?case by simp
next
  case (Cons slot slots)
  let ?v = "voices L ! slot"
  show ?case
  proof (cases "av_pending_release ?v \<and> unat (av_note ?v) = n")
    case False
    then show ?thesis using Cons by (auto simp: Let_def)
  next
    case True
    have slot: "slot < kMaxVoices" using Cons.prems(2) by simp
    have vw: "voice_wf ?v" using voices_wf_nth [OF _ slot] Cons.prems(1) by (simp add: ledger_wf_def)
    then have act: "av_active ?v" using True voice_wf_pending by simp
    then have "1 \<le> av_channel ?v" "av_channel ?v \<le> 16" using vw by (simp_all add: voice_wf_def)
    then obtain s' where "push (Some f) L s (release_transition ?v n) (av_channel ?v) = (True, L, s')"
      using push_accepts [OF release_sendable [OF vw act]] by (force simp: release_transition_def)
    then show ?thesis
      using True Cons.IH [OF ledger_wf_clear [OF Cons.prems(1) slot act]] Cons.prems(2)
      by (simp add: Let_def)
  qed
qed

lemma retry_notes_accepts:
  "ledger_wf L \<Longrightarrow> in_sync msgs L s \<Longrightarrow> fst (retry_notes (Some f) ns L s)"
proof (induction ns arbitrary: L s)
  case Nil
  then show ?case by simp
next
  case (Cons n ns)
  have sl: "set [0..<kMaxVoices] \<subseteq> {..<kMaxVoices}" by auto
  obtain L1 s1 where p: "retry_slots (Some f) n [0..<kMaxVoices] L s = (True, L1, s1)"
    using retry_slots_accepts [OF Cons.prems(1) sl, of n s] by (metis eq_fst_iff prod.collapse)
  then show ?case
    using Cons.IH [of L1 s1] retry_slots_sync [OF Cons.prems sl p] by simp
qed

lemma release_all_silences:
  assumes "ledger_wf L" "in_sync msgs L s"
  obtains L' s' where "retry_pending_releases (Some f) (request_release_all L) s = (True, L', s')"
    "play (msgs s') {#} = Some {#}"
proof -
  let ?L = "request_release_all L"
  have wf: "ledger_wf ?L" "in_sync msgs ?L s"
    using ledger_wf_blocked(3,4) [OF assms(1)] assms(2) by (simp_all add: in_sync_def)
  have "fst (retry_pending_releases (Some f) ?L s)"
    using retry_notes_accepts [OF wf]
    by (simp add: retry_pending_releases_def case_prod_unfold Let_def)
  then obtain L' s' where r: "retry_pending_releases (Some f) ?L s = (True, L', s')"
    by (metis eq_fst_iff prod.collapse)
  have "voices L' = map (\<lambda>v. if av_pending_release v then ActiveVoice_default else v) (map mark_release (voices L))"
    using retry_pending_releases_ok(1) [OF wf(1) r] by (simp add: frame_simps)
  moreover have "\<not> av_active (if av_pending_release v then ActiveVoice_default else v)"
    if "v \<in> set (map mark_release (voices L))" for v
    using that by auto
  ultimately have "open_notes L' = {#}"
    by (auto simp: open_notes_def active_voices_def filter_mset_eq_conv)
  moreover have "in_sync msgs L' s'" using retry_pending_releases_sync [OF wf r] by simp
  ultimately show thesis using that r by (simp add: in_sync_def)
qed

end

interpretation vst3_accepting: accepting_sink "push_vst3_note (Some (\<lambda>h e. (True, g h e)))" vst3_msgs
  for g :: "'h \<Rightarrow> VstEvent \<Rightarrow> 'h"
proof unfold_locales
  show "fst (push_vst3_note (Some (\<lambda>h e. (True, g h e))) L s t c)"
    if "sendable t" "vt_sample_offset t \<le> 2147483647" "1 \<le> c" "c \<le> 16" for t c L s
    using that
    by (auto simp: push_vst3_note_def vst3_valid_def sendable_def listed_kind_def Let_def word_gt_0)
qed

text \<open>
  C5: A panic silences an accepting host. After any calls, releasing all voices and retrying
  against a host that accepts every event leaves no note sounding.
\<close>

theorem vst3_release_all_silences:
  "play (vst3_msgs (snd (snd (retry_pending_releases
       (Some (push_vst3_note (Some (\<lambda>h e. (True, g h e)))))
       (request_release_all (fst (ledger_calls cs h))) (snd (ledger_calls cs h)))))) {#} = Some {#}"
  by (rule vst3_accepting.release_all_silences [OF reachable_wf [of cs h], of g]) simp

subsection \<open>Per-voice channels\<close>

fun per_voice_call :: "'h ledger_call \<Rightarrow> bool" where
  "per_voice_call (call_deliver_queued _ _ _ _ _ routing _) \<longleftrightarrow> routing = routing_per_voice"
| "per_voice_call (call_deliver _ _ _ _ _ routing _) \<longleftrightarrow> routing = routing_per_voice"
| "per_voice_call _ \<longleftrightarrow> True"

lemma channels_distinct_released:
  assumes "channels_distinct L" "voices L' = map mark_release (voices L)"
  shows "channels_distinct L'"
proof -
  have "av_channel \<circ> mark_release = av_channel" by auto
  then have "image_mset av_channel (active_voices L') = image_mset av_channel (active_voices L)"
    by (simp only: active_voices_def assms(2) filter_map_mark_release multiset.map_comp)
  then show ?thesis using assms(1) by (simp add: channels_distinct_def)
qed

lemma ledger_call_step_channels:
  assumes "vst3_synced Ls" "channels_distinct (fst Ls)" "per_voice_call c"
  shows "channels_distinct (fst (ledger_call_step c Ls))"
proof (cases Ls)
  fix L s
  assume Ls: "Ls = (L, s)"
  then have wf: "ledger_wf L" "in_sync vst3_msgs L s" and d: "channels_distinct L"
    using assms by (simp_all add: vst3_synced_def)
  have keep: "channels_distinct L'" if "voices L' = voices L" for L'
    using channels_distinct_cong [OF that] d by simp
  note rel = channels_distinct_released [OF d]
  show ?thesis
  proof (cases c)
    case (call_retry e)
    then show ?thesis
      using vst3_sink.retry_channels_distinct [OF wf d, of e]
      by (cases "retry_pending_releases (Some (push_vst3_note e)) L s") (simp add: Ls)
  next
    case (call_deliver_queued frames e p fin lay routing start)
    then show ?thesis
      using assms(3) vst3_sink.deliver_queued_channels_distinct [OF wf d, of frames e p fin lay start]
      by (cases "deliver_queued frames (Some (push_vst3_note e)) p fin lay routing start L s")
        (simp add: Ls)
  next
    case (call_deliver frames e p fin lay routing start)
    then show ?thesis
      using assms(3) vst3_sink.deliver_channels_distinct [OF wf d, of frames e p fin lay start]
      by (cases "deliver frames (Some (push_vst3_note e)) p fin lay routing start L s") (simp add: Ls)
  next
    case (call_queue_releases offset frames)
    then show ?thesis
      using ledger_wf_queue_releases [OF wf(1)] by (simp add: Ls keep queue_active_releases_def)
  qed (simp_all add: Ls keep rel ledger_begin_block_def queue_transition_frame report_output_failure_def
      frame_simps request_recovery_def release_storage_preserving_pending_def drop_storage_def
      activate_preserving_pending_def allocate_storage_def Let_def)
qed

text \<open>
  C6: Per-voice routing never shares a channel. After any calls in which every delivery routes
  per voice, the voices the ledger holds open are on pairwise different channels.
\<close>

theorem per_voice_channels_distinct:
  assumes "list_all per_voice_call cs"
  shows "count (image_mset av_channel (active_voices (fst (ledger_calls cs h)))) c \<le> 1"
proof -
  have "channels_distinct (fst (fold ledger_call_step cs Ls))"
    if "vst3_synced Ls" "channels_distinct (fst Ls)" "list_all per_voice_call cs"
    for cs :: "'a ledger_call list" and Ls
    using that by (induction cs arbitrary: Ls) (simp_all add: ledger_call_step_synced ledger_call_step_channels)
  moreover have "vst3_synced (NoteLedger_default, \<lparr>vst_host = h, vst_delivered = []\<rparr>)"
    using ledger_calls_synced [of "[]" h] by (simp add: ledger_calls_def)
  moreover have "channels_distinct NoteLedger_default"
    by (simp add: channels_distinct_def NoteLedger_default_def active_voices_default)
  ultimately show ?thesis using assms by (simp add: ledger_calls_def channels_distinct_def)
qed

theorem per_voice_channels_distinct_witness:
  "count (image_mset av_channel (active_voices sample_ledger)) 3 \<le> 1 \<and> 3 \<in># image_mset av_channel (active_voices sample_ledger)"
proof
  have "list_all per_voice_call (sample_calls @ [call_release_storage])"
    by (simp add: sample_calls_def)
  from per_voice_channels_distinct [OF this, of "()" 3]
  show "count (image_mset av_channel (active_voices sample_ledger)) 3 \<le> 1"
    by (simp only: sample_state fst_conv)
  show "3 \<in># image_mset av_channel (active_voices sample_ledger)"
    by (simp add: active_voices_def sample_ledger_def sample_voice_def)
qed

subsection \<open>Holding and blocking\<close>

text \<open>
  C7: A requested recovery holds at least the next delivery, and until then the host gets
  note-offs only: after any calls and a recovery request, a delivery leaves the hold on and
  sends no note-on.
\<close>

theorem recovery_holds_next_delivery:
  "panic_hold (fst (ledger_calls (cs @ [call_recovery, call_deliver frames events p fin lay routing start]) h))
   \<and> only_offs vst3_msgs (snd (ledger_calls cs h))
       (snd (ledger_calls (cs @ [call_recovery, call_deliver frames events p fin lay routing start]) h))"
proof -
  let ?L = "request_recovery (fst (ledger_calls cs h))" and ?s = "snd (ledger_calls cs h)"
  have wf: "ledger_wf ?L" "in_sync vst3_msgs ?L ?s"
    using ledger_wf_request_recovery(1) [OF reachable_wf(1), of cs h]
      ledger_wf_request_recovery(2) [OF reachable_wf(1), of cs h] reachable_wf(2) [of cs h]
    by (simp_all add: in_sync_def)
  obtain r L' s' where d: "deliver frames (Some (push_vst3_note events)) p fin lay routing start ?L ?s
      = (r, L', s')" by (metis prod_cases3)
  have hold: "panic_hold ?L" "0 < hold_calls_remaining ?L" by (simp_all add: request_recovery_def)
  have "panic_hold L' \<and> only_offs vst3_msgs ?s s'"
    using vst3_sink.deliver_hold_lasts(1,2) [OF wf hold(1) d] hold(2) by simp
  moreover have "ledger_calls (cs @ [call_recovery, call_deliver frames events p fin lay routing start]) h = (L', s')"
    using d by (cases "ledger_calls cs h") (simp add: ledger_calls_def)
  ultimately show ?thesis by simp
qed


definition hold_calls :: "unit ledger_call list" where
  "hold_calls =
     [call_activate_preserving True 64, call_recovery, call_deliver 64 accepting 0 True True routing_single 1]"




end
