(* ===== verification/Byte_Codec.thy ===== *)
theory Byte_Codec
  imports Types_Model
begin

unbundle bit_operations_syntax

text \<open>
  The little-endian byte helpers and the CRC-32 that \<open>src/state_image.cpp\<close> and
  \<open>src/calibration_state_image.cpp\<close> each define alike: storing a word at an offset of a
  buffer, reading it back, and the reflected CRC-32 with polynomial \<open>0xEDB88320\<close>.
\<close>

subsection \<open>Definitions\<close>

text \<open>Byte \<open>i\<close> of a word: \<open>static_cast<std::uint8_t>(value >> (i * 8))\<close>.\<close>

definition byte_of :: "'a::len word \<Rightarrow> nat \<Rightarrow> u8" where
  "byte_of v i = ucast (drop_bit (8 * i) v)"

text \<open>Consecutive stores from an offset.\<close>

fun store :: "u8 list \<Rightarrow> nat \<Rightarrow> u8 list \<Rightarrow> u8 list" where
  "store out pos [] = out"
| "store out pos (b # bs) = store (out[pos := b]) (pos + 1) bs"

definition put_u16 :: "u8 list \<Rightarrow> nat \<Rightarrow> u16 \<Rightarrow> u8 list" where
  "put_u16 out pos v = store out pos [byte_of v 0, byte_of v 1]"

definition put_u32 :: "u8 list \<Rightarrow> nat \<Rightarrow> u32 \<Rightarrow> u8 list" where
  "put_u32 out pos v = store out pos [byte_of v 0, byte_of v 1, byte_of v 2, byte_of v 3]"

definition put_u64 :: "u8 list \<Rightarrow> nat \<Rightarrow> u64 \<Rightarrow> u8 list" where
  "put_u64 out pos v = store out pos
     [byte_of v 0, byte_of v 1, byte_of v 2, byte_of v 3,
      byte_of v 4, byte_of v 5, byte_of v 6, byte_of v 7]"

text \<open>The \<open>|=\<close> loop of the readers, over the bytes from an offset.\<close>

fun get_bytes :: "u8 list \<Rightarrow> nat \<Rightarrow> nat list \<Rightarrow> 'a::len word \<Rightarrow> 'a word" where
  "get_bytes input pos [] v = v"
| "get_bytes input pos (i # is) v =
     get_bytes input pos is (v OR push_bit (8 * i) (ucast (input ! (pos + i))))"

definition get_u16 :: "u8 list \<Rightarrow> nat \<Rightarrow> u16" where
  "get_u16 input pos = ucast (input ! pos) OR push_bit 8 (ucast (input ! (pos + 1)))"

definition get_u32 :: "u8 list \<Rightarrow> nat \<Rightarrow> u32" where
  "get_u32 input pos = get_bytes input pos [0, 1, 2, 3] 0"

definition get_u64 :: "u8 list \<Rightarrow> nat \<Rightarrow> u64" where
  "get_u64 input pos = get_bytes input pos [0, 1, 2, 3, 4, 5, 6, 7] 0"

definition crc_bit :: "u32 \<Rightarrow> u32" where
  "crc_bit crc = drop_bit 1 crc XOR (0xEDB88320 AND (0 - (crc AND 1)))"

definition crc_byte :: "u8 \<Rightarrow> u32 \<Rightarrow> u32" where
  "crc_byte b crc = (crc_bit ^^ 8) (crc XOR ucast b)"

definition crc32 :: "u8 list \<Rightarrow> u32" where
  "crc32 data = fold crc_byte data 0xFFFFFFFF XOR 0xFFFFFFFF"

subsection \<open>Stores\<close>

lemma store_length [simp]: "length (store out pos bs) = length out"
  by (induction out pos bs rule: store.induct) simp_all

lemma store_nth:
  "pos + length bs \<le> length out \<Longrightarrow>
     store out pos bs ! i = (if pos \<le> i \<and> i < pos + length bs then bs ! (i - pos) else out ! i)"
proof (induction out pos bs rule: store.induct)
  case (1 out pos)
  then show ?case by auto
next
  case (2 out pos b bs)
  then have "store (out[pos := b]) (pos + 1) bs ! i
      = (if pos + 1 \<le> i \<and> i < pos + 1 + length bs then bs ! (i - (pos + 1)) else out[pos := b] ! i)"
    by simp
  then show ?case
    using "2.prems" by (cases "i = pos") (auto simp: nth_Cons' nth_list_update)
qed

lemma store_take_drop:
  "pos + length bs \<le> length out \<Longrightarrow> store out pos bs = take pos out @ bs @ drop (pos + length bs) out"
  by (intro nth_equalityI) (auto simp: store_nth nth_append)

subsection \<open>The contract of a little-endian codec\<close>

text \<open>
  A word is stored as \<open>width\<close> bytes; the reader looks at those bytes only and gives the
  word back.
\<close>

locale word_codec =
  fixes bytes :: "'a::len word \<Rightarrow> u8 list"
    and get :: "u8 list \<Rightarrow> nat \<Rightarrow> 'a word"
    and width :: nat
  assumes bytes_length: "length (bytes v) = width"
    and get_bytes: "(\<And>i. i < width \<Longrightarrow> input ! (pos + i) = bytes v ! i) \<Longrightarrow> get input pos = v"
    and get_cong: "(\<And>i. i < width \<Longrightarrow> input ! (pos + i) = input' ! (pos + i)) \<Longrightarrow> get input pos = get input' pos"
begin

lemma get_store_same:
  "pos + width \<le> length out \<Longrightarrow> get (store out pos (bytes v)) pos = v"
  by (rule get_bytes) (simp add: store_nth bytes_length)

lemma get_store_other:
  assumes "pos + length bs \<le> length out" "pos' + width \<le> pos \<or> pos + length bs \<le> pos'"
  shows "get (store out pos bs) pos' = get out pos'"
  by (rule get_cong) (use assms in \<open>auto simp: store_nth\<close>)

lemma get_append:
  "pos + width \<le> length xs \<Longrightarrow> get (xs @ ys) pos = get xs pos"
  by (rule get_cong) (simp add: nth_append)

end

lemma bit_byte_of: "bit (byte_of v i) n \<longleftrightarrow> n < 8 \<and> bit v (8 * i + n)" for v :: "'a::len word"
  by (auto simp: byte_of_def bit_ucast_iff bit_drop_bit_eq dest: bit_imp_le_length)

lemma bit_word_bound: "bit (v :: 'a::len word) n \<Longrightarrow> n < LENGTH('a)"
  by (rule bit_imp_le_length)

lemmas byte_bits = bit_or_iff bit_push_bit_iff bit_ucast_iff bit_byte_of

lemma join_16:
  fixes v :: u16
  shows "ucast (byte_of v 0) OR push_bit 8 (ucast (byte_of v 1)) = v"
proof (rule bit_word_eqI)
  fix n assume "n < LENGTH(16)"
  then have "n < 8 \<or> 8 \<le> n \<and> n - 8 < 8 \<and> 8 + (n - 8) = n" "n < 16" by auto
  then show "bit (ucast (byte_of v 0) OR push_bit 8 (ucast (byte_of v 1)) :: u16) n = bit v n"
    by (auto simp: byte_bits)
qed

lemma bit_get_bytes:
  fixes v :: "'a::len word"
  shows "bit (get_bytes input pos is v) n \<longleftrightarrow>
     bit v n \<or> n < LENGTH('a) \<and> (\<exists>i \<in> set is. 8 * i \<le> n \<and> bit (input ! (pos + i)) (n - 8 * i))"
proof (induction "is" arbitrary: v)
  case Nil
  then show ?case by simp
next
  case (Cons i "is")
  have "bit (ucast (input ! (pos + i)) :: 'a word) (n - 8 * i) \<longleftrightarrow> n - 8 * i < LENGTH('a) \<and> bit (input ! (pos + i)) (n - 8 * i)"
    by (simp add: bit_ucast_iff)
  then show ?case by (auto simp: Cons bit_or_iff bit_push_bit_iff)
qed

lemma get_bytes_join:
  fixes v :: "'a::len word"
  assumes b: "\<And>i. i < k \<Longrightarrow> input ! (pos + i) = byte_of v i" and k: "set is = {..<k}" "LENGTH('a) = 8 * k"
  shows "get_bytes input pos is 0 = v"
proof (rule bit_word_eqI)
  fix n assume n: "n < LENGTH('a)"
  have "(\<exists>i < k. 8 * i \<le> n \<and> n - 8 * i < 8 \<and> bit v n) \<longleftrightarrow> bit v n"
  proof
    assume "bit v n"
    then have "n div 8 < k \<and> 8 * (n div 8) \<le> n \<and> n - 8 * (n div 8) < 8 \<and> bit v n"
      using n k(2) by auto
    then show "\<exists>i < k. 8 * i \<le> n \<and> n - 8 * i < 8 \<and> bit v n" by blast
  qed blast
  moreover have "8 * i \<le> n \<and> bit (input ! (pos + i)) (n - 8 * i) \<longleftrightarrow> 8 * i \<le> n \<and> n - 8 * i < 8 \<and> bit v n"
    if "i < k" for i
    using b [OF that] by (auto simp: bit_byte_of)
  ultimately show "bit (get_bytes input pos is 0 :: 'a word) n = bit v n"
    using n by (auto simp: bit_get_bytes k(1))
qed

definition bytes_16 :: "u16 \<Rightarrow> u8 list" where "bytes_16 v = [byte_of v 0, byte_of v 1]"

definition bytes_32 :: "u32 \<Rightarrow> u8 list" where
  "bytes_32 v = [byte_of v 0, byte_of v 1, byte_of v 2, byte_of v 3]"

definition bytes_64 :: "u64 \<Rightarrow> u8 list" where
  "bytes_64 v = [byte_of v 0, byte_of v 1, byte_of v 2, byte_of v 3,
                 byte_of v 4, byte_of v 5, byte_of v 6, byte_of v 7]"

lemma put_as_store:
  "put_u16 out pos v = store out pos (bytes_16 v)"
  "put_u32 out pos w = store out pos (bytes_32 w)"
  "put_u64 out pos x = store out pos (bytes_64 x)"
  by (simp_all only: put_u16_def put_u32_def put_u64_def bytes_16_def bytes_32_def bytes_64_def)

lemma upt_list: "[0..<4] = [0, 1, 2, 3]" "[0..<8] = [0, 1, 2, 3, 4, 5, 6, 7]"
  by code_simp+

lemma bytes_upt: "bytes_32 v = map (byte_of v) [0..<4]" "bytes_64 w = map (byte_of w) [0..<8]"
  by (simp_all only: upt_list bytes_32_def bytes_64_def list.map)

lemma set_upt_list: "set [0, 1, 2, 3 :: nat] = {..<4}" "set [0, 1, 2, 3, 4, 5, 6, 7 :: nat] = {..<8}"
  unfolding upt_list [symmetric] by auto

interpretation codec_16: word_codec bytes_16 get_u16 2
proof unfold_locales
  show "get_u16 input pos = v" if "\<And>i. i < 2 \<Longrightarrow> input ! (pos + i) = bytes_16 v ! i" for input pos v
    using that [of 0] that [of 1] by (simp add: get_u16_def bytes_16_def join_16 [simplified])
  show "get_u16 input pos = get_u16 input' pos"
    if "\<And>i. i < 2 \<Longrightarrow> input ! (pos + i) = input' ! (pos + i)" for input input' pos
    using that [of 0] that [of 1] by (simp add: get_u16_def)
qed (simp add: bytes_16_def)

interpretation codec_32: word_codec bytes_32 get_u32 4
proof unfold_locales
  show "get_u32 input pos = v" if "\<And>i. i < 4 \<Longrightarrow> input ! (pos + i) = bytes_32 v ! i" for input pos v
    unfolding get_u32_def
    by (rule get_bytes_join [OF _ set_upt_list(1)]) (use that in \<open>simp_all add: bytes_upt\<close>)
  show "get_u32 input pos = get_u32 input' pos"
    if "\<And>i. i < 4 \<Longrightarrow> input ! (pos + i) = input' ! (pos + i)" for input input' pos
    using that [of 0] that [of 1] that [of 2] that [of 3] by (simp add: get_u32_def)
qed (simp add: bytes_32_def)

interpretation codec_64: word_codec bytes_64 get_u64 8
proof unfold_locales
  show "get_u64 input pos = v" if "\<And>i. i < 8 \<Longrightarrow> input ! (pos + i) = bytes_64 v ! i" for input pos v
    unfolding get_u64_def
    by (rule get_bytes_join [OF _ set_upt_list(2)]) (use that in \<open>simp_all add: bytes_upt\<close>)
  show "get_u64 input pos = get_u64 input' pos"
    if "\<And>i. i < 8 \<Longrightarrow> input ! (pos + i) = input' ! (pos + i)" for input input' pos
    using that [of 0] that [of 1] that [of 2] that [of 3] that [of 4] that [of 5] that [of 6] that [of 7]
    by (simp add: get_u64_def)
qed (simp add: bytes_64_def)

subsection \<open>The CRC detects a corrupted byte\<close>

text \<open>One CRC step can be undone: the polynomial has its top bit set, so the bit shifted out shows there.\<close>

definition crc_unbit :: "u32 \<Rightarrow> u32" where
  "crc_unbit c = (if bit c 31 then push_bit 1 (c XOR 0xEDB88320) OR 1 else push_bit 1 c)"

lemma crc_bit_cases:
  "crc_bit c = (if bit c 0 then drop_bit 1 c XOR 0xEDB88320 else drop_bit 1 c)"
proof (cases "bit c 0")
  case True
  then have "c AND 1 = 1" by (simp add: and_one_eq bit_0 mod_2_eq_odd)
  then show ?thesis using True by (simp add: crc_bit_def)
next
  case False
  then have "c AND 1 = 0" by (simp add: and_one_eq bit_0 mod_2_eq_odd)
  then show ?thesis using False by (simp add: crc_bit_def)
qed

lemma crc_unbit_bit: "crc_unbit (crc_bit c) = c"
proof -
  have top: "\<not> bit (drop_bit 1 c) 31"
    by (simp add: bit_drop_bit_eq) (use bit_imp_le_length [of c 32] in auto)
  have poly: "bit (0xEDB88320 :: u32) 31" by code_simp
  show ?thesis
  proof (cases "bit c 0")
    case True
    have "push_bit 1 (drop_bit 1 c) OR 1 = c"
    proof (rule bit_word_eqI)
      show "bit (push_bit 1 (drop_bit 1 c) OR 1) n = bit c n" if "n < LENGTH(32)" for n
        unfolding bit_or_iff bit_push_bit_iff bit_drop_bit_eq bit_1_iff
        using True that by (cases n) auto
    qed
    moreover have "(drop_bit 1 c XOR 0xEDB88320) XOR 0xEDB88320 = drop_bit 1 c"
      by (simp add: xor.assoc)
    moreover have "bit (drop_bit 1 c XOR 0xEDB88320) 31" using top poly by (simp add: bit_xor_iff)
    ultimately show ?thesis using True by (simp add: crc_bit_cases crc_unbit_def)
  next
    case False
    have "push_bit 1 (drop_bit 1 c) = c"
    proof (rule bit_word_eqI)
      show "bit (push_bit 1 (drop_bit 1 c)) n = bit c n" if "n < LENGTH(32)" for n
        unfolding bit_push_bit_iff bit_drop_bit_eq using False that by (cases n) auto
    qed
    then show ?thesis using top False by (simp add: crc_bit_cases crc_unbit_def)
  qed
qed

lemma crc_bit_inject: "crc_bit a = crc_bit b \<longleftrightarrow> a = b"
  by (metis crc_unbit_bit)

lemma crc_bits_inject: "(crc_bit ^^ n) a = (crc_bit ^^ n) b \<longleftrightarrow> a = b"
  by (induction n) (simp_all add: crc_bit_inject)

lemma ucast_u8_inject: "(ucast a :: u32) = ucast b \<longleftrightarrow> a = b" for a b :: u8
proof
  assume eq: "(ucast a :: u32) = ucast b"
  show "a = b"
  proof (rule bit_word_eqI)
    fix n assume "n < LENGTH(8)"
    moreover have "bit (ucast a :: u32) n = bit (ucast b :: u32) n" by (simp only: eq)
    ultimately show "bit a n = bit b n" by (simp add: bit_ucast_iff)
  qed
qed simp

lemma crc_byte_inject: "crc_byte x a = crc_byte y b \<longleftrightarrow> a XOR ucast x = b XOR ucast y"
  by (simp add: crc_byte_def crc_bits_inject)

lemma xor_left_cancel: "a XOR b = a XOR c \<longleftrightarrow> b = c" for a b c :: "'a::len word"
  by (metis xor.assoc xor_self_eq xor.left_neutral)

lemma xor_right_cancel: "b XOR a = c XOR a \<longleftrightarrow> b = c" for a b c :: "'a::len word"
  by (simp add: xor.commute [of _ a] xor_left_cancel)

lemma crc_fold_inject: "fold crc_byte xs a = fold crc_byte xs b \<longleftrightarrow> a = b"
  by (induction xs arbitrary: a b) (auto simp: crc_byte_inject xor_right_cancel)

lemma crc32_one_byte:
  assumes "i < length data" "data ! i \<noteq> b"
  shows "crc32 (data[i := b]) \<noteq> crc32 data"
proof -
  let ?pre = "take i data" and ?post = "drop (Suc i) data"
  have d: "data = ?pre @ data ! i # ?post" using assms(1) by (simp add: id_take_nth_drop)
  have u: "data[i := b] = ?pre @ b # ?post" using assms(1) by (simp add: upd_conv_take_nth_drop)
  let ?c = "fold crc_byte ?pre 0xFFFFFFFF"
  have "crc_byte b ?c \<noteq> crc_byte (data ! i) ?c"
    using assms(2) by (simp add: crc_byte_inject xor_left_cancel ucast_u8_inject)
  then have "fold crc_byte ?post (crc_byte b ?c) \<noteq> fold crc_byte ?post (crc_byte (data ! i) ?c)"
    by (simp add: crc_fold_inject)
  moreover have "fold crc_byte (data[i := b]) 0xFFFFFFFF = fold crc_byte ?post (crc_byte b ?c)"
    by (simp add: u)
  moreover have "fold crc_byte data 0xFFFFFFFF = fold crc_byte ?post (crc_byte (data ! i) ?c)"
    by (subst d) simp
  ultimately show ?thesis
    unfolding crc32_def by (simp add: xor_right_cancel)
qed

end
