(* ===== verification/Parameter_Contract.thy ===== *)
theory Parameter_Contract
  imports Types_Model
begin

text \<open>
  The parameter contract (\<open>src/native/src/parameter_contract.cpp\<close>): the table of the sixteen
  parameters, the canonical plain value of a parameter, its normalised form, reading and
  applying a parameter on a configuration, and last the text of parameters.
\<close>

type_synonym ParameterId = u32

definition kPanicParameterId :: ParameterId where "kPanicParameterId = 0x4D33000E"
definition kStatusParameterId :: ParameterId where "kStatusParameterId = 0x4D33FF01"
definition kPersistentParameterCount :: nat where "kPersistentParameterCount = 14"

datatype ParameterUpdateClass = structural | runtime | action | telemetry

datatype ParameterApplyResult = apply_rejected | apply_unchanged | apply_changed | apply_panic

record ParameterSpec =
  ps_id :: ParameterId
  ps_name :: "string option"
  ps_minimum :: f64
  ps_maximum :: f64
  ps_increment :: f64
  ps_default_value :: f64
  ps_step_count :: int
  ps_update_class :: ParameterUpdateClass
  ps_persistent :: bool
  ps_list :: bool
  ps_read_only :: bool

text \<open>A row of the table whose limits are integers, and the rows in steps of a tenth.\<close>

definition int_spec ::
  "ParameterId \<Rightarrow> string \<Rightarrow> int \<Rightarrow> int \<Rightarrow> int \<Rightarrow> ParameterUpdateClass \<Rightarrow> bool \<Rightarrow> bool \<Rightarrow> bool
     \<Rightarrow> ParameterSpec" where
  "int_spec pid name lo hi dflt cls persistent list read_only =
     \<lparr>ps_id = pid, ps_name = Some name, ps_minimum = f64_of_int lo, ps_maximum = f64_of_int hi,
      ps_increment = 1, ps_default_value = f64_of_int dflt, ps_step_count = hi - lo,
      ps_update_class = cls, ps_persistent = persistent, ps_list = list,
      ps_read_only = read_only\<rparr>"

definition a4_spec :: ParameterSpec where
  "a4_spec =
     \<lparr>ps_id = 0x4D330003, ps_name = Some ''A4 reference'', ps_minimum = f64_of_int 400,
      ps_maximum = f64_of_int 480, ps_increment = f64_rat 1 10, ps_default_value = f64_of_int 440,
      ps_step_count = 800, ps_update_class = structural, ps_persistent = True, ps_list = False,
      ps_read_only = False\<rparr>"

definition trim_spec :: ParameterSpec where
  "trim_spec =
     \<lparr>ps_id = 0x4D330004, ps_name = Some ''Input trim'', ps_minimum = f64_of_int (-24),
      ps_maximum = f64_of_int 24, ps_increment = f64_rat 1 10, ps_default_value = f64_of_int 0,
      ps_step_count = 480, ps_update_class = runtime, ps_persistent = True, ps_list = False,
      ps_read_only = False\<rparr>"

definition kParameters :: "ParameterSpec list" where
  "kParameters =
     [int_spec 0x4D330001 ''MIDI routing'' 0 1 0 structural True True False,
      int_spec 0x4D330002 ''Mode'' 0 1 0 structural True True False,
      a4_spec,
      trim_spec,
      int_spec 0x4D330005 ''Sensitivity'' 0 100 50 runtime True False False,
      int_spec 0x4D330006 ''Response'' 0 100 25 runtime True False False,
      int_spec 0x4D330007 ''Lowest MIDI note'' 24 108 32 structural True False False,
      int_spec 0x4D330008 ''Highest MIDI note'' 24 108 84 structural True False False,
      int_spec 0x4D330009 ''Maximum polyphony'' 1 8 8 structural True False False,
      int_spec 0x4D33000A ''M3 maximum fret'' 0 36 24 structural True False False,
      int_spec 0x4D33000B ''Velocity mode'' 0 1 1 runtime True True False,
      int_spec 0x4D33000C ''Fixed velocity'' 1 127 100 runtime True False False,
      int_spec 0x4D33000D ''MIDI channel'' 1 16 1 structural True False False,
      int_spec kPanicParameterId ''Panic'' 0 1 0 action False True False,
      int_spec 0x4D33000F ''Dry audio'' 0 1 1 runtime True True False,
      int_spec kStatusParameterId ''Status'' 0 5 0 telemetry False True True]"

definition persistent_parameter_ids :: "ParameterId list" where
  "persistent_parameter_ids =
     [0x4D330001, 0x4D330002, 0x4D330003, 0x4D330004, 0x4D330005, 0x4D330006, 0x4D330007,
      0x4D330008, 0x4D330009, 0x4D33000A, 0x4D33000B, 0x4D33000C, 0x4D33000D, 0x4D33000F]"

definition valid_spec :: "ParameterSpec \<Rightarrow> bool" where
  "valid_spec spec \<longleftrightarrow>
     ps_name spec \<noteq> None \<and> is_finite (ps_minimum spec) \<and> is_finite (ps_maximum spec)
     \<and> is_finite (ps_increment spec) \<and> ps_minimum spec < ps_maximum spec
     \<and> 0 < ps_increment spec \<and> 0 < ps_step_count spec"

definition parameter_count :: nat where "parameter_count = length kParameters"

definition parameter_spec :: "nat \<Rightarrow> ParameterSpec option" where
  "parameter_spec index = (if index < length kParameters then Some (kParameters ! index) else None)"

definition find_parameter :: "ParameterId \<Rightarrow> ParameterSpec option" where
  "find_parameter pid = find (\<lambda>spec. ps_id spec = pid) kParameters"

subsection \<open>Plain and normalised values\<close>

definition canonical_plain :: "ParameterSpec \<Rightarrow> f64 \<Rightarrow> f64" where
  "canonical_plain spec value =
     (if \<not> valid_spec spec \<or> \<not> is_finite value then f64_nan
      else let bounded = std_max (ps_minimum spec) (std_min value (ps_maximum spec));
               steps = std_round ((bounded - ps_minimum spec) div ps_increment spec);
               rounded = ps_minimum spec + steps * ps_increment spec
           in std_max (ps_minimum spec) (std_min rounded (ps_maximum spec)))"

definition plain_to_normalized :: "ParameterSpec \<Rightarrow> f64 \<Rightarrow> f64" where
  "plain_to_normalized spec value =
     (let plain = canonical_plain spec value
      in if \<not> is_finite plain then f64_nan
         else let normalized = (plain - ps_minimum spec) div (ps_maximum spec - ps_minimum spec)
              in std_max 0 (std_min normalized 1))"

definition normalized_to_plain :: "ParameterSpec \<Rightarrow> f64 \<Rightarrow> f64" where
  "normalized_to_plain spec value =
     (if \<not> valid_spec spec \<or> \<not> is_finite value then f64_nan
      else let normalized = std_max 0 (std_min value 1)
           in canonical_plain spec
                (ps_minimum spec + normalized * (ps_maximum spec - ps_minimum spec)))"

subsection \<open>Reading and applying\<close>

abbreviation f64_of_u8 :: "u8 \<Rightarrow> f64" where "f64_of_u8 b \<equiv> f64_of_int (uint b)"

definition parameter_value :: "PersistentConfig \<Rightarrow> Status \<Rightarrow> ParameterId \<Rightarrow> f64 option" where
  "parameter_value config status pid =
     (if pid = 0x4D330001 then Some (f64_of_u8 (MidiRouting_to_u8 (midi_routing config)))
      else if pid = 0x4D330002 then Some (f64_of_u8 (ProfileMode_to_u8 (profile_mode config)))
      else if pid = 0x4D330003 then Some (a4_hz config)
      else if pid = 0x4D330004 then Some (input_trim_db config)
      else if pid = 0x4D330005 then Some (f64_of_u8 (sensitivity config))
      else if pid = 0x4D330006 then Some (f64_of_u8 (response config))
      else if pid = 0x4D330007 then Some (f64_of_u8 (lowest_note config))
      else if pid = 0x4D330008 then Some (f64_of_u8 (highest_note config))
      else if pid = 0x4D330009 then Some (f64_of_u8 (max_polyphony config))
      else if pid = 0x4D33000A then Some (f64_of_u8 (max_fret config))
      else if pid = 0x4D33000B then Some (f64_of_u8 (VelocityMode_to_u8 (velocity_mode config)))
      else if pid = 0x4D33000C then Some (f64_of_u8 (fixed_velocity config))
      else if pid = 0x4D33000D then Some (f64_of_u8 (midi_channel config))
      else if pid = kPanicParameterId then Some 0
      else if pid = 0x4D33000F then Some (if dry_passthrough config then 1 else 0)
      else if pid = kStatusParameterId then Some (f64_of_u8 (Status_to_u8 status))
      else None)"

text \<open>\<open>static_cast<std::uint8_t>\<close> of a double: truncation.\<close>

definition u8_of_f64 :: "f64 \<Rightarrow> u8" where "u8_of_f64 x = word_of_int (f64_trunc x)"

text \<open>The assignment of the \<open>switch\<close>; \<open>None\<close> is its \<open>default\<close>.\<close>

definition assign_parameter :: "PersistentConfig \<Rightarrow> ParameterId \<Rightarrow> f64 \<Rightarrow> PersistentConfig option" where
  "assign_parameter config pid value =
     (if pid = 0x4D330001 then Some (config\<lparr>midi_routing := MidiRouting_of_u8 (u8_of_f64 value)\<rparr>)
      else if pid = 0x4D330002 then Some (config\<lparr>profile_mode := ProfileMode_of_u8 (u8_of_f64 value)\<rparr>)
      else if pid = 0x4D330003 then Some (config\<lparr>a4_hz := value\<rparr>)
      else if pid = 0x4D330004 then Some (config\<lparr>input_trim_db := value\<rparr>)
      else if pid = 0x4D330005 then Some (config\<lparr>sensitivity := u8_of_f64 value\<rparr>)
      else if pid = 0x4D330006 then Some (config\<lparr>response := u8_of_f64 value\<rparr>)
      else if pid = 0x4D330007 then Some (config\<lparr>lowest_note := u8_of_f64 value\<rparr>)
      else if pid = 0x4D330008 then Some (config\<lparr>highest_note := u8_of_f64 value\<rparr>)
      else if pid = 0x4D330009 then Some (config\<lparr>max_polyphony := u8_of_f64 value\<rparr>)
      else if pid = 0x4D33000A then Some (config\<lparr>max_fret := u8_of_f64 value\<rparr>)
      else if pid = 0x4D33000B then Some (config\<lparr>velocity_mode := VelocityMode_of_u8 (u8_of_f64 value)\<rparr>)
      else if pid = 0x4D33000C then Some (config\<lparr>fixed_velocity := u8_of_f64 value\<rparr>)
      else if pid = 0x4D33000D then Some (config\<lparr>midi_channel := u8_of_f64 value\<rparr>)
      else if pid = 0x4D33000F then Some (config\<lparr>dry_passthrough := (1 \<le> value)\<rparr>)
      else None)"

definition apply_parameter ::
  "PersistentConfig \<Rightarrow> ParameterId \<Rightarrow> f64 \<Rightarrow> ParameterApplyResult \<times> PersistentConfig" where
  "apply_parameter config pid plain_value =
     (case find_parameter pid of
        None \<Rightarrow> (apply_rejected, config)
      | Some spec \<Rightarrow>
          if ps_read_only spec \<or> \<not> is_finite plain_value then (apply_rejected, config)
          else let value = canonical_plain spec plain_value
               in if \<not> is_finite value then (apply_rejected, config)
                  else if pid = kPanicParameterId
                  then (if 1 \<le> value then apply_panic else apply_unchanged, config)
                  else let previous = (case parameter_value config status_ready pid of
                                         None \<Rightarrow> 0 | Some v \<Rightarrow> v)
                       in case assign_parameter config pid value of
                            None \<Rightarrow> (apply_rejected, config)
                          | Some config' \<Rightarrow>
                              (if f64_eq previous value then apply_unchanged else apply_changed, config'))"

text \<open>
  The text of parameters (\<open>src/native/src/parameter_contract.cpp\<close>: \<open>copy_text\<close> to \<open>enum_label\<close>,
  \<open>parameter_value_to_text\<close> and \<open>parameter_text_to_value\<close>). A caller's buffer is its capacity, none for a
  null pointer; an operation returns whether it succeeded and the C string it left in the buffer, none
  when it wrote nothing. \<open>std::strtod\<close> is the argument \<open>strtod\<close>: the value and how many characters it used.
\<close>

type_synonym text_result = "bool \<times> string option"

definition text_failed :: text_result where "text_failed = (False, None)"

definition copy_text :: "string option \<Rightarrow> nat option \<Rightarrow> text_result" where
  "copy_text source out =
     (case (source, out) of
        (Some s, Some capacity) \<Rightarrow> if capacity = 0 \<or> capacity < length s + 1 then text_failed else (True, Some s)
      | _ \<Rightarrow> text_failed)"

definition digit_char :: "nat \<Rightarrow> char" where "digit_char d = char_of (48 + d)"

text \<open>The \<open>do\<close> loop, last digit first, into ten characters at most.\<close>

fun reversed_digits :: "nat \<Rightarrow> nat \<Rightarrow> string" where
  "reversed_digits 0 v = []"
| "reversed_digits (Suc room) v =
     digit_char (v mod 10) # (if 0 < v div 10 then reversed_digits room (v div 10) else [])"

definition append_unsigned :: "u32 \<Rightarrow> nat \<Rightarrow> string \<Rightarrow> string option" where
  "append_unsigned value capacity text =
     (let reversed = reversed_digits 10 (unat value)
      in if capacity \<le> length text + length reversed then None else Some (text @ rev reversed))"

definition number_scale :: "bool \<Rightarrow> f64" where
  "number_scale one_decimal = (if one_decimal then f64_of_int 10 else 1)"

definition format_parameter_number :: "f64 \<Rightarrow> bool \<Rightarrow> nat option \<Rightarrow> text_result" where
  "format_parameter_number value one_decimal out =
     (if out = None \<or> out = Some 0 \<or> \<not> is_finite value then text_failed
      else let signed_scaled = f64_lround (value * number_scale one_decimal);
               negative = signed_scaled < 0;
               magnitude = word_of_int \<bar>signed_scaled\<bar> :: u32;
               whole = (if one_decimal then magnitude div 10 else magnitude)
           in case append_unsigned whole 32 (if negative then ''-'' else []) of
                None \<Rightarrow> text_failed
              | Some text \<Rightarrow>
                  if one_decimal \<and> 32 \<le> length text + 2 then text_failed
                  else copy_text
                    (Some (if one_decimal then text @ [CHR ''.'', digit_char (unat (magnitude mod 10))] else text))
                    out)"

definition label_at :: "string list \<Rightarrow> nat \<Rightarrow> string option" where
  "label_at labels index = (if index < length labels then Some (labels ! index) else None)"

definition kMidiRoutingLabels :: "string list" where "kMidiRoutingLabels = [''Single'', ''Per Voice'']"
definition kModeLabels :: "string list" where "kModeLabels = [''M3 Eight-String'', ''General Tonal'']"
definition kVelocityLabels :: "string list" where "kVelocityLabels = [''Fixed'', ''Dynamic'']"
definition kPanicLabels :: "string list" where "kPanicLabels = [''Ready'', ''Panic'']"
definition kDryLabels :: "string list" where "kDryLabels = [''Muted'', ''Pass through'']"
definition kStatusLabels :: "string list" where
  "kStatusLabels = [''Ready'', ''Panic Hold'', ''Reconfiguring'', ''MIDI Output Blocked'',
     ''Invalid Input or State'', ''Unsupported Layout'']"

definition enum_label :: "ParameterId \<Rightarrow> nat \<Rightarrow> string option" where
  "enum_label pid index =
     (if pid = 0x4D330001 then label_at kMidiRoutingLabels index
      else if pid = 0x4D330002 then label_at kModeLabels index
      else if pid = 0x4D33000B then label_at kVelocityLabels index
      else if pid = kPanicParameterId then label_at kPanicLabels index
      else if pid = 0x4D33000F then label_at kDryLabels index
      else if pid = kStatusParameterId then label_at kStatusLabels index
      else None)"

text \<open>
  \<open>static_cast<std::size_t>\<close> of a double is only defined for a value above -1; no parameter with labels
  has a negative value, so 0 stands for the others.
\<close>

definition parameter_value_to_text :: "ParameterId \<Rightarrow> f64 \<Rightarrow> nat option \<Rightarrow> text_result" where
  "parameter_value_to_text pid value out =
     (case find_parameter pid of
        None \<Rightarrow> text_failed
      | Some spec \<Rightarrow>
          if \<not> is_finite value \<or> out = None \<or> out = Some 0 then text_failed
          else let value = canonical_plain spec value
               in if \<not> is_finite value then text_failed
                  else case enum_label pid (nat (f64_trunc value)) of
                         Some label \<Rightarrow> copy_text (Some label) out
                       | None \<Rightarrow>
                           format_parameter_number value (pid = 0x4D330003 \<or> pid = 0x4D330004) out)"

definition step_value :: "ParameterSpec \<Rightarrow> nat \<Rightarrow> f64" where
  "step_value spec step = ps_minimum spec + ps_increment spec * f64_of_int (int step)"

definition matching_step :: "ParameterId \<Rightarrow> ParameterSpec \<Rightarrow> string \<Rightarrow> nat option" where
  "matching_step pid spec text =
     find (\<lambda>step. enum_label pid step = Some text) [0..<nat (ps_step_count spec + 1)]"

definition parameter_text_to_value ::
  "(string \<Rightarrow> f64 \<times> nat) \<Rightarrow> ParameterId \<Rightarrow> string option \<Rightarrow> f64 option" where
  "parameter_text_to_value strtod pid text =
     (case (find_parameter pid, text) of
        (Some spec, Some t) \<Rightarrow>
          if ps_read_only spec then None
          else (case matching_step pid spec t of
             Some step \<Rightarrow> Some (step_value spec step)
           | None \<Rightarrow>
               let (parsed, used) = strtod t
               in if used = 0 \<or> used \<noteq> length t \<or> \<not> is_finite parsed then None
                  else let value = canonical_plain spec parsed
                       in if is_finite value then Some value else None)
      | _ \<Rightarrow> None)"

end
