(* ===== verification/Float64_Mono.thy ===== *)
theory Float64_Mono
  imports Float64_Laws
begin

text \<open>
  Addition and subtraction of doubles are monotone. The exact value of a finite double is an
  integer multiple of the least subnormal; a sum is that of the exact values, rounded once,
  and rounding keeps the order.
\<close>

definition exact :: "f64 \<Rightarrow> int" where
  "exact x = (if f64_neg x then - f64_scaled x else f64_scaled x)"

text \<open>The key of the rounded value of an integer multiple of the least subnormal.\<close>

definition round_key :: "int \<Rightarrow> int" where
  "round_key n = (if n = 0 then 0
     else (if n < 0 then - min inf_mag (round_mag (- n) (- 1074))
           else min inf_mag (round_mag n (- 1074))))"

lemma round_key_mono: "m \<le> n \<Longrightarrow> round_key m \<le> round_key n"
proof -
  assume le: "m \<le> n"
  have p: "0 \<le> round_mag k (- 1074)" if "0 < k" for k using round_mag_nonneg [OF that] .
  consider "0 < m" | "m \<le> 0" "0 \<le> n" | "n < 0" by linarith
  then show ?thesis
  proof cases
    case 1
    then show ?thesis using le round_mag_mono_man [of m n "- 1074"] by (auto simp: round_key_def)
  next
    case 2
    then have "round_key m \<le> 0" "0 \<le> round_key n"
      using p [of "- m"] p [of n] by (simp_all add: round_key_def)
    then show ?thesis by linarith
  next
    case 3
    then show ?thesis using le round_mag_mono_man [of "- n" "- m" "- 1074"] by (auto simp: round_key_def)
  qed
qed

lemma f64_round_key:
  assumes "0 < m"
  shows "f64_key (f64_round s m e) = (if s then - min inf_mag (round_mag m e) else min inf_mag (round_mag m e))"
    and "\<not> is_nan (f64_round s m e)"
  using assms round_mag_nonneg [OF assms, of e]
  by (auto simp: f64_round_def Let_def f64_key_def f64_infinity_def is_nan_def min_def)

lemma exact_sman: "exact x = f64_sman x * 2 ^ nat (f64_exp x + 1074)"
  by (simp add: exact_def f64_sman_def f64_scaled_def subnormal_bits_def)

lemma f64_add_key:
  assumes "is_finite x" "is_finite y"
  shows "f64_key (x + y) = round_key (exact x + exact y)" and "\<not> is_nan (x + y)"
proof -
  define e where "e = min (f64_exp x) (f64_exp y)"
  define n where "n = f64_sman x * 2 ^ nat (f64_exp x - e) + f64_sman y * 2 ^ nat (f64_exp y - e)"
  have e: "-1074 \<le> e" using f64_exp_ge [of x] f64_exp_ge [of y] by (simp add: e_def)
  have split: "nat (f64_exp z + 1074) = nat (f64_exp z - e) + nat (e + 1074)" if "e \<le> f64_exp z" for z
    using that e by simp
  have "e \<le> f64_exp x" "e \<le> f64_exp y" by (simp_all add: e_def)
  then have ex: "exact x + exact y = n * 2 ^ nat (e + 1074)"
    by (simp add: exact_sman split power_add n_def distrib_right mult.assoc)
  have add: "x + y = (if n = 0 then f64_make (f64_neg x \<and> f64_neg y) 0 else f64_round (n < 0) \<bar>n\<bar> e)"
    using assms by (simp add: plus_f64_def f64_add_def Let_def n_def e_def)
  have scale: "round_mag (\<bar>n\<bar> * 2 ^ nat (e + 1074)) (- 1074) = round_mag \<bar>n\<bar> e" if "n \<noteq> 0"
    using round_mag_scale [of "\<bar>n\<bar>" "nat (e + 1074)" e] that e by simp
  have neg: "- (n * 2 ^ k) = \<bar>n\<bar> * 2 ^ k" if "n < 0" for k using that by simp
  have pos: "n * 2 ^ k = \<bar>n\<bar> * 2 ^ k" if "0 < n" for k using that by simp
  show "f64_key (x + y) = round_key (exact x + exact y)"
  proof (cases "n = 0")
    case True
    then show ?thesis using add ex by (simp add: round_key_def f64_key_def)
  next
    case False
    then have k: "f64_key (x + y) = (if n < 0 then - min inf_mag (round_mag \<bar>n\<bar> e) else min inf_mag (round_mag \<bar>n\<bar> e))"
      using add f64_round_key(1) [of "\<bar>n\<bar>" "n < 0" e] by simp
    show ?thesis
    proof (cases "n < 0")
      case neg': True
      then have "n * 2 ^ nat (e + 1074) < 0" by (simp add: mult_neg_pos)
      then show ?thesis unfolding ex round_key_def k neg [OF neg'] using neg' scale by simp
    next
      case pos': False
      then have n: "0 < n" using False by simp
      then have "\<not> n * 2 ^ nat (e + 1074) < 0" by (simp add: not_less)
      then have "round_key (n * 2 ^ nat (e + 1074)) = min inf_mag (round_mag (\<bar>n\<bar> * 2 ^ nat (e + 1074)) (- 1074))"
        using n by (simp add: round_key_def)
      then show ?thesis unfolding ex k using n scale by simp
    qed
  qed
  show "\<not> is_nan (x + y)"
    using add f64_round_key(2) [of "\<bar>n\<bar>" "n < 0" e] by (auto simp: is_nan_def)
qed

lemma exact_mono: "(x::f64) \<le> y \<Longrightarrow> exact x \<le> exact y"
  unfolding exact_def less_eq_f64_def
  by (rule signed_mono [where g = f64_scaled])
    (simp_all add: f64_scaled_mono f64_scaled_nonneg f64_scaled_0)

lemma exact_uminus [simp]: "exact (- x) = - exact x"
proof -
  have "f64_mag (- x) = f64_mag x" "f64_neg (- x) = (\<not> f64_neg x)"
    by (simp_all add: uminus_f64_def f64_negate_def)
  then show ?thesis by (simp add: exact_def f64_scaled_def f64_man_def f64_exp_def)
qed

lemma is_finite_uminus [simp]: "is_finite (- x) = is_finite x"
  by (simp add: uminus_f64_def f64_negate_def is_finite_def)

lemma f64_minus_eq: "x - y = x + - (y::f64)"
  by (simp add: minus_f64_def plus_f64_def uminus_f64_def)

theorem f64_add_mono:
  assumes "is_finite x" "is_finite y" "is_finite z" "x \<le> y"
  shows "x + z \<le> y + z"
  using f64_add_key [OF assms(1,3)] f64_add_key [OF assms(2,3)] exact_mono [OF assms(4)]
  by (simp add: less_eq_f64_def round_key_mono)

text \<open>A finite summand never makes a number a NaN, and keeps the order also of infinities.\<close>

lemma f64_add_finite:
  assumes "\<not> is_nan x" "is_finite z"
  shows "\<not> is_nan (x + z)" "x \<le> y \<Longrightarrow> \<not> is_nan y \<Longrightarrow> x + z \<le> y + z"
proof -
  have inf: "v + z = v" if "\<not> is_nan v" "\<not> is_finite v" for v
    using that assms(2) by (auto simp: plus_f64_def f64_add_def is_finite_def is_nan_def is_inf_def)
  have num: "\<not> is_nan (v + z)" if "\<not> is_nan v" for v
    using that inf [of v] f64_add_key(2) [of v z] assms(2) by (cases "is_finite v") auto
  then show "\<not> is_nan (x + z)" using assms(1) .
  assume "x \<le> y" "\<not> is_nan y"
  have bound: "- inf_mag \<le> f64_key v" "f64_key v \<le> inf_mag" if "\<not> is_nan v" for v
    using that f64_mag_bounds(1) [of v] unfolding f64_key_def is_nan_def
    by (cases "f64_neg v"; simp only: if_True if_False; linarith)+
  have key: "\<bar>f64_key v\<bar> = inf_mag" if "\<not> is_nan v" "\<not> is_finite v" for v
    using that by (auto simp: f64_key_def is_finite_def is_nan_def)
  show "x + z \<le> y + z"
  proof (cases "is_finite x \<and> is_finite y")
    case True
    then show ?thesis using f64_add_mono assms(2) \<open>x \<le> y\<close> by blast
  next
    case False
    then consider "\<not> is_finite x" "\<not> is_finite y" | "\<not> is_finite x" "is_finite y" | "is_finite x" "\<not> is_finite y" by blast
    then show ?thesis
    proof cases
      case 1
      then show ?thesis using inf assms(1) \<open>x \<le> y\<close> \<open>\<not> is_nan y\<close> by simp
    next
      case 2
      then have "f64_key x = - inf_mag"
        using key [OF assms(1)] \<open>x \<le> y\<close> by (auto simp: less_eq_f64_def is_finite_key abs_if split: if_splits)
      then show ?thesis using 2 inf [OF assms(1)] num bound assms(1) \<open>\<not> is_nan y\<close> by (simp add: less_eq_f64_def)
    next
      case 3
      then have "f64_key y = inf_mag"
        using key [OF \<open>\<not> is_nan y\<close>] \<open>x \<le> y\<close> by (auto simp: less_eq_f64_def is_finite_key abs_if split: if_splits)
      then show ?thesis using 3 inf [OF \<open>\<not> is_nan y\<close>] num bound assms(1) \<open>\<not> is_nan y\<close> by (simp add: less_eq_f64_def)
    qed
  qed
qed

theorem f64_sub_mono:
  assumes "is_finite x" "is_finite y" "is_finite z" "x \<le> y"
  shows "x - z \<le> y - z"
  using f64_add_mono [of x y "- z"] assms by (simp add: f64_minus_eq)

text \<open>A finite double rounded to the nearest integer is an integer; a zero leaves a sum alone.\<close>

lemma std_round_int:
  assumes "is_finite x"
  shows "std_round x = f64_of_int (f64_lround x) \<or> f64_lround x = 0 \<and> is_finite (std_round x) \<and> f64_mag (std_round x) = 0"
proof (cases "round_away_mag x = 0")
  case True
  then show ?thesis using assms by (simp add: std_round_def f64_lround_def f64_round_def is_finite_def)
next
  case False
  then have "0 < round_away_mag x" using round_away_mag_nonneg [of x] by simp
  then show ?thesis
    using assms by (simp add: std_round_def f64_lround_def f64_of_int_def)
qed

lemma f64_add_zero:
  assumes "is_finite x" "f64_mag z = 0" "0 < f64_mag x \<or> \<not> f64_neg x"
  shows "x + z = x"
proof (rule f64_eqI)
  have z: "is_finite z" "exact z = 0"
    using assms(2) by (simp_all add: is_finite_def exact_def f64_scaled_0)
  have "f64_key (x + z) = round_key (exact x)" using f64_add_key(1) [OF assms(1) z(1)] z(2) by simp
  moreover have "f64_key (x + 0) = round_key (exact x)"
    using f64_add_key(1) [OF assms(1), of 0] by (simp add: exact_def f64_scaled_0 is_finite_def)
  have sc: "exact x = f64_sman x * 2 ^ nat (f64_exp x + 1074)" by (rule exact_sman)
  have man: "round_mag (f64_man x * 2 ^ nat (f64_exp x + 1074)) (- 1074) = f64_mag x" if "0 < f64_mag x"
    using round_mag_scale [of "f64_man x" "nat (f64_exp x + 1074)" "f64_exp x"] round_mag_decode [OF that]
      f64_exp_ge [of x] f64_man_0_iff [of x] f64_man_bounds(1) [of x] that by simp
  have "round_key (exact x) = f64_key x"
  proof (cases "f64_mag x = 0")
    case True
    then show ?thesis by (simp add: exact_def f64_scaled_0 round_key_def f64_key_def)
  next
    case False
    then have pos: "0 < f64_mag x" using f64_mag_bounds(1) [of x] by linarith
    then have mpos: "0 < f64_man x * 2 ^ nat (f64_exp x + 1074)"
      using f64_man_0_iff [of x] f64_man_bounds(1) [of x] by (simp add: less_le)
    then show ?thesis
      using man [OF pos] assms(1) pos
      by (auto simp: sc f64_sman_def round_key_def f64_key_def is_finite_def)
  qed
  ultimately have k: "f64_key (x + z) = f64_key x" by simp
  have mag: "f64_mag u = \<bar>f64_key u\<bar>" for u using f64_mag_bounds(1) [of u] by (simp add: f64_key_def)
  show "f64_mag (x + z) = f64_mag x" by (simp only: mag k)
  show "f64_neg (x + z) = f64_neg x"
  proof (cases "f64_mag x = 0")
    case True
    then have "f64_sman x = 0" "f64_sman z = 0" using assms(2) by (simp_all add: f64_sman_def f64_man_0_iff)
    then show ?thesis
      using assms z(1) True by (simp add: plus_f64_def f64_add_def Let_def)
  next
    case False
    then show ?thesis
      using k f64_mag_bounds(1) [of x] f64_mag_bounds(1) [of "x + z"]
      unfolding f64_key_def by (cases "f64_neg x"; cases "f64_neg (x + z)"; simp only: if_True if_False)
  qed
qed

text \<open>A finite double is its exact value rounded; a difference of two that are not negative never overflows.\<close>

lemma round_key_exact: "is_finite x \<Longrightarrow> round_key (exact x) = f64_key x"
proof (cases "f64_mag x = 0")
  case True
  then show ?thesis by (simp add: exact_def f64_scaled_0 round_key_def f64_key_def)
next
  case False
  assume x: "is_finite x"
  have "0 < f64_mag x" using False f64_mag_bounds(1) [of x] by linarith
  then have "x + 0 = x" using x by (intro f64_add_zero) simp_all
  then show ?thesis using f64_add_key(1) [OF x, of 0] by (simp add: exact_def [of 0] f64_scaled_0 is_finite_def)
qed

lemma f64_sub_finite:
  assumes "is_finite x" "is_finite y" "0 \<le> x" "0 \<le> y"
  shows "is_finite (x - y)"
proof -
  have y: "is_finite (- y)" using assms(2) by simp
  have "0 \<le> exact x" using exact_mono [OF assms(3)] by (simp add: exact_def [of 0] f64_scaled_0)
  moreover have "exact (- y) \<le> 0"
    using exact_mono [OF assms(4)] by (simp add: exact_def [of 0] f64_scaled_0)
  ultimately have "exact (- y) \<le> exact x + exact (- y)" "exact x + exact (- y) \<le> exact x" by simp_all
  then have "f64_key (- y) \<le> f64_key (x - y)" "f64_key (x - y) \<le> f64_key x"
    using round_key_mono f64_add_key(1) [OF assms(1) y] round_key_exact [OF assms(1)] round_key_exact [OF y]
    by (metis f64_minus_eq)+
  moreover have "- inf_mag < f64_key (- y)" "f64_key x < inf_mag"
    using assms(1) y unfolding is_finite_key by linarith+
  ultimately show ?thesis unfolding is_finite_key by linarith
qed

end
