(* ===== verification/Parameter_Laws.thy ===== *)
theory Parameter_Laws
  imports Parameter_Contract Float64_Mono
begin

text \<open>
  Laws of the parameter contract (\<open>Parameter_Contract\<close>): the table is valid, canonical values
  lie in their range, and the canonical values of the integer parameters are the integers of
  the range, each its own canonical value.
\<close>

lemma f64_mul_one:
  assumes "is_finite x"
  shows "x * 1 = x"
proof -
  have "f64_mul x 1 = f64_round (f64_neg x) (f64_man x * 2 ^ 52) (f64_exp x - int 52)"
    using assms one_f64_decode by (simp add: f64_mul_def Let_def)
  also have "\<dots> = x"
    using assms f64_round_scale [OF f64_man_bounds(1) [of x], of "f64_neg x" 52 "f64_exp x"] by simp
  finally show ?thesis by (simp add: times_f64_def)
qed

lemma canonical_plain_range:
  assumes "valid_spec spec" "is_finite v"
  shows "is_finite (canonical_plain spec v)" "ps_minimum spec \<le> canonical_plain spec v"
    "canonical_plain spec v \<le> ps_maximum spec"
proof -
  have b: "is_finite (ps_minimum spec)" "is_finite (ps_maximum spec)" "ps_minimum spec \<le> ps_maximum spec"
    using assms(1) by (simp_all add: valid_spec_def f64_less_imp_le)
  from max_min_bounds [OF b] assms show "is_finite (canonical_plain spec v)"
    "ps_minimum spec \<le> canonical_plain spec v" "canonical_plain spec v \<le> ps_maximum spec"
    by (simp_all add: canonical_plain_def Let_def)
qed

subsection \<open>Integer parameters\<close>

lemma max_min_int:
  assumes "\<bar>lo\<bar> < 2 ^ 53" "\<bar>hi\<bar> < 2 ^ 53" "\<bar>i\<bar> < 2 ^ 53"
  shows "std_max (f64_of_int lo) (std_min (f64_of_int i) (f64_of_int hi)) = f64_of_int (max lo (min i hi))"
  using assms f64_of_int_less_iff [of hi i] f64_of_int_less_iff [of lo i] f64_of_int_less_iff [of lo hi]
  by (auto simp: std_max_def std_min_def max_def min_def)

lemma int_spec_sel [simp]:
  "ps_minimum (int_spec pid name lo hi d cls p l r) = f64_of_int lo"
  "ps_maximum (int_spec pid name lo hi d cls p l r) = f64_of_int hi"
  "ps_increment (int_spec pid name lo hi d cls p l r) = 1"
  "ps_read_only (int_spec pid name lo hi d cls p l r) = r"
  by (simp_all add: int_spec_def)

lemma int_spec_valid:
  assumes "\<bar>lo\<bar> < 2 ^ 53" "\<bar>hi\<bar> < 2 ^ 53" "lo < hi"
  shows "valid_spec (int_spec pid name lo hi d cls p l r)"
proof -
  have "0 < (1 :: f64)" "is_finite 1" by code_simp+
  then show ?thesis using assms f64_of_int_less_iff [of lo hi] by (simp add: valid_spec_def int_spec_def)
qed

lemma tenth_pos: "0 < f64_rat 1 10" "is_finite (f64_rat 1 10)"
  by code_simp+

lemma kParameters_valid: "list_all valid_spec kParameters"
  using tenth_pos
  by (simp add: kParameters_def int_spec_valid)
    (simp add: valid_spec_def a4_spec_def trim_spec_def f64_of_int_less_iff)

lemma find_parameter_valid: "find_parameter pid = Some spec \<Longrightarrow> valid_spec spec"
  using kParameters_valid by (auto simp: find_parameter_def find_Some_iff list_all_length)

lemma f64_sub_of_int:
  assumes "\<bar>i\<bar> < 2 ^ 52" "\<bar>j\<bar> < 2 ^ 52"
  shows "f64_of_int i - f64_of_int j = f64_of_int (i - j)"
proof (cases "i = 0 \<and> j = 0")
  case True
  have "0 - 0 = (0 :: f64)" by code_simp
  then show ?thesis using True by simp
next
  case False
  then show ?thesis using assms by (intro f64_sub_int) auto
qed

lemma f64_zero_int [simp]: "is_finite 0" "f64_lround 0 = 0"
  using f64_of_int_finite [of 0] f64_lround_of_int [of 0] by simp_all

lemma canonical_plain_of_int:
  assumes "\<bar>lo\<bar> < 2 ^ 51" "\<bar>hi\<bar> < 2 ^ 51" "lo < hi" "lo \<le> i" "i \<le> hi"
  shows "canonical_plain (int_spec pid name lo hi d cls p l r) (f64_of_int i) = f64_of_int i"
proof -
  have v: "valid_spec (int_spec pid name lo hi d cls p l r)" using assms by (intro int_spec_valid) simp_all
  have fin: "is_finite (f64_of_int k)" if "\<bar>k\<bar> < 2 ^ 53" for k using that by simp
  have "f64_of_int i - f64_of_int lo = f64_of_int (i - lo)" using assms by (intro f64_sub_of_int) simp_all
  moreover have "std_round (f64_of_int (i - lo) div 1) = f64_of_int (i - lo)"
    using assms by (simp add: f64_div_one std_round_of_int)
  moreover have "f64_of_int (i - lo) * 1 = f64_of_int (i - lo)" using assms by (simp add: f64_mul_one)
  moreover have "f64_of_int lo + f64_of_int (i - lo) = f64_of_int i"
    using assms f64_add_int [of lo "i - lo"] by simp
  moreover have "is_finite (f64_of_int i)" using assms by simp
  moreover have "std_max (f64_of_int lo) (std_min (f64_of_int i) (f64_of_int hi)) = f64_of_int i"
    using assms max_min_int [of lo hi i] by simp
  ultimately show ?thesis using v by (simp add: canonical_plain_def Let_def)
qed

lemma canonical_plain_is_int:
  assumes b: "\<bar>lo\<bar> < 2 ^ 51" "\<bar>hi\<bar> < 2 ^ 51" "lo < hi" and fin: "is_finite v"
  obtains i where "lo \<le> i" "i \<le> hi"
    "canonical_plain (int_spec pid name lo hi d cls p l r) v = f64_of_int i"
proof -
  have v: "valid_spec (int_spec pid name lo hi d cls p l r)" using b by (intro int_spec_valid) simp_all
  define c where "c = std_max (f64_of_int lo) (std_min v (f64_of_int hi))"
  have lohi: "f64_of_int lo \<le> f64_of_int hi" using b by (simp add: f64_of_int_le_iff)
  have fl: "is_finite (f64_of_int lo)" "is_finite (f64_of_int hi)" using b by simp_all
  note cb = max_min_bounds [OF fl lohi, of v, folded c_def]
  define x where "x = c - f64_of_int lo"
  have "f64_of_int 0 \<le> x" "x \<le> f64_of_int (hi - lo)"
    using f64_sub_mono [OF fl(1) cb(3) fl(1) cb(1)] f64_sub_mono [OF cb(3) fl(2) fl(1) cb(2)]
      f64_sub_of_int [of lo lo] f64_sub_of_int [of hi lo] b by (simp_all add: x_def)
  then have xfin: "is_finite x" and k: "0 \<le> f64_lround x" "f64_lround x \<le> hi - lo"
    using f64_between_finite [of "f64_of_int 0" "f64_of_int (hi - lo)" x] b
      f64_lround_mono [of "f64_of_int 0" x] f64_lround_mono [of x "f64_of_int (hi - lo)"]
    by simp_all
  define k where "k = f64_lround x"
  have kb: "0 \<le> k" "k \<le> hi - lo" using \<open>0 \<le> f64_lround x\<close> \<open>f64_lround x \<le> hi - lo\<close> by (simp_all add: k_def)
  have "f64_of_int lo + std_round x * 1 = f64_of_int (lo + k)"
  proof -
    consider "std_round x = f64_of_int k" | "k = 0" "is_finite (std_round x)" "f64_mag (std_round x) = 0"
      using std_round_int [OF xfin] by (auto simp: k_def)
    then show ?thesis
    proof cases
      case 1
      have "f64_of_int lo + f64_of_int k = f64_of_int (lo + k)" using b kb by (intro f64_add_int) simp_all
      moreover have "is_finite (f64_of_int k)" using b kb by simp
      ultimately show ?thesis using 1 by (simp add: f64_mul_one)
    next
      case 2
      have "0 < f64_mag (f64_of_int lo) \<or> \<not> f64_neg (f64_of_int lo)"
        using f64_of_int_mag [of lo] b f64_of_int_decode(2) [of lo] f64_man_0_iff [of "f64_of_int lo"]
          f64_of_int_decode(4) [of lo] f64_mag_bounds(1) [of "f64_of_int lo"]
        by (cases "lo < 0") (auto simp: less_le)
      then show ?thesis using 2 fl by (simp add: f64_mul_one f64_add_zero)
    qed
  qed
  then have "canonical_plain (int_spec pid name lo hi d cls p l r) v
      = std_max (f64_of_int lo) (std_min (f64_of_int (lo + k)) (f64_of_int hi))"
    using v fin xfin by (simp add: canonical_plain_def Let_def f64_div_one flip: c_def x_def)
  also have "\<dots> = f64_of_int (lo + k)" using max_min_int [of lo hi "lo + k"] b kb by simp
  finally show thesis using that [of "lo + k"] kb by simp
qed

end
