(* ===== verification/State_Image.thy ===== *)
theory State_Image
  imports Byte_Codec Parameter_Laws
begin

text \<open>
  The saved plugin state (\<open>src/state_image.cpp\<close>): 184 bytes, a header with magic, version,
  counts and a CRC over the payload, then fourteen records of parameter id and the bits of
  its double. A pointer that may be null is an option.
\<close>

definition kStateSize :: nat where "kStateSize = 184"
definition kHeaderSize :: nat where "kHeaderSize = 16"
definition kRecordSize :: nat where "kRecordSize = 12"
definition kPayloadSize :: nat where "kPayloadSize = 168"

lemmas state_sizes = kStateSize_def kHeaderSize_def kRecordSize_def kPayloadSize_def
  kPersistentParameterCount_def

definition record_offset :: "nat \<Rightarrow> nat" where
  "record_offset index = kHeaderSize + index * kRecordSize"

subsection \<open>Encoding\<close>

definition encodable_value :: "ParameterId \<Rightarrow> f64 \<Rightarrow> bool" where
  "encodable_value pid value \<longleftrightarrow>
     (case find_parameter pid of None \<Rightarrow> False
      | Some spec \<Rightarrow> \<not> value < ps_minimum spec \<and> \<not> ps_maximum spec < value)"

definition put_record :: "u8 list \<Rightarrow> nat \<Rightarrow> ParameterId \<Rightarrow> f64 \<Rightarrow> u8 list" where
  "put_record out index pid value =
     (let destination = record_offset index
      in put_u64 (put_u32 out destination pid) (destination + 4) (f64_bits value))"

text \<open>The record loop; a failure returns the buffer as far as it is written.\<close>

fun encode_records :: "PersistentConfig \<Rightarrow> nat list \<Rightarrow> u8 list \<Rightarrow> bool \<times> u8 list" where
  "encode_records config [] out = (True, out)"
| "encode_records config (index # rest) out =
     (let pid = persistent_parameter_ids ! index
      in case parameter_value config status_ready pid of
           None \<Rightarrow> (False, out)
         | Some value \<Rightarrow>
             if \<not> is_finite value \<or> \<not> encodable_value pid value then (False, out)
             else encode_records config rest (put_record out index pid value))"

definition state_header :: "u8 list" where
  "state_header =
     (let out = (replicate kStateSize 0)[0 := 77, 1 := 51, 2 := 80, 3 := 65]
      in put_u32 (put_u16 (put_u16 out 4 1) 6 (of_nat kPersistentParameterCount)) 8
           (of_nat kPayloadSize))"

definition encode_state :: "PersistentConfig \<Rightarrow> bool \<times> u8 list" where
  "encode_state config =
     (let (ok, out) = encode_records config [0..<kPersistentParameterCount] state_header
      in if \<not> ok then (False, out)
         else (True, put_u32 out 12 (crc32 (take kPayloadSize (drop kHeaderSize out)))))"

subsection \<open>Decoding\<close>

fun decode_records :: "u8 list \<Rightarrow> nat list \<Rightarrow> PersistentConfig \<Rightarrow> PersistentConfig option" where
  "decode_records bytes [] candidate = Some candidate"
| "decode_records bytes (index # rest) candidate =
     (let source = record_offset index; pid = persistent_parameter_ids ! index
      in if get_u32 bytes source \<noteq> pid then None
         else let value = F64 (get_u64 bytes (source + 4))
              in if \<not> is_finite value then None
                 else let (result, candidate') = apply_parameter candidate pid value
                      in if result = apply_rejected \<or> result = apply_panic then None
                         else decode_records bytes rest candidate')"

definition valid_header :: "u8 list \<Rightarrow> bool" where
  "valid_header bytes \<longleftrightarrow>
     bytes ! 0 = 77 \<and> bytes ! 1 = 51 \<and> bytes ! 2 = 80 \<and> bytes ! 3 = 65
     \<and> get_u16 bytes 4 = 1 \<and> get_u16 bytes 6 = of_nat kPersistentParameterCount
     \<and> get_u32 bytes 8 = of_nat kPayloadSize
     \<and> get_u32 bytes 12 = crc32 (take kPayloadSize (drop kHeaderSize bytes))"

text \<open>The number of bytes is the length of the list the pointer leads to.\<close>

definition decode_state :: "u8 list option \<Rightarrow> PersistentConfig option" where
  "decode_state pointer =
     (case pointer of
        None \<Rightarrow> None
      | Some bytes \<Rightarrow>
          if length bytes \<noteq> kStateSize \<or> \<not> valid_header bytes then None
          else decode_records bytes [0..<kPersistentParameterCount] PersistentConfig_default)"

subsection \<open>What the encoder writes\<close>

lemma put_length [simp]:
  "length (put_u16 out pos a) = length out" "length (put_u32 out pos b) = length out"
  "length (put_u64 out pos c) = length out"
  by (simp_all add: put_as_store)

lemma put_record_length [simp]: "length (put_record out index pid v) = length out"
  by (simp add: put_record_def Let_def)

lemma encode_records_length: "encode_records config is out = (ok, out') \<Longrightarrow> length out' = length out"
  by (induction config "is" out rule: encode_records.induct)
    (auto simp: Let_def split: option.splits if_splits)

lemma bytes_lengths [simp]: "length (bytes_16 a) = 2" "length (bytes_32 b) = 4" "length (bytes_64 c) = 8"
  by (simp_all add: bytes_16_def bytes_32_def bytes_64_def)

lemma put_record_get:
  assumes "length out = kStateSize" "i < 14" "j < 14"
  shows "get_u32 (put_record out i pid v) (record_offset j)
           = (if i = j then pid else get_u32 out (record_offset j))"
    and "get_u64 (put_record out i pid v) (record_offset j + 4)
           = (if i = j then f64_bits v else get_u64 out (record_offset j + 4))"
proof -
  have fit: "record_offset i + 4 \<le> length out" "record_offset i + 4 + 8 \<le> length out"
    using assms by (simp_all add: record_offset_def state_sizes)
  have apart: "i \<noteq> j \<Longrightarrow> record_offset j + 12 \<le> record_offset i \<or> record_offset i + 12 \<le> record_offset j"
    by (auto simp: record_offset_def state_sizes)
  show "get_u32 (put_record out i pid v) (record_offset j)
           = (if i = j then pid else get_u32 out (record_offset j))"
    using fit apart
    by (auto simp: put_record_def Let_def put_as_store codec_32.get_store_same codec_32.get_store_other)
  show "get_u64 (put_record out i pid v) (record_offset j + 4)
           = (if i = j then f64_bits v else get_u64 out (record_offset j + 4))"
    using fit apart
    by (auto simp: put_record_def Let_def put_as_store codec_64.get_store_same codec_64.get_store_other)
qed

lemma put_record_prefix: "k < kHeaderSize \<Longrightarrow> length out = kStateSize \<Longrightarrow> i < 14 \<Longrightarrow>
    put_record out i pid v ! k = out ! k"
  by (simp add: put_record_def Let_def put_as_store store_nth record_offset_def state_sizes)

text \<open>After the loop each record holds its parameter, and the header is as before.\<close>

lemma encode_records_get:
  "encode_records config is out = (True, out') \<Longrightarrow> length out = kStateSize \<Longrightarrow> distinct is
     \<Longrightarrow> set is \<subseteq> {..<14} \<Longrightarrow>
     (\<forall>j < 14. get_u32 out' (record_offset j)
          = (if j \<in> set is then persistent_parameter_ids ! j else get_u32 out (record_offset j))
        \<and> get_u64 out' (record_offset j + 4)
          = (if j \<in> set is
             then f64_bits (the (parameter_value config status_ready (persistent_parameter_ids ! j)))
             else get_u64 out (record_offset j + 4)))
     \<and> (\<forall>k < kHeaderSize. out' ! k = out ! k)
     \<and> (\<forall>j \<in> set is. \<exists>v. parameter_value config status_ready (persistent_parameter_ids ! j) = Some v
          \<and> is_finite v \<and> encodable_value (persistent_parameter_ids ! j) v)"
proof (induction config "is" out rule: encode_records.induct)
  case (1 config out)
  then show ?case by simp
next
  case (2 config i rest out)
  let ?pid = "persistent_parameter_ids ! i"
  obtain v where v: "parameter_value config status_ready ?pid = Some v" "is_finite v" "encodable_value ?pid v"
    and rec: "encode_records config rest (put_record out i ?pid v) = (True, out')"
    using "2.prems"(1) by (auto simp: Let_def split: option.splits if_splits)
  have i: "i < 14" "i \<notin> set rest" using "2.prems"(3,4) by simp_all
  note IH = "2.IH" [OF refl v(1) _ rec]
  have "length (put_record out i ?pid v) = kStateSize" "distinct rest" "set rest \<subseteq> {..<14}"
    using "2.prems" by simp_all
  with IH v have IH': "(\<forall>j < 14. get_u32 out' (record_offset j)
          = (if j \<in> set rest then persistent_parameter_ids ! j
             else get_u32 (put_record out i ?pid v) (record_offset j))
        \<and> get_u64 out' (record_offset j + 4)
          = (if j \<in> set rest
             then f64_bits (the (parameter_value config status_ready (persistent_parameter_ids ! j)))
             else get_u64 (put_record out i ?pid v) (record_offset j + 4)))
     \<and> (\<forall>k < kHeaderSize. out' ! k = put_record out i ?pid v ! k)
     \<and> (\<forall>j \<in> set rest. \<exists>v. parameter_value config status_ready (persistent_parameter_ids ! j) = Some v
          \<and> is_finite v \<and> encodable_value (persistent_parameter_ids ! j) v)"
    by blast
  then show ?case
    using put_record_get [OF "2.prems"(2) i(1), of _ ?pid v]
      put_record_prefix [OF _ "2.prems"(2) i(1), of _ ?pid v] v i
    by auto
qed

end
