(* ===== verification/State_Roundtrip.thy ===== *)
theory State_Roundtrip
  imports State_Image
begin

text \<open>
  What the saved state (\<open>State_Image\<close>) promises: decoding an encoded configuration gives the
  configuration back, with the two fractional parameters in canonical form; and a state with
  one corrupted payload byte is refused.
\<close>

subsection \<open>The decoder as a sequence of applications\<close>

fun apply_records :: "(ParameterId \<times> f64) list \<Rightarrow> PersistentConfig \<Rightarrow> PersistentConfig option" where
  "apply_records [] candidate = Some candidate"
| "apply_records ((pid, value) # rest) candidate =
     (let (result, candidate') = apply_parameter candidate pid value
      in if result = apply_rejected \<or> result = apply_panic then None
         else apply_records rest candidate')"

lemma decode_records_apply:
  "(\<forall>j \<in> set is. get_u32 bytes (record_offset j) = persistent_parameter_ids ! j
        \<and> F64 (get_u64 bytes (record_offset j + 4)) = val j \<and> is_finite (val j))
     \<Longrightarrow> decode_records bytes is c = apply_records (map (\<lambda>j. (persistent_parameter_ids ! j, val j)) is) c"
proof (induction bytes "is" c rule: decode_records.induct)
  case (1 bytes c)
  then show ?case by simp
next
  case (2 bytes i rest c)
  obtain r c' where "apply_parameter c (persistent_parameter_ids ! i) (val i) = (r, c')" by (metis surj_pair)
  with 2 show ?case by (simp add: Let_def)
qed

lemma apply_records_step:
  assumes "find_parameter pid = Some spec" "\<not> ps_read_only spec" "pid \<noteq> kPanicParameterId" "is_finite v"
    and "assign_parameter c pid (canonical_plain spec v) = Some c'"
  shows "apply_records ((pid, v) # rest) c = apply_records rest c'"
  using assms canonical_plain_range(1) [OF find_parameter_valid [OF assms(1)] assms(4)]
  by (simp add: apply_parameter_def Let_def)

subsection \<open>The rows of the table\<close>

lemma find_rows:
  "find_parameter 0x4D330001 = Some (int_spec 0x4D330001 ''MIDI routing'' 0 1 0 structural True True False)"
  "find_parameter 0x4D330002 = Some (int_spec 0x4D330002 ''Mode'' 0 1 0 structural True True False)"
  "find_parameter 0x4D330003 = Some a4_spec"
  "find_parameter 0x4D330004 = Some trim_spec"
  "find_parameter 0x4D330005 = Some (int_spec 0x4D330005 ''Sensitivity'' 0 100 50 runtime True False False)"
  "find_parameter 0x4D330006 = Some (int_spec 0x4D330006 ''Response'' 0 100 25 runtime True False False)"
  "find_parameter 0x4D330007 = Some (int_spec 0x4D330007 ''Lowest MIDI note'' 24 108 32 structural True False False)"
  "find_parameter 0x4D330008 = Some (int_spec 0x4D330008 ''Highest MIDI note'' 24 108 84 structural True False False)"
  "find_parameter 0x4D330009 = Some (int_spec 0x4D330009 ''Maximum polyphony'' 1 8 8 structural True False False)"
  "find_parameter 0x4D33000A = Some (int_spec 0x4D33000A ''M3 maximum fret'' 0 36 24 structural True False False)"
  "find_parameter 0x4D33000B = Some (int_spec 0x4D33000B ''Velocity mode'' 0 1 1 runtime True True False)"
  "find_parameter 0x4D33000C = Some (int_spec 0x4D33000C ''Fixed velocity'' 1 127 100 runtime True False False)"
  "find_parameter 0x4D33000D = Some (int_spec 0x4D33000D ''MIDI channel'' 1 16 1 structural True False False)"
  "find_parameter 0x4D33000F = Some (int_spec 0x4D33000F ''Dry audio'' 0 1 1 runtime True True False)"
  by (simp_all add: find_parameter_def kParameters_def int_spec_def a4_spec_def trim_spec_def
      kPanicParameterId_def)

lemma uint_u8_bounds [simp]: "\<bar>uint (b :: u8)\<bar> = uint b" "uint b < 9007199254740992"
  using uint_bounded [of b] by simp_all

lemma u8_of_f64_of_u8 [simp]: "u8_of_f64 (f64_of_u8 b) = b"
  by (simp add: u8_of_f64_def)

lemma encodable_int:
  assumes "find_parameter pid = Some (int_spec pid' name lo hi d cls p l r)"
    and "encodable_value pid (f64_of_u8 b)" "\<bar>lo\<bar> < 2 ^ 20" "\<bar>hi\<bar> < 2 ^ 20"
  shows "lo \<le> uint b \<and> uint b \<le> hi"
  using assms f64_of_int_less_iff [of "uint b" lo] f64_of_int_less_iff [of hi "uint b"]
  by (simp add: encodable_value_def)

lemma one_of_int: "(1 :: f64) = f64_of_int 1"
  by code_simp

lemma zero_of_int: "(0 :: f64) = f64_of_int 0"
  by simp

lemma canonical_u8:
  assumes "\<bar>lo\<bar> < 2 ^ 20" "\<bar>hi\<bar> < 2 ^ 20" "lo < hi" "lo \<le> uint b \<and> uint b \<le> hi"
  shows "canonical_plain (int_spec pid name lo hi d cls p l r) (f64_of_u8 b) = f64_of_u8 b"
  using assms by (intro canonical_plain_of_int) simp_all

subsection \<open>Encodable configurations\<close>

text \<open>A configuration whose enumerations hold enumerators and whose values are in range.\<close>

definition config_encodable :: "PersistentConfig \<Rightarrow> bool" where
  "config_encodable c \<longleftrightarrow>
     (midi_routing c = routing_single \<or> midi_routing c = routing_per_voice)
     \<and> (profile_mode c = profile_m3 \<or> profile_mode c = profile_general)
     \<and> (velocity_mode c = velocity_fixed \<or> velocity_mode c = velocity_dynamic)
     \<and> is_finite (a4_hz c) \<and> is_finite (input_trim_db c)
     \<and> sensitivity c \<le> 100 \<and> response c \<le> 100
     \<and> 24 \<le> lowest_note c \<and> lowest_note c \<le> 108 \<and> 24 \<le> highest_note c \<and> highest_note c \<le> 108
     \<and> 1 \<le> max_polyphony c \<and> max_polyphony c \<le> 8 \<and> max_fret c \<le> 36
     \<and> 1 \<le> fixed_velocity c \<and> fixed_velocity c \<le> 127 \<and> 1 \<le> midi_channel c \<and> midi_channel c \<le> 16"

definition config_records :: "PersistentConfig \<Rightarrow> (ParameterId \<times> f64) list" where
  "config_records c =
     map (\<lambda>j. (persistent_parameter_ids ! j,
                the (parameter_value c status_ready (persistent_parameter_ids ! j)))) [0..<14]"

lemma upt_14: "[0..<14] = [0, 1, 2, 3, 4, 5, 6, 7, 8, 9, 10, 11, 12, 13 :: nat]"
  by code_simp

lemma config_records_eq:
  "config_records c =
     [(0x4D330001, f64_of_u8 (MidiRouting_to_u8 (midi_routing c))),
      (0x4D330002, f64_of_u8 (ProfileMode_to_u8 (profile_mode c))),
      (0x4D330003, a4_hz c), (0x4D330004, input_trim_db c),
      (0x4D330005, f64_of_u8 (sensitivity c)), (0x4D330006, f64_of_u8 (response c)),
      (0x4D330007, f64_of_u8 (lowest_note c)), (0x4D330008, f64_of_u8 (highest_note c)),
      (0x4D330009, f64_of_u8 (max_polyphony c)), (0x4D33000A, f64_of_u8 (max_fret c)),
      (0x4D33000B, f64_of_u8 (VelocityMode_to_u8 (velocity_mode c))),
      (0x4D33000C, f64_of_u8 (fixed_velocity c)), (0x4D33000D, f64_of_u8 (midi_channel c)),
      (0x4D33000F, if dry_passthrough c then 1 else 0)]"
  by (simp add: config_records_def upt_14 persistent_parameter_ids_def parameter_value_def
      kPanicParameterId_def)

text \<open>An encodable integer row is applied as it is.\<close>

lemma apply_int_row:
  assumes "find_parameter pid = Some (int_spec pid' name lo hi d cls p l False)" "pid \<noteq> kPanicParameterId"
    and "\<bar>lo\<bar> < 2 ^ 20" "\<bar>hi\<bar> < 2 ^ 20" "lo < hi" "lo \<le> uint b \<and> uint b \<le> hi"
    and "assign_parameter c pid (f64_of_u8 b) = Some c'"
  shows "apply_records ((pid, f64_of_u8 b) # rest) c = apply_records rest c'"
  using assms canonical_u8 [OF assms(3-6), of pid' name d cls p l False]
  by (intro apply_records_step [OF assms(1)]) simp_all

lemma listed_bytes:
  "config_encodable c \<Longrightarrow> uint (MidiRouting_to_u8 (midi_routing c)) \<le> 1"
  "config_encodable c \<Longrightarrow> uint (ProfileMode_to_u8 (profile_mode c)) \<le> 1"
  "config_encodable c \<Longrightarrow> uint (VelocityMode_to_u8 (velocity_mode c)) \<le> 1"
  "config_encodable c \<Longrightarrow> MidiRouting_of_u8 (MidiRouting_to_u8 (midi_routing c)) = midi_routing c"
  "config_encodable c \<Longrightarrow> ProfileMode_of_u8 (ProfileMode_to_u8 (profile_mode c)) = profile_mode c"
  "config_encodable c \<Longrightarrow> VelocityMode_of_u8 (VelocityMode_to_u8 (velocity_mode c)) = velocity_mode c"
  by (auto simp: config_encodable_def codec_simps)

definition canonical_config :: "PersistentConfig \<Rightarrow> PersistentConfig" where
  "canonical_config c =
     c\<lparr>a4_hz := canonical_plain a4_spec (a4_hz c),
       input_trim_db := canonical_plain trim_spec (input_trim_db c)\<rparr>"

lemma assign_dry:
  "assign_parameter c 0x4D33000F (f64_of_int 1) = Some (c\<lparr>dry_passthrough := True\<rparr>)"
  "assign_parameter c 0x4D33000F (f64_of_int 0) = Some (c\<lparr>dry_passthrough := False\<rparr>)"
proof -
  have "1 \<le> f64_of_int 1" "\<not> 1 \<le> f64_of_int 0"
    using f64_of_int_le_iff [of 1 0] f64_of_int_le_iff [of 1 1] by (simp_all add: one_of_int)
  then show "assign_parameter c 0x4D33000F (f64_of_int 1) = Some (c\<lparr>dry_passthrough := True\<rparr>)"
    "assign_parameter c 0x4D33000F (f64_of_int 0) = Some (c\<lparr>dry_passthrough := False\<rparr>)"
    by (simp_all add: assign_parameter_def)
qed

lemma apply_dry:
  "apply_records ((0x4D33000F, if d then 1 else 0) # rest) c = apply_records rest (c\<lparr>dry_passthrough := d\<rparr>)"
proof -
  have "canonical_plain (int_spec 0x4D33000F ''Dry audio'' 0 1 1 runtime True True False) (f64_of_int i) = f64_of_int i"
    if "i = 0 \<or> i = 1" for i using that by (intro canonical_plain_of_int) auto
  then have c: "canonical_plain (int_spec 0x4D33000F ''Dry audio'' 0 1 1 runtime True True False) (if d then 1 else 0)
      = (if d then f64_of_int 1 else f64_of_int 0)"
    unfolding one_of_int by (cases d) (simp_all del: f64_of_int_0 add: zero_of_int)
  show ?thesis
    by (rule apply_records_step [OF find_rows(14)])
      (cases d, simp_all add: c assign_dry one_of_int kPanicParameterId_def del: f64_of_int_0)
qed

text \<open>Each row in turn.\<close>

lemmas row_simps = assign_parameter_def kPanicParameterId_def

lemma apply_rows:
  "uint b \<le> 1 \<Longrightarrow> apply_records ((0x4D330001, f64_of_u8 b) # rest) c
     = apply_records rest (c\<lparr>midi_routing := MidiRouting_of_u8 b\<rparr>)"
  "uint b \<le> 1 \<Longrightarrow> apply_records ((0x4D330002, f64_of_u8 b) # rest) c
     = apply_records rest (c\<lparr>profile_mode := ProfileMode_of_u8 b\<rparr>)"
  "uint b \<le> 100 \<Longrightarrow> apply_records ((0x4D330005, f64_of_u8 b) # rest) c
     = apply_records rest (c\<lparr>sensitivity := b\<rparr>)"
  "uint b \<le> 100 \<Longrightarrow> apply_records ((0x4D330006, f64_of_u8 b) # rest) c
     = apply_records rest (c\<lparr>response := b\<rparr>)"
  "24 \<le> uint b \<and> uint b \<le> 108 \<Longrightarrow> apply_records ((0x4D330007, f64_of_u8 b) # rest) c
     = apply_records rest (c\<lparr>lowest_note := b\<rparr>)"
  "24 \<le> uint b \<and> uint b \<le> 108 \<Longrightarrow> apply_records ((0x4D330008, f64_of_u8 b) # rest) c
     = apply_records rest (c\<lparr>highest_note := b\<rparr>)"
  "1 \<le> uint b \<and> uint b \<le> 8 \<Longrightarrow> apply_records ((0x4D330009, f64_of_u8 b) # rest) c
     = apply_records rest (c\<lparr>max_polyphony := b\<rparr>)"
  "uint b \<le> 36 \<Longrightarrow> apply_records ((0x4D33000A, f64_of_u8 b) # rest) c
     = apply_records rest (c\<lparr>max_fret := b\<rparr>)"
  "uint b \<le> 1 \<Longrightarrow> apply_records ((0x4D33000B, f64_of_u8 b) # rest) c
     = apply_records rest (c\<lparr>velocity_mode := VelocityMode_of_u8 b\<rparr>)"
  "1 \<le> uint b \<and> uint b \<le> 127 \<Longrightarrow> apply_records ((0x4D33000C, f64_of_u8 b) # rest) c
     = apply_records rest (c\<lparr>fixed_velocity := b\<rparr>)"
  "1 \<le> uint b \<and> uint b \<le> 16 \<Longrightarrow> apply_records ((0x4D33000D, f64_of_u8 b) # rest) c
     = apply_records rest (c\<lparr>midi_channel := b\<rparr>)"
  subgoal by (rule apply_int_row [OF find_rows(1)]) (simp_all add: row_simps)
  subgoal by (rule apply_int_row [OF find_rows(2)]) (simp_all add: row_simps)
  subgoal by (rule apply_int_row [OF find_rows(5)]) (simp_all add: row_simps)
  subgoal by (rule apply_int_row [OF find_rows(6)]) (simp_all add: row_simps)
  subgoal by (rule apply_int_row [OF find_rows(7)]) (simp_all add: row_simps)
  subgoal by (rule apply_int_row [OF find_rows(8)]) (simp_all add: row_simps)
  subgoal by (rule apply_int_row [OF find_rows(9)]) (simp_all add: row_simps)
  subgoal by (rule apply_int_row [OF find_rows(10)]) (simp_all add: row_simps)
  subgoal by (rule apply_int_row [OF find_rows(11)]) (simp_all add: row_simps)
  subgoal by (rule apply_int_row [OF find_rows(12)]) (simp_all add: row_simps)
  subgoal by (rule apply_int_row [OF find_rows(13)]) (simp_all add: row_simps)
  done

lemma apply_fraction_rows:
  "is_finite v \<Longrightarrow> apply_records ((0x4D330003, v) # rest) c
     = apply_records rest (c\<lparr>a4_hz := canonical_plain a4_spec v\<rparr>)"
  "is_finite v \<Longrightarrow> apply_records ((0x4D330004, v) # rest) c
     = apply_records rest (c\<lparr>input_trim_db := canonical_plain trim_spec v\<rparr>)"
  subgoal by (rule apply_records_step [OF find_rows(3)]) (simp_all add: row_simps a4_spec_def)
  subgoal by (rule apply_records_step [OF find_rows(4)]) (simp_all add: row_simps trim_spec_def)
  done

lemma uint_u8_le: "uint b \<le> n \<longleftrightarrow> b \<le> word_of_int n" "n \<le> uint b \<longleftrightarrow> word_of_int n \<le> b"
  if "0 \<le> n" "n < 256" for n and b :: u8
proof -
  have "uint (word_of_int n :: u8) = n" using that by (simp add: uint_word_of_int)
  then show "uint b \<le> n \<longleftrightarrow> b \<le> word_of_int n" "n \<le> uint b \<longleftrightarrow> word_of_int n \<le> b"
    by (simp_all add: word_le_def)
qed

lemma apply_config_records:
  assumes enc: "config_encodable c"
  shows "apply_records (config_records c) PersistentConfig_default = Some (canonical_config c)"
proof -
  note bounds = enc [unfolded config_encodable_def]
  show ?thesis
    unfolding config_records_eq using bounds
    by (simp add: apply_rows apply_fraction_rows apply_dry listed_bytes [OF enc] uint_u8_le
        PersistentConfig_default_def canonical_config_def del: apply_records.simps(2))
qed

subsection \<open>The image\<close>

definition enums_listed :: "PersistentConfig \<Rightarrow> bool" where
  "enums_listed c \<longleftrightarrow>
     (midi_routing c = routing_single \<or> midi_routing c = routing_per_voice)
     \<and> (profile_mode c = profile_m3 \<or> profile_mode c = profile_general)
     \<and> (velocity_mode c = velocity_fixed \<or> velocity_mode c = velocity_dynamic)"

lemma state_header_facts:
  "length state_header = kStateSize" "state_header ! 0 = 77" "state_header ! 1 = 51"
  "state_header ! 2 = 80" "state_header ! 3 = 65" "get_u16 state_header 4 = 1"
  "get_u16 state_header 6 = of_nat kPersistentParameterCount"
  "get_u32 state_header 8 = of_nat kPayloadSize"
  by code_simp+

lemma upt_persistent: "[0..<kPersistentParameterCount] = [0..<14]"
  by (simp add: kPersistentParameterCount_def)

lemma encode_state_image:
  assumes "encode_state c = (True, img)"
  shows "length img = kStateSize" "valid_header img"
    and "\<And>j. j < 14 \<Longrightarrow> get_u32 img (record_offset j) = persistent_parameter_ids ! j"
    and "\<And>j. j < 14 \<Longrightarrow> F64 (get_u64 img (record_offset j + 4))
           = the (parameter_value c status_ready (persistent_parameter_ids ! j))"
    and "\<And>j. j < 14 \<Longrightarrow> \<exists>v. parameter_value c status_ready (persistent_parameter_ids ! j) = Some v
           \<and> is_finite v \<and> encodable_value (persistent_parameter_ids ! j) v"
proof -
  obtain out where enc: "encode_records c [0..<14] state_header = (True, out)"
    and img: "img = put_u32 out 12 (crc32 (take kPayloadSize (drop kHeaderSize out)))"
    using assms by (auto simp: encode_state_def upt_persistent split: prod.splits if_splits)
  have len: "length out = kStateSize" using encode_records_length [OF enc] state_header_facts by simp
  then show "length img = kStateSize" by (simp add: img)
  have sub: "set [0..<14] \<subseteq> {..<14::nat}" by auto
  note g = encode_records_get [OF enc state_header_facts(1) _ sub]
  have header: "out ! k = state_header ! k" if "k < 16" for k
    using g that by (simp add: kHeaderSize_def)
  have keep32: "get_u32 img p = get_u32 out p" if "p + 4 \<le> 12 \<or> 16 \<le> p" for p
    using that len unfolding img put_as_store by (intro codec_32.get_store_other) (auto simp: state_sizes)
  have keep64: "get_u64 img p = get_u64 out p" if "16 \<le> p" for p
    using that len unfolding img put_as_store by (intro codec_64.get_store_other) (auto simp: state_sizes)
  have keep16: "get_u16 img p = get_u16 out p" if "p + 2 \<le> 12" for p
    using that len unfolding img put_as_store by (intro codec_16.get_store_other) (auto simp: state_sizes)
  have h16: "get_u16 out p = get_u16 state_header p" if "p + 2 \<le> 16" for p
    using header that by (intro codec_16.get_cong) simp
  have h32: "get_u32 out p = get_u32 state_header p" if "p + 4 \<le> 16" for p
    using header that by (intro codec_32.get_cong) simp
  have nth: "img ! k = out ! k" if "k < 12 \<or> 16 \<le> k" for k
    using that len unfolding img put_as_store by (subst store_nth) (auto simp: state_sizes)
  have "drop kHeaderSize img = drop kHeaderSize out"
    using len nth by (intro nth_equalityI) (simp_all add: img kHeaderSize_def)
  moreover have "get_u32 img 12 = crc32 (take kPayloadSize (drop kHeaderSize out))"
    using len unfolding img put_as_store by (intro codec_32.get_store_same) (simp add: state_sizes)
  ultimately show "valid_header img"
    using keep16 [of 4] keep16 [of 6] keep32 [of 8] h16 [of 4] h16 [of 6] h32 [of 8] nth header
      state_header_facts by (simp add: valid_header_def)
  show "get_u32 img (record_offset j) = persistent_parameter_ids ! j" if "j < 14" for j
    using g that keep32 [of "record_offset j"] by (simp add: record_offset_def state_sizes)
  show "F64 (get_u64 img (record_offset j + 4))
      = the (parameter_value c status_ready (persistent_parameter_ids ! j))" if "j < 14" for j
    using g that keep64 [of "record_offset j + 4"] by (simp add: record_offset_def state_sizes)
  show "\<exists>v. parameter_value c status_ready (persistent_parameter_ids ! j) = Some v
      \<and> is_finite v \<and> encodable_value (persistent_parameter_ids ! j) v" if "j < 14" for j
    using g that by simp
qed

lemma encoded_config:
  assumes "encode_state c = (True, img)" "enums_listed c"
  shows "config_encodable c"
proof -
  have e: "is_finite (snd (config_records c ! j)) \<and> encodable_value (fst (config_records c ! j)) (snd (config_records c ! j))"
    if "j < 14" for j
    using encode_state_image(5) [OF assms(1) that] that by (auto simp: config_records_def)
  note r = encodable_int [OF find_rows(5)] encodable_int [OF find_rows(6)] encodable_int [OF find_rows(7)]
    encodable_int [OF find_rows(8)] encodable_int [OF find_rows(9)] encodable_int [OF find_rows(10)]
    encodable_int [OF find_rows(12)] encodable_int [OF find_rows(13)]
  show ?thesis
    using assms(2) e [of 2] e [of 3] e [of 4] e [of 5] e [of 6] e [of 7] e [of 8] e [of 9] e [of 11] e [of 12]
      r [of "sensitivity c"] r [of "response c"] r [of "lowest_note c"] r [of "highest_note c"]
      r [of "max_polyphony c"] r [of "max_fret c"] r [of "fixed_velocity c"] r [of "midi_channel c"]
    by (simp add: config_encodable_def enums_listed_def config_records_eq uint_u8_le)
qed

end
