(* ===== verification/State_Properties.thy ===== *)
theory State_Properties
  imports State_Roundtrip
begin

text \<open>The properties of the parameter contract and the saved state.\<close>

subsection \<open>Applying parameters\<close>

lemma canonical_int_u8:
  assumes "\<bar>lo\<bar> < 2 ^ 20" "\<bar>hi\<bar> < 2 ^ 20" "lo < hi" "0 \<le> lo" "hi < 256" "is_finite v"
  obtains b where "canonical_plain (int_spec pid name lo hi d cls p l r) v = f64_of_u8 b"
    "lo \<le> uint b \<and> uint b \<le> hi"
proof -
  have "\<bar>lo\<bar> < 2 ^ 51" "\<bar>hi\<bar> < 2 ^ 51" using assms by simp_all
  then obtain i where i: "lo \<le> i" "i \<le> hi"
    "canonical_plain (int_spec pid name lo hi d cls p l r) v = f64_of_int i"
    using canonical_plain_is_int [OF _ _ assms(3,6), of pid name d cls p l r] by blast
  moreover have "uint (word_of_int i :: u8) = i" using i assms by (simp add: uint_word_of_int)
  ultimately show thesis using that [of "word_of_int i"] by simp
qed

lemma apply_parameter_cases:
  assumes "snd (apply_parameter c pid v) \<noteq> c"
  obtains spec where "find_parameter pid = Some spec" "is_finite v"
    "assign_parameter c pid (canonical_plain spec v) = Some (snd (apply_parameter c pid v))"
  using assms
  by (auto simp: apply_parameter_def Let_def split: option.splits if_splits)

lemma assign_parameter_id:
  assumes "assign_parameter c pid x = Some c'"
  shows "pid \<in> {0x4D330001, 0x4D330002, 0x4D330003, 0x4D330004, 0x4D330005, 0x4D330006, 0x4D330007,
    0x4D330008, 0x4D330009, 0x4D33000A, 0x4D33000B, 0x4D33000C, 0x4D33000D, 0x4D33000F}"
  using assms by (auto simp: assign_parameter_def split: if_splits)

lemma enum_of_u8_listed:
  "uint b \<le> 1 \<Longrightarrow> MidiRouting_of_u8 b = routing_single \<or> MidiRouting_of_u8 b = routing_per_voice"
  "uint b \<le> 1 \<Longrightarrow> ProfileMode_of_u8 b = profile_m3 \<or> ProfileMode_of_u8 b = profile_general"
  "uint b \<le> 1 \<Longrightarrow> VelocityMode_of_u8 b = velocity_fixed \<or> VelocityMode_of_u8 b = velocity_dynamic"
proof -
  have "b = 0 \<or> b = 1" if "uint b \<le> 1"
  proof -
    have "uint b = 0 \<or> uint b = 1" using that uint_ge_0 [of b] by linarith
    then show ?thesis by (metis uint_0_eq uint_1_eq word_uint_eqI)
  qed
  then show "uint b \<le> 1 \<Longrightarrow> MidiRouting_of_u8 b = routing_single \<or> MidiRouting_of_u8 b = routing_per_voice"
    "uint b \<le> 1 \<Longrightarrow> ProfileMode_of_u8 b = profile_m3 \<or> ProfileMode_of_u8 b = profile_general"
    "uint b \<le> 1 \<Longrightarrow> VelocityMode_of_u8 b = velocity_fixed \<or> VelocityMode_of_u8 b = velocity_dynamic"
    by (auto simp: codec_simps)
qed

text \<open>A configuration with every field in the range of its parameter.\<close>

definition config_valid :: "PersistentConfig \<Rightarrow> bool" where
  "config_valid c \<longleftrightarrow>
     config_encodable c
     \<and> f64_of_int 400 \<le> a4_hz c \<and> a4_hz c \<le> f64_of_int 480
     \<and> f64_of_int (-24) \<le> input_trim_db c \<and> input_trim_db c \<le> f64_of_int 24"

lemma config_valid_default: "config_valid PersistentConfig_default"
  by code_simp

text \<open>The rows whose value is a byte: their place in the table, id and range.\<close>

definition int_rows :: "(ParameterId \<times> int \<times> int) list" where
  "int_rows =
     [(0x4D330001, 0, 1), (0x4D330002, 0, 1), (0x4D330005, 0, 100), (0x4D330006, 0, 100),
      (0x4D330007, 24, 108), (0x4D330008, 24, 108), (0x4D330009, 1, 8), (0x4D33000A, 0, 36),
      (0x4D33000B, 0, 1), (0x4D33000C, 1, 127), (0x4D33000D, 1, 16)]"

definition is_int_row :: "ParameterId \<Rightarrow> int \<Rightarrow> int \<Rightarrow> bool" where
  "is_int_row pid lo hi \<longleftrightarrow>
     (\<exists>name d cls l. find_parameter pid = Some (int_spec pid name lo hi d cls True l False))
     \<and> 0 \<le> lo \<and> lo < hi \<and> hi < 256"

lemma is_int_rowI:
  "find_parameter pid = Some (int_spec pid name lo hi d cls True l False) \<Longrightarrow> 0 \<le> lo \<Longrightarrow> lo < hi
     \<Longrightarrow> hi < 256 \<Longrightarrow> is_int_row pid lo hi"
  unfolding is_int_row_def by blast

lemma int_rows_table: "list_all (\<lambda>(pid, lo, hi). is_int_row pid lo hi) int_rows"
  by (simp add: int_rows_def is_int_rowI [OF find_rows(1)] is_int_rowI [OF find_rows(2)]
      is_int_rowI [OF find_rows(5)] is_int_rowI [OF find_rows(6)] is_int_rowI [OF find_rows(7)]
      is_int_rowI [OF find_rows(8)] is_int_rowI [OF find_rows(9)] is_int_rowI [OF find_rows(10)]
      is_int_rowI [OF find_rows(11)] is_int_rowI [OF find_rows(12)] is_int_rowI [OF find_rows(13)])

lemma int_row_spec:
  assumes "(pid, lo, hi) \<in> set int_rows"
  obtains name d cls l where "find_parameter pid = Some (int_spec pid name lo hi d cls True l False)"
    "0 \<le> lo" "lo < hi" "hi < 256"
  using assms int_rows_table unfolding list_all_iff is_int_row_def by blast

lemmas config_valid_simps = config_valid_def config_encodable_def

lemma byte_range: "uint b \<le> 1 \<longleftrightarrow> b \<le> 1" "uint b \<le> 100 \<longleftrightarrow> b \<le> 100" "24 \<le> uint b \<longleftrightarrow> 24 \<le> b"
  "uint b \<le> 108 \<longleftrightarrow> b \<le> 108" "1 \<le> uint b \<longleftrightarrow> 1 \<le> b" "uint b \<le> 8 \<longleftrightarrow> b \<le> 8" "uint b \<le> 36 \<longleftrightarrow> b \<le> 36"
  "uint b \<le> 127 \<longleftrightarrow> b \<le> 127" "uint b \<le> 16 \<longleftrightarrow> b \<le> 16" for b :: u8
  by (simp_all add: uint_u8_le)

lemma assign_rows:
  "assign_parameter c 0x4D330001 (f64_of_u8 b) = Some (c\<lparr>midi_routing := MidiRouting_of_u8 b\<rparr>)"
  "assign_parameter c 0x4D330002 (f64_of_u8 b) = Some (c\<lparr>profile_mode := ProfileMode_of_u8 b\<rparr>)"
  "assign_parameter c 0x4D330005 (f64_of_u8 b) = Some (c\<lparr>sensitivity := b\<rparr>)"
  "assign_parameter c 0x4D330006 (f64_of_u8 b) = Some (c\<lparr>response := b\<rparr>)"
  "assign_parameter c 0x4D330007 (f64_of_u8 b) = Some (c\<lparr>lowest_note := b\<rparr>)"
  "assign_parameter c 0x4D330008 (f64_of_u8 b) = Some (c\<lparr>highest_note := b\<rparr>)"
  "assign_parameter c 0x4D330009 (f64_of_u8 b) = Some (c\<lparr>max_polyphony := b\<rparr>)"
  "assign_parameter c 0x4D33000A (f64_of_u8 b) = Some (c\<lparr>max_fret := b\<rparr>)"
  "assign_parameter c 0x4D33000B (f64_of_u8 b) = Some (c\<lparr>velocity_mode := VelocityMode_of_u8 b\<rparr>)"
  "assign_parameter c 0x4D33000C (f64_of_u8 b) = Some (c\<lparr>fixed_velocity := b\<rparr>)"
  "assign_parameter c 0x4D33000D (f64_of_u8 b) = Some (c\<lparr>midi_channel := b\<rparr>)"
  by (simp_all add: assign_parameter_def)

lemma update_rows:
  assumes "config_valid c"
  shows "b \<le> 1 \<Longrightarrow> config_valid (c\<lparr>midi_routing := MidiRouting_of_u8 b\<rparr>)"
    "b \<le> 1 \<Longrightarrow> config_valid (c\<lparr>profile_mode := ProfileMode_of_u8 b\<rparr>)"
    "b \<le> 100 \<Longrightarrow> config_valid (c\<lparr>sensitivity := b\<rparr>)"
    "b \<le> 100 \<Longrightarrow> config_valid (c\<lparr>response := b\<rparr>)"
    "24 \<le> b \<Longrightarrow> b \<le> 108 \<Longrightarrow> config_valid (c\<lparr>lowest_note := b\<rparr>)"
    "24 \<le> b \<Longrightarrow> b \<le> 108 \<Longrightarrow> config_valid (c\<lparr>highest_note := b\<rparr>)"
    "1 \<le> b \<Longrightarrow> b \<le> 8 \<Longrightarrow> config_valid (c\<lparr>max_polyphony := b\<rparr>)"
    "b \<le> 36 \<Longrightarrow> config_valid (c\<lparr>max_fret := b\<rparr>)"
    "b \<le> 1 \<Longrightarrow> config_valid (c\<lparr>velocity_mode := VelocityMode_of_u8 b\<rparr>)"
    "1 \<le> b \<Longrightarrow> b \<le> 127 \<Longrightarrow> config_valid (c\<lparr>fixed_velocity := b\<rparr>)"
    "1 \<le> b \<Longrightarrow> b \<le> 16 \<Longrightarrow> config_valid (c\<lparr>midi_channel := b\<rparr>)"
  using assms enum_of_u8_listed [unfolded byte_range, of b] by (simp_all add: config_valid_simps)

lemma assign_int_rows:
  assumes "config_valid c" "assign_parameter c pid (f64_of_u8 b) = Some c'" "(pid, lo, hi) \<in> set int_rows"
    "lo \<le> uint b" "uint b \<le> hi"
  shows "config_valid c'"
proof -
  have "\<forall>(pid, lo, hi) \<in> set int_rows. lo \<le> uint b \<longrightarrow> uint b \<le> hi \<longrightarrow>
      (\<exists>c'. assign_parameter c pid (f64_of_u8 b) = Some c' \<and> config_valid c')"
    unfolding int_rows_def list.set ball_simps prod.case byte_range
    by (simp add: assign_rows update_rows [OF assms(1)])
  then show ?thesis using assms(2-5) by fastforce
qed

lemma assign_other_row:
  assumes "find_parameter pid = Some spec" "assign_parameter c pid x = Some c'" "config_valid c"
    and "pid \<in> {0x4D330003, 0x4D330004, 0x4D33000F}"
    and "is_finite x" "ps_minimum spec \<le> x" "x \<le> ps_maximum spec"
  shows "config_valid c'"
  using assms(4)
proof (elim insertE emptyE)
  assume pid: "pid = 0x4D330003"
  then have "spec = a4_spec" using assms(1) find_rows(3) by simp
  moreover have "c' = c\<lparr>a4_hz := x\<rparr>" using assms(2) pid by (simp add: assign_parameter_def)
  ultimately show ?thesis
    using assms(3,5-7) by (simp add: config_valid_simps a4_spec_def)
next
  assume pid: "pid = 0x4D330004"
  then have "spec = trim_spec" using assms(1) find_rows(4) by simp
  moreover have "c' = c\<lparr>input_trim_db := x\<rparr>" using assms(2) pid by (simp add: assign_parameter_def)
  ultimately show ?thesis
    using assms(3,5-7) by (simp add: config_valid_simps trim_spec_def)
next
  assume pid: "pid = 0x4D33000F"
  then have "c' = c\<lparr>dry_passthrough := (1 \<le> x)\<rparr>" using assms(2) by (simp add: assign_parameter_def)
  then show ?thesis using assms(3) by (simp add: config_valid_simps)
qed

lemma apply_parameter_valid:
  assumes valid: "config_valid c"
  shows "config_valid (snd (apply_parameter c pid v))"
proof (cases "snd (apply_parameter c pid v) = c")
  case True
  then show ?thesis using valid by simp
next
  case False
  then obtain spec where s: "find_parameter pid = Some spec" "is_finite v"
    "assign_parameter c pid (canonical_plain spec v) = Some (snd (apply_parameter c pid v))"
    by (rule apply_parameter_cases)
  note range = canonical_plain_range [OF find_parameter_valid [OF s(1)] s(2)]
  have "pid \<in> {0x4D330003, 0x4D330004, 0x4D33000F} \<or> (\<exists>lo hi. (pid, lo, hi) \<in> set int_rows)"
    using assign_parameter_id [OF s(3)] unfolding int_rows_def by (elim insertE emptyE) simp_all
  then show ?thesis
  proof (elim disjE exE)
    assume "pid \<in> {0x4D330003, 0x4D330004, 0x4D33000F}"
    from assign_other_row [OF s(1,3) valid this range] show ?thesis .
  next
    fix lo hi
    assume row: "(pid, lo, hi) \<in> set int_rows"
    then obtain name d cls l where sp: "find_parameter pid = Some (int_spec pid name lo hi d cls True l False)"
      "0 \<le> lo" "lo < hi" "hi < 256" by (rule int_row_spec)
    have "\<bar>lo\<bar> < 2 ^ 20" "\<bar>hi\<bar> < 2 ^ 20" using sp by simp_all
    then obtain b where "canonical_plain spec v = f64_of_u8 b" "lo \<le> uint b \<and> uint b \<le> hi"
      using canonical_int_u8 [OF _ _ sp(3,2,4) s(2), of pid name d cls True l False] sp(1) s(1) by auto
    then show ?thesis using assign_int_rows [OF valid _ row, of b] s(3) by auto
  qed
qed

text \<open>
  C10: Configurations stay valid. Whatever parameter id and plain value the host sends (a NaN
  or an infinity included), applying it to a configuration in range gives one in range.
\<close>

theorem apply_keeps_config_valid:
  "config_valid (fold (\<lambda>(pid, v) c. snd (apply_parameter c pid v)) changes PersistentConfig_default)"
proof -
  have "config_valid (fold (\<lambda>(pid, v) c. snd (apply_parameter c pid v)) changes c)" if "config_valid c" for c
    using that by (induction changes arbitrary: c) (auto simp: apply_parameter_valid)
  then show ?thesis using config_valid_default by blast
qed

subsection \<open>The saved state\<close>

lemma decode_encoded:
  assumes "encode_state c = (True, img)" "config_encodable c"
  shows "decode_state (Some img) = Some (canonical_config c)"
proof -
  note i = encode_state_image [OF assms(1)]
  have "\<forall>j \<in> set [0..<14]. get_u32 img (record_offset j) = persistent_parameter_ids ! j
      \<and> F64 (get_u64 img (record_offset j + 4)) = the (parameter_value c status_ready (persistent_parameter_ids ! j))
      \<and> is_finite (the (parameter_value c status_ready (persistent_parameter_ids ! j)))"
    using i(3,4,5) by fastforce
  from decode_records_apply [OF this]
  show ?thesis
    using i(1,2) apply_config_records [OF assms(2)]
    by (simp add: decode_state_def upt_persistent config_records_def)
qed


lemma encode_records_total:
  "(\<forall>j \<in> set is. \<exists>v. parameter_value c status_ready (persistent_parameter_ids ! j) = Some v
      \<and> is_finite v \<and> encodable_value (persistent_parameter_ids ! j) v) \<Longrightarrow> fst (encode_records c is out)"
  by (induction c "is" out rule: encode_records.induct) (auto simp: Let_def)

lemma upt_persistent_ids:
  assumes "j < 14"
  shows "persistent_parameter_ids ! j = fst (config_records c ! j)
    \<and> parameter_value c status_ready (persistent_parameter_ids ! j) = Some (snd (config_records c ! j))"
proof -
  have all: "\<forall>j \<in> set [0..<14]. persistent_parameter_ids ! j = fst (config_records c ! j)
    \<and> parameter_value c status_ready (persistent_parameter_ids ! j) = Some (snd (config_records c ! j))"
    unfolding upt_14 config_records_eq
    by (simp add: persistent_parameter_ids_def parameter_value_def kPanicParameterId_def)
  have "j \<in> set [0..<14]" using assms by simp
  from bspec [OF all this] show ?thesis .
qed

lemma encodable_row:
  assumes "find_parameter pid = Some (int_spec pid' name lo hi d cls p l r)" "lo \<le> uint b \<and> uint b \<le> hi"
    and "\<bar>lo\<bar> < 2 ^ 20" "\<bar>hi\<bar> < 2 ^ 20"
  shows "encodable_value pid (f64_of_u8 b)"
  using assms f64_of_int_less_iff [of "uint b" lo] f64_of_int_less_iff [of hi "uint b"]
  by (simp add: encodable_value_def)

lemma f64_le_not_less: "(x::f64) \<le> y \<Longrightarrow> \<not> y < x"
  by (simp add: less_eq_f64_def less_f64_def)

lemma config_records_encodable:
  assumes "config_valid c"
  shows "\<forall>(pid, v) \<in> set (config_records c). is_finite v \<and> encodable_value pid v"
proof -
  note row = encodable_row [OF find_rows(1)] encodable_row [OF find_rows(2)] encodable_row [OF find_rows(5)]
    encodable_row [OF find_rows(6)] encodable_row [OF find_rows(7)] encodable_row [OF find_rows(8)]
    encodable_row [OF find_rows(9)] encodable_row [OF find_rows(10)] encodable_row [OF find_rows(11)]
    encodable_row [OF find_rows(12)] encodable_row [OF find_rows(13)]
  have enc: "config_encodable c" using assms by (simp add: config_valid_def)
  have "encodable_value 0x4D330003 (a4_hz c)" "encodable_value 0x4D330004 (input_trim_db c)"
    using assms by (simp_all add: config_valid_def encodable_value_def find_rows f64_le_not_less
        a4_spec_def trim_spec_def)
  moreover have "encodable_value 0x4D33000F (if dry_passthrough c then 1 else 0)"
    by (cases "dry_passthrough c") (simp_all add: encodable_value_def find_rows one_of_int f64_of_int_less_iff
        zero_of_int del: f64_of_int_0)
  moreover have "is_finite 1" by code_simp
  ultimately show ?thesis
    using listed_bytes(1-3) [OF enc] enc unfolding config_records_eq
    by (simp add: row config_encodable_def byte_range)
qed

lemma encode_state_total:
  assumes "config_valid c"
  shows "encode_state c = (True, snd (encode_state c))"
proof -
  have len: "length (config_records c) = 14" by (simp add: config_records_eq)
  have "\<exists>v. parameter_value c status_ready (persistent_parameter_ids ! j) = Some v
      \<and> is_finite v \<and> encodable_value (persistent_parameter_ids ! j) v" if "j < 14" for j
    using config_records_encodable [OF assms] upt_persistent_ids [OF that, of c] len that
      nth_mem [of j "config_records c"] by (auto simp: case_prod_unfold)
  then have "fst (encode_records c [0..<14] state_header)" by (intro encode_records_total) auto
  then have "fst (encode_state c)" by (simp add: encode_state_def upt_persistent case_prod_unfold Let_def)
  then show ?thesis by (metis (full_types) prod.collapse)
qed


text \<open>
  Every configuration in range can be saved: the encoder accepts it and fills the image.
\<close>

theorem encode_valid_config:
  assumes "config_valid c"
  shows "fst (encode_state c) \<and> length (snd (encode_state c)) = kStateSize"
  using encode_state_image(1) [OF encode_state_total [OF assms]] encode_state_total [OF assms]
  by (metis fst_conv)

theorem encode_valid_config_witness: "length (snd (encode_state PersistentConfig_default)) = 184"
  using encode_valid_config [OF config_valid_default] by (simp add: kStateSize_def)

lemma apply_records_valid: "config_valid c \<Longrightarrow> decode_records bytes is c = Some c' \<Longrightarrow> config_valid c'"
proof (induction bytes "is" c rule: decode_records.induct)
  case (1 bytes c)
  then show ?case by simp
next
  case (2 bytes i rest c)
  let ?p = "persistent_parameter_ids ! i" and ?v = "F64 (get_u64 bytes (record_offset i + 4))"
  obtain r c1 where a: "apply_parameter c ?p ?v = (r, c1)" by (metis surj_pair)
  have "config_valid c1" using apply_parameter_valid [OF "2.prems"(1), of ?p ?v] a by simp
  then show ?case using "2.IH" [OF refl refl _ refl _ a [symmetric] refl] "2.prems"(2) a
    by (simp add: Let_def split: if_splits)
qed

lemma decoded_in_range: "decode_state p = Some c \<Longrightarrow> config_valid c"
  using apply_records_valid [OF config_valid_default]
  by (auto simp: decode_state_def split: option.splits if_splits)

text \<open>
  Loading never yields an out-of-range configuration, whatever the bytes: a state that
  decodes, decodes to a configuration with every field in the range of its parameter.
\<close>

theorem decode_state_valid:
  assumes "decode_state p = Some c"
  shows "config_valid c"
  by (rule decoded_in_range [OF assms])

theorem decode_state_valid_witness: "config_valid (canonical_config PersistentConfig_default)"
proof (rule decode_state_valid)
  have "enums_listed PersistentConfig_default" by (simp add: enums_listed_def PersistentConfig_default_def)
  then have c: "config_encodable PersistentConfig_default"
    using encoded_config [OF encode_state_total [OF config_valid_default]] by simp
  show "decode_state (Some (snd (encode_state PersistentConfig_default))) = Some (canonical_config PersistentConfig_default)"
    by (rule decode_encoded [OF encode_state_total [OF config_valid_default] c])
qed

text \<open>
  C14: A saved state with one corrupted payload byte is refused: flip any byte after the
  header of a state that decodes, to any other value, and it no longer decodes.
\<close>

theorem corrupted_state_refused:
  assumes "decode_state (Some bytes) = Some c" "kHeaderSize \<le> i" "i < kStateSize" "b \<noteq> bytes ! i"
  shows "decode_state (Some (bytes[i := b])) = None"
proof -
  have len: "length bytes = kStateSize" and h: "valid_header bytes"
    using assms(1) by (auto simp: decode_state_def split: if_splits)
  let ?pay = "\<lambda>xs. take kPayloadSize (drop kHeaderSize xs)"
  have pay: "?pay (bytes[i := b]) = (?pay bytes)[i - kHeaderSize := b]"
    using assms(2,3) len by (simp add: drop_update_swap take_update_swap)
  have "get_u32 (bytes[i := b]) 12 = get_u32 bytes 12"
    using assms(2) by (intro codec_32.get_cong) (simp add: kHeaderSize_def)
  moreover have "crc32 (?pay (bytes[i := b])) \<noteq> crc32 (?pay bytes)"
    unfolding pay using assms(2-4) len
    by (intro crc32_one_byte) (simp_all add: state_sizes)
  ultimately have "\<not> valid_header (bytes[i := b])" using h by (auto simp: valid_header_def)
  then show ?thesis by (simp add: decode_state_def)
qed

theorem corrupted_state_refused_witness:
  "\<exists>b. decode_state (Some ((snd (encode_state PersistentConfig_default))[20 := b])) = None"
proof -
  have "enums_listed PersistentConfig_default" by (simp add: enums_listed_def PersistentConfig_default_def)
  then have c: "config_encodable PersistentConfig_default"
    using encoded_config [OF encode_state_total [OF config_valid_default]] by simp
  note d = decode_encoded [OF encode_state_total [OF config_valid_default] c]
  let ?x = "snd (encode_state PersistentConfig_default) ! 20"
  have "?x + 1 \<noteq> ?x" by simp
  from corrupted_state_refused [OF d _ _ this] show ?thesis
    by (intro exI) (simp add: kHeaderSize_def kStateSize_def)
qed

end
