(* ===== verification/Atomic_Programs.thy ===== *)
theory Atomic_Programs
  imports M3_Prelude
begin

text \<open>
  Programs of atomic actions on a shared memory, for the parts of the plugin that two threads run:
  \<open>Act f\<close> is one atomic operation (a load, a store, a compare-and-swap, or an access to memory the
  thread owns) and what the thread does next. \<open>run\<close> executes a program alone; \<open>par_step\<close> interleaves
  two programs. Memory is sequentially consistent. The rely-guarantee predicate \<open>rg\<close> says that a
  program keeps its guarantee and ends in its postcondition, whatever the other thread does within the
  rely, and the locale \<open>two_threads\<close> gives what both guarantees are worth when the threads interleave.
\<close>

datatype ('m, 'a) prog = Ret 'a | Act "'m \<Rightarrow> 'm \<times> ('m, 'a) prog"

primrec bind_prog :: "('m, 'a) prog \<Rightarrow> ('a \<Rightarrow> ('m, 'b) prog) \<Rightarrow> ('m, 'b) prog" where
  "bind_prog (Ret a) k = k a"
| "bind_prog (Act f) k = Act (\<lambda>m. map_prod id (\<lambda>p. bind_prog p k) (f m))"

definition load :: "('m \<Rightarrow> 'v) \<Rightarrow> ('v \<Rightarrow> ('m, 'a) prog) \<Rightarrow> ('m, 'a) prog" where
  "load g k = Act (\<lambda>m. (m, k (g m)))"

definition modify :: "('m \<Rightarrow> 'm) \<Rightarrow> ('m, 'a) prog \<Rightarrow> ('m, 'a) prog" where
  "modify f k = Act (\<lambda>m. (f m, k))"

text \<open>A compare-and-swap: the update happens, and the answer is true, when the test holds.\<close>

definition compare_exchange ::
  "('m \<Rightarrow> bool) \<Rightarrow> ('m \<Rightarrow> 'm) \<Rightarrow> (bool \<Rightarrow> ('m, 'a) prog) \<Rightarrow> ('m, 'a) prog" where
  "compare_exchange test f k = Act (\<lambda>m. if test m then (f m, k True) else (m, k False))"

lemmas action_defs = load_def modify_def compare_exchange_def

subsection \<open>Execution\<close>

primrec run :: "('m, 'a) prog \<Rightarrow> 'm \<Rightarrow> 'm \<times> 'a" where
  "run (Ret a) = (\<lambda>m. (m, a))"
| "run (Act f) = (\<lambda>m. (case map_prod id run (f m) of (m', r) \<Rightarrow> r m'))"

lemma run_actions [simp]:
  "run (load g k) m = run (k (g m)) m"
  "run (modify f p) m = run p (f m)"
  "run (compare_exchange c f k') m = (if c m then run (k' True) (f m) else run (k' False) m)"
  by (simp_all add: action_defs)

lemma run_bind [simp]: "run (bind_prog p k) m = (case run p m of (m', a) \<Rightarrow> run (k a) m')"
proof (induction p arbitrary: m)
  case (Act f)
  obtain m' p' where f: "f m = (m', p')" by (cases "f m")
  then have "(m', p') \<in> range f" by (metis rangeI)
  then have "run (bind_prog p' k) m' = (case run p' m' of (m', a) \<Rightarrow> run (k a) m')"
    using Act.IH [of "(m', p')" p'] by (simp add: snds.simps)
  with f show ?case by simp
qed simp

text \<open>One step of a program, and of two programs that share the memory.\<close>

fun prog_step :: "'m \<Rightarrow> ('m, 'a) prog \<Rightarrow> ('m \<times> ('m, 'a) prog) option" where
  "prog_step m (Ret a) = None"
| "prog_step m (Act f) = Some (f m)"

inductive par_step ::
  "'m \<times> ('m, 'a) prog \<times> ('m, 'b) prog \<Rightarrow> 'm \<times> ('m, 'a) prog \<times> ('m, 'b) prog \<Rightarrow> bool" where
  left: "prog_step m p = Some (m', p') \<Longrightarrow> par_step (m, p, q) (m', p', q)"
| right: "prog_step m q = Some (m', q') \<Longrightarrow> par_step (m, p, q) (m', p, q')"

abbreviation par_steps ::
  "'m \<times> ('m, 'a) prog \<times> ('m, 'b) prog \<Rightarrow> 'm \<times> ('m, 'a) prog \<times> ('m, 'b) prog \<Rightarrow> bool" where
  "par_steps \<equiv> par_step\<^sup>*\<^sup>*"

lemma prog_step_Some: "prog_step m p = Some (m', p') \<longleftrightarrow> (\<exists>f. p = Act f \<and> f m = (m', p'))"
  by (cases p) auto

lemmas steps_induct =
  rtranclp_induct [of _ "(m0, p0, q0)" "(m1, p1, q1)", split_rule, consumes 1, case_names refl step]

text \<open>The interleaving that a schedule picks: true for the left program; a finished program passes.\<close>

fun par_run ::
  "bool list \<Rightarrow> 'm \<times> ('m, 'a) prog \<times> ('m, 'b) prog \<Rightarrow> 'm \<times> ('m, 'a) prog \<times> ('m, 'b) prog" where
  "par_run [] c = c"
| "par_run (True # bs) (m, p, q) =
     (case prog_step m p of Some (m', p') \<Rightarrow> par_run bs (m', p', q) | None \<Rightarrow> par_run bs (m, p, q))"
| "par_run (False # bs) (m, p, q) =
     (case prog_step m q of Some (m', q') \<Rightarrow> par_run bs (m', p, q') | None \<Rightarrow> par_run bs (m, p, q))"

lemma par_run_steps: "par_steps c (par_run bs c)"
  by (induction bs c rule: par_run.induct)
    (auto split: option.splits intro: converse_rtranclp_into_rtranclp par_step.intros)

subsection \<open>Rely and guarantee\<close>

primrec rg ::
  "('m \<Rightarrow> 'm \<Rightarrow> bool) \<Rightarrow> ('m \<Rightarrow> 'm \<Rightarrow> bool) \<Rightarrow> ('a \<Rightarrow> 'm \<Rightarrow> bool) \<Rightarrow> ('m, 'a) prog \<Rightarrow> 'm \<Rightarrow> bool" where
  "rg R G Q (Ret a) = (\<lambda>m. \<forall>m'. R m m' \<longrightarrow> Q a m')"
| "rg R G Q (Act f) =
     (\<lambda>m. \<forall>m'. R m m' \<longrightarrow> (case map_prod id (rg R G Q) (f m') of (m'', r) \<Rightarrow> G m' m'' \<and> r m''))"

lemma rg_load: "rg R G Q (load g k) m \<longleftrightarrow> (\<forall>m'. R m m' \<longrightarrow> G m' m' \<and> rg R G Q (k (g m')) m')"
  by (simp add: load_def)

lemma rg_modify: "rg R G Q (modify f p) m \<longleftrightarrow> (\<forall>m'. R m m' \<longrightarrow> G m' (f m') \<and> rg R G Q p (f m'))"
  by (simp add: modify_def)

lemma rg_compare_exchange:
  "rg R G Q (compare_exchange c f k) m \<longleftrightarrow>
     (\<forall>m'. R m m' \<longrightarrow> (if c m' then G m' (f m') \<and> rg R G Q (k True) (f m')
                       else G m' m' \<and> rg R G Q (k False) m'))"
  by (auto simp: compare_exchange_def)

lemmas rg_actions = rg_load rg_modify rg_compare_exchange

lemma rg_Act: "rg R G Q (Act f) m \<longleftrightarrow> (\<forall>m'. R m m' \<longrightarrow> G m' (fst (f m')) \<and> rg R G Q (snd (f m')) (fst (f m')))"
  by (simp add: case_prod_unfold)

declare rg.simps(2) [simp del]

lemma rg_now:
  assumes "rg R G Q (Act f) m" "reflp R" "f m = (m', p')"
  shows "G m m' \<and> rg R G Q p' m'"
proof -
  have "R m m" using assms(2) by (rule reflpD)
  with assms(1,3) show ?thesis unfolding rg_Act by (metis fst_conv snd_conv)
qed

lemma rg_stable:
  assumes "transp R" "rg R G Q p m" "R m m'"
  shows "rg R G Q p m'"
  using assms by (cases p) (auto simp: rg_Act dest: transpD)

lemma rg_weaken:
  assumes "rg R G Q p m" "\<And>a m. Q a m \<Longrightarrow> Q' a m"
  shows "rg R G Q' p m"
  using assms(1)
proof (induction p arbitrary: m)
  case (Act f)
  have "rg R G Q' (snd (f m')) (fst (f m'))" if "R m m'" for m'
    using that Act.prems by (intro Act.IH [of "f m'"]) (auto simp: rg_Act snds.simps)
  with Act.prems show ?case by (auto simp: rg_Act)
qed (use assms(2) in auto)

lemma rg_bind:
  assumes "rg R G Q p m" "\<And>a m. Q a m \<Longrightarrow> rg R G Q' (k a) m" "reflp R"
  shows "rg R G Q' (bind_prog p k) m"
  using assms(1)
proof (induction p arbitrary: m)
  case (Ret a)
  then show ?case using assms(2,3) by (auto dest: reflpD)
next
  case (Act f)
  have "rg R G Q' (bind_prog (snd (f m')) k) (fst (f m'))" if "R m m'" for m'
    using that Act.prems by (intro Act.IH [of "f m'"]) (auto simp: rg_Act snds.simps)
  with Act.prems show ?case by (auto simp: rg_Act)
qed

text \<open>Two threads, each within the other's rely.\<close>

locale two_threads =
  fixes R1 G1 R2 G2 :: "'m \<Rightarrow> 'm \<Rightarrow> bool"
  assumes refl: "reflp R1" "reflp R2"
    and trans: "transp R1" "transp R2"
    and left_within: "\<And>m m'. G1 m m' \<Longrightarrow> R2 m m'"
    and right_within: "\<And>m m'. G2 m m' \<Longrightarrow> R1 m m'"
begin

text \<open>What a thread was proved to do holds from wherever the interleaving is.\<close>

lemma step_keeps:
  assumes "par_step (m, p, q) (m', p', q')" "rg R1 G1 Q1 p m" "rg R2 G2 Q2 q m"
  shows "rg R1 G1 Q1 p' m' \<and> rg R2 G2 Q2 q' m' \<and> (G1 m m' \<or> G2 m m')"
  using assms
proof cases
  case left
  then obtain f where f: "p = Act f" "f m = (m', p')" "q' = q" by (auto simp: prog_step_Some)
  then have "G1 m m'" "rg R1 G1 Q1 p' m'" using rg_now [of R1 G1 Q1 f m m' p'] assms(2) refl(1) by simp_all
  then have "rg R2 G2 Q2 q m'" by (intro rg_stable [OF trans(2) assms(3) left_within])
  with f \<open>G1 m m'\<close> \<open>rg R1 G1 Q1 p' m'\<close> show ?thesis by simp
next
  case right
  then obtain f where f: "q = Act f" "f m = (m', q')" "p' = p" by (auto simp: prog_step_Some)
  then have "G2 m m'" "rg R2 G2 Q2 q' m'" using rg_now [of R2 G2 Q2 f m m' q'] assms(3) refl(2) by simp_all
  then have "rg R1 G1 Q1 p m'" by (intro rg_stable [OF trans(1) assms(2) right_within])
  with f \<open>G2 m m'\<close> \<open>rg R2 G2 Q2 q' m'\<close> show ?thesis by simp
qed

lemma steps_keep:
  assumes "par_steps (m, p, q) (m', p', q')" "rg R1 G1 Q1 p m" "rg R2 G2 Q2 q m"
  shows "rg R1 G1 Q1 p' m' \<and> rg R2 G2 Q2 q' m'"
  using assms
proof (induction rule: steps_induct)
  case (step m1 p1 q1 m2 p2 q2)
  then show ?case using step_keeps by blast
qed simp

lemma final_left:
  assumes "par_steps (m, p, q) (m', Ret a, q')" "rg R1 G1 Q1 p m" "rg R2 G2 Q2 q m"
  shows "Q1 a m'"
  using steps_keep [OF assms] refl by (auto dest: reflpD)

lemma final_right:
  assumes "par_steps (m, p, q) (m', p', Ret b)" "rg R1 G1 Q1 p m" "rg R2 G2 Q2 q m"
  shows "Q2 b m'"
  using steps_keep [OF assms] refl by (auto dest: reflpD)

text \<open>An invariant that both guarantees keep holds in every interleaving.\<close>

lemma steps_invariant:
  assumes "par_steps (m, p, q) (m', p', q')" "rg R1 G1 Q1 p m" "rg R2 G2 Q2 q m"
    and "I m" "\<And>m m'. I m \<Longrightarrow> G1 m m' \<or> G2 m m' \<Longrightarrow> I m'"
  shows "I m'"
  using assms(1-4)
proof (induction rule: steps_induct)
  case (step m1 p1 q1 m2 p2 q2)
  then show ?case using steps_keep step_keeps assms(5) by metis
qed simp

end

end
