(* ===== verification/Config_Exchange.thy ===== *)
theory Config_Exchange
  imports Parameter_Contract Atomic_Programs
begin

text \<open>
  Hand-over of a prepared configuration from the main thread to the audio thread
  (\<open>src/native/plugin/prepared_config_exchange.cpp\<close>, class \<open>PreparedConfigExchange\<close>): three slots,
  each with an atomic state and generation. \<open>publish\<close> is the main thread's operation; \<open>claim_latest\<close>,
  \<open>commit\<close>, \<open>cancel\<close> and \<open>reclaim_stale_ready\<close> are the audio thread's. Each is a program of atomic actions
  on the shared record; the copy of a prepared configuration into a slot is one store per field.
  \<open>initialize\<close> and \<open>reset\<close> run while no other thread does and are plain functions.
\<close>

subsection \<open>Generations\<close>

definition generation_newer :: "u64 \<Rightarrow> u64 \<Rightarrow> bool" where
  "generation_newer candidate reference =
     (let distance = candidate - reference in distance \<noteq> 0 \<and> distance < push_bit 63 1)"

subsection \<open>State\<close>

record PreparedConfig =
  pc_requested :: PersistentConfig
  pc_sample_rate :: f64
  pc_sample_period :: f64
  pc_decision_period :: f64

definition PreparedConfig_default :: PreparedConfig where
  "PreparedConfig_default =
     \<lparr>pc_requested = PersistentConfig_default, pc_sample_rate = 0, pc_sample_period = 0,
      pc_decision_period = 0\<rparr>"

datatype PreparedSlotState = slot_free | slot_writing | slot_ready | slot_audio_claimed | slot_active

record Slot =
  sl_prepared :: PreparedConfig
  sl_generation :: u64
  sl_state :: PreparedSlotState

definition kSlotCount :: nat where "kSlotCount = 3"

definition Slot_default :: Slot where
  "Slot_default = \<lparr>sl_prepared = PreparedConfig_default, sl_generation = 0, sl_state = slot_free\<rparr>"

record PreparedConfigExchange =
  slots :: "Slot list"
  active_index :: nat
  active_generation :: u64
  publisher_generation :: u64
  initialized :: bool

definition PreparedConfigExchange_default :: PreparedConfigExchange where
  "PreparedConfigExchange_default =
     \<lparr>slots = replicate kSlotCount Slot_default, active_index = 0, active_generation = 0,
      publisher_generation = 0, initialized = False\<rparr>"

text \<open>\<open>Claim::config\<close> points into a slot or is null.\<close>

record Claim =
  cl_config :: "nat option"
  cl_generation :: u64
  cl_index :: nat

definition invalidate :: Claim where
  "invalidate = \<lparr>cl_config = None, cl_generation = 0, cl_index = kSlotCount\<rparr>"

definition update_slot :: "nat \<Rightarrow> (Slot \<Rightarrow> Slot) \<Rightarrow> PreparedConfigExchange \<Rightarrow> PreparedConfigExchange" where
  "update_slot i f m = m\<lparr>slots := (slots m)[i := f (slots m ! i)]\<rparr>"

definition set_state :: "nat \<Rightarrow> PreparedSlotState \<Rightarrow> PreparedConfigExchange \<Rightarrow> PreparedConfigExchange" where
  "set_state i st = update_slot i (\<lambda>s. s\<lparr>sl_state := st\<rparr>)"

definition exchange_reset :: "PreparedConfigExchange \<Rightarrow> PreparedConfigExchange" where
  "exchange_reset m =
     m\<lparr>slots := map (\<lambda>s. s\<lparr>sl_state := slot_free, sl_generation := 0\<rparr>) (slots m), active_index := 0,
       active_generation := 0, publisher_generation := 0, initialized := False\<rparr>"

definition exchange_initialize ::
  "PreparedConfig \<Rightarrow> u64 \<Rightarrow> PreparedConfigExchange \<Rightarrow> bool \<times> PreparedConfigExchange" where
  "exchange_initialize initial generation m =
     (True,
      (update_slot 0 (\<lambda>s. \<lparr>sl_prepared = initial, sl_generation = generation, sl_state = slot_active\<rparr>)
         (exchange_reset m))
      \<lparr>active_index := 0, active_generation := generation, publisher_generation := generation,
       initialized := True\<rparr>)"

definition exchange_active :: "PreparedConfigExchange \<Rightarrow> PreparedConfig" where
  "exchange_active m = sl_prepared (slots m ! active_index m)"

subsection \<open>Actions\<close>

type_synonym 'a exchange_prog = "(PreparedConfigExchange, 'a) prog"

definition load_state :: "nat \<Rightarrow> (PreparedSlotState \<Rightarrow> 'a exchange_prog) \<Rightarrow> 'a exchange_prog" where
  "load_state i = load (\<lambda>m. sl_state (slots m ! i))"

definition load_generation :: "nat \<Rightarrow> (u64 \<Rightarrow> 'a exchange_prog) \<Rightarrow> 'a exchange_prog" where
  "load_generation i = load (\<lambda>m. sl_generation (slots m ! i))"

definition store_state :: "nat \<Rightarrow> PreparedSlotState \<Rightarrow> 'a exchange_prog \<Rightarrow> 'a exchange_prog" where
  "store_state i st = modify (set_state i st)"

definition claim_state ::
  "nat \<Rightarrow> PreparedSlotState \<Rightarrow> PreparedSlotState \<Rightarrow> (bool \<Rightarrow> 'a exchange_prog) \<Rightarrow> 'a exchange_prog" where
  "claim_state i expected desired =
     compare_exchange (\<lambda>m. sl_state (slots m ! i) = expected) (set_state i desired)"

subsection \<open>The main thread\<close>

text \<open>The first free slot, or \<open>kSlotCount\<close>.\<close>

fun find_free :: "nat list \<Rightarrow> (nat \<Rightarrow> 'a exchange_prog) \<Rightarrow> 'a exchange_prog" where
  "find_free [] k = k kSlotCount"
| "find_free (i # is) k = load_state i (\<lambda>st. if st = slot_free then k i else find_free is k)"

text \<open>The ready slot of the oldest generation, and whether there is one.\<close>

fun find_oldest ::
  "nat list \<Rightarrow> nat \<Rightarrow> u64 \<Rightarrow> bool \<Rightarrow> (nat \<Rightarrow> bool \<Rightarrow> 'a exchange_prog) \<Rightarrow> 'a exchange_prog" where
  "find_oldest [] selected oldest found k = k selected found"
| "find_oldest (i # is) selected oldest found k =
     load_state i (\<lambda>st.
       if st \<noteq> slot_ready then find_oldest is selected oldest found k
       else load_generation i (\<lambda>g.
         if \<not> found \<or> generation_newer oldest g then find_oldest is i g True k
         else find_oldest is selected oldest found k))"

definition store_prepared :: "nat \<Rightarrow> PreparedConfig \<Rightarrow> 'a exchange_prog \<Rightarrow> 'a exchange_prog" where
  "store_prepared i c k =
     modify (update_slot i (\<lambda>s. s\<lparr>sl_prepared := (sl_prepared s)\<lparr>pc_requested := pc_requested c\<rparr>\<rparr>))
    (modify (update_slot i (\<lambda>s. s\<lparr>sl_prepared := (sl_prepared s)\<lparr>pc_sample_rate := pc_sample_rate c\<rparr>\<rparr>))
    (modify (update_slot i (\<lambda>s. s\<lparr>sl_prepared := (sl_prepared s)\<lparr>pc_sample_period := pc_sample_period c\<rparr>\<rparr>))
    (modify (update_slot i (\<lambda>s. s\<lparr>sl_prepared := (sl_prepared s)\<lparr>pc_decision_period := pc_decision_period c\<rparr>\<rparr>))
     k)))"

definition write_slot :: "nat \<Rightarrow> PreparedConfig \<Rightarrow> u64 \<Rightarrow> bool exchange_prog" where
  "write_slot i c generation =
     store_prepared i c
    (modify (update_slot i (\<lambda>s. s\<lparr>sl_generation := generation\<rparr>))
    (store_state i slot_ready
    (modify (\<lambda>m. m\<lparr>publisher_generation := generation\<rparr>) (Ret True))))"

text \<open>The attempts of \<open>publish\<close>.\<close>

fun publish_attempts :: "nat \<Rightarrow> PreparedConfig \<Rightarrow> u64 \<Rightarrow> bool exchange_prog" where
  "publish_attempts 0 c generation = Ret False"
| "publish_attempts (Suc n) c generation =
     find_free [0..<kSlotCount] (\<lambda>selected.
       if selected \<noteq> kSlotCount
       then claim_state selected slot_free slot_writing (\<lambda>ok.
              if ok then write_slot selected c generation else publish_attempts n c generation)
       else find_oldest [0..<kSlotCount] kSlotCount 0 False (\<lambda>selected found.
              if \<not> found then Ret False
              else claim_state selected slot_ready slot_writing (\<lambda>ok.
                     if ok then write_slot selected c generation else publish_attempts n c generation)))"

definition publish :: "PreparedConfig \<Rightarrow> u64 \<Rightarrow> bool exchange_prog" where
  "publish prepared generation =
     load (\<lambda>m. initialized m \<and> generation_newer generation (publisher_generation m)) (\<lambda>go.
       if \<not> go then Ret False else publish_attempts kSlotCount prepared generation)"

subsection \<open>The audio thread\<close>

fun find_newest ::
  "nat list \<Rightarrow> nat \<Rightarrow> u64 \<Rightarrow> (nat \<Rightarrow> 'a exchange_prog) \<Rightarrow> 'a exchange_prog" where
  "find_newest [] selected newest k = k selected"
| "find_newest (i # is) selected newest k =
     load_state i (\<lambda>st.
       if st \<noteq> slot_ready then find_newest is selected newest k
       else load_generation i (\<lambda>g.
         if generation_newer g newest then find_newest is i g k
         else find_newest is selected newest k))"

text \<open>Whether some ready slot is newer than the claimed generation.\<close>

fun newer_ready :: "nat list \<Rightarrow> u64 \<Rightarrow> (bool \<Rightarrow> 'a exchange_prog) \<Rightarrow> 'a exchange_prog" where
  "newer_ready [] claimed k = k False"
| "newer_ready (i # is) claimed k =
     load_state i (\<lambda>st.
       if st \<noteq> slot_ready then newer_ready is claimed k
       else load_generation i (\<lambda>g.
         if generation_newer g claimed then k True else newer_ready is claimed k))"

fun reclaim_slots :: "nat list \<Rightarrow> 'a exchange_prog \<Rightarrow> 'a exchange_prog" where
  "reclaim_slots [] k = k"
| "reclaim_slots (i # is) k =
     load_state i (\<lambda>st.
       if st \<noteq> slot_ready then reclaim_slots is k
       else claim_state i slot_ready slot_audio_claimed (\<lambda>ok.
         if \<not> ok then reclaim_slots is k
         else load_generation i (\<lambda>g. load active_generation (\<lambda>a.
           store_state i (if generation_newer g a then slot_ready else slot_free)
             (reclaim_slots is k)))))"

definition reclaim_stale_ready :: "'a exchange_prog \<Rightarrow> 'a exchange_prog" where
  "reclaim_stale_ready = reclaim_slots [0..<kSlotCount]"

text \<open>The attempts of \<open>claim_latest\<close>.\<close>

fun claim_attempts :: "nat \<Rightarrow> (bool \<times> Claim) exchange_prog" where
  "claim_attempts 0 = Ret (False, invalidate)"
| "claim_attempts (Suc n) =
     load active_generation (\<lambda>a.
     find_newest [0..<kSlotCount] kSlotCount a (\<lambda>selected.
       if selected = kSlotCount then reclaim_stale_ready (Ret (False, invalidate))
       else claim_state selected slot_ready slot_audio_claimed (\<lambda>ok.
         if \<not> ok then claim_attempts n
         else load_generation selected (\<lambda>g. load active_generation (\<lambda>a.
           if \<not> generation_newer g a then store_state selected slot_free (claim_attempts n)
           else newer_ready [0..<kSlotCount] g (\<lambda>newer.
             if newer then store_state selected slot_ready (claim_attempts n)
             else Ret (True, \<lparr>cl_config = Some selected, cl_generation = g, cl_index = selected\<rparr>)))))))"

definition claim_latest :: "(bool \<times> Claim) exchange_prog" where
  "claim_latest = load initialized (\<lambda>ini. if \<not> ini then Ret (False, invalidate) else claim_attempts kSlotCount)"

definition commit :: "Claim \<Rightarrow> (bool \<times> Claim) exchange_prog" where
  "commit c =
     load initialized (\<lambda>ini.
       if \<not> ini \<or> kSlotCount \<le> cl_index c \<or> cl_config c = None then Ret (False, c)
       else load_state (cl_index c) (\<lambda>st.
         if st \<noteq> slot_audio_claimed then Ret (False, c)
         else load_generation (cl_index c) (\<lambda>g. load active_generation (\<lambda>a.
           if g \<noteq> cl_generation c \<or> \<not> generation_newer (cl_generation c) a then Ret (False, c)
           else load active_index (\<lambda>i.
                store_state i slot_free
               (store_state (cl_index c) slot_active
               (modify (\<lambda>m. m\<lparr>active_index := cl_index c\<rparr>)
               (modify (\<lambda>m. m\<lparr>active_generation := cl_generation c\<rparr>)
               (reclaim_stale_ready (Ret (True, invalidate)))))))))))"

definition cancel :: "Claim \<Rightarrow> (bool \<times> Claim) exchange_prog" where
  "cancel c =
     load initialized (\<lambda>ini.
       if \<not> ini \<or> kSlotCount \<le> cl_index c \<or> cl_config c = None then Ret (False, c)
       else load_state (cl_index c) (\<lambda>st.
         if st \<noteq> slot_audio_claimed then Ret (False, c)
         else load_generation (cl_index c) (\<lambda>g.
           if g \<noteq> cl_generation c then Ret (False, c)
           else store_state (cl_index c) slot_ready (Ret (True, invalidate)))))"

end
