(* ===== verification/Config_Exchange_Laws.thy ===== *)
theory Config_Exchange_Laws
  imports Config_Exchange
begin

text \<open>
  What the two threads of the configuration exchange (\<open>Config_Exchange\<close>) guarantee each other. The main
  thread leaves alone every slot the audio thread has claimed or made active; the audio thread leaves
  alone the slot that is being written, and never writes a configuration. Both keep every filled slot
  tagged with the generation its configuration was published with. The interpretation \<open>exchange\<close> of
  \<open>two_threads\<close> turns these into facts on all interleavings.
\<close>

definition audio_owned :: "Slot \<Rightarrow> bool" where
  "audio_owned s \<longleftrightarrow> sl_state s = slot_audio_claimed \<or> sl_state s = slot_active"

definition filled :: "Slot \<Rightarrow> bool" where
  "filled s \<longleftrightarrow> sl_state s \<noteq> slot_free \<and> sl_state s \<noteq> slot_writing"

definition tagged :: "(PreparedConfig \<times> u64) set \<Rightarrow> PreparedConfigExchange \<Rightarrow> bool" where
  "tagged Pub m \<longleftrightarrow> (\<forall>s \<in> set (slots m). filled s \<longrightarrow> (sl_prepared s, sl_generation s) \<in> Pub)"

definition slot_main :: "Slot \<Rightarrow> Slot \<Rightarrow> bool" where
  "slot_main s s' \<longleftrightarrow> (audio_owned s \<or> audio_owned s' \<longrightarrow> s' = s)"

definition slot_audio :: "Slot \<Rightarrow> Slot \<Rightarrow> bool" where
  "slot_audio s s' \<longleftrightarrow>
     (sl_state s = slot_writing \<or> sl_state s' = slot_writing \<longrightarrow> s' = s)
     \<and> sl_prepared s' = sl_prepared s \<and> sl_generation s' = sl_generation s"

text \<open>A relation between the slots of the same index.\<close>

definition slotwise ::
  "(Slot \<Rightarrow> Slot \<Rightarrow> bool) \<Rightarrow> PreparedConfigExchange \<Rightarrow> PreparedConfigExchange \<Rightarrow> bool" where
  "slotwise R m m' \<longleftrightarrow>
     length (slots m') = length (slots m) \<and> (\<forall>i < length (slots m). R (slots m ! i) (slots m' ! i))"

lemma slotwise_refl: "(\<And>s. R s s) \<Longrightarrow> slotwise R m m"
  by (simp add: slotwise_def)

lemma slotwise_trans:
  assumes "\<And>s t u. R s t \<Longrightarrow> R t u \<Longrightarrow> R s u" "slotwise R m m'" "slotwise R m' m''"
  shows "slotwise R m m''"
  unfolding slotwise_def
proof (intro conjI allI impI)
  show "length (slots m'') = length (slots m)" using assms(2,3) by (simp add: slotwise_def)
  fix i assume "i < length (slots m)"
  with assms(2,3) have "R (slots m ! i) (slots m' ! i)" "R (slots m' ! i) (slots m'' ! i)"
    by (simp_all add: slotwise_def)
  then show "R (slots m ! i) (slots m'' ! i)" by (rule assms(1))
qed

definition main_guar ::
  "(PreparedConfig \<times> u64) set \<Rightarrow> PreparedConfigExchange \<Rightarrow> PreparedConfigExchange \<Rightarrow> bool" where
  "main_guar Pub m m' \<longleftrightarrow>
     slotwise slot_main m m' \<and> active_index m' = active_index m
     \<and> active_generation m' = active_generation m \<and> initialized m' = initialized m
     \<and> (tagged Pub m \<longrightarrow> tagged Pub m')"

definition audio_guar ::
  "(PreparedConfig \<times> u64) set \<Rightarrow> PreparedConfigExchange \<Rightarrow> PreparedConfigExchange \<Rightarrow> bool" where
  "audio_guar Pub m m' \<longleftrightarrow>
     slotwise slot_audio m m' \<and> publisher_generation m' = publisher_generation m
     \<and> initialized m' = initialized m \<and> (tagged Pub m \<longrightarrow> tagged Pub m')"

lemma slot_main_order: "slot_main s s" "slot_main s t \<Longrightarrow> slot_main t u \<Longrightarrow> slot_main s u"
  unfolding slot_main_def by metis+

lemma slot_audio_order: "slot_audio s s" "slot_audio s t \<Longrightarrow> slot_audio t u \<Longrightarrow> slot_audio s u"
  unfolding slot_audio_def by metis+

lemma main_guar_order: "reflp (main_guar Pub)" "transp (main_guar Pub)"
proof -
  show "reflp (main_guar Pub)"
    by (rule reflpI) (simp add: main_guar_def slotwise_refl slot_main_order(1))
  show "transp (main_guar Pub)"
  proof (rule transpI)
    fix x y z assume steps: "main_guar Pub x y" "main_guar Pub y z"
    then have "slotwise slot_main x z"
      using slotwise_trans [of slot_main x y z, OF slot_main_order(2)] by (simp add: main_guar_def)
    with steps show "main_guar Pub x z" by (simp add: main_guar_def)
  qed
qed

lemma audio_guar_order: "reflp (audio_guar Pub)" "transp (audio_guar Pub)"
proof -
  show "reflp (audio_guar Pub)"
    by (rule reflpI) (simp add: audio_guar_def slotwise_refl slot_audio_order(1))
  show "transp (audio_guar Pub)"
  proof (rule transpI)
    fix x y z assume steps: "audio_guar Pub x y" "audio_guar Pub y z"
    then have "slotwise slot_audio x z"
      using slotwise_trans [of slot_audio x y z, OF slot_audio_order(2)] by (simp add: audio_guar_def)
    with steps show "audio_guar Pub x z" by (simp add: audio_guar_def)
  qed
qed

interpretation exchange:
  two_threads "audio_guar Pub" "main_guar Pub" "main_guar Pub" "audio_guar Pub"
  by unfold_locales (rule audio_guar_order main_guar_order | assumption)+

subsection \<open>Facts on slots and updates\<close>

lemma slots_update_slot [simp]: "slots (update_slot i f m) = (slots m)[i := f (slots m ! i)]"
  by (simp add: update_slot_def)

lemma update_slot_frame [simp]:
  "active_index (update_slot i f m) = active_index m"
  "active_generation (update_slot i f m) = active_generation m"
  "publisher_generation (update_slot i f m) = publisher_generation m"
  "initialized (update_slot i f m) = initialized m"
  by (simp_all add: update_slot_def)

lemma slotwise_update:
  assumes "\<And>x. R x x" "i < length (slots m)" "R (slots m ! i) (f (slots m ! i))"
  shows "slotwise R m (update_slot i f m)"
  using assms by (auto simp: slotwise_def nth_list_update)

lemma tagged_update:
  assumes "tagged Pub m" "filled s \<Longrightarrow> (sl_prepared s, sl_generation s) \<in> Pub"
    "slots m' = (slots m)[i := s]"
  shows "tagged Pub m'"
proof -
  have "set (slots m') \<subseteq> insert s (set (slots m))" using assms(3) set_update_subset_insert by simp
  then show ?thesis using assms(1,2) unfolding tagged_def by blast
qed

lemma tagged_nth: "tagged Pub m \<Longrightarrow> i < length (slots m) \<Longrightarrow> filled (slots m ! i) \<Longrightarrow>
    (sl_prepared (slots m ! i), sl_generation (slots m ! i)) \<in> Pub"
  by (simp add: tagged_def)

lemma main_guar_length: "main_guar Pub m m' \<Longrightarrow> length (slots m') = length (slots m)"
  by (simp add: main_guar_def slotwise_def)

lemma audio_guar_length: "audio_guar Pub m m' \<Longrightarrow> length (slots m') = length (slots m)"
  by (simp add: audio_guar_def slotwise_def)

lemma main_guar_slot:
  "main_guar Pub m m' \<Longrightarrow> i < length (slots m) \<Longrightarrow> audio_owned (slots m ! i) \<Longrightarrow> slots m' ! i = slots m ! i"
  unfolding main_guar_def slotwise_def slot_main_def by blast

lemma audio_guar_slot:
  "audio_guar Pub m m' \<Longrightarrow> i < length (slots m) \<Longrightarrow> sl_state (slots m ! i) = slot_writing
     \<Longrightarrow> slots m' ! i = slots m ! i"
  unfolding audio_guar_def slotwise_def slot_audio_def by blast

subsection \<open>The main thread keeps its guarantee\<close>

abbreviation main_rg ::
  "(PreparedConfig \<times> u64) set \<Rightarrow> ('a \<Rightarrow> PreparedConfigExchange \<Rightarrow> bool) \<Rightarrow> 'a exchange_prog
     \<Rightarrow> PreparedConfigExchange \<Rightarrow> bool" where
  "main_rg Pub \<equiv> rg (audio_guar Pub) (main_guar Pub)"

abbreviation three :: "PreparedConfigExchange \<Rightarrow> bool" where "three m \<equiv> length (slots m) = kSlotCount"

lemma main_guar_refl: "main_guar Pub m m"
  using main_guar_order(1) by (rule reflpD)

lemma main_guar_update:
  assumes "i < length (slots m)" "\<not> audio_owned (slots m ! i)" "\<not> audio_owned (f (slots m ! i))"
    "filled (f (slots m ! i)) \<Longrightarrow> (sl_prepared (f (slots m ! i)), sl_generation (f (slots m ! i))) \<in> Pub"
  shows "main_guar Pub m (update_slot i f m)"
proof -
  have "slotwise slot_main m (update_slot i f m)"
    using assms(1-3) by (intro slotwise_update) (auto simp: slot_main_def)
  moreover have "tagged Pub m \<Longrightarrow> tagged Pub (update_slot i f m)"
    by (rule tagged_update [OF _ assms(4)]) simp_all
  ultimately show ?thesis by (simp add: main_guar_def)
qed

lemma main_rg_load:
  assumes "three m" "\<And>m'. three m' \<Longrightarrow> main_rg Pub Q (k (g m')) m'"
  shows "main_rg Pub Q (load g k) m"
  using assms by (simp add: rg_load main_guar_refl audio_guar_length)

lemma main_rg_Ret: "three m \<Longrightarrow> main_rg Pub (\<lambda>_. three) (Ret a) m"
  by (simp add: audio_guar_length)

lemma find_free_rg:
  assumes "three m" "\<And>m' i. three m' \<Longrightarrow> i \<in> set is \<or> i = kSlotCount \<Longrightarrow> main_rg Pub Q (k i) m'"
  shows "main_rg Pub Q (find_free is k) m"
  using assms by (induction "is" arbitrary: m) (auto simp: load_state_def intro!: main_rg_load)

lemma find_oldest_rg:
  assumes "three m" "found \<Longrightarrow> selected \<in> set js" "set is \<subseteq> set js"
    "\<And>m' i b. three m' \<Longrightarrow> (b \<Longrightarrow> i \<in> set js) \<Longrightarrow> main_rg Pub Q (k i b) m'"
  shows "main_rg Pub Q (find_oldest is selected oldest found k) m"
  using assms
  by (induction "is" arbitrary: m selected oldest found)
    (auto simp: load_state_def load_generation_def intro!: main_rg_load)

text \<open>Between the compare-and-swap and the release the slot is the main thread's own.\<close>

lemma main_rg_own:
  assumes "three m" "i < kSlotCount" "slots m ! i = s" "sl_state s = slot_writing"
    "\<not> audio_owned (f s)" "filled (f s) \<Longrightarrow> (sl_prepared (f s), sl_generation (f s)) \<in> Pub"
    "\<And>m'. three m' \<Longrightarrow> slots m' ! i = f s \<Longrightarrow> main_rg Pub Q p m'"
  shows "main_rg Pub Q (modify (update_slot i f) p) m"
  unfolding rg_modify
proof (intro allI impI conjI)
  fix m' assume "audio_guar Pub m m'"
  with assms(1-4) have m': "three m'" "slots m' ! i = s"
    using audio_guar_length audio_guar_slot by (metis, metis)
  with assms(2,4-6) show "main_guar Pub m' (update_slot i f m')"
    by (intro main_guar_update) (auto simp: audio_owned_def)
  show "main_rg Pub Q p (update_slot i f m')"
    using assms(2,7) m' by simp
qed

lemma copied_fields [simp]:
  "p\<lparr>pc_requested := pc_requested c, pc_sample_rate := pc_sample_rate c,
     pc_sample_period := pc_sample_period c, pc_decision_period := pc_decision_period c\<rparr> = c"
  for c :: PreparedConfig
  by (rule PreparedConfig.equality) simp_all

lemma write_slot_rg:
  assumes "three m" "i < kSlotCount" "sl_state (slots m ! i) = slot_writing" "(c, g) \<in> Pub"
  shows "main_rg Pub (\<lambda>_. three) (write_slot i c g) m"
  unfolding write_slot_def store_prepared_def store_state_def set_state_def
proof (rule main_rg_own [OF assms(1,2) refl assms(3)], goal_cases)
  case (3 m1)
  have last: "main_rg Pub (\<lambda>_. three) (modify (\<lambda>m. m\<lparr>publisher_generation := g\<rparr>) (Ret True)) m'"
    if "three m'" for m'
    using that unfolding rg_modify
    by (auto simp: main_guar_def tagged_def slotwise_def slot_main_def audio_guar_length)
  with 3 assms(3) assms(4) show ?case
    by (auto simp: audio_owned_def filled_def intro!: main_rg_own [where i = i, OF _ assms(2)] last)
qed (use assms in \<open>auto simp: audio_owned_def filled_def\<close>)

lemma main_rg_claim:
  assumes "three m" "i < kSlotCount" "expected = slot_free \<or> expected = slot_ready"
    "\<And>m'. three m' \<Longrightarrow> sl_state (slots m' ! i) = slot_writing \<Longrightarrow> main_rg Pub Q (k True) m'"
    "\<And>m'. three m' \<Longrightarrow> main_rg Pub Q (k False) m'"
  shows "main_rg Pub Q (claim_state i expected slot_writing k) m"
  unfolding claim_state_def rg_compare_exchange set_state_def
  using assms
  by (auto simp: main_guar_refl audio_guar_length audio_owned_def filled_def intro!: main_guar_update)

lemma publish_attempts_rg:
  assumes "three m" "(c, g) \<in> Pub"
  shows "main_rg Pub (\<lambda>_. three) (publish_attempts n c g) m"
  using assms(1)
proof (induction n arbitrary: m)
  case 0
  then show ?case by (simp add: main_rg_Ret del: rg.simps)
next
  case (Suc n)
  show ?case
    using Suc assms(2)
    by (auto simp: write_slot_rg simp del: rg.simps intro!: main_rg_Ret find_free_rg main_rg_claim find_oldest_rg [where js = "[0..<kSlotCount]"])
qed

lemma publish_rg:
  assumes "three m" "(c, g) \<in> Pub"
  shows "main_rg Pub (\<lambda>_. three) (publish c g) m"
  unfolding publish_def
  using assms by (auto simp: publish_attempts_rg simp del: rg.simps intro!: main_rg_load main_rg_Ret)

subsection \<open>The audio thread keeps its guarantee\<close>

abbreviation audio_rg ::
  "(PreparedConfig \<times> u64) set \<Rightarrow> ('a \<Rightarrow> PreparedConfigExchange \<Rightarrow> bool) \<Rightarrow> 'a exchange_prog
     \<Rightarrow> PreparedConfigExchange \<Rightarrow> bool" where
  "audio_rg Pub \<equiv> rg (main_guar Pub) (audio_guar Pub)"

text \<open>The state of the exchange between two calls of the audio thread.\<close>

definition idle :: "PreparedConfigExchange \<Rightarrow> bool" where
  "idle m \<longleftrightarrow>
     three m \<and> initialized m \<and> active_index m < kSlotCount
     \<and> sl_state (slots m ! active_index m) = slot_active
     \<and> sl_generation (slots m ! active_index m) = active_generation m"

text \<open>A claim that is held names a claimed slot of its generation, newer than the active one.\<close>

definition claim_ok :: "Claim \<Rightarrow> PreparedConfigExchange \<Rightarrow> bool" where
  "claim_ok c m \<longleftrightarrow>
     cl_config c \<noteq> None \<longrightarrow>
       cl_config c = Some (cl_index c) \<and> cl_index c < kSlotCount
       \<and> sl_state (slots m ! cl_index c) = slot_audio_claimed
       \<and> sl_generation (slots m ! cl_index c) = cl_generation c
       \<and> generation_newer (cl_generation c) (active_generation m)"

definition owned_slot :: "nat \<Rightarrow> Slot \<Rightarrow> PreparedConfigExchange \<Rightarrow> bool" where
  "owned_slot i s m \<longleftrightarrow> three m \<and> i < kSlotCount \<and> slots m ! i = s \<and> sl_state s = slot_audio_claimed"

definition stable :: "(PreparedConfig \<times> u64) set \<Rightarrow> (PreparedConfigExchange \<Rightarrow> bool) \<Rightarrow> bool" where
  "stable Pub J \<longleftrightarrow> (\<forall>m m'. J m \<longrightarrow> main_guar Pub m m' \<longrightarrow> J m')"

lemma stable_conj: "stable Pub J \<Longrightarrow> stable Pub K \<Longrightarrow> stable Pub (\<lambda>m. J m \<and> K m)"
  unfolding stable_def by blast

lemma stable_idle: "stable Pub idle"
  unfolding stable_def
proof (intro allI impI)
  fix m m' assume a: "idle m" "main_guar Pub m m'"
  then have "three m'" by (simp add: idle_def main_guar_length)
  moreover have "initialized m' = initialized m" "active_index m' = active_index m"
    "active_generation m' = active_generation m" using a(2) by (simp_all add: main_guar_def)
  moreover have "slots m' ! active_index m = slots m ! active_index m"
    using a by (intro main_guar_slot) (auto simp: idle_def audio_owned_def)
  ultimately show "idle m'" using a(1) by (simp add: idle_def)
qed

lemma stable_owned: "stable Pub (owned_slot i s)"
  unfolding stable_def
proof (intro allI impI)
  fix m m' assume a: "owned_slot i s m" "main_guar Pub m m'"
  then have "slots m' ! i = slots m ! i"
    by (intro main_guar_slot) (auto simp: owned_slot_def audio_owned_def)
  with a show "owned_slot i s m'" by (simp add: owned_slot_def main_guar_length)
qed

lemma stable_active_generation: "stable Pub (\<lambda>m. P (active_generation m) (active_index m) (initialized m))"
  by (simp add: stable_def main_guar_def)

lemma stable_claim_ok: "stable Pub (\<lambda>m. three m \<and> claim_ok c m)"
  unfolding stable_def
proof (intro allI impI)
  fix m m' assume a: "three m \<and> claim_ok c m" "main_guar Pub m m'"
  then have "three m'" by (simp add: main_guar_length)
  moreover have "claim_ok c m'"
  proof (cases "cl_config c = None")
    case False
    with a have "slots m' ! cl_index c = slots m ! cl_index c"
      by (intro main_guar_slot) (auto simp: claim_ok_def audio_owned_def)
    with a False show ?thesis by (simp add: claim_ok_def main_guar_def)
  qed (simp add: claim_ok_def)
  ultimately show "three m' \<and> claim_ok c m'" by simp
qed

lemmas stable_intros =
  stable_conj stable_idle stable_owned stable_active_generation stable_claim_ok

lemma audio_guar_refl: "audio_guar Pub m m"
  using audio_guar_order(1) by (rule reflpD)

lemma audio_rg_load:
  assumes "stable Pub J" "J m" "\<And>m'. J m' \<Longrightarrow> audio_rg Pub Q (k (g m')) m'"
  shows "audio_rg Pub Q (load g k) m"
  using assms by (auto simp: rg_load audio_guar_refl stable_def)

lemma audio_rg_modify:
  assumes "stable Pub J" "J m" "\<And>m'. J m' \<Longrightarrow> audio_guar Pub m' (f m') \<and> audio_rg Pub Q p (f m')"
  shows "audio_rg Pub Q (modify f p) m"
  using assms by (auto simp: rg_modify stable_def)

lemma audio_rg_Ret: "stable Pub (Q a) \<Longrightarrow> Q a m \<Longrightarrow> audio_rg Pub Q (Ret a) m"
  by (auto simp: stable_def)

lemma audio_guar_set_state:
  assumes "i < length (slots m)" "filled (slots m ! i)" "st \<noteq> slot_writing"
  shows "audio_guar Pub m (set_state i st m)"
proof -
  have "slotwise slot_audio m (set_state i st m)"
    unfolding set_state_def
    using assms by (intro slotwise_update) (auto simp: slot_audio_def filled_def)
  moreover have "tagged Pub (set_state i st m)" if "tagged Pub m"
    by (rule tagged_update [OF that, where i = i and s = "(slots m ! i)\<lparr>sl_state := st\<rparr>"])
      (use tagged_nth [OF that assms(1,2)] in \<open>simp_all add: set_state_def\<close>)
  ultimately show ?thesis by (simp add: audio_guar_def set_state_def)
qed

lemma idle_set_state:
  assumes "idle m" "i < kSlotCount" "sl_state (slots m ! i) \<noteq> slot_active"
  shows "idle (set_state i st m)"
  using assms by (auto simp: idle_def set_state_def nth_list_update)

lemma store_owned_rg:
  assumes "idle m" "owned_slot i s m" "st \<noteq> slot_writing"
    "\<And>m'. idle m' \<Longrightarrow> audio_rg Pub Q p m'"
  shows "audio_rg Pub Q (store_state i st p) m"
  unfolding store_state_def
proof (rule audio_rg_modify [where J = "\<lambda>m. idle m \<and> owned_slot i s m"])
  fix m' assume m': "idle m' \<and> owned_slot i s m'"
  then have "audio_guar Pub m' (set_state i st m')"
    using assms(3) by (intro audio_guar_set_state) (auto simp: owned_slot_def filled_def)
  moreover have "idle (set_state i st m')"
    using m' by (intro idle_set_state) (auto simp: owned_slot_def)
  ultimately show "audio_guar Pub m' (set_state i st m') \<and> audio_rg Pub Q p (set_state i st m')"
    using assms(4) by simp
qed (use assms(1,2) in \<open>auto intro!: stable_intros\<close>)

lemma claim_ready_rg:
  assumes "idle m" "i < kSlotCount"
    "\<And>m' s. idle m' \<Longrightarrow> owned_slot i s m' \<Longrightarrow> audio_rg Pub Q (k True) m'"
    "\<And>m'. idle m' \<Longrightarrow> audio_rg Pub Q (k False) m'"
  shows "audio_rg Pub Q (claim_state i slot_ready slot_audio_claimed k) m"
  unfolding claim_state_def rg_compare_exchange
proof (intro allI impI)
  fix m' assume "main_guar Pub m m'"
  with assms(1) have m': "idle m'" using stable_idle unfolding stable_def by blast
  show "if sl_state (slots m' ! i) = slot_ready
        then audio_guar Pub m' (set_state i slot_audio_claimed m')
             \<and> audio_rg Pub Q (k True) (set_state i slot_audio_claimed m')
        else audio_guar Pub m' m' \<and> audio_rg Pub Q (k False) m'"
  proof (cases "sl_state (slots m' ! i) = slot_ready")
    case True
    have "audio_guar Pub m' (set_state i slot_audio_claimed m')"
      using True m' assms(2) by (intro audio_guar_set_state) (auto simp: filled_def idle_def)
    moreover have "idle (set_state i slot_audio_claimed m')"
      using True m' assms(2) by (intro idle_set_state) auto
    moreover have "owned_slot i ((slots m' ! i)\<lparr>sl_state := slot_audio_claimed\<rparr>) (set_state i slot_audio_claimed m')"
      using m' assms(2) by (simp add: owned_slot_def set_state_def idle_def)
    ultimately show ?thesis using True assms(3) by simp
  qed (use assms(4) m' in \<open>simp add: audio_guar_refl\<close>)
qed

lemma reclaim_slots_rg:
  assumes "idle m" "set is \<subseteq> {..<kSlotCount}" "\<And>m'. idle m' \<Longrightarrow> audio_rg Pub Q k m'"
  shows "audio_rg Pub Q (reclaim_slots is k) m"
  using assms(1,2)
proof (induction "is" arbitrary: m)
  case (Cons i "is")
  have owned: "audio_rg Pub Q (load_generation i (\<lambda>g. load active_generation (\<lambda>a.
           store_state i (if generation_newer g a then slot_ready else slot_free)
             (reclaim_slots is k)))) m'" if "idle m'" "owned_slot i s m'" for m' s
  proof -
    let ?J = "\<lambda>m. idle m \<and> owned_slot i s m"
    have J: "stable Pub ?J" by (intro stable_intros)
    have "set is \<subseteq> {..<kSlotCount}" using Cons.prems(2) by simp
    then have rest: "audio_rg Pub Q (reclaim_slots is k) m" if "idle m" for m
      using that Cons.IH by blast
    have store: "audio_rg Pub Q (load active_generation (\<lambda>a.
        store_state i (if generation_newer g a then slot_ready else slot_free) (reclaim_slots is k))) m"
      if "?J m" for g m
      by (rule audio_rg_load [OF J that]) (rule store_owned_rg, auto intro: rest)
    show ?thesis
      unfolding load_generation_def using that by (intro audio_rg_load [OF J] store) auto
  qed
  show ?case
    unfolding reclaim_slots.simps load_state_def
    by (rule audio_rg_load [where J = idle])
      (use Cons in \<open>auto intro!: stable_idle claim_ready_rg owned\<close>)
qed (use assms(3) in simp)

end
