(* ===== verification/Config_Exchange_Threads.thy ===== *)
theory Config_Exchange_Threads
  imports Config_Exchange_Laws
begin

text \<open>
  The audio thread's calls keep their guarantee, and the two threads as lists of calls. The properties
  are about every interleaving, picked by a schedule: what the main thread may touch, which
  configuration is active, and what a claim names; and about calls that run alone: a publication
  succeeds, and the audio thread receives the newest one.
\<close>

subsection \<open>The audio thread's calls\<close>

definition between :: "Claim \<Rightarrow> PreparedConfigExchange \<Rightarrow> bool" where
  "between c m \<longleftrightarrow> idle m \<and> claim_ok c m"

lemma stable_between: "stable Pub (between c)"
proof -
  have "between c = (\<lambda>m. idle m \<and> (three m \<and> claim_ok c m))"
    by (auto simp: between_def idle_def)
  then show ?thesis using stable_conj [OF stable_idle stable_claim_ok] by simp
qed

lemma between_invalidate: "between invalidate m \<longleftrightarrow> idle m"
  by (simp add: between_def claim_ok_def invalidate_def)

lemma between_Ret: "between c m \<Longrightarrow> audio_rg Pub (\<lambda>(ok, c). between c) (Ret (ok, c)) m"
  by (intro audio_rg_Ret) (simp_all add: stable_between)

lemma ret_invalidate: "idle m \<Longrightarrow> audio_rg Pub (\<lambda>(ok, c). between c) (Ret (ok, invalidate)) m"
  by (rule between_Ret) (simp add: between_invalidate)

lemma find_newest_rg:
  assumes "idle m" "\<And>m' i. idle m' \<Longrightarrow> i \<in> set is \<or> i = selected \<Longrightarrow> audio_rg Pub Q (k i) m'"
  shows "audio_rg Pub Q (find_newest is selected newest k) m"
  using assms
proof (induction "is" arbitrary: m selected newest)
  case (Cons i "is")
  show ?case
    unfolding find_newest.simps load_state_def load_generation_def
    by (rule audio_rg_load [OF stable_idle Cons.prems(1)])
      (auto intro!: audio_rg_load [OF stable_idle] Cons.IH Cons.prems(2))
qed simp

lemma newer_ready_rg:
  assumes "stable Pub J" "J m" "\<And>m' b. J m' \<Longrightarrow> audio_rg Pub Q (k b) m'"
  shows "audio_rg Pub Q (newer_ready is g k) m"
  using assms(2)
proof (induction "is" arbitrary: m)
  case (Cons i "is")
  show ?case
    unfolding newer_ready.simps load_state_def load_generation_def
    by (rule audio_rg_load [OF assms(1) Cons.prems])
      (auto intro!: audio_rg_load [OF assms(1)] Cons.IH assms(3))
qed (simp add: assms(3))

lemma reclaim_rg:
  assumes "idle m" "\<And>m'. idle m' \<Longrightarrow> audio_rg Pub Q k m'"
  shows "audio_rg Pub Q (reclaim_stale_ready k) m"
  unfolding reclaim_stale_ready_def using assms by (intro reclaim_slots_rg) auto

text \<open>A claim that was made, before it is returned.\<close>

lemma claimed_between:
  assumes "idle m" "owned_slot i s m" "generation_newer (sl_generation s) (active_generation m)"
  shows "between \<lparr>cl_config = Some i, cl_generation = sl_generation s, cl_index = i\<rparr> m"
  using assms by (simp add: between_def claim_ok_def owned_slot_def)

definition check_claimed :: "nat \<Rightarrow> (bool \<times> Claim) exchange_prog \<Rightarrow> (bool \<times> Claim) exchange_prog" where
  "check_claimed selected again =
     load_generation selected (\<lambda>g. load active_generation (\<lambda>a.
       if \<not> generation_newer g a then store_state selected slot_free again
       else newer_ready [0..<kSlotCount] g (\<lambda>newer.
         if newer then store_state selected slot_ready again
         else Ret (True, \<lparr>cl_config = Some selected, cl_generation = g, cl_index = selected\<rparr>))))"

lemma check_claimed_rg:
  assumes "idle m" "owned_slot i s m"
    and again: "\<And>m'. idle m' \<Longrightarrow> audio_rg Pub (\<lambda>(ok, c). between c) again m'"
  shows "audio_rg Pub (\<lambda>(ok, c). between c) (check_claimed i again) m"
proof -
  let ?Q = "\<lambda>(ok, c). between c"
  let ?J = "\<lambda>m. idle m \<and> owned_slot i s m"
  have J: "stable Pub ?J" by (intro stable_intros)
  have store: "audio_rg Pub ?Q (store_state i st again) m'" if "?J m'" "st \<noteq> slot_writing" for m' st
    using that again by (intro store_owned_rg) auto
  have decide: "audio_rg Pub ?Q (if newer then store_state i slot_ready again
      else Ret (True, \<lparr>cl_config = Some i, cl_generation = sl_generation s, cl_index = i\<rparr>)) m'"
    if "?J m' \<and> generation_newer (sl_generation s) (active_generation m')" for newer m'
    using that by (cases newer) (auto simp: between_Ret claimed_between store simp del: rg.simps)
  have K: "stable Pub (\<lambda>m. ?J m \<and> generation_newer (sl_generation s) (active_generation m))"
    by (intro stable_intros)
  have check: "audio_rg Pub ?Q (load active_generation (\<lambda>a.
       if \<not> generation_newer (sl_generation s) a then store_state i slot_free again
       else newer_ready [0..<kSlotCount] (sl_generation s) (\<lambda>newer.
         if newer then store_state i slot_ready again
         else Ret (True, \<lparr>cl_config = Some i, cl_generation = sl_generation s, cl_index = i\<rparr>)))) m'"
    if "?J m'" for m'
    by (rule audio_rg_load [OF J that]) (auto intro!: store newer_ready_rg [OF K] decide)
  show ?thesis
    unfolding check_claimed_def load_generation_def
  proof (rule audio_rg_load [OF J conjI [OF assms(1,2)]], goal_cases)
    case (1 m')
    then have "sl_generation (slots m' ! i) = sl_generation s" by (simp add: owned_slot_def)
    then show ?case by (simp only: check [OF 1])
  qed
qed

lemma claim_attempts_rg:
  assumes "idle m"
  shows "audio_rg Pub (\<lambda>(ok, c). between c) (claim_attempts n) m"
  using assms
proof (induction n arbitrary: m)
  case 0
  then show ?case by (simp add: between_Ret between_invalidate del: rg.simps)
next
  case (Suc n)
  let ?Q = "\<lambda>(ok, c). between c"
  have stale: "audio_rg Pub ?Q (reclaim_stale_ready (Ret (False, invalidate))) m'" if "idle m'" for m'
    using that by (intro reclaim_rg) (auto simp del: rg.simps simp: ret_invalidate)
  have attempt: "audio_rg Pub ?Q (claim_state i slot_ready slot_audio_claimed (\<lambda>ok.
      if \<not> ok then claim_attempts n else check_claimed i (claim_attempts n))) m'"
    if "idle m'" "i < kSlotCount" for m' i
    using that Suc.IH by (intro claim_ready_rg) (auto intro: check_claimed_rg)
  show ?case
    unfolding claim_attempts.simps check_claimed_def [symmetric]
    by (rule audio_rg_load [OF stable_idle Suc.prems], rule find_newest_rg)
      (auto intro: stale attempt)
qed

lemma claim_latest_rg:
  assumes "idle m"
  shows "audio_rg Pub (\<lambda>(ok, c). between c) claim_latest m"
  unfolding claim_latest_def
  by (rule audio_rg_load [OF stable_idle assms]) (simp add: claim_attempts_rg idle_def)

lemma cancel_rg:
  assumes "between c m"
  shows "audio_rg Pub (\<lambda>(ok, c). between c) (cancel c) m"
proof (cases "cl_config c")
  case None
  then show ?thesis
    unfolding cancel_def
    by (intro audio_rg_load [OF stable_between assms]) (simp add: between_Ret del: rg.simps)
next
  case (Some i)
  let ?Q = "\<lambda>(ok, c). between c"
  have give: "audio_rg Pub ?Q (store_state (cl_index c) slot_ready (Ret (True, invalidate))) m'"
    if "between c m'" for m'
  proof (rule store_owned_rg [where s = "slots m' ! cl_index c"])
    show "owned_slot (cl_index c) (slots m' ! cl_index c) m'"
      using that Some by (simp add: between_def claim_ok_def owned_slot_def idle_def)
  qed (use that in \<open>simp_all add: between_def ret_invalidate del: rg.simps\<close>)
  show ?thesis
    unfolding cancel_def load_state_def load_generation_def
    by (rule audio_rg_load [OF stable_between assms])
      (auto simp: between_Ret simp del: rg.simps intro!: audio_rg_load [OF stable_between] give)
qed

text \<open>The switch of \<open>commit\<close> passes through states in which no slot of \<open>active_index\<close> is active.\<close>

definition switching :: "nat \<Rightarrow> Slot \<Rightarrow> PreparedConfigExchange \<Rightarrow> bool" where
  "switching i s m \<longleftrightarrow> three m \<and> initialized m \<and> i < kSlotCount \<and> slots m ! i = s \<and> audio_owned s"

lemma stable_switching: "stable Pub (switching i s)"
  unfolding stable_def
proof (intro allI impI)
  fix m m' assume a: "switching i s m" "main_guar Pub m m'"
  then have "slots m' ! i = slots m ! i" by (intro main_guar_slot) (auto simp: switching_def)
  with a show "switching i s m'"
    using main_guar_length [OF a(2)] by (simp add: switching_def main_guar_def)
qed

lemma audio_guar_active [simp]:
  "audio_guar Pub m (m\<lparr>active_index := i\<rparr>)" "audio_guar Pub m (m\<lparr>active_generation := g\<rparr>)"
  by (simp_all add: audio_guar_def slotwise_def slot_audio_order tagged_def)

lemma finish_commit_rg:
  assumes "switching i s m" "sl_state s = slot_active" "sl_generation s = g"
  shows "audio_rg Pub (\<lambda>(ok, c). between c)
     (modify (\<lambda>m. m\<lparr>active_index := i\<rparr>) (modify (\<lambda>m. m\<lparr>active_generation := g\<rparr>)
       (reclaim_stale_ready (Ret (True, invalidate))))) m"
proof (rule audio_rg_modify [OF stable_switching assms(1)], intro conjI)
  fix m' assume m': "switching i s m'"
  let ?J = "\<lambda>m. switching i s m \<and> active_index m = i"
  have J: "stable Pub ?J"
    using stable_active_generation [of Pub "\<lambda>_ j _. j = i"] by (intro stable_conj stable_switching)
  have "?J (m'\<lparr>active_index := i\<rparr>)" using m' by (simp add: switching_def)
  then show "audio_rg Pub (\<lambda>(ok, c). between c) (modify (\<lambda>m. m\<lparr>active_generation := g\<rparr>)
      (reclaim_stale_ready (Ret (True, invalidate)))) (m'\<lparr>active_index := i\<rparr>)"
  proof (rule audio_rg_modify [OF J], intro conjI)
    fix m assume "?J m"
    with assms(2,3) have "idle (m\<lparr>active_generation := g\<rparr>)" by (auto simp: switching_def idle_def)
    then show "audio_rg Pub (\<lambda>(ok, c). between c) (reclaim_stale_ready (Ret (True, invalidate)))
        (m\<lparr>active_generation := g\<rparr>)"
      by (rule reclaim_rg) (simp add: ret_invalidate del: rg.simps)
  qed simp
qed simp

lemma switch_rg:
  assumes "between c m" "cl_config c \<noteq> None"
  shows "audio_rg Pub (\<lambda>(ok, c). between c)
     (load active_index (\<lambda>i. store_state i slot_free (store_state (cl_index c) slot_active
       (modify (\<lambda>m. m\<lparr>active_index := cl_index c\<rparr>) (modify (\<lambda>m. m\<lparr>active_generation := cl_generation c\<rparr>)
         (reclaim_stale_ready (Ret (True, invalidate)))))))) m"
proof (rule audio_rg_load [OF stable_between assms(1)])
  fix m1 assume m1: "between c m1"
  let ?i = "cl_index c" and ?J = "\<lambda>m. between c m \<and> active_index m = active_index m1"
  have J: "stable Pub ?J"
    using stable_active_generation [of Pub "\<lambda>_ j _. j = active_index m1"]
    by (intro stable_conj stable_between)
  show "audio_rg Pub (\<lambda>(ok, c). between c)
     (store_state (active_index m1) slot_free (store_state ?i slot_active
       (modify (\<lambda>m. m\<lparr>active_index := ?i\<rparr>) (modify (\<lambda>m. m\<lparr>active_generation := cl_generation c\<rparr>)
         (reclaim_stale_ready (Ret (True, invalidate))))))) m1"
    unfolding store_state_def
  proof (rule audio_rg_modify [OF J], use m1 in simp, intro conjI)
    fix m assume m: "?J m"
    let ?s = "slots m ! ?i"
    have facts: "sl_state ?s = slot_audio_claimed" "sl_generation ?s = cl_generation c" "?i < kSlotCount"
      "three m" "initialized m" "active_index m1 < kSlotCount"
      "sl_state (slots m ! active_index m1) = slot_active"
      using m assms(2) by (auto simp: between_def claim_ok_def idle_def)
    then show "audio_guar Pub m (set_state (active_index m1) slot_free m)"
      by (intro audio_guar_set_state) (auto simp: filled_def)
    have "?i \<noteq> active_index m1" using facts by auto
    then have "switching ?i ?s (set_state (active_index m1) slot_free m)"
      using facts by (simp add: switching_def set_state_def audio_owned_def)
    then show "audio_rg Pub (\<lambda>(ok, c). between c) (modify (set_state ?i slot_active)
       (modify (\<lambda>m. m\<lparr>active_index := ?i\<rparr>) (modify (\<lambda>m. m\<lparr>active_generation := cl_generation c\<rparr>)
         (reclaim_stale_ready (Ret (True, invalidate)))))) (set_state (active_index m1) slot_free m)"
    proof (rule audio_rg_modify [OF stable_switching], intro conjI)
      fix m2 assume m2: "switching ?i ?s m2"
      with facts show "audio_guar Pub m2 (set_state ?i slot_active m2)"
        by (intro audio_guar_set_state) (auto simp: switching_def filled_def)
      have "switching ?i (?s\<lparr>sl_state := slot_active\<rparr>) (set_state ?i slot_active m2)"
        using m2 by (simp add: switching_def set_state_def audio_owned_def)
      then show "audio_rg Pub (\<lambda>(ok, c). between c)
         (modify (\<lambda>m. m\<lparr>active_index := ?i\<rparr>) (modify (\<lambda>m. m\<lparr>active_generation := cl_generation c\<rparr>)
           (reclaim_stale_ready (Ret (True, invalidate))))) (set_state ?i slot_active m2)"
        by (rule finish_commit_rg) (simp_all add: facts)
    qed
  qed
qed

lemma commit_rg:
  assumes "between c m"
  shows "audio_rg Pub (\<lambda>(ok, c). between c) (commit c) m"
  unfolding commit_def load_state_def load_generation_def
  by (rule audio_rg_load [OF stable_between assms])
    (auto simp del: rg.simps intro!: audio_rg_load [OF stable_between] switch_rg between_Ret)

subsection \<open>Threads\<close>

text \<open>The main thread publishes; the audio thread keeps one claim and calls on it in any order.\<close>

datatype audio_call = call_claim_latest | call_commit | call_cancel

fun audio_call_prog :: "audio_call \<Rightarrow> Claim \<Rightarrow> (bool \<times> Claim) exchange_prog" where
  "audio_call_prog call_claim_latest c = claim_latest"
| "audio_call_prog call_commit c = commit c"
| "audio_call_prog call_cancel c = cancel c"

fun audio_thread :: "audio_call list \<Rightarrow> Claim \<Rightarrow> Claim exchange_prog" where
  "audio_thread [] c = Ret c"
| "audio_thread (call # calls) c = bind_prog (audio_call_prog call c) (\<lambda>(ok, c'). audio_thread calls c')"

fun main_thread :: "(PreparedConfig \<times> u64) list \<Rightarrow> unit exchange_prog" where
  "main_thread [] = Ret ()"
| "main_thread ((c, g) # ps) = bind_prog (publish c g) (\<lambda>_. main_thread ps)"

lemma main_thread_rg:
  assumes "set ps \<subseteq> Pub" "three m"
  shows "main_rg Pub (\<lambda>_. three) (main_thread ps) m"
  using assms
proof (induction ps arbitrary: m rule: main_thread.induct)
  case (2 c g ps)
  then show ?case
    by (auto intro!: rg_bind [OF publish_rg] simp: audio_guar_order)
qed (simp add: audio_guar_length)

lemma audio_thread_rg:
  assumes "between c m"
  shows "audio_rg Pub (\<lambda>c. between c) (audio_thread calls c) m"
  using assms
proof (induction calls arbitrary: c m)
  case Nil
  then show ?case by (auto intro: audio_rg_Ret stable_between simp del: rg.simps)
next
  case (Cons call calls)
  then have "audio_rg Pub (\<lambda>(ok, c). between c) (audio_call_prog call c) m"
    by (cases call) (auto intro: claim_latest_rg commit_rg cancel_rg simp: between_def [of c m])
  then show ?case
    by (auto intro!: rg_bind [where Q = "\<lambda>(ok, c). between c"] Cons.IH simp: main_guar_order)
qed

text \<open>The exchange when both threads start on it, and where a schedule takes it.\<close>

definition exchange_start :: "PreparedConfig \<Rightarrow> u64 \<Rightarrow> PreparedConfigExchange" where
  "exchange_start c g = snd (exchange_initialize c g PreparedConfigExchange_default)"

definition exchange_run ::
  "bool list \<Rightarrow> PreparedConfig \<times> u64 \<Rightarrow> (PreparedConfig \<times> u64) list \<Rightarrow> audio_call list
     \<Rightarrow> PreparedConfigExchange \<times> unit exchange_prog \<times> Claim exchange_prog" where
  "exchange_run schedule initial ps calls =
     par_run schedule (exchange_start (fst initial) (snd initial), main_thread ps, audio_thread calls invalidate)"

lemma exchange_start_idle: "idle (exchange_start c g)" "tagged {(c, g)} (exchange_start c g)"
  by (auto simp: exchange_start_def exchange_initialize_def exchange_reset_def idle_def kSlotCount_def
      PreparedConfigExchange_default_def Slot_default_def tagged_def filled_def numeral_3_eq_3)

lemma tagged_mono: "tagged P m \<Longrightarrow> P \<subseteq> P' \<Longrightarrow> tagged P' m"
  by (auto simp: tagged_def)

lemma exchange_run_keeps:
  assumes "exchange_run schedule initial ps calls = (m, p, q)"
  defines "Pub \<equiv> insert initial (set ps)"
  shows "main_rg Pub (\<lambda>_. three) p m" "audio_rg Pub (\<lambda>c. between c) q m" "tagged Pub m"
proof -
  let ?m = "exchange_start (fst initial) (snd initial)"
  have run: "par_steps (?m, main_thread ps, audio_thread calls invalidate) (m, p, q)"
    using par_run_steps assms(1) unfolding exchange_run_def by metis
  have "three ?m" "between invalidate ?m"
    using exchange_start_idle(1) by (auto simp: between_invalidate idle_def)
  then have rgs: "main_rg Pub (\<lambda>_. three) (main_thread ps) ?m"
    "audio_rg Pub (\<lambda>c. between c) (audio_thread calls invalidate) ?m"
    unfolding Pub_def by (auto intro: main_thread_rg audio_thread_rg)
  from exchange.steps_keep [OF run rgs] show "main_rg Pub (\<lambda>_. three) p m" "audio_rg Pub (\<lambda>c. between c) q m"
    by simp_all
  have "tagged Pub ?m"
    using exchange_start_idle(2) [of "fst initial" "snd initial"] by (rule tagged_mono) (simp add: Pub_def)
  then show "tagged Pub m"
    by (rule exchange.steps_invariant [OF run rgs]) (auto simp: main_guar_def audio_guar_def)
qed

end
