(* ===== verification/Config_Exchange_Properties.thy ===== *)
theory Config_Exchange_Properties
  imports Config_Exchange_Threads
begin

text \<open>
  The properties of the configuration exchange: no data race and no torn configuration in any
  interleaving of the two threads, and what the calls achieve when they run alone.
\<close>

subsection \<open>Interleavings\<close>

text \<open>
  C15: The exchange has no data race. Wherever a schedule of the two threads stops, the next action
  of the main thread changes no slot that the audio thread has claimed or made active, and the next
  action of the audio thread changes no configuration or generation, nor a slot that is being written.
\<close>

theorem exchange_race_free:
  "case exchange_run schedule initial ps calls of (m, p, q) \<Rightarrow>
     (case prog_step m p of None \<Rightarrow> True | Some (m', _) \<Rightarrow> slotwise slot_main m m')
     \<and> (case prog_step m q of None \<Rightarrow> True | Some (m', _) \<Rightarrow> slotwise slot_audio m m')"
proof -
  obtain m p q where run: "exchange_run schedule initial ps calls = (m, p, q)" by (metis prod_cases3)
  note kept = exchange_run_keeps [OF run]
  have "slotwise slot_main m m'" if step: "prog_step m p = Some (m', p')" for m' p'
  proof -
    obtain f where "p = Act f" "f m = (m', p')" using step by (auto simp: prog_step_Some)
    with rg_now [OF _ audio_guar_order(1)] kept(1) have "main_guar (insert initial (set ps)) m m'" by metis
    then show ?thesis by (simp add: main_guar_def)
  qed
  moreover have "slotwise slot_audio m m'" if step: "prog_step m q = Some (m', q')" for m' q'
  proof -
    obtain f where "q = Act f" "f m = (m', q')" using step by (auto simp: prog_step_Some)
    with rg_now [OF _ main_guar_order(1)] kept(2) have "audio_guar (insert initial (set ps)) m m'" by metis
    then show ?thesis by (simp add: audio_guar_def)
  qed
  ultimately show ?thesis by (simp add: run split: option.splits prod.splits)
qed

text \<open>
  C16: The audio thread never sees a torn or mistagged configuration. Whenever its calls have
  returned, in whatever interleaving with the publications, the active configuration is one that was
  published (or the initial one) with the active generation, and a claim that is held names a slot
  holding a configuration published with the claim's generation, newer than the active one.
\<close>

theorem exchange_untorn:
  "case exchange_run schedule initial ps calls of (m, p, q) \<Rightarrow>
     (case q of
        Act _ \<Rightarrow> True
      | Ret c \<Rightarrow>
          (exchange_active m, active_generation m) \<in> insert initial (set ps)
          \<and> (case cl_config c of
               None \<Rightarrow> True
             | Some i \<Rightarrow> (sl_prepared (slots m ! i), cl_generation c) \<in> insert initial (set ps)
                 \<and> generation_newer (cl_generation c) (active_generation m)))"
proof -
  obtain m p q where run: "exchange_run schedule initial ps calls = (m, p, q)" by (metis prod_cases3)
  have "(exchange_active m, active_generation m) \<in> insert initial (set ps)
      \<and> (cl_config c = Some i \<longrightarrow> (sl_prepared (slots m ! i), cl_generation c) \<in> insert initial (set ps)
                 \<and> generation_newer (cl_generation c) (active_generation m))" if "q = Ret c" for c i
  proof -
    note kept = exchange_run_keeps [OF run]
    from kept(2) that have b: "between c m" by (simp add: main_guar_refl)
    then have "(exchange_active m, active_generation m) \<in> insert initial (set ps)"
      using tagged_nth [OF kept(3), of "active_index m"]
      by (simp add: between_def idle_def filled_def exchange_active_def)
    moreover have "(sl_prepared (slots m ! i), cl_generation c) \<in> insert initial (set ps)
        \<and> generation_newer (cl_generation c) (active_generation m)" if "cl_config c = Some i"
      using that b tagged_nth [OF kept(3), of i]
      by (auto simp: between_def idle_def claim_ok_def filled_def)
    ultimately show ?thesis by blast
  qed
  then show ?thesis by (simp add: run split: prog.splits option.splits)
qed

subsection \<open>Calls that run alone\<close>

lemma newer_asym: "generation_newer a b \<Longrightarrow> \<not> generation_newer b a"
proof
  assume "generation_newer a b" "generation_newer b a"
  moreover define w where "w = a - b"
  ultimately have d: "w \<noteq> 0" "w < push_bit 63 1" "- w < push_bit 63 1"
    by (simp_all add: generation_newer_def Let_def)
  have "uint (- w) = 2 ^ 64 - uint w"
    using d(1) uint_lt2p [of w] by (simp add: uint_word_ariths zmod_zminus1_eq_if uint_0_iff)
  moreover have "uint (push_bit 63 1 :: u64) = 2 ^ 63" by simp
  ultimately show False using d(2,3) by (simp add: word_less_def)
qed

lemma newer_irrefl [simp]: "\<not> generation_newer a a"
  by (simp add: generation_newer_def)

lemma upt_slots: "[0..<kSlotCount] = [0, 1, 2]"
  by (simp add: kSlotCount_def numeral_3_eq_3 numeral_2_eq_2)

lemma slot_numbers [simp]:
  "0 \<noteq> kSlotCount" "Suc 0 \<noteq> kSlotCount" "2 \<noteq> kSlotCount"
  "0 < kSlotCount" "Suc 0 < kSlotCount" "2 < kSlotCount"
  "\<not> kSlotCount \<le> Suc 0" "\<not> kSlotCount \<le> 2"
  by (simp_all add: kSlotCount_def)

lemma three_slots: "three m \<longleftrightarrow> (\<exists>a b c. slots m = [a, b, c])"
  by (auto simp: kSlotCount_def numeral_3_eq_3 length_Suc_conv)

lemmas exchange_run_simps =
  load_state_def load_generation_def store_state_def claim_state_def set_state_def update_slot_def upt_slots

lemma run_write_slot:
  "run (write_slot i c g) m =
     ((update_slot i (\<lambda>s. \<lparr>sl_prepared = c, sl_generation = g, sl_state = slot_ready\<rparr>) m)
        \<lparr>publisher_generation := g\<rparr>, True)" if "i < length (slots m)"
  using that
  by (cases "slots m ! i") (simp add: write_slot_def store_prepared_def exchange_run_simps)

text \<open>What the searches of \<open>publish\<close> find when nothing interferes.\<close>

fun first_free :: "Slot list \<Rightarrow> nat list \<Rightarrow> nat" where
  "first_free ss [] = kSlotCount"
| "first_free ss (i # is) = (if sl_state (ss ! i) = slot_free then i else first_free ss is)"

fun oldest_ready :: "Slot list \<Rightarrow> nat list \<Rightarrow> nat \<Rightarrow> u64 \<Rightarrow> bool \<Rightarrow> nat \<times> bool" where
  "oldest_ready ss [] selected oldest found = (selected, found)"
| "oldest_ready ss (i # is) selected oldest found =
     (if sl_state (ss ! i) = slot_ready \<and> (\<not> found \<or> generation_newer oldest (sl_generation (ss ! i)))
      then oldest_ready ss is i (sl_generation (ss ! i)) True
      else oldest_ready ss is selected oldest found)"

lemma run_find_free: "run (find_free is k) m = run (k (first_free (slots m) is)) m"
  by (induction "is") (simp_all add: load_state_def)

lemma run_find_oldest:
  "run (find_oldest is selected oldest found k) m
     = run (case_prod k (oldest_ready (slots m) is selected oldest found)) m"
  by (induction "is" arbitrary: selected oldest found)
    (simp_all add: load_state_def load_generation_def)

definition pick_slot :: "Slot list \<Rightarrow> nat" where
  "pick_slot ss =
     (let i = first_free ss [0, 1, 2]
      in if i \<noteq> kSlotCount then i else fst (oldest_ready ss [0, 1, 2] kSlotCount 0 False))"

lemma pick_slot_available:
  assumes "slots m = [a, b, d]" "sl_state a \<in> A \<or> sl_state b \<in> A \<or> sl_state d \<in> A"
    "A = {slot_free, slot_ready}"
  shows "pick_slot (slots m) < kSlotCount \<and> sl_state (slots m ! pick_slot (slots m)) \<in> A"
    "first_free (slots m) [0, 1, 2] \<noteq> kSlotCount
       \<longrightarrow> sl_state (slots m ! pick_slot (slots m)) = slot_free"
    "first_free (slots m) [0, 1, 2] = kSlotCount
       \<longrightarrow> sl_state (slots m ! pick_slot (slots m)) = slot_ready
           \<and> snd (oldest_ready (slots m) [0, 1, 2] kSlotCount 0 False)"
  using assms by (auto simp: pick_slot_def kSlotCount_def Let_def)

lemmas search_simps = find_free.simps find_oldest.simps first_free.simps oldest_ready.simps
declare search_simps [simp del]

lemma run_publish_attempts:
  assumes "slots m = [a, b, d]" "sl_state a \<in> A \<or> sl_state b \<in> A \<or> sl_state d \<in> A"
    "A = {slot_free, slot_ready}"
  shows "run (publish_attempts (Suc n) c g) m = run (write_slot (pick_slot (slots m)) c g)
           (set_state (pick_slot (slots m)) slot_writing m)"
proof (cases "first_free (slots m) [0, 1, 2] = kSlotCount")
  case True
  then have "pick_slot (slots m) = fst (oldest_ready (slots m) [0, 1, 2] kSlotCount 0 False)"
    by (simp add: pick_slot_def)
  with True pick_slot_available(3) [OF assms] show ?thesis
    by (simp add: run_find_free run_find_oldest upt_slots claim_state_def case_prod_unfold)
next
  case False
  then have "pick_slot (slots m) = first_free (slots m) [0, 1, 2]"
    by (simp add: pick_slot_def)
  with False pick_slot_available(2) [OF assms] show ?thesis
    by (simp add: run_find_free upt_slots claim_state_def)
qed

lemma run_publish:
  assumes "slots m = [a, b, d]" "sl_state a \<in> A \<or> sl_state b \<in> A \<or> sl_state d \<in> A"
    "A = {slot_free, slot_ready}" "initialized m" "generation_newer g (publisher_generation m)"
  shows "run (publish c g) m =
      (m\<lparr>slots := (slots m)[pick_slot (slots m) := \<lparr>sl_prepared = c, sl_generation = g, sl_state = slot_ready\<rparr>],
         publisher_generation := g\<rparr>, True)"
proof -
  have "kSlotCount = Suc 2" by (simp add: kSlotCount_def)
  then have "run (publish c g) m = run (publish_attempts (Suc 2) c g) m"
    using assms(4,5) by (simp add: publish_def del: publish_attempts.simps)
  also have "\<dots> = run (write_slot (pick_slot (slots m)) c g) (set_state (pick_slot (slots m)) slot_writing m)"
    by (rule run_publish_attempts [OF assms(1-3)])
  also have "\<dots> = (m\<lparr>slots := (slots m)[pick_slot (slots m) := \<lparr>sl_prepared = c, sl_generation = g, sl_state = slot_ready\<rparr>],
         publisher_generation := g\<rparr>, True)"
  proof -
    have "pick_slot (slots m) < length (slots m)"
      using pick_slot_available(1) [OF assms(1-3)] assms(1) by (simp add: kSlotCount_def)
    then show ?thesis by (simp add: run_write_slot set_state_def update_slot_def)
  qed
  finally show ?thesis .
qed


text \<open>The shape of the exchange after publications: slot 0 is active, another holds the last one.\<close>

definition older :: "PreparedConfig \<times> u64 \<Rightarrow> Slot \<Rightarrow> bool" where
  "older p s \<longleftrightarrow> sl_state s = slot_free
     \<or> sl_state s = slot_ready \<and> generation_newer (snd p) (sl_generation s)"

definition holding :: "PreparedConfig \<times> u64 \<Rightarrow> Slot \<Rightarrow> bool" where
  "holding p s \<longleftrightarrow> s = \<lparr>sl_prepared = fst p, sl_generation = snd p, sl_state = slot_ready\<rparr>"

definition latest_ready :: "u64 \<Rightarrow> PreparedConfig \<times> u64 \<Rightarrow> PreparedConfigExchange \<Rightarrow> bool" where
  "latest_ready g0 p m \<longleftrightarrow>
     initialized m \<and> active_index m = 0 \<and> active_generation m = g0 \<and> publisher_generation m = snd p
     \<and> generation_newer (snd p) g0
     \<and> (\<exists>a x y. slots m = [a, x, y] \<and> sl_state a = slot_active
          \<and> (holding p x \<and> older p y \<or> older p x \<and> holding p y))"

lemma first_publication:
  assumes "generation_newer g g0"
  shows "latest_ready g0 (c, g) (fst (run (publish c g) (exchange_start c0 g0)))"
proof -
  let ?m = "exchange_start c0 g0"
  have l: "slots ?m = [\<lparr>sl_prepared = c0, sl_generation = g0, sl_state = slot_active\<rparr>, Slot_default, Slot_default]"
    "initialized ?m" "publisher_generation ?m = g0" "active_index ?m = 0" "active_generation ?m = g0"
    by (simp_all add: exchange_start_def exchange_initialize_def exchange_reset_def
        PreparedConfigExchange_default_def Slot_default_def kSlotCount_def numeral_3_eq_3)
  show ?thesis
    using run_publish [OF l(1) _ refl l(2), of g c] assms
    by (simp add: l Slot_default_def pick_slot_def search_simps kSlotCount_def latest_ready_def holding_def older_def)
qed

lemma next_publication:
  assumes "latest_ready g0 p m" "generation_newer g (snd p)" "generation_newer g g0"
  shows "latest_ready g0 (c, g) (fst (run (publish c g) m))"
proof -
  obtain a x y where l: "slots m = [a, x, y]" and a: "sl_state a = slot_active"
    and xy: "holding p x \<and> older p y \<or> older p x \<and> holding p y"
    using assms(1) by (auto simp: latest_ready_def)
  have "sl_state a \<in> {slot_free, slot_ready} \<or> sl_state x \<in> {slot_free, slot_ready}
      \<or> sl_state y \<in> {slot_free, slot_ready}"
    using xy by (auto simp: holding_def)
  note run_publish [OF l this refl, of g c]
  with xy show ?thesis
    using assms a newer_asym [of "snd p" "sl_generation x"] newer_asym [of "snd p" "sl_generation y"]
    by (auto simp: l pick_slot_def search_simps kSlotCount_def latest_ready_def holding_def older_def)
qed

lemma all_publications:
  assumes "latest_ready g0 p m" "sorted_wrt (\<lambda>p q. generation_newer (snd q) (snd p)) (p # ps)"
    "\<forall>p \<in> set ps. generation_newer (snd p) g0"
  shows "latest_ready g0 (last (p # ps)) (fst (run (main_thread ps) m))"
  using assms
proof (induction ps arbitrary: p m)
  case (Cons q ps)
  obtain c g where q: "q = (c, g)" by (cases q)
  with Cons.prems have "latest_ready g0 q (fst (run (publish c g) m))"
    by (auto intro: next_publication)
  from Cons.IH [OF this] Cons.prems(2,3) q show ?case
    by (simp add: case_prod_unfold)
qed simp

text \<open>The audio thread's calls on that shape.\<close>

lemma run_claim_commit:
  assumes "latest_ready g0 p m" "run (audio_thread [call_claim_latest, call_commit] invalidate) m = (m', c')"
  shows "(exchange_active m', active_generation m') = p"
proof -
  obtain a x y where l: "slots m = [a, x, y]" and a: "sl_state a = slot_active"
    and xy: "holding p x \<and> older p y \<or> older p x \<and> holding p y"
    and m: "initialized m" "active_index m = 0" "active_generation m = g0" "generation_newer (snd p) g0"
    using assms by (auto simp: latest_ready_def)
  have n: "kSlotCount = Suc 2" by (simp add: kSlotCount_def)
  let ?s = "\<lparr>sl_prepared = fst p, sl_generation = snd p, sl_state = slot_ready\<rparr>"
  obtain i where i: "i < kSlotCount" "slots m ! i = ?s" "i = 1 \<and> older p y \<or> i = 2 \<and> older p x"
  proof (cases "holding p x \<and> older p y")
    case True
    with that [of 1] show ?thesis by (simp add: l kSlotCount_def holding_def)
  next
    case False
    with xy have "holding p y" "older p x" by auto
    with that [of 2] show ?thesis by (simp add: l kSlotCount_def holding_def)
  qed
  let ?c = "\<lparr>cl_config = Some i, cl_generation = snd p, cl_index = i\<rparr>"
  have old: "sl_state s = slot_free \<or> sl_state s = slot_ready \<and> generation_newer (snd p) (sl_generation s)
      \<and> \<not> generation_newer (sl_generation s) (snd p)" if "older p s" for s
    using that newer_asym by (auto simp: older_def)
  have "run (claim_attempts (Suc k)) m = (set_state i slot_audio_claimed m, True, ?c)" for k
    using i(3)
  proof
    assume "i = 1 \<and> older p y"
    with old [of y] l i a m show ?thesis by (auto simp: exchange_run_simps)
  next
    assume "i = 2 \<and> older p x"
    with old [of x] l i a m show ?thesis by (auto simp: exchange_run_simps)
  qed
  from this [of 2, folded n] have "run claim_latest m = (set_state i slot_audio_claimed m, True, ?c)"
    using m(1) by (simp add: claim_latest_def)
  moreover define m1 where "m1 = set_state i slot_audio_claimed m"
  ultimately have run: "\<exists>ok. run (commit ?c) m1 = (m', ok, c')"
    using assms(2) by (auto split: prod.splits)
  have m1: "initialized m1" "active_index m1 = 0" "active_generation m1 = g0"
    "slots m1 = (slots m)[i := ?s\<lparr>sl_state := slot_audio_claimed\<rparr>]"
    using m i by (simp_all add: m1_def set_state_def update_slot_def)
  from i(3) show ?thesis
  proof
    assume "i = 1 \<and> older p y"
    with old [of y] run l i a m m1 show ?thesis
      by (auto simp: commit_def exchange_run_simps reclaim_stale_ready_def exchange_active_def)
  next
    assume "i = 2 \<and> older p x"
    with old [of x] run l i a m m1 show ?thesis
      by (auto simp: commit_def exchange_run_simps reclaim_stale_ready_def exchange_active_def)
  qed
qed

text \<open>
  C18: The audio thread gets the newest configuration. After any publications with rising generations
  and no interference, claiming and committing makes the last published configuration the active one,
  with its generation.
\<close>

theorem newest_configuration_wins:
  assumes "ps \<noteq> []" "sorted_wrt (\<lambda>p q. generation_newer (snd q) (snd p)) (initial # ps)"
  shows "case run (audio_thread [call_claim_latest, call_commit] invalidate)
           (fst (run (main_thread ps) (exchange_start (fst initial) (snd initial)))) of
         (m, _) \<Rightarrow> (exchange_active m, active_generation m) = last ps"
proof -
  obtain c g qs where ps: "ps = (c, g) # qs" using assms(1) by (metis neq_Nil_conv prod.collapse)
  then have "latest_ready (snd initial) (c, g) (fst (run (publish c g) (exchange_start (fst initial) (snd initial))))"
    using assms(2) by (intro first_publication) simp
  then have "latest_ready (snd initial) (last ps) (fst (run (main_thread ps) (exchange_start (fst initial) (snd initial))))"
    using all_publications [of "snd initial" "(c, g)" _ qs] assms(2) ps by (auto simp: case_prod_unfold)
  from run_claim_commit [OF this] show ?thesis by (auto split: prod.splits)
qed

lemma newest_configuration_wins_witness:
  "case run (audio_thread [call_claim_latest, call_commit] invalidate)
      (fst (run (main_thread [(PreparedConfig_default, 1), (PreparedConfig_default\<lparr>pc_sample_rate := 1\<rparr>, 2),
         (PreparedConfig_default, 5)]) (exchange_start PreparedConfig_default 0))) of
     (m, _) \<Rightarrow> (exchange_active m, active_generation m) = (PreparedConfig_default, 5)"
proof -
  have "sorted_wrt (\<lambda>p q. generation_newer (snd q) (snd p))
      [(PreparedConfig_default, 0), (PreparedConfig_default, 1), (PreparedConfig_default\<lparr>pc_sample_rate := 1\<rparr>, 2),
       (PreparedConfig_default, 5)]"
    by (simp add: generation_newer_def Let_def)
  from newest_configuration_wins [OF _ this] show ?thesis by simp
qed


end
