(* ===== verification/Seqlock.thy ===== *)
theory Seqlock
  imports Atomic_Programs
begin

text \<open>
  The odd/even sequence protocol that three parts of the plugin use to hand a group of words to a reader
  without a lock: \<open>AtomicConfigRequest\<close>, \<open>TunerTelemetry\<close> and \<open>CalibrationBankTransport\<close>. The locale \<open>seqlock\<close> is what a writer
  promises: \<open>enter\<close> makes the sequence odd, \<open>leave\<close> makes it even again and higher, and neither touches
  the payload (the memory less its sequence). Its lemmas say that steps of such a writer stay within the
  relation \<open>writes\<close>, and that a reader that sees the same even sequence before and after its loads has
  loaded all of them from one published payload. \<open>limit\<close> is where the sequence word would wrap.
\<close>

text \<open>A reader's loads one after the other; the words are collected in order.\<close>

fun load_all :: "('m \<Rightarrow> 'w) list \<Rightarrow> ('w list \<Rightarrow> ('m, 'a) prog) \<Rightarrow> ('m, 'a) prog" where
  "load_all [] k = k []"
| "load_all (g # gs) k = load g (\<lambda>w. load_all gs (\<lambda>ws. k (w # ws)))"

lemma run_load_all [simp]: "run (load_all gs k) m = run (k (map (\<lambda>g. g m) gs)) m"
  by (induction gs arbitrary: k) simp_all

text \<open>A writer's stores one after the other.\<close>

fun store_all :: "('m \<Rightarrow> 'm) list \<Rightarrow> ('m, 'a) prog \<Rightarrow> ('m, 'a) prog" where
  "store_all [] k = k"
| "store_all (f # fs) k = modify f (store_all fs k)"

lemma run_store_all [simp]: "run (store_all fs k) m = run k (fold (\<lambda>f. f) fs m)"
  by (induction fs arbitrary: m) simp_all

locale seqlock =
  fixes version :: "'m \<Rightarrow> nat" and payload :: "'m \<Rightarrow> 'm" and enter leave :: "'m \<Rightarrow> 'm" and limit :: nat
  assumes enter_version: "even (version m) \<Longrightarrow> version m + 1 < limit \<Longrightarrow> version (enter m) = version m + 1"
    and leave_version: "odd (version m) \<Longrightarrow> version m + 1 < limit \<Longrightarrow> version (leave m) = version m + 1"
    and enter_payload: "payload (enter m) = payload m"
    and leave_payload: "payload (leave m) = payload m"
begin

definition published :: "'m set \<Rightarrow> 'm \<Rightarrow> bool" where
  "published P m \<longleftrightarrow> (even (version m) \<longrightarrow> payload m \<in> P)"

definition writes :: "'m set \<Rightarrow> 'm \<Rightarrow> 'm \<Rightarrow> bool" where
  "writes P m m' \<longleftrightarrow>
     version m \<le> version m' \<and> (version m' = version m \<and> even (version m) \<longrightarrow> payload m' = payload m)
     \<and> (published P m \<longrightarrow> published P m')"

lemma writes_order: "reflp (writes P)" "transp (writes P)"
proof -
  show "transp (writes P)"
  proof (rule transpI)
    fix x y z assume a: "writes P x y" "writes P y z"
    then have "version y = version x" if "version z = version x"
      using that by (simp add: writes_def)
    with a show "writes P x z" unfolding writes_def by (metis order_trans)
  qed
qed (simp add: reflp_def writes_def)

lemma enter_writes: "even (version m) \<Longrightarrow> version m + 1 < limit \<Longrightarrow> writes P m (enter m)"
  using enter_version [of m] by (simp add: writes_def published_def)

lemma store_writes: "odd (version m) \<Longrightarrow> version (f m) = version m \<Longrightarrow> writes P m (f m)"
  by (simp add: writes_def published_def)

lemma leave_writes:
  "odd (version m) \<Longrightarrow> version m + 1 < limit \<Longrightarrow> payload m \<in> P \<Longrightarrow> writes P m (leave m)"
  using leave_version [of m] leave_payload [of m] by (simp add: writes_def published_def)

lemma writes_refl: "writes P m m"
  using writes_order(1) by (rule reflpD)

text \<open>A whole write: nothing else changes the memory (the reader only loads).\<close>

lemma store_all_rg:
  assumes "odd (version m)" "list_all (\<lambda>f. \<forall>m. version (f m) = version m) fs"
    "rg (=) (writes P) Q k (fold (\<lambda>f. f) fs m)"
  shows "rg (=) (writes P) Q (store_all fs k) m"
  using assms by (induction fs arbitrary: m) (auto simp: rg_modify intro!: store_writes)

lemma store_all_version:
  assumes "list_all (\<lambda>f. \<forall>m. version (f m) = version m) fs"
  shows "version (fold (\<lambda>f. f) fs m) = version m"
  using assms by (induction fs arbitrary: m) auto

text \<open>
  The reader: \<open>reading mb ok m\<close> says that if the sequence is still that of \<open>mb\<close>, the payload is too and
  the words loaded so far are right (\<open>ok\<close>).
\<close>

definition reading :: "'m set \<Rightarrow> 'm \<Rightarrow> bool \<Rightarrow> 'm \<Rightarrow> bool" where
  "reading P mb ok m \<longleftrightarrow>
     version mb \<le> version m \<and> (version m = version mb \<longrightarrow> payload m = payload mb \<and> ok) \<and> published P m"

abbreviation reader_rg :: "'m set \<Rightarrow> ('a \<Rightarrow> 'm \<Rightarrow> bool) \<Rightarrow> ('m, 'a) prog \<Rightarrow> 'm \<Rightarrow> bool" where
  "reader_rg P \<equiv> rg (writes P) (=)"

lemma reading_start: "published P m \<Longrightarrow> reading P m True m"
  by (simp add: reading_def)

lemma reading_stable:
  assumes "reading P mb ok m" "even (version mb)" "writes P m m'"
  shows "reading P mb ok m'"
  using assms by (auto simp: reading_def writes_def)

lemma published_stable: "published P m \<Longrightarrow> writes P m m' \<Longrightarrow> published P m'"
  by (simp add: writes_def)

lemma load_reading:
  assumes "reading P mb ok m" "even (version mb)" "\<And>m. g (payload m) = g m"
    "\<And>w m'. reading P mb (ok \<and> w = g mb) m' \<Longrightarrow> reader_rg P Q (k w) m'"
  shows "reader_rg P Q (load g k) m"
  unfolding rg_load
proof (intro allI impI conjI refl)
  fix m' assume "writes P m m'"
  with assms(1,2) have r: "reading P mb ok m'" by (rule reading_stable)
  have "g m' = g mb" if "payload m' = payload mb" using that assms(3) by metis
  with r have "reading P mb (ok \<and> g m' = g mb) m'" by (auto simp: reading_def)
  then show "reader_rg P Q (k (g m')) m'" by (rule assms(4))
qed

lemma load_all_reading:
  assumes "reading P mb ok m" "even (version mb)" "list_all (\<lambda>g. \<forall>m. g (payload m) = g m) gs"
    "\<And>ws m'. reading P mb (ok \<and> ws = map (\<lambda>g. g mb) gs) m' \<Longrightarrow> reader_rg P Q (k ws) m'"
  shows "reader_rg P Q (load_all gs k) m"
  using assms
proof (induction gs arbitrary: k ok m)
  case (Cons g gs)
  have "reader_rg P Q (load_all gs (\<lambda>ws. k (w # ws))) m'" if "reading P mb (ok \<and> w = g mb) m'" for w m'
    using that Cons.prems(2,3)
    by (intro Cons.IH [OF that]) (auto intro!: Cons.prems(4) simp: conj_ac elim!: back_subst [of "\<lambda>b. reading P mb b _"])
  with Cons.prems(1-3) show ?case by (auto intro!: load_reading)
qed simp

text \<open>Equal even sequences before and after: the words are those of a published payload.\<close>

lemma reading_end:
  assumes "reading P mb ok m" "version m = version mb" "even (version mb)"
  shows "ok \<and> payload mb \<in> P"
  using assms by (auto simp: reading_def published_def)

text \<open>Writer and reader together.\<close>

lemma seqlock_threads: "two_threads (=) (writes P) (writes P) (=)"
  by unfold_locales (use writes_order writes_refl in \<open>auto simp: reflp_def transp_def\<close>)

lemma reader_result:
  assumes "par_steps (m, p, q) (m', p', Ret b)" "rg (=) (writes P) Q p m" "reader_rg P (\<lambda>b _. Q' b) q m"
  shows "Q' b"
  using two_threads.final_right [OF seqlock_threads assms] .

end

end
