(* ===== verification/Config_Request.thy ===== *)
theory Config_Request
  imports Config_Exchange Seqlock
begin

unbundle bit_operations_syntax

text \<open>
  The latest requested configuration, shared without a lock (class \<open>AtomicConfigRequest\<close> of
  \<open>src/native/plugin/prepared_config_exchange.cpp\<close>): fourteen 64-bit fields and a generation under an
  odd/even sequence. \<open>publish\<close> belongs to the main thread, \<open>snapshot\<close> to the readers; \<open>reset\<close> runs while
  nobody reads. Also the staging of a prepared configuration and the split of a configuration into its
  structural and its runtime part. The interpretation \<open>request\<close> of \<open>seqlock\<close> is here.
\<close>

subsection \<open>Staging\<close>

definition f64_abs_diff_exceeds :: "f64 \<Rightarrow> f64 \<Rightarrow> f64 \<Rightarrow> bool" where
  "f64_abs_diff_exceeds x y bound \<longleftrightarrow> bound < \<bar>x - y\<bar>"

definition valid_requested_config :: "PersistentConfig \<Rightarrow> bool" where
  "valid_requested_config config \<longleftrightarrow>
     list_all (\<lambda>pid. case (find_parameter pid, parameter_value config status_ready pid) of
         (Some spec, Some value) \<Rightarrow>
           (let canonical = canonical_plain spec value
            in is_finite value \<and> is_finite canonical
               \<and> \<not> f64_abs_diff_exceeds value canonical (f64_rat 1 1000000000000))
       | _ \<Rightarrow> False) persistent_parameter_ids"

definition stage_prepared_config :: "PersistentConfig \<Rightarrow> f64 \<Rightarrow> PreparedConfig option" where
  "stage_prepared_config requested sample_rate =
     (if \<not> is_finite sample_rate \<or> sample_rate \<le> 0 then None
      else let sample_period = 1 div sample_rate;
               decision_period = f64_of_int (int kDecisionQuantum) div sample_rate
           in if \<not> is_finite sample_period \<or> sample_period \<le> 0 \<or> \<not> is_finite decision_period
                 \<or> decision_period \<le> 0 \<or> \<not> valid_requested_config requested
              then None
              else Some \<lparr>pc_requested = requested, pc_sample_rate = sample_rate,
                         pc_sample_period = sample_period, pc_decision_period = decision_period\<rparr>)"

definition structural_config_equal :: "PersistentConfig \<Rightarrow> PersistentConfig \<Rightarrow> bool" where
  "structural_config_equal left right \<longleftrightarrow>
     midi_routing left = midi_routing right \<and> profile_mode left = profile_mode right
     \<and> f64_eq (a4_hz left) (a4_hz right) \<and> lowest_note left = lowest_note right
     \<and> highest_note left = highest_note right \<and> max_polyphony left = max_polyphony right
     \<and> max_fret left = max_fret right \<and> midi_channel left = midi_channel right"

definition copy_structural_config :: "PersistentConfig \<Rightarrow> PersistentConfig \<Rightarrow> PersistentConfig" where
  "copy_structural_config destination source =
     destination\<lparr>midi_routing := midi_routing source, profile_mode := profile_mode source,
       a4_hz := a4_hz source, lowest_note := lowest_note source, highest_note := highest_note source,
       max_polyphony := max_polyphony source, max_fret := max_fret source,
       midi_channel := midi_channel source\<rparr>"

definition copy_runtime_config :: "PersistentConfig \<Rightarrow> PersistentConfig \<Rightarrow> PersistentConfig" where
  "copy_runtime_config destination source =
     destination\<lparr>input_trim_db := input_trim_db source, sensitivity := sensitivity source,
       response := response source, velocity_mode := velocity_mode source,
       fixed_velocity := fixed_velocity source, dry_passthrough := dry_passthrough source\<rparr>"

subsection \<open>The atomic request\<close>

record AtomicConfigRequest =
  acr_sequence :: u64
  acr_fields :: "u64 list"
  acr_generation :: u64

definition kFieldCount :: nat where "kFieldCount = 14"

text \<open>The values \<open>store_fields\<close> stores, by field, and what \<open>load_fields\<close> makes of the loaded values.\<close>

definition field_values :: "PersistentConfig \<Rightarrow> u64 list" where
  "field_values c =
     [ucast (MidiRouting_to_u8 (midi_routing c)), ucast (ProfileMode_to_u8 (profile_mode c)),
      f64_bits (a4_hz c), f64_bits (input_trim_db c), ucast (sensitivity c), ucast (response c),
      ucast (lowest_note c), ucast (highest_note c), ucast (max_polyphony c), ucast (max_fret c),
      ucast (VelocityMode_to_u8 (velocity_mode c)), ucast (fixed_velocity c), ucast (midi_channel c),
      (if dry_passthrough c then 1 else 0)]"

definition config_of_fields :: "u64 list \<Rightarrow> PersistentConfig" where
  "config_of_fields w =
     \<lparr>midi_routing = MidiRouting_of_u8 (ucast (w ! 0)), profile_mode = ProfileMode_of_u8 (ucast (w ! 1)),
      a4_hz = F64 (w ! 2), input_trim_db = F64 (w ! 3), sensitivity = ucast (w ! 4),
      response = ucast (w ! 5), lowest_note = ucast (w ! 6), highest_note = ucast (w ! 7),
      max_polyphony = ucast (w ! 8), max_fret = ucast (w ! 9),
      velocity_mode = VelocityMode_of_u8 (ucast (w ! 10)), fixed_velocity = ucast (w ! 11),
      midi_channel = ucast (w ! 12), dry_passthrough = (w ! 13 \<noteq> 0)\<rparr>"

definition store_field :: "nat \<Rightarrow> u64 \<Rightarrow> AtomicConfigRequest \<Rightarrow> AtomicConfigRequest" where
  "store_field i w m = m\<lparr>acr_fields := (acr_fields m)[i := w]\<rparr>"

definition set_sequence :: "u64 \<Rightarrow> AtomicConfigRequest \<Rightarrow> AtomicConfigRequest" where
  "set_sequence s m = m\<lparr>acr_sequence := s\<rparr>"

definition set_generation :: "u64 \<Rightarrow> AtomicConfigRequest \<Rightarrow> AtomicConfigRequest" where
  "set_generation g m = m\<lparr>acr_generation := g\<rparr>"

type_synonym 'a request_prog = "(AtomicConfigRequest, 'a) prog"

definition field_stores :: "PersistentConfig \<Rightarrow> (AtomicConfigRequest \<Rightarrow> AtomicConfigRequest) list" where
  "field_stores c = map2 store_field [0..<kFieldCount] (field_values c)"

definition store_fields :: "PersistentConfig \<Rightarrow> 'a request_prog \<Rightarrow> 'a request_prog" where
  "store_fields c = store_all (field_stores c)"

definition field_loads :: "(AtomicConfigRequest \<Rightarrow> u64) list" where
  "field_loads = map (\<lambda>i m. acr_fields m ! i) [0..<kFieldCount]"

definition load_fields :: "(PersistentConfig \<Rightarrow> 'a request_prog) \<Rightarrow> 'a request_prog" where
  "load_fields k = load_all field_loads (\<lambda>ws. k (config_of_fields ws))"

definition AtomicConfigRequest_init :: "PersistentConfig \<Rightarrow> u64 \<Rightarrow> AtomicConfigRequest" where
  "AtomicConfigRequest_init initial generation =
     fold (\<lambda>f. f) (field_stores initial)
       \<lparr>acr_sequence = 0, acr_fields = replicate kFieldCount 0, acr_generation = generation\<rparr>"

definition request_publish :: "PersistentConfig \<Rightarrow> u64 \<Rightarrow> bool request_prog" where
  "request_publish config generation =
     load acr_sequence (\<lambda>s.
       if s AND 1 \<noteq> 0 then Ret False
       else compare_exchange (\<lambda>m. acr_sequence m = s) (set_sequence (s + 1)) (\<lambda>ok.
         if \<not> ok then Ret False
         else load acr_generation (\<lambda>current.
           if \<not> generation_newer generation current then modify (set_sequence (s + 2)) (Ret False)
           else store_fields config
                  (modify (set_generation generation) (modify (set_sequence (s + 2)) (Ret True))))))"

definition atomic_request_reset :: "PersistentConfig \<Rightarrow> u64 \<Rightarrow> unit request_prog" where
  "atomic_request_reset config generation =
     load acr_sequence (\<lambda>s.
       let even_sequence = (if s AND 1 = 0 then s else s + 1)
       in modify (set_sequence (even_sequence + 1))
            (store_fields config
               (modify (set_generation generation) (modify (set_sequence (even_sequence + 2)) (Ret ())))))"

fun snapshot_attempts :: "nat \<Rightarrow> (PersistentConfig \<times> u64) option request_prog" where
  "snapshot_attempts 0 = Ret None"
| "snapshot_attempts (Suc n) =
     load acr_sequence (\<lambda>before.
       if before AND 1 \<noteq> 0 then snapshot_attempts n
       else load acr_generation (\<lambda>g. load_fields (\<lambda>c. load acr_sequence (\<lambda>after.
         if before = after \<and> after AND 1 = 0 then Ret (Some (c, g)) else snapshot_attempts n))))"

definition snapshot :: "u32 \<Rightarrow> (PersistentConfig \<times> u64) option request_prog" where
  "snapshot maximum_attempts = snapshot_attempts (unat maximum_attempts)"

subsection \<open>The protocol\<close>

definition request_payload :: "AtomicConfigRequest \<Rightarrow> AtomicConfigRequest" where
  "request_payload m = m\<lparr>acr_sequence := 0\<rparr>"

interpretation request: seqlock
  "\<lambda>m. unat (acr_sequence m)" request_payload
  "\<lambda>m. set_sequence (acr_sequence m + 1) m" "\<lambda>m. set_sequence (acr_sequence m + 1) m" "2 ^ 64"
  by unfold_locales (auto simp: set_sequence_def request_payload_def unat_next)

end
