(* ===== verification/Config_Request_Properties.thy ===== *)
theory Config_Request_Properties
  imports Config_Request State_Properties
begin

unbundle bit_operations_syntax

text \<open>
  The properties of the shared request: a snapshot is one published configuration with its generation,
  in every interleaving; and of staging and of the structural/runtime split.
\<close>

subsection \<open>Fields\<close>

lemma ucast_u8_u64 [simp]: "ucast (ucast b :: u64) = b" for b :: u8
  by (rule bit_word_eqI) (simp add: bit_simps)

lemma config_of_field_values:
  assumes "enums_listed c"
  shows "config_of_fields (field_values c) = c"
proof -
  have "MidiRouting_of_u8 (MidiRouting_to_u8 (midi_routing c)) = midi_routing c"
    "ProfileMode_of_u8 (ProfileMode_to_u8 (profile_mode c)) = profile_mode c"
    "VelocityMode_of_u8 (VelocityMode_to_u8 (velocity_mode c)) = velocity_mode c"
    using assms by (auto simp: enums_listed_def codec_simps)
  then show ?thesis
    by (intro PersistentConfig.equality) (simp_all add: config_of_fields_def field_values_def)
qed

lemma length_field_values [simp]: "length (field_values c) = kFieldCount"
  by (simp add: field_values_def kFieldCount_def)

lemma fold_store_field:
  assumes "length (acr_fields m) = k + length vs"
  shows "fold (\<lambda>f. f) (map2 store_field [k..<k + length vs] vs) m
     = m\<lparr>acr_fields := take k (acr_fields m) @ vs\<rparr>"
  using assms
proof (induction vs arbitrary: k m)
  case (Cons v vs)
  have "[k..<Suc (k + length vs)] = k # [Suc k..<Suc (k + length vs)]"
    by (rule upt_conv_Cons) simp
  with Cons.IH [of "store_field k v m" "Suc k"] Cons.prems show ?case
    by (simp add: store_field_def take_Suc_conv_app_nth del: upt_Suc)
qed simp

lemma fold_field_stores:
  "length (acr_fields m) = kFieldCount \<Longrightarrow> fold (\<lambda>f. f) (field_stores c) m = m\<lparr>acr_fields := field_values c\<rparr>"
  using fold_store_field [of m 0 "field_values c"] by (simp add: field_stores_def)

lemma load_fields_values:
  "length (acr_fields m) = kFieldCount \<Longrightarrow> map (\<lambda>g. g m) field_loads = acr_fields m"
proof -
  assume "length (acr_fields m) = kFieldCount"
  then have "map (\<lambda>g. g m) field_loads = map ((!) (acr_fields m)) [0..<length (acr_fields m)]"
    by (simp add: field_loads_def)
  then show ?thesis by (simp only: map_nth)
qed

lemma field_loads_payload: "list_all (\<lambda>g. \<forall>m. g (request_payload m) = g m) field_loads"
  by (simp add: field_loads_def list_all_iff request_payload_def)

lemma field_stores_version:
  "list_all (\<lambda>f. \<forall>m. unat (acr_sequence (f m)) = unat (acr_sequence m)) (field_stores c)"
  by (auto simp: field_stores_def list_all_iff set_zip store_field_def)

subsection \<open>Publishing and reading\<close>

text \<open>The memory carries a configuration with its generation.\<close>

definition carries :: "(PersistentConfig \<times> u64) set \<Rightarrow> AtomicConfigRequest set" where
  "carries Pub = {m. \<exists>(c, g) \<in> Pub. acr_fields m = field_values c \<and> acr_generation m = g}"

lemma carries_payload [simp]: "request_payload m \<in> carries Pub \<longleftrightarrow> m \<in> carries Pub"
  "set_sequence s m \<in> carries Pub \<longleftrightarrow> m \<in> carries Pub"
  by (simp_all add: carries_def request_payload_def set_sequence_def)

definition request_wf :: "(PersistentConfig \<times> u64) set \<Rightarrow> AtomicConfigRequest \<Rightarrow> bool" where
  "request_wf Pub m \<longleftrightarrow> length (acr_fields m) = kFieldCount \<and> even (unat (acr_sequence m)) \<and> m \<in> carries Pub"

lemma set_sequence_simps [simp]:
  "acr_sequence (set_sequence s m) = s" "acr_fields (set_sequence s m) = acr_fields m"
  "acr_generation (set_sequence s m) = acr_generation m" "set_sequence s (set_sequence s' m) = set_sequence s m"
  "set_sequence (acr_sequence m) m = m"
  by (simp_all add: set_sequence_def)

lemma unat_add_2: "unat s + 2 < 2 ^ 64 \<Longrightarrow> unat (s + 2) = unat s + 2" for s :: u64
  by (simp add: unat_word_ariths)

lemma request_publish_rg:
  assumes "request_wf Pub m" "unat (acr_sequence m) + 2 < 2 ^ 64" "(c, g) \<in> Pub"
  shows "rg (=) (request.writes (carries Pub))
     (\<lambda>_ m'. request_wf Pub m' \<and> unat (acr_sequence m') \<le> unat (acr_sequence m) + 2) (request_publish c g) m"
proof -
  let ?W = "request.writes (carries Pub)" and ?s = "acr_sequence m"
  let ?Q = "\<lambda>(_ :: bool) m'. request_wf Pub m' \<and> unat (acr_sequence m') \<le> unat ?s + 2"
  note wf = assms(1) [unfolded request_wf_def]
  have s: "unat (?s + 1) = unat ?s + 1" "unat (?s + 2) = unat ?s + 2"
    using assms(2) unat_next [of ?s] unat_add_2 [of ?s] by simp_all
  define m1 where "m1 = set_sequence (?s + 1) m"
  have m1: "odd (unat (acr_sequence m1))" "acr_sequence m1 = ?s + 1" "m1 \<in> carries Pub"
    "length (acr_fields m1) = kFieldCount" using wf s by (simp_all add: m1_def)
  have enter: "?W m m1" using request.enter_writes [of m] wf s assms(2) by (simp add: m1_def)
  have leave: "?W m' (set_sequence (?s + 2) m')" "\<And>b :: bool. ?Q b (set_sequence (?s + 2) m')"
    if "acr_sequence m' = ?s + 1" "m' \<in> carries Pub" "length (acr_fields m') = kFieldCount" for m'
  proof -
    have "?s + 1 + 1 = ?s + 2" by simp
    with request.leave_writes [of m' "carries Pub"] that m1(1,2) s assms(2)
    show "?W m' (set_sequence (?s + 2) m')" by simp
    show "?Q (b :: bool) (set_sequence (?s + 2) m')" for b using that wf s by (simp add: request_wf_def)
  qed
  have stored: "rg (=) ?W ?Q (store_fields c (modify (set_generation g) (modify (set_sequence (?s + 2)) (Ret True)))) m1"
    unfolding store_fields_def
  proof (rule request.store_all_rg [OF m1(1) field_stores_version])
    let ?m2 = "m1\<lparr>acr_fields := field_values c\<rparr>"
    have fold: "fold (\<lambda>f. f) (field_stores c) m1 = ?m2" by (rule fold_field_stores [OF m1(4)])
    have "?W ?m2 (set_generation g ?m2)"
      using m1(1) by (intro request.store_writes) (simp_all add: set_generation_def)
    moreover have "set_generation g ?m2 \<in> carries Pub"
      using assms(3) by (auto simp: carries_def set_generation_def)
    ultimately show "rg (=) ?W ?Q (modify (set_generation g) (modify (set_sequence (?s + 2)) (Ret True)))
        (fold (\<lambda>f. f) (field_stores c) m1)"
      using leave [of "set_generation g ?m2"] m1(2) by (simp add: fold rg_modify set_generation_def)
  qed
  show ?thesis
    unfolding request_publish_def
    using wf enter stored leave [OF m1(2,3,4)] request.writes_refl
    by (simp add: rg_load rg_compare_exchange rg_modify low_bit m1_def [symmetric])
qed

lemma snapshot_rg:
  assumes "request.published (carries Pub) m" "\<forall>(c, g) \<in> Pub. enums_listed c"
  shows "request.reader_rg (carries Pub) (\<lambda>r _. case r of None \<Rightarrow> True | Some p \<Rightarrow> p \<in> Pub) (snapshot_attempts n) m"
  using assms(1)
proof (induction n arbitrary: m)
  case (Suc n)
  let ?R = "request.reader_rg (carries Pub) (\<lambda>r _. case r of None \<Rightarrow> True | Some p \<Rightarrow> p \<in> Pub)"
  note again = Suc.IH
  have read: "?R (load acr_generation (\<lambda>g. load_fields (\<lambda>c. load acr_sequence (\<lambda>after.
         if acr_sequence mb = after \<and> after AND 1 = 0 then Ret (Some (c, g)) else snapshot_attempts n)))) mb"
    if mb: "request.published (carries Pub) mb" "even (unat (acr_sequence mb))" for mb
    unfolding load_fields_def
  proof (rule request.load_reading [OF request.reading_start [OF mb(1)] mb(2)], simp add: request_payload_def,
      rule request.load_all_reading [OF _ mb(2) field_loads_payload], assumption)
    fix g ws m'
    let ?ok = "(True \<and> g = acr_generation mb) \<and> ws = map (\<lambda>g. g mb) field_loads"
    assume r: "request.reading (carries Pub) mb ?ok m'"
    show "?R (load acr_sequence (\<lambda>after. if acr_sequence mb = after \<and> after AND 1 = 0
           then Ret (Some (config_of_fields ws, g)) else snapshot_attempts n)) m'"
      unfolding rg_load
    proof (intro allI impI conjI refl)
      fix m'' assume "request.writes (carries Pub) m' m''"
      with r mb(2) have r: "request.reading (carries Pub) mb ?ok m''" by (rule request.reading_stable)
      show "?R (if acr_sequence mb = acr_sequence m'' \<and> acr_sequence m'' AND 1 = 0
           then Ret (Some (config_of_fields ws, g)) else snapshot_attempts n) m''"
      proof (cases "acr_sequence mb = acr_sequence m'' \<and> acr_sequence m'' AND 1 = 0")
        case True
        with request.reading_end [OF r _ mb(2)] have "?ok" "mb \<in> carries Pub" by simp_all
        then obtain c where "(c, acr_generation mb) \<in> Pub" "acr_fields mb = field_values c"
          by (auto simp: carries_def)
        with \<open>?ok\<close> load_fields_values [of mb] assms(2) config_of_field_values [of c]
        have "(config_of_fields ws, g) \<in> Pub" by auto
        with True show ?thesis by simp
      next
        case False
        from r have "request.published (carries Pub) m''" by (simp add: request.reading_def)
        with again show ?thesis unfolding if_not_P [OF False] by simp
      qed
    qed
  qed
  show ?case
    unfolding snapshot_attempts.simps rg_load
    using Suc.prems again read request.published_stable by (auto simp: low_bit)
qed simp

fun request_thread :: "(PersistentConfig \<times> u64) list \<Rightarrow> unit request_prog" where
  "request_thread [] = Ret ()"
| "request_thread ((c, g) # ps) = bind_prog (request_publish c g) (\<lambda>_. request_thread ps)"

lemma request_thread_rg:
  assumes "request_wf Pub m" "unat (acr_sequence m) + 2 * length ps < 2 ^ 64" "set ps \<subseteq> Pub"
  shows "rg (=) (request.writes (carries Pub)) (\<lambda>_ _. True) (request_thread ps) m"
  using assms
proof (induction ps arbitrary: m rule: request_thread.induct)
  case (2 c g ps)
  then have "rg (=) (request.writes (carries Pub))
     (\<lambda>_ m'. request_wf Pub m' \<and> unat (acr_sequence m') \<le> unat (acr_sequence m) + 2) (request_publish c g) m"
    by (intro request_publish_rg) auto
  then show ?case
    unfolding request_thread.simps
    by (rule rg_bind) (use 2 in \<open>auto simp: reflp_def\<close>)
qed simp



end
