(* ===== verification/Tuner_Telemetry.thy ===== *)
theory Tuner_Telemetry
  imports Types_Model Float64 Seqlock
begin

unbundle bit_operations_syntax

text \<open>
  The tuner display's transport (\<open>src/native/src/tuner_telemetry.cpp\<close>): the audio thread packs a
  snapshot of the detector into 32-bit words under an odd/even sequence, the editor reads it without a
  lock. First the packing of a frame and of a voice, then the writer's and the reader's programs of
  atomic actions. The interpretation \<open>telemetry\<close> of \<open>seqlock\<close> is here. The fields that only the offline
  replay build adds to a voice are left out.
\<close>

subsection \<open>Frames and voices\<close>

datatype TunerFrameState = frame_unavailable | frame_no_signal | frame_tracking
datatype TunerVoiceState = voice_settling | voice_coasting | voice_tracking

fun TunerFrameState_to_u32 :: "TunerFrameState \<Rightarrow> u32" where
  "TunerFrameState_to_u32 frame_unavailable = 0"
| "TunerFrameState_to_u32 frame_no_signal = 1"
| "TunerFrameState_to_u32 frame_tracking = 2"

definition TunerFrameState_of_u32 :: "u32 \<Rightarrow> TunerFrameState" where
  "TunerFrameState_of_u32 w =
     (if w = 0 then frame_unavailable else if w = 1 then frame_no_signal else frame_tracking)"

fun TunerVoiceState_to_u32 :: "TunerVoiceState \<Rightarrow> u32" where
  "TunerVoiceState_to_u32 voice_settling = 0"
| "TunerVoiceState_to_u32 voice_coasting = 1"
| "TunerVoiceState_to_u32 voice_tracking = 2"

definition TunerVoiceState_of_u32 :: "u32 \<Rightarrow> TunerVoiceState" where
  "TunerVoiceState_of_u32 w =
     (if w = 0 then voice_settling else if w = 1 then voice_coasting else voice_tracking)"

definition kUnassignedTunerString :: u8 where "kUnassignedTunerString = 0xFF"
definition kUnassignedPitchEvidenceGroup :: u8 where "kUnassignedPitchEvidenceGroup = 0"
definition kMaxCandidates :: nat where "kMaxCandidates = 87"

text \<open>A \<open>std::int16_t\<close> is a 16-bit word read as signed.\<close>

record TunerVoice =
  tv_midi_note :: u8
  tv_cents_q8 :: u16
  tv_confidence_q15 :: u16
  tv_age_ticks :: u16
  tv_state :: TunerVoiceState
  tv_cents_valid :: bool
  tv_string_index :: u8
  tv_evidence_group :: u8
  tv_evidence_members :: u8
  tv_beat_hz_q8 :: u16

definition TunerVoice_default :: TunerVoice where
  "TunerVoice_default =
     \<lparr>tv_midi_note = 0, tv_cents_q8 = 0, tv_confidence_q15 = 0, tv_age_ticks = 0,
      tv_state = voice_settling, tv_cents_valid = False, tv_string_index = kUnassignedTunerString,
      tv_evidence_group = kUnassignedPitchEvidenceGroup, tv_evidence_members = 0, tv_beat_hz_q8 = 0\<rparr>"

definition shares_pitch_evidence :: "TunerVoice \<Rightarrow> bool" where
  "shares_pitch_evidence v \<longleftrightarrow>
     (let members = tv_evidence_members v
      in tv_evidence_group v \<noteq> kUnassignedPitchEvidenceGroup \<and> members \<noteq> 0
         \<and> members AND (members - 1) \<noteq> 0)"

record TunerSnapshot =
  ts_generation :: u32
  ts_state :: TunerFrameState
  ts_voice_count :: u8
  ts_max_polyphony :: u8
  ts_input_peak_q15 :: u16
  ts_voices :: "TunerVoice list"

definition TunerSnapshot_default :: TunerSnapshot where
  "TunerSnapshot_default =
     \<lparr>ts_generation = 0, ts_state = frame_unavailable, ts_voice_count = 0, ts_max_polyphony = 1,
      ts_input_peak_q15 = 0, ts_voices = replicate kMaxVoices TunerVoice_default\<rparr>"

subsection \<open>Packing\<close>

definition kCentsValidBit :: u32 where "kCentsValidBit = push_bit 10 1"
definition kStringValidBit :: u32 where "kStringValidBit = push_bit 11 1"
definition kMinimumCentsQ8 :: int where "kMinimumCentsQ8 = -50 * 256"
definition kMaximumCentsQ8 :: int where "kMaximumCentsQ8 = 50 * 256"
definition kMaximumConfidenceQ15 :: u16 where "kMaximumConfidenceQ15 = 32767"
definition kMaximumInputPeakQ15 :: u32 where "kMaximumInputPeakQ15 = 32767"

definition pack_header :: "TunerFrameState \<Rightarrow> u8 \<Rightarrow> u8 \<Rightarrow> u32" where
  "pack_header state voice_count max_poly =
     (let safe_state = min (TunerFrameState_to_u32 state) (TunerFrameState_to_u32 frame_tracking);
          safe_count = min (ucast voice_count) (of_nat kMaxVoices);
          safe_max = std_clamp (ucast max_poly) 1 (of_nat kMaxVoices)
      in push_bit 16 safe_max OR push_bit 8 safe_state OR safe_count)"

definition unpack_frame_state :: "u32 \<Rightarrow> TunerFrameState" where
  "unpack_frame_state header =
     (let raw = drop_bit 8 header AND 0xFF
      in if raw \<le> TunerFrameState_to_u32 frame_tracking then TunerFrameState_of_u32 raw else frame_unavailable)"

definition unpack_max_polyphony :: "u32 \<Rightarrow> u8" where
  "unpack_max_polyphony header = ucast (std_clamp (drop_bit 16 header) 1 (of_nat kMaxVoices) :: u32)"

definition clamp_cents :: "u16 \<Rightarrow> u16" where
  "clamp_cents cents =
     (if sint cents < kMinimumCentsQ8 then word_of_int kMinimumCentsQ8
      else if kMaximumCentsQ8 < sint cents then word_of_int kMaximumCentsQ8 else cents)"

definition pack_voice_a :: "TunerVoice \<Rightarrow> u32" where
  "pack_voice_a v =
     (let safe_state = min (TunerVoiceState_to_u32 (tv_state v)) (TunerVoiceState_to_u32 voice_tracking);
          string_valid = unat (tv_string_index v) < kMaxVoices
      in ucast (min (tv_midi_note v) 127)
         OR push_bit 8 safe_state
         OR (if tv_cents_valid v then kCentsValidBit else 0)
         OR (if string_valid then kStringValidBit else 0)
         OR (if string_valid then push_bit 12 (ucast (tv_string_index v)) else 0)
         OR push_bit 16 (ucast (clamp_cents (tv_cents_q8 v))))"

definition pack_voice_b :: "TunerVoice \<Rightarrow> u32" where
  "pack_voice_b v =
     ucast (min (tv_confidence_q15 v) kMaximumConfidenceQ15) OR push_bit 16 (ucast (tv_age_ticks v))"

definition pack_voice_c :: "TunerVoice \<Rightarrow> u32" where
  "pack_voice_c v =
     (let group_valid = (tv_evidence_group v \<noteq> kUnassignedPitchEvidenceGroup
            \<and> unat (tv_evidence_group v) \<le> kMaxCandidates);
          group = (if group_valid then tv_evidence_group v else kUnassignedPitchEvidenceGroup);
          members = (if group_valid then tv_evidence_members v else 0)
      in ucast group OR push_bit 8 (ucast members) OR push_bit 16 (ucast (tv_beat_hz_q8 v)))"

definition unpack_voice :: "u32 \<Rightarrow> u32 \<Rightarrow> u32 \<Rightarrow> TunerVoice" where
  "unpack_voice word_a word_b word_c =
     (let raw_state = drop_bit 8 word_a AND 0x03
      in \<lparr>tv_midi_note = ucast (word_a AND 0xFF), tv_cents_q8 = ucast (drop_bit 16 word_a),
          tv_confidence_q15 = ucast (word_b AND 0xFFFF), tv_age_ticks = ucast (drop_bit 16 word_b),
          tv_state = (if raw_state \<le> TunerVoiceState_to_u32 voice_tracking
                      then TunerVoiceState_of_u32 raw_state else voice_settling),
          tv_cents_valid = (word_a AND kCentsValidBit \<noteq> 0),
          tv_string_index = (if word_a AND kStringValidBit \<noteq> 0
                             then ucast (drop_bit 12 word_a AND 0x07) else kUnassignedTunerString),
          tv_evidence_group = ucast (word_c AND 0xFF),
          tv_evidence_members = ucast (drop_bit 8 word_c AND 0xFF),
          tv_beat_hz_q8 = ucast (drop_bit 16 word_c)\<rparr>)"

subsection \<open>The shared words\<close>

record TunerTelemetry =
  tt_sequence :: u32
  tt_generation :: u32
  tt_header :: u32
  tt_input_peak :: u32
  tt_words_a :: "u32 list"
  tt_words_b :: "u32 list"
  tt_words_c :: "u32 list"

definition TunerTelemetry_default :: TunerTelemetry where
  "TunerTelemetry_default =
     \<lparr>tt_sequence = 0, tt_generation = 0, tt_header = 0, tt_input_peak = 0,
      tt_words_a = replicate kMaxVoices 0, tt_words_b = replicate kMaxVoices 0,
      tt_words_c = replicate kMaxVoices 0\<rparr>"

type_synonym 'a telemetry_prog = "(TunerTelemetry, 'a) prog"

definition tt_set_sequence :: "u32 \<Rightarrow> TunerTelemetry \<Rightarrow> TunerTelemetry" where
  "tt_set_sequence s m = m\<lparr>tt_sequence := s\<rparr>"

definition next_generation :: "TunerTelemetry \<Rightarrow> TunerTelemetry" where
  "next_generation m = m\<lparr>tt_generation := tt_generation m + 1\<rparr>"

text \<open>The voice that \<open>publish\<close> packs at an index, and the stores of its three words.\<close>

definition published_voice :: "TunerSnapshot \<Rightarrow> nat \<Rightarrow> nat \<Rightarrow> TunerVoice" where
  "published_voice s count i = (if i < count then ts_voices s ! i else TunerVoice_default)"

definition voice_stores :: "TunerVoice \<Rightarrow> nat \<Rightarrow> (TunerTelemetry \<Rightarrow> TunerTelemetry) list" where
  "voice_stores v i =
     [\<lambda>m. m\<lparr>tt_words_a := (tt_words_a m)[i := pack_voice_a v]\<rparr>,
      \<lambda>m. m\<lparr>tt_words_b := (tt_words_b m)[i := pack_voice_b v]\<rparr>,
      \<lambda>m. m\<lparr>tt_words_c := (tt_words_c m)[i := pack_voice_c v]\<rparr>]"

definition snapshot_count :: "TunerSnapshot \<Rightarrow> nat" where
  "snapshot_count s = min (unat (ts_voice_count s)) kMaxVoices"

definition publish_stores :: "TunerSnapshot \<Rightarrow> (TunerTelemetry \<Rightarrow> TunerTelemetry) list" where
  "publish_stores s =
     (\<lambda>m. m\<lparr>tt_header := pack_header (ts_state s) (of_nat (snapshot_count s)) (ts_max_polyphony s)\<rparr>)
     # concat (map (\<lambda>i. voice_stores (published_voice s (snapshot_count s) i) i) [0..<kMaxVoices])
     @ [next_generation]"

text \<open>The odd sequence, the stores, the even sequence: both writers have this shape.\<close>

definition guarded_stores :: "(TunerTelemetry \<Rightarrow> TunerTelemetry) list \<Rightarrow> unit telemetry_prog" where
  "guarded_stores fs =
     load tt_sequence (\<lambda>before.
       let writing = before OR 1
       in modify (tt_set_sequence writing)
            (store_all fs (modify (tt_set_sequence (writing + 1)) (Ret ()))))"

definition tuner_publish :: "TunerSnapshot \<Rightarrow> unit telemetry_prog" where
  "tuner_publish s = guarded_stores (publish_stores s)"

definition encode_peak :: "f64 \<Rightarrow> u32" where
  "encode_peak linear_peak =
     (let bounded = (if is_finite linear_peak then std_clamp linear_peak 0 1 else 0)
      in word_of_int (f64_lround (bounded * f64_of_int (uint kMaximumInputPeakQ15))))"

definition publish_input_peak :: "f64 \<Rightarrow> unit telemetry_prog" where
  "publish_input_peak linear_peak =
     (let encoded = encode_peak linear_peak
      in load tt_input_peak (\<lambda>current.
           if current = encoded then Ret ()
           else guarded_stores [\<lambda>m. m\<lparr>tt_input_peak := encoded\<rparr>, next_generation]))"

definition tuner_clear :: "TunerFrameState \<Rightarrow> unit telemetry_prog" where
  "tuner_clear state =
     bind_prog (tuner_publish (TunerSnapshot_default\<lparr>ts_state := state\<rparr>)) (\<lambda>_. publish_input_peak 0)"

subsection \<open>The reader\<close>

definition voice_loads :: "nat \<Rightarrow> (TunerTelemetry \<Rightarrow> u32) list" where
  "voice_loads count =
     concat (map (\<lambda>i. [\<lambda>m. tt_words_a m ! i, \<lambda>m. tt_words_b m ! i, \<lambda>m. tt_words_c m ! i]) [0..<count])"

fun unpack_voices :: "u32 list \<Rightarrow> TunerVoice list" where
  "unpack_voices (a # b # c # ws) = unpack_voice a b c # unpack_voices ws"
| "unpack_voices _ = []"

definition header_count :: "u32 \<Rightarrow> nat" where
  "header_count header = unat (min (header AND 0x0F) (of_nat kMaxVoices))"

definition candidate :: "u32 \<Rightarrow> u32 \<Rightarrow> u32 \<Rightarrow> u32 list \<Rightarrow> TunerSnapshot" where
  "candidate header generation peak words =
     (let count = header_count header
      in \<lparr>ts_generation = generation, ts_state = unpack_frame_state header,
          ts_voice_count = of_nat count, ts_max_polyphony = unpack_max_polyphony header,
          ts_input_peak_q15 = ucast (min peak kMaximumInputPeakQ15),
          ts_voices = unpack_voices words @ replicate (kMaxVoices - count) TunerVoice_default\<rparr>)"

definition kReadAttempts :: nat where "kReadAttempts = 3"

fun read_attempts :: "nat \<Rightarrow> TunerSnapshot option telemetry_prog" where
  "read_attempts 0 = Ret None"
| "read_attempts (Suc n) =
     load tt_sequence (\<lambda>before.
       if before AND 1 \<noteq> 0 \<or> before = 0 then read_attempts n
       else load tt_header (\<lambda>header. load tt_generation (\<lambda>generation. load tt_input_peak (\<lambda>peak.
            load_all (voice_loads (header_count header)) (\<lambda>words. load tt_sequence (\<lambda>after.
              if before = after \<and> after AND 1 = 0 then Ret (Some (candidate header generation peak words))
              else read_attempts n))))))"

definition read_latest :: "TunerSnapshot option telemetry_prog" where
  "read_latest = read_attempts kReadAttempts"

subsection \<open>The protocol\<close>

definition telemetry_payload :: "TunerTelemetry \<Rightarrow> TunerTelemetry" where
  "telemetry_payload m = m\<lparr>tt_sequence := 0\<rparr>"

interpretation telemetry: seqlock
  "\<lambda>m. unat (tt_sequence m)" telemetry_payload
  "\<lambda>m. tt_set_sequence (tt_sequence m OR 1) m" "\<lambda>m. tt_set_sequence (tt_sequence m + 1) m" "2 ^ 32"
  by unfold_locales
    (auto simp: tt_set_sequence_def telemetry_payload_def unat_next even_unat or_one_cases)

end
