(* ===== verification/Tuner_Telemetry_Laws.thy ===== *)
theory Tuner_Telemetry_Laws
  imports Tuner_Telemetry
begin

unbundle bit_operations_syntax

text \<open>
  The tuner transport's properties (\<open>Tuner_Telemetry\<close>): unpacking a packed voice gives the voice with
  its out-of-range fields bounded, and a read is what some moment between two of the writer's calls
  would have shown, in every interleaving.
\<close>

subsection \<open>Voices\<close>

definition bounded_voice :: "TunerVoice \<Rightarrow> TunerVoice" where
  "bounded_voice v =
     (let listed = tv_evidence_group v \<noteq> kUnassignedPitchEvidenceGroup
            \<and> unat (tv_evidence_group v) \<le> kMaxCandidates
      in v\<lparr>tv_midi_note := min (tv_midi_note v) 127, tv_cents_q8 := clamp_cents (tv_cents_q8 v),
           tv_confidence_q15 := min (tv_confidence_q15 v) kMaximumConfidenceQ15,
           tv_string_index := (if unat (tv_string_index v) < kMaxVoices then tv_string_index v
                               else kUnassignedTunerString),
           tv_evidence_group := (if listed then tv_evidence_group v else kUnassignedPitchEvidenceGroup),
           tv_evidence_members := (if listed then tv_evidence_members v else 0)\<rparr>)"

lemma masks: "(0xFF :: u32) = mask 8" "(0xFFFF :: u32) = mask 16" "(0x07 :: u32) = mask 3"
  "(0x03 :: u32) = mask 2"
  by (simp_all add: mask_eq_exp_minus_1)

lemma bit_beyond [simp]: "8 \<le> n \<Longrightarrow> \<not> bit a n" "16 \<le> n \<Longrightarrow> \<not> bit b n" for a :: u8 and b :: u16
  by (auto dest: bit_imp_le_length)

lemma small_bits:
  assumes "unat x < 2 ^ k" "k \<le> n"
  shows "\<not> bit x n"
proof -
  have "(2 :: nat) ^ k \<le> 2 ^ n" using assms(2) by (intro power_increasing) simp_all
  with assms(1) have "unat x < 2 ^ n" by linarith
  then have "\<not> bit (unat x) n" by (simp add: bit_iff_odd)
  then show ?thesis by (auto simp: bit_unsigned_iff dest: bit_imp_le_length)
qed

lemma string_bits [simp]: "unat x < kMaxVoices \<Longrightarrow> 3 \<le> n \<Longrightarrow> \<not> bit x n" for x :: u8
  using small_bits [of x 3] by (simp add: kMaxVoices_def)

lemma state_bits [simp]: "2 \<le> n \<Longrightarrow> \<not> bit (TunerVoiceState_to_u32 s) n"
  by (rule small_bits [of _ 2]) (cases s, simp_all)

lemma bits_below: "bit (TunerVoiceState_to_u32 s) n \<Longrightarrow> n < 2" "unat x < kMaxVoices \<Longrightarrow> bit x n \<Longrightarrow> n < 3"
  for x :: u8
  using state_bits string_bits by (metis not_less)+

lemma safe_state: "min (TunerVoiceState_to_u32 s) (TunerVoiceState_to_u32 voice_tracking) = TunerVoiceState_to_u32 s"
  by (cases s) simp_all

lemma bit_if: "bit (if c then x else 0) n \<longleftrightarrow> c \<and> bit x n" for x :: "'a::len word"
  by simp

lemma bit_pack_a:
  "n < 32 \<Longrightarrow> bit (pack_voice_a v) n \<longleftrightarrow>
     bit (min (tv_midi_note v) 127) n
     \<or> 8 \<le> n \<and> bit (TunerVoiceState_to_u32 (tv_state v)) (n - 8)
     \<or> n = 10 \<and> tv_cents_valid v
     \<or> unat (tv_string_index v) < kMaxVoices \<and> (n = 11 \<or> 12 \<le> n \<and> bit (tv_string_index v) (n - 12))
     \<or> 16 \<le> n \<and> bit (clamp_cents (tv_cents_q8 v)) (n - 16)"
proof -
  assume n: "n < 32"
  then have one: "bit (push_bit k (1 :: u32)) n \<longleftrightarrow> n = k" for k by (auto simp: bit_simps)
  have "n - 12 < 32" "n - 16 < 32" using n by simp_all
  then show ?thesis
    unfolding pack_voice_a_def Let_def safe_state kCentsValidBit_def kStringValidBit_def bit_or_iff bit_if one
    using n by (simp add: bit_simps) blast
qed

lemma bit_pack_b:
  "n < 32 \<Longrightarrow> bit (pack_voice_b v) n \<longleftrightarrow>
     bit (min (tv_confidence_q15 v) kMaximumConfidenceQ15) n \<or> 16 \<le> n \<and> bit (tv_age_ticks v) (n - 16)"
  by (auto simp: pack_voice_b_def bit_simps)

lemma and_bit: "w AND push_bit n 1 \<noteq> 0 \<longleftrightarrow> bit w n" for w :: u32
  by (simp add: bit_iff_and_push_bit_not_eq_0)

lemma unpack_state: "drop_bit 8 (pack_voice_a v) AND 0x03 = TunerVoiceState_to_u32 (tv_state v)"
proof (rule bit_word_eqI)
  fix n assume "n < LENGTH(32)"
  then show "bit (drop_bit 8 (pack_voice_a v) AND 0x03) n = bit (TunerVoiceState_to_u32 (tv_state v)) n"
    unfolding masks by (cases "n < 2") (simp_all add: bit_simps bit_pack_a)
qed

lemma unpack_a_fields:
  "ucast (pack_voice_a v AND 0xFF) = min (tv_midi_note v) 127"
  "pack_voice_a v AND kCentsValidBit \<noteq> 0 \<longleftrightarrow> tv_cents_valid v"
  "pack_voice_a v AND kStringValidBit \<noteq> 0 \<longleftrightarrow> unat (tv_string_index v) < kMaxVoices"
  "unat (tv_string_index v) < kMaxVoices \<Longrightarrow> ucast (drop_bit 12 (pack_voice_a v) AND 0x07) = tv_string_index v"
  "ucast (drop_bit 16 (pack_voice_a v)) = clamp_cents (tv_cents_q8 v)"
  unfolding masks kCentsValidBit_def kStringValidBit_def and_bit
  by (auto intro!: bit_word_eqI simp: bit_simps bit_pack_a dest: bits_below)

lemma unpack_b_fields:
  "ucast (pack_voice_b v AND 0xFFFF) = min (tv_confidence_q15 v) kMaximumConfidenceQ15"
  "ucast (drop_bit 16 (pack_voice_b v)) = tv_age_ticks v"
  unfolding masks by (auto intro!: bit_word_eqI simp: bit_simps bit_pack_b)

lemma pack_c_fields:
  "pack_voice_c v = ucast (tv_evidence_group (bounded_voice v))
     OR push_bit 8 (ucast (tv_evidence_members (bounded_voice v))) OR push_bit 16 (ucast (tv_beat_hz_q8 v))"
  by (simp add: pack_voice_c_def bounded_voice_def Let_def)

lemma unpack_c_fields:
  "ucast ((ucast g OR push_bit 8 (ucast k) OR push_bit 16 (ucast b :: u32)) AND 0xFF) = g"
  "ucast (drop_bit 8 (ucast g OR push_bit 8 (ucast k) OR push_bit 16 (ucast b :: u32)) AND 0xFF) = k"
  "ucast (drop_bit 16 (ucast g OR push_bit 8 (ucast k) OR push_bit 16 (ucast b :: u32))) = b"
  for g k :: u8 and b :: u16
  unfolding masks by (auto intro!: bit_word_eqI simp: bit_simps)

lemma state_roundtrips:
  "TunerVoiceState_of_u32 (TunerVoiceState_to_u32 s) = s"
  "TunerVoiceState_to_u32 s \<le> TunerVoiceState_to_u32 voice_tracking"
  by (cases s; simp add: TunerVoiceState_of_u32_def)+

text \<open>
  The voice codec round-trips. Unpacking the three words of a packed voice gives the voice back,
  with the note, the cents, the confidence, the string and the evidence group bounded to their ranges;
  a voice within the ranges comes back unchanged.
\<close>

theorem voice_roundtrip:
  "unpack_voice (pack_voice_a v) (pack_voice_b v) (pack_voice_c v) = bounded_voice v"
proof -
  have "unpack_voice (pack_voice_a v) (pack_voice_b v) (pack_voice_c v) =
      \<lparr>tv_midi_note = min (tv_midi_note v) 127, tv_cents_q8 = clamp_cents (tv_cents_q8 v),
       tv_confidence_q15 = min (tv_confidence_q15 v) kMaximumConfidenceQ15, tv_age_ticks = tv_age_ticks v,
       tv_state = tv_state v, tv_cents_valid = tv_cents_valid v,
       tv_string_index = (if unat (tv_string_index v) < kMaxVoices then tv_string_index v else kUnassignedTunerString),
       tv_evidence_group = tv_evidence_group (bounded_voice v),
       tv_evidence_members = tv_evidence_members (bounded_voice v), tv_beat_hz_q8 = tv_beat_hz_q8 v\<rparr>"
    by (simp only: unpack_voice_def Let_def unpack_state unpack_a_fields unpack_b_fields pack_c_fields unpack_c_fields
        state_roundtrips simp_thms if_True cong: if_cong)
  then show ?thesis by (auto simp: bounded_voice_def Let_def intro!: TunerVoice.equality)
qed

subsection \<open>Writer and reader\<close>

datatype telemetry_call = tcall_publish TunerSnapshot | tcall_peak f64

fun telemetry_call_prog :: "telemetry_call \<Rightarrow> unit telemetry_prog" where
  "telemetry_call_prog (tcall_publish s) = tuner_publish s"
| "telemetry_call_prog (tcall_peak x) = publish_input_peak x"

fun telemetry_thread :: "telemetry_call list \<Rightarrow> unit telemetry_prog" where
  "telemetry_thread [] = Ret ()"
| "telemetry_thread (c # cs) = bind_prog (telemetry_call_prog c) (\<lambda>_. telemetry_thread cs)"

text \<open>\<open>clear\<close> is two such calls.\<close>

lemma clear_thread:
  "run (tuner_clear st) m
     = run (telemetry_thread [tcall_publish (TunerSnapshot_default\<lparr>ts_state := st\<rparr>), tcall_peak 0]) m"
  by (simp add: tuner_clear_def split: prod.splits)

text \<open>The memory after some calls alone, and what a read there shows.\<close>

definition telemetry_after :: "telemetry_call list \<Rightarrow> TunerTelemetry" where
  "telemetry_after cs = fst (run (telemetry_thread cs) TunerTelemetry_default)"

definition shown :: "TunerTelemetry \<Rightarrow> TunerSnapshot" where
  "shown m = candidate (tt_header m) (tt_generation m) (tt_input_peak m)
     (map (\<lambda>g. g m) (voice_loads (header_count (tt_header m))))"

lemma shown_payload: "shown (telemetry_payload m) = shown m"
  by (simp add: shown_def telemetry_payload_def voice_loads_def map_concat comp_def)

lemma voice_loads_payload: "list_all (\<lambda>g. \<forall>m. g (telemetry_payload m) = g m) (voice_loads n)"
  by (auto simp: voice_loads_def list_all_iff telemetry_payload_def)

text \<open>Stores that leave the sequence alone.\<close>

definition quiet_stores :: "(TunerTelemetry \<Rightarrow> TunerTelemetry) list \<Rightarrow> bool" where
  "quiet_stores fs \<longleftrightarrow> list_all (\<lambda>f. \<forall>m. unat (tt_sequence (f m)) = unat (tt_sequence m)) fs"

lemma quiet_publish: "quiet_stores (publish_stores s)"
  by (auto simp: quiet_stores_def publish_stores_def voice_stores_def next_generation_def list_all_iff)

lemma tt_set_sequence_simps [simp]:
  "tt_sequence (tt_set_sequence s m) = s" "tt_set_sequence s (tt_set_sequence s' m) = tt_set_sequence s m"
  "telemetry_payload (tt_set_sequence s m) = telemetry_payload m"
  by (simp_all add: tt_set_sequence_def telemetry_payload_def)

lemma guarded_stores_rg:
  assumes "quiet_stores fs" "even (unat (tt_sequence m))" "unat (tt_sequence m) + 2 < 2 ^ 32"
    "telemetry_payload (fst (run (guarded_stores fs) m)) \<in> P"
  shows "rg (=) (telemetry.writes P)
      (\<lambda>_ m'. m' = fst (run (guarded_stores fs) m) \<and> unat (tt_sequence m') = unat (tt_sequence m) + 2)
      (guarded_stores fs) m"
proof -
  let ?s = "tt_sequence m" and ?W = "telemetry.writes P"
  have s: "unat (?s OR 1) = unat ?s + 1" "unat ((?s OR 1) + 1) = unat ?s + 2"
    using assms(2,3) unat_next [of ?s] unat_next [of "?s + 1"]
    by (simp_all add: even_unat or_one_cases)
  define m1 where "m1 = tt_set_sequence (?s OR 1) m"
  define m2 where "m2 = fold (\<lambda>f. f) fs m1"
  have m1: "odd (unat (tt_sequence m1))" "?W m m1"
    using assms(2,3) telemetry.enter_writes [of m] s by (simp_all add: m1_def)
  have seq: "unat (tt_sequence m2) = unat (tt_sequence m1)"
    using telemetry.store_all_version assms(1) unfolding m2_def quiet_stores_def by blast
  then have m2: "tt_sequence m2 = ?s OR 1" by (simp add: m1_def word_unat_eq_iff)
  have last: "fst (run (guarded_stores fs) m) = tt_set_sequence ((?s OR 1) + 1) m2"
    by (simp add: guarded_stores_def Let_def m2_def m1_def)
  then have "telemetry_payload m2 \<in> P" using assms(4) by simp
  then have "?W m2 (tt_set_sequence ((?s OR 1) + 1) m2)"
    using telemetry.leave_writes [of m2 P] seq m1(1) assms(2,3) s m2 by simp
  then have "rg (=) ?W (\<lambda>_ m'. m' = fst (run (guarded_stores fs) m) \<and> unat (tt_sequence m') = unat ?s + 2)
      (modify (tt_set_sequence ((?s OR 1) + 1)) (Ret ())) m2"
    using s by (simp add: rg_modify last)
  then have "rg (=) ?W (\<lambda>_ m'. m' = fst (run (guarded_stores fs) m) \<and> unat (tt_sequence m') = unat ?s + 2)
      (store_all fs (modify (tt_set_sequence ((?s OR 1) + 1)) (Ret ()))) m1"
    using assms(1) m1(1) unfolding quiet_stores_def m2_def by (intro telemetry.store_all_rg)
  with m1(2) telemetry.writes_refl show ?thesis
    unfolding guarded_stores_def Let_def by (simp add: rg_load rg_modify m1_def)
qed

lemma telemetry_call_rg:
  assumes "even (unat (tt_sequence m))" "unat (tt_sequence m) + 2 < 2 ^ 32"
    "telemetry_payload (fst (run (telemetry_call_prog c) m)) \<in> P"
  shows "rg (=) (telemetry.writes P)
      (\<lambda>_ m'. m' = fst (run (telemetry_call_prog c) m) \<and> even (unat (tt_sequence m'))
         \<and> unat (tt_sequence m') \<le> unat (tt_sequence m) + 2)
      (telemetry_call_prog c) m"
proof (cases c)
  case (tcall_publish s)
  have "rg (=) (telemetry.writes P)
      (\<lambda>_ m'. m' = fst (run (guarded_stores (publish_stores s)) m) \<and> unat (tt_sequence m') = unat (tt_sequence m) + 2)
      (guarded_stores (publish_stores s)) m"
    using assms tcall_publish by (intro guarded_stores_rg quiet_publish) (simp_all add: tuner_publish_def)
  then show ?thesis
    unfolding tcall_publish telemetry_call_prog.simps tuner_publish_def
    by (rule rg_weaken) (use assms(1) in auto)
next
  case (tcall_peak x)
  have quiet: "quiet_stores [\<lambda>m. m\<lparr>tt_input_peak := encode_peak x\<rparr>, next_generation]"
    by (simp add: quiet_stores_def next_generation_def)
  show ?thesis
  proof (cases "tt_input_peak m = encode_peak x")
    case True
    then show ?thesis
      using assms(1) telemetry.writes_refl
      by (simp add: tcall_peak publish_input_peak_def Let_def rg_load)
  next
    case False
    then have "telemetry_payload (fst (run (guarded_stores [\<lambda>m. m\<lparr>tt_input_peak := encode_peak x\<rparr>, next_generation]) m)) \<in> P"
      using assms(3) by (simp add: tcall_peak publish_input_peak_def Let_def)
    note guarded_stores_rg [OF quiet assms(1,2) this]
    with False assms(1) telemetry.writes_refl show ?thesis
      by (auto simp: tcall_peak publish_input_peak_def Let_def rg_load elim!: rg_weaken)
  qed
qed

lemma telemetry_thread_rg:
  assumes "even (unat (tt_sequence m))" "unat (tt_sequence m) + 2 * length cs < 2 ^ 32"
    "\<forall>n. telemetry_payload (fst (run (telemetry_thread (take n cs)) m)) \<in> P"
  shows "rg (=) (telemetry.writes P) (\<lambda>_ _. True) (telemetry_thread cs) m"
  using assms
proof (induction cs arbitrary: m)
  case (Cons c cs)
  have first: "telemetry_payload (fst (run (telemetry_call_prog c) m)) \<in> P"
    using spec [OF Cons.prems(3), of 1] by (simp split: prod.splits)
  have rest: "telemetry_payload (fst (run (telemetry_thread (take n cs)) (fst (run (telemetry_call_prog c) m)))) \<in> P" for n
    using spec [OF Cons.prems(3), of "Suc n"] by (simp split: prod.splits)
  show ?case
    unfolding telemetry_thread.simps
  proof (rule rg_bind [OF telemetry_call_rg [OF Cons.prems(1) _ first]])
    show "unat (tt_sequence m) + 2 < 2 ^ 32" using Cons.prems(2) by simp
    fix m' assume m': "m' = fst (run (telemetry_call_prog c) m) \<and> even (unat (tt_sequence m'))
        \<and> unat (tt_sequence m') \<le> unat (tt_sequence m) + 2"
    with Cons.prems(2) rest show "rg (=) (telemetry.writes P) (\<lambda>_ _. True) (telemetry_thread cs) m'"
      by (intro Cons.IH) auto
  qed (simp add: reflp_def)
qed simp

lemma read_attempts_rg:
  assumes "telemetry.published P m"
  shows "telemetry.reader_rg P (\<lambda>r _. case r of None \<Rightarrow> True | Some s \<Rightarrow> s \<in> shown ` P) (read_attempts n) m"
  using assms
proof (induction n arbitrary: m)
  case (Suc n)
  let ?R = "telemetry.reader_rg P (\<lambda>r _. case r of None \<Rightarrow> True | Some s \<Rightarrow> s \<in> shown ` P)"
  have check: "?R (load tt_sequence (\<lambda>after. if tt_sequence mb = after \<and> after AND 1 = 0
         then Ret (Some (candidate h g pk ws)) else read_attempts n)) m'"
    if r: "telemetry.reading P mb ok m'" and mb: "even (unat (tt_sequence mb))"
      and ok: "ok \<Longrightarrow> candidate h g pk ws = shown mb" for mb ok m' h g pk ws
    unfolding rg_load
  proof (intro allI impI conjI refl)
    fix m'' assume "telemetry.writes P m' m''"
    then have r: "telemetry.reading P mb ok m''" by (rule telemetry.reading_stable [OF r mb])
    show "?R (if tt_sequence mb = tt_sequence m'' \<and> tt_sequence m'' AND 1 = 0
         then Ret (Some (candidate h g pk ws)) else read_attempts n) m''"
    proof (cases "tt_sequence mb = tt_sequence m'' \<and> tt_sequence m'' AND 1 = 0")
      case True
      with telemetry.reading_end [OF r _ mb] ok
      have "candidate h g pk ws = shown (telemetry_payload mb)" "telemetry_payload mb \<in> P"
        by (simp_all add: shown_payload)
      with True show ?thesis by simp
    next
      case False
      from r have "telemetry.published P m''" by (simp add: telemetry.reading_def)
      with Suc.IH show ?thesis unfolding if_not_P [OF False] by simp
    qed
  qed
  have read: "?R (load tt_header (\<lambda>h. load tt_generation (\<lambda>g. load tt_input_peak (\<lambda>pk.
            load_all (voice_loads (header_count h)) (\<lambda>ws. load tt_sequence (\<lambda>after.
              if tt_sequence mb = after \<and> after AND 1 = 0 then Ret (Some (candidate h g pk ws))
              else read_attempts n)))))) mb"
    if mb: "telemetry.published P mb" "even (unat (tt_sequence mb))" for mb
  proof (rule telemetry.load_reading [OF telemetry.reading_start [OF mb(1)] mb(2)], goal_cases payload header)
    case (header h m1)
    show ?case
    proof (rule telemetry.load_reading [OF header mb(2)], goal_cases payload generation)
      case (generation g m2)
      show ?case
      proof (rule telemetry.load_reading [OF generation mb(2)], goal_cases payload peak)
        case (peak pk m3)
        show ?case
        proof (rule telemetry.load_all_reading [OF peak mb(2) voice_loads_payload], goal_cases voices)
          case (voices ws m4)
          show ?case by (rule check [OF voices mb(2)]) (auto simp: shown_def)
        qed
      qed (simp add: telemetry_payload_def)
    qed (simp add: telemetry_payload_def)
  qed (simp add: telemetry_payload_def)
  show ?case
    unfolding read_attempts.simps rg_load
    using Suc read telemetry.published_stable by (auto simp: low_bit)
qed simp

text \<open>
  C21: The tuner display never mixes detector frames. In every interleaving with the audio thread's
  calls, a read that succeeds shows exactly what a read between two of those calls would have shown:
  the header, the voices, the peak and the generation all come from one moment. The calls are assumed
  to be too few to wrap the 32-bit sequence during the read.
\<close>

theorem telemetry_linearizable:
  assumes "2 * length cs < 2 ^ 32"
  shows "case par_run schedule (TunerTelemetry_default, telemetry_thread cs, read_latest) of
      (m, p, q) \<Rightarrow> (case q of Ret (Some s) \<Rightarrow> \<exists>n. s = shown (telemetry_after (take n cs)) | _ \<Rightarrow> True)"
proof -
  let ?m = TunerTelemetry_default
  let ?P = "range (\<lambda>n. telemetry_payload (telemetry_after (take n cs)))"
  have seq: "tt_sequence ?m = 0" by (simp add: TunerTelemetry_default_def)
  then have writer: "rg (=) (telemetry.writes ?P) (\<lambda>_ _. True) (telemetry_thread cs) ?m"
    using assms by (intro telemetry_thread_rg) (auto simp: telemetry_after_def)
  have "telemetry_payload ?m \<in> ?P"
    by (rule image_eqI [of _ _ 0]) (simp_all add: telemetry_after_def)
  then have "telemetry.published ?P ?m" by (simp add: telemetry.published_def)
  then have reader: "telemetry.reader_rg ?P (\<lambda>r _. case r of None \<Rightarrow> True | Some s \<Rightarrow> s \<in> shown ` ?P) read_latest ?m"
    unfolding read_latest_def by (rule read_attempts_rg)
  obtain m' p q where run: "par_run schedule (?m, telemetry_thread cs, read_latest) = (m', p, q)"
    by (metis prod_cases3)
  then have steps: "par_steps (?m, telemetry_thread cs, read_latest) (m', p, q)" by (metis par_run_steps)
  have "\<exists>n. s = shown (telemetry_after (take n cs))" if "q = Ret (Some s)" for s
    using telemetry.reader_result [OF steps [unfolded that] writer reader] by (auto simp: shown_payload)
  then show ?thesis by (simp add: run split: prog.splits option.splits)
qed

lemma telemetry_linearizable_witness:
  "\<forall>schedule. case par_run schedule (TunerTelemetry_default,
       telemetry_thread [tcall_publish (TunerSnapshot_default\<lparr>ts_state := frame_tracking\<rparr>), tcall_peak 1], read_latest) of
      (m, p, q) \<Rightarrow> (case q of Ret (Some s) \<Rightarrow> \<exists>n. s = shown (telemetry_after
         (take n [tcall_publish (TunerSnapshot_default\<lparr>ts_state := frame_tracking\<rparr>), tcall_peak 1])) | _ \<Rightarrow> True)"
  by (intro allI telemetry_linearizable) simp

end
