(* ===== verification/Calibration_Bank.thy ===== *)
theory Calibration_Bank
  imports Types_Model Float64
begin

unbundle bit_operations_syntax

text \<open>
  The calibration bank (\<open>src/native/include/m3/string_calibration.hpp\<close> and the bank's operations in
  \<open>src/native/src/string_calibration.cpp\<close>): for each of the eight strings and each of the 25 frets a
  measured or interpolated point. A \<open>std::int16_t\<close> is a 16-bit word read as signed.
\<close>

definition kCalibrationFretCount :: nat where "kCalibrationFretCount = 25"
definition kCalibrationHarmonicCount :: nat where "kCalibrationHarmonicCount = 6"

datatype CalibrationPointQuality = quality_missing | quality_measured | quality_interpolated

fun CalibrationPointQuality_to_u8 :: "CalibrationPointQuality \<Rightarrow> u8" where
  "CalibrationPointQuality_to_u8 quality_missing = 0"
| "CalibrationPointQuality_to_u8 quality_measured = 1"
| "CalibrationPointQuality_to_u8 quality_interpolated = 2"

text \<open>The cast of a byte that was checked to be at most \<open>interpolated\<close>.\<close>

definition CalibrationPointQuality_of_u8 :: "u8 \<Rightarrow> CalibrationPointQuality" where
  "CalibrationPointQuality_of_u8 b =
     (if b = 0 then quality_missing else if b = 1 then quality_measured else quality_interpolated)"

record StringCalibrationPoint =
  cp_cents_offset_q8 :: u16
  cp_harmonic_profile_q15 :: "u16 list"
  cp_partial_detuning_q8 :: "u16 list"
  cp_partial_detuning_valid_mask :: u8
  cp_confidence_q15 :: u16
  cp_observation_count :: u16
  cp_quality :: CalibrationPointQuality

definition StringCalibrationPoint_default :: StringCalibrationPoint where
  "StringCalibrationPoint_default =
     \<lparr>cp_cents_offset_q8 = 0, cp_harmonic_profile_q15 = replicate kCalibrationHarmonicCount 0,
      cp_partial_detuning_q8 = replicate kCalibrationHarmonicCount 0, cp_partial_detuning_valid_mask = 0,
      cp_confidence_q15 = 0, cp_observation_count = 0, cp_quality = quality_missing\<rparr>"

record StringCalibrationBank =
  cb_points :: "StringCalibrationPoint list list"
  cb_calibrated_string_mask :: u8

definition empty_row :: "StringCalibrationPoint list" where
  "empty_row = replicate kCalibrationFretCount StringCalibrationPoint_default"

definition StringCalibrationBank_default :: StringCalibrationBank where
  "StringCalibrationBank_default =
     \<lparr>cb_points = replicate kMaxVoices empty_row, cb_calibrated_string_mask = 0\<rparr>"

definition bank_point :: "StringCalibrationBank \<Rightarrow> nat \<Rightarrow> nat \<Rightarrow> StringCalibrationPoint option" where
  "bank_point bank string_index fret =
     (if string_index < length (cb_points bank) \<and> fret < length (cb_points bank ! string_index)
      then Some (cb_points bank ! string_index ! fret) else None)"

definition string_bit :: "nat \<Rightarrow> u8" where "string_bit i = push_bit i 1"

definition string_calibrated :: "StringCalibrationBank \<Rightarrow> nat \<Rightarrow> bool" where
  "string_calibrated bank string_index \<longleftrightarrow>
     string_index < kMaxVoices \<and> cb_calibrated_string_mask bank AND string_bit string_index \<noteq> 0"

definition clear_string :: "nat \<Rightarrow> StringCalibrationBank \<Rightarrow> StringCalibrationBank" where
  "clear_string string_index bank =
     (if length (cb_points bank) \<le> string_index then bank
      else bank\<lparr>cb_points := (cb_points bank)[string_index := empty_row],
                cb_calibrated_string_mask := cb_calibrated_string_mask bank AND NOT (string_bit string_index)\<rparr>)"

definition bank_clear :: "StringCalibrationBank \<Rightarrow> StringCalibrationBank" where
  "bank_clear bank = bank\<lparr>cb_points := replicate kMaxVoices empty_row, cb_calibrated_string_mask := 0\<rparr>"

text \<open>Writing a calibrated row, as the calibrator and the factory merge do.\<close>

definition set_string :: "nat \<Rightarrow> StringCalibrationPoint list \<Rightarrow> StringCalibrationBank \<Rightarrow> StringCalibrationBank" where
  "set_string string_index row bank =
     bank\<lparr>cb_points := (cb_points bank)[string_index := row],
          cb_calibrated_string_mask := cb_calibrated_string_mask bank OR string_bit string_index\<rparr>"

subsection \<open>Validity\<close>

definition kMinimumOffsetQ8 :: int where "kMinimumOffsetQ8 = -50 * 256"
definition kMaximumOffsetQ8 :: int where "kMaximumOffsetQ8 = 50 * 256"
definition kMaximumQ15 :: u16 where "kMaximumQ15 = 32767"

definition offset_in_range :: "u16 \<Rightarrow> bool" where
  "offset_in_range w \<longleftrightarrow> kMinimumOffsetQ8 \<le> sint w \<and> sint w \<le> kMaximumOffsetQ8"

definition valid_detuning :: "StringCalibrationPoint \<Rightarrow> nat \<Rightarrow> bool" where
  "valid_detuning p h \<longleftrightarrow>
     offset_in_range (cp_partial_detuning_q8 p ! h)
     \<and> (cp_partial_detuning_valid_mask p AND string_bit h \<noteq> 0 \<or> cp_partial_detuning_q8 p ! h = 0)"

definition valid_point :: "StringCalibrationPoint \<Rightarrow> bool" where
  "valid_point p \<longleftrightarrow>
     offset_in_range (cp_cents_offset_q8 p) \<and> cp_confidence_q15 p \<le> kMaximumQ15
     \<and> list_all (\<lambda>h. h \<le> kMaximumQ15) (cp_harmonic_profile_q15 p)
     \<and> cp_partial_detuning_valid_mask p AND 0xC0 = 0
     \<and> list_all (valid_detuning p) [0..<length (cp_partial_detuning_q8 p)]
     \<and> (case cp_quality p of
          quality_missing \<Rightarrow>
            cp_cents_offset_q8 p = 0 \<and> cp_confidence_q15 p = 0 \<and> cp_observation_count p = 0
            \<and> list_all (\<lambda>h. h = 0) (cp_harmonic_profile_q15 p) \<and> cp_partial_detuning_valid_mask p = 0
            \<and> list_all (\<lambda>d. d = 0) (cp_partial_detuning_q8 p)
        | quality_measured \<Rightarrow> cp_observation_count p \<noteq> 0
        | quality_interpolated \<Rightarrow> cp_observation_count p = 0)"

definition valid_row :: "bool \<Rightarrow> StringCalibrationPoint list \<Rightarrow> bool" where
  "valid_row calibrated row \<longleftrightarrow>
     list_all (\<lambda>p. valid_point p \<and> (calibrated \<longleftrightarrow> cp_quality p \<noteq> quality_missing)) row"

definition valid_bank :: "StringCalibrationBank \<Rightarrow> bool" where
  "valid_bank bank \<longleftrightarrow>
     list_all (\<lambda>s. valid_row (string_calibrated bank s) (cb_points bank ! s)) [0..<kMaxVoices]"

text \<open>The arrays of the program have fixed lengths.\<close>

definition point_shaped :: "StringCalibrationPoint \<Rightarrow> bool" where
  "point_shaped p \<longleftrightarrow>
     length (cp_harmonic_profile_q15 p) = kCalibrationHarmonicCount
     \<and> length (cp_partial_detuning_q8 p) = kCalibrationHarmonicCount"

definition bank_shaped :: "StringCalibrationBank \<Rightarrow> bool" where
  "bank_shaped bank \<longleftrightarrow>
     length (cb_points bank) = kMaxVoices
     \<and> list_all (\<lambda>row. length row = kCalibrationFretCount \<and> list_all point_shaped row) (cb_points bank)"

lemma string_bit_and: "w AND string_bit i \<noteq> 0 \<longleftrightarrow> bit w i" for w :: u8
  by (simp add: string_bit_def bit_iff_and_push_bit_not_eq_0)

lemma string_calibrated_iff:
  "string_calibrated bank i \<longleftrightarrow> i < kMaxVoices \<and> bit (cb_calibrated_string_mask bank) i"
  by (simp only: string_calibrated_def string_bit_and)

lemma bit_set_string: "i < kMaxVoices \<Longrightarrow> bit (w OR string_bit i) j \<longleftrightarrow> bit w j \<or> j = i"
  "i < kMaxVoices \<Longrightarrow> bit (w AND NOT (string_bit i)) j \<longleftrightarrow> bit w j \<and> j \<noteq> i" for w :: u8
  by (auto simp: string_bit_def kMaxVoices_def bit_simps dest: bit_imp_le_length)

lemma shaped_default_bank: "bank_shaped StringCalibrationBank_default"
  by (simp add: bank_shaped_def StringCalibrationBank_default_def empty_row_def list_all_iff point_shaped_def
      StringCalibrationPoint_default_def)

end
