(* ===== verification/Calibration_Transport.thy ===== *)
theory Calibration_Transport
  imports Calibration_Bank Seqlock
begin

unbundle bit_operations_syntax

text \<open>
  The lock-free transport of the calibration bank (\<open>src/native/src/calibration_bank_transport.cpp\<close>): the
  writer stores the mask, five words per point and the generation under an odd/even sequence, the reader
  loads them and retries. The interpretation \<open>transport\<close> of \<open>seqlock\<close> is here; a sequence of 0 means that
  nothing was published, so for the protocol it counts as odd.
\<close>

subsection \<open>Packing a point\<close>

definition pair_u16 :: "u16 \<Rightarrow> u16 \<Rightarrow> u32" where
  "pair_u16 low high = ucast low OR push_bit 16 (ucast high)"

definition low_u16 :: "u32 \<Rightarrow> u16" where "low_u16 w = ucast (w AND 0xFFFF)"
definition high_u16 :: "u32 \<Rightarrow> u16" where "high_u16 w = ucast (drop_bit 16 w)"

text \<open>The words that \<open>publish\<close> stores for a point, and the point that \<open>read_latest\<close> builds from them.\<close>

definition point_words :: "StringCalibrationPoint \<Rightarrow> u32 list" where
  "point_words p =
     [pair_u16 (cp_cents_offset_q8 p) (cp_confidence_q15 p),
      ucast (cp_observation_count p) OR push_bit 16 (ucast (CalibrationPointQuality_to_u8 (cp_quality p))),
      pair_u16 (cp_harmonic_profile_q15 p ! 0) (cp_harmonic_profile_q15 p ! 1),
      pair_u16 (cp_harmonic_profile_q15 p ! 2) (cp_harmonic_profile_q15 p ! 3),
      pair_u16 (cp_harmonic_profile_q15 p ! 4) (cp_harmonic_profile_q15 p ! 5)]"

definition read_quality :: "u32 \<Rightarrow> CalibrationPointQuality" where
  "read_quality second =
     (let raw_quality = drop_bit 16 second AND 0xFF
      in if raw_quality \<le> ucast (CalibrationPointQuality_to_u8 quality_interpolated)
         then CalibrationPointQuality_of_u8 (ucast raw_quality) else quality_missing)"

definition read_point :: "u32 list \<Rightarrow> StringCalibrationPoint" where
  "read_point ws =
     StringCalibrationPoint_default
       \<lparr>cp_cents_offset_q8 := low_u16 (ws ! 0), cp_confidence_q15 := high_u16 (ws ! 0),
        cp_observation_count := low_u16 (ws ! 1), cp_quality := read_quality (ws ! 1),
        cp_harmonic_profile_q15 := [low_u16 (ws ! 2), high_u16 (ws ! 2), low_u16 (ws ! 3), high_u16 (ws ! 3),
                                    low_u16 (ws ! 4), high_u16 (ws ! 4)]\<rparr>"

definition kWordsPerPoint :: nat where "kWordsPerPoint = 5"
definition kPointCount :: nat where "kPointCount = kMaxVoices * kCalibrationFretCount"
definition kWordCount :: nat where "kWordCount = kPointCount * kWordsPerPoint"
definition kTransportReadAttempts :: nat where "kTransportReadAttempts = 3"

definition bank_words :: "StringCalibrationBank \<Rightarrow> u32 list" where
  "bank_words bank = concat (map (\<lambda>row. concat (map point_words row)) (cb_points bank))"

text \<open>The nested loops of the reader over a running word index.\<close>

fun read_row :: "nat \<Rightarrow> u32 list \<Rightarrow> StringCalibrationPoint list" where
  "read_row 0 ws = []"
| "read_row (Suc n) ws = read_point (take kWordsPerPoint ws) # read_row n (drop kWordsPerPoint ws)"

fun read_rows :: "nat \<Rightarrow> u32 list \<Rightarrow> StringCalibrationPoint list list" where
  "read_rows 0 ws = []"
| "read_rows (Suc n) ws =
     read_row kCalibrationFretCount ws # read_rows n (drop (kCalibrationFretCount * kWordsPerPoint) ws)"

subsection \<open>The shared words\<close>

record CalibrationBankTransport =
  ct_sequence :: u32
  ct_generation :: u32
  ct_calibrated_mask :: u32
  ct_words :: "u32 list"

definition CalibrationBankTransport_default :: CalibrationBankTransport where
  "CalibrationBankTransport_default =
     \<lparr>ct_sequence = 0, ct_generation = 0, ct_calibrated_mask = 0, ct_words = replicate kWordCount 0\<rparr>"

type_synonym 'a transport_prog = "(CalibrationBankTransport, 'a) prog"

definition ct_set_sequence :: "u32 \<Rightarrow> CalibrationBankTransport \<Rightarrow> CalibrationBankTransport" where
  "ct_set_sequence s m = m\<lparr>ct_sequence := s\<rparr>"

definition ct_set_generation :: "u32 \<Rightarrow> CalibrationBankTransport \<Rightarrow> CalibrationBankTransport" where
  "ct_set_generation g m = m\<lparr>ct_generation := g\<rparr>"

definition ct_set_mask :: "u32 \<Rightarrow> CalibrationBankTransport \<Rightarrow> CalibrationBankTransport" where
  "ct_set_mask b m = m\<lparr>ct_calibrated_mask := b\<rparr>"

definition ct_set_word :: "nat \<times> u32 \<Rightarrow> CalibrationBankTransport \<Rightarrow> CalibrationBankTransport" where
  "ct_set_word iw m = m\<lparr>ct_words := (ct_words m)[fst iw := snd iw]\<rparr>"

definition ct_reset :: "unit transport_prog" where
  "ct_reset =
     modify (ct_set_sequence 0) (modify (ct_set_generation 0) (modify (ct_set_mask 0)
       (store_all (map (\<lambda>i. ct_set_word (i, 0)) [0..<kWordCount]) (Ret ()))))"

definition bank_stores :: "StringCalibrationBank \<Rightarrow> u32 \<Rightarrow> (CalibrationBankTransport \<Rightarrow> CalibrationBankTransport) list" where
  "bank_stores bank generation =
     ct_set_mask (ucast (cb_calibrated_string_mask bank))
     # map ct_set_word (enumerate 0 (bank_words bank)) @ [ct_set_generation generation]"

definition ct_publish :: "StringCalibrationBank \<Rightarrow> u32 \<Rightarrow> unit transport_prog" where
  "ct_publish bank generation =
     load ct_sequence (\<lambda>before.
       let writing = before OR 1
       in modify (ct_set_sequence writing)
            (store_all (bank_stores bank generation) (modify (ct_set_sequence (writing + 1)) (Ret ()))))"

subsection \<open>The reader\<close>

record CalibrationBankSnapshot =
  bs_bank :: StringCalibrationBank
  bs_generation :: u32

definition bank_candidate :: "u32 \<Rightarrow> u32 \<Rightarrow> u32 list \<Rightarrow> CalibrationBankSnapshot" where
  "bank_candidate generation calibrated ws =
     \<lparr>bs_bank = \<lparr>cb_points = read_rows kMaxVoices ws, cb_calibrated_string_mask = ucast (calibrated AND 0xFF)\<rparr>,
      bs_generation = generation\<rparr>"

definition word_loads :: "(CalibrationBankTransport \<Rightarrow> u32) list" where
  "word_loads = map (\<lambda>i m. ct_words m ! i) [0..<kWordCount]"

fun bank_attempts :: "nat \<Rightarrow> CalibrationBankSnapshot option transport_prog" where
  "bank_attempts 0 = Ret None"
| "bank_attempts (Suc n) =
     load ct_sequence (\<lambda>before.
       if before = 0 \<or> before AND 1 \<noteq> 0 then bank_attempts n
       else load ct_generation (\<lambda>generation. load ct_calibrated_mask (\<lambda>calibrated.
            load_all word_loads (\<lambda>ws. load ct_sequence (\<lambda>after.
              if before = after \<and> after AND 1 = 0 then Ret (Some (bank_candidate generation calibrated ws))
              else bank_attempts n)))))"

definition ct_read_latest :: "CalibrationBankSnapshot option transport_prog" where
  "ct_read_latest = bank_attempts kTransportReadAttempts"

subsection \<open>The protocol\<close>

definition transport_payload :: "CalibrationBankTransport \<Rightarrow> CalibrationBankTransport" where
  "transport_payload m = m\<lparr>ct_sequence := 0\<rparr>"

definition transport_version :: "CalibrationBankTransport \<Rightarrow> nat" where
  "transport_version m = (if ct_sequence m = 0 then 1 else unat (ct_sequence m))"

lemma transport_simps [simp]:
  "ct_sequence (ct_set_sequence s m) = s" "ct_set_sequence s (ct_set_sequence s' m) = ct_set_sequence s m"
  "transport_payload (ct_set_sequence s m) = transport_payload m"
  by (simp_all add: ct_set_sequence_def transport_payload_def)

lemma nonzero_32: "unat s = k \<Longrightarrow> 0 < k \<Longrightarrow> s \<noteq> 0" for s :: u32
  by auto

lemma version_enter:
  assumes "even (transport_version m)" "transport_version m + 1 < 2 ^ 32"
  shows "transport_version (ct_set_sequence (ct_sequence m OR 1) m) = transport_version m + 1"
proof -
  have s: "ct_sequence m \<noteq> 0" "transport_version m = unat (ct_sequence m)"
    using assms(1) by (auto simp: transport_version_def split: if_splits)
  then have u: "unat (ct_sequence m + 1) = unat (ct_sequence m) + 1" "ct_sequence m OR 1 = ct_sequence m + 1"
    using assms unat_next [of "ct_sequence m"] by (simp_all add: even_unat or_one_cases)
  with nonzero_32 [OF u(1)] s show ?thesis by (simp add: transport_version_def)
qed

lemma version_leave:
  assumes "odd (transport_version m)" "transport_version m + 1 < 2 ^ 32"
  shows "transport_version (ct_set_sequence ((ct_sequence m OR 1) + 1) m) = transport_version m + 1"
proof (cases "ct_sequence m = 0")
  case True
  then show ?thesis by (simp add: transport_version_def)
next
  case False
  then have s: "transport_version m = unat (ct_sequence m)" by (simp add: transport_version_def)
  with assms have u: "unat (ct_sequence m + 1) = unat (ct_sequence m) + 1" "ct_sequence m OR 1 = ct_sequence m"
    using unat_next [of "ct_sequence m"] by (simp_all add: even_unat or_one_cases)
  with nonzero_32 [OF u(1)] s show ?thesis by (simp add: transport_version_def)
qed

interpretation transport: seqlock transport_version transport_payload
  "\<lambda>m. ct_set_sequence (ct_sequence m OR 1) m" "\<lambda>m. ct_set_sequence ((ct_sequence m OR 1) + 1) m" "2 ^ 32"
  by unfold_locales (simp_all add: version_enter version_leave)

end
