(* ===== verification/Calibration_Transport_Laws.thy ===== *)
theory Calibration_Transport_Laws
  imports Calibration_Transport
begin

unbundle bit_operations_syntax

text \<open>
  What the calibration transport delivers: a bank that was published, with the generation it was
  published with, less the partial detunings (the five words of a point have no room for them).
\<close>

subsection \<open>Words of a bank\<close>

definition transported_point :: "StringCalibrationPoint \<Rightarrow> StringCalibrationPoint" where
  "transported_point p =
     p\<lparr>cp_partial_detuning_q8 := replicate kCalibrationHarmonicCount 0, cp_partial_detuning_valid_mask := 0\<rparr>"

definition transported :: "StringCalibrationBank \<Rightarrow> StringCalibrationBank" where
  "transported bank = bank\<lparr>cb_points := map (map transported_point) (cb_points bank)\<rparr>"

lemma pair_halves [simp]: "low_u16 (pair_u16 a b) = a" "high_u16 (pair_u16 a b) = b"
proof -
  have m: "(0xFFFF :: u32) = mask 16" by (simp add: mask_eq_exp_minus_1)
  have [simp]: "16 \<le> n \<Longrightarrow> \<not> bit x n" for x :: u16 and n by (auto dest: bit_imp_le_length)
  show "low_u16 (pair_u16 a b) = a" "high_u16 (pair_u16 a b) = b"
    unfolding low_u16_def high_u16_def pair_u16_def m by (auto intro!: bit_word_eqI simp: bit_simps)
qed

lemma quality_word:
  "low_u16 (ucast n OR push_bit 16 (ucast (CalibrationPointQuality_to_u8 q))) = n"
  "read_quality (ucast n OR push_bit 16 (ucast (CalibrationPointQuality_to_u8 q))) = q"
proof -
  have m: "(0xFFFF :: u32) = mask 16" "(0xFF :: u32) = mask 8" by (simp_all add: mask_eq_exp_minus_1)
  have [simp]: "16 \<le> n \<Longrightarrow> \<not> bit x n" for x :: u16 and n by (auto dest: bit_imp_le_length)
  have "n < 8" if "bit x n" for x :: u8 and n using bit_imp_le_length [OF that] by simp
  then have [dest]: "bit (CalibrationPointQuality_to_u8 q) n \<Longrightarrow> n < 8 \<and> n < 16" for q n by force
  let ?b = "CalibrationPointQuality_to_u8 q"
  let ?w = "ucast n OR push_bit 16 (ucast ?b) :: u32"
  show "low_u16 ?w = n"
    unfolding low_u16_def m by (auto intro!: bit_word_eqI simp: bit_simps)
  have b: "drop_bit 16 ?w AND 0xFF = ucast ?b"
    unfolding m by (auto intro!: bit_word_eqI simp: bit_simps)
  show "read_quality ?w = q"
    unfolding read_quality_def Let_def b by (cases q) (simp_all add: CalibrationPointQuality_of_u8_def)
qed

lemma list_6:
  assumes "length xs = 6"
  shows "[xs ! 0, xs ! 1, xs ! 2, xs ! 3, xs ! 4, xs ! 5] = xs"
proof -
  obtain a b c d e f where "xs = [a, b, c, d, e, f]"
    using assms by (auto simp: numeral_eq_Suc length_Suc_conv)
  then show ?thesis by simp
qed

lemma read_point_words: "point_shaped p \<Longrightarrow> read_point (point_words p) = transported_point p"
proof -
  assume "point_shaped p"
  then have "length (cp_harmonic_profile_q15 p) = 6" by (simp add: point_shaped_def kCalibrationHarmonicCount_def)
  note h = list_6 [OF this]
  show ?thesis
    unfolding read_point_def point_words_def transported_point_def
    by (intro StringCalibrationPoint.equality) (simp_all add: quality_word StringCalibrationPoint_default_def h [unfolded One_nat_def])
qed

lemma length_point_words [simp]: "length (point_words p) = 5"
  by (simp add: point_words_def)

lemma read_row_words:
  "list_all point_shaped row \<Longrightarrow>
     read_row (length row) (concat (map point_words row) @ rest) = map transported_point row"
  by (induction row) (simp_all add: read_point_words kWordsPerPoint_def)

lemma read_rows_words:
  "list_all (\<lambda>row. length row = kCalibrationFretCount \<and> list_all point_shaped row) rows \<Longrightarrow>
     read_rows (length rows) (concat (map (\<lambda>row. concat (map point_words row)) rows) @ rest)
       = map (map transported_point) rows"
proof (induction rows)
  case (Cons row rows)
  have "length (concat (map point_words row)) = kCalibrationFretCount * kWordsPerPoint"
    using Cons.prems by (simp add: length_concat comp_def sum_list_triv kWordsPerPoint_def)
  then have drop_words: "drop (kCalibrationFretCount * kWordsPerPoint) (concat (map point_words row) @ xs) = xs" for xs
    by simp
  have "read_row kCalibrationFretCount (concat (map point_words row) @ xs) = map transported_point row" for xs
    using read_row_words [of row xs] Cons.prems by simp
  with Cons show ?case by (simp add: drop_words del: drop_append)
qed simp

lemma length_bank_words: "bank_shaped bank \<Longrightarrow> length (bank_words bank) = kWordCount"
proof -
  have "length (concat (map (\<lambda>row. concat (map point_words row)) rows)) = 125 * length rows"
    if "list_all (\<lambda>row. length row = kCalibrationFretCount \<and> list_all point_shaped row) rows" for rows
    using that by (induction rows) (simp_all add: length_concat comp_def sum_list_triv kCalibrationFretCount_def)
  then show "bank_shaped bank \<Longrightarrow> ?thesis"
    by (simp add: bank_words_def bank_shaped_def kWordCount_def kPointCount_def kWordsPerPoint_def kMaxVoices_def
        kCalibrationFretCount_def)
qed

text \<open>What a read of a fully published memory builds.\<close>

definition received :: "StringCalibrationBank \<times> u32 \<Rightarrow> CalibrationBankSnapshot" where
  "received bg = \<lparr>bs_bank = transported (fst bg), bs_generation = snd bg\<rparr>"

lemma mask_word: "ucast (ucast b AND (0xFF :: u32)) = b" for b :: u8
proof -
  have m: "(0xFF :: u32) = mask 8" by (simp add: mask_eq_exp_minus_1)
  show ?thesis unfolding m by (auto intro!: bit_word_eqI simp: bit_simps)
qed

lemma candidate_received:
  assumes "bank_shaped bank"
  shows "bank_candidate g (ucast (cb_calibrated_string_mask bank)) (bank_words bank) = received (bank, g)"
proof -
  have "read_rows kMaxVoices (bank_words bank) = map (map transported_point) (cb_points bank)"
    using read_rows_words [of "cb_points bank" "[]"] assms by (simp add: bank_shaped_def bank_words_def)
  then show ?thesis
    by (cases bank) (simp add: bank_candidate_def received_def transported_def mask_word)
qed

subsection \<open>The writer\<close>

lemma store_words:
  assumes "start + length ws \<le> length (ct_words m)"
  shows "fold (\<lambda>f. f) (map ct_set_word (enumerate start ws)) m
    = m\<lparr>ct_words := take start (ct_words m) @ ws @ drop (start + length ws) (ct_words m)\<rparr>"
  using assms
proof (induction ws arbitrary: start m)
  case (Cons w ws)
  have "drop (Suc start + length ws) ((ct_words m)[start := w]) = drop (start + length (w # ws)) (ct_words m)"
    by simp
  moreover have "take (Suc start) ((ct_words m)[start := w]) = take start (ct_words m) @ [w]"
    using Cons.prems by (simp add: take_Suc_conv_app_nth)
  ultimately show ?case
    using Cons.IH [of "Suc start" "ct_set_word (start, w) m"] Cons.prems by (simp add: ct_set_word_def)
qed simp

text \<open>The memory that a publication leaves, apart from the sequence.\<close>

definition bank_memory :: "StringCalibrationBank \<times> u32 \<Rightarrow> CalibrationBankTransport" where
  "bank_memory bg =
     \<lparr>ct_sequence = 0, ct_generation = snd bg, ct_calibrated_mask = ucast (cb_calibrated_string_mask (fst bg)),
      ct_words = bank_words (fst bg)\<rparr>"

lemma bank_stores_payload:
  assumes "bank_shaped bank" "length (ct_words m) = kWordCount"
  shows "transport_payload (fold (\<lambda>f. f) (bank_stores bank g) m) = bank_memory (bank, g)"
    "length (ct_words (fold (\<lambda>f. f) (bank_stores bank g) m)) = kWordCount"
    "ct_sequence (fold (\<lambda>f. f) (bank_stores bank g) m) = ct_sequence m"
  using length_bank_words [OF assms(1)] assms(2)
  by (simp_all add: bank_stores_def store_words ct_set_mask_def ct_set_generation_def transport_payload_def
      bank_memory_def)

lemma bank_stores_quiet: "list_all (\<lambda>f. \<forall>m. transport_version (f m) = transport_version m) (bank_stores bank g)"
  by (auto simp: bank_stores_def list_all_iff transport_version_def ct_set_mask_def ct_set_generation_def
      ct_set_word_def)

definition transport_wf :: "CalibrationBankTransport \<Rightarrow> bool" where
  "transport_wf m \<longleftrightarrow> even (unat (ct_sequence m)) \<and> length (ct_words m) = kWordCount"

lemma transport_publish_rg:
  assumes "transport_wf m" "bank_shaped bank" "unat (ct_sequence m) + 2 < 2 ^ 32" "bank_memory (bank, g) \<in> P"
  shows "rg (=) (transport.writes P)
      (\<lambda>_ m'. transport_wf m' \<and> unat (ct_sequence m') = unat (ct_sequence m) + 2) (ct_publish bank g) m"
proof -
  let ?s = "ct_sequence m" and ?W = "transport.writes P" and ?fs = "bank_stores bank g"
  let ?Q = "\<lambda>_ m'. transport_wf m' \<and> unat (ct_sequence m') = unat ?s + 2"
  have s: "unat (?s OR 1) = unat ?s + 1" "unat ((?s OR 1) + 1) = unat ?s + 2" "(?s OR 1) OR 1 = ?s OR 1"
    using assms(1,3) unat_next [of ?s] unat_next [of "?s + 1"]
    by (simp_all add: transport_wf_def even_unat or_one_cases)
  define m1 where "m1 = ct_set_sequence (?s OR 1) m"
  have m1: "transport_version m1 = unat ?s + 1" "odd (transport_version m1)" "length (ct_words m1) = kWordCount"
    using assms(1) s(1) nonzero_32 [OF s(1)]
    by (simp_all add: m1_def transport_version_def transport_wf_def) (simp add: ct_set_sequence_def)
  have enter: "?W m m1"
  proof (cases "?s = 0")
    case True
    then show ?thesis
      unfolding m1_def by (intro transport.store_writes) (simp_all add: transport_version_def)
  next
    case False
    then have "transport_version m = unat ?s" by (simp add: transport_version_def)
    then show ?thesis
      unfolding m1_def using assms(1,3) by (intro transport.enter_writes) (simp_all add: transport_wf_def)
  qed
  define m2 where "m2 = fold (\<lambda>f. f) ?fs m1"
  note stores = bank_stores_payload [OF assms(2) m1(3), of g, folded m2_def]
  have v2: "transport_version m2 = unat ?s + 1"
    using transport.store_all_version [OF bank_stores_quiet, of bank g m1] m1(1) by (simp add: m2_def)
  have seq2: "ct_sequence m2 = ?s OR 1" using stores(3) by (simp add: m1_def)
  have "?W m2 (ct_set_sequence ((?s OR 1) + 1) m2)"
    using transport.leave_writes [of m2 P] v2 stores(1) assms seq2 s(3) by (simp add: transport_wf_def)
  moreover have "?Q () (ct_set_sequence ((?s OR 1) + 1) m2)"
    using s(2) stores(2) assms(1) by (simp add: transport_wf_def) (simp add: ct_set_sequence_def)
  ultimately have "rg (=) ?W ?Q (modify (ct_set_sequence ((?s OR 1) + 1)) (Ret ())) m2"
    by (simp add: rg_modify)
  then have "rg (=) ?W ?Q (store_all ?fs (modify (ct_set_sequence ((?s OR 1) + 1)) (Ret ()))) m1"
    using m1(2) bank_stores_quiet unfolding m2_def by (intro transport.store_all_rg)
  with enter transport.writes_refl show ?thesis
    unfolding ct_publish_def Let_def by (simp add: rg_load rg_modify m1_def)
qed

fun transport_thread :: "(StringCalibrationBank \<times> u32) list \<Rightarrow> unit transport_prog" where
  "transport_thread [] = Ret ()"
| "transport_thread ((bank, g) # bgs) = bind_prog (ct_publish bank g) (\<lambda>_. transport_thread bgs)"

lemma transport_thread_rg:
  assumes "transport_wf m" "unat (ct_sequence m) + 2 * length bgs < 2 ^ 32"
    "list_all (\<lambda>(bank, g). bank_shaped bank \<and> bank_memory (bank, g) \<in> P) bgs"
  shows "rg (=) (transport.writes P) (\<lambda>_ _. True) (transport_thread bgs) m"
  using assms
proof (induction bgs arbitrary: m rule: transport_thread.induct)
  case (2 bank g bgs)
  then have "rg (=) (transport.writes P)
      (\<lambda>_ m'. transport_wf m' \<and> unat (ct_sequence m') = unat (ct_sequence m) + 2) (ct_publish bank g) m"
    by (intro transport_publish_rg) auto
  then show ?case
    unfolding transport_thread.simps by (rule rg_bind) (use 2 in \<open>auto simp: reflp_def\<close>)
qed simp

subsection \<open>The reader\<close>

lemma word_loads_payload: "list_all (\<lambda>g. \<forall>m. g (transport_payload m) = g m) word_loads"
  by (auto simp: word_loads_def list_all_iff transport_payload_def)

lemma loaded_words: "length (ct_words m) = kWordCount \<Longrightarrow> map (\<lambda>g. g m) word_loads = ct_words m"
  by (intro nth_equalityI) (simp_all add: word_loads_def)

lemma version_even:
  "s \<noteq> 0 \<Longrightarrow> s AND 1 = 0 \<Longrightarrow> ct_sequence m = s \<Longrightarrow> even (transport_version m)"
  by (simp add: transport_version_def low_bit)

lemma bank_attempts_rg:
  assumes "transport.published (bank_memory ` B) m" "\<forall>bg \<in> B. bank_shaped (fst bg)"
  shows "transport.reader_rg (bank_memory ` B)
    (\<lambda>r _. case r of None \<Rightarrow> True | Some s \<Rightarrow> s \<in> received ` B) (bank_attempts n) m"
  using assms(1)
proof (induction n arbitrary: m)
  case (Suc n)
  let ?R = "transport.reader_rg (bank_memory ` B) (\<lambda>r _. case r of None \<Rightarrow> True | Some s \<Rightarrow> s \<in> received ` B)"
  have received: "bank_candidate (ct_generation mb) (ct_calibrated_mask mb) (map (\<lambda>g. g mb) word_loads) \<in> received ` B"
    if mb: "transport_payload mb \<in> bank_memory ` B" for mb
  proof -
    from mb obtain bank g where bg: "(bank, g) \<in> B" "transport_payload mb = bank_memory (bank, g)" by auto
    with assms(2) have shape: "bank_shaped bank" by auto
    from bg(2) have f: "ct_generation mb = g" "ct_calibrated_mask mb = ucast (cb_calibrated_string_mask bank)"
      "ct_words mb = bank_words bank"
      by (cases mb; simp add: transport_payload_def bank_memory_def)+
    then have "map (\<lambda>g. g mb) word_loads = bank_words bank"
      using loaded_words length_bank_words [OF shape] by metis
    with f shape bg(1) show ?thesis by (auto simp: candidate_received)
  qed
  have read: "?R (load ct_generation (\<lambda>g. load ct_calibrated_mask (\<lambda>k.
            load_all word_loads (\<lambda>ws. load ct_sequence (\<lambda>after.
              if ct_sequence mb = after \<and> after AND 1 = 0 then Ret (Some (bank_candidate g k ws))
              else bank_attempts n))))) mb"
    if mb: "transport.published (bank_memory ` B) mb" "even (transport_version mb)" for mb
  proof (rule transport.load_reading [OF transport.reading_start [OF mb(1)] mb(2)], goal_cases payload generation)
    case (generation g m1)
    show ?case
    proof (rule transport.load_reading [OF generation mb(2)], goal_cases payload calibrated)
      case (calibrated k m2)
      show ?case
      proof (rule transport.load_all_reading [OF calibrated mb(2) word_loads_payload], goal_cases words)
        case (words ws m3)
        show ?case
          unfolding rg_load
        proof (intro allI impI conjI refl)
          fix m4 assume "transport.writes (bank_memory ` B) m3 m4"
          then have r: "transport.reading (bank_memory ` B) mb
              (((True \<and> g = ct_generation mb) \<and> k = ct_calibrated_mask mb) \<and> ws = map (\<lambda>g. g mb) word_loads) m4"
            by (rule transport.reading_stable [OF words mb(2)])
          show "?R (if ct_sequence mb = ct_sequence m4 \<and> ct_sequence m4 AND 1 = 0
              then Ret (Some (bank_candidate g k ws)) else bank_attempts n) m4"
          proof (cases "ct_sequence mb = ct_sequence m4 \<and> ct_sequence m4 AND 1 = 0")
            case True
            then have "transport_version m4 = transport_version mb" by (simp add: transport_version_def)
            from transport.reading_end [OF r this mb(2)] received [of mb] True show ?thesis by simp
          next
            case False
            from r have "transport.published (bank_memory ` B) m4" by (simp add: transport.reading_def)
            with Suc.IH show ?thesis unfolding if_not_P [OF False] by simp
          qed
        qed
      qed
    qed (simp add: transport_payload_def)
  qed (simp add: transport_payload_def)
  show ?case
    unfolding bank_attempts.simps rg_load
    using Suc read transport.published_stable by (auto simp: version_even)
qed simp

text \<open>
  C25: The editor never sees half of a calibration. In every interleaving with the audio thread's
  publications, a read that succeeds delivers a bank that was published, with its own generation, every
  string's points and its mask, less the partial detunings; before the first publication every read fails.
  The publications are assumed to be too few to wrap the 32-bit sequence.
\<close>

theorem bank_transport_untorn:
  assumes "list_all (\<lambda>(bank, g). bank_shaped bank) bgs" "2 * length bgs < 2 ^ 32"
  shows "case par_run schedule (CalibrationBankTransport_default, transport_thread bgs, ct_read_latest) of
      (m, p, q) \<Rightarrow> (case q of Ret (Some s) \<Rightarrow> s \<in> received ` set bgs | _ \<Rightarrow> True)"
proof -
  let ?m = CalibrationBankTransport_default and ?P = "bank_memory ` set bgs"
  have m: "transport_wf ?m" "ct_sequence ?m = 0"
    by (simp_all add: transport_wf_def CalibrationBankTransport_default_def)
  have "list_all (\<lambda>(bank, g). bank_shaped bank \<and> bank_memory (bank, g) \<in> ?P) bgs"
    using assms(1) by (auto simp: list_all_iff)
  then have writer: "rg (=) (transport.writes ?P) (\<lambda>_ _. True) (transport_thread bgs) ?m"
    using assms(2) m by (intro transport_thread_rg) simp_all
  have "transport.published ?P ?m" by (simp add: transport.published_def transport_version_def m)
  then have reader: "transport.reader_rg ?P (\<lambda>r _. case r of None \<Rightarrow> True | Some s \<Rightarrow> s \<in> received ` set bgs)
      ct_read_latest ?m"
    unfolding ct_read_latest_def using assms(1) by (intro bank_attempts_rg) (auto simp: list_all_iff)
  obtain m' p q where run: "par_run schedule (?m, transport_thread bgs, ct_read_latest) = (m', p, q)"
    by (metis prod_cases3)
  then have steps: "par_steps (?m, transport_thread bgs, ct_read_latest) (m', p, q)" by (metis par_run_steps)
  have "s \<in> received ` set bgs" if "q = Ret (Some s)" for s
    using transport.reader_result [OF steps [unfolded that] writer reader] by simp
  then show ?thesis by (simp add: run split: prog.splits option.splits)
qed

lemma bank_transport_untorn_witness:
  "\<forall>schedule. case par_run schedule (CalibrationBankTransport_default,
        transport_thread [(StringCalibrationBank_default, 1)], ct_read_latest) of
      (m, p, q) \<Rightarrow> (case q of Ret (Some s) \<Rightarrow> s \<in> received ` set [(StringCalibrationBank_default, 1)] | _ \<Rightarrow> True)"
  by (intro allI bank_transport_untorn) (simp_all add: shaped_default_bank)

end
