(* ===== verification/Calibration_Image.thy ===== *)
theory Calibration_Image
  imports Calibration_Bank Byte_Codec
begin

unbundle bit_operations_syntax

text \<open>
  The saved form of a calibration bank (\<open>src/native/src/calibration_state_image.cpp\<close>): a 24-byte header
  with a CRC, the mask of calibrated strings, and 8 x 25 points of 32 bytes (19 in version 1, which had
  no partial detuning). The encoder moves a cursor (the buffer and the offset) over the output, the
  decoder an offset over the input. The byte helpers and the CRC are those of \<open>Byte_Codec\<close>.
\<close>

definition kCalibrationPointStateV1Size :: nat where "kCalibrationPointStateV1Size = 19"
definition kCalibrationStateV1PayloadSize :: nat where
  "kCalibrationStateV1PayloadSize = 1 + kMaxVoices * kCalibrationFretCount * kCalibrationPointStateV1Size"
definition kCalibrationStateV1Size :: nat where
  "kCalibrationStateV1Size = 24 + kCalibrationStateV1PayloadSize"
definition kCalibrationPointStateSize :: nat where "kCalibrationPointStateSize = 32"
definition kCalibrationStateHeaderSize :: nat where "kCalibrationStateHeaderSize = 24"
definition kCalibrationStatePayloadSize :: nat where
  "kCalibrationStatePayloadSize = 1 + kMaxVoices * kCalibrationFretCount * kCalibrationPointStateSize"
definition kCalibrationStateSize :: nat where
  "kCalibrationStateSize = kCalibrationStateHeaderSize + kCalibrationStatePayloadSize"

lemmas calibration_sizes = kCalibrationPointStateV1Size_def kCalibrationStateV1PayloadSize_def
  kCalibrationStateV1Size_def kCalibrationPointStateSize_def kCalibrationStateHeaderSize_def
  kCalibrationStatePayloadSize_def kCalibrationStateSize_def kMaxVoices_def kCalibrationFretCount_def
  kCalibrationHarmonicCount_def

subsection \<open>Encoding\<close>

type_synonym cursor = "u8 list \<times> nat"

fun put8 :: "u8 \<Rightarrow> cursor \<Rightarrow> cursor" where
  "put8 b (out, offset) = (out[offset := b], offset + 1)"

fun put16 :: "u16 \<Rightarrow> cursor \<Rightarrow> cursor" where
  "put16 v (out, offset) = (put_u16 out offset v, offset + 2)"

definition encode_point :: "StringCalibrationPoint \<Rightarrow> cursor \<Rightarrow> cursor" where
  "encode_point p c =
     put8 (CalibrationPointQuality_to_u8 (cp_quality p))
       (put16 (cp_observation_count p)
         (put16 (cp_confidence_q15 p)
           (put8 (cp_partial_detuning_valid_mask p)
             (fold put16 (cp_partial_detuning_q8 p)
               (fold put16 (cp_harmonic_profile_q15 p)
                 (put16 (cp_cents_offset_q8 p) c))))))"

definition calibration_header :: "u8 list" where
  "calibration_header =
     (let out = (replicate kCalibrationStateSize 0)[0 := 77, 1 := 51, 2 := 67, 3 := 66];
          out = put_u16 out 4 2;
          out = put_u16 out 6 (of_nat kMaxVoices);
          out = put_u16 out 8 (of_nat kCalibrationFretCount);
          out = put_u16 out 10 (of_nat kCalibrationHarmonicCount)
      in put_u32 out 12 (of_nat kCalibrationStatePayloadSize))"

definition encode_calibration_state :: "StringCalibrationBank \<Rightarrow> u8 list \<Rightarrow> bool \<times> u8 list" where
  "encode_calibration_state bank output =
     (if \<not> valid_bank bank then (False, output)
      else let (out, offset) =
                 fold (fold encode_point) (cb_points bank)
                   (put8 (cb_calibrated_string_mask bank) (calibration_header, kCalibrationStateHeaderSize));
               out = put_u32 out 16
                 (crc32 (take kCalibrationStatePayloadSize (drop kCalibrationStateHeaderSize out)))
           in (offset = length out, out))"

subsection \<open>Decoding\<close>

fun get_u16s :: "u8 list \<Rightarrow> nat \<Rightarrow> nat \<Rightarrow> u16 list" where
  "get_u16s bytes offset 0 = []"
| "get_u16s bytes offset (Suc n) = get_u16 bytes offset # get_u16s bytes (offset + 2) n"

text \<open>A point and the offset after it; none when the quality byte is not one of the three.\<close>

definition decode_point :: "bool \<Rightarrow> u8 list \<Rightarrow> nat \<Rightarrow> (StringCalibrationPoint \<times> nat) option" where
  "decode_point v2 bytes offset =
     (let cents = get_u16 bytes offset;
          profile = get_u16s bytes (offset + 2) kCalibrationHarmonicCount;
          offset = offset + 2 + 2 * kCalibrationHarmonicCount;
          (detuning, mask, offset) =
            (if v2
             then (get_u16s bytes offset kCalibrationHarmonicCount,
                   bytes ! (offset + 2 * kCalibrationHarmonicCount),
                   offset + 2 * kCalibrationHarmonicCount + 1)
             else (replicate kCalibrationHarmonicCount 0, 0, offset));
          raw_quality = bytes ! (offset + 4)
      in if 2 < raw_quality then None
         else Some (\<lparr>cp_cents_offset_q8 = cents, cp_harmonic_profile_q15 = profile,
                     cp_partial_detuning_q8 = detuning, cp_partial_detuning_valid_mask = mask,
                     cp_confidence_q15 = get_u16 bytes offset,
                     cp_observation_count = get_u16 bytes (offset + 2),
                     cp_quality = CalibrationPointQuality_of_u8 raw_quality\<rparr>, offset + 5))"

text \<open>The loops over the points of a string and over the strings.\<close>

fun decode_row :: "bool \<Rightarrow> u8 list \<Rightarrow> nat \<Rightarrow> nat \<Rightarrow> (StringCalibrationPoint list \<times> nat) option" where
  "decode_row v2 bytes 0 offset = Some ([], offset)"
| "decode_row v2 bytes (Suc n) offset =
     (case decode_point v2 bytes offset of
        None \<Rightarrow> None
      | Some (p, offset') \<Rightarrow>
          (case decode_row v2 bytes n offset' of
             None \<Rightarrow> None
           | Some (ps, offset'') \<Rightarrow> Some (p # ps, offset'')))"

fun decode_rows :: "bool \<Rightarrow> u8 list \<Rightarrow> nat \<Rightarrow> nat \<Rightarrow> (StringCalibrationPoint list list \<times> nat) option" where
  "decode_rows v2 bytes 0 offset = Some ([], offset)"
| "decode_rows v2 bytes (Suc n) offset =
     (case decode_row v2 bytes kCalibrationFretCount offset of
        None \<Rightarrow> None
      | Some (row, offset') \<Rightarrow>
          (case decode_rows v2 bytes n offset' of
             None \<Rightarrow> None
           | Some (rows, offset'') \<Rightarrow> Some (row # rows, offset'')))"

definition calibration_header_ok :: "u8 list \<Rightarrow> bool" where
  "calibration_header_ok bytes \<longleftrightarrow>
     (length bytes = kCalibrationStateSize \<or> length bytes = kCalibrationStateV1Size)
     \<and> bytes ! 0 = 77 \<and> bytes ! 1 = 51 \<and> bytes ! 2 = 67 \<and> bytes ! 3 = 66
     \<and> get_u16 bytes 6 = of_nat kMaxVoices \<and> get_u16 bytes 8 = of_nat kCalibrationFretCount
     \<and> get_u16 bytes 10 = of_nat kCalibrationHarmonicCount \<and> get_u32 bytes 20 = 0
     \<and> get_u32 bytes 16 = crc32 (drop kCalibrationStateHeaderSize bytes)"

definition decode_calibration_state :: "u8 list option \<Rightarrow> StringCalibrationBank option" where
  "decode_calibration_state pointer =
     (case pointer of
        None \<Rightarrow> None
      | Some bytes \<Rightarrow>
          if \<not> calibration_header_ok bytes then None
          else let version = get_u16 bytes 4;
                   v1 = (version = 1 \<and> length bytes = kCalibrationStateV1Size
                         \<and> get_u32 bytes 12 = of_nat kCalibrationStateV1PayloadSize);
                   v2 = (version = 2 \<and> length bytes = kCalibrationStateSize
                         \<and> get_u32 bytes 12 = of_nat kCalibrationStatePayloadSize)
               in if \<not> v1 \<and> \<not> v2 then None
                  else case decode_rows v2 bytes kMaxVoices (kCalibrationStateHeaderSize + 1) of
                         None \<Rightarrow> None
                       | Some (rows, offset) \<Rightarrow>
                           let candidate = \<lparr>cb_points = rows,
                                 cb_calibrated_string_mask = bytes ! kCalibrationStateHeaderSize\<rparr>
                           in if offset \<noteq> length bytes \<or> \<not> valid_bank candidate then None
                              else Some candidate)"

subsection \<open>What the encoder writes\<close>

definition point_bytes :: "StringCalibrationPoint \<Rightarrow> u8 list" where
  "point_bytes p =
     bytes_16 (cp_cents_offset_q8 p) @ concat (map bytes_16 (cp_harmonic_profile_q15 p))
     @ concat (map bytes_16 (cp_partial_detuning_q8 p)) @ [cp_partial_detuning_valid_mask p]
     @ bytes_16 (cp_confidence_q15 p) @ bytes_16 (cp_observation_count p)
     @ [CalibrationPointQuality_to_u8 (cp_quality p)]"

text \<open>A step of the encoder that stores the given bytes at the cursor.\<close>

definition emits :: "(cursor \<Rightarrow> cursor) \<Rightarrow> u8 list \<Rightarrow> bool" where
  "emits f bs \<longleftrightarrow> (\<forall>out offset. offset + length bs \<le> length out \<longrightarrow>
     f (out, offset) = (store out offset bs, offset + length bs))"

lemma store_append: "store out pos (xs @ ys) = store (store out pos xs) (pos + length xs) ys"
  by (induction out pos xs rule: store.induct) simp_all

lemma emits_put: "emits (put8 b) [b]" "emits (put16 v) (bytes_16 v)"
  by (simp_all add: emits_def put_as_store bytes_16_def)

lemma emits_comp: "emits f xs \<Longrightarrow> emits g ys \<Longrightarrow> emits (\<lambda>c. g (f c)) (xs @ ys)"
  by (simp add: emits_def store_append)

lemma emits_fold: "(\<And>x. x \<in> set xs \<Longrightarrow> emits (f x) (g x)) \<Longrightarrow> emits (fold f xs) (concat (map g xs))"
  by (induction xs) (auto simp: emits_def store_append)

lemma emits_point: "emits (encode_point p) (point_bytes p)"
  unfolding encode_point_def point_bytes_def append_assoc [symmetric]
  by (intro emits_comp emits_fold emits_put)

subsection \<open>What the decoder reads\<close>

definition holds_at :: "u8 list \<Rightarrow> nat \<Rightarrow> u8 list \<Rightarrow> bool" where
  "holds_at bytes offset bs \<longleftrightarrow> (\<forall>i < length bs. bytes ! (offset + i) = bs ! i)"

lemma holds_at_append:
  "holds_at bytes offset (xs @ ys) \<longleftrightarrow> holds_at bytes offset xs \<and> holds_at bytes (offset + length xs) ys"
proof
  assume all: "holds_at bytes offset (xs @ ys)"
  show "holds_at bytes offset xs \<and> holds_at bytes (offset + length xs) ys"
    unfolding holds_at_def
  proof (intro conjI allI impI)
    fix i assume "i < length xs"
    with all [unfolded holds_at_def, rule_format, of i] show "bytes ! (offset + i) = xs ! i"
      by (simp add: nth_append)
  next
    fix i assume "i < length ys"
    with all [unfolded holds_at_def, rule_format, of "length xs + i"]
    show "bytes ! (offset + length xs + i) = ys ! i" by (simp add: nth_append add.assoc)
  qed
next
  assume both: "holds_at bytes offset xs \<and> holds_at bytes (offset + length xs) ys"
  show "holds_at bytes offset (xs @ ys)"
    unfolding holds_at_def
  proof (intro allI impI)
    fix i assume i: "i < length (xs @ ys)"
    show "bytes ! (offset + i) = (xs @ ys) ! i"
    proof (cases "i < length xs")
      case True
      with both show ?thesis by (simp add: holds_at_def nth_append)
    next
      case False
      then obtain j where "i = length xs + j" using le_Suc_ex not_less by blast
      with both i show ?thesis by (simp add: holds_at_def nth_append add.assoc)
    qed
  qed
qed

lemma holds_at_Cons:
  "holds_at bytes offset (b # bs) \<longleftrightarrow> bytes ! offset = b \<and> holds_at bytes (offset + 1) bs"
  using holds_at_append [of bytes offset "[b]" bs] by (simp add: holds_at_def)

lemma holds_at_byte: "holds_at bytes offset [b] \<longleftrightarrow> bytes ! offset = b"
  by (simp add: holds_at_def)

lemma holds_at_16: "holds_at bytes offset (bytes_16 v) \<Longrightarrow> get_u16 bytes offset = v"
  by (rule codec_16.get_bytes) (simp add: holds_at_def codec_16.bytes_length)

lemma length_concat_16 [simp]: "length (concat (map bytes_16 vs)) = 2 * length vs"
  by (induction vs) (simp_all add: codec_16.bytes_length)

lemma holds_at_16s: "holds_at bytes offset (concat (map bytes_16 vs)) \<Longrightarrow> get_u16s bytes offset (length vs) = vs"
  by (induction vs arbitrary: offset) (simp_all add: holds_at_append holds_at_16 codec_16.bytes_length)

lemma quality_roundtrip:
  "CalibrationPointQuality_of_u8 (CalibrationPointQuality_to_u8 q) = q"
  "\<not> 2 < CalibrationPointQuality_to_u8 q"
  by (cases q; simp add: CalibrationPointQuality_of_u8_def)+

lemma length_point_bytes: "point_shaped p \<Longrightarrow> length (point_bytes p) = kCalibrationPointStateSize"
  by (simp add: point_shaped_def point_bytes_def codec_16.bytes_length calibration_sizes)

lemma decode_point_at:
  assumes "holds_at bytes offset (point_bytes p)" "point_shaped p"
  shows "decode_point True bytes offset = Some (p, offset + kCalibrationPointStateSize)"
proof -
  have n: "length (cp_harmonic_profile_q15 p) = 6" "length (cp_partial_detuning_q8 p) = 6"
    using assms(2) by (simp_all add: point_shaped_def kCalibrationHarmonicCount_def)
  have h: "holds_at bytes offset (bytes_16 (cp_cents_offset_q8 p))"
    "holds_at bytes (offset + 2) (concat (map bytes_16 (cp_harmonic_profile_q15 p)))"
    "holds_at bytes (offset + 14) (concat (map bytes_16 (cp_partial_detuning_q8 p)))"
    "bytes ! (offset + 26) = cp_partial_detuning_valid_mask p"
    "holds_at bytes (offset + 27) (bytes_16 (cp_confidence_q15 p))"
    "holds_at bytes (offset + 29) (bytes_16 (cp_observation_count p))"
    "bytes ! (offset + 31) = CalibrationPointQuality_to_u8 (cp_quality p)"
    using assms(1) n
    by (simp_all add: point_bytes_def holds_at_append holds_at_Cons codec_16.bytes_length add.commute)
  have "get_u16s bytes (offset + 2) 6 = cp_harmonic_profile_q15 p"
    "get_u16s bytes (offset + 14) 6 = cp_partial_detuning_q8 p"
    using holds_at_16s [OF h(2)] holds_at_16s [OF h(3)] n by simp_all
  then show ?thesis
    using h(1,5,6) [THEN holds_at_16] h(4,7)
    by (simp add: decode_point_def Let_def kCalibrationHarmonicCount_def kCalibrationPointStateSize_def
        add.assoc quality_roundtrip add.commute)
qed

lemma decode_row_at:
  assumes "holds_at bytes offset (concat (map point_bytes row))" "list_all point_shaped row"
  shows "decode_row True bytes (length row) offset = Some (row, offset + kCalibrationPointStateSize * length row)"
  using assms
  by (induction row arbitrary: offset)
    (auto simp: holds_at_append decode_point_at length_point_bytes algebra_simps)

lemma decode_rows_at:
  assumes "holds_at bytes offset (concat (map (\<lambda>row. concat (map point_bytes row)) rows))"
    "list_all (\<lambda>row. length row = kCalibrationFretCount \<and> list_all point_shaped row) rows"
  shows "decode_rows True bytes (length rows) offset
     = Some (rows, offset + kCalibrationPointStateSize * kCalibrationFretCount * length rows)"
  using assms
proof (induction rows arbitrary: offset)
  case (Cons row rows)
  have "length (concat (map point_bytes row)) = kCalibrationPointStateSize * length row"
    if "list_all point_shaped row" for row
    using that by (induction row) (simp_all add: length_point_bytes)
  with Cons.prems have "holds_at bytes offset (concat (map point_bytes row))"
    "holds_at bytes (offset + kCalibrationPointStateSize * kCalibrationFretCount)
       (concat (map (\<lambda>row. concat (map point_bytes row)) rows))"
    by (simp_all add: holds_at_append)
  with Cons.IH [OF this(2)] Cons.prems(2) decode_row_at [of bytes offset row]
  show ?case by (simp add: algebra_simps)
qed simp

end
