(* ===== verification/Calibration_Properties.thy ===== *)
theory Calibration_Properties
  imports Calibration_Image
begin

unbundle bit_operations_syntax

text \<open>
  The laws of the calibration image: what the encoder leaves in each field of the header, the round trip,
  and what a decoded bank is.
\<close>

subsection \<open>The header\<close>

lemma sizes_eval:
  "kCalibrationStateSize = 6425" "kCalibrationStatePayloadSize = 6401" "kCalibrationStateHeaderSize = 24"
  "kCalibrationStateV1Size = 3825" "kCalibrationStateV1PayloadSize = 3801"
  by (simp_all add: calibration_sizes)

lemma length_header [simp]: "length calibration_header = kCalibrationStateSize"
  by (simp add: calibration_header_def Let_def put_as_store)

text \<open>A field of the header is what was put there: later stores go elsewhere.\<close>

lemmas field_rules = codec_16.get_store_same codec_16.get_store_other codec_32.get_store_same
  codec_32.get_store_other codec_16.bytes_length codec_32.bytes_length

lemma zero_fields: "get_u32 (replicate n 0) pos = 0" if "pos + 4 \<le> n"
proof -
  have "replicate n (0 :: u8) ! (pos + i) = bytes_32 0 ! i" if "i < 4" for i
    using that \<open>pos + 4 \<le> n\<close> less_Suc_eq numeral_eq_Suc by (auto simp: bytes_32_def byte_of_def)
  then show ?thesis by (rule codec_32.get_bytes)
qed

lemma update_as_store: "out[i := b] = store out i [b]"
  by simp

lemma header_fields:
  "get_u16 calibration_header 4 = 2" "get_u16 calibration_header 6 = of_nat kMaxVoices"
  "get_u16 calibration_header 8 = of_nat kCalibrationFretCount"
  "get_u16 calibration_header 10 = of_nat kCalibrationHarmonicCount"
  "get_u32 calibration_header 12 = of_nat kCalibrationStatePayloadSize"
  "get_u32 calibration_header 20 = 0"
  by (simp_all add: calibration_header_def Let_def put_as_store field_rules sizes_eval update_as_store
      zero_fields del: store.simps)

lemma header_magic:
  "calibration_header ! 0 = 77" "calibration_header ! 1 = 51" "calibration_header ! 2 = 67"
  "calibration_header ! 3 = 66"
  by (simp_all add: calibration_header_def Let_def put_as_store store_nth sizes_eval codec_16.bytes_length
      codec_32.bytes_length)

subsection \<open>The encoded image\<close>

definition bank_bytes :: "StringCalibrationBank \<Rightarrow> u8 list" where
  "bank_bytes bank =
     cb_calibrated_string_mask bank # concat (map (\<lambda>row. concat (map point_bytes row)) (cb_points bank))"

lemma length_row_bytes:
  "list_all point_shaped row \<Longrightarrow> length (concat (map point_bytes row)) = 32 * length row"
  by (induction row) (simp_all add: length_point_bytes kCalibrationPointStateSize_def)

lemma length_bank_bytes: "bank_shaped bank \<Longrightarrow> length (bank_bytes bank) = kCalibrationStatePayloadSize"
proof -
  have "length (concat (map (\<lambda>row. concat (map point_bytes row)) rows)) = 800 * length rows"
    if "list_all (\<lambda>row. length row = kCalibrationFretCount \<and> list_all point_shaped row) rows" for rows
    using that by (induction rows) (simp_all add: length_row_bytes kCalibrationFretCount_def)
  then show "bank_shaped bank \<Longrightarrow> ?thesis"
    by (simp add: bank_bytes_def bank_shaped_def sizes_eval kMaxVoices_def)
qed

lemma encode_points:
  assumes "bank_shaped bank"
  shows "fold (fold encode_point) (cb_points bank)
      (put8 (cb_calibrated_string_mask bank) (calibration_header, kCalibrationStateHeaderSize))
    = (store calibration_header 24 (bank_bytes bank), kCalibrationStateSize)"
proof -
  have "emits (fold (fold encode_point) (cb_points bank))
      (concat (map (\<lambda>row. concat (map point_bytes row)) (cb_points bank)))"
    by (intro emits_fold emits_point)
  from emits_comp [OF emits_put(1) this, of "cb_calibrated_string_mask bank"]
  have "emits (\<lambda>c. fold (fold encode_point) (cb_points bank) (put8 (cb_calibrated_string_mask bank) c))
      (bank_bytes bank)" by (simp add: bank_bytes_def)
  from this [unfolded emits_def, rule_format, of 24 calibration_header]
  show ?thesis using length_bank_bytes [OF assms] by (simp add: sizes_eval)
qed

text \<open>The image of a valid bank: the header with the checksum, then the bytes of the bank.\<close>

lemma encode_calibration_image:
  assumes "valid_bank bank" "bank_shaped bank"
  shows "encode_calibration_state bank out =
    (True, put_u32 (store calibration_header 24 (bank_bytes bank)) 16 (crc32 (bank_bytes bank)))"
proof -
  have "take kCalibrationStatePayloadSize (drop kCalibrationStateHeaderSize
      (store calibration_header 24 (bank_bytes bank))) = bank_bytes bank"
    using length_bank_bytes [OF assms(2)] by (simp add: store_take_drop sizes_eval)
  then show ?thesis
    using assms(1) by (simp add: encode_calibration_state_def encode_points [OF assms(2)] put_as_store
      del: put8.simps)
qed

lemma drop_nth_same: "length xs = length ys \<Longrightarrow> (\<And>i. n \<le> i \<Longrightarrow> i < length xs \<Longrightarrow> xs ! i = ys ! i) \<Longrightarrow> drop n xs = drop n ys"
  by (intro nth_equalityI) auto

lemma encoded_image_facts:
  assumes "bank_shaped bank"
  defines "img \<equiv> put_u32 (store calibration_header 24 (bank_bytes bank)) 16 (crc32 (bank_bytes bank))"
  shows "length img = kCalibrationStateSize" "calibration_header_ok img" "get_u16 img 4 = 2"
    "get_u32 img 12 = of_nat kCalibrationStatePayloadSize" "img ! 24 = cb_calibrated_string_mask bank"
    "holds_at img 25 (concat (map (\<lambda>row. concat (map point_bytes row)) (cb_points bank)))"
proof -
  note len = length_bank_bytes [OF assms(1)]
  show l: "length img = kCalibrationStateSize" by (simp add: img_def put_as_store)
  have f16: "get_u16 img p = get_u16 calibration_header p" if "p + 2 \<le> 16" for p
    using that len by (simp add: img_def put_as_store field_rules sizes_eval del: store.simps)
  have f32: "get_u32 img p = get_u32 calibration_header p" if "p + 4 \<le> 16 \<or> 20 \<le> p \<and> p + 4 \<le> 24" for p
    unfolding img_def put_as_store
    by (subst codec_32.get_store_other codec_32.get_store_other)
      (use that len in \<open>auto simp: sizes_eval codec_32.bytes_length intro!: codec_32.get_store_other\<close>)
  have nth: "img ! i = calibration_header ! i" if "i < 16" for i
    using that len by (simp add: img_def put_as_store store_nth sizes_eval codec_32.bytes_length)
  have crc: "get_u32 img 16 = crc32 (bank_bytes bank)"
    unfolding img_def put_as_store by (rule codec_32.get_store_same) (simp add: sizes_eval)
  have pay: "drop 24 img = bank_bytes bank"
  proof -
    have "drop 24 img = drop 24 (store calibration_header 24 (bank_bytes bank))"
      by (rule drop_nth_same) (use len in \<open>simp_all add: img_def put_as_store store_nth sizes_eval codec_32.bytes_length\<close>)
    then show ?thesis using len by (simp add: store_take_drop sizes_eval)
  qed
  show "calibration_header_ok img"
    unfolding calibration_header_ok_def
    using l f16 [of 6] f16 [of 8] f16 [of 10] f32 [of 20] crc pay nth header_magic
    by (simp add: header_fields sizes_eval)
  show "get_u16 img 4 = 2" "get_u32 img 12 = of_nat kCalibrationStatePayloadSize"
    using f16 [of 4] f32 [of 12] by (simp_all add: header_fields)
  have at: "holds_at img 24 (bank_bytes bank)"
    unfolding holds_at_def pay [symmetric] using l by (simp add: sizes_eval)
  then show "img ! 24 = cb_calibrated_string_mask bank"
    "holds_at img 25 (concat (map (\<lambda>row. concat (map point_bytes row)) (cb_points bank)))"
    by (simp_all add: bank_bytes_def holds_at_Cons)
qed

lemma decode_encoded_bank:
  assumes "valid_bank bank" "bank_shaped bank"
  shows "decode_calibration_state (Some (snd (encode_calibration_state bank out))) = Some bank"
proof -
  define img where
    "img = put_u32 (store calibration_header 24 (bank_bytes bank)) 16 (crc32 (bank_bytes bank))"
  note f = encoded_image_facts [OF assms(2), folded img_def]
  have "decode_rows True img kMaxVoices 25 = Some (cb_points bank, kCalibrationStateSize)"
    using decode_rows_at [OF f(6)] assms(2)
    by (simp add: bank_shaped_def sizes_eval kMaxVoices_def kCalibrationPointStateSize_def kCalibrationFretCount_def)
  then have "decode_calibration_state (Some img) = Some bank"
    using f(1-5) assms(1) by (cases bank) (simp add: decode_calibration_state_def sizes_eval Let_def)
  then show ?thesis by (simp add: encode_calibration_image [OF assms] img_def)
qed

text \<open>
  What the calibration image guarantees to the host's state stream: the round trip of every valid bank,
  only valid banks of the fixed shape are accepted, and a corrupted byte is refused.
\<close>

lemma get_u16s_length [simp]: "length (get_u16s bytes offset n) = n"
  by (induction n arbitrary: offset) simp_all

lemma decode_point_shaped: "decode_point v2 bytes offset = Some (p, o') \<Longrightarrow> point_shaped p"
  by (auto simp: decode_point_def Let_def point_shaped_def split: if_splits)

lemma decode_row_shaped:
  "decode_row v2 bytes n offset = Some (row, o') \<Longrightarrow> length row = n \<and> list_all point_shaped row"
  by (induction v2 bytes n offset arbitrary: row o' rule: decode_row.induct)
    (auto split: option.splits prod.splits dest: decode_point_shaped)

lemma decode_rows_shaped:
  "decode_rows v2 bytes n offset = Some (rows, o') \<Longrightarrow>
     length rows = n \<and> list_all (\<lambda>row. length row = kCalibrationFretCount \<and> list_all point_shaped row) rows"
  by (induction v2 bytes n offset arbitrary: rows o' rule: decode_rows.induct)
    (fastforce split: option.splits prod.splits dest: decode_row_shaped)+

lemma decode_calibration_cases:
  assumes "decode_calibration_state (Some bytes) = Some bank"
  shows "calibration_header_ok bytes" "valid_bank bank" "bank_shaped bank"
  using assms
  by (auto simp: decode_calibration_state_def Let_def bank_shaped_def dest!: decode_rows_shaped
      split: if_splits option.splits prod.splits)

lemma valid_default_point: "valid_point StringCalibrationPoint_default"
  by code_simp

lemma valid_default_bank: "valid_bank StringCalibrationBank_default"
proof -
  have "valid_row False (replicate n StringCalibrationPoint_default)" for n
    by (simp add: valid_row_def list_all_iff valid_default_point)
      (simp add: StringCalibrationPoint_default_def)
  then show ?thesis
    by (simp add: valid_bank_def list_all_iff string_calibrated_iff StringCalibrationBank_default_def empty_row_def)
qed

text \<open>
  C22: A calibration survives the host's save and load: every valid bank is encoded (whatever the output
  buffer held before) into an image of the fixed size, and decoding that image gives the same bank, point
  for point, with its partial detunings and the mask of calibrated strings.
\<close>

theorem calibration_roundtrip:
  assumes "valid_bank bank" "bank_shaped bank"
  shows "fst (encode_calibration_state bank out)
    \<and> length (snd (encode_calibration_state bank out)) = kCalibrationStateSize
    \<and> decode_calibration_state (Some (snd (encode_calibration_state bank out))) = Some bank"
  using decode_encoded_bank [OF assms] encoded_image_facts(1) [OF assms(2)]
  by (simp add: encode_calibration_image [OF assms])

theorem calibration_roundtrip_witness:
  "decode_calibration_state (Some (snd (encode_calibration_state StringCalibrationBank_default [])))
     = Some StringCalibrationBank_default"
  using calibration_roundtrip [OF valid_default_bank shaped_default_bank] by blast


text \<open>
  C24: A stored calibration with one corrupted payload byte is refused.
\<close>

theorem corrupted_calibration_refused:
  assumes "decode_calibration_state (Some bytes) = Some bank"
    and "kCalibrationStateHeaderSize \<le> i" "i < length bytes" "b \<noteq> bytes ! i"
  shows "decode_calibration_state (Some (bytes[i := b])) = None"
proof -
  have h: "calibration_header_ok bytes" by (rule decode_calibration_cases [OF assms(1)])
  have "drop 24 (bytes[i := b]) = (drop 24 bytes)[i - 24 := b]"
    using assms(2,3) by (simp add: drop_update_swap sizes_eval)
  moreover have "crc32 ((drop 24 bytes)[i - 24 := b]) \<noteq> crc32 (drop 24 bytes)"
    using assms(2-4) by (intro crc32_one_byte) (simp_all add: sizes_eval)
  moreover have "get_u32 (bytes[i := b]) 16 = get_u32 bytes 16"
    using assms(2) by (intro codec_32.get_cong) (simp add: sizes_eval)
  ultimately have "\<not> calibration_header_ok (bytes[i := b])"
    using h by (auto simp: calibration_header_ok_def sizes_eval)
  then show ?thesis by (simp add: decode_calibration_state_def)
qed

theorem corrupted_calibration_refused_witness:
  "\<exists>b. decode_calibration_state
     (Some ((snd (encode_calibration_state StringCalibrationBank_default []))[30 := b])) = None"
proof -
  let ?img = "snd (encode_calibration_state StringCalibrationBank_default [])"
  have n: "30 < length ?img"
    using encoded_image_facts(1) [OF shaped_default_bank]
    by (simp add: encode_calibration_image [OF valid_default_bank shaped_default_bank] sizes_eval)
  have "?img ! 30 + 1 \<noteq> ?img ! 30" by simp
  from corrupted_calibration_refused [OF decode_encoded_bank [OF valid_default_bank shaped_default_bank] _ n this]
  show ?thesis by (intro exI) (simp add: sizes_eval)
qed

end
