(* ===== verification/Factory_Calibration.thy ===== *)
theory Factory_Calibration
  imports Calibration_Properties Float64_Mono
begin

unbundle bit_operations_syntax

text \<open>
  The factory prior and its use (\<open>src/native/src/factory_calibration.cpp\<close>): the bank that the built-in
  image decodes to (the image itself, a data file, is a parameter), the merge of a saved calibration over
  it, and the projection of a detected pitch onto the current or an adjacent calibrated fret.
\<close>

definition decode_factory_bank :: "u8 list \<Rightarrow> StringCalibrationBank" where
  "decode_factory_bank factory_image =
     (case decode_calibration_state (Some factory_image) of
        None \<Rightarrow> bank_clear StringCalibrationBank_default
      | Some bank \<Rightarrow> bank)"

definition merge_step :: "StringCalibrationBank \<Rightarrow> nat \<Rightarrow> StringCalibrationBank \<Rightarrow> StringCalibrationBank" where
  "merge_step overrides s merged =
     (if \<not> string_calibrated overrides s then merged
      else set_string s (cb_points overrides ! s) merged)"

definition merge_m3_factory_calibration :: "u8 list \<Rightarrow> StringCalibrationBank \<Rightarrow> StringCalibrationBank" where
  "merge_m3_factory_calibration factory_image overrides =
     fold (merge_step overrides) [0..<kMaxVoices] (decode_factory_bank factory_image)"

record CalibratedNoteProjection =
  pn_note :: u8
  pn_fret_delta :: int
  pn_error_improvement_cents :: f64
  pn_changed :: bool

text \<open>The calibrated centre of a fret in cents, and \<open>1.0e-9\<close>.\<close>

definition fret_center :: "u8 \<Rightarrow> StringCalibrationPoint \<Rightarrow> f64" where
  "fret_center candidate_note p =
     f64_of_int 100 * f64_of_int (uint candidate_note)
       + f64_of_int (sint (cp_cents_offset_q8 p)) div f64_of_int 256"

definition projection_epsilon :: f64 where "projection_epsilon = f64_rat 1 1000000000"

definition usable_point :: "StringCalibrationBank \<Rightarrow> nat \<Rightarrow> nat \<Rightarrow> StringCalibrationPoint option" where
  "usable_point bank s fret =
     (case bank_point bank s fret of
        None \<Rightarrow> None
      | Some p \<Rightarrow> if cp_quality p = quality_missing then None else Some p)"

text \<open>One direction of the loop; the state is the best error and the best note so far.\<close>

definition try_adjacent ::
  "StringCalibrationBank \<Rightarrow> nat \<Rightarrow> u8 \<Rightarrow> nat \<Rightarrow> u8 \<Rightarrow> f64 \<Rightarrow> int \<Rightarrow> f64 \<times> u8 \<Rightarrow> f64 \<times> u8" where
  "try_adjacent bank s note_in fret maximum_fret observed direction best =
     (let adjacent_note = uint note_in + direction;
          adjacent_fret = int fret + direction
      in if adjacent_note < 0 \<or> 127 < adjacent_note \<or> adjacent_fret < 0
            \<or> int kCalibrationFretCount \<le> adjacent_fret \<or> uint maximum_fret < adjacent_fret then best
         else case usable_point bank s (nat adjacent_fret) of
                None \<Rightarrow> best
              | Some p \<Rightarrow>
                  let error = \<bar>observed - fret_center (word_of_int adjacent_note) p\<bar>
                  in if error + projection_epsilon < fst best
                     then (error, word_of_int adjacent_note) else best)"

definition unchanged_note :: "u8 \<Rightarrow> CalibratedNoteProjection" where
  "unchanged_note n =
     \<lparr>pn_note = n, pn_fret_delta = 0, pn_error_improvement_cents = 0, pn_changed = False\<rparr>"

definition project_calibrated_note ::
  "u8 \<Rightarrow> u16 \<Rightarrow> bool \<Rightarrow> u8 \<Rightarrow> StringCalibrationBank \<Rightarrow> u8 \<Rightarrow> f64 \<Rightarrow> CalibratedNoteProjection" where
  "project_calibrated_note note_in cents_q8 cents_valid string_index bank maximum_fret minimum_improvement =
     (let result = unchanged_note note_in; s = unat string_index in
      if \<not> cents_valid \<or> length kM3OpenNotes \<le> s \<or> \<not> string_calibrated bank s
         \<or> \<not> is_finite minimum_improvement \<or> minimum_improvement < 0 \<or> note_in < kM3OpenNotes ! s then result
      else let fret = unat note_in - unat (kM3OpenNotes ! s) in
      if kCalibrationFretCount \<le> fret \<or> unat maximum_fret < fret then result
      else case usable_point bank s fret of
        None \<Rightarrow> result
      | Some current \<Rightarrow>
          let observed = f64_of_int 100 * f64_of_int (uint note_in)
                + f64_of_int (sint cents_q8) div f64_of_int 256;
              current_error = \<bar>observed - fret_center note_in current\<bar>;
              (best_error, best_note) =
                fold (try_adjacent bank s note_in fret maximum_fret observed) [-1, 1] (current_error, note_in);
              improvement = current_error - best_error
          in if best_note \<noteq> note_in \<and> minimum_improvement \<le> improvement + projection_epsilon
             then \<lparr>pn_note = best_note, pn_fret_delta = (if note_in < best_note then 1 else -1),
                   pn_error_improvement_cents = improvement, pn_changed = True\<rparr>
             else result)"

subsection \<open>The merge\<close>

lemma bank_wf_decoded: "valid_bank (decode_factory_bank factory_image) \<and> bank_shaped (decode_factory_bank factory_image)"
proof (cases "decode_calibration_state (Some factory_image)")
  case None
  moreover have "bank_clear StringCalibrationBank_default = StringCalibrationBank_default"
    by (simp add: bank_clear_def StringCalibrationBank_default_def)
  ultimately show ?thesis by (simp add: decode_factory_bank_def valid_default_bank shaped_default_bank)
next
  case (Some bank)
  then show ?thesis using decode_calibration_cases [OF Some] by (simp add: decode_factory_bank_def)
qed

text \<open>Replacing the row of a string by a complete valid row keeps a bank valid.\<close>

lemma set_string_simps [simp]:
  "cb_points (set_string s row bank) = (cb_points bank)[s := row]"
  "cb_calibrated_string_mask (set_string s row bank) = cb_calibrated_string_mask bank OR string_bit s"
  by (simp_all add: set_string_def)

lemma set_string_calibrated:
  "s < kMaxVoices \<Longrightarrow> string_calibrated (set_string s row bank) t \<longleftrightarrow> t < kMaxVoices \<and> (t = s \<or> string_calibrated bank t)"
  by (auto simp: string_calibrated_iff bit_set_string)

lemma set_string_valid:
  assumes "valid_bank bank" "bank_shaped bank" "s < kMaxVoices" "valid_row True row"
  shows "valid_bank (set_string s row bank)"
  using assms unfolding valid_bank_def list_all_iff
  by (auto simp: set_string_calibrated nth_list_update bank_shaped_def)

lemma set_string_shaped:
  assumes "bank_shaped bank" "length row = kCalibrationFretCount" "list_all point_shaped row"
  shows "bank_shaped (set_string s row bank)"
  using assms by (auto simp: bank_shaped_def list_all_iff dest!: set_update_subset_insert [THEN subsetD])

lemma valid_bank_row:
  "valid_bank bank \<Longrightarrow> string_calibrated bank s \<Longrightarrow> valid_row True (cb_points bank ! s)"
proof -
  assume v: "valid_bank bank" and c: "string_calibrated bank s"
  from c have "s \<in> set [0..<kMaxVoices]" by (simp add: string_calibrated_iff)
  with v have "valid_row (string_calibrated bank s) (cb_points bank ! s)"
    unfolding valid_bank_def list_all_iff by (rule bspec)
  with c show ?thesis by simp
qed

lemma shaped_row:
  "bank_shaped bank \<Longrightarrow> s < kMaxVoices \<Longrightarrow>
     length (cb_points bank ! s) = kCalibrationFretCount \<and> list_all point_shaped (cb_points bank ! s)"
  by (auto simp: bank_shaped_def list_all_iff)


text \<open>What the merged bank holds, string by string.\<close>

lemma merge_step_at:
  assumes "length (cb_points b) = kMaxVoices" "s < kMaxVoices"
  shows "cb_points (merge_step overrides s b) ! t
      = (if t = s \<and> string_calibrated overrides s then cb_points overrides ! t else cb_points b ! t)"
    "string_calibrated (merge_step overrides s b) t
      \<longleftrightarrow> string_calibrated b t \<or> t = s \<and> string_calibrated overrides s"
    "length (cb_points (merge_step overrides s b)) = kMaxVoices"
  using assms by (auto simp: merge_step_def set_string_calibrated) (auto simp: string_calibrated_iff)

lemma merge_steps_at:
  assumes "length (cb_points b) = kMaxVoices" "n \<le> kMaxVoices"
  shows "cb_points (fold (merge_step overrides) [0..<n] b) ! t
      = (if t < n \<and> string_calibrated overrides t then cb_points overrides ! t else cb_points b ! t)"
    and "string_calibrated (fold (merge_step overrides) [0..<n] b) t
      \<longleftrightarrow> string_calibrated b t \<or> t < n \<and> string_calibrated overrides t"
    and "length (cb_points (fold (merge_step overrides) [0..<n] b)) = kMaxVoices"
proof -
  have "length (cb_points (fold (merge_step overrides) [0..<n] b)) = kMaxVoices
    \<and> cb_points (fold (merge_step overrides) [0..<n] b) ! t
      = (if t < n \<and> string_calibrated overrides t then cb_points overrides ! t else cb_points b ! t)
    \<and> (string_calibrated (fold (merge_step overrides) [0..<n] b) t
      \<longleftrightarrow> string_calibrated b t \<or> t < n \<and> string_calibrated overrides t)"
    using assms(2)
  proof (induction n)
    case (Suc n)
    then show ?case using merge_step_at(1,2) [of "fold (merge_step overrides) [0..<n] b" n overrides t]
        merge_step_at(3) [of "fold (merge_step overrides) [0..<n] b" n overrides]
      by (auto simp: less_Suc_eq)
  qed (simp add: assms(1))
  then show "cb_points (fold (merge_step overrides) [0..<n] b) ! t
      = (if t < n \<and> string_calibrated overrides t then cb_points overrides ! t else cb_points b ! t)"
    "string_calibrated (fold (merge_step overrides) [0..<n] b) t
      \<longleftrightarrow> string_calibrated b t \<or> t < n \<and> string_calibrated overrides t"
    "length (cb_points (fold (merge_step overrides) [0..<n] b)) = kMaxVoices"
    by blast+
qed

text \<open>
  C26: The merge over the factory prior is string-wise: with a well-formed saved bank, the merged bank is
  well formed, a string is calibrated in it exactly when it is in the save or in the factory prior, and its
  points are the saved ones where the save has the string and the factory's otherwise.
\<close>

theorem merge_by_string:
  assumes "valid_bank overrides" "bank_shaped overrides"
  shows "let merged = merge_m3_factory_calibration factory_image overrides;
             factory = decode_factory_bank factory_image
         in valid_bank merged \<and> bank_shaped merged
            \<and> (\<forall>s. string_calibrated merged s \<longleftrightarrow> string_calibrated overrides s \<or> string_calibrated factory s)
            \<and> (\<forall>s. cb_points merged ! s = (if string_calibrated overrides s then cb_points overrides ! s
                                             else cb_points factory ! s))"
proof -
  define b where "b = decode_factory_bank factory_image"
  define m where "m = fold (merge_step overrides) [0..<kMaxVoices] b"
  have b: "valid_bank b" "bank_shaped b" "length (cb_points b) = kMaxVoices"
    using bank_wf_decoded by (simp_all add: b_def bank_shaped_def)
  have low: "string_calibrated o' t \<Longrightarrow> t < kMaxVoices" for o' t by (simp add: string_calibrated_iff)
  note at = merge_steps_at [OF b(3) order_refl, of overrides, folded m_def]
  have cal: "string_calibrated m s \<longleftrightarrow> string_calibrated overrides s \<or> string_calibrated b s" for s
    using at(2) low by blast
  have pts: "cb_points m ! s = (if string_calibrated overrides s then cb_points overrides ! s else cb_points b ! s)" for s
    using at(1) low by simp
  have row: "valid_row (string_calibrated m s) (cb_points m ! s)" if "s < kMaxVoices" for s
    using b(1) assms(1) that unfolding cal pts
    by (cases "string_calibrated overrides s") (auto simp: valid_bank_def list_all_iff intro: valid_bank_row [OF assms(1)])
  have shape: "length (cb_points m ! s) = kCalibrationFretCount \<and> list_all point_shaped (cb_points m ! s)"
    if "s < kMaxVoices" for s
    using shaped_row [OF b(2) that] shaped_row [OF assms(2) that] by (simp add: pts)
  have "valid_bank m" using row by (simp add: valid_bank_def list_all_iff)
  moreover have "bank_shaped m"
    using at(3) shape by (simp add: bank_shaped_def list_all_length)
  ultimately show ?thesis
    using cal pts unfolding merge_m3_factory_calibration_def Let_def b_def m_def by blast
qed

theorem merge_by_string_witness:
  "valid_bank (merge_m3_factory_calibration [] StringCalibrationBank_default)"
  using merge_by_string [OF valid_default_bank shaped_default_bank, of "[]"] by (simp add: Let_def)

subsection \<open>The projection\<close>

lemma f64_le_add:
  assumes "is_finite x" "\<not> f64_neg x" "is_finite z" "0 \<le> z"
  shows "x \<le> x + z"
proof -
  have "f64_key (x + 0) \<le> f64_key (x + z)"
    using f64_add_key(1) [OF assms(1), of 0] f64_add_key(1) [OF assms(1,3)] exact_mono [OF assms(4)]
    by (simp add: round_key_mono is_finite_def exact_def f64_scaled_0)
  moreover have "x + 0 = x" using assms(1,2) by (intro f64_add_zero) simp_all
  ultimately show ?thesis using assms f64_add_key(2) [OF assms(1,3)] by (simp add: less_eq_f64_def)
qed

lemma abs_not_neg [simp]: "\<not> f64_neg \<bar>x\<bar>"
  by (simp add: abs_f64_def)

lemma epsilon_ok: "is_finite projection_epsilon" "0 \<le> projection_epsilon"
  by (simp_all add: projection_epsilon_def) code_simp+

text \<open>An error that beats another by the epsilon is smaller.\<close>

lemma beats: "\<bar>x\<bar> + projection_epsilon < b \<Longrightarrow> \<bar>x\<bar> < b"
proof -
  assume lt: "\<bar>x\<bar> + projection_epsilon < b"
  have eps: "\<not> is_nan projection_epsilon" "\<not> is_inf projection_epsilon" using epsilon_ok(1) by simp_all
  consider "is_nan \<bar>x\<bar>" | "is_inf \<bar>x\<bar>" | "is_finite \<bar>x\<bar>"
    unfolding is_nan_def is_inf_def is_finite_def by (meson linorder_neqE)
  then show ?thesis
  proof cases
    case 1
    then have "is_nan (\<bar>x\<bar> + projection_epsilon)"
      by (simp add: plus_f64_def f64_add_def) (simp add: f64_nan_def is_nan_def f64_mag_def)
    with lt show ?thesis by (simp add: less_f64_def)
  next
    case 2
    then have "\<not> is_nan \<bar>x\<bar>" by (simp add: is_nan_def is_inf_def)
    with 2 eps have "\<bar>x\<bar> + projection_epsilon = \<bar>x\<bar>" by (simp add: plus_f64_def f64_add_def)
    with lt show ?thesis by simp
  next
    case 3
    from f64_le_add [OF 3 _ epsilon_ok] lt show ?thesis by (auto simp: less_f64_def less_eq_f64_def)
  qed
qed

text \<open>
  What the loop over the two directions keeps: the best note is the note itself, or an adjacent one that
  is calibrated, within the fret limit, and strictly closer.
\<close>

definition good_best :: "StringCalibrationBank \<Rightarrow> nat \<Rightarrow> u8 \<Rightarrow> nat \<Rightarrow> u8 \<Rightarrow> f64 \<Rightarrow> f64 \<Rightarrow> f64 \<times> u8 \<Rightarrow> bool" where
  "good_best bank s n fret maximum_fret observed current_error best \<longleftrightarrow>
     best = (current_error, n)
     \<or> (\<exists>d p. (d = 1 \<or> d = -1) \<and> uint (snd best) = uint n + d \<and> 0 \<le> int fret + d
          \<and> nat (int fret + d) \<le> unat maximum_fret
          \<and> usable_point bank s (nat (int fret + d)) = Some p
          \<and> fst best = \<bar>observed - fret_center (snd best) p\<bar> \<and> fst best < current_error)"

lemma f64_less_chain: "x < y \<Longrightarrow> y < z \<Longrightarrow> x < (z::f64)"
  by (rule f64_less_trans)

lemma try_adjacent_good:
  assumes "good_best bank s n fret maximum_fret observed current_error best" "d = 1 \<or> d = -1"
  shows "good_best bank s n fret maximum_fret observed current_error
    (try_adjacent bank s n fret maximum_fret observed d best)"
proof (cases "try_adjacent bank s n fret maximum_fret observed d best = best")
  case True
  then show ?thesis using assms(1) by simp
next
  case False
  let ?a = "uint n + d" and ?f = "int fret + d"
  from False obtain p where range: "0 \<le> ?a" "?a \<le> 127" "0 \<le> ?f" "?f \<le> uint maximum_fret"
    and p: "usable_point bank s (nat ?f) = Some p"
    and better: "\<bar>observed - fret_center (word_of_int ?a) p\<bar> + projection_epsilon < fst best"
    and eq: "try_adjacent bank s n fret maximum_fret observed d best
        = (\<bar>observed - fret_center (word_of_int ?a) p\<bar>, word_of_int ?a)"
    by (auto simp: try_adjacent_def Let_def split: if_splits option.splits)
  have "uint (word_of_int ?a :: u8) = ?a" using range(1,2) unfolding uint_word_of_int_eq
    by (intro take_bit_int_eq_self) simp_all
  moreover have "\<bar>observed - fret_center (word_of_int ?a) p\<bar> < current_error"
    using beats [OF better] assms(1) f64_less_chain by (auto simp: good_best_def)
  moreover have "nat ?f \<le> unat maximum_fret" using nat_mono [OF range(4)] by simp
  ultimately show ?thesis
    unfolding good_best_def eq using assms(2) range(3) p by auto
qed

text \<open>
  C27: The projection cannot jump. A pitch is left as it is, or moved to the note one semitone up or down
  whose fret on the same calibrated string exists, lies within the fret limit, carries a calibrated centre
  strictly closer to the detected pitch than the note's own, and brings at least the demanded improvement.
\<close>

theorem projection_one_fret:
  "let r = project_calibrated_note n cents_q8 cents_valid string_index bank maximum_fret least;
       s = unat string_index;
       fret = unat n - unat (kM3OpenNotes ! s);
       observed = f64_of_int 100 * f64_of_int (uint n) + f64_of_int (sint cents_q8) div f64_of_int 256
   in if \<not> pn_changed r then r = unchanged_note n
      else cents_valid \<and> string_calibrated bank s \<and> (pn_fret_delta r = 1 \<or> pn_fret_delta r = -1)
         \<and> uint (pn_note r) = uint n + pn_fret_delta r
         \<and> nat (int fret + pn_fret_delta r) \<le> unat maximum_fret
         \<and> least \<le> pn_error_improvement_cents r + projection_epsilon
         \<and> (\<exists>old new. usable_point bank s fret = Some old
              \<and> usable_point bank s (nat (int fret + pn_fret_delta r)) = Some new
              \<and> \<bar>observed - fret_center (pn_note r) new\<bar> < \<bar>observed - fret_center n old\<bar>)"
proof -
  define r where "r = project_calibrated_note n cents_q8 cents_valid string_index bank maximum_fret least"
  define s where "s = unat string_index"
  define fret where "fret = unat n - unat (kM3OpenNotes ! s)"
  define observed where
    "observed = f64_of_int 100 * f64_of_int (uint n) + f64_of_int (sint cents_q8) div f64_of_int 256"
  have unchanged: "\<not> pn_changed (unchanged_note n)" by (simp add: unchanged_note_def)
  show ?thesis
  proof (cases "r = unchanged_note n")
    case True
    then show ?thesis using unchanged by (simp add: r_def Let_def)
  next
    case False
    from False obtain old where valid: "cents_valid" "string_calibrated bank s"
      and old: "usable_point bank s fret = Some old"
      unfolding r_def project_calibrated_note_def Let_def s_def [symmetric] fret_def [symmetric]
      by (auto split: if_splits option.splits)
    define cur where "cur = \<bar>observed - fret_center n old\<bar>"
    define best where "best = fold (try_adjacent bank s n fret maximum_fret observed) [-1, 1] (cur, n)"
    have "good_best bank s n fret maximum_fret observed cur best"
      unfolding best_def by (simp, intro try_adjacent_good) (simp_all add: good_best_def)
    moreover from False have res: "r = \<lparr>pn_note = snd best, pn_fret_delta = (if n < snd best then 1 else -1),
        pn_error_improvement_cents = cur - fst best, pn_changed = True\<rparr>"
      and moved: "snd best \<noteq> n" "least \<le> cur - fst best + projection_epsilon"
      unfolding r_def project_calibrated_note_def Let_def s_def [symmetric] fret_def [symmetric]
        observed_def [symmetric]
      by (auto simp: old cur_def [symmetric] best_def case_prod_beta split: if_splits)
    ultimately obtain d p where d: "d = 1 \<or> d = -1" "uint (snd best) = uint n + d"
      "nat (int fret + d) \<le> unat maximum_fret" "usable_point bank s (nat (int fret + d)) = Some p"
      "fst best = \<bar>observed - fret_center (snd best) p\<bar>" "fst best < cur"
      by (auto simp: good_best_def)
    have "(if n < snd best then 1 else -1) = d" using d(1,2) by (auto simp: word_less_def)
    with res moved d valid old show ?thesis
      unfolding r_def [symmetric] s_def [symmetric] Let_def fret_def [symmetric] observed_def [symmetric]
      by (simp add: cur_def)
  qed
qed

end
