(* ===== verification/Float64_Sqrt.thy ===== *)
theory Float64_Sqrt
  imports Float64_Laws
begin

text \<open>
  \<open>std::sqrt\<close>, which IEEE-754 requires to be correctly rounded: the integer square root of the
  significand with 128 extra bits, a sticky bit for the remainder, and one rounding. The integer square
  root is computed two bits of its argument at a time.
\<close>

function int_sqrt :: "int \<Rightarrow> int" where
  "int_sqrt n =
     (if n \<le> 0 then 0
      else let r = 2 * int_sqrt (n div 4) in if (r + 1) * (r + 1) \<le> n then r + 1 else r)"
  by pat_completeness auto
termination
  by (relation "measure nat") auto

declare int_sqrt.simps [simp del]

definition f64_sqrt :: "f64 \<Rightarrow> f64" where
  "f64_sqrt x =
     (if is_nan x then f64_nan
      else if f64_mag x = 0 then x
      else if f64_neg x then f64_nan
      else if is_inf x then x
      else let odd_exp = f64_exp x mod 2;
               m = f64_man x * 2 ^ nat (128 + odd_exp);
               r = int_sqrt m
           in f64_round False (2 * r + (if r * r = m then 0 else 1)) ((f64_exp x - odd_exp) div 2 - 65))"

text \<open>The integer square root is the floor of the root.\<close>

lemma int_sqrt_bounds:
  "0 \<le> n \<Longrightarrow> 0 \<le> int_sqrt n \<and> int_sqrt n * int_sqrt n \<le> n \<and> n < (int_sqrt n + 1) * (int_sqrt n + 1)"
proof (induction n rule: int_sqrt.induct)
  case (1 n)
  show ?case
  proof (cases "n \<le> 0")
    case True
    with "1.prems" show ?thesis by (simp add: int_sqrt.simps)
  next
    case False
    define q where "q = int_sqrt (n div 4)"
    define d where "d = n div 4"
    from "1.IH" False have ih: "0 \<le> q" "q * q \<le> d" "d < (q + 1) * (q + 1)"
      by (simp_all add: q_def d_def)
    have dn: "4 * d \<le> n" "n < 4 * d + 4" by (simp_all add: d_def)
    have up: "d + 1 \<le> (q + 1) * (q + 1)" using ih(3) by simp
    have low: "(2 * q) * (2 * q) \<le> n" using ih(2) dn(1) by simp
    have "n < 4 * ((q + 1) * (q + 1))" using up dn(2) by simp
    then have high: "n < (2 * q + 2) * (2 * q + 2)" by (simp add: algebra_simps)
    have step: "int_sqrt n = (if (2 * q + 1) * (2 * q + 1) \<le> n then 2 * q + 1 else 2 * q)"
      using False by (simp add: int_sqrt.simps [of n] q_def Let_def)
    show ?thesis unfolding step using low high ih(1) by (auto simp: algebra_simps)
  qed
qed

text \<open>A root is never negative, except that of minus zero, and never fails on a number that is not negative.\<close>

lemma f64_round_not_nan: "0 \<le> m \<Longrightarrow> \<not> is_nan (f64_round s m e)"
  using round_mag_nonneg [of m e]
  by (auto simp: f64_round_def Let_def is_nan_def f64_infinity_def)

lemma f64_sqrt_not_nan: "0 \<le> x \<Longrightarrow> \<not> is_nan (f64_sqrt x)"
proof -
  assume x: "0 \<le> x"
  let ?m = "f64_man x * 2 ^ nat (128 + f64_exp x mod 2)"
  have "0 \<le> int_sqrt ?m" using int_sqrt_bounds [of ?m] f64_man_bounds(1) [of x] by simp
  then have "0 \<le> 2 * int_sqrt ?m + (if int_sqrt ?m * int_sqrt ?m = ?m then 0 else 1)" by simp
  moreover have "\<not> f64_neg x \<or> f64_mag x = 0"
    using x f64_mag_bounds(1) [of x] by (auto simp: less_eq_f64_def f64_key_def intro: antisym)
  ultimately show ?thesis
    using x by (auto simp: f64_sqrt_def Let_def f64_round_not_nan less_eq_f64_def)
qed

end
