(* ===== verification/String_Calibration.thy ===== *)
theory String_Calibration
  imports Calibration_Bank Float64_Sqrt
begin

unbundle bit_operations_syntax

text \<open>
  The calibrator of a string (\<open>StringSweepCalibrator\<close> in \<open>src/native/src/string_calibration.cpp\<close>): the
  player holds the open string, then the frets 1 to 24 and back to 0; each fret is accepted when a stable
  window of observations fills, and the last one turns the two sweeps into the string's row of the bank.
  A counter that saturates is a 16-bit word. \<open>std::lround\<close> is exact here; where the C++ result of a value
  beyond \<open>long\<close> is unspecified, the code rejects the observation in any case.
\<close>

definition kMaximumCenterErrorCents :: f64 where "kMaximumCenterErrorCents = f64_of_int 35"
definition kMinimumConfidence :: f64 where "kMinimumConfidence = f64_rat 45 100"
definition kMaximumOpenTuneErrorCents :: f64 where "kMaximumOpenTuneErrorCents = f64_of_int 8"
definition kMaximumOpenDeviationCents :: f64 where "kMaximumOpenDeviationCents = f64_of_int 6"
definition kOpenLockSeconds :: f64 where "kOpenLockSeconds = f64_of_int 64 div f64_of_int 750"
definition kMinimumObservationsPerDirection :: u16 where "kMinimumObservationsPerDirection = 3"
definition kStableWindowSeconds :: f64 where "kStableWindowSeconds = f64_rat 80 1000"
definition kMinimumStableWindowObservations :: u16 where "kMinimumStableWindowObservations = 3"
definition kMinimumMeasuredFrets :: u8 where "kMinimumMeasuredFrets = 18"
definition kMaximumDirectionOffsetDifferenceCents :: f64 where
  "kMaximumDirectionOffsetDifferenceCents = f64_of_int 24"
definition kMinimumDirectionProfileSimilarity :: f64 where
  "kMinimumDirectionProfileSimilarity = f64_rat 72 100"
definition kMaximumStableWindowSpanCents :: f64 where "kMaximumStableWindowSpanCents = f64_of_int 8"
definition kMaximumStableCenterErrorCents :: f64 where "kMaximumStableCenterErrorCents = f64_of_int 12"
definition kQ15Scale :: f64 where "kQ15Scale = f64_of_int 32767"
definition kMaximumPartialDetuningCents :: f64 where "kMaximumPartialDetuningCents = f64_of_int 50"
definition kMaximumPartialDetuningStandardDeviationCents :: f64 where
  "kMaximumPartialDetuningStandardDeviationCents = f64_of_int 3"

text \<open>\<open>std::numeric_limits<double>::epsilon()\<close> and \<open>std::numeric_limits<std::uint16_t>::max()\<close>.\<close>

definition f64_epsilon :: f64 where "f64_epsilon = f64_rat 1 (2 ^ 52)"
definition u16_max :: u16 where "u16_max = 65535"

definition finite_nonnegative :: "f64 \<Rightarrow> bool" where
  "finite_nonnegative v \<longleftrightarrow> is_finite v \<and> 0 \<le> v"

definition q15 :: "f64 \<Rightarrow> u16" where
  "q15 v = word_of_int (f64_lround (std_clamp v 0 1 * kQ15Scale))"

subsection \<open>State\<close>

record CalibrationObservation =
  co_midi_pitch :: f64
  co_harmonic_energy :: "f64 list"
  co_partial_detuning_cents :: "f64 list"
  co_partial_detuning_valid_mask :: u8
  co_confidence :: f64

datatype CalibrationSweepPhase =
  phase_idle | phase_waiting_open | phase_ascending | phase_descending | phase_complete | phase_insufficient

record CalibrationSweepStatus =
  ss_phase :: CalibrationSweepPhase
  ss_string_index :: u8
  ss_requested_fret :: u8
  ss_highest_fret :: u8
  ss_measured_frets :: u8
  ss_interpolated_frets :: u8
  ss_accepted_observations :: u32
  ss_rejected_observations :: u32

definition CalibrationSweepStatus_default :: CalibrationSweepStatus where
  "CalibrationSweepStatus_default =
     \<lparr>ss_phase = phase_idle, ss_string_index = 0, ss_requested_fret = 0, ss_highest_fret = 0,
      ss_measured_frets = 0, ss_interpolated_frets = 0, ss_accepted_observations = 0,
      ss_rejected_observations = 0\<rparr>"

record Accumulator =
  ac_cents_sum :: f64
  ac_cents_square_sum :: f64
  ac_confidence_sum :: f64
  ac_harmonic_sum :: "f64 list"
  ac_harmonic_square_sum :: "f64 list"
  ac_partial_detuning_sum :: "f64 list"
  ac_partial_detuning_square_sum :: "f64 list"
  ac_partial_detuning_count :: "u16 list"
  ac_count :: u16

definition Accumulator_default :: Accumulator where
  "Accumulator_default =
     \<lparr>ac_cents_sum = 0, ac_cents_square_sum = 0, ac_confidence_sum = 0,
      ac_harmonic_sum = replicate kCalibrationHarmonicCount 0,
      ac_harmonic_square_sum = replicate kCalibrationHarmonicCount 0,
      ac_partial_detuning_sum = replicate kCalibrationHarmonicCount 0,
      ac_partial_detuning_square_sum = replicate kCalibrationHarmonicCount 0,
      ac_partial_detuning_count = replicate kCalibrationHarmonicCount 0, ac_count = 0\<rparr>"

record StableWindow =
  sw_pending :: Accumulator
  sw_minimum_cents :: f64
  sw_maximum_cents :: f64
  sw_fret :: u8
  sw_phase :: CalibrationSweepPhase
  sw_established :: bool

definition StableWindow_default :: StableWindow where
  "StableWindow_default =
     \<lparr>sw_pending = Accumulator_default, sw_minimum_cents = 0, sw_maximum_cents = 0,
      sw_fret = of_nat kCalibrationFretCount, sw_phase = phase_idle, sw_established = False\<rparr>"

record StringSweepCalibrator =
  sc_bank :: StringCalibrationBank
  sc_ascending :: "Accumulator list"
  sc_descending :: "Accumulator list"
  sc_stable_window :: StableWindow
  sc_status :: CalibrationSweepStatus
  sc_stable_window_observations :: u16
  sc_open_lock_observations :: u16

definition empty_sweep :: "Accumulator list" where
  "empty_sweep = replicate kCalibrationFretCount Accumulator_default"

definition StringSweepCalibrator_default :: StringSweepCalibrator where
  "StringSweepCalibrator_default =
     \<lparr>sc_bank = StringCalibrationBank_default, sc_ascending = empty_sweep, sc_descending = empty_sweep,
      sc_stable_window = StableWindow_default, sc_status = CalibrationSweepStatus_default,
      sc_stable_window_observations = 4, sc_open_lock_observations = 64\<rparr>"

text \<open>Shorthands for the fields of the status.\<close>

abbreviation sc_phase :: "StringSweepCalibrator \<Rightarrow> CalibrationSweepPhase" where
  "sc_phase c \<equiv> ss_phase (sc_status c)"

abbreviation sc_requested :: "StringSweepCalibrator \<Rightarrow> u8" where
  "sc_requested c \<equiv> ss_requested_fret (sc_status c)"

subsection \<open>Starting and stopping\<close>

definition sweep_active :: "StringSweepCalibrator \<Rightarrow> bool" where
  "sweep_active c \<longleftrightarrow> sc_phase c = phase_waiting_open \<or> sc_phase c = phase_ascending \<or> sc_phase c = phase_descending"

definition observations_for :: "f64 \<Rightarrow> f64 \<Rightarrow> f64 \<Rightarrow> u16" where
  "observations_for seconds rate least =
     word_of_int (f64_trunc (std_clamp (std_ceil (seconds * rate)) least (f64_of_int (uint u16_max))))"

definition sweep_begin :: "u8 \<Rightarrow> f64 \<Rightarrow> StringSweepCalibrator \<Rightarrow> bool \<times> StringSweepCalibrator" where
  "sweep_begin string_index rate c =
     (if kMaxVoices \<le> unat string_index \<or> sweep_active c \<or> \<not> is_finite rate \<or> rate \<le> 0 then (False, c)
      else (True, c\<lparr>sc_stable_window_observations :=
                      observations_for kStableWindowSeconds rate
                        (f64_of_int (uint kMinimumStableWindowObservations)),
                    sc_open_lock_observations := observations_for kOpenLockSeconds rate 1,
                    sc_ascending := empty_sweep, sc_descending := empty_sweep,
                    sc_stable_window := StableWindow_default,
                    sc_status := CalibrationSweepStatus_default
                      \<lparr>ss_phase := phase_waiting_open, ss_string_index := string_index\<rparr>\<rparr>))"

definition sweep_cancel :: "StringSweepCalibrator \<Rightarrow> StringSweepCalibrator" where
  "sweep_cancel c =
     (let c = (if sweep_active c then c\<lparr>sc_status := (sc_status c)\<lparr>ss_phase := phase_idle\<rparr>\<rparr> else c)
      in c\<lparr>sc_ascending := empty_sweep, sc_descending := empty_sweep, sc_stable_window := StableWindow_default\<rparr>)"

definition sweep_clear :: "StringSweepCalibrator \<Rightarrow> StringSweepCalibrator" where
  "sweep_clear c =
     (let c = sweep_cancel c
      in c\<lparr>sc_bank := bank_clear (sc_bank c), sc_status := CalibrationSweepStatus_default\<rparr>)"

definition sweep_set_bank :: "StringCalibrationBank \<Rightarrow> StringSweepCalibrator \<Rightarrow> StringSweepCalibrator" where
  "sweep_set_bank bank c = (if \<not> sweep_active c then c\<lparr>sc_bank := bank\<rparr> else c)"

text \<open>
  The end of a sweep (\<open>StringSweepCalibrator::profile_similarity\<close> and \<open>finalize\<close>): a fret is measured
  when both directions have enough observations that agree; the open string, the last fret and 18 frets in
  all must be measured; the others are interpolated between their measured neighbours.
\<close>

abbreviation of_u16 :: "u16 \<Rightarrow> f64" where "of_u16 w \<equiv> f64_of_int (uint w)"
abbreviation of_i16 :: "u16 \<Rightarrow> f64" where "of_i16 w \<equiv> f64_of_int (sint w)"

definition profile_similarity :: "Accumulator \<Rightarrow> Accumulator \<Rightarrow> f64" where
  "profile_similarity left right =
     (if ac_count left = 0 \<or> ac_count right = 0 then 0
      else let (dot, left_norm, right_norm) =
                 fold (\<lambda>h (dot, left_norm, right_norm).
                     let a = ac_harmonic_sum left ! h div of_u16 (ac_count left);
                         b = ac_harmonic_sum right ! h div of_u16 (ac_count right)
                     in (dot + a * b, left_norm + a * a, right_norm + b * b))
                   [0..<kCalibrationHarmonicCount] (0, 0, 0);
               denominator = f64_sqrt (left_norm * right_norm)
           in if 0 < denominator then dot div denominator else 0)"

subsection \<open>A measured fret\<close>

text \<open>The mean detuning of a harmonic over both directions, if it is steady enough.\<close>

definition measured_detuning :: "Accumulator \<Rightarrow> Accumulator \<Rightarrow> nat \<Rightarrow> u16 option" where
  "measured_detuning up down h =
     (if kMinimumObservationsPerDirection \<le> ac_partial_detuning_count up ! h
         \<and> kMinimumObservationsPerDirection \<le> ac_partial_detuning_count down ! h
      then let detuning_count = f64_of_int
                 (uint (ac_partial_detuning_count up ! h) + uint (ac_partial_detuning_count down ! h));
               detuning = (ac_partial_detuning_sum up ! h + ac_partial_detuning_sum down ! h) div detuning_count;
               detuning_square_mean =
                 (ac_partial_detuning_square_sum up ! h + ac_partial_detuning_square_sum down ! h)
                   div detuning_count;
               detuning_variance = std_max 0 (detuning_square_mean - detuning * detuning)
           in if kMaximumPartialDetuningStandardDeviationCents < f64_sqrt detuning_variance then None
              else Some (word_of_int (f64_lround
                (std_clamp detuning (- kMaximumPartialDetuningCents) kMaximumPartialDetuningCents * f64_of_int 256)))
      else None)"

text \<open>The loop over the harmonics of \<open>profile_variance\<close>.\<close>

definition profile_variance :: "Accumulator \<Rightarrow> Accumulator \<Rightarrow> f64 \<Rightarrow> f64" where
  "profile_variance up down denominator =
     fold (\<lambda>h variance.
         let harmonic = ac_harmonic_sum up ! h + ac_harmonic_sum down ! h;
             square_sum = ac_harmonic_square_sum up ! h + ac_harmonic_square_sum down ! h;
             mean = harmonic div denominator
         in variance + std_max 0 (square_sum div denominator - mean * mean))
       [0..<kCalibrationHarmonicCount] 0"

definition mask_of :: "nat list \<Rightarrow> u8" where
  "mask_of hs = fold (\<lambda>h m. m OR string_bit h) hs 0"

text \<open>The point of a fret from its two accumulators, or none when the fret stays missing.\<close>

definition measured_point :: "Accumulator \<Rightarrow> Accumulator \<Rightarrow> StringCalibrationPoint option" where
  "measured_point up down =
     (if ac_count up < kMinimumObservationsPerDirection \<or> ac_count down < kMinimumObservationsPerDirection
      then None
      else let up_cents = ac_cents_sum up div of_u16 (ac_count up);
               down_cents = ac_cents_sum down div of_u16 (ac_count down)
      in if kMaximumDirectionOffsetDifferenceCents < \<bar>up_cents - down_cents\<bar>
            \<or> profile_similarity up down < kMinimumDirectionProfileSimilarity then None
      else let total_count = uint (ac_count up) + uint (ac_count down);
               observations = f64_of_int total_count;
               harmonics = [0..<kCalibrationHarmonicCount];
               detunings = map (measured_detuning up down) harmonics;
               temporal_stability = 1 div (1 + f64_of_int 8 * profile_variance up down observations)
      in Some \<lparr>cp_cents_offset_q8 = word_of_int (f64_lround
                 (std_clamp ((up_cents + down_cents) * f64_rat 1 2) (f64_of_int (-50)) (f64_of_int 50)
                    * f64_of_int 256)),
               cp_harmonic_profile_q15 =
                 map (\<lambda>h. q15 ((ac_harmonic_sum up ! h + ac_harmonic_sum down ! h) div observations)) harmonics,
               cp_partial_detuning_q8 = map (\<lambda>d. case d of None \<Rightarrow> 0 | Some w \<Rightarrow> w) detunings,
               cp_partial_detuning_valid_mask = mask_of (filter (\<lambda>h. detunings ! h \<noteq> None) harmonics),
               cp_confidence_q15 =
                 q15 ((ac_confidence_sum up + ac_confidence_sum down) div observations * temporal_stability),
               cp_observation_count = word_of_int (min total_count (uint u16_max)),
               cp_quality = quality_measured\<rparr>)"

definition measured_row :: "Accumulator list \<Rightarrow> Accumulator list \<Rightarrow> StringCalibrationPoint list" where
  "measured_row up down =
     map (\<lambda>fret. case measured_point (up ! fret) (down ! fret) of
                   None \<Rightarrow> StringCalibrationPoint_default | Some p \<Rightarrow> p)
       [0..<kCalibrationFretCount]"

definition is_measured :: "StringCalibrationPoint \<Rightarrow> bool" where
  "is_measured p \<longleftrightarrow> cp_quality p = quality_measured"

subsection \<open>An interpolated fret\<close>

text \<open>The two search loops.\<close>

fun measured_left :: "StringCalibrationPoint list \<Rightarrow> nat \<Rightarrow> nat" where
  "measured_left row 0 = 0"
| "measured_left row (Suc i) = (if is_measured (row ! Suc i) then Suc i else measured_left row i)"

function measured_right :: "StringCalibrationPoint list \<Rightarrow> nat \<Rightarrow> nat" where
  "measured_right row i =
     (if i + 1 < kCalibrationFretCount \<and> \<not> is_measured (row ! i) then measured_right row (i + 1) else i)"
  by pat_completeness auto
termination
  by (relation "measure (\<lambda>(row, i). kCalibrationFretCount - i)") auto

declare measured_right.simps [simp del]

definition mix :: "f64 \<Rightarrow> f64 \<Rightarrow> f64 \<Rightarrow> int" where
  "mix amount l r = f64_lround (l * (1 - amount) + r * amount)"

definition interpolated_point ::
  "f64 \<Rightarrow> StringCalibrationPoint \<Rightarrow> StringCalibrationPoint \<Rightarrow> StringCalibrationPoint \<Rightarrow> StringCalibrationPoint" where
  "interpolated_point amount l r p =
     (let harmonics = [0..<kCalibrationHarmonicCount];
          both = (\<lambda>h. cp_partial_detuning_valid_mask l AND string_bit h \<noteq> 0
                      \<and> cp_partial_detuning_valid_mask r AND string_bit h \<noteq> 0)
      in p\<lparr>cp_cents_offset_q8 :=
             word_of_int (mix amount (of_i16 (cp_cents_offset_q8 l)) (of_i16 (cp_cents_offset_q8 r))),
           cp_harmonic_profile_q15 :=
             map (\<lambda>h. word_of_int (mix amount (of_u16 (cp_harmonic_profile_q15 l ! h))
                                              (of_u16 (cp_harmonic_profile_q15 r ! h)))) harmonics,
           cp_partial_detuning_q8 :=
             map (\<lambda>h. if both h then word_of_int (mix amount (of_i16 (cp_partial_detuning_q8 l ! h))
                                                              (of_i16 (cp_partial_detuning_q8 r ! h)))
                      else cp_partial_detuning_q8 p ! h) harmonics,
           cp_partial_detuning_valid_mask := cp_partial_detuning_valid_mask p OR mask_of (filter both harmonics),
           cp_confidence_q15 := min (cp_confidence_q15 l) (cp_confidence_q15 r),
           cp_quality := quality_interpolated\<rparr>)"

text \<open>One turn of the loop over the frets; the state is the row and the count of interpolated frets.\<close>

definition interpolate_fret :: "nat \<Rightarrow> StringCalibrationPoint list \<times> u8 \<Rightarrow> StringCalibrationPoint list \<times> u8" where
  "interpolate_fret fret rc =
     (let row = fst rc in
      if is_measured (row ! fret) then rc
      else let left = measured_left row fret; right = measured_right row fret in
      if \<not> is_measured (row ! left) \<or> \<not> is_measured (row ! right) \<or> right \<le> left then rc
      else let amount = f64_of_int (int fret - int left) div f64_of_int (int right - int left)
           in (row[fret := interpolated_point amount (row ! left) (row ! right) (row ! fret)], snd rc + 1))"

definition interpolate_row :: "StringCalibrationPoint list \<Rightarrow> StringCalibrationPoint list \<times> u8" where
  "interpolate_row row = fold interpolate_fret [1..<kCalibrationFretCount - 1] (row, 0)"

subsection \<open>Finalize\<close>

definition measured_frets :: "StringCalibrationPoint list \<Rightarrow> u8" where
  "measured_frets result = of_nat (length (filter is_measured result))"

text \<open>The test of the end points and of the number of measured frets.\<close>

definition row_usable :: "StringCalibrationPoint list \<Rightarrow> bool" where
  "row_usable result \<longleftrightarrow>
     is_measured (hd result) \<and> is_measured (last result) \<and> kMinimumMeasuredFrets \<le> measured_frets result"

definition finalize :: "StringSweepCalibrator \<Rightarrow> StringSweepCalibrator" where
  "finalize c =
     (let result = measured_row (sc_ascending c) (sc_descending c);
          status = (sc_status c)\<lparr>ss_measured_frets := measured_frets result\<rparr>
      in if \<not> row_usable result then c\<lparr>sc_status := status\<lparr>ss_phase := phase_insufficient\<rparr>\<rparr>
         else let row_count = interpolate_row result
              in c\<lparr>sc_bank := set_string (unat (ss_string_index status)) (fst row_count) (sc_bank c),
                   sc_status := status\<lparr>ss_interpolated_frets := snd row_count, ss_phase := phase_complete\<rparr>\<rparr>)"

end
