(* ===== verification/String_Observe.thy ===== *)
theory String_Observe
  imports String_Calibration
begin

unbundle bit_operations_syntax

text \<open>
  One observation of the calibrator (\<open>StringSweepCalibrator::observe\<close> and \<open>normalized_profile\<close>): it is
  rejected, contributes to the lock of the open string, or contributes to the stable window of the
  requested fret; a full window advances the sequence of frets.
\<close>

subsection \<open>Checks of an observation\<close>

fun energy_total :: "f64 list \<Rightarrow> f64 \<Rightarrow> f64 option" where
  "energy_total [] t = Some t"
| "energy_total (e # es) t = (if finite_nonnegative e then energy_total es (t + e) else None)"

definition normalized_profile :: "CalibrationObservation \<Rightarrow> f64 list option" where
  "normalized_profile obs =
     (case energy_total (co_harmonic_energy obs) 0 of
        None \<Rightarrow> None
      | Some t \<Rightarrow> if \<not> is_finite t \<or> t \<le> f64_epsilon then None
                  else Some (map (\<lambda>e. e div t) (co_harmonic_energy obs)))"

definition sweep_reject :: "StringSweepCalibrator \<Rightarrow> bool \<times> StringSweepCalibrator" where
  "sweep_reject c =
     (False, if sweep_active c
             then c\<lparr>sc_status := (sc_status c)
                      \<lparr>ss_rejected_observations := ss_rejected_observations (sc_status c) + 1\<rparr>\<rparr>
             else c)"

definition detuning_mask :: "CalibrationObservation \<Rightarrow> u8" where
  "detuning_mask obs =
     fold (\<lambda>h m. if m AND string_bit h \<noteq> 0
                    \<and> (\<not> is_finite (co_partial_detuning_cents obs ! h)
                       \<or> kMaximumPartialDetuningCents < \<bar>co_partial_detuning_cents obs ! h\<bar>)
                 then m AND NOT (string_bit h) else m)
       [0..<length (co_partial_detuning_cents obs)] (co_partial_detuning_valid_mask obs AND 0x3F)"

subsection \<open>Accumulators\<close>

text \<open>A sample: the observation, its normalised profile, the mask of its usable detunings.\<close>

type_synonym sample = "CalibrationObservation \<times> f64 list \<times> u8"

definition saturating_next :: "u16 \<Rightarrow> u16" where
  "saturating_next n = (if n < u16_max then n + 1 else n)"

definition accumulate :: "sample \<Rightarrow> f64 \<Rightarrow> Accumulator \<Rightarrow> Accumulator" where
  "accumulate s cents a =
     (let (obs, profile, valid) = s;
          harmonics = [0..<kCalibrationHarmonicCount];
          detuning = (\<lambda>h. co_partial_detuning_cents obs ! h);
          usable = (\<lambda>h. valid AND string_bit h \<noteq> 0)
      in a\<lparr>ac_cents_sum := ac_cents_sum a + cents,
           ac_cents_square_sum := ac_cents_square_sum a + cents * cents,
           ac_confidence_sum := ac_confidence_sum a + co_confidence obs,
           ac_harmonic_sum := map (\<lambda>h. ac_harmonic_sum a ! h + profile ! h) harmonics,
           ac_harmonic_square_sum :=
             map (\<lambda>h. ac_harmonic_square_sum a ! h + profile ! h * profile ! h) harmonics,
           ac_partial_detuning_sum :=
             map (\<lambda>h. if usable h then ac_partial_detuning_sum a ! h + detuning h
                      else ac_partial_detuning_sum a ! h) harmonics,
           ac_partial_detuning_square_sum :=
             map (\<lambda>h. if usable h then ac_partial_detuning_square_sum a ! h + detuning h * detuning h
                      else ac_partial_detuning_square_sum a ! h) harmonics,
           ac_partial_detuning_count :=
             map (\<lambda>h. if usable h then saturating_next (ac_partial_detuning_count a ! h)
                      else ac_partial_detuning_count a ! h) harmonics\<rparr>)"

text \<open>The open string's statistics, and the lambda \<open>add_sample\<close> of the other frets.\<close>

definition add_open_sample :: "sample \<Rightarrow> f64 \<Rightarrow> Accumulator \<Rightarrow> Accumulator" where
  "add_open_sample s cents a = (accumulate s cents a)\<lparr>ac_count := saturating_next (ac_count a)\<rparr>"

definition add_sample :: "sample \<Rightarrow> f64 \<Rightarrow> Accumulator \<Rightarrow> Accumulator" where
  "add_sample s cents a =
     (if ac_count a = u16_max then a else (accumulate s cents a)\<lparr>ac_count := ac_count a + 1\<rparr>)"

definition saturating_sum :: "u16 \<Rightarrow> u16 \<Rightarrow> u16" where
  "saturating_sum a b = word_of_int (min (uint a + uint b) (uint u16_max))"

definition merge_pending :: "Accumulator \<Rightarrow> Accumulator \<Rightarrow> Accumulator" where
  "merge_pending a pending =
     (let harmonics = [0..<kCalibrationHarmonicCount]
      in a\<lparr>ac_cents_sum := ac_cents_sum a + ac_cents_sum pending,
           ac_cents_square_sum := ac_cents_square_sum a + ac_cents_square_sum pending,
           ac_confidence_sum := ac_confidence_sum a + ac_confidence_sum pending,
           ac_harmonic_sum := map (\<lambda>h. ac_harmonic_sum a ! h + ac_harmonic_sum pending ! h) harmonics,
           ac_harmonic_square_sum :=
             map (\<lambda>h. ac_harmonic_square_sum a ! h + ac_harmonic_square_sum pending ! h) harmonics,
           ac_partial_detuning_sum :=
             map (\<lambda>h. ac_partial_detuning_sum a ! h + ac_partial_detuning_sum pending ! h) harmonics,
           ac_partial_detuning_square_sum :=
             map (\<lambda>h. ac_partial_detuning_square_sum a ! h + ac_partial_detuning_square_sum pending ! h) harmonics,
           ac_partial_detuning_count :=
             map (\<lambda>h. saturating_sum (ac_partial_detuning_count a ! h) (ac_partial_detuning_count pending ! h))
               harmonics,
           ac_count := saturating_sum (ac_count a) (ac_count pending)\<rparr>)"

subsection \<open>The open string\<close>

text \<open>The lock test: the deviation of a full set of observations.\<close>

definition open_locked :: "Accumulator \<Rightarrow> bool" where
  "open_locked open_string =
     (let n = of_u16 (ac_count open_string);
          mean = ac_cents_sum open_string div n;
          variance = std_max 0 (ac_cents_square_sum open_string div n - mean * mean)
      in f64_sqrt variance \<le> kMaximumOpenDeviationCents)"

definition observe_open ::
  "sample \<Rightarrow> u8 \<Rightarrow> f64 \<Rightarrow> StringSweepCalibrator \<Rightarrow> bool \<times> StringSweepCalibrator" where
  "observe_open s fret cents c =
     (if fret \<noteq> 0 \<or> kMaximumOpenTuneErrorCents < \<bar>cents\<bar> then sweep_reject c
      else let open_string = add_open_sample s cents (sc_ascending c ! 0);
               status = (sc_status c)\<lparr>ss_accepted_observations := ss_accepted_observations (sc_status c) + 1\<rparr>;
               c = c\<lparr>sc_ascending := (sc_ascending c)[0 := open_string], sc_status := status\<rparr>
           in if sc_open_lock_observations c \<le> ac_count open_string
              then if open_locked open_string
                   then (True, c\<lparr>sc_status := status\<lparr>ss_phase := phase_ascending, ss_requested_fret := 1\<rparr>,
                                 sc_stable_window := StableWindow_default\<rparr>)
                   else (True, c\<lparr>sc_ascending := (sc_ascending c)[0 := Accumulator_default]\<rparr>)
              else (True, c))"

subsection \<open>The stable window and the order of the frets\<close>

definition reset_window :: "sample \<Rightarrow> u8 \<Rightarrow> CalibrationSweepPhase \<Rightarrow> f64 \<Rightarrow> StableWindow" where
  "reset_window s fret phase cents =
     StableWindow_default\<lparr>sw_fret := fret, sw_phase := phase, sw_minimum_cents := cents,
       sw_maximum_cents := cents, sw_pending := add_sample s cents Accumulator_default\<rparr>"

text \<open>The window is full: its samples join the fret's accumulator.\<close>

definition establish :: "u8 \<Rightarrow> StringSweepCalibrator \<Rightarrow> StringSweepCalibrator" where
  "establish fret c =
     (let w = sc_stable_window c; i = unat fret
      in if sw_established w then c
         else let status = (sc_status c)\<lparr>ss_accepted_observations :=
                    ss_accepted_observations (sc_status c) + ucast (ac_count (sw_pending w))\<rparr>;
                  c = c\<lparr>sc_status := status, sc_stable_window := w\<lparr>sw_established := True\<rparr>\<rparr>
              in if sc_phase c = phase_descending
                 then c\<lparr>sc_descending := (sc_descending c)[i := merge_pending (sc_descending c ! i) (sw_pending w)]\<rparr>
                 else c\<lparr>sc_ascending := (sc_ascending c)[i := merge_pending (sc_ascending c ! i) (sw_pending w)]\<rparr>)"

definition advance_fret :: "u8 \<Rightarrow> StringSweepCalibrator \<Rightarrow> StringSweepCalibrator" where
  "advance_fret fret c =
     (let status = sc_status c; i = unat fret
      in if ss_phase status = phase_ascending
         then let status = status\<lparr>ss_highest_fret := std_max (ss_highest_fret status) fret\<rparr>
              in if i + 1 < kCalibrationFretCount
                 then c\<lparr>sc_status := status\<lparr>ss_requested_fret := fret + 1\<rparr>\<rparr>
                 else c\<lparr>sc_descending := (sc_descending c)[i := sc_ascending c ! i],
                        sc_status := status\<lparr>ss_phase := phase_descending, ss_requested_fret := fret - 1\<rparr>\<rparr>
         else if fret = 0 then finalize c
         else c\<lparr>sc_status := status\<lparr>ss_requested_fret := fret - 1\<rparr>\<rparr>)"

definition observe_fret ::
  "sample \<Rightarrow> u8 \<Rightarrow> f64 \<Rightarrow> StringSweepCalibrator \<Rightarrow> bool \<times> StringSweepCalibrator" where
  "observe_fret s fret cents c =
     (if fret \<noteq> sc_requested c then sweep_reject (c\<lparr>sc_stable_window := StableWindow_default\<rparr>)
      else if sc_phase c = phase_descending \<and> sc_requested c = 0 \<and> kMaximumOpenTuneErrorCents < \<bar>cents\<bar>
      then sweep_reject c
      else let w = sc_stable_window c;
               same_window = (sw_fret w = fret \<and> sw_phase w = sc_phase c);
               prospective_minimum = (if same_window then std_min (sw_minimum_cents w) cents else cents);
               prospective_maximum = (if same_window then std_max (sw_maximum_cents w) cents else cents);
               stable_span = prospective_maximum - prospective_minimum \<le> kMaximumStableWindowSpanCents
      in if \<not> same_window \<or> \<not> stable_span \<or> kMaximumStableCenterErrorCents < \<bar>cents\<bar>
         then (True, c\<lparr>sc_stable_window := reset_window s fret (sc_phase c) cents\<rparr>)
      else let w = w\<lparr>sw_minimum_cents := prospective_minimum, sw_maximum_cents := prospective_maximum\<rparr>;
               w = (if sw_established w then w else w\<lparr>sw_pending := add_sample s cents (sw_pending w)\<rparr>);
               c = c\<lparr>sc_stable_window := w\<rparr>
      in if \<not> sw_established w \<and> ac_count (sw_pending w) < sc_stable_window_observations c then (True, c)
      else (True, (advance_fret fret (establish fret c))\<lparr>sc_stable_window := StableWindow_default\<rparr>))"

subsection \<open>An observation\<close>

definition observe :: "CalibrationObservation \<Rightarrow> StringSweepCalibrator \<Rightarrow> bool \<times> StringSweepCalibrator" where
  "observe obs c =
     (if \<not> sweep_active c \<or> \<not> is_finite (co_midi_pitch obs) \<or> \<not> is_finite (co_confidence obs)
         \<or> co_confidence obs < kMinimumConfidence \<or> 1 < co_confidence obs then sweep_reject c
      else case normalized_profile obs of
        None \<Rightarrow> sweep_reject c
      | Some profile \<Rightarrow>
          let relative = co_midi_pitch obs
                - f64_of_int (uint (kM3OpenNotes ! unat (ss_string_index (sc_status c))));
              rounded = f64_lround relative;
              cents = (relative - f64_of_int rounded) * f64_of_int 100
          in if rounded < 0 \<or> int kCalibrationFretCount \<le> rounded \<or> kMaximumCenterErrorCents < \<bar>cents\<bar>
             then sweep_reject c
             else let s = (obs, profile, detuning_mask obs); fret = word_of_int rounded :: u8
                  in if sc_phase c = phase_waiting_open then observe_open s fret cents c
                     else observe_fret s fret cents c)"

end
