(* ===== verification/String_Sweep_Laws.thy ===== *)
theory String_Sweep_Laws
  imports String_Observe
begin

unbundle bit_operations_syntax

text \<open>
  The order of a sweep, as a step relation on the phase and the requested fret: the calibrator follows it,
  one accepted observation at most one step, and touches the bank only in the last step.
\<close>

subsection \<open>The allowed steps\<close>

type_synonym sweep_position = "CalibrationSweepPhase \<times> nat"

inductive sweep_step :: "sweep_position \<Rightarrow> sweep_position \<Rightarrow> bool" where
  open_string: "sweep_step (phase_waiting_open, 0) (phase_ascending, 1)"
| up: "f < 24 \<Longrightarrow> sweep_step (phase_ascending, f) (phase_ascending, Suc f)"
| turn: "sweep_step (phase_ascending, 24) (phase_descending, 23)"
| down: "sweep_step (phase_descending, Suc f) (phase_descending, f)"
| finish: "q = phase_complete \<or> q = phase_insufficient \<Longrightarrow> sweep_step (phase_descending, 0) (q, 0)"

inductive_cases sweep_step_waiting: "sweep_step (phase_waiting_open, n) p"
inductive_cases sweep_step_ascending: "sweep_step (phase_ascending, n) p"
inductive_cases sweep_step_descending: "sweep_step (phase_descending, n) p"
inductive_cases sweep_step_finish: "sweep_step p (phase_complete, n)"

text \<open>How far a sweep has come; it is complete after 49 steps.\<close>

fun sweep_progress :: "sweep_position \<Rightarrow> nat" where
  "sweep_progress (phase_idle, n) = 0"
| "sweep_progress (phase_waiting_open, n) = 0"
| "sweep_progress (phase_ascending, n) = n"
| "sweep_progress (phase_descending, n) = 48 - n"
| "sweep_progress (phase_complete, n) = 49"
| "sweep_progress (phase_insufficient, n) = 49"

definition position_of :: "StringSweepCalibrator \<Rightarrow> sweep_position" where
  "position_of c = (sc_phase c, unat (sc_requested c))"

fun position_ok :: "sweep_position \<Rightarrow> bool" where
  "position_ok (phase_waiting_open, n) = (n = 0)"
| "position_ok (phase_ascending, n) = (1 \<le> n \<and> n \<le> 24)"
| "position_ok (phase_descending, n) = (n \<le> 23)"
| "position_ok (q, n) = True"

lemma sweep_step_ok: "sweep_step p q \<Longrightarrow> position_ok p \<Longrightarrow> position_ok q"
  by (induction rule: sweep_step.induct) auto

lemma sweep_step_progress: "sweep_step p q \<Longrightarrow> position_ok p \<Longrightarrow> sweep_progress q = Suc (sweep_progress p)"
  by (induction rule: sweep_step.induct) auto

subsection \<open>What an observation does to the position and to the bank\<close>

text \<open>What every branch of \<open>observe\<close> keeps: the string, the window sizes.\<close>

definition same_sweep :: "StringSweepCalibrator \<Rightarrow> StringSweepCalibrator \<Rightarrow> bool" where
  "same_sweep c c' \<longleftrightarrow>
     ss_string_index (sc_status c') = ss_string_index (sc_status c)
     \<and> sc_open_lock_observations c' = sc_open_lock_observations c
     \<and> sc_stable_window_observations c' = sc_stable_window_observations c"

text \<open>Either nothing advances and the bank stays, or the sweep takes one step.\<close>

definition advances :: "StringSweepCalibrator \<Rightarrow> StringSweepCalibrator \<Rightarrow> bool" where
  "advances c c' \<longleftrightarrow>
     sweep_step (position_of c) (position_of c')
     \<and> (if sc_phase c' = phase_complete
        then \<exists>row. sc_bank c' = set_string (unat (ss_string_index (sc_status c))) row (sc_bank c)
        else sc_bank c' = sc_bank c)"

definition stays :: "StringSweepCalibrator \<Rightarrow> StringSweepCalibrator \<Rightarrow> bool" where
  "stays c c' \<longleftrightarrow> position_of c' = position_of c \<and> sc_bank c' = sc_bank c"

definition moves :: "StringSweepCalibrator \<Rightarrow> bool \<times> StringSweepCalibrator \<Rightarrow> bool" where
  "moves c r \<longleftrightarrow> same_sweep c (snd r) \<and> (stays c (snd r) \<or> fst r \<and> advances c (snd r))"

lemmas move_defs = moves_def same_sweep_def stays_def position_of_def

lemma moves_if: "(b \<Longrightarrow> moves c x) \<Longrightarrow> (\<not> b \<Longrightarrow> moves c y) \<Longrightarrow> moves c (if b then x else y)"
  by simp

lemma reject_moves: "moves c (sweep_reject c)"
  by (simp add: move_defs sweep_reject_def)

lemma reject_window_moves: "moves c (sweep_reject (c\<lparr>sc_stable_window := w\<rparr>))"
  by (simp add: move_defs sweep_reject_def sweep_active_def)

lemma finalize_advances:
  assumes "sc_phase c = phase_descending" "sc_requested c = 0"
  shows "same_sweep c (finalize c) \<and> advances c (finalize c)"
proof (cases "row_usable (measured_row (sc_ascending c) (sc_descending c))")
  case True
  then have "sc_phase (finalize c) = phase_complete" "sc_requested (finalize c) = sc_requested c"
    "same_sweep c (finalize c)"
    "sc_bank (finalize c) = set_string (unat (ss_string_index (sc_status c)))
       (fst (interpolate_row (measured_row (sc_ascending c) (sc_descending c)))) (sc_bank c)"
    by (simp_all add: finalize_def Let_def same_sweep_def)
  then show ?thesis
    using assms sweep_step.finish [of phase_complete] by (auto simp: advances_def position_of_def)
next
  case False
  then have "sc_phase (finalize c) = phase_insufficient" "sc_requested (finalize c) = sc_requested c"
    "same_sweep c (finalize c)" "sc_bank (finalize c) = sc_bank c"
    by (simp_all add: finalize_def Let_def same_sweep_def)
  then show ?thesis
    using assms sweep_step.finish [of phase_insufficient] by (simp add: advances_def position_of_def)
qed

lemma unat_next_fret: "unat f < 24 \<Longrightarrow> unat (f + 1) = Suc (unat f)" for f :: u8
  using unat_next [of f] by simp

lemma unat_previous_fret: "f \<noteq> 0 \<Longrightarrow> Suc (unat (f - 1)) = unat f" for f :: u8
  using unat_minus_one [of f] unat_gt_0 [of f] by simp

lemma establish_keeps:
  "sc_phase (establish f c) = sc_phase c" "sc_requested (establish f c) = sc_requested c"
  "sc_bank (establish f c) = sc_bank c" "same_sweep c (establish f c)"
  by (simp_all add: establish_def Let_def same_sweep_def)

lemma advance_fret_advances:
  assumes "sc_phase c = phase_ascending \<or> sc_phase c = phase_descending" "sc_requested c = f"
    "position_ok (position_of c)"
  shows "same_sweep c (advance_fret f c) \<and> advances c (advance_fret f c)"
proof (cases "sc_phase c = phase_ascending")
  case True
  then have f: "1 \<le> unat f" "unat f \<le> 24" using assms(2,3) by (simp_all add: position_of_def)
  then have "f \<noteq> 0" by auto
  show ?thesis
  proof (cases "unat f < 24")
    case lt: True
    then show ?thesis
      using True assms(2) sweep_step.up [OF lt]
      by (simp add: advance_fret_def Let_def kCalibrationFretCount_def same_sweep_def advances_def position_of_def
          unat_next_fret)
  next
    case False
    with f have "unat f = 24" "unat (f - 1) = 23" using unat_previous_fret [OF \<open>f \<noteq> 0\<close>] by simp_all
    then show ?thesis
      using True assms(2) sweep_step.turn
      by (simp add: advance_fret_def Let_def kCalibrationFretCount_def same_sweep_def advances_def position_of_def)
  qed
next
  case False
  with assms(1) have d: "sc_phase c = phase_descending" by simp
  show ?thesis
  proof (cases "f = 0")
    case True
    then show ?thesis using finalize_advances [OF d] assms(2) d by (simp add: advance_fret_def)
  next
    case False
    then show ?thesis
      using d assms(2) sweep_step.down [of "unat (f - 1)"] unat_previous_fret [OF False]
      by (simp add: advance_fret_def Let_def same_sweep_def advances_def position_of_def)
  qed
qed

lemma observe_open_moves:
  assumes "sc_phase c = phase_waiting_open" "position_ok (position_of c)"
  shows "moves c (observe_open s f cents c)"
proof -
  have r: "unat (sc_requested c) = 0" using assms by (simp add: position_of_def)
  show ?thesis
    unfolding observe_open_def Let_def
    by (intro moves_if reject_moves)
      (use assms(1) r sweep_step.open_string in
        \<open>simp_all add: moves_def same_sweep_def stays_def advances_def position_of_def\<close>)
qed

lemma same_sweep_trans: "same_sweep a b \<Longrightarrow> same_sweep b c \<Longrightarrow> same_sweep a c"
  by (simp add: same_sweep_def)

lemma advances_window:
  "advances c (c'\<lparr>sc_stable_window := w\<rparr>) = advances c c'" "advances (c\<lparr>sc_stable_window := w\<rparr>) c' = advances c c'"
  "same_sweep c (c'\<lparr>sc_stable_window := w\<rparr>) = same_sweep c c'"
  "same_sweep (c\<lparr>sc_stable_window := w\<rparr>) c' = same_sweep c c'"
  by (simp_all add: advances_def position_of_def same_sweep_def)

lemma advances_establish: "advances (establish f c) c' = advances c c'"
  using establish_keeps(4) [of c f]
  by (simp add: advances_def position_of_def establish_keeps same_sweep_def)

lemma observe_fret_moves:
  assumes "sc_phase c = phase_ascending \<or> sc_phase c = phase_descending" "position_ok (position_of c)"
  shows "moves c (observe_fret s f cents c)"
proof -
  have window: "moves c (True, c\<lparr>sc_stable_window := w\<rparr>)" for w by (simp add: move_defs)
  have full: "moves c (True, (advance_fret f (establish f (c\<lparr>sc_stable_window := w\<rparr>)))\<lparr>sc_stable_window := w'\<rparr>)"
    if "sc_requested c = f" for w w'
  proof -
    let ?c = "establish f (c\<lparr>sc_stable_window := w\<rparr>)"
    have "same_sweep ?c (advance_fret f ?c) \<and> advances ?c (advance_fret f ?c)"
      by (rule advance_fret_advances) (use assms that in \<open>simp_all add: establish_keeps position_of_def\<close>)
    moreover have "same_sweep c ?c" using establish_keeps(4) [of "c\<lparr>sc_stable_window := w\<rparr>" f] by (simp add: advances_window)
    ultimately show ?thesis
      by (auto simp: moves_def advances_window advances_establish intro: same_sweep_trans)
  qed
  show ?thesis
    unfolding observe_fret_def Let_def
    by (intro moves_if reject_moves reject_window_moves window full) simp_all
qed

lemma observe_moves:
  assumes "position_ok (position_of c)"
  shows "moves c (observe obs c)"
  using assms observe_open_moves observe_fret_moves reject_moves
  by (auto simp: observe_def Let_def sweep_active_def split: option.split)

subsection \<open>A whole sweep\<close>

text \<open>A sequence of observations: the number of accepted ones, and the state after them.\<close>

fun observe_all :: "CalibrationObservation list \<Rightarrow> StringSweepCalibrator \<Rightarrow> nat \<times> StringSweepCalibrator" where
  "observe_all [] c = (0, c)"
| "observe_all (obs # os) c =
     (let (ok, c') = observe obs c; (n, c'') = observe_all os c' in ((if ok then 1 else 0) + n, c''))"

definition sweep_state :: "u8 \<Rightarrow> StringCalibrationBank \<Rightarrow> StringSweepCalibrator \<Rightarrow> bool" where
  "sweep_state s bank c \<longleftrightarrow>
     position_ok (position_of c) \<and> ss_string_index (sc_status c) = s
     \<and> (if sc_phase c = phase_complete then \<exists>row. sc_bank c = set_string (unat s) row bank else sc_bank c = bank)"

lemma no_step_from_complete: "\<not> sweep_step (phase_complete, n) p"
  by (auto elim: sweep_step.cases)

lemma observe_sweep_state:
  assumes "sweep_state s bank c"
  shows "sweep_state s bank (snd (observe obs c))"
    and "sweep_progress (position_of (snd (observe obs c)))
      \<le> (if fst (observe obs c) then 1 else 0) + sweep_progress (position_of c)"
proof -
  have ok: "position_ok (position_of c)" using assms by (simp add: sweep_state_def)
  note m = observe_moves [OF ok, of obs]
  have "sweep_state s bank (snd (observe obs c))
    \<and> sweep_progress (position_of (snd (observe obs c))) \<le> (if fst (observe obs c) then 1 else 0) + sweep_progress (position_of c)"
  proof (cases "stays c (snd (observe obs c))")
    case True
    with m assms show ?thesis
      by (auto simp: sweep_state_def moves_def same_sweep_def stays_def position_of_def)
  next
    case False
    with m have a: "fst (observe obs c)" "advances c (snd (observe obs c))" "same_sweep c (snd (observe obs c))"
      by (simp_all add: moves_def)
    then have step: "sweep_step (position_of c) (position_of (snd (observe obs c)))" by (simp add: advances_def)
    then have "sc_phase c \<noteq> phase_complete" using no_step_from_complete by (auto simp: position_of_def)
    with a assms sweep_step_ok [OF step ok] sweep_step_progress [OF step ok] show ?thesis
      by (auto simp: sweep_state_def advances_def same_sweep_def)
  qed
  then show "sweep_state s bank (snd (observe obs c))"
    "sweep_progress (position_of (snd (observe obs c)))
      \<le> (if fst (observe obs c) then 1 else 0) + sweep_progress (position_of c)" by blast+
qed

lemma observe_all_state:
  "sweep_state s bank c \<Longrightarrow> sweep_state s bank (snd (observe_all os c))
     \<and> sweep_progress (position_of (snd (observe_all os c))) \<le> fst (observe_all os c) + sweep_progress (position_of c)"
proof (induction os arbitrary: c)
  case (Cons obs os)
  from observe_sweep_state [OF Cons.prems, of obs] Cons.IH [of "snd (observe obs c)"]
  show ?case by (auto simp: case_prod_beta)
qed simp

lemma begin_state:
  assumes "sweep_begin s rate c = (True, c0)"
  shows "sweep_state s (sc_bank c) c0" "sweep_progress (position_of c0) = 0"
  using assms
  by (auto simp: sweep_begin_def sweep_state_def position_of_def CalibrationSweepStatus_default_def split: if_splits)

text \<open>
  C28: A calibration visits every fret in both directions, in order. From the start of a sweep, whatever
  observations arrive, each either leaves the phase and the requested fret alone or is an accepted
  observation that takes one step of the sequence open, 1, ..., 24, 23, ..., 0, end.
\<close>

theorem sweep_follows_frets:
  assumes "sweep_begin s rate c = (True, c0)"
  shows "let before = snd (observe_all os c0); (accepted, after) = observe obs before
    in position_of after = position_of before \<and> sc_bank after = sc_bank before
       \<or> accepted \<and> sweep_step (position_of before) (position_of after)"
proof -
  have "position_ok (position_of (snd (observe_all os c0)))"
    using observe_all_state [OF begin_state(1) [OF assms]] by (simp add: sweep_state_def)
  from observe_moves [OF this, of obs] show ?thesis
    by (auto simp: Let_def case_prod_beta moves_def stays_def advances_def)
qed

theorem sweep_follows_frets_witness:
  "\<forall>obs. let (accepted, after) = observe obs (snd (sweep_begin 3 1 StringSweepCalibrator_default))
   in position_of after = (phase_waiting_open, 0) \<or> accepted \<and> sweep_step (phase_waiting_open, 0) (position_of after)"
proof -
  have "\<not> (1 :: f64) \<le> 0" "is_finite 1" by code_simp+
  then have b: "sweep_begin 3 1 StringSweepCalibrator_default = (True, snd (sweep_begin 3 1 StringSweepCalibrator_default))"
    "position_of (snd (sweep_begin 3 1 StringSweepCalibrator_default)) = (phase_waiting_open, 0)"
    by (simp_all add: sweep_begin_def sweep_active_def StringSweepCalibrator_default_def
        CalibrationSweepStatus_default_def kMaxVoices_def position_of_def)
  show ?thesis
  proof
    fix obs
    from sweep_follows_frets [OF b(1), of "[]" obs] b(2)
    show "let (accepted, after) = observe obs (snd (sweep_begin 3 1 StringSweepCalibrator_default))
      in position_of after = (phase_waiting_open, 0) \<or> accepted \<and> sweep_step (phase_waiting_open, 0) (position_of after)"
      by (auto simp: Let_def)
  qed
qed

text \<open>
  C29: The bank is written by a complete sweep only. Whatever is observed after a start, the bank stays
  what it was until the sweep is complete, which takes at least 49 accepted observations; then exactly the
  row of the calibrated string and its bit in the mask have changed.
\<close>

theorem bank_written_by_complete_sweep:
  assumes "sweep_begin s rate c = (True, c0)"
  shows "case observe_all os c0 of (accepted, after) \<Rightarrow>
    if sc_phase after = phase_complete
    then 49 \<le> accepted \<and> (\<exists>row. sc_bank after = set_string (unat s) row (sc_bank c))
    else sc_bank after = sc_bank c"
proof -
  have "sweep_progress (position_of after) = 49" if "sc_phase after = phase_complete" for after
    using that by (simp add: position_of_def)
  with observe_all_state [OF begin_state(1) [OF assms], of os] begin_state(2) [OF assms] show ?thesis
    by (auto simp: case_prod_beta sweep_state_def)
qed

theorem bank_written_by_complete_sweep_witness:
  "\<forall>os. case observe_all os (snd (sweep_begin 3 1 StringSweepCalibrator_default)) of (accepted, after) \<Rightarrow>
    if sc_phase after = phase_complete
    then 49 \<le> accepted \<and> (\<exists>row. sc_bank after = set_string (unat (3 :: u8)) row StringCalibrationBank_default)
    else sc_bank after = StringCalibrationBank_default"
proof -
  have "\<not> (1 :: f64) \<le> 0" "is_finite 1" by code_simp+
  then have b: "sweep_begin 3 1 StringSweepCalibrator_default = (True, snd (sweep_begin 3 1 StringSweepCalibrator_default))"
    by (simp add: sweep_begin_def sweep_active_def StringSweepCalibrator_default_def
        CalibrationSweepStatus_default_def kMaxVoices_def)
  have bank: "sc_bank StringSweepCalibrator_default = StringCalibrationBank_default"
    by (simp add: StringSweepCalibrator_default_def)
  show ?thesis by (intro allI) (rule bank_written_by_complete_sweep [OF b, unfolded bank])
qed

end
