(* ===== verification/Vst3_Parameter_Bridge.thy ===== *)
theory Vst3_Parameter_Bridge
  imports Parameter_Contract
begin

text \<open>
  Parameters between a VST3 host and the contract (\<open>src/native/vst3/vst3_parameter_bridge.cpp\<close>). The host's
  objects are arguments: its queue of changes is a count and a lookup that may answer anything, the list it
  collects output points in is a state that two functions act on. The SDK's conversions between UTF-16 and
  ASCII are arguments too.
\<close>

definition kCanonicalTolerance :: f64 where "kCanonicalTolerance = f64_rat 1 1000000000000"
definition kHostNormalizedTolerance :: f64 where "kHostNormalizedTolerance = f64_rat 1 1000000"
definition kTunerNoteParameterId :: ParameterId where "kTunerNoteParameterId = 0x4D33FF02"
definition kTunerCentsParameterId :: ParameterId where "kTunerCentsParameterId = 0x4D33FF03"
definition kParameterCount :: nat where "kParameterCount = 16"
definition kVst3ParameterCount :: nat where "kVst3ParameterCount = kParameterCount + 2"
definition kMaxParameterQueues :: int where "kMaxParameterQueues = int kVst3ParameterCount"
definition kMaxParameterPointsPerQueue :: int where "kMaxParameterPointsPerQueue = 64"

definition kTunerParameters :: "ParameterSpec list" where
  "kTunerParameters =
     [\<lparr>ps_id = kTunerNoteParameterId, ps_name = Some ''Tuner note'', ps_minimum = 0,
       ps_maximum = f64_of_int 128, ps_increment = 1,
       ps_default_value = f64_of_int (uint kTunerNoSignalNote), ps_step_count = 128,
       ps_update_class = telemetry, ps_persistent = False, ps_list = True, ps_read_only = True\<rparr>,
      \<lparr>ps_id = kTunerCentsParameterId, ps_name = Some ''Tuner cents'', ps_minimum = f64_of_int (-50),
       ps_maximum = f64_of_int 50, ps_increment = f64_rat 1 10, ps_default_value = 0, ps_step_count = 1000,
       ps_update_class = telemetry, ps_persistent = False, ps_list = False, ps_read_only = True\<rparr>]"

definition vst3_parameter_spec :: "nat \<Rightarrow> ParameterSpec option" where
  "vst3_parameter_spec index =
     (if index < kParameterCount then parameter_spec index
      else let tuner_index = index - kParameterCount
           in if tuner_index < length kTunerParameters then Some (kTunerParameters ! tuner_index) else None)"

definition find_vst3_parameter :: "ParameterId \<Rightarrow> ParameterSpec option" where
  "find_vst3_parameter pid =
     (case find_parameter pid of
        Some shared \<Rightarrow> Some shared
      | None \<Rightarrow> find (\<lambda>spec. ps_id spec = pid) kTunerParameters)"

subsection \<open>Canonical values\<close>

definition same_value :: "f64 \<Rightarrow> f64 \<Rightarrow> bool" where
  "same_value left right \<longleftrightarrow> \<bar>left - right\<bar> \<le> kCanonicalTolerance"

definition canonical_normalized_value :: "ParameterSpec \<Rightarrow> f64 \<Rightarrow> f64 option" where
  "canonical_normalized_value spec normalized =
     (if \<not> is_finite normalized \<or> normalized < 0 \<or> 1 < normalized then None
      else let candidate = normalized_to_plain spec normalized;
               canonical = plain_to_normalized spec candidate
           in if \<not> is_finite candidate \<or> \<not> is_finite canonical
                 \<or> kHostNormalizedTolerance < \<bar>normalized - canonical\<bar> then None
              else Some candidate)"

definition canonical_plain_value :: "ParameterSpec \<Rightarrow> f64 \<Rightarrow> f64 option" where
  "canonical_plain_value spec plain =
     (if \<not> is_finite plain \<or> plain < ps_minimum spec \<or> ps_maximum spec < plain then None
      else let candidate = canonical_plain spec plain
           in if \<not> is_finite candidate \<or> \<not> same_value plain candidate then None
              else let out = plain_to_normalized spec candidate
                   in if is_finite out then Some out else None)"

subsection \<open>Text\<close>

definition copy_ascii :: "string \<Rightarrow> nat \<Rightarrow> text_result" where
  "copy_ascii source capacity =
     (if capacity = 0 then text_failed
      else if capacity \<le> length source then (False, Some []) else (True, Some source))"

definition kNames :: "string list" where
  "kNames = [''C'', ''C#'', ''D'', ''D#'', ''E'', ''F'', ''F#'', ''G'', ''G#'', ''A'', ''A#'', ''B'']"

definition format_tuner_note :: "int \<Rightarrow> nat \<Rightarrow> text_result" where
  "format_tuner_note n capacity =
     (if n = uint kTunerNoSignalNote then copy_ascii ''No signal'' capacity
      else if n < 0 \<or> 127 < n \<or> capacity < 3 then text_failed
      else let name = kNames ! nat (n mod 12); octave = n div 12 - 1
      in if capacity \<le> length name then (False, Some [])
      else if octave < 0
      then (if capacity \<le> length name + 2 then (False, Some []) else (True, Some (name @ ''-1'')))
      else if capacity \<le> length name + 1 then (False, Some [])
      else (True, Some (name @ [digit_char (nat octave)])))"

definition format_tuner_cents :: "f64 \<Rightarrow> nat \<Rightarrow> text_result" where
  "format_tuner_cents value capacity =
     (if capacity < 5 then text_failed
      else let scaled = f64_lround ((if \<bar>value\<bar> < f64_rat 5 100 then 0 else value) * f64_of_int 10);
               negative = scaled < 0;
               magnitude = nat \<bar>scaled\<bar>;
               whole = magnitude div 10;
               text = [if negative then CHR ''-'' else CHR ''+'']
                 @ (if 10 \<le> whole then [digit_char (whole div 10)] else [])
                 @ [digit_char (whole mod 10), CHR ''.'', digit_char (magnitude mod 10)]
           in if capacity \<le> length text then (False, Some []) else (True, Some text))"

text \<open>The buffer is emptied first, so a conversion that fails leaves the empty string.\<close>

definition emptied :: "text_result \<Rightarrow> text_result" where
  "emptied r = (fst r, case snd r of None \<Rightarrow> Some [] | Some s \<Rightarrow> Some s)"

definition vst3_parameter_value_to_text :: "ParameterId \<Rightarrow> f64 \<Rightarrow> nat option \<Rightarrow> text_result" where
  "vst3_parameter_value_to_text pid value out =
     (case out of
        None \<Rightarrow> text_failed
      | Some capacity \<Rightarrow>
          if capacity = 0 \<or> \<not> is_finite value then text_failed
          else emptied
            (if pid = kTunerNoteParameterId then format_tuner_note (f64_lround value) capacity
             else if pid = kTunerCentsParameterId then format_tuner_cents value capacity
             else parameter_value_to_text pid value out))"

subsection \<open>The parameter objects of the controller\<close>

record ParameterInfo =
  pi_title :: string
  pi_id :: ParameterId
  pi_step_count :: int
  pi_default_normalized :: f64
  pi_is_list :: bool
  pi_is_read_only :: bool

definition build_parameter_info :: "ParameterSpec \<Rightarrow> ParameterInfo option" where
  "build_parameter_info spec =
     (case (ps_name spec, canonical_plain_value spec (ps_default_value spec)) of
        (Some name, Some normalized) \<Rightarrow>
          if name = [] then None
          else Some \<lparr>pi_title = name, pi_id = ps_id spec, pi_step_count = ps_step_count spec,
                     pi_default_normalized = normalized, pi_is_list = ps_list spec,
                     pi_is_read_only = ps_read_only spec\<rparr>
      | _ \<Rightarrow> None)"

definition parameter_toString :: "ParameterSpec \<Rightarrow> f64 \<Rightarrow> string" where
  "parameter_toString spec normalized =
     (case canonical_normalized_value spec normalized of
        None \<Rightarrow> []
      | Some plain \<Rightarrow>
          (case vst3_parameter_value_to_text (ps_id spec) plain (Some 128) of
             (True, Some text) \<Rightarrow> text
           | _ \<Rightarrow> []))"

definition parameter_fromString ::
  "(string \<Rightarrow> f64 \<times> nat) \<Rightarrow> ('tchars \<Rightarrow> string) \<Rightarrow> ParameterSpec \<Rightarrow> 'tchars option \<Rightarrow> f64 option" where
  "parameter_fromString strtod to_ascii spec input =
     (case input of
        None \<Rightarrow> None
      | Some text \<Rightarrow>
          if ps_read_only spec then None
          else case parameter_text_to_value strtod (ps_id spec) (Some (to_ascii text)) of
                 None \<Rightarrow> None
               | Some plain \<Rightarrow> canonical_plain_value spec plain)"

definition parameter_toPlain :: "ParameterSpec \<Rightarrow> f64 \<Rightarrow> f64" where
  "parameter_toPlain spec normalized =
     (case canonical_normalized_value spec normalized of None \<Rightarrow> f64_nan | Some plain \<Rightarrow> plain)"

definition parameter_toNormalized :: "ParameterSpec \<Rightarrow> f64 \<Rightarrow> f64" where
  "parameter_toNormalized spec plain =
     (case canonical_plain_value spec plain of None \<Rightarrow> f64_nan | Some normalized \<Rightarrow> normalized)"

text \<open>The controller's container: the normalised value of each registered parameter.\<close>

type_synonym parameter_container = "ParameterId \<rightharpoonup> f64"

definition parameter_setNormalized :: "ParameterSpec \<Rightarrow> f64 \<Rightarrow> parameter_container \<Rightarrow> bool \<times> parameter_container" where
  "parameter_setNormalized spec normalized container =
     (case canonical_normalized_value spec normalized of
        None \<Rightarrow> (False, container)
      | Some plain \<Rightarrow> (True, container(ps_id spec \<mapsto> normalized)))"

text \<open>\<open>allocated\<close> says which of the \<open>new (std::nothrow)\<close> succeed.\<close>

fun register_from ::
  "(nat \<Rightarrow> bool) \<Rightarrow> nat list \<Rightarrow> parameter_container \<Rightarrow> bool \<times> parameter_container" where
  "register_from allocated [] container = (True, container)"
| "register_from allocated (index # indices) container =
     (case vst3_parameter_spec index of
        None \<Rightarrow> (False, container)
      | Some spec \<Rightarrow>
          (case build_parameter_info spec of
             None \<Rightarrow> (False, container)
           | Some info \<Rightarrow>
               if \<not> allocated index then (False, container)
               else register_from allocated indices (container(pi_id info \<mapsto> pi_default_normalized info))))"

definition register_vst3_parameters :: "(nat \<Rightarrow> bool) \<Rightarrow> parameter_container \<Rightarrow> bool \<times> parameter_container" where
  "register_vst3_parameters allocated = register_from allocated [0..<kVst3ParameterCount]"

fun synchronize_from ::
  "PersistentConfig \<Rightarrow> Status \<Rightarrow> nat list \<Rightarrow> parameter_container \<Rightarrow> bool \<times> parameter_container" where
  "synchronize_from config status [] container = (True, container)"
| "synchronize_from config status (index # indices) container =
     (case vst3_parameter_spec index of
        None \<Rightarrow> (False, container)
      | Some spec \<Rightarrow>
          let value = (if index < kParameterCount then parameter_value config status (ps_id spec)
                       else Some (ps_default_value spec))
          in case (container (ps_id spec), value) of
               (Some _, Some plain) \<Rightarrow>
                 (case canonical_plain_value spec plain of
                    None \<Rightarrow> (False, container)
                  | Some normalized \<Rightarrow>
                      synchronize_from config status indices
                        (snd (parameter_setNormalized spec normalized container)))
             | _ \<Rightarrow> (False, container))"

definition synchronize_vst3_parameters ::
  "PersistentConfig \<Rightarrow> Status \<Rightarrow> parameter_container \<Rightarrow> bool \<times> parameter_container" where
  "synchronize_vst3_parameters config status = synchronize_from config status [0..<kVst3ParameterCount]"

text \<open>
  The parameter changes of a block (\<open>read_last_boundary_values\<close> and \<open>push_output_value\<close> in
  \<open>src/native/vst3/vst3_parameter_bridge.cpp\<close>). The host's queues are records whose functions answer for
  any index; every check of the code on their answers is here, so the host may answer anything.
\<close>

text \<open>What \<open>getPoint\<close> gives for an index: whether the call succeeded, the sample offset, the value.\<close>

record ParamValueQueue =
  vq_parameter_id :: ParameterId
  vq_point_count :: int
  vq_get_point :: "int \<Rightarrow> bool \<times> int \<times> f64"

record ParameterChanges =
  ch_parameter_count :: int
  ch_parameter_data :: "int \<Rightarrow> ParamValueQueue option"

record ParameterBatch =
  pb_candidate :: PersistentConfig
  pb_changed :: bool
  pb_structural :: bool
  pb_panic :: bool

definition ParameterBatch_of :: "PersistentConfig \<Rightarrow> ParameterBatch" where
  "ParameterBatch_of current =
     \<lparr>pb_candidate = current, pb_changed = False, pb_structural = False, pb_panic = False\<rparr>"

definition parameter_index :: "ParameterId \<Rightarrow> nat option" where
  "parameter_index pid =
     find (\<lambda>index. case parameter_spec index of None \<Rightarrow> False | Some spec \<Rightarrow> ps_id spec = pid) [0..<kParameterCount]"

text \<open>The last value seen for each parameter; \<open>last_values\<close> and \<open>seen\<close> as one list of options.\<close>

type_synonym last_values = "f64 option list"

definition offset_in_block :: "int \<Rightarrow> int \<Rightarrow> bool" where
  "offset_in_block num_samples offset \<longleftrightarrow>
     0 \<le> offset \<and> (if num_samples = 0 then offset = 0 else offset < num_samples)"

fun read_points ::
  "int \<Rightarrow> ParamValueQueue \<Rightarrow> nat \<Rightarrow> ParameterSpec \<Rightarrow> nat list \<Rightarrow> last_values \<Rightarrow> last_values option" where
  "read_points num_samples queue spec_index spec [] seen = Some seen"
| "read_points num_samples queue spec_index spec (point_index # rest) seen =
     (case vq_get_point queue (int point_index) of
        (ok, offset, normalized) \<Rightarrow>
          if \<not> ok \<or> \<not> offset_in_block num_samples offset then None
          else if ps_read_only spec \<or> canonical_normalized_value spec normalized = None then None
          else read_points num_samples queue spec_index spec rest (seen[spec_index := Some normalized]))"

fun read_queues ::
  "int \<Rightarrow> ParameterChanges \<Rightarrow> nat list \<Rightarrow> last_values \<Rightarrow> last_values option" where
  "read_queues num_samples changes [] seen = Some seen"
| "read_queues num_samples changes (queue_index # rest) seen =
     (case ch_parameter_data changes (int queue_index) of
        None \<Rightarrow> None
      | Some queue \<Rightarrow>
          (case parameter_index (vq_parameter_id queue) of
             None \<Rightarrow>
               if find_vst3_parameter (vq_parameter_id queue) \<noteq> None then None
               else read_queues num_samples changes rest seen
           | Some spec_index \<Rightarrow>
               (case parameter_spec spec_index of
                  None \<Rightarrow> None
                | Some spec \<Rightarrow>
                    if vq_point_count queue < 0 \<or> kMaxParameterPointsPerQueue < vq_point_count queue then None
                    else (case read_points num_samples queue spec_index spec [0..<nat (vq_point_count queue)] seen of
                            None \<Rightarrow> None
                          | Some seen' \<Rightarrow> read_queues num_samples changes rest seen'))))"

text \<open>Applying the values that were seen, in the order of the table.\<close>

fun apply_seen :: "last_values \<Rightarrow> nat list \<Rightarrow> ParameterBatch \<Rightarrow> ParameterBatch option" where
  "apply_seen seen [] batch = Some batch"
| "apply_seen seen (index # rest) batch =
     (case seen ! index of
        None \<Rightarrow> apply_seen seen rest batch
      | Some normalized \<Rightarrow>
          (case parameter_spec index of
             None \<Rightarrow> None
           | Some spec \<Rightarrow>
               (case canonical_normalized_value spec normalized of
                  None \<Rightarrow> None
                | Some plain \<Rightarrow>
                    let (result, config) = apply_parameter (pb_candidate batch) (ps_id spec) plain;
                        batch = batch\<lparr>pb_candidate := config\<rparr>
                    in if result = apply_rejected then None
                       else if result = apply_panic then apply_seen seen rest (batch\<lparr>pb_panic := True\<rparr>)
                       else if result = apply_changed
                       then apply_seen seen rest
                              (batch\<lparr>pb_changed := True,
                                     pb_structural := pb_structural batch \<or> ps_update_class spec = structural\<rparr>)
                       else apply_seen seen rest batch)))"

text \<open>Whether the changes were accepted, and the batch left in \<open>output\<close>.\<close>

definition read_last_boundary_values ::
  "ParameterChanges option \<Rightarrow> int \<Rightarrow> PersistentConfig \<Rightarrow> bool \<times> ParameterBatch" where
  "read_last_boundary_values changes num_samples current =
     (let unchanged = ParameterBatch_of current in
      if num_samples < 0 then (False, unchanged)
      else case changes of
        None \<Rightarrow> (True, unchanged)
      | Some ch \<Rightarrow>
          if ch_parameter_count ch < 0 \<or> kMaxParameterQueues < ch_parameter_count ch then (False, unchanged)
          else case read_queues num_samples ch [0..<nat (ch_parameter_count ch)] (replicate kParameterCount None) of
                 None \<Rightarrow> (False, unchanged)
               | Some seen \<Rightarrow>
                   (case apply_seen seen [0..<kParameterCount] (ParameterBatch_of current) of
                      None \<Rightarrow> (False, unchanged)
                    | Some candidate \<Rightarrow> (True, candidate)))"

subsection \<open>Output points\<close>

text \<open>
  The host's collection of output points: \<open>add_data\<close> gives a queue and its index, \<open>add_point\<close> adds a point
  to a queue and tells its index; both act on the host's state.
\<close>

definition push_output_value ::
  "(ParameterId \<Rightarrow> 'host \<Rightarrow> ('queue option \<times> int) \<times> 'host)
   \<Rightarrow> ('queue \<Rightarrow> int \<Rightarrow> f64 \<Rightarrow> 'host \<Rightarrow> (bool \<times> int) \<times> 'host)
   \<Rightarrow> bool \<Rightarrow> ParameterId \<Rightarrow> f64 \<Rightarrow> int \<Rightarrow> 'host \<Rightarrow> bool \<times> 'host" where
  "push_output_value add_data add_point has_changes pid normalized offset host =
     (case find_vst3_parameter pid of
        None \<Rightarrow> (False, host)
      | Some spec \<Rightarrow>
          if \<not> has_changes \<or> offset < 0 \<or> canonical_normalized_value spec normalized = None then (False, host)
          else case add_data pid host of
                 ((None, queue_index), host') \<Rightarrow> (False, host')
               | ((Some queue, queue_index), host') \<Rightarrow>
                   if queue_index < 0 then (False, host')
                   else let ((ok, point_index), host'') = add_point queue offset normalized host'
                        in (ok \<and> 0 \<le> point_index, host''))"

end
