(* ===== verification/Vst3_Parameter_Laws.thy ===== *)
theory Vst3_Parameter_Laws
  imports Vst3_Parameter_Bridge State_Properties Config_Request
begin

text \<open>
  What a block's parameter changes may do to the configuration: whatever the host's queues answer, the batch
  is all or nothing, stays in range, and reports a structural change whenever the structural part (the one
  that needs a new detector) differs.
\<close>

subsection \<open>Structural equality\<close>

lemma f64_eq_refl: "is_finite x \<Longrightarrow> f64_eq x x"
  by (simp add: f64_eq_def)

lemma f64_eq_trans: "f64_eq x y \<Longrightarrow> f64_eq y z \<Longrightarrow> f64_eq x z"
  by (simp add: f64_eq_def)

lemma structural_refl: "is_finite (a4_hz c) \<Longrightarrow> structural_config_equal c c"
  by (simp add: structural_config_equal_def f64_eq_refl)

lemma structural_trans:
  "structural_config_equal a b \<Longrightarrow> structural_config_equal b c \<Longrightarrow> structural_config_equal a c"
  using f64_eq_trans by (auto simp: structural_config_equal_def)

lemma f64_eq_trunc: "f64_eq x y \<Longrightarrow> f64_trunc x = f64_trunc y"
proof -
  assume "f64_eq x y"
  then have "x \<le> y" "y \<le> x" by (simp_all add: f64_eq_def less_eq_f64_def)
  from this [THEN f64_trunc_mono] show ?thesis by simp
qed

lemma f64_eq_byte: "f64_eq (f64_of_u8 b) x \<Longrightarrow> u8_of_f64 x = b"
proof -
  assume "f64_eq (f64_of_u8 b) x"
  then have "u8_of_f64 x = u8_of_f64 (f64_of_u8 b)" unfolding u8_of_f64_def by (simp only: f64_eq_trunc)
  then show ?thesis by simp
qed

text \<open>Assigning the value a field already has leaves the structural part alone.\<close>

lemma assign_same:
  assumes "assign_parameter c pid x = Some c'" "parameter_value c status_ready pid = Some p" "f64_eq p x"
    and "config_encodable c"
  shows "structural_config_equal c c'"
proof -
  have "is_finite (a4_hz c)" using assms(4) by (simp add: config_encodable_def)
  note eq = f64_eq_refl [OF this]
  from assign_parameter_id [OF assms(1)] show ?thesis
    by (elim insertE emptyE)
      (use assms eq listed_bytes(4,5) [OF assms(4)] in
        \<open>auto simp: assign_parameter_def parameter_value_def structural_config_equal_def f64_eq_byte\<close>)
qed

text \<open>A parameter of another class than structural does not touch the structural part.\<close>

lemma assign_runtime:
  assumes "assign_parameter c pid x = Some c'" "find_parameter pid = Some spec" "ps_update_class spec \<noteq> structural"
    and "is_finite (a4_hz c)"
  shows "structural_config_equal c c'"
proof -
  note eq = f64_eq_refl [OF assms(4)]
  from assign_parameter_id [OF assms(1)] show ?thesis
    by (elim insertE emptyE)
      (use assms(1-3) eq find_rows in
        \<open>auto simp: assign_parameter_def structural_config_equal_def int_spec_def a4_spec_def\<close>)
qed

lemma apply_structural:
  assumes "apply_parameter c pid v = (r, c')" "find_parameter pid = Some spec" "config_valid c"
    and "r = apply_changed \<Longrightarrow> ps_update_class spec \<noteq> structural"
  shows "structural_config_equal c c'"
proof (cases "c' = c")
  case True
  then show ?thesis using assms(3) structural_refl by (simp add: config_valid_simps)
next
  case False
  have a4: "is_finite (a4_hz c)" and enc: "config_encodable c" using assms(3) by (simp_all add: config_valid_simps)
  from False assms(1,2) have as: "assign_parameter c pid (canonical_plain spec v) = Some c'"
    and r: "r = (if f64_eq (case parameter_value c status_ready pid of None \<Rightarrow> 0 | Some v \<Rightarrow> v) (canonical_plain spec v)
              then apply_unchanged else apply_changed)"
    by (auto simp: apply_parameter_def Let_def split: option.splits if_splits)
  have "\<exists>p. parameter_value c status_ready pid = Some p"
    using assign_parameter_id [OF as] by (elim insertE emptyE) (simp_all add: parameter_value_def)
  with r as assms(2,4) a4 enc assign_same assign_runtime show ?thesis
    by (cases "r = apply_changed") (auto split: if_splits)
qed

subsection \<open>The batch\<close>

definition batch_ok :: "PersistentConfig \<Rightarrow> ParameterBatch \<Rightarrow> bool" where
  "batch_ok current b \<longleftrightarrow>
     config_valid (pb_candidate b)
     \<and> (pb_structural b \<or> structural_config_equal current (pb_candidate b))
     \<and> (pb_structural b \<longrightarrow> pb_changed b)
     \<and> (pb_changed b \<or> structural_config_equal current (pb_candidate b))"

lemma batch_ok_start: "config_valid current \<Longrightarrow> batch_ok current (ParameterBatch_of current)"
  by (simp add: batch_ok_def ParameterBatch_of_def structural_refl config_valid_simps)

lemma parameter_spec_found: "parameter_spec index = Some spec \<Longrightarrow> find_parameter (ps_id spec) = Some spec"
proof -
  assume s: "parameter_spec index = Some spec"
  have "list_all (\<lambda>spec. find_parameter (ps_id spec) = Some spec) kParameters"
    by (simp add: find_parameter_def kParameters_def int_spec_def a4_spec_def trim_spec_def
        kPanicParameterId_def kStatusParameterId_def)
  with s show ?thesis by (auto simp: parameter_spec_def list_all_length split: if_splits)
qed

lemma apply_step_ok:
  assumes "batch_ok current b" "find_parameter (ps_id spec) = Some spec"
    and "apply_parameter (pb_candidate b) (ps_id spec) plain = (r, config)"
  shows "batch_ok current (if r = apply_changed
      then b\<lparr>pb_candidate := config, pb_changed := True,
             pb_structural := pb_structural b \<or> ps_update_class spec = structural\<rparr>
      else b\<lparr>pb_candidate := config\<rparr>)"
proof -
  have valid: "config_valid config"
    using apply_parameter_valid [of "pb_candidate b" "ps_id spec" plain] assms(1,3) by (simp add: batch_ok_def)
  have "structural_config_equal (pb_candidate b) config" if "r = apply_changed \<Longrightarrow> ps_update_class spec \<noteq> structural"
    using apply_structural [OF assms(3,2) _ that] assms(1) by (simp add: batch_ok_def)
  with assms(1) valid structural_trans show ?thesis by (auto simp: batch_ok_def)
qed

lemma apply_seen_ok:
  "batch_ok current b \<Longrightarrow> apply_seen seen is b = Some b' \<Longrightarrow> batch_ok current b'"
proof (induction seen "is" b rule: apply_seen.induct)
  case (2 seen index rest b)
  show ?case
  proof (cases "seen ! index")
    case None
    with 2 show ?thesis by simp
  next
    case (Some normalized)
    with "2.prems"(2) obtain spec plain where s: "parameter_spec index = Some spec"
      "canonical_normalized_value spec normalized = Some plain" by (auto split: option.splits)
    obtain r config where a: "apply_parameter (pb_candidate b) (ps_id spec) plain = (r, config)"
      by (metis surj_pair)
    note step = apply_step_ok [OF "2.prems"(1) parameter_spec_found [OF s(1)] a]
    have panic: "batch_ok current (x\<lparr>pb_panic := True\<rparr>) = batch_ok current x" for x by (simp add: batch_ok_def)
    show ?thesis
      using "2.prems"(2) step "2.IH"(2-) [OF Some s a [symmetric] refl] Some s a
      by (cases r) (auto simp: panic)
  qed
qed simp

text \<open>The batch a block reads.\<close>

lemma read_batch:
  assumes "config_valid current" "read_last_boundary_values changes num_samples current = (ok, batch)"
  shows "batch_ok current batch" "\<not> ok \<Longrightarrow> batch = ParameterBatch_of current"
proof -
  note start = batch_ok_start [OF assms(1)]
  have "batch_ok current candidate" if "apply_seen seen is (ParameterBatch_of current) = Some candidate" for seen "is" candidate
    by (rule apply_seen_ok [OF start that])
  with start assms(2) show "batch_ok current batch" "\<not> ok \<Longrightarrow> batch = ParameterBatch_of current"
    by (auto simp: read_last_boundary_values_def Let_def split: option.splits if_splits)
qed


definition one_change :: ParameterChanges where
  "one_change =
     \<lparr>ch_parameter_count = 1,
      ch_parameter_data = (\<lambda>_. Some \<lparr>vq_parameter_id = 0x4D33000A, vq_point_count = 1,
                                      vq_get_point = (\<lambda>_. (True, 0, 1))\<rparr>)\<rparr>"


end
