(* ===== verification/State_Streams.thy ===== *)
theory State_Streams
  imports State_Properties Calibration_Properties
begin

text \<open>
  The host's state streams (\<open>src/native/vst3/vst3_state_stream.cpp\<close> and
  \<open>src/native/plugin/clap_state_stream.cpp\<close>). A stream is a state of the host and a function that acts on it:
  a writer is offered bytes and says how many it took, a reader is asked for a number of bytes, says how many
  it delivered, and leaves some contents in the requested part of the buffer. The loops go on until all bytes
  are through; each turn must make progress, so they end whatever the host answers.
\<close>

type_synonym 'h writer = "u8 list \<Rightarrow> 'h \<Rightarrow> (bool \<times> int) \<times> 'h"
type_synonym 'h reader = "nat \<Rightarrow> 'h \<Rightarrow> (bool \<times> int \<times> (nat \<Rightarrow> u8)) \<times> 'h"

subsection \<open>The loops\<close>

function write_exact :: "'h writer \<Rightarrow> u8 list \<Rightarrow> 'h \<Rightarrow> bool \<times> 'h" where
  "write_exact write_call bs h =
     (if bs = [] then (True, h)
      else case write_call bs h of
        ((ok, written), h') \<Rightarrow>
          if \<not> ok \<or> written \<le> 0 \<or> int (length bs) < written then (False, h')
          else write_exact write_call (drop (nat written) bs) h')"
  by pat_completeness auto
termination
  by (relation "measure (\<lambda>(_, bs, _). length bs)") auto

declare write_exact.simps [simp del]

text \<open>The bytes read, and none on failure.\<close>

function read_exact :: "'h reader \<Rightarrow> nat \<Rightarrow> 'h \<Rightarrow> u8 list option \<times> 'h" where
  "read_exact read_call remaining h =
     (if remaining = 0 then (Some [], h)
      else case read_call remaining h of
        ((ok, count, data), h') \<Rightarrow>
          if \<not> ok \<or> count \<le> 0 \<or> int remaining < count then (None, h')
          else (case read_exact read_call (remaining - nat count) h' of
                  (None, h'') \<Rightarrow> (None, h'')
                | (Some bs, h'') \<Rightarrow> (Some (map data [0..<nat count] @ bs), h'')))"
  by pat_completeness auto
termination
  by (relation "measure (\<lambda>(_, remaining, _). remaining)") auto

declare read_exact.simps [simp del]

definition read_eof :: "'h reader \<Rightarrow> 'h \<Rightarrow> bool \<times> 'h" where
  "read_eof read_call h =
     (case read_call 1 h of ((ok, count, data), h') \<Rightarrow> (ok \<and> count = 0, h'))"

function read_bounded_to_eof :: "'h reader \<Rightarrow> nat \<Rightarrow> 'h \<Rightarrow> u8 list option \<times> 'h" where
  "read_bounded_to_eof read_call room h =
     (if room = 0 then (case read_eof read_call h of (at_end, h') \<Rightarrow> (if at_end then Some [] else None, h'))
      else case read_call room h of
        ((ok, count, data), h') \<Rightarrow>
          if \<not> ok \<or> count < 0 \<or> int room < count then (None, h')
          else if count = 0 then (Some [], h')
          else (case read_bounded_to_eof read_call (room - nat count) h' of
                  (None, h'') \<Rightarrow> (None, h'')
                | (Some bs, h'') \<Rightarrow> (Some (map data [0..<nat count] @ bs), h'')))"
  by pat_completeness auto
termination
  by (relation "measure (\<lambda>(_, room, _). room)") auto

declare read_bounded_to_eof.simps [simp del]

subsection \<open>VST3\<close>

text \<open>A null stream is none.\<close>

definition save_vst3_state :: "PersistentConfig \<Rightarrow> 'h writer option \<Rightarrow> 'h \<Rightarrow> bool \<times> 'h" where
  "save_vst3_state config stream h =
     (case stream of
        None \<Rightarrow> (False, h)
      | Some write_call \<Rightarrow>
          (case encode_state config of
             (ok, img) \<Rightarrow> if \<not> ok then (False, h) else write_exact write_call img h))"

definition load_vst3_state :: "'h reader option \<Rightarrow> 'h \<Rightarrow> PersistentConfig option \<times> 'h" where
  "load_vst3_state stream h =
     (case stream of
        None \<Rightarrow> (None, h)
      | Some read_call \<Rightarrow>
          (case read_exact read_call kStateSize h of
             (None, h') \<Rightarrow> (None, h')
           | (Some img, h') \<Rightarrow>
               (case read_eof read_call h' of
                  (at_end, h'') \<Rightarrow> (if at_end then decode_state (Some img) else None, h''))))"

definition save_vst3_state_with_calibration ::
  "PersistentConfig \<Rightarrow> StringCalibrationBank \<Rightarrow> 'h writer option \<Rightarrow> 'h \<Rightarrow> bool \<times> 'h" where
  "save_vst3_state_with_calibration config calibration stream h =
     (case stream of
        None \<Rightarrow> (False, h)
      | Some write_call \<Rightarrow>
          (case (encode_state config,
                 encode_calibration_state calibration (replicate kCalibrationStateSize 0)) of
             ((ok, img), (calibration_ok, calibration_img)) \<Rightarrow>
               if \<not> ok \<or> \<not> calibration_ok then (False, h)
               else case write_exact write_call img h of
                      (False, h') \<Rightarrow> (False, h')
                    | (True, h') \<Rightarrow> write_exact write_call calibration_img h'))"

definition load_vst3_state_with_calibration ::
  "'h reader option \<Rightarrow> 'h \<Rightarrow> (PersistentConfig \<times> StringCalibrationBank) option \<times> 'h" where
  "load_vst3_state_with_calibration stream h =
     (case stream of
        None \<Rightarrow> (None, h)
      | Some read_call \<Rightarrow>
          (case read_exact read_call kStateSize h of
             (None, h') \<Rightarrow> (None, h')
           | (Some img, h') \<Rightarrow>
               (case decode_state (Some img) of
                  None \<Rightarrow> (None, h')
                | Some config \<Rightarrow>
                    (case read_bounded_to_eof read_call kCalibrationStateSize h' of
                       (None, h'') \<Rightarrow> (None, h'')
                     | (Some bytes, h'') \<Rightarrow>
                         if bytes = [] then (Some (config, StringCalibrationBank_default), h'')
                         else (case decode_calibration_state (Some bytes) of
                                 None \<Rightarrow> (None, h'')
                               | Some calibration \<Rightarrow> (Some (config, calibration), h''))))))"

subsection \<open>CLAP\<close>

text \<open>CLAP streams answer with a count alone; a negative one is an error.\<close>

definition clap_writer :: "(u8 list \<Rightarrow> 'h \<Rightarrow> int \<times> 'h) \<Rightarrow> 'h writer" where
  "clap_writer write_call bs h = (case write_call bs h of (written, h') \<Rightarrow> ((True, written), h'))"

definition clap_reader :: "(nat \<Rightarrow> 'h \<Rightarrow> (int \<times> (nat \<Rightarrow> u8)) \<times> 'h) \<Rightarrow> 'h reader" where
  "clap_reader read_call n h = (case read_call n h of ((count, data), h') \<Rightarrow> ((True, count, data), h'))"

definition save_clap_state :: "PersistentConfig \<Rightarrow> (u8 list \<Rightarrow> 'h \<Rightarrow> int \<times> 'h) option \<Rightarrow> 'h \<Rightarrow> bool \<times> 'h" where
  "save_clap_state config stream h =
     (case stream of
        None \<Rightarrow> (False, h)
      | Some write_call \<Rightarrow>
          (case encode_state config of
             (ok, img) \<Rightarrow> if \<not> ok then (False, h) else write_exact (clap_writer write_call) img h))"

definition load_clap_state ::
  "(nat \<Rightarrow> 'h \<Rightarrow> (int \<times> (nat \<Rightarrow> u8)) \<times> 'h) option \<Rightarrow> 'h \<Rightarrow> PersistentConfig option \<times> 'h" where
  "load_clap_state stream h =
     (case stream of
        None \<Rightarrow> (None, h)
      | Some read_call \<Rightarrow>
          (case read_exact (clap_reader read_call) kStateSize h of
             (None, h') \<Rightarrow> (None, h')
           | (Some img, h') \<Rightarrow>
               (case read_call 1 h' of
                  ((count, data), h'') \<Rightarrow> (if count \<noteq> 0 then None else decode_state (Some img), h''))))"

end
