(* ===== verification/State_Stream_Laws.thy ===== *)
theory State_Stream_Laws
  imports State_Streams
begin

text \<open>
  Saving and loading through any stream that behaves as the plugin formats document it: a writer takes a
  non-empty part of what it is offered, a reader delivers a non-empty part of what is left, both in pieces
  of their own choice.
\<close>

definition writes_in_order :: "('h \<Rightarrow> u8 list) \<Rightarrow> 'h writer \<Rightarrow> bool" where
  "writes_in_order contents write_call \<longleftrightarrow>
     (\<forall>bs h. bs \<noteq> [] \<longrightarrow>
        (case write_call bs h of ((ok, n), h') \<Rightarrow>
           ok \<and> 0 < n \<and> n \<le> int (length bs) \<and> contents h' = contents h @ take (nat n) bs))"

definition reads_in_order :: "('h \<Rightarrow> u8 list) \<Rightarrow> 'h reader \<Rightarrow> bool" where
  "reads_in_order rest read_call \<longleftrightarrow>
     (\<forall>n h. 0 < n \<longrightarrow>
        (case read_call n h of ((ok, k, data), h') \<Rightarrow>
           ok \<and> 0 \<le> k \<and> k \<le> int n \<and> nat k \<le> length (rest h) \<and> (rest h \<noteq> [] \<longrightarrow> 0 < k)
           \<and> map data [0..<nat k] = take (nat k) (rest h) \<and> rest h' = drop (nat k) (rest h)))"

lemma write_exact_all:
  assumes w: "writes_in_order contents write_call"
  shows "fst (write_exact write_call bs h) \<and> contents (snd (write_exact write_call bs h)) = contents h @ bs"
proof (induction "length bs" arbitrary: bs h rule: less_induct)
  case less
  show ?case
  proof (cases "bs = []")
    case True
    then show ?thesis by (simp add: write_exact.simps)
  next
    case False
    obtain ok n h' where c: "write_call bs h = ((ok, n), h')" by (metis prod.exhaust)
    with w [unfolded writes_in_order_def, rule_format, OF False, of h]
    have n: "ok" "0 < n" "n \<le> int (length bs)" "contents h' = contents h @ take (nat n) bs"
      by simp_all
    then have "fst (write_exact write_call (drop (nat n) bs) h')
        \<and> contents (snd (write_exact write_call (drop (nat n) bs) h')) = contents h' @ drop (nat n) bs"
      using False by (intro less) simp
    with n c False show ?thesis by (simp add: write_exact.simps [of write_call bs h])
  qed
qed

lemma read_exact_all:
  assumes r: "reads_in_order rest read_call"
  shows "n \<le> length (rest h) \<Longrightarrow> fst (read_exact read_call n h) = Some (take n (rest h))
    \<and> rest (snd (read_exact read_call n h)) = drop n (rest h)"
proof (induction n arbitrary: h rule: less_induct)
  case (less n)
  show ?case
  proof (cases "n = 0")
    case True
    then show ?thesis by (simp add: read_exact.simps)
  next
    case False
    obtain ok k data h' where c: "read_call n h = ((ok, k, data), h')" by (metis prod.exhaust)
    have "rest h \<noteq> []" using False less.prems by auto
    with c r [unfolded reads_in_order_def, rule_format, of n h] False
    have k: "ok" "k \<le> int n" "0 < k" "nat k \<le> length (rest h)"
      "map data [0..<nat k] = take (nat k) (rest h)" "rest h' = drop (nat k) (rest h)"
      by simp_all
    then have ih: "fst (read_exact read_call (n - nat k) h') = Some (take (n - nat k) (rest h'))
        \<and> rest (snd (read_exact read_call (n - nat k) h')) = drop (n - nat k) (rest h')"
      using False less.prems by (intro less) simp_all
    have le: "nat k \<le> n" using k(2,3) by simp
    have "take n (rest h) = take (nat k) (rest h) @ take (n - nat k) (drop (nat k) (rest h))"
      using take_add [of "nat k" "n - nat k" "rest h"] le by simp
    with ih k le c False show ?thesis
      by (simp add: read_exact.simps [of read_call n h] case_prod_beta split: option.split)
  qed
qed

lemma read_eof_at_end:
  assumes "reads_in_order rest read_call" "rest h = []"
  shows "fst (read_eof read_call h)"
proof -
  obtain ok k data h' where c: "read_call 1 h = ((ok, k, data), h')" by (metis prod.exhaust)
  with assms(1) [unfolded reads_in_order_def, rule_format, of 1 h] assms(2) show ?thesis
    by (simp add: read_eof_def)
qed

lemma read_bounded_all:
  assumes r: "reads_in_order rest read_call"
  shows "length (rest h) \<le> room \<Longrightarrow> fst (read_bounded_to_eof read_call room h) = Some (rest h)"
proof (induction room arbitrary: h rule: less_induct)
  case (less room)
  show ?case
  proof (cases "room = 0")
    case True
    with less.prems show ?thesis using read_eof_at_end [OF r, of h]
      by (simp add: read_bounded_to_eof.simps case_prod_beta)
  next
    case False
    obtain ok k data h' where c: "read_call room h = ((ok, k, data), h')" by (metis prod.exhaust)
    with r [unfolded reads_in_order_def, rule_format, of room h] False
    have k: "ok" "k \<le> int room" "0 \<le> k" "rest h \<noteq> [] \<longrightarrow> 0 < k" "nat k \<le> length (rest h)"
      "map data [0..<nat k] = take (nat k) (rest h)" "rest h' = drop (nat k) (rest h)"
      by simp_all
    show ?thesis
    proof (cases "k = 0")
      case True
      with k c False show ?thesis by (simp add: read_bounded_to_eof.simps [of read_call room h])
    next
      case nz: False
      with k have ih: "fst (read_bounded_to_eof read_call (room - nat k) h') = Some (rest h')"
        using False less.prems by (intro less) simp_all
      have "take (nat k) (rest h) @ drop (nat k) (rest h) = rest h" by simp
      with ih k c False nz show ?thesis
        by (simp add: read_bounded_to_eof.simps [of read_call room h] case_prod_beta split: option.split)
    qed
  qed
qed

lemma saved_state:
  assumes "config_valid c"
  obtains img where "encode_state c = (True, img)" "length img = kStateSize"
    "decode_state (Some img) = Some (canonical_config c)"
proof -
  have "enums_listed c" "config_encodable c"
    using assms by (simp_all add: config_valid_def config_encodable_def enums_listed_def)
  with that show ?thesis
    using encode_state_total [OF assms] encode_state_image(1) [OF encode_state_total [OF assms]]
      decode_encoded [OF encode_state_total [OF assms]] by blast
qed


text \<open>A stream that takes and delivers at most seven bytes at a time.\<close>

definition seven_writer :: "u8 list writer" where
  "seven_writer bs h = ((True, int (min 7 (length bs))), h @ take 7 bs)"

definition seven_reader :: "u8 list reader" where
  "seven_reader n h = ((True, int (min (min 7 n) (length h)), \<lambda>i. h ! i), drop (min 7 n) h)"

lemma seven_streams: "writes_in_order id seven_writer" "reads_in_order id seven_reader"
  by (auto simp: writes_in_order_def reads_in_order_def seven_writer_def seven_reader_def min_def
      intro!: nth_equalityI)


text \<open>
  C32: A host cannot load a damaged session. Whatever a stream answers, a load that succeeds gives a
  configuration in range and a well-formed calibration.
\<close>

theorem loaded_session_valid:
  "case fst (load_vst3_state_with_calibration stream h) of
     None \<Rightarrow> True
   | Some (c, bank) \<Rightarrow> config_valid c \<and> valid_bank bank \<and> bank_shaped bank"
  using decoded_in_range decode_calibration_cases(2,3) valid_default_bank shaped_default_bank
  by (auto simp: load_vst3_state_with_calibration_def split: option.splits prod.splits)

subsection \<open>The loops end\<close>

text \<open>A reader together with the number of times it was called.\<close>

definition counted :: "'h reader \<Rightarrow> ('h \<times> nat) reader" where
  "counted read_call n hk = (case read_call n (fst hk) of (answer, h') \<Rightarrow> (answer, (h', snd hk + 1)))"

lemma counted_calls: "snd (snd (counted read_call n hk)) = snd hk + 1"
  by (simp add: counted_def case_prod_beta)

lemma read_eof_calls: "snd (snd (read_eof (counted read_call) hk)) = snd hk + 1"
  using counted_calls [of read_call 1 hk] by (simp add: read_eof_def case_prod_beta)

lemma read_exact_calls:
  "snd (snd (read_exact (counted read_call) n hk)) \<le> snd hk + n"
proof (induction n arbitrary: hk rule: less_induct)
  case (less n)
  obtain ok count data h' where c: "read_call n (fst hk) = ((ok, count, data), h')" by (metis prod.exhaust)
  then have c': "counted read_call n hk = ((ok, count, data), (h', snd hk + 1))" by (simp add: counted_def)
  show ?case
  proof (cases "n = 0 \<or> \<not> ok \<or> count \<le> 0 \<or> int n < count")
    case True
    then show ?thesis using c' by (auto simp: read_exact.simps [of "counted read_call" n hk])
  next
    case False
    then have "snd (snd (read_exact (counted read_call) (n - nat count) (h', snd hk + 1))) \<le> snd hk + 1 + (n - nat count)"
      using less [of "n - nat count" "(h', snd hk + 1)"] by simp
    moreover have "0 < nat count" "nat count \<le> n" using False by linarith+
    ultimately show ?thesis
      using False c' by (auto simp: read_exact.simps [of "counted read_call" n hk] case_prod_beta split: option.split)
  qed
qed

lemma read_bounded_calls:
  "snd (snd (read_bounded_to_eof (counted read_call) room hk)) \<le> snd hk + room + 1"
proof (induction room arbitrary: hk rule: less_induct)
  case (less room)
  obtain ok count data h' where c: "read_call room (fst hk) = ((ok, count, data), h')" by (metis prod.exhaust)
  then have c': "counted read_call room hk = ((ok, count, data), (h', snd hk + 1))" by (simp add: counted_def)
  show ?case
  proof (cases "room = 0 \<or> \<not> ok \<or> count \<le> 0 \<or> int room < count")
    case True
    then show ?thesis
      using c' read_eof_calls [of read_call hk]
      by (auto simp: read_bounded_to_eof.simps [of "counted read_call" room hk] case_prod_beta)
  next
    case False
    then have "snd (snd (read_bounded_to_eof (counted read_call) (room - nat count) (h', snd hk + 1)))
        \<le> snd hk + 1 + (room - nat count) + 1"
      using less [of "room - nat count" "(h', snd hk + 1)"] by simp
    moreover have "0 < nat count" "nat count \<le> room" using False by linarith+
    ultimately show ?thesis
      using False c'
      by (auto simp: read_bounded_to_eof.simps [of "counted read_call" room hk] case_prod_beta split: option.split)
  qed
qed

text \<open>
  C33: Loading always ends. Whatever a host stream answers (pieces of any size, errors, lies about counts),
  a load calls it at most once per byte of the largest session and once more for the end of the stream.
\<close>

theorem load_ends:
  "snd (snd (load_vst3_state_with_calibration (Some (counted read_call)) (h, 0)))
     \<le> kStateSize + kCalibrationStateSize + 1"
proof -
  let ?r = "read_exact (counted read_call) kStateSize (h, 0)"
  have 1: "snd (snd ?r) \<le> kStateSize" using read_exact_calls [of read_call kStateSize "(h, 0)"] by simp
  have 2: "snd (snd (read_bounded_to_eof (counted read_call) kCalibrationStateSize (snd ?r)))
      \<le> kStateSize + kCalibrationStateSize + 1"
    using read_bounded_calls [of read_call kCalibrationStateSize "snd ?r"] 1 by simp
  show ?thesis
    using 1 2 by (auto simp: load_vst3_state_with_calibration_def case_prod_beta split: option.split)
qed

end
