(* ===== verification/Dry_Path.thy ===== *)
theory Dry_Path
  imports Types_Model Float64_Mono
begin

unbundle bit_operations_syntax

text \<open>
  The audio path (\<open>src/native/plugin/dry_path.hpp\<close>): the choice of the detector's input and the copy of
  the dry signal. Buffers live in a memory from pointers to samples, because the host may pass the same
  buffers as input and output; an array of channels is the list of its pointers, none for a null one. The
  sample type is \<open>double\<close>; the \<open>float\<close> instance differs only in the width of the samples.
\<close>

type_synonym pointer = nat
type_synonym audio_memory = "pointer \<Rightarrow> f64 list"
type_synonym channels = "pointer option list"

record DryPathResult =
  dp_nonfinite_input :: bool
  dp_channels_processed :: nat
  dp_selected_peak :: f64
  dp_detector_left_gain :: f64
  dp_detector_right_gain :: f64
  dp_output_silence_flags :: u64

definition DryPathResult_default :: DryPathResult where
  "DryPathResult_default =
     \<lparr>dp_nonfinite_input = False, dp_channels_processed = 0, dp_selected_peak = 0,
      dp_detector_left_gain = 0, dp_detector_right_gain = 0, dp_output_silence_flags = 0\<rparr>"

definition silent_channel :: "u64 \<Rightarrow> nat \<Rightarrow> bool" where
  "silent_channel flags ch \<longleftrightarrow> flags AND push_bit ch 1 \<noteq> 0"

subsection \<open>The detector's input\<close>

definition input_available :: "channels \<Rightarrow> nat \<Rightarrow> bool" where
  "input_available input ch \<longleftrightarrow> input ! ch \<noteq> None"

definition sample_at :: "audio_memory \<Rightarrow> channels \<Rightarrow> nat \<Rightarrow> nat \<Rightarrow> f64" where
  "sample_at m input ch frame = m (the (input ! ch)) ! frame"

definition scanned :: "channels \<Rightarrow> u64 \<Rightarrow> nat \<Rightarrow> bool" where
  "scanned input flags ch \<longleftrightarrow> input_available input ch \<and> \<not> silent_channel flags ch"

text \<open>The scan of a channel: whether it holds a non-finite sample, and whether an audible one.\<close>

definition scan_channel :: "audio_memory \<Rightarrow> channels \<Rightarrow> nat \<Rightarrow> nat \<Rightarrow> bool \<times> bool" where
  "scan_channel m input frames ch =
     fold (\<lambda>frame (nonfinite, audible).
         let sample = sample_at m input ch frame
         in if \<not> is_finite sample then (True, audible)
            else if \<not> f64_eq sample 0 then (nonfinite, True) else (nonfinite, audible))
       [0..<frames] (False, False)"

definition scan_result :: "audio_memory \<Rightarrow> channels \<Rightarrow> nat \<Rightarrow> u64 \<Rightarrow> nat \<Rightarrow> bool \<times> bool" where
  "scan_result m input frames flags ch =
     (if scanned input flags ch then scan_channel m input frames ch else (False, False))"

definition detector_gains :: "nat \<Rightarrow> (nat \<Rightarrow> bool) \<Rightarrow> (nat \<Rightarrow> bool) \<Rightarrow> f64 \<times> f64" where
  "detector_gains channel_count available audible =
     (if channel_count = 1 \<and> available 0 then (1, 0)
      else if channel_count = 2 \<and> available 0 \<and> available 1
      then (if audible 0 \<and> audible 1 then (f64_rat 1 2, f64_rat 1 2)
            else if audible 1 then (0, 1) else (1, 0))
      else (0, 0))"

definition detector_sample :: "audio_memory \<Rightarrow> channels \<Rightarrow> u64 \<Rightarrow> nat \<Rightarrow> nat \<Rightarrow> nat \<Rightarrow> f64" where
  "detector_sample m input flags channel_count frame ch =
     (if ch < channel_count \<and> scanned input flags ch \<and> is_finite (sample_at m input ch frame)
      then sample_at m input ch frame else 0)"

definition analyze_detector_input :: "audio_memory \<Rightarrow> channels option \<Rightarrow> nat \<Rightarrow> u64 \<Rightarrow> DryPathResult" where
  "analyze_detector_input m inputs frames flags =
     (case inputs of
        None \<Rightarrow> DryPathResult_default
      | Some input \<Rightarrow>
          let channel_count = min 2 (length input);
              scans = map (scan_result m input frames flags) [0..<channel_count];
              (left, right) =
                detector_gains channel_count (input_available input) (\<lambda>ch. snd (scans ! ch));
              peak = fold (\<lambda>frame peak.
                  std_max peak \<bar>detector_sample m input flags channel_count frame 0 * left
                                + detector_sample m input flags channel_count frame 1 * right\<bar>)
                [0..<frames] 0
          in DryPathResult_default
               \<lparr>dp_channels_processed := length (filter (input_available input) [0..<channel_count]),
                dp_nonfinite_input := list_ex fst scans, dp_detector_left_gain := left,
                dp_detector_right_gain := right, dp_selected_peak := peak\<rparr>)"

subsection \<open>The dry signal\<close>

definition path_available :: "channels \<Rightarrow> channels \<Rightarrow> nat \<Rightarrow> bool" where
  "path_available input output_channels ch \<longleftrightarrow> input ! ch \<noteq> None \<and> output_channels ! ch \<noteq> None"

text \<open>The sample read for the output, and whether it was not finite.\<close>

definition raw_sample :: "audio_memory \<Rightarrow> channels \<Rightarrow> u64 \<Rightarrow> nat \<Rightarrow> nat \<Rightarrow> f64" where
  "raw_sample m input flags frame ch = (if silent_channel flags ch then 0 else sample_at m input ch frame)"

definition clean_sample :: "f64 \<Rightarrow> f64" where
  "clean_sample s = (if is_finite s then s else 0)"

text \<open>The memory, whether a non-finite sample was seen, and which channels got a sample other than 0.\<close>

type_synonym dry_state = "audio_memory \<times> bool \<times> (nat \<Rightarrow> bool)"

definition write_sample :: "bool \<Rightarrow> channels \<Rightarrow> (nat \<Rightarrow> f64) \<Rightarrow> nat \<Rightarrow> nat \<Rightarrow> dry_state \<Rightarrow> dry_state" where
  "write_sample passthrough output_channels samples frame ch s =
     (case s of (m, nonfinite, nonzero) \<Rightarrow>
        let p = the (output_channels ! ch)
        in (m(p := (m p)[frame := if passthrough then samples ch else 0]), nonfinite,
            nonzero(ch := nonzero ch \<or> passthrough \<and> \<not> f64_eq (samples ch) 0)))"

definition dry_frame ::
  "channels \<Rightarrow> channels \<Rightarrow> nat \<Rightarrow> u64 \<Rightarrow> bool \<Rightarrow> nat \<Rightarrow> dry_state \<Rightarrow> dry_state" where
  "dry_frame input output_channels channel_count flags passthrough frame s =
     (case s of (m, nonfinite, nonzero) \<Rightarrow>
        let used = filter (path_available input output_channels) [0..<channel_count];
            samples = (\<lambda>ch. clean_sample (raw_sample m input flags frame ch));
            nonfinite = (nonfinite \<or> list_ex (\<lambda>ch. \<not> is_finite (raw_sample m input flags frame ch)) used)
        in fold (write_sample passthrough output_channels samples frame) used (m, nonfinite, nonzero))"

definition silence_flags :: "(nat \<Rightarrow> bool) \<Rightarrow> nat list \<Rightarrow> u64" where
  "silence_flags nonzero used =
     fold (\<lambda>ch flags. if nonzero ch then flags else flags OR push_bit ch 1) used 0"

definition process_dry_path ::
  "audio_memory \<Rightarrow> channels option \<Rightarrow> channels option \<Rightarrow> nat \<Rightarrow> bool \<Rightarrow> u64 \<Rightarrow> DryPathResult \<times> audio_memory" where
  "process_dry_path m inputs outputs frames passthrough flags =
     (let result = analyze_detector_input m inputs frames flags in
      case (inputs, outputs) of
        (Some input, Some output_channels) \<Rightarrow>
          let channel_count = min 2 (min (length input) (length output_channels));
              used = filter (path_available input output_channels) [0..<channel_count];
              (m', nonfinite, nonzero) =
                fold (dry_frame input output_channels channel_count flags passthrough) [0..<frames]
                  (m, dp_nonfinite_input result, \<lambda>_. False)
          in (result\<lparr>dp_channels_processed := length used, dp_nonfinite_input := nonfinite,
                     dp_output_silence_flags := silence_flags nonzero used\<rparr>, m')
      | _ \<Rightarrow> (result, m))"

text \<open>
  What the dry path writes, for any aliasing of the host's buffers: the two channels of a frame are read
  before either is written, and a frame is only read in its own turn.
\<close>

definition dry_value :: "audio_memory \<Rightarrow> channels \<Rightarrow> u64 \<Rightarrow> bool \<Rightarrow> nat \<Rightarrow> nat \<Rightarrow> f64" where
  "dry_value m input flags passthrough frame ch =
     (if passthrough then clean_sample (raw_sample m input flags frame ch) else 0)"

lemma clean_finite: "is_finite (clean_sample s)"
  by (simp add: clean_sample_def is_finite_def)

lemma dry_value_finite: "is_finite (dry_value m input flags passthrough frame ch)"
  by (simp add: dry_value_def clean_finite) (simp add: is_finite_def)

text \<open>The writes of one frame.\<close>

lemma write_samples:
  assumes "distinct (map (\<lambda>ch. the (out ! ch)) chs)"
  shows "fst (fold (write_sample passthrough out samples frame) chs (m, nf, nz)) p
    = (case find (\<lambda>ch. the (out ! ch) = p) chs of
         None \<Rightarrow> m p | Some ch \<Rightarrow> (m p)[frame := if passthrough then samples ch else 0])"
  using assms
proof (induction chs arbitrary: m nz)
  case (Cons ch chs)
  let ?q = "the (out ! ch)"
  have "the (out ! x) \<noteq> ?q" if "x \<in> set chs" for x
    using Cons.prems imageI [OF that, of "\<lambda>ch. the (out ! ch)"] by auto
  then have none: "find (\<lambda>ch. the (out ! ch) = ?q) chs = None" by (auto simp: find_None_iff)
  define stored where "stored = (\<lambda>ch. if passthrough then samples ch else 0)"
  define m1 where "m1 = m(?q := (m ?q)[frame := stored ch])"
  obtain nz' where step: "write_sample passthrough out samples frame ch (m, nf, nz) = (m1, nf, nz')"
    by (simp add: write_sample_def Let_def stored_def m1_def)
  have ih: "fst (fold (write_sample passthrough out samples frame) chs (m1, nf, nz')) p
    = (case find (\<lambda>ch. the (out ! ch) = p) chs of None \<Rightarrow> m1 p | Some c \<Rightarrow> (m1 p)[frame := stored c])"
    unfolding stored_def using Cons.prems by (intro Cons.IH) simp
  have st: "(if passthrough then samples c else 0) = stored c" for c by (simp add: stored_def)
  show ?case
    unfolding st using none
    by (cases "?q = p") (simp_all add: step ih, simp_all add: m1_def split: option.split)
qed simp

abbreviation path_channels :: "channels \<Rightarrow> channels \<Rightarrow> nat \<Rightarrow> nat list" where
  "path_channels input out n \<equiv> filter (path_available input out) [0..<n]"

text \<open>
  The memory after some frames: an output buffer has the new values up to there and its old ones after it,
  every other buffer is as it was.
\<close>

definition dried :: "audio_memory \<Rightarrow> channels \<Rightarrow> channels \<Rightarrow> nat \<Rightarrow> u64 \<Rightarrow> bool \<Rightarrow> nat \<Rightarrow> audio_memory \<Rightarrow> bool" where
  "dried m input out n flags passthrough k m' \<longleftrightarrow>
     (\<forall>p. length (m' p) = length (m p)
        \<and> (\<forall>i. i < length (m p) \<longrightarrow> m' p ! i =
             (case find (\<lambda>ch. the (out ! ch) = p) (path_channels input out n) of
                None \<Rightarrow> m p ! i
              | Some ch \<Rightarrow> if i < k then dry_value m input flags passthrough i ch else m p ! i)))"

lemma dried_frame:
  assumes "dried m input out n flags passthrough k m1"
    "distinct (map (\<lambda>ch. the (out ! ch)) (path_channels input out n))" "\<And>p. k < length (m p)"
  shows "dried m input out n flags passthrough (Suc k)
    (fst (dry_frame input out n flags passthrough k (m1, nf, nz)))"
proof -
  have same: "raw_sample m1 input flags k ch = raw_sample m input flags k ch" for ch
    using assms(1,3) unfolding dried_def raw_sample_def sample_at_def by (auto split: option.split)
  note w = write_samples [OF assms(2)]
  let ?m2 = "fst (dry_frame input out n flags passthrough k (m1, nf, nz))"
  have m2: "?m2 p = (case find (\<lambda>ch. the (out ! ch) = p) (path_channels input out n) of
      None \<Rightarrow> m1 p | Some ch \<Rightarrow> (m1 p)[k := dry_value m input flags passthrough k ch])" for p
    unfolding dry_frame_def Let_def prod.case w same dry_value_def by (rule refl)
  have len: "length (m1 p) = length (m p)" for p using assms(1) by (simp add: dried_def)
  have at: "m1 p ! i = (case find (\<lambda>ch. the (out ! ch) = p) (path_channels input out n) of
                None \<Rightarrow> m p ! i
              | Some ch \<Rightarrow> if i < k then dry_value m input flags passthrough i ch else m p ! i)" if "i < length (m p)" for p i
    using assms(1) that unfolding dried_def by blast
  show ?thesis
    unfolding dried_def m2
  proof (intro allI conjI impI)
    fix p
    show "length (case find (\<lambda>ch. the (out ! ch) = p) (path_channels input out n) of
        None \<Rightarrow> m1 p | Some ch \<Rightarrow> (m1 p)[k := dry_value m input flags passthrough k ch]) = length (m p)"
      using len by (simp split: option.split)
    fix i assume "i < length (m p)"
    then show "(case find (\<lambda>ch. the (out ! ch) = p) (path_channels input out n) of
        None \<Rightarrow> m1 p | Some ch \<Rightarrow> (m1 p)[k := dry_value m input flags passthrough k ch]) ! i =
      (case find (\<lambda>ch. the (out ! ch) = p) (path_channels input out n) of
                None \<Rightarrow> m p ! i
              | Some ch \<Rightarrow> if i < Suc k then dry_value m input flags passthrough i ch else m p ! i)"
      using at [of i p] len by (auto simp: nth_list_update less_Suc_eq split: option.split)
  qed
qed

lemma dried_all:
  assumes "distinct (map (\<lambda>ch. the (out ! ch)) (path_channels input out n))" "\<And>p. k \<le> length (m p)"
  shows "dried m input out n flags passthrough k
    (fst (fold (dry_frame input out n flags passthrough) [0..<k] (m, nf, nz)))"
  using assms(2)
proof (induction k)
  case 0
  show ?case by (simp add: dried_def split: option.split)
next
  case (Suc k)
  let ?s = "fold (dry_frame input out n flags passthrough) [0..<k] (m, nf, nz)"
  obtain m1 nf1 nz1 where s: "?s = (m1, nf1, nz1)" by (metis prod_cases3)
  have "k < length (m p)" for p using Suc.prems [of p] by simp
  moreover have "dried m input out n flags passthrough k m1"
    using Suc.IH Suc.prems s by (simp add: Suc_leD)
  ultimately show ?case using s dried_frame [OF _ assms(1), of m flags passthrough k m1 nf1 nz1] by simp
qed

lemma find_distinct:
  assumes "distinct (map f xs)" "x \<in> set xs"
  shows "find (\<lambda>y. f y = f x) xs = Some x"
  using assms by (induction xs) (auto simp: image_iff)


text \<open>Both channels in place, and crossed.\<close>

definition two_buffers :: audio_memory where
  "two_buffers p = (if p = 0 then [1, f64_infinity False] else [- 1, f64_of_int 3])"


end
