(* ===== verification/Clap_Interface.thy ===== *)
theory Clap_Interface
  imports Parameter_Contract State_Streams Dry_Path Midi_Pipeline
begin

unbundle bit_operations_syntax

text \<open>
  What the CLAP plugin object shows a host and what it reads from it: the descriptions of its ports
  (\<open>plugin/clap_adapter.cpp\<close>) and parameters (\<open>plugin/clap_parameter_bridge.cpp\<close>), the layouts of the
  audio buffers, and the parameter events of an input list. Constants and structure layouts of the CLAP
  interface are those of its published headers.
\<close>

subsection \<open>Names and ports\<close>

definition CLAP_NAME_SIZE :: nat where "CLAP_NAME_SIZE = 256"

text \<open>The C string left in the destination; the loop stops at the capacity or the source's end.\<close>

definition copy_name :: "nat \<Rightarrow> string \<Rightarrow> string option" where
  "copy_name room source = (if room = 0 then None else Some (take (room - 1) source))"

record AudioPortInfo =
  ap_id :: u32
  ap_name :: "string option"
  ap_flags :: u32
  ap_channel_count :: u32
  ap_port_type :: string
  ap_in_place_pair :: u32

definition CLAP_AUDIO_PORT_IS_MAIN :: u32 where "CLAP_AUDIO_PORT_IS_MAIN = 1"
definition CLAP_AUDIO_PORT_SUPPORTS_64BITS :: u32 where "CLAP_AUDIO_PORT_SUPPORTS_64BITS = 2"
definition CLAP_AUDIO_PORT_REQUIRES_COMMON_SAMPLE_SIZE :: u32 where
  "CLAP_AUDIO_PORT_REQUIRES_COMMON_SAMPLE_SIZE = 8"
definition CLAP_NOTE_DIALECT_MIDI :: u32 where "CLAP_NOTE_DIALECT_MIDI = 2"

definition audio_port_count :: u32 where "audio_port_count = 1"
definition note_port_count :: u32 where "note_port_count = 1"
definition latency_get :: u32 where "latency_get = 0"

text \<open>\<open>has_info\<close> says that the host's \<open>info\<close> is not null; none is the answer false.\<close>

definition audio_port_get :: "u32 \<Rightarrow> bool \<Rightarrow> bool \<Rightarrow> AudioPortInfo option" where
  "audio_port_get index is_input has_info =
     (if index \<noteq> 0 \<or> \<not> has_info then None
      else Some \<lparr>ap_id = 0,
        ap_name = copy_name CLAP_NAME_SIZE (if is_input then ''Stereo Input'' else ''Stereo Output''),
        ap_flags = CLAP_AUDIO_PORT_IS_MAIN OR CLAP_AUDIO_PORT_SUPPORTS_64BITS
          OR CLAP_AUDIO_PORT_REQUIRES_COMMON_SAMPLE_SIZE,
        ap_channel_count = 2, ap_port_type = ''stereo'', ap_in_place_pair = 0\<rparr>)"

record NotePortInfo =
  np_id :: u32
  np_supported_dialects :: u32
  np_preferred_dialect :: u32
  np_name :: "string option"

definition note_port_get :: "u32 \<Rightarrow> bool \<Rightarrow> bool \<Rightarrow> NotePortInfo option" where
  "note_port_get index is_input has_info =
     (if index \<noteq> 0 \<or> \<not> has_info then None
      else Some \<lparr>np_id = 0, np_supported_dialects = CLAP_NOTE_DIALECT_MIDI,
        np_preferred_dialect = CLAP_NOTE_DIALECT_MIDI,
        np_name = copy_name CLAP_NAME_SIZE (if is_input then ''MIDI Input'' else ''MIDI Output'')\<rparr>)"

datatype ClapExtension = ext_audio_ports | ext_note_ports | ext_latency | ext_params | ext_state

definition plugin_get_extension :: "string option \<Rightarrow> ClapExtension option" where
  "plugin_get_extension eid =
     (case eid of
        None \<Rightarrow> None
      | Some s \<Rightarrow>
          if s = ''clap.audio-ports'' then Some ext_audio_ports
          else if s = ''clap.note-ports'' then Some ext_note_ports
          else if s = ''clap.latency'' then Some ext_latency
          else if s = ''clap.params'' then Some ext_params
          else if s = ''clap.state'' then Some ext_state
          else None)"

subsection \<open>Parameters\<close>

definition CLAP_PARAM_IS_STEPPED :: u32 where "CLAP_PARAM_IS_STEPPED = push_bit 0 1"
definition CLAP_PARAM_IS_READONLY :: u32 where "CLAP_PARAM_IS_READONLY = push_bit 3 1"
definition CLAP_PARAM_REQUIRES_PROCESS :: u32 where "CLAP_PARAM_REQUIRES_PROCESS = push_bit 15 1"
definition CLAP_PARAM_IS_ENUM :: u32 where "CLAP_PARAM_IS_ENUM = push_bit 16 1"

definition clap_parameter_flags :: "ParameterSpec \<Rightarrow> u32" where
  "clap_parameter_flags spec =
     (let flags = 0;
          flags = (if ps_step_count spec \<noteq> 0 then flags OR CLAP_PARAM_IS_STEPPED else flags);
          flags = (if ps_list spec then flags OR CLAP_PARAM_IS_ENUM else flags)
      in if ps_read_only spec then flags OR CLAP_PARAM_IS_READONLY
         else flags OR CLAP_PARAM_REQUIRES_PROCESS)"

record ClapParamInfo =
  ci_id :: u32
  ci_flags :: u32
  ci_name :: string
  ci_module :: string
  ci_min_value :: f64
  ci_max_value :: f64
  ci_default_value :: f64

definition clap_parameter_info :: "nat \<Rightarrow> ClapParamInfo option" where
  "clap_parameter_info index =
     (case parameter_spec index of
        None \<Rightarrow> None
      | Some spec \<Rightarrow>
          (case ps_name spec of
             None \<Rightarrow> None
           | Some name \<Rightarrow>
               if CLAP_NAME_SIZE \<le> length name then None
               else Some \<lparr>ci_id = ps_id spec, ci_flags = clap_parameter_flags spec, ci_name = name,
                 ci_module = [], ci_min_value = ps_minimum spec, ci_max_value = ps_maximum spec,
                 ci_default_value = ps_default_value spec\<rparr>))"

definition params_count :: u32 where "params_count = of_nat parameter_count"

definition params_get_info :: "u32 \<Rightarrow> bool \<Rightarrow> ClapParamInfo option" where
  "params_get_info index has_info = (if has_info then clap_parameter_info (unat index) else None)"

definition params_value_to_text :: "u32 \<Rightarrow> f64 \<Rightarrow> nat option \<Rightarrow> text_result" where
  "params_value_to_text pid value out = parameter_value_to_text pid value out"

definition params_text_to_value ::
  "(string \<Rightarrow> f64 \<times> nat) \<Rightarrow> u32 \<Rightarrow> string option \<Rightarrow> bool \<Rightarrow> f64 option" where
  "params_text_to_value strtod pid text has_value =
     (if has_value then parameter_text_to_value strtod pid text else None)"

subsection \<open>Parameter events\<close>

text \<open>
  A \<open>clap_event_param_value\<close>: \<open>ce_payload\<close> holds its bytes after the 16 bytes of the header, in the
  layout of a 64-bit little-endian machine (the parameter, the cookie pointer, the note, port, channel
  and key, the value).
\<close>

definition CLAP_EVENT_PARAM_VALUE :: u16 where "CLAP_EVENT_PARAM_VALUE = 5"
definition sizeof_clap_event_param_value :: u32 where "sizeof_clap_event_param_value = 56"

definition pv_param_id :: "ClapEvent \<Rightarrow> u32" where "pv_param_id e = get_u32 (ce_payload e) 0"
definition pv_note_id :: "ClapEvent \<Rightarrow> u32" where "pv_note_id e = get_u32 (ce_payload e) 16"
definition pv_port_index :: "ClapEvent \<Rightarrow> u16" where "pv_port_index e = get_u16 (ce_payload e) 20"
definition pv_channel :: "ClapEvent \<Rightarrow> u16" where "pv_channel e = get_u16 (ce_payload e) 22"
definition pv_key :: "ClapEvent \<Rightarrow> u16" where "pv_key e = get_u16 (ce_payload e) 24"
definition pv_value :: "ClapEvent \<Rightarrow> f64" where "pv_value e = F64 (get_u64 (ce_payload e) 32)"

record ParameterBatchResult =
  br_changed :: bool
  br_structural :: bool
  br_panic :: bool
  br_panic_offset :: u32

definition ParameterBatchResult_default :: ParameterBatchResult where
  "ParameterBatchResult_default =
     \<lparr>br_changed = False, br_structural = False, br_panic = False, br_panic_offset = 0\<rparr>"

text \<open>An event that sets a parameter of the whole plugin.\<close>

definition is_param_value :: "ClapEvent \<Rightarrow> bool" where
  "is_param_value e \<longleftrightarrow>
     \<not> (ce_space_id e \<noteq> CLAP_CORE_EVENT_SPACE_ID \<or> ce_type e \<noteq> CLAP_EVENT_PARAM_VALUE
        \<or> ce_size e < sizeof_clap_event_param_value)
     \<and> \<not> (pv_note_id e \<noteq> -1 \<or> pv_port_index e \<noteq> -1 \<or> pv_channel e \<noteq> -1 \<or> pv_key e \<noteq> -1)"

definition apply_parameter_event ::
  "u32 \<Rightarrow> ClapEvent \<Rightarrow> PersistentConfig \<times> ParameterBatchResult \<Rightarrow> PersistentConfig \<times> ParameterBatchResult" where
  "apply_parameter_event frames e cb =
     (case cb of (config, batch) \<Rightarrow>
        let (result, config') = apply_parameter config (pv_param_id e) (pv_value e)
        in if result = apply_panic
           then (config', batch\<lparr>br_panic := True,
                   br_panic_offset := if frames = 0 then 0 else min (ce_time e) (frames - 1)\<rparr>)
           else if result = apply_changed
           then (config', batch\<lparr>br_changed := True,
                   br_structural := br_structural batch
                     \<or> (case find_parameter (pv_param_id e) of
                          None \<Rightarrow> False
                        | Some spec \<Rightarrow> ps_update_class spec = structural)\<rparr>)
           else (config', batch))"

text \<open>The loop, for the event at an index; null events and other kinds are skipped.\<close>

definition apply_event_at ::
  "ClapInputEvents \<Rightarrow> u32 \<Rightarrow> nat \<Rightarrow> PersistentConfig \<times> ParameterBatchResult \<Rightarrow> PersistentConfig \<times> ParameterBatchResult" where
  "apply_event_at input frames index cb =
     (case in_get input (of_nat index) of
        None \<Rightarrow> cb
      | Some e \<Rightarrow> if is_param_value e then apply_parameter_event frames e cb else cb)"

definition apply_parameter_events_to ::
  "PersistentConfig \<Rightarrow> ClapInputEvents option \<Rightarrow> u32 \<Rightarrow> PersistentConfig \<times> ParameterBatchResult" where
  "apply_parameter_events_to config input frames =
     (case input of
        None \<Rightarrow> (config, ParameterBatchResult_default)
      | Some i \<Rightarrow> fold (apply_event_at i frames) [0..<unat (in_size i)] (config, ParameterBatchResult_default))"

subsection \<open>Audio buffers\<close>

text \<open>
  A buffer's channel pointers for each sample width, none for a null array, and the channel count; a
  32-bit sample is represented by the double it converts to.
\<close>

record ClapAudioBuffer =
  ab_data32 :: "channels option"
  ab_data64 :: "channels option"
  ab_channel_count :: u32

definition exact_float32_layout :: "ClapAudioBuffer \<Rightarrow> ClapAudioBuffer \<Rightarrow> bool" where
  "exact_float32_layout input out \<longleftrightarrow>
     ab_data32 input \<noteq> None \<and> ab_data64 input = None \<and> ab_data32 out \<noteq> None \<and> ab_data64 out = None"

definition exact_float64_layout :: "ClapAudioBuffer \<Rightarrow> ClapAudioBuffer \<Rightarrow> bool" where
  "exact_float64_layout input out \<longleftrightarrow>
     ab_data64 input \<noteq> None \<and> ab_data32 input = None \<and> ab_data64 out \<noteq> None \<and> ab_data32 out = None"

definition buffer_channels :: "bool \<Rightarrow> ClapAudioBuffer \<Rightarrow> channels option" where
  "buffer_channels float32 b =
     map_option (take (unat (ab_channel_count b))) (if float32 then ab_data32 b else ab_data64 b)"

definition process_typed ::
  "bool \<Rightarrow> audio_memory \<Rightarrow> ClapAudioBuffer \<Rightarrow> ClapAudioBuffer \<Rightarrow> u32 \<Rightarrow> bool \<Rightarrow> DryPathResult \<times> audio_memory" where
  "process_typed float32 m input out frames passthrough =
     process_dry_path m (buffer_channels float32 input) (buffer_channels float32 out) (unat frames) passthrough 0"

text \<open>One block of the host; an array of buffers is none for a null pointer.\<close>

record 'h ClapProcess =
  cp_frames :: u32
  cp_audio_inputs :: "ClapAudioBuffer list option"
  cp_audio_outputs :: "ClapAudioBuffer list option"
  cp_in_events :: "ClapInputEvents option"
  cp_out_events :: "'h try_push_fun option"

end
