(* ===== verification/Probe_Processor.thy ===== *)
theory Probe_Processor
  imports Clap_Interface
begin

unbundle bit_operations_syntax

text \<open>
  The probe of the diagnostic CLAP build (\<open>plugin/probe_processor.cpp\<close>): it counts the host's calls, notes
  which buffer layouts were seen, tests the dry path at activation, and turns the controller 119 into
  generated notes, the only notes the CLAP object queues by itself. Writing the report to a file is not
  modelled, its lines are.
\<close>

record ProbeProcessor =
  pb_create :: u32
  pb_init :: u32
  pb_activate :: u32
  pb_start :: u32
  pb_reset :: u32
  pb_stop :: u32
  pb_deactivate :: u32
  pb_destroy :: u32
  pb_trigger_one :: u32
  pb_trigger_two :: u32
  pb_trigger_overflow :: u32
  pb_float32_seen :: bool
  pb_float64_seen :: bool
  pb_alias_seen :: bool
  pb_separate_seen :: bool
  pb_self_test_alias_passed :: bool
  pb_self_test_separate_passed :: bool
  pb_next_sequence :: u32

definition ProbeProcessor_default :: ProbeProcessor where
  "ProbeProcessor_default =
     \<lparr>pb_create = 0, pb_init = 0, pb_activate = 0, pb_start = 0, pb_reset = 0, pb_stop = 0,
      pb_deactivate = 0, pb_destroy = 0, pb_trigger_one = 0, pb_trigger_two = 0,
      pb_trigger_overflow = 0, pb_float32_seen = False, pb_float64_seen = False,
      pb_alias_seen = False, pb_separate_seen = False, pb_self_test_alias_passed = False,
      pb_self_test_separate_passed = False, pb_next_sequence = 0\<rparr>"

subsection \<open>Counters and self test\<close>

definition record_create :: "ProbeProcessor \<Rightarrow> ProbeProcessor" where
  "record_create p = p\<lparr>pb_create := pb_create p + 1\<rparr>"

definition record_init :: "ProbeProcessor \<Rightarrow> ProbeProcessor" where
  "record_init p = p\<lparr>pb_init := pb_init p + 1\<rparr>"

definition record_start :: "ProbeProcessor \<Rightarrow> ProbeProcessor" where
  "record_start p = p\<lparr>pb_start := pb_start p + 1\<rparr>"

definition record_reset :: "ProbeProcessor \<Rightarrow> ProbeProcessor" where
  "record_reset p = p\<lparr>pb_reset := pb_reset p + 1\<rparr>"

definition record_stop :: "ProbeProcessor \<Rightarrow> ProbeProcessor" where
  "record_stop p = p\<lparr>pb_stop := pb_stop p + 1\<rparr>"

definition record_deactivate :: "ProbeProcessor \<Rightarrow> ProbeProcessor" where
  "record_deactivate p = p\<lparr>pb_deactivate := pb_deactivate p + 1\<rparr>"

definition record_destroy :: "ProbeProcessor \<Rightarrow> ProbeProcessor" where
  "record_destroy p = p\<lparr>pb_destroy := pb_destroy p + 1\<rparr>"

text \<open>Four samples per channel; the outputs are the inputs' buffers or two zeroed ones.\<close>

definition self_test_left :: "f64 list" where
  "self_test_left = [- f64_rat 3 4, - f64_rat 1 4, f64_rat 1 4, f64_rat 3 4]"

definition self_test_right :: "f64 list" where
  "self_test_right = [f64_rat 1 2, f64_rat 1 8, - f64_rat 3 8, - f64_rat 7 8]"

definition self_test_memory :: audio_memory where
  "self_test_memory p =
     (if p = 0 then self_test_left else if p = 1 then self_test_right else replicate 4 0)"

definition dry_path_self_test :: "bool \<Rightarrow> bool" where
  "dry_path_self_test is_alias =
     (let out_left = (if is_alias then 0 else 2); out_right = (if is_alias then 1 else 3);
          (result, m) = process_dry_path self_test_memory (Some [Some 0, Some 1])
             (Some [Some out_left, Some out_right]) 4 True 0
      in if dp_nonfinite_input result \<or> dp_channels_processed result \<noteq> 2 then False
         else list_all (\<lambda>frame. f64_eq (m out_left ! frame) (self_test_left ! frame)
                \<and> f64_eq (m out_right ! frame) (self_test_right ! frame)) [0..<4])"

definition record_activate :: "ProbeProcessor \<Rightarrow> bool \<times> ProbeProcessor" where
  "record_activate p =
     (let alias_passed = dry_path_self_test True; separate_passed = dry_path_self_test False
      in (alias_passed \<and> separate_passed,
          p\<lparr>pb_activate := pb_activate p + 1, pb_self_test_alias_passed := alias_passed,
            pb_self_test_separate_passed := separate_passed\<rparr>))"

subsection \<open>Buffer layouts\<close>

text \<open>Two channels with pointers that are not null.\<close>

definition stereo_pointers :: "bool \<Rightarrow> ClapAudioBuffer \<Rightarrow> (pointer \<times> pointer) option" where
  "stereo_pointers float32 b =
     (case (if float32 then ab_data32 b else ab_data64 b) of
        Some (Some l # Some r # _) \<Rightarrow> Some (l, r)
      | _ \<Rightarrow> None)"

definition buffers_alias :: "ClapAudioBuffer \<Rightarrow> ClapAudioBuffer \<Rightarrow> bool \<Rightarrow> bool" where
  "buffers_alias input out float32 \<longleftrightarrow>
     ab_channel_count input = 2 \<and> ab_channel_count out = 2
     \<and> stereo_pointers float32 input \<noteq> None \<and> stereo_pointers float32 out = stereo_pointers float32 input"

definition record_process :: "'h ClapProcess \<Rightarrow> ProbeProcessor \<Rightarrow> ProbeProcessor" where
  "record_process process p =
     (case (cp_audio_inputs process, cp_audio_outputs process) of
        (Some [input], Some [out]) \<Rightarrow>
          let float32 = exact_float32_layout input out; float64 = exact_float64_layout input out
          in if \<not> float32 \<and> \<not> float64 then p
             else if ab_channel_count input \<noteq> 2 \<or> ab_channel_count out \<noteq> 2
               \<or> stereo_pointers float32 input = None \<or> stereo_pointers float32 out = None then p
             else let p = (if float32 then p\<lparr>pb_float32_seen := True\<rparr> else p);
                      p = (if float64 then p\<lparr>pb_float64_seen := True\<rparr> else p)
                  in if buffers_alias input out float32 then p\<lparr>pb_alias_seen := True\<rparr>
                     else p\<lparr>pb_separate_seen := True\<rparr>
      | _ \<Rightarrow> p)"

subsection \<open>Triggers\<close>

definition kTriggerController :: u8 where "kTriggerController = 119"
definition kGeneratedVelocity :: u8 where "kGeneratedVelocity = 100"
definition kMaxProbeInputEvents :: nat where "kMaxProbeInputEvents = 256"

text \<open>A \<open>clap_event_midi\<close>: after the header the port index and three data bytes.\<close>

definition midi_port_index :: "ClapEvent \<Rightarrow> u16" where "midi_port_index e = get_u16 (ce_payload e) 0"
definition midi_data :: "ClapEvent \<Rightarrow> nat \<Rightarrow> u8" where "midi_data e i = ce_payload e ! (2 + i)"

definition is_trigger :: "ClapEvent option \<Rightarrow> ClapEvent option" where
  "is_trigger header =
     (case header of
        None \<Rightarrow> None
      | Some e \<Rightarrow>
          if ce_space_id e \<noteq> CLAP_CORE_EVENT_SPACE_ID \<or> ce_type e \<noteq> CLAP_EVENT_MIDI
             \<or> ce_size e < sizeof_clap_event_midi then None
          else if midi_port_index e = 0 \<and> midi_data e 0 AND 0xF0 = 0xB0
             \<and> midi_data e 1 = kTriggerController \<and> (midi_data e 2 = 1 \<or> midi_data e 2 = 2)
          then Some e else None)"

definition count_overflow :: "ProbeProcessor \<Rightarrow> ProbeProcessor" where
  "count_overflow p = p\<lparr>pb_trigger_overflow := pb_trigger_overflow p + 1\<rparr>"

text \<open>The first loop: whether the notes of all triggers end in the block and fit the queue.\<close>

fun triggers_fit :: "ClapInputEvents \<Rightarrow> u32 \<Rightarrow> nat \<Rightarrow> nat list \<Rightarrow> nat \<Rightarrow> bool" where
  "triggers_fit input frames room [] generated_count = True"
| "triggers_fit input frames room (index # rest) generated_count =
     (case is_trigger (in_get input (of_nat index)) of
        None \<Rightarrow> triggers_fit input frames room rest generated_count
      | Some e \<Rightarrow>
          let required_tail = (if midi_data e 2 = 1 then 3 else 1)
          in if frames \<le> ce_time e \<or> frames - ce_time e \<le> required_tail then False
             else let generated_count = generated_count + (if midi_data e 2 = 1 then 2 else 1)
                  in if room < generated_count then False
                     else triggers_fit input frames room rest generated_count)"

definition probe_transition :: "u32 \<Rightarrow> TransitionKind \<Rightarrow> u8 \<Rightarrow> u8 \<Rightarrow> u32 \<Rightarrow> VoiceTransition" where
  "probe_transition offset kind note velocity sequence =
     \<lparr>vt_sample_offset = offset, vt_kind = kind, vt_note = note, vt_velocity = velocity,
      vt_sequence = sequence, vt_voice_id = kUnassignedVoiceId\<rparr>"

text \<open>One queued transition, which takes the next sequence number.\<close>

definition probe_queue ::
  "u32 \<Rightarrow> TransitionKind \<Rightarrow> u8 \<Rightarrow> u8 \<Rightarrow> u32 \<Rightarrow> ProbeProcessor \<times> MidiPipeline \<Rightarrow> bool \<times> ProbeProcessor \<times> MidiPipeline" where
  "probe_queue offset kind note velocity frames pP =
     (case pP of (p, P) \<Rightarrow>
        let (ok, P) = pipeline_queue_transition (probe_transition offset kind note velocity (pb_next_sequence p)) frames P
        in (ok, p\<lparr>pb_next_sequence := pb_next_sequence p + 1\<rparr>, P))"

definition trigger_notes :: "ClapEvent \<Rightarrow> u32 \<Rightarrow> ProbeProcessor \<times> MidiPipeline \<Rightarrow> bool \<times> ProbeProcessor \<times> MidiPipeline" where
  "trigger_notes e frames pP =
     (case pP of (p, P) \<Rightarrow>
        if midi_data e 2 = 1
        then (case probe_queue (ce_time e + 1) note_on 60 kGeneratedVelocity frames
                     (p\<lparr>pb_trigger_one := pb_trigger_one p + 1\<rparr>, P) of
                (False, pP') \<Rightarrow> (False, pP')
              | (True, pP') \<Rightarrow> probe_queue (ce_time e + 3) note_off 60 0 frames pP')
        else probe_queue (ce_time e + 1) note_on 61 kGeneratedVelocity frames
               (p\<lparr>pb_trigger_two := pb_trigger_two p + 1\<rparr>, P))"

fun queue_triggers ::
  "ClapInputEvents \<Rightarrow> u32 \<Rightarrow> nat list \<Rightarrow> ProbeProcessor \<times> MidiPipeline \<Rightarrow> bool \<times> ProbeProcessor \<times> MidiPipeline" where
  "queue_triggers input frames [] pP = (True, pP)"
| "queue_triggers input frames (index # rest) pP =
     (case is_trigger (in_get input (of_nat index)) of
        None \<Rightarrow> queue_triggers input frames rest pP
      | Some e \<Rightarrow>
          (case trigger_notes e frames pP of
             (False, p, P) \<Rightarrow> (False, count_overflow p, P)
           | (True, pP') \<Rightarrow> queue_triggers input frames rest pP'))"

definition queue_trigger_transitions ::
  "ClapInputEvents option \<Rightarrow> u32 \<Rightarrow> ProbeProcessor \<times> MidiPipeline \<Rightarrow> bool \<times> ProbeProcessor \<times> MidiPipeline" where
  "queue_trigger_transitions input frames pP =
     (case (input, pP) of
        (None, _) \<Rightarrow> (True, pP)
      | (Some i, p, P) \<Rightarrow>
          if kMaxProbeInputEvents < unat (in_size i) \<or> frames = 0 then (False, count_overflow p, P)
          else if \<not> triggers_fit i frames (capacity (mp_ledger P)) [0..<unat (in_size i)] 0
          then (False, count_overflow p, P)
          else queue_triggers i frames [0..<unat (in_size i)] (p, P))"

subsection \<open>Report\<close>

definition metric_flag :: "bool \<Rightarrow> u32" where "metric_flag b = (if b then 1 else 0)"

definition report_metrics :: "ProbeProcessor \<Rightarrow> (string \<times> u32) list" where
  "report_metrics p =
     [(''schema'', 1), (''create'', pb_create p), (''init'', pb_init p), (''activate'', pb_activate p),
      (''start'', pb_start p), (''reset'', pb_reset p), (''stop'', pb_stop p),
      (''deactivate'', pb_deactivate p), (''destroy'', pb_destroy p),
      (''CC119_trigger_one'', pb_trigger_one p), (''CC119_trigger_two'', pb_trigger_two p),
      (''trigger_overflow'', pb_trigger_overflow p), (''float32_seen'', metric_flag (pb_float32_seen p)),
      (''float64_seen'', metric_flag (pb_float64_seen p)), (''alias_seen'', metric_flag (pb_alias_seen p)),
      (''separate_seen'', metric_flag (pb_separate_seen p)),
      (''self_test_alias_passed'', metric_flag (pb_self_test_alias_passed p)),
      (''self_test_separate_passed'', metric_flag (pb_self_test_separate_passed p))]"

end
