(* ===== verification/Clap_Adapter.thy ===== *)
theory Clap_Adapter
  imports Probe_Processor Config_Request
begin

text \<open>
  The CLAP plugin object (\<open>plugin/clap_adapter.cpp\<close>, struct \<open>Adapter\<close>): one definition per host callback,
  over the records of the components it drives. The lock-free operations run without interference here
  (\<open>run\<close>); their interleavings are the subject of \<open>Config_Exchange\<close> and \<open>Config_Request\<close>. The allocator and
  the host are arguments; what the plugin asks of the host is appended to \<open>ad_host_calls\<close>. \<open>ad_probe\<close> is
  there in the diagnostic build; the test hooks are not modelled.
\<close>

datatype Lifecycle = lifecycle_created | lifecycle_initialized | lifecycle_active | lifecycle_processing

datatype HostCall = host_request_callback | host_rescan_values

text \<open>
  The host: which of its pointers are null, and what its \<open>get_extension\<close> answers for the parameter
  extension (none for null, else whether \<open>rescan\<close> is there).
\<close>

record ClapHost =
  ch_compatible :: bool
  ch_name :: "string option"
  ch_version :: "string option"
  ch_request_callback :: bool
  ch_get_extension :: bool
  ch_params :: "bool option"

record Adapter =
  ad_host :: ClapHost
  ad_host_calls :: "HostCall list"
  ad_lifecycle :: Lifecycle
  ad_status :: Status
  ad_values_dirty :: bool
  ad_host_params :: "bool option"
  ad_main_config :: PersistentConfig
  ad_config_request :: AtomicConfigRequest
  ad_generation_counter :: u64
  ad_requested_structural_generation :: u64
  ad_reconfiguration_pending :: bool
  ad_main_generation :: u64
  ad_audio_requested_config :: PersistentConfig
  ad_audio_request_generation :: u64
  ad_active_config :: PersistentConfig
  ad_prepared_exchange :: PreparedConfigExchange
  ad_pending_prepared :: PreparedConfig
  ad_pending_prepared_generation :: u64
  ad_prepared_publication_pending :: bool
  ad_audio_publication_pending :: bool
  ad_pending_audio_structural :: bool
  ad_midi_pipeline :: MidiPipeline
  ad_release_channel_pending :: bool
  ad_sample_rate :: f64
  ad_min_frames :: u32
  ad_max_frames :: u32
  ad_panic_requested :: bool
  ad_panic_offset :: u32
  ad_probe :: "ProbeProcessor option"

text \<open>\<open>probe_build\<close> is the build with \<open>M3_PROBE_BUILD\<close>.\<close>

definition Adapter_init :: "bool \<Rightarrow> ClapHost \<Rightarrow> Adapter" where
  "Adapter_init probe_build host =
     \<lparr>ad_host = host, ad_host_calls = [], ad_lifecycle = lifecycle_created, ad_status = status_ready,
      ad_values_dirty = False, ad_host_params = None, ad_main_config = PersistentConfig_default,
      ad_config_request = AtomicConfigRequest_init PersistentConfig_default 1, ad_generation_counter = 1,
      ad_requested_structural_generation = 1, ad_reconfiguration_pending = False, ad_main_generation = 1,
      ad_audio_requested_config = PersistentConfig_default, ad_audio_request_generation = 1,
      ad_active_config = PersistentConfig_default, ad_prepared_exchange = PreparedConfigExchange_default,
      ad_pending_prepared = PreparedConfig_default, ad_pending_prepared_generation = 0,
      ad_prepared_publication_pending = False, ad_audio_publication_pending = False,
      ad_pending_audio_structural = False, ad_midi_pipeline = MidiPipeline_default,
      ad_release_channel_pending = False, ad_sample_rate = 0, ad_min_frames = 0, ad_max_frames = 0,
      ad_panic_requested = False, ad_panic_offset = 0,
      ad_probe = (if probe_build then Some (record_create ProbeProcessor_default) else None)\<rparr>"

definition create_adapter :: "bool \<Rightarrow> bool \<Rightarrow> ClapHost option \<Rightarrow> Adapter option" where
  "create_adapter probe_build allocated host =
     (case host of
        None \<Rightarrow> None
      | Some h \<Rightarrow>
          if \<not> ch_compatible h \<or> ch_name h = None \<or> ch_version h = None then None
          else if allocated then Some (Adapter_init probe_build h) else None)"

definition on_probe :: "(ProbeProcessor \<Rightarrow> ProbeProcessor) \<Rightarrow> Adapter \<Rightarrow> Adapter" where
  "on_probe f A = A\<lparr>ad_probe := map_option f (ad_probe A)\<rparr>"

subsection \<open>Status and generations\<close>

definition call_host :: "bool \<Rightarrow> HostCall \<Rightarrow> Adapter \<Rightarrow> Adapter" where
  "call_host there c A = (if there then A\<lparr>ad_host_calls := ad_host_calls A @ [c]\<rparr> else A)"

definition mark_values_dirty :: "Adapter \<Rightarrow> Adapter" where
  "mark_values_dirty A =
     (if ad_values_dirty A then A
      else call_host (ch_request_callback (ad_host A)) host_request_callback (A\<lparr>ad_values_dirty := True\<rparr>))"

text \<open>A weak compare-and-swap that fails is retried while the status is still lower.\<close>

definition latch_status :: "Status \<Rightarrow> Adapter \<Rightarrow> Adapter" where
  "latch_status status A =
     (if ad_status A < status then mark_values_dirty (A\<lparr>ad_status := status\<rparr>) else A)"

definition publish_runtime_status :: "MidiProcessResult \<Rightarrow> Adapter \<Rightarrow> Adapter" where
  "publish_runtime_status midi A =
     (if ad_status A = status_invalid_input_or_state \<or> ad_status A = status_unsupported_layout then A
      else let target = (if mr_output_blocked midi then status_midi_output_blocked
                         else if ad_reconfiguration_pending A then status_reconfiguring
                         else if mr_panic_hold midi then status_panic_hold else status_ready)
           in if ad_status A \<noteq> target then mark_values_dirty (A\<lparr>ad_status := target\<rparr>) else A)"

definition adapter_next_generation :: "Adapter \<Rightarrow> u64 \<times> Adapter" where
  "adapter_next_generation A =
     (ad_generation_counter A + 1, A\<lparr>ad_generation_counter := ad_generation_counter A + 1\<rparr>)"

text \<open>An operation on the shared request, and one on the exchange.\<close>

definition on_request :: "'a request_prog \<Rightarrow> Adapter \<Rightarrow> 'a \<times> Adapter" where
  "on_request p A = (case run p (ad_config_request A) of (m, r) \<Rightarrow> (r, A\<lparr>ad_config_request := m\<rparr>))"

definition on_exchange :: "'a exchange_prog \<Rightarrow> Adapter \<Rightarrow> 'a \<times> Adapter" where
  "on_exchange p A = (case run p (ad_prepared_exchange A) of (m, r) \<Rightarrow> (r, A\<lparr>ad_prepared_exchange := m\<rparr>))"

subsection \<open>Parameters\<close>

definition accept_panic :: "ParameterBatchResult \<Rightarrow> Adapter \<Rightarrow> Adapter" where
  "accept_panic batch A =
     (if br_panic batch
      then mark_values_dirty (A\<lparr>ad_panic_offset := br_panic_offset batch, ad_panic_requested := True\<rparr>)
      else A)"

text \<open>The audio thread's own change of configuration, published or kept for the next block.\<close>

definition publish_audio_config :: "bool \<Rightarrow> Adapter \<Rightarrow> bool \<times> Adapter" where
  "publish_audio_config is_structural A =
     (let (generation, A) = adapter_next_generation A;
          (ok, A) = on_request (request_publish (ad_audio_requested_config A) generation) A
      in if \<not> ok
         then (False, A\<lparr>ad_audio_publication_pending := True,
                 ad_pending_audio_structural := ad_pending_audio_structural A \<or> is_structural\<rparr>)
         else let A = A\<lparr>ad_audio_request_generation := generation, ad_audio_publication_pending := False\<rparr>;
                  A = (if is_structural \<or> ad_pending_audio_structural A
                       then latch_status status_reconfiguring
                              (A\<lparr>ad_requested_structural_generation := generation,
                                 ad_reconfiguration_pending := True, ad_pending_audio_structural := False\<rparr>)
                       else A)
              in (True, mark_values_dirty A))"

definition adopt_newer_request :: "Adapter \<Rightarrow> Adapter" where
  "adopt_newer_request A =
     (case on_request (snapshot 3) A of
        (Some (config, generation), A) \<Rightarrow>
          if generation_newer generation (ad_audio_request_generation A)
          then A\<lparr>ad_audio_requested_config := config, ad_audio_request_generation := generation\<rparr> else A
      | (None, A) \<Rightarrow> A)"

definition synchronize_audio_request :: "Adapter \<Rightarrow> Adapter" where
  "synchronize_audio_request A =
     (if ad_audio_publication_pending A
      then let A = snd (publish_audio_config (ad_pending_audio_structural A) A)
           in if ad_audio_publication_pending A then A else adopt_newer_request A
      else adopt_newer_request A)"

definition apply_audio_parameter_events :: "ClapInputEvents option \<Rightarrow> u32 \<Rightarrow> Adapter \<Rightarrow> Adapter" where
  "apply_audio_parameter_events input frames A =
     (let (config, batch) = apply_parameter_events_to (ad_audio_requested_config A) input frames;
          A = accept_panic batch (A\<lparr>ad_audio_requested_config := config\<rparr>)
      in if br_changed batch then snd (publish_audio_config (br_structural batch) A) else A)"

definition apply_inactive_parameter_events :: "ClapInputEvents option \<Rightarrow> Adapter \<Rightarrow> Adapter" where
  "apply_inactive_parameter_events input A =
     (let (candidate, batch) = apply_parameter_events_to (ad_main_config A) input 0;
          A = accept_panic batch A
      in if \<not> br_changed batch then A
         else let (generation, A) = adapter_next_generation A;
                  (ok, A) = on_request (request_publish candidate generation) A
              in if \<not> ok then latch_status status_invalid_input_or_state A
                 else A\<lparr>ad_main_config := candidate, ad_main_generation := generation\<rparr>)"

definition params_get_value :: "u32 \<Rightarrow> bool \<Rightarrow> Adapter \<Rightarrow> f64 option" where
  "params_get_value pid has_value A =
     (if has_value then parameter_value (ad_main_config A) (ad_status A) pid else None)"

definition is_running :: "Adapter \<Rightarrow> bool" where
  "is_running A \<longleftrightarrow> ad_lifecycle A = lifecycle_active \<or> ad_lifecycle A = lifecycle_processing"

definition params_flush :: "ClapInputEvents option \<Rightarrow> Adapter \<Rightarrow> Adapter" where
  "params_flush input A =
     (if is_running A then apply_audio_parameter_events input 0 (synchronize_audio_request A)
      else apply_inactive_parameter_events input A)"

subsection \<open>Main thread\<close>

definition publish_pending :: "Adapter \<Rightarrow> bool \<times> Adapter" where
  "publish_pending A =
     (let (ok, A) = on_exchange (publish (ad_pending_prepared A) (ad_pending_prepared_generation A)) A
      in (ok, if ok then A\<lparr>ad_prepared_publication_pending := False\<rparr> else A))"

definition stage_for_publication :: "PersistentConfig \<Rightarrow> u64 \<Rightarrow> Adapter \<Rightarrow> bool \<times> Adapter" where
  "stage_for_publication config generation A =
     (case stage_prepared_config config (ad_sample_rate A) of
        None \<Rightarrow> (False, latch_status status_invalid_input_or_state A)
      | Some prepared \<Rightarrow>
          publish_pending (A\<lparr>ad_pending_prepared := prepared, ad_pending_prepared_generation := generation,
                             ad_prepared_publication_pending := True\<rparr>))"

definition rescan :: "Adapter \<Rightarrow> Adapter" where
  "rescan A = call_host (ad_host_params A = Some True) host_rescan_values A"

definition state_save :: "(u8 list \<Rightarrow> 'h \<Rightarrow> int \<times> 'h) option \<Rightarrow> 'h \<Rightarrow> Adapter \<Rightarrow> bool \<times> 'h" where
  "state_save stream h A = save_clap_state (ad_main_config A) stream h"

text \<open>The three attempts to publish a loaded configuration; the generation of the last one.\<close>

fun publish_loaded :: "nat \<Rightarrow> PersistentConfig \<Rightarrow> u64 \<Rightarrow> Adapter \<Rightarrow> bool \<times> u64 \<times> Adapter" where
  "publish_loaded 0 candidate generation A = (False, generation, A)"
| "publish_loaded (Suc n) candidate generation A =
     (let (generation, A) = adapter_next_generation A;
          (ok, A) = on_request (request_publish candidate generation) A
      in if ok then (True, generation, A) else publish_loaded n candidate generation A)"

definition restore_config :: "PersistentConfig \<Rightarrow> Adapter \<Rightarrow> bool \<times> Adapter" where
  "restore_config candidate A =
     (let (published, generation, A) = publish_loaded 3 candidate 0 A
      in if \<not> published then (False, A)
         else let A = A\<lparr>ad_main_config := candidate, ad_main_generation := generation,
                        ad_panic_requested := False\<rparr>;
                  A = (if is_running A
                       then let A = A\<lparr>ad_requested_structural_generation := generation,
                                      ad_reconfiguration_pending := True\<rparr>;
                                A = snd (stage_for_publication candidate generation A);
                                A = latch_status status_reconfiguring A
                            in if ad_prepared_publication_pending A then mark_values_dirty A else A
                       else A\<lparr>ad_status := status_ready\<rparr>)
              in (True, rescan A))"

definition state_load ::
  "(nat \<Rightarrow> 'h \<Rightarrow> (int \<times> (nat \<Rightarrow> u8)) \<times> 'h) option \<Rightarrow> 'h \<Rightarrow> Adapter \<Rightarrow> (bool \<times> Adapter) \<times> 'h" where
  "state_load stream h A =
     (case load_clap_state stream h of
        (None, h') \<Rightarrow> ((False, A), h')
      | (Some candidate, h') \<Rightarrow> (restore_config candidate A, h'))"

definition plugin_init :: "Adapter \<Rightarrow> bool \<times> Adapter" where
  "plugin_init A =
     (if ad_lifecycle A \<noteq> lifecycle_created then (False, A)
      else let A = (if ch_get_extension (ad_host A) then A\<lparr>ad_host_params := ch_params (ad_host A)\<rparr> else A)
           in (True, on_probe record_init (A\<lparr>ad_lifecycle := lifecycle_initialized\<rparr>)))"

text \<open>The report that is written when the object goes away.\<close>

definition plugin_destroy :: "Adapter \<Rightarrow> (string \<times> u32) list option" where
  "plugin_destroy A = map_option (report_metrics \<circ> record_destroy) (ad_probe A)"

definition activation_refused :: "f64 \<Rightarrow> u32 \<Rightarrow> u32 \<Rightarrow> Adapter \<Rightarrow> bool" where
  "activation_refused rate minimum_frames maximum_frames A \<longleftrightarrow>
     ad_lifecycle A \<noteq> lifecycle_initialized \<or> \<not> is_finite rate \<or> rate \<le> 0
     \<or> minimum_frames = 0 \<or> maximum_frames = 0 \<or> maximum_frames < minimum_frames \<or> kMaxHostFrames < unat maximum_frames"

text \<open>What an activation that succeeds sets.\<close>

definition finish_activation ::
  "f64 \<Rightarrow> u32 \<Rightarrow> u32 \<Rightarrow> PersistentConfig \<Rightarrow> u64 \<Rightarrow> PreparedConfig \<Rightarrow> Adapter \<Rightarrow> Adapter" where
  "finish_activation rate minimum_frames maximum_frames config generation prepared A =
     A\<lparr>ad_sample_rate := rate, ad_min_frames := minimum_frames, ad_max_frames := maximum_frames,
       ad_main_config := config, ad_main_generation := generation, ad_audio_requested_config := config,
       ad_audio_request_generation := generation, ad_active_config := config,
       ad_prepared_exchange := snd (exchange_initialize prepared generation (ad_prepared_exchange A)),
       ad_requested_structural_generation := generation, ad_reconfiguration_pending := False,
       ad_prepared_publication_pending := False, ad_audio_publication_pending := False,
       ad_pending_audio_structural := False, ad_release_channel_pending := False,
       ad_status := status_ready, ad_lifecycle := lifecycle_active\<rparr>"

definition probe_activation :: "Adapter \<Rightarrow> bool \<times> Adapter" where
  "probe_activation A =
     (case ad_probe A of
        None \<Rightarrow> (True, A)
      | Some p \<Rightarrow> (case record_activate p of (ok, p) \<Rightarrow> (ok, A\<lparr>ad_probe := Some p\<rparr>)))"

definition plugin_activate :: "(nat \<Rightarrow> bool) \<Rightarrow> f64 \<Rightarrow> u32 \<Rightarrow> u32 \<Rightarrow> Adapter \<Rightarrow> bool \<times> Adapter" where
  "plugin_activate alloc rate minimum_frames maximum_frames A =
     (if activation_refused rate minimum_frames maximum_frames A then (False, A)
      else case on_request (snapshot 3) A of
             (None, A) \<Rightarrow> (False, A)
           | (Some (config, generation), A) \<Rightarrow>
               (case stage_prepared_config config rate of
                  None \<Rightarrow> (False, A)
                | Some prepared \<Rightarrow>
                    let (ok, P) = pipeline_activate alloc maximum_frames (ad_midi_pipeline A);
                        A = A\<lparr>ad_midi_pipeline := P\<rparr>
                    in if \<not> ok then (False, A)
                       else case probe_activation A of
                              (False, A) \<Rightarrow>
                                (False, A\<lparr>ad_midi_pipeline := pipeline_deactivate (ad_midi_pipeline A)\<rparr>)
                            | (True, A) \<Rightarrow>
                                (True, finish_activation rate minimum_frames maximum_frames config generation prepared A)))"

definition take_newer_main_config :: "Adapter \<Rightarrow> Adapter" where
  "take_newer_main_config A =
     (case on_request (snapshot 3) A of
        (None, A) \<Rightarrow> A
      | (Some (config, generation), A) \<Rightarrow>
          if generation_newer generation (ad_main_generation A)
          then A\<lparr>ad_main_config := config, ad_main_generation := generation\<rparr> else A)"

definition plugin_deactivate :: "Adapter \<Rightarrow> Adapter" where
  "plugin_deactivate A =
     (if ad_lifecycle A \<noteq> lifecycle_active then A
      else let A = take_newer_main_config A
           in on_probe record_deactivate (A\<lparr>ad_lifecycle := lifecycle_initialized, ad_sample_rate := 0, ad_min_frames := 0,
                ad_max_frames := 0, ad_midi_pipeline := pipeline_deactivate (ad_midi_pipeline A),
                ad_prepared_exchange := exchange_reset (ad_prepared_exchange A),
                ad_prepared_publication_pending := False, ad_audio_publication_pending := False,
                ad_pending_audio_structural := False, ad_release_channel_pending := False,
                ad_reconfiguration_pending := False\<rparr>))"

definition plugin_start_processing :: "Adapter \<Rightarrow> bool \<times> Adapter" where
  "plugin_start_processing A =
     (if ad_lifecycle A \<noteq> lifecycle_active then (False, A)
      else (True, on_probe record_start (A\<lparr>ad_lifecycle := lifecycle_processing\<rparr>)))"

definition plugin_stop_processing :: "Adapter \<Rightarrow> Adapter" where
  "plugin_stop_processing A =
     (if ad_lifecycle A = lifecycle_processing then on_probe record_stop (A\<lparr>ad_lifecycle := lifecycle_active\<rparr>) else A)"

definition plugin_reset :: "Adapter \<Rightarrow> Adapter" where
  "plugin_reset A =
     (if is_running A
      then on_probe record_reset
             (latch_status status_panic_hold (A\<lparr>ad_midi_pipeline := request_reset (ad_midi_pipeline A)\<rparr>))
      else A)"

text \<open>\<open>on_main_thread\<close>: take over a newer request, publish what is pending, tell the host.\<close>

definition take_over_request :: "Adapter \<Rightarrow> bool \<times> Adapter" where
  "take_over_request A =
     (case on_request (snapshot 3) A of
        (None, A) \<Rightarrow> (True, A)
      | (Some (config, generation), A) \<Rightarrow>
          if \<not> generation_newer generation (ad_main_generation A) then (False, A)
          else let changed = (\<not> structural_config_equal (ad_main_config A) config);
                   A = A\<lparr>ad_main_config := config, ad_main_generation := generation\<rparr>
               in if \<not> changed \<or> \<not> is_running A then (False, A)
                  else let A = latch_status status_reconfiguring
                                 (A\<lparr>ad_requested_structural_generation := generation,
                                    ad_reconfiguration_pending := True\<rparr>);
                           (ok, A) = stage_for_publication config generation A
                       in (if ok then False else ad_prepared_publication_pending A, A))"

definition plugin_on_main_thread :: "Adapter \<Rightarrow> Adapter" where
  "plugin_on_main_thread A =
     (let values_were_dirty = ad_values_dirty A;
          (retry, A) = take_over_request (A\<lparr>ad_values_dirty := False\<rparr>);
          (retry, A) = (if ad_prepared_publication_pending A
                        then let (ok, A) = publish_pending A in (if ok then retry else True, A)
                        else (retry, A));
          A = (if values_were_dirty then rescan A else A)
      in if retry then mark_values_dirty A else A)"

subsection \<open>Audio thread\<close>

text \<open>The probe's part of a block.\<close>

definition probe_block :: "'h ClapProcess \<Rightarrow> Adapter \<Rightarrow> Adapter" where
  "probe_block process A =
     (case ad_probe A of
        None \<Rightarrow> A
      | Some p \<Rightarrow>
          (case queue_trigger_transitions (cp_in_events process) (cp_frames process)
                  (record_process process p, ad_midi_pipeline A) of
             (ok, p, P) \<Rightarrow>
               let A = A\<lparr>ad_probe := Some p, ad_midi_pipeline := P\<rparr>
               in if ok then A else latch_status status_invalid_input_or_state A))"

text \<open>The switch to the newest prepared configuration; not while an earlier switch is being cleaned up.\<close>

definition adopt_prepared :: "Adapter \<Rightarrow> Adapter" where
  "adopt_prepared A =
     (if ad_release_channel_pending A then A
      else case on_exchange claim_latest A of
             ((False, claim), A) \<Rightarrow> A
           | ((True, claim), A) \<Rightarrow>
               let adopted = pc_requested (sl_prepared (slots (ad_prepared_exchange A) ! cl_index claim));
                   adopted_generation = cl_generation claim;
                   A = A\<lparr>ad_midi_pipeline := request_reset (ad_midi_pipeline A),
                         ad_release_channel_pending := True\<rparr>;
                   ((ok, claim), A) = on_exchange (commit claim) A
               in if ok
                  then let A = A\<lparr>ad_active_config := copy_structural_config (ad_active_config A) adopted\<rparr>
                       in if generation_newer (ad_requested_structural_generation A) adopted_generation then A
                          else A\<lparr>ad_reconfiguration_pending := False\<rparr>
                  else let A = snd (on_exchange (cancel claim) A)
                       in latch_status status_invalid_input_or_state (A\<lparr>ad_release_channel_pending := False\<rparr>))"

definition apply_panic_request :: "u32 \<Rightarrow> Adapter \<Rightarrow> Adapter" where
  "apply_panic_request frames A =
     (if ad_panic_requested A
      then A\<lparr>ad_panic_requested := False,
             ad_midi_pipeline := snd (request_panic (ad_panic_offset A) frames (ad_midi_pipeline A))\<rparr>
      else A)"

text \<open>The dry path of the block: its result, whether the layout is exact, and the memory after it.\<close>

definition process_audio ::
  "'h ClapProcess \<Rightarrow> bool \<Rightarrow> audio_memory \<Rightarrow> DryPathResult \<times> bool \<times> audio_memory" where
  "process_audio p passthrough m =
     (case (cp_audio_inputs p, cp_audio_outputs p) of
        (Some (input # more_inputs), Some (out # more_outputs)) \<Rightarrow>
          let float32 = exact_float32_layout input out;
              float64 = exact_float64_layout input out;
              (result, m) = (if float32 \<or> float64 then process_typed float32 m input out (cp_frames p) passthrough
                             else (DryPathResult_default, m));
              exact_layout = (more_inputs = [] \<and> more_outputs = []
                       \<and> (ab_channel_count input = 1 \<or> ab_channel_count input = 2)
                       \<and> ab_channel_count out = ab_channel_count input
                       \<and> dp_channels_processed result = unat (ab_channel_count input)
                       \<and> (float32 \<or> float64))
          in (result, exact_layout, m)
      | _ \<Rightarrow> (DryPathResult_default, False, m))"

definition process_midi ::
  "'h ClapProcess \<Rightarrow> DryPathResult \<Rightarrow> bool \<Rightarrow> Adapter \<Rightarrow> 'h \<Rightarrow> ClapOutEvent list
     \<Rightarrow> MidiProcessResult \<times> Adapter \<times> 'h \<times> ClapOutEvent list" where
  "process_midi p result exact_layout A h delivered =
     (let (midi, P, h, delivered) = pipeline_process (cp_frames p) (midi_channel (ad_active_config A))
            (cp_in_events p) (cp_out_events p) (dp_selected_peak result) (\<not> dp_nonfinite_input result)
            exact_layout (midi_routing (ad_active_config A)) (ad_midi_pipeline A) h delivered
      in (midi, A\<lparr>ad_midi_pipeline := P\<rparr>, h, delivered))"

datatype ProcessStatus = process_error | process_continue

definition process_refused :: "'h ClapProcess option \<Rightarrow> Adapter \<Rightarrow> bool" where
  "process_refused process A \<longleftrightarrow>
     ad_lifecycle A \<noteq> lifecycle_processing
     \<or> (case process of None \<Rightarrow> True | Some p \<Rightarrow> cp_frames p = 0 \<or> ad_max_frames A < cp_frames p)"

definition plugin_process ::
  "'h ClapProcess option \<Rightarrow> audio_memory \<Rightarrow> Adapter \<Rightarrow> 'h \<Rightarrow> ClapOutEvent list
     \<Rightarrow> ProcessStatus \<times> audio_memory \<times> Adapter \<times> 'h \<times> ClapOutEvent list" where
  "plugin_process process m A h delivered =
     (if process_refused process A then (process_error, m, A, h, delivered)
      else let p = the process;
               A = A\<lparr>ad_midi_pipeline := pipeline_begin_block (ad_midi_pipeline A)\<rparr>;
               A = adopt_prepared (synchronize_audio_request (probe_block p A));
               A = apply_audio_parameter_events (cp_in_events p) (cp_frames p) A;
               A = apply_panic_request (cp_frames p) A;
               (result, exact_layout, m) = process_audio p (dry_passthrough (ad_audio_requested_config A)) m;
               A = (if \<not> exact_layout then latch_status status_unsupported_layout A
                    else if dp_nonfinite_input result then latch_status status_invalid_input_or_state A else A);
               (midi, A, h, delivered) = process_midi p result exact_layout A h delivered;
               A = (if ad_release_channel_pending A \<and> \<not> pipeline_cleanup_pending (ad_midi_pipeline A)
                    then A\<lparr>ad_release_channel_pending := False\<rparr> else A);
               A = (if mr_invalid_event midi then latch_status status_invalid_input_or_state A else A)
           in (process_continue, m, publish_runtime_status midi A, h, delivered))"

end
