(* ===== verification/Solo_Runs.thy ===== *)
theory Solo_Runs
  imports Config_Exchange_Threads Config_Request_Properties
begin

unbundle bit_operations_syntax

text \<open>
  What the lock-free operations do when they run without interference, for the plugin objects that call
  them one after the other: the exchange keeps only configurations that satisfy \<open>V\<close>, a claim leads to one
  of them, and a snapshot of the shared request is the configuration published last.
\<close>

lemma rg_run:
  assumes "rg R G Q p m" "reflp R" "reflp G" "transp G" "run p m = (m', a)"
  shows "G m m' \<and> Q a m'"
  using assms(1,5)
proof (induction p arbitrary: m)
  case (Ret b)
  then show ?case using assms(2,3) by (auto dest: reflpD)
next
  case (Act f)
  obtain m1 p1 where f: "f m = (m1, p1)" by (cases "f m")
  then have step: "G m m1 \<and> rg R G Q p1 m1" using rg_now [OF Act.prems(1) assms(2) f] by simp
  have "(m1, p1) \<in> range f" by (metis f rangeI)
  then have "G m1 m' \<and> Q a m'"
    using Act.IH [of "(m1, p1)" p1 m1] Act.prems(2) step f by (simp add: snds.simps)
  with step assms(4) show ?case by (auto dest: transpD)
qed

subsection \<open>The exchange\<close>

definition exchange_holds :: "(PersistentConfig \<Rightarrow> bool) \<Rightarrow> PreparedConfigExchange \<Rightarrow> bool" where
  "exchange_holds V m \<longleftrightarrow> idle m \<and> tagged {p. V (pc_requested (fst p))} m"

definition claim_holds :: "(PersistentConfig \<Rightarrow> bool) \<Rightarrow> Claim \<Rightarrow> PreparedConfigExchange \<Rightarrow> bool" where
  "claim_holds V c m \<longleftrightarrow> exchange_holds V m \<and> between c m"

lemma claim_holds_exchange: "claim_holds V c m \<Longrightarrow> exchange_holds V m"
  by (simp add: claim_holds_def)

lemma claim_holds_invalidate: "claim_holds V invalidate m \<longleftrightarrow> exchange_holds V m"
  by (auto simp: claim_holds_def exchange_holds_def between_invalidate)

lemma initialize_holds:
  assumes "V (pc_requested p)" "length (slots m) = kSlotCount"
  shows "exchange_holds V (snd (exchange_initialize p g m))"
proof -
  obtain a b c where "slots m = [a, b, c]"
    using assms(2) by (auto simp: kSlotCount_def numeral_3_eq_3 length_Suc_conv)
  then show ?thesis
    using assms(1)
    by (auto simp: exchange_initialize_def exchange_reset_def exchange_holds_def idle_def tagged_def filled_def
        kSlotCount_def update_slot_def)
qed

lemma three_reset [simp]: "length (slots (exchange_reset m)) = length (slots m)"
  by (simp add: exchange_reset_def)

lemma three_initialize [simp]: "length (slots (snd (exchange_initialize p g m))) = length (slots m)"
  by (simp add: exchange_initialize_def)

lemma publish_keeps_claim:
  assumes "claim_holds V c m" "V (pc_requested p)" "run (publish p g) m = (m', ok)"
  shows "claim_holds V c m'"
proof -
  let ?Pub = "{p. V (pc_requested (fst p))}"
  have m: "three m" "tagged ?Pub m" "between c m"
    using assms(1) by (simp_all add: claim_holds_def exchange_holds_def idle_def)
  have "main_rg ?Pub (\<lambda>_. three) (publish p g) m" using m(1) assms(2) by (intro publish_rg) simp_all
  then have g: "main_guar ?Pub m m'"
    using rg_run [OF _ audio_guar_order(1) main_guar_order assms(3)] by blast
  then have "between c m'" using stable_between m(3) unfolding stable_def by blast
  with g m(2) show ?thesis by (simp add: claim_holds_def exchange_holds_def between_def main_guar_def)
qed

text \<open>A call of the audio thread.\<close>

lemma audio_call_holds:
  assumes "audio_rg {p. V (pc_requested (fst p))} (\<lambda>(ok, c). between c) p m" "exchange_holds V m"
    "run p m = (m', ok, c')"
  shows "claim_holds V c' m'"
  using rg_run [OF assms(1) main_guar_order(1) audio_guar_order assms(3)] assms(2)
  by (simp add: claim_holds_def exchange_holds_def between_def audio_guar_def)

lemma claim_latest_holds:
  "exchange_holds V m \<Longrightarrow> run claim_latest m = (m', ok, c) \<Longrightarrow> claim_holds V c m'"
  by (rule audio_call_holds [OF claim_latest_rg]) (simp_all add: exchange_holds_def)

lemma commit_holds:
  "claim_holds V c m \<Longrightarrow> run (commit c) m = (m', ok, c') \<Longrightarrow> claim_holds V c' m'"
  by (rule audio_call_holds [OF commit_rg]) (simp_all add: claim_holds_def)

lemma cancel_holds:
  "claim_holds V c m \<Longrightarrow> run (cancel c) m = (m', ok, c') \<Longrightarrow> claim_holds V c' m'"
  by (rule audio_call_holds [OF cancel_rg]) (simp_all add: claim_holds_def)

lemma claimed_config:
  assumes "claim_holds V c m" "cl_config c \<noteq> None"
  shows "V (pc_requested (sl_prepared (slots m ! cl_index c)))"
proof -
  have s: "cl_index c < length (slots m)" "filled (slots m ! cl_index c)"
    using assms by (auto simp: claim_holds_def between_def claim_ok_def idle_def exchange_holds_def filled_def)
  then show ?thesis
    using tagged_nth [of "{p. V (pc_requested (fst p))}" m "cl_index c"] assms(1)
    by (simp add: claim_holds_def exchange_holds_def)
qed

text \<open>A claim that succeeds names a slot.\<close>

lemma run_find_newest: "\<exists>i. run (find_newest is selected newest k) m = run (k i) m"
proof (induction "is" arbitrary: selected newest)
  case (Cons i "is")
  show ?case
    using Cons.IH [of selected newest] Cons.IH [of i "sl_generation (slots m ! i)"]
    by (auto simp: load_state_def load_generation_def)
qed auto

lemma run_newer_ready: "\<exists>b. run (newer_ready is claimed k) m = run (k b) m"
  by (induction "is") (auto simp: load_state_def load_generation_def)

lemma run_reclaim: "\<exists>m'. run (reclaim_slots is k) m = run k m'"
proof (induction "is" arbitrary: m)
  case (Cons i "is")
  then show ?case
    by (auto simp: load_state_def load_generation_def claim_state_def store_state_def)
qed auto

lemma run_recheck:
  assumes "run (newer_ready is g (\<lambda>newer. if newer then p else Ret r)) m = x"
  shows "x = (m, r) \<or> run p m = x"
  using run_newer_ready [of "is" g "\<lambda>newer. if newer then p else Ret r" m] assms by (auto split: if_splits)

lemma run_claim_attempts: "run (claim_attempts n) m = (m', True, c) \<Longrightarrow> cl_config c \<noteq> None"
proof (induction n arbitrary: m)
  case (Suc n)
  show ?case
  proof -
    let ?a = "active_generation m"
    let ?k = "\<lambda>selected. if selected = kSlotCount then reclaim_stale_ready (Ret (False, invalidate))
       else claim_state selected slot_ready slot_audio_claimed (\<lambda>ok.
         if \<not> ok then claim_attempts n
         else load_generation selected (\<lambda>g. load active_generation (\<lambda>a.
           if \<not> generation_newer g a then store_state selected slot_free (claim_attempts n)
           else newer_ready [0..<kSlotCount] g (\<lambda>newer.
             if newer then store_state selected slot_ready (claim_attempts n)
             else Ret (True, \<lparr>cl_config = Some selected, cl_generation = g, cl_index = selected\<rparr>)))))"
    obtain i where i: "run (find_newest [0..<kSlotCount] kSlotCount ?a ?k) m = run (?k i) m"
      using run_find_newest [of "[0..<kSlotCount]" kSlotCount ?a ?k m] by blast
    with Suc.prems have r: "run (?k i) m = (m', True, c)" by simp
    show ?thesis
    proof (cases "i = kSlotCount")
      case True
      with r run_reclaim [of "[0..<kSlotCount]" "Ret (False, invalidate)" m] show ?thesis
        by (auto simp: reclaim_stale_ready_def)
    next
      case False
      then show ?thesis
        using r Suc.IH
        by (auto simp: claim_state_def load_generation_def store_state_def split: if_splits dest!: run_recheck)
    qed
  qed
qed simp

lemma run_claim_latest: "run claim_latest m = (m', True, c) \<Longrightarrow> cl_config c \<noteq> None"
  by (auto simp: claim_latest_def split: if_splits dest: run_claim_attempts)

subsection \<open>The shared request\<close>

definition request_holds :: "(PersistentConfig \<Rightarrow> bool) \<Rightarrow> AtomicConfigRequest \<Rightarrow> bool" where
  "request_holds V m \<longleftrightarrow>
     length (acr_fields m) = kFieldCount \<and> even (acr_sequence m)
     \<and> (\<exists>c. V c \<and> enums_listed c \<and> acr_fields m = field_values c)"

lemma request_init_holds:
  "V c \<Longrightarrow> enums_listed c \<Longrightarrow> request_holds V (AtomicConfigRequest_init c g)"
  by (auto simp: request_holds_def AtomicConfigRequest_init_def fold_field_stores)

lemma run_request_publish:
  assumes "request_holds V m" "V c" "enums_listed c"
  shows "run (request_publish c g) m =
      (if generation_newer g (acr_generation m)
       then (m\<lparr>acr_sequence := acr_sequence m + 2, acr_fields := field_values c, acr_generation := g\<rparr>, True)
       else (m\<lparr>acr_sequence := acr_sequence m + 2\<rparr>, False))"
proof -
  have f: "fold (\<lambda>f. f) (field_stores c) (set_sequence s m) = (set_sequence s m)\<lparr>acr_fields := field_values c\<rparr>" for s
    using assms(1) by (intro fold_field_stores) (simp add: request_holds_def)
  have e: "acr_sequence m AND 1 = 0" using assms(1) by (simp add: request_holds_def low_bit even_unat)
  show ?thesis
    by (simp add: request_publish_def store_fields_def f e) (simp add: set_sequence_def set_generation_def)
qed

lemma request_publish_holds:
  assumes "request_holds V m" "V c" "enums_listed c" "run (request_publish c g) m = (m', ok)"
  shows "request_holds V m'" "ok \<Longrightarrow> acr_generation m' = g"
  using assms run_request_publish [OF assms(1-3), of g] by (auto simp: request_holds_def split: if_splits)

lemma request_reset_holds:
  assumes "length (acr_fields m) = kFieldCount" "V c" "enums_listed c"
  shows "request_holds V (fst (run (atomic_request_reset c g) m))"
proof -
  have "fold (\<lambda>f. f) (field_stores c) (set_sequence s m) = (set_sequence s m)\<lparr>acr_fields := field_values c\<rparr>" for s
    using assms(1) by (intro fold_field_stores) simp
  then show ?thesis
    using assms
    by (auto simp: atomic_request_reset_def store_fields_def Let_def low_bit even_unat)
      (auto simp: request_holds_def set_sequence_def set_generation_def)
qed

lemma run_snapshot:
  assumes "request_holds V m"
  shows "\<exists>c. V c \<and> run (snapshot 3) m = (m, Some (c, acr_generation m))"
proof -
  obtain c where c: "V c" "enums_listed c" "acr_fields m = field_values c" and m: "length (acr_fields m) = kFieldCount"
    and e: "acr_sequence m AND 1 = 0"
    using assms by (auto simp: request_holds_def low_bit even_unat)
  have n: "unat (3 :: u32) = Suc (Suc (Suc 0))" by simp
  have "run (snapshot 3) m = (m, Some (c, acr_generation m))"
    using e load_fields_values [OF m] config_of_field_values [OF c(2)]
    by (simp only: snapshot_def n) (simp add: load_fields_def c(3))
  with c(1) show ?thesis by blast
qed

lemma snapshot_holds:
  assumes "request_holds V m" "run (snapshot 3) m = (m', r)"
  shows "m' = m" "r = Some (c, g) \<Longrightarrow> V c" "r \<noteq> None"
  using assms run_snapshot [OF assms(1)] by auto

end
