(* ===== verification/Config_Validity.thy ===== *)
theory Config_Validity
  imports Config_Request_Properties Vst3_Parameter_Laws Config_Request State_Roundtrip
begin

text \<open>
  Validity of configurations under the operations both plugin objects use: a valid configuration has
  listed enumerators, copying the structural or the runtime part keeps it valid, and what is staged is
  what was asked for.
\<close>

lemma enums_valid: "config_valid c \<Longrightarrow> enums_listed c"
  by (simp add: config_valid_simps enums_listed_def)

lemma copy_structural_valid: "config_valid c \<Longrightarrow> config_valid d \<Longrightarrow> config_valid (copy_structural_config c d)"
  by (simp add: copy_structural_config_def config_valid_simps)

lemma copy_runtime_valid: "config_valid c \<Longrightarrow> config_valid d \<Longrightarrow> config_valid (copy_runtime_config c d)"
  by (simp add: copy_runtime_config_def config_valid_simps)

lemma staged_config: "stage_prepared_config c rate = Some p \<Longrightarrow> pc_requested p = c"
  by (auto simp: stage_prepared_config_def Let_def split: if_splits)

text \<open>
  The configuration a new object starts with can be prepared: every one of its values is on the grid of
  its row of the parameter table, so \<open>stage_prepared_config\<close> accepts it at 48 kHz.
\<close>

lemma canonical_steps:
  assumes "valid_spec s" "is_finite x" "std_max (ps_minimum s) (std_min x (ps_maximum s)) = x"
    "x - ps_minimum s = a" "a div ps_increment s = k" "std_round k = k" "k * ps_increment s = a"
    "ps_minimum s + a = x"
  shows "canonical_plain s x = x"
  using assms by (simp add: canonical_plain_def)

lemma tenth_of_40: "f64_of_int 40 div f64_rat 1 10 = f64_of_int 400"
  by code_simp

lemma tenths_400: "f64_of_int 400 * f64_rat 1 10 = f64_of_int 40"
  by code_simp

lemma tenth_of_24: "f64_of_int 24 div f64_rat 1 10 = f64_of_int 240"
  by code_simp

lemma tenths_240: "f64_of_int 240 * f64_rat 1 10 = f64_of_int 24"
  by code_simp

lemmas tenth_steps = tenth_of_40 tenths_400 tenth_of_24 tenths_240

lemma canonical_a4_440: "canonical_plain a4_spec (f64_of_int 440) = f64_of_int 440"
  using max_min_int [of 400 480 440] f64_sub_of_int [of 440 400] f64_add_int [of 400 40] std_round_of_int [of 400]
  by (intro canonical_steps [where a = "f64_of_int 40" and k = "f64_of_int 400"] find_parameter_valid [OF find_rows(3)])
    (simp_all add: a4_spec_def tenth_steps)

lemma canonical_trim_0: "canonical_plain trim_spec (f64_of_int 0) = f64_of_int 0"
  using max_min_int [of "- 24" 24 0] f64_sub_of_int [of 0 "- 24"] f64_add_int [of "- 24" 24] std_round_of_int [of 240]
  by (intro canonical_steps [where a = "f64_of_int 24" and k = "f64_of_int 240"] find_parameter_valid [OF find_rows(4)])
    (simp_all add: trim_spec_def tenth_steps)

lemma periods_48000:
  "list_all (\<lambda>x. is_finite x \<and> \<not> x \<le> 0) 
    [1 div f64_of_int 48000, f64_of_int (int kDecisionQuantum) div f64_of_int 48000]"
  by code_simp

lemma valid_requested_default: "valid_requested_config PersistentConfig_default"
proof -
  have f: "\<not> f64_abs_diff_exceeds (f64_of_int i) (f64_of_int i) (f64_rat 1 1000000000000)" if "\<bar>i\<bar> < 1000" for i
  proof -
    have "f64_of_int 0 - f64_of_int 0 = f64_of_int 0" by code_simp
    then have "f64_of_int i - f64_of_int i = f64_of_int 0" using f64_sub_int [of i i] that by (cases "i = 0") simp_all
    moreover have "\<not> f64_rat 1 1000000000000 < \<bar>f64_of_int 0\<bar>" by code_simp
    ultimately show ?thesis by (simp add: f64_abs_diff_exceeds_def)
  qed
  have f1: "\<not> f64_abs_diff_exceeds 1 1 (f64_rat 1 1000000000000)" "is_finite 1"
    using f [of 1] f64_of_int_finite [of 1] by (simp_all add: one_of_int)
  have "canonical_plain (int_spec 0x4D33000F ''Dry audio'' 0 1 1 runtime True True False) 1 = 1"
    using canonical_plain_of_int [of 0 1 1 "0x4D33000F" "''Dry audio''" 1 runtime True True False] by (simp add: one_of_int)
  then show ?thesis
    unfolding valid_requested_config_def persistent_parameter_ids_def
    by (simp only: list.pred_inject find_rows parameter_value_def)
      (simp add: Let_def PersistentConfig_default_def codec_simps canonical_a4_440 canonical_trim_0 f f1 f64_of_int_finite canonical_plain_of_int
        del: f64_of_int_0 add: zero_of_int)
qed

lemma stage_default: "\<exists>p. stage_prepared_config PersistentConfig_default (f64_of_int 48000) = Some p"
proof -
  have "\<not> f64_of_int 48000 \<le> f64_of_int 0" using f64_of_int_le_iff [of 48000 0] by (simp del: f64_of_int_0)
  then show ?thesis
    using periods_48000 valid_requested_default f64_of_int_finite [of 48000]
    by (simp add: stage_prepared_config_def Let_def)
qed

end
