(* ===== verification/Clap_Adapter_Laws.thy ===== *)
theory Clap_Adapter_Laws
  imports Clap_Adapter Solo_Runs Config_Validity Ledger_Properties State_Stream_Laws
begin

text \<open>
  What the callbacks of the CLAP object keep, in any order the host makes them: every configuration the
  object holds, has shared or has prepared is in range, the block sizes it accepts are those it prepared
  for, and the host's notes agree with the ledger's.
\<close>

subsection \<open>The invariant\<close>

definition sizes_ok :: "Adapter \<Rightarrow> bool" where
  "sizes_ok A \<longleftrightarrow>
     0 < ad_min_frames A \<and> ad_min_frames A \<le> ad_max_frames A \<and> unat (ad_max_frames A) \<le> kMaxHostFrames
     \<and> is_finite (ad_sample_rate A) \<and> \<not> ad_sample_rate A \<le> 0"

definition adapter_valid :: "Adapter \<Rightarrow> bool" where
  "adapter_valid A \<longleftrightarrow>
     config_valid (ad_main_config A) \<and> config_valid (ad_audio_requested_config A)
     \<and> config_valid (ad_active_config A) \<and> config_valid (pc_requested (ad_pending_prepared A))
     \<and> request_holds config_valid (ad_config_request A)
     \<and> length (slots (ad_prepared_exchange A)) = kSlotCount
     \<and> (if is_running A then exchange_holds config_valid (ad_prepared_exchange A) \<and> sizes_ok A
        else \<not> ad_prepared_publication_pending A \<and> ad_max_frames A = 0)"

text \<open>A step that leaves the notes and the lifecycle alone.\<close>

definition keeps :: "Adapter \<Rightarrow> Adapter \<Rightarrow> bool" where
  "keeps A A' \<longleftrightarrow>
     (adapter_valid A \<longrightarrow> adapter_valid A') \<and> ad_midi_pipeline A' = ad_midi_pipeline A
     \<and> ad_lifecycle A' = ad_lifecycle A"

lemma keeps_refl [simp]: "keeps A A"
  by (simp add: keeps_def)

lemma keeps_trans: "keeps A B \<Longrightarrow> keeps B C \<Longrightarrow> keeps A C"
  by (simp add: keeps_def)

lemma keeps_valid: "keeps A A' \<Longrightarrow> adapter_valid A \<Longrightarrow> adapter_valid A'"
  by (simp add: keeps_def)

lemma keeps_then: "keeps A B \<Longrightarrow> adapter_valid A \<Longrightarrow> (adapter_valid B \<Longrightarrow> keeps B C) \<Longrightarrow> keeps A C"
  by (auto simp: keeps_def)

lemmas adapter_simps = adapter_valid_def is_running_def sizes_ok_def

lemma keeps_mark: "keeps A (mark_values_dirty A)"
  by (simp add: keeps_def mark_values_dirty_def call_host_def adapter_simps)

lemma keeps_latch: "keeps A (latch_status s A)"
proof -
  have "keeps A (A\<lparr>ad_status := s\<rparr>)" by (simp add: keeps_def adapter_simps)
  from keeps_trans [OF this keeps_mark] show ?thesis by (simp add: latch_status_def)
qed

lemma keeps_runtime_status: "keeps A (publish_runtime_status midi A)"
proof -
  have "keeps A (A\<lparr>ad_status := s\<rparr>)" for s by (simp add: keeps_def adapter_simps)
  from keeps_trans [OF this keeps_mark] show ?thesis by (simp add: publish_runtime_status_def Let_def)
qed

lemma keeps_generation: "keeps A (snd (adapter_next_generation A))"
  by (simp add: adapter_next_generation_def keeps_def adapter_simps)

lemma keeps_probe: "keeps A (on_probe f A)"
  by (simp add: on_probe_def keeps_def adapter_simps)

lemma keeps_rescan: "keeps A (rescan A)"
  by (simp add: rescan_def call_host_def keeps_def adapter_simps)

lemma keeps_accept_panic: "keeps A (accept_panic batch A)"
proof -
  have "keeps A (A\<lparr>ad_panic_offset := br_panic_offset batch, ad_panic_requested := True\<rparr>)"
    by (simp add: keeps_def adapter_simps)
  from keeps_trans [OF this keeps_mark] show ?thesis by (simp add: accept_panic_def)
qed

subsection \<open>Requests\<close>

lemma request_step:
  assumes "config_valid c" "on_request (request_publish c g) A = (ok, A')"
  shows "keeps A A'" "\<exists>m. A' = A\<lparr>ad_config_request := m\<rparr>"
proof -
  obtain m where A': "run (request_publish c g) (ad_config_request A) = (m, ok)" "A' = A\<lparr>ad_config_request := m\<rparr>"
    using assms(2) by (auto simp: on_request_def split: prod.splits)
  show "\<exists>m. A' = A\<lparr>ad_config_request := m\<rparr>" using A' by blast
  show "keeps A A'"
    using request_publish_holds(1) [where V = config_valid, OF _ assms(1) enums_valid [OF assms(1)] A'(1)]
    by (simp add: A'(2) keeps_def adapter_simps)
qed

lemma snapshot_step:
  assumes "on_request (snapshot 3) A = (r, A')" "adapter_valid A"
  shows "A' = A \<and> (\<exists>c. config_valid c \<and> r = Some (c, acr_generation (ad_config_request A)))"
proof -
  obtain m where "run (snapshot 3) (ad_config_request A) = (m, r)" "A' = A\<lparr>ad_config_request := m\<rparr>"
    using assms(1) by (auto simp: on_request_def split: prod.splits)
  then show ?thesis
    using run_snapshot [of config_valid "ad_config_request A"] assms(2) by (auto simp: adapter_valid_def)
qed

lemma keeps_publish_audio: "adapter_valid A \<Longrightarrow> keeps A (snd (publish_audio_config s A))"
proof -
  assume v: "adapter_valid A"
  let ?A1 = "snd (adapter_next_generation A)"
  obtain ok A2 where r: "on_request (request_publish (ad_audio_requested_config ?A1) (fst (adapter_next_generation A))) ?A1
      = (ok, A2)" by (meson surj_pair)
  have "config_valid (ad_audio_requested_config ?A1)"
    using keeps_valid [OF keeps_generation v] by (simp add: adapter_valid_def)
  from keeps_trans [OF keeps_generation request_step(1) [OF this r]] have k: "keeps A A2" .
  have u: "keeps A2 (A2\<lparr>ad_audio_publication_pending := a, ad_pending_audio_structural := b\<rparr>)"
    "keeps A2 (A2\<lparr>ad_audio_request_generation := g, ad_audio_publication_pending := a\<rparr>)"
    "keeps A2 (A2\<lparr>ad_audio_request_generation := g, ad_audio_publication_pending := a,
       ad_requested_structural_generation := g', ad_reconfiguration_pending := b,
       ad_pending_audio_structural := c\<rparr>)" for a b c g g'
    by (simp_all add: keeps_def adapter_simps)
  show ?thesis
    using keeps_trans [OF k u(1)] keeps_trans [OF keeps_trans [OF k u(2)] keeps_mark]
      keeps_trans [OF keeps_trans [OF keeps_trans [OF k u(3)] keeps_latch] keeps_mark]
    by (simp add: publish_audio_config_def Let_def case_prod_unfold r)
qed

lemma keeps_adopt_newer: "adapter_valid A \<Longrightarrow> keeps A (adopt_newer_request A)"
proof -
  assume v: "adapter_valid A"
  obtain r A1 where s: "on_request (snapshot 3) A = (r, A1)" by (meson surj_pair)
  then obtain c where c: "A1 = A" "config_valid c" "r = Some (c, acr_generation (ad_config_request A))"
    using snapshot_step [OF s v] by blast
  then show ?thesis by (simp add: adopt_newer_request_def s keeps_def adapter_simps)
qed

lemma keeps_synchronize: "adapter_valid A \<Longrightarrow> keeps A (synchronize_audio_request A)"
  using keeps_adopt_newer keeps_publish_audio [of A "ad_pending_audio_structural A"]
  by (auto simp: synchronize_audio_request_def Let_def intro: keeps_trans dest: keeps_valid)

subsection \<open>Parameter events\<close>

lemma events_valid:
  assumes "config_valid c"
  shows "config_valid (fst (apply_parameter_events_to c input frames))"
proof -
  have one: "config_valid (fst (apply_event_at i frames k cb))" if "config_valid (fst cb)" for i k cb
    using that apply_parameter_valid [of "fst cb"]
    by (cases cb) (auto simp: apply_event_at_def apply_parameter_event_def Let_def case_prod_unfold split: option.split)
  have "config_valid (fst (fold (apply_event_at i frames) ks cb))" if "config_valid (fst cb)" for i ks cb
    using that by (induction ks arbitrary: cb) (simp_all add: one)
  then show ?thesis using assms by (simp add: apply_parameter_events_to_def split: option.split)
qed

lemma keeps_audio_events: "adapter_valid A \<Longrightarrow> keeps A (apply_audio_parameter_events input frames A)"
proof -
  assume v: "adapter_valid A"
  obtain c batch where e: "apply_parameter_events_to (ad_audio_requested_config A) input frames = (c, batch)"
    by (meson surj_pair)
  then have "config_valid c"
    using v events_valid [of "ad_audio_requested_config A" input frames] by (simp add: adapter_valid_def)
  then have "keeps A (A\<lparr>ad_audio_requested_config := c\<rparr>)" by (simp add: keeps_def adapter_simps)
  from keeps_trans [OF this keeps_accept_panic]
  have k: "keeps A (accept_panic batch (A\<lparr>ad_audio_requested_config := c\<rparr>))" .
  then show ?thesis
    using keeps_trans [OF k keeps_publish_audio [OF keeps_valid [OF k v]]]
    by (simp add: apply_audio_parameter_events_def e Let_def)
qed

lemma keeps_inactive_events: "adapter_valid A \<Longrightarrow> keeps A (apply_inactive_parameter_events input A)"
proof -
  assume v: "adapter_valid A"
  obtain c batch where e: "apply_parameter_events_to (ad_main_config A) input 0 = (c, batch)"
    by (meson surj_pair)
  then have c: "config_valid c"
    using v events_valid [of "ad_main_config A" input 0] by (simp add: adapter_valid_def)
  let ?A1 = "accept_panic batch A"
  let ?A2 = "snd (adapter_next_generation ?A1)"
  obtain ok A3 where r: "on_request (request_publish c (fst (adapter_next_generation ?A1))) ?A2 = (ok, A3)"
    by (meson surj_pair)
  have k: "keeps A A3"
    using keeps_trans [OF keeps_trans [OF keeps_accept_panic keeps_generation] request_step(1) [OF c r]] .
  have "keeps A3 (A3\<lparr>ad_main_config := c, ad_main_generation := g\<rparr>)" for g
    using c by (simp add: keeps_def adapter_simps)
  with keeps_trans [OF k] keeps_trans [OF k keeps_latch] show ?thesis
    by (simp add: apply_inactive_parameter_events_def e r Let_def case_prod_unfold keeps_accept_panic)
qed

lemma keeps_flush: "adapter_valid A \<Longrightarrow> keeps A (params_flush input A)"
  using keeps_then [OF keeps_synchronize _ keeps_audio_events, of A] keeps_inactive_events
  by (simp add: params_flush_def)

subsection \<open>The main thread\<close>

lemma keeps_publish_pending:
  assumes "adapter_valid A" "is_running A"
  shows "keeps A (snd (publish_pending A))"
proof -
  let ?m = "ad_prepared_exchange A"
  obtain m' ok where r: "run (publish (ad_pending_prepared A) (ad_pending_prepared_generation A)) ?m = (m', ok)"
    by (meson surj_pair)
  have "claim_holds config_valid invalidate ?m"
    using assms by (simp add: claim_holds_invalidate adapter_valid_def)
  from publish_keeps_claim [OF this _ r] assms(1)
  have "exchange_holds config_valid m'" by (simp add: claim_holds_invalidate adapter_valid_def)
  then show ?thesis
    using assms
    by (auto simp: publish_pending_def on_exchange_def r keeps_def adapter_simps exchange_holds_def idle_def)
qed

lemma keeps_stage:
  assumes "adapter_valid A" "is_running A" "config_valid c"
  shows "keeps A (snd (stage_for_publication c g A))"
proof (cases "stage_prepared_config c (ad_sample_rate A)")
  case None
  then show ?thesis by (simp add: stage_for_publication_def keeps_latch)
next
  case (Some p)
  let ?A = "A\<lparr>ad_pending_prepared := p, ad_pending_prepared_generation := g, ad_prepared_publication_pending := True\<rparr>"
  have "keeps A ?A" "is_running ?A"
    using assms staged_config [OF Some] by (simp_all add: keeps_def adapter_simps)
  from keeps_then [OF this(1) assms(1) keeps_publish_pending [OF _ this(2)]] Some show ?thesis
    by (simp add: stage_for_publication_def)
qed

lemma publish_loaded_step:
  assumes "config_valid c" "publish_loaded n c g A = (ok, g', A')"
  shows "keeps A A'"
  using assms(2)
proof (induction n arbitrary: g A)
  case (Suc n)
  let ?A1 = "snd (adapter_next_generation A)" and ?g1 = "fst (adapter_next_generation A)"
  obtain ok2 A2 where r: "on_request (request_publish c ?g1) ?A1 = (ok2, A2)" by (meson surj_pair)
  have k: "keeps A A2" by (rule keeps_trans [OF keeps_generation request_step(1) [OF assms(1) r]])
  show ?case
    using Suc.prems Suc.IH [of ?g1 A2] keeps_trans [OF k] k
    by (auto simp: Let_def case_prod_unfold r split: if_splits)
qed simp

lemma keeps_restore:
  assumes "adapter_valid A" "config_valid c"
  shows "keeps A (snd (restore_config c A))"
proof -
  obtain ok g A1 where p: "publish_loaded 3 c 0 A = (ok, g, A1)" by (metis prod_cases3)
  note k1 = publish_loaded_step [OF assms(2) p]
  let ?A2 = "A1\<lparr>ad_main_config := c, ad_main_generation := g, ad_panic_requested := False\<rparr>"
  let ?A3 = "?A2\<lparr>ad_requested_structural_generation := g, ad_reconfiguration_pending := True\<rparr>"
  let ?A4 = "snd (stage_for_publication c g ?A3)"
  have "keeps A1 ?A2" "keeps ?A2 ?A3" "keeps ?A2 (?A2\<lparr>ad_status := status_ready\<rparr>)"
    using assms(2) by (simp_all add: keeps_def adapter_simps)
  then have k2: "keeps A ?A2" "keeps A ?A3" "keeps A (?A2\<lparr>ad_status := status_ready\<rparr>)"
    using k1 keeps_trans by blast+
  have k4: "keeps A (latch_status status_reconfiguring ?A4)" if "is_running ?A3"
    using keeps_trans [OF keeps_then [OF k2(2) assms(1) keeps_stage [OF _ that assms(2)]] keeps_latch] .
  have run: "is_running ?A2 = is_running ?A3" by (simp add: is_running_def)
  show ?thesis
    using k1 keeps_trans [OF keeps_trans [OF k4 keeps_mark] keeps_rescan] keeps_trans [OF k4 keeps_rescan]
      keeps_trans [OF k2(3) keeps_rescan]
    by (simp add: restore_config_def p Let_def case_prod_unfold run)
qed

lemma clap_load_valid: "load_clap_state stream h = (Some c, h') \<Longrightarrow> config_valid c"
  using decoded_in_range by (auto simp: load_clap_state_def split: option.splits prod.splits if_splits)

lemma keeps_state_load: "adapter_valid A \<Longrightarrow> keeps A (snd (fst (state_load stream h A)))"
  using keeps_restore [OF _ clap_load_valid, of A stream h]
  by (cases "load_clap_state stream h") (auto simp: state_load_def split: option.split)

lemma keeps_take_newer: "adapter_valid A \<Longrightarrow> keeps A (take_newer_main_config A)"
proof -
  assume v: "adapter_valid A"
  obtain r A1 where s: "on_request (snapshot 3) A = (r, A1)" by (meson surj_pair)
  then obtain c where "A1 = A" "config_valid c" "r = Some (c, acr_generation (ad_config_request A))"
    using snapshot_step [OF s v] by blast
  then show ?thesis by (simp add: take_newer_main_config_def s keeps_def adapter_simps)
qed

lemma keeps_take_over: "adapter_valid A \<Longrightarrow> keeps A (snd (take_over_request A))"
proof -
  assume v: "adapter_valid A"
  obtain r A1 where s: "on_request (snapshot 3) A = (r, A1)" by (meson surj_pair)
  then obtain c where c: "A1 = A" "config_valid c" "r = Some (c, acr_generation (ad_config_request A))"
    using snapshot_step [OF s v] by blast
  let ?g = "acr_generation (ad_config_request A)"
  let ?A2 = "A\<lparr>ad_main_config := c, ad_main_generation := ?g\<rparr>"
  let ?A3 = "?A2\<lparr>ad_requested_structural_generation := ?g, ad_reconfiguration_pending := True\<rparr>"
  have k: "keeps A ?A2" "keeps A ?A3" using c(2) by (simp_all add: keeps_def adapter_simps)
  have l: "keeps A (latch_status status_reconfiguring ?A3)" by (rule keeps_trans [OF k(2) keeps_latch])
  have "is_running ?A2 \<Longrightarrow> is_running (latch_status status_reconfiguring ?A3)"
    using l by (simp add: keeps_def is_running_def)
  then have "is_running ?A2 \<Longrightarrow> keeps A (snd (stage_for_publication c ?g (latch_status status_reconfiguring ?A3)))"
    using keeps_then [OF l v keeps_stage [OF _ _ c(2)]] by blast
  with k(1) show ?thesis
    by (simp add: take_over_request_def s c(1,3) Let_def case_prod_unfold)
qed

lemma pending_running: "adapter_valid A \<Longrightarrow> ad_prepared_publication_pending A \<Longrightarrow> is_running A"
  by (auto simp: adapter_valid_def split: if_splits)

lemma keeps_on_main_thread: "adapter_valid A \<Longrightarrow> keeps A (plugin_on_main_thread A)"
proof -
  assume v: "adapter_valid A"
  obtain retry A1 where t: "take_over_request (A\<lparr>ad_values_dirty := False\<rparr>) = (retry, A1)" by (meson surj_pair)
  have "keeps A (A\<lparr>ad_values_dirty := False\<rparr>)" by (simp add: keeps_def adapter_simps)
  from keeps_then [OF this v keeps_take_over] t have k1: "keeps A A1" by simp
  have k2: "keeps A (snd (publish_pending A1))" if "ad_prepared_publication_pending A1"
    using keeps_then [OF k1 v keeps_publish_pending [OF _ pending_running]] that by blast
  have finish: "keeps A B \<and> keeps A (rescan B) \<and> keeps A (mark_values_dirty B) \<and> keeps A (mark_values_dirty (rescan B))"
    if "keeps A B" for B
    using that keeps_trans [OF that keeps_rescan] keeps_trans [OF that keeps_mark]
      keeps_trans [OF keeps_trans [OF that keeps_rescan] keeps_mark] by simp
  show ?thesis
    using finish [OF k1] finish [OF k2]
    by (simp only: plugin_on_main_thread_def Let_def t prod.case case_prod_unfold fst_conv snd_conv split: if_split) auto
qed

subsection \<open>Blocks\<close>

text \<open>A step of the audio thread within a block: what the host has heard stays in agreement.\<close>

definition quiet :: "MidiPipeline \<Rightarrow> MidiPipeline \<Rightarrow> bool" where
  "quiet P P' \<longleftrightarrow> (\<forall>d. pipeline_synced (P, (), d) \<longrightarrow> pipeline_synced (P', (), d))"

lemma pipeline_synced_host: "pipeline_synced (P, h, d) \<longleftrightarrow> pipeline_synced (P, (), d)"
  by (simp add: pipeline_synced_def)

lemma quiet_steps [simp]:
  "quiet P P" "quiet P (pipeline_begin_block P)" "quiet P (snd (pipeline_queue_transition t n P))"
  "quiet P (snd (request_panic offset n P))" "quiet P (request_reset P)"
proof -
  fix d
  note step = pipeline_call_step_synced [where S = "(P, (), d)" for d]
  show "quiet P P" "quiet P (pipeline_begin_block P)" "quiet P (snd (pipeline_queue_transition t n P))"
    "quiet P (snd (request_panic offset n P))" "quiet P (request_reset P)"
    using step [of _ pcall_begin_block] step [of _ "pcall_queue t n"] step [of _ "pcall_panic offset n"]
      step [of _ pcall_reset]
    by (simp_all add: quiet_def)
qed

lemma quiet_trans: "quiet P Q \<Longrightarrow> quiet Q R \<Longrightarrow> quiet P R"
  by (simp add: quiet_def)

definition goes :: "Adapter \<Rightarrow> Adapter \<Rightarrow> bool" where
  "goes A A' \<longleftrightarrow>
     (adapter_valid A \<longrightarrow> adapter_valid A') \<and> ad_lifecycle A' = ad_lifecycle A
     \<and> quiet (ad_midi_pipeline A) (ad_midi_pipeline A')"

lemma keeps_goes: "keeps A A' \<Longrightarrow> goes A A'"
  by (simp add: keeps_def goes_def)

lemma goes_then: "goes A B \<Longrightarrow> adapter_valid A \<Longrightarrow> (adapter_valid B \<Longrightarrow> goes B C) \<Longrightarrow> goes A C"
  by (auto simp: goes_def intro: quiet_trans)

lemma goes_pipeline: "quiet (ad_midi_pipeline A) P \<Longrightarrow> goes A (A\<lparr>ad_midi_pipeline := P\<rparr>)"
  by (simp add: goes_def adapter_simps)

lemma probe_queue_quiet: "quiet P (snd (snd (probe_queue o' k n v f (p, P))))"
  by (simp add: probe_queue_def Let_def case_prod_unfold)

lemma trigger_notes_quiet: "quiet P (snd (snd (trigger_notes e f (p, P))))"
proof -
  let ?q = "p\<lparr>pb_trigger_one := pb_trigger_one p + 1\<rparr>"
  obtain b q' P' where 1: "probe_queue (ce_time e + 1) note_on 60 kGeneratedVelocity f (?q, P) = (b, q', P')"
    by (metis prod_cases3)
  then have "quiet P P'"
    using probe_queue_quiet [of P "ce_time e + 1" note_on 60 kGeneratedVelocity f ?q] by simp
  then show ?thesis
    using quiet_trans [OF _ probe_queue_quiet] probe_queue_quiet
    by (simp add: trigger_notes_def 1 split: bool.split)
qed

lemma queue_triggers_quiet: "quiet P (snd (snd (queue_triggers i f is (p, P))))"
proof (induction "is" arbitrary: p P)
  case (Cons k "is")
  show ?case
  proof (cases "is_trigger (in_get i (of_nat k))")
    case (Some e)
    obtain b q Q where t: "trigger_notes e f (p, P) = (b, q, Q)" by (metis prod_cases3)
    then have "quiet P Q" using trigger_notes_quiet [of P e f p] by simp
    then show ?thesis using Cons.IH [where p = q and P = Q] by (auto simp: Some t intro: quiet_trans split: bool.split)
  qed (simp add: Cons.IH)
qed simp

lemma goes_probe: "goes A (probe_block p A)"
proof (cases "ad_probe A")
  case (Some q)
  obtain ok q' P where t: "queue_trigger_transitions (cp_in_events p) (cp_frames p) (record_process p q, ad_midi_pipeline A)
      = (ok, q', P)" by (metis prod_cases3)
  then have "quiet (ad_midi_pipeline A) P"
    using queue_triggers_quiet [of "ad_midi_pipeline A"]
    by (auto simp: queue_trigger_transitions_def split: option.splits if_splits) (metis snd_conv)
  then have g: "goes A (A\<lparr>ad_probe := Some q', ad_midi_pipeline := P\<rparr>)" by (simp add: goes_def adapter_simps)
  have "goes A (latch_status s (A\<lparr>ad_probe := Some q', ad_midi_pipeline := P\<rparr>))" for s
    using g keeps_latch [of "A\<lparr>ad_probe := Some q', ad_midi_pipeline := P\<rparr>" s] by (auto simp: goes_def keeps_def)
  with g show ?thesis by (simp add: probe_block_def Some t Let_def)
qed (simp add: probe_block_def keeps_goes)

lemma goes_adopt:
  assumes "adapter_valid A" "is_running A"
  shows "goes A (adopt_prepared A)"
proof -
  let ?m = "ad_prepared_exchange A"
  obtain m1 ok c where r1: "run claim_latest ?m = (m1, ok, c)" by (metis prod_cases3)
  have "exchange_holds config_valid ?m" using assms by (simp add: adapter_valid_def)
  from claim_latest_holds [OF this r1] have h1: "claim_holds config_valid c m1" .
  let ?c = "pc_requested (sl_prepared (slots m1 ! cl_index c))"
  have v: "config_valid ?c" if "ok" using claimed_config [OF h1] run_claim_latest r1 that by simp
  obtain m2 ok2 c2 where r2: "run (commit c) m1 = (m2, ok2, c2)" by (metis prod_cases3)
  note h2 = commit_holds [OF h1 r2]
  obtain m3 ok3 c3 where r3: "run (cancel c2) m2 = (m3, ok3, c3)" by (metis prod_cases3)
  note h3 = cancel_holds [OF h2 r3]
  note holds = h1 [THEN claim_holds_exchange] h2 [THEN claim_holds_exchange] h3 [THEN claim_holds_exchange]
  have l: "goes A (latch_status s B)" if "goes A B" for s B
    using that keeps_latch [of B s] by (auto simp: goes_def keeps_def)
  let ?B = "A\<lparr>ad_midi_pipeline := request_reset (ad_midi_pipeline A), ad_release_channel_pending := True\<rparr>"
  have g: "goes A (A\<lparr>ad_prepared_exchange := m1\<rparr>)"
    "goes A (A\<lparr>ad_midi_pipeline := request_reset (ad_midi_pipeline A), ad_prepared_exchange := m3,
       ad_release_channel_pending := False\<rparr>)"
    using assms holds by (auto simp: goes_def adapter_simps exchange_holds_def idle_def)
  have "goes A (A\<lparr>ad_midi_pipeline := request_reset (ad_midi_pipeline A), ad_release_channel_pending := True,
       ad_prepared_exchange := m2, ad_active_config := copy_structural_config (ad_active_config A) ?c\<rparr>)"
    "goes A (A\<lparr>ad_midi_pipeline := request_reset (ad_midi_pipeline A), ad_release_channel_pending := True,
       ad_prepared_exchange := m2, ad_active_config := copy_structural_config (ad_active_config A) ?c,
       ad_reconfiguration_pending := False\<rparr>)"
    if ok
    using assms holds v [OF that] copy_structural_valid [of "ad_active_config A" ?c]
    by (auto simp: goes_def adapter_simps exchange_holds_def idle_def)
  then show ?thesis
    using g(1) l [OF g(2)]
    by (simp add: adopt_prepared_def on_exchange_def r1 r2 r3 Let_def keeps_goes split: bool.split)
qed

lemma goes_panic: "goes A (apply_panic_request frames A)"
proof -
  have "goes A (A\<lparr>ad_panic_requested := False,
      ad_midi_pipeline := snd (request_panic (ad_panic_offset A) frames (ad_midi_pipeline A))\<rparr>)"
    by (simp add: goes_def adapter_simps)
  then show ?thesis by (simp add: apply_panic_request_def keeps_goes)
qed

lemma goes_running: "goes A B \<Longrightarrow> is_running A \<Longrightarrow> is_running B"
  by (simp add: goes_def is_running_def)

lemma goes_valid: "goes A B \<Longrightarrow> adapter_valid A \<Longrightarrow> adapter_valid B"
  by (simp add: goes_def)

text \<open>The part of a block before the audio: what the blocks of \<open>plugin_process\<close> do one after the other.\<close>

definition block_start :: "'h ClapProcess \<Rightarrow> Adapter \<Rightarrow> Adapter" where
  "block_start p A =
     apply_panic_request (cp_frames p)
       (apply_audio_parameter_events (cp_in_events p) (cp_frames p)
         (adopt_prepared (synchronize_audio_request
           (probe_block p (A\<lparr>ad_midi_pipeline := pipeline_begin_block (ad_midi_pipeline A)\<rparr>)))))"

lemma goes_block_start:
  assumes "adapter_valid A" "is_running A"
  shows "goes A (block_start p A)"
proof -
  let ?A1 = "A\<lparr>ad_midi_pipeline := pipeline_begin_block (ad_midi_pipeline A)\<rparr>"
  let ?A3 = "synchronize_audio_request (probe_block p ?A1)"
  have 1: "goes A ?A1" by (rule goes_pipeline) simp
  then have 2: "goes A (probe_block p ?A1)" using goes_then assms(1) goes_probe by blast
  then have 3: "goes A ?A3"
    using goes_then [OF 2 assms(1)] keeps_goes [OF keeps_synchronize] by blast
  then have "goes A (adopt_prepared ?A3)"
    using goes_then [OF 3 assms(1)] goes_adopt goes_running [OF 3 assms(2)] by blast
  then have "goes A (apply_audio_parameter_events (cp_in_events p) (cp_frames p) (adopt_prepared ?A3))"
    using goes_then assms(1) keeps_goes [OF keeps_audio_events] by blast
  then show ?thesis unfolding block_start_def using goes_then assms(1) goes_panic by blast
qed

definition block_end :: "MidiProcessResult \<Rightarrow> Adapter \<Rightarrow> Adapter" where
  "block_end midi A =
     (let A = (if ad_release_channel_pending A \<and> \<not> pipeline_cleanup_pending (ad_midi_pipeline A)
               then A\<lparr>ad_release_channel_pending := False\<rparr> else A);
          A = (if mr_invalid_event midi then latch_status status_invalid_input_or_state A else A)
      in publish_runtime_status midi A)"

lemma keeps_block_end: "keeps A (block_end midi A)"
proof -
  let ?B = "A\<lparr>ad_release_channel_pending := False\<rparr>"
  have "keeps A ?B" by (simp add: keeps_def adapter_simps)
  from keeps_trans [OF this keeps_runtime_status] keeps_trans [OF keeps_trans [OF this keeps_latch] keeps_runtime_status]
  show ?thesis
    using keeps_runtime_status [of A midi]
      keeps_trans [OF keeps_latch [of A status_invalid_input_or_state] keeps_runtime_status]
    by (simp add: block_end_def Let_def)
qed

lemma plugin_process_phases:
  "plugin_process process m A h d =
     (if process_refused process A then (process_error, m, A, h, d)
      else let p = the process; A = block_start p A;
               (result, exact_layout, m) = process_audio p (dry_passthrough (ad_audio_requested_config A)) m;
               A = (if \<not> exact_layout then latch_status status_unsupported_layout A
                    else if dp_nonfinite_input result then latch_status status_invalid_input_or_state A else A);
               (midi, A, h, d) = process_midi p result exact_layout A h d
           in (process_continue, m, block_end midi A, h, d))"
  by (simp add: plugin_process_def block_start_def block_end_def Let_def)

lemma valid_pipeline [simp]:
  "adapter_valid (A\<lparr>ad_midi_pipeline := P\<rparr>) = adapter_valid A"
  "adapter_valid (A\<lparr>ad_probe := u\<rparr>) = adapter_valid A"
  "adapter_valid (A\<lparr>ad_host_params := hp\<rparr>) = adapter_valid A"
  by (simp_all add: adapter_simps)

lemma process_midi_ok:
  assumes "adapter_valid A" "pipeline_synced (ad_midi_pipeline A, h, d)"
    "process_midi p r e A h d = (midi, A', h', d')"
  shows "adapter_valid A' \<and> ad_lifecycle A' = ad_lifecycle A \<and> pipeline_synced (ad_midi_pipeline A', h', d')"
proof -
  let ?r = "pipeline_process (cp_frames p) (midi_channel (ad_active_config A))
            (cp_in_events p) (cp_out_events p) (dp_selected_peak r) (\<not> dp_nonfinite_input r)
            e (midi_routing (ad_active_config A)) (ad_midi_pipeline A) h d"
  obtain P where P: "?r = (midi, P, h', d')" "A' = A\<lparr>ad_midi_pipeline := P\<rparr>"
    using assms(3) by (auto simp: process_midi_def Let_def split: prod.splits)
  have "pipeline_synced (snd ?r)" by (rule pipeline_process_synced [OF assms(2)])
  with P assms(1) show ?thesis by simp
qed

lemma process_ok:
  assumes "adapter_valid A" "is_running A" "pipeline_synced (ad_midi_pipeline A, h, d)"
    "plugin_process process m A h d = (st, m', A', h', d')"
  shows "adapter_valid A' \<and> ad_lifecycle A' = ad_lifecycle A \<and> pipeline_synced (ad_midi_pipeline A', h', d')"
proof (cases "process_refused process A")
  case True
  then show ?thesis using assms by (simp add: plugin_process_def)
next
  case False
  let ?p = "the process"
  let ?A1 = "block_start ?p A"
  obtain r e m2 where a: "process_audio ?p (dry_passthrough (ad_audio_requested_config ?A1)) m = (r, e, m2)"
    by (metis prod_cases3)
  define A2 where "A2 = (if \<not> e then latch_status status_unsupported_layout ?A1
      else if dp_nonfinite_input r then latch_status status_invalid_input_or_state ?A1 else ?A1)"
  obtain midi A3 h3 d3 where q: "process_midi ?p r e A2 h d = (midi, A3, h3, d3)" by (metis prod_cases4)
  have "goes ?A1 A2" unfolding A2_def using keeps_goes [OF keeps_latch] keeps_goes [OF keeps_refl] by simp
  then have g: "goes A A2" using goes_then [OF goes_block_start [OF assms(1,2)] assms(1)] by blast
  then have "adapter_valid A2" "ad_lifecycle A2 = ad_lifecycle A" "pipeline_synced (ad_midi_pipeline A2, h, d)"
    using assms(1,3) pipeline_synced_host [of _ h d] by (auto simp: goes_def quiet_def)
  with process_midi_ok [OF _ _ q] have "adapter_valid A3" "ad_lifecycle A3 = ad_lifecycle A"
    "pipeline_synced (ad_midi_pipeline A3, h3, d3)" by simp_all
  moreover have "st = process_continue" "A' = block_end midi A3" "h' = h3" "d' = d3"
    using assms(4) False by (simp_all add: plugin_process_phases a q Let_def flip: A2_def)
  ultimately show ?thesis using keeps_block_end [of A3 midi] by (simp add: keeps_def)
qed

end
