(* ===== verification/Clap_Properties.thy ===== *)
theory Clap_Properties
  imports Clap_Adapter_Laws Config_Validity
begin

text \<open>
  The properties of the CLAP object: sequences of host callbacks, one at a time in any order, and what
  holds after them.
\<close>

subsection \<open>Sequences of callbacks\<close>

text \<open>
  The callbacks that change state. An activation brings the allocator's answer, a block the memory the
  host's buffers are in, a load the host's stream.
\<close>

datatype 'h clap_call =
    clap_init
  | clap_activate bool f64 u32 u32
  | clap_deactivate
  | clap_start_processing
  | clap_stop_processing
  | clap_reset
  | clap_process "'h ClapProcess option" audio_memory
  | clap_flush "ClapInputEvents option"
  | clap_load "(nat \<Rightarrow> 'h \<Rightarrow> (int \<times> (nat \<Rightarrow> u8)) \<times> 'h) option"
  | clap_on_main_thread

text \<open>The object, the host, and the events the host accepted since the last activation.\<close>

type_synonym 'h clap_state = "Adapter \<times> 'h \<times> ClapOutEvent list"

fun clap_call_step :: "'h clap_call \<Rightarrow> 'h clap_state \<Rightarrow> 'h clap_state" where
  "clap_call_step clap_init (A, h, d) = (snd (plugin_init A), h, d)"
| "clap_call_step (clap_activate allocated r lo hi) (A, h, d) =
     (case plugin_activate (\<lambda>_. allocated) r lo hi A of (ok, A) \<Rightarrow> (A, h, if ok then [] else d))"
| "clap_call_step clap_deactivate (A, h, d) = (plugin_deactivate A, h, d)"
| "clap_call_step clap_start_processing (A, h, d) = (snd (plugin_start_processing A), h, d)"
| "clap_call_step clap_stop_processing (A, h, d) = (plugin_stop_processing A, h, d)"
| "clap_call_step clap_reset (A, h, d) = (plugin_reset A, h, d)"
| "clap_call_step (clap_process p m) (A, h, d) = (case plugin_process p m A h d of (_, _, A, h, d) \<Rightarrow> (A, h, d))"
| "clap_call_step (clap_flush input) (A, h, d) = (params_flush input A, h, d)"
| "clap_call_step (clap_load stream) (A, h, d) = (case state_load stream h A of ((_, A), h) \<Rightarrow> (A, h, d))"
| "clap_call_step clap_on_main_thread (A, h, d) = (plugin_on_main_thread A, h, d)"

definition clap_calls :: "bool \<Rightarrow> ClapHost \<Rightarrow> 'h clap_call list \<Rightarrow> 'h \<Rightarrow> 'h clap_state" where
  "clap_calls probe_build host cs h = fold clap_call_step cs (Adapter_init probe_build host, h, [])"

definition clap_ok :: "'h clap_state \<Rightarrow> bool" where
  "clap_ok S \<longleftrightarrow>
     adapter_valid (fst S)
     \<and> (is_running (fst S) \<longrightarrow> pipeline_synced (ad_midi_pipeline (fst S), snd S))"

lemma clap_ok_keeps: "clap_ok (A, h, d) \<Longrightarrow> keeps A A' \<Longrightarrow> clap_ok (A', h, d)"
  by (simp add: clap_ok_def keeps_def is_running_def)

lemma clap_ok_host: "clap_ok (A, h, d) \<Longrightarrow> clap_ok (A, h', d)"
  by (simp add: clap_ok_def pipeline_synced_def)

lemma init_ok:
  assumes "clap_ok (A, h, d)"
  shows "clap_ok (snd (plugin_init A), h, d)"
proof (cases "ad_lifecycle A = lifecycle_created")
  case True
  have "adapter_valid (B\<lparr>ad_lifecycle := lifecycle_initialized\<rparr>)"
    if "adapter_valid B" "ad_lifecycle B = lifecycle_created" for B
    using that by (simp add: adapter_simps)
  with assms True show ?thesis
    by (simp add: plugin_init_def on_probe_def clap_ok_def Let_def is_running_def)
next
  case False
  then show ?thesis using assms by (simp add: plugin_init_def)
qed

lemma activation_ok:
  assumes "clap_ok (A, h, d)" "plugin_activate (\<lambda>_. b) r lo hi A = (ok, A')"
  shows "clap_ok (A', h, if ok then [] else d)"
proof (cases "activation_refused r lo hi A")
  case True
  then show ?thesis using assms by (simp add: plugin_activate_def split: if_splits)
next
  case False
  then have life: "ad_lifecycle A = lifecycle_initialized" and sizes: "is_finite r" "\<not> r \<le> 0" "0 < lo" "lo \<le> hi"
    "unat hi \<le> kMaxHostFrames"
    by (auto simp: activation_refused_def word_gt_0)
  have v: "adapter_valid A" using assms(1) by (simp add: clap_ok_def)
  obtain q A1 where s: "on_request (snapshot 3) A = (q, A1)" by (meson surj_pair)
  then obtain c where c: "A1 = A" "config_valid c" "q = Some (c, acr_generation (ad_config_request A))"
    using snapshot_step [OF s v] by blast
  show ?thesis
  proof (cases "stage_prepared_config c r")
    case None
    then show ?thesis using assms False by (auto simp: plugin_activate_def s c)
  next
    case (Some p)
    obtain a P where P: "pipeline_activate (\<lambda>_. b) hi (ad_midi_pipeline A) = (a, P)" by (meson surj_pair)
    have off: "clap_ok (B, h, d)" if "adapter_valid B" "ad_lifecycle B = lifecycle_initialized" for B
      using that by (simp add: clap_ok_def is_running_def)
    have on: "clap_ok (finish_activation r lo hi c g p (A\<lparr>ad_midi_pipeline := P, ad_probe := u\<rparr>), h, [])" for g u
    proof -
      have "exchange_holds config_valid (snd (exchange_initialize p g (ad_prepared_exchange A)))"
        using v c(2) staged_config [OF Some] by (intro initialize_holds) (simp_all add: adapter_valid_def)
      moreover have "pipeline_synced (P, h, [])"
        using ledger_wf_activate [of "\<lambda>_. b" hi] P
        by (auto simp: pipeline_synced_def pipeline_activate_def Let_def case_prod_unfold clap_notes_def)
      ultimately show ?thesis
        using v c(2) sizes by (simp add: clap_ok_def finish_activation_def adapter_simps)
    qed
    let ?A = "A\<lparr>ad_midi_pipeline := P\<rparr>"
    obtain ok2 B where B: "probe_activation ?A = (ok2, B)" by (meson surj_pair)
    then obtain u where u: "B = ?A\<lparr>ad_probe := u\<rparr>"
      by (cases "ad_probe A") (auto simp: probe_activation_def record_activate_def Let_def intro: that [of None])
    have "plugin_activate (\<lambda>_. b) r lo hi A =
       (if \<not> a then (False, ?A)
        else if \<not> ok2 then (False, B\<lparr>ad_midi_pipeline := pipeline_deactivate (ad_midi_pipeline B)\<rparr>)
        else (True, finish_activation r lo hi c (acr_generation (ad_config_request A)) p B))"
      using False by (simp add: plugin_activate_def s c Some P Let_def B split: bool.split)
    then show ?thesis
      using assms(2) on [of _ u] off [of ?A] off [of "A\<lparr>ad_probe := u, ad_midi_pipeline := pipeline_deactivate P\<rparr>"] v life
      by (auto simp: u split: if_splits)
  qed
qed

lemma deactivation_ok:
  assumes "clap_ok (A, h, d)"
  shows "clap_ok (plugin_deactivate A, h, d)"
proof (cases "ad_lifecycle A = lifecycle_active")
  case True
  have k: "keeps A (take_newer_main_config A)" using assms by (intro keeps_take_newer) (simp add: clap_ok_def)
  then have "adapter_valid (take_newer_main_config A)" using assms by (simp add: keeps_def clap_ok_def)
  then have "adapter_valid (plugin_deactivate A)"
    using True by (simp add: plugin_deactivate_def on_probe_def Let_def) (simp add: adapter_simps)
  moreover have "\<not> is_running (plugin_deactivate A)"
    using True by (simp add: plugin_deactivate_def on_probe_def is_running_def Let_def)
  ultimately show ?thesis by (simp add: clap_ok_def)
qed (use assms in \<open>simp add: plugin_deactivate_def\<close>)

lemma lifecycle_ok:
  assumes "clap_ok (A, h, d)"
  shows "clap_ok (snd (plugin_start_processing A), h, d)" "clap_ok (plugin_stop_processing A, h, d)"
    "clap_ok (plugin_reset A, h, d)"
proof -
  have life: "adapter_valid (A\<lparr>ad_lifecycle := l\<rparr>) = adapter_valid A"
    if "is_running A" "l = lifecycle_active \<or> l = lifecycle_processing" for l
    using that by (auto simp: adapter_valid_def is_running_def sizes_ok_def)
  show "clap_ok (snd (plugin_start_processing A), h, d)" "clap_ok (plugin_stop_processing A, h, d)"
    using assms life
    by (auto simp: plugin_start_processing_def plugin_stop_processing_def on_probe_def clap_ok_def is_running_def)
  let ?B = "A\<lparr>ad_midi_pipeline := request_reset (ad_midi_pipeline A)\<rparr>"
  have "clap_ok (?B, h, d)"
    using assms quiet_steps(5) [of "ad_midi_pipeline A"] pipeline_synced_host [of _ h d]
    by (auto simp: clap_ok_def quiet_def is_running_def)
  from clap_ok_keeps [OF this keeps_trans [OF keeps_latch keeps_probe]] assms
  show "clap_ok (plugin_reset A, h, d)" by (simp add: plugin_reset_def)
qed

lemma clap_call_step_ok:
  assumes "clap_ok S"
  shows "clap_ok (clap_call_step c S)"
proof -
  obtain A h d where S: "S = (A, h, d)" by (metis prod_cases3)
  have ok: "clap_ok (A, h, d)" "adapter_valid A" using assms by (simp_all add: S clap_ok_def)
  have load: "clap_ok (snd (fst (state_load stream h A)), snd (state_load stream h A), d)" for stream
    using clap_ok_host [OF clap_ok_keeps [OF ok(1) keeps_state_load [OF ok(2)]]] .
  have process: "clap_ok (A', h', d')" if "plugin_process p m A h d = (st, m', A', h', d')" for p m st m' A' h' d'
  proof (cases "is_running A")
    case True
    then show ?thesis using process_ok [OF ok(2) True _ that] ok(1) by (simp add: clap_ok_def)
  next
    case False
    then have "process_refused p A" by (auto simp: process_refused_def is_running_def)
    with that False ok(2) show ?thesis by (simp add: plugin_process_def clap_ok_def)
  qed
  show ?thesis
  proof (cases c)
    case (clap_process p m)
    then show ?thesis using process by (auto simp: S split: prod.split)
  next
    case (clap_load stream)
    then show ?thesis using load [of stream] by (simp add: S case_prod_unfold)
  next
    case (clap_activate b r lo hi)
    then show ?thesis using activation_ok [OF ok(1)] by (auto simp: S split: prod.split)
  qed (use ok in \<open>simp_all add: S init_ok deactivation_ok lifecycle_ok
      clap_ok_keeps [OF _ keeps_flush] clap_ok_keeps [OF _ keeps_on_main_thread]\<close>)
qed

lemma initial_adapter_ok: "clap_ok (Adapter_init probe_build host, h, [])"
proof -
  let ?A = "Adapter_init probe_build host"
  have c: "ad_main_config ?A = PersistentConfig_default" "ad_audio_requested_config ?A = PersistentConfig_default"
    "ad_active_config ?A = PersistentConfig_default" "ad_pending_prepared ?A = PreparedConfig_default"
    "ad_config_request ?A = AtomicConfigRequest_init PersistentConfig_default 1"
    "ad_prepared_exchange ?A = PreparedConfigExchange_default" "\<not> ad_prepared_publication_pending ?A"
    "ad_max_frames ?A = 0" "\<not> is_running ?A"
    by (simp_all add: Adapter_init_def is_running_def)
  have "length (slots PreparedConfigExchange_default) = kSlotCount"
    "pc_requested PreparedConfig_default = PersistentConfig_default"
    by (simp_all add: PreparedConfigExchange_default_def PreparedConfig_default_def)
  moreover have "request_holds config_valid (AtomicConfigRequest_init PersistentConfig_default 1)"
    using config_valid_default enums_valid [OF config_valid_default] by (rule request_init_holds)
  ultimately show ?thesis using config_valid_default by (simp add: clap_ok_def adapter_valid_def c)
qed

lemma clap_calls_ok: "clap_ok (clap_calls probe_build host cs h)"
proof -
  have "clap_ok (fold clap_call_step cs S)" if "clap_ok S" for S
    using that
  proof (induction cs arbitrary: S)
    case (Cons c cs)
    from Cons.IH [OF clap_call_step_ok [OF Cons.prems]] show ?case by simp
  qed simp
  from this [OF initial_adapter_ok] show ?thesis by (simp only: clap_calls_def)
qed


text \<open>
  C36: No stuck and no phantom notes from the CLAP object while it is active, in either build. After any
  callbacks, the note messages the host accepted since the activation are matched and leave sounding
  exactly the notes the object still holds open, whatever configuration switches, resets, panics, loads
  and refused events came between.
\<close>

theorem clap_object_in_sync:
  assumes "clap_calls probe_build host cs h = (A, h', d)" "is_running A"
  shows "play (clap_notes d) {#} = Some (open_notes (mp_ledger (ad_midi_pipeline A)))"
  using clap_calls_ok [of probe_build host cs h] assms by (simp add: clap_ok_def pipeline_synced_def)

text \<open>
  A concrete run: the object is made, activated at 48 kHz with the default configuration, started and
  given a block.
\<close>

definition sample_host :: ClapHost where
  "sample_host = \<lparr>ch_compatible = True, ch_name = Some ''host'', ch_version = Some ''1'',
     ch_request_callback = True, ch_get_extension = True, ch_params = Some True\<rparr>"

definition sample_start :: "unit clap_call list" where
  "sample_start = [clap_init, clap_activate True (f64_of_int 48000) 1 64, clap_start_processing]"

definition sample_process :: "unit ClapProcess" where
  "sample_process = \<lparr>cp_frames = 4, cp_audio_inputs = None, cp_audio_outputs = None, cp_in_events = None,
     cp_out_events = Some (\<lambda>h e. (True, h))\<rparr>"

lemma sample_pipeline: "fst (pipeline_activate (\<lambda>_. True) 64 MidiPipeline_default)"
  by code_simp

lemma sample_not_refused:
  "ad_lifecycle A = lifecycle_initialized \<Longrightarrow> \<not> activation_refused (f64_of_int 48000) 1 64 A"
  using f64_of_int_le_iff [of 48000 0] f64_of_int_finite [of 48000]
  by (simp add: activation_refused_def kMaxHostFrames_def del: f64_of_int_0 flip: f64_of_int_0)

lemma sample_snapshot:
  "\<exists>g. run (snapshot 3) (AtomicConfigRequest_init PersistentConfig_default 1)
     = (AtomicConfigRequest_init PersistentConfig_default 1, Some (PersistentConfig_default, g))"
  using run_snapshot [OF request_init_holds [of "\<lambda>c. c = PersistentConfig_default" PersistentConfig_default 1]]
    enums_valid [OF config_valid_default] by auto

lemma sample_running: "is_running (fst (clap_calls False sample_host sample_start ()))"
proof -
  obtain g where s: "run (snapshot 3) (AtomicConfigRequest_init PersistentConfig_default 1)
     = (AtomicConfigRequest_init PersistentConfig_default 1, Some (PersistentConfig_default, g))"
    using sample_snapshot by blast
  obtain p where p: "stage_prepared_config PersistentConfig_default (f64_of_int 48000) = Some p" using stage_default ..
  obtain P where P: "pipeline_activate (\<lambda>_. True) 64 MidiPipeline_default = (True, P)"
    using sample_pipeline by (metis prod.collapse)
  let ?A = "snd (plugin_init (Adapter_init False sample_host))"
  have A: "ad_lifecycle ?A = lifecycle_initialized" "ad_probe ?A = None"
     "ad_config_request ?A = AtomicConfigRequest_init PersistentConfig_default 1" "ad_midi_pipeline ?A = MidiPipeline_default"
    by (simp_all add: plugin_init_def Adapter_init_def sample_host_def on_probe_def)
  have "\<exists>B. plugin_activate (\<lambda>_. True) (f64_of_int 48000) 1 64 ?A = (True, B) \<and> ad_lifecycle B = lifecycle_active"
    using sample_not_refused [OF A(1)]
    by (simp add: plugin_activate_def on_request_def A s p P probe_activation_def finish_activation_def)
  then obtain B where B: "plugin_activate (\<lambda>_. True) (f64_of_int 48000) 1 64 ?A = (True, B)" "ad_lifecycle B = lifecycle_active"
    by blast
  then show ?thesis
    by (simp add: clap_calls_def sample_start_def plugin_start_processing_def on_probe_def is_running_def)
qed

lemma sample_block_running:
  "is_running (fst (clap_calls False sample_host (sample_start @ [clap_process (Some sample_process) (\<lambda>_. [])]) ()))"
proof -
  obtain A h d where S: "clap_calls False sample_host sample_start () = (A, h, d)" by (metis prod_cases3)
  obtain st m A' h' d' where p: "plugin_process (Some sample_process) (\<lambda>_. []) A h d = (st, m, A', h', d')"
    by (metis prod_cases5)
  have r: "is_running A" using sample_running by (simp add: S)
  moreover have "adapter_valid A" "pipeline_synced (ad_midi_pipeline A, h, d)"
    using clap_calls_ok [of False sample_host sample_start "()"] r by (simp_all add: S clap_ok_def)
  ultimately have "ad_lifecycle A' = ad_lifecycle A" using process_ok [OF _ _ _ p] by blast
  with r S p show ?thesis by (simp add: clap_calls_def is_running_def)
qed

theorem clap_object_in_sync_witness:
  "case clap_calls False sample_host (sample_start @ [clap_process (Some sample_process) (\<lambda>_. [])]) () of
     (A, _, d) \<Rightarrow> is_running A \<and> play (clap_notes d) {#} = Some (open_notes (mp_ledger (ad_midi_pipeline A)))"
proof -
  obtain A h d where S: "clap_calls False sample_host (sample_start @ [clap_process (Some sample_process) (\<lambda>_. [])]) () = (A, h, d)"
    by (metis prod_cases3)
  then have "is_running A" using sample_block_running by simp
  with clap_object_in_sync [OF S] S show ?thesis by simp
qed

end
