(* ===== verification/Vst3_Component.thy ===== *)
theory Vst3_Component
  imports Solo_Runs Vst3_Parameter_Bridge State_Streams Calibration_Transport Tuner_Telemetry
    Factory_Calibration String_Calibration Dry_Path Ledger_Properties
begin

unbundle bit_operations_syntax

text \<open>
  The VST3 plugin object (\<open>vst3/vst3_component.cpp\<close>, class \<open>M3Component\<close>): its state and what does not
  depend on a host's block, from status and tuner outputs to the prepared configurations, the calibration
  commands and the audio path of a block. The host calls are in \<open>Vst3_Calls\<close>.

  The pitch detector is an argument: a record of the operations the object calls on a detector state of
  any type, which may answer anything. The factory image and \<open>std::pow(10.0, x)\<close> are arguments as well.
\<close>

subsection \<open>The detector's interface\<close>

record DetectorDecision =
  dd_transitions :: "VoiceTransition list"
  dd_tuner_snapshot :: TunerSnapshot
  dd_tuner :: TunerEstimate
  dd_tuner_snapshot_ready :: bool

record 'd Vst3Env =
  dt_configure :: "f64 \<Rightarrow> PersistentConfig \<Rightarrow> 'd \<Rightarrow> bool \<times> 'd"
  dt_set_runtime_config :: "PersistentConfig \<Rightarrow> 'd \<Rightarrow> 'd"
  dt_reset :: "'d \<Rightarrow> 'd"
  dt_process_sample :: "f64 \<Rightarrow> 'd \<Rightarrow> DetectorDecision \<times> 'd"
  dt_begin_string_calibration :: "u8 \<Rightarrow> 'd \<Rightarrow> bool \<times> 'd"
  dt_cancel_string_calibration :: "'d \<Rightarrow> 'd"
  dt_clear_string_calibration :: "'d \<Rightarrow> 'd"
  dt_set_calibration_bank :: "StringCalibrationBank \<Rightarrow> 'd \<Rightarrow> 'd"
  dt_calibration_bank :: "'d \<Rightarrow> StringCalibrationBank"
  dt_calibration_status :: "'d \<Rightarrow> CalibrationSweepStatus"
  env_factory_image :: "u8 list"
  env_pow10 :: "f64 \<Rightarrow> f64"

subsection \<open>State\<close>

record ProcessSetup =
  su_process_mode :: int
  su_symbolic_sample_size :: int
  su_max_samples_per_block :: int
  su_sample_rate :: f64

record 'd M3Component =
  mc_initialized :: bool
  mc_setup_complete :: bool
  mc_active :: bool
  mc_processing :: bool
  mc_processing_started_once :: bool
  mc_status :: Status
  mc_main_config :: PersistentConfig
  mc_controller_config :: PersistentConfig
  mc_audio_requested_config :: PersistentConfig
  mc_active_config :: PersistentConfig
  mc_pending_structural_config :: PersistentConfig
  mc_config_request :: AtomicConfigRequest
  mc_setup_prepared :: PreparedConfig
  mc_prepared_exchange :: PreparedConfigExchange
  mc_prepared_claim :: Claim
  mc_generated_notes :: NoteLedger
  mc_detector :: 'd
  mc_tuner_telemetry :: TunerTelemetry
  mc_calibration_restore :: CalibrationBankTransport
  mc_calibration_published :: CalibrationBankTransport
  mc_main_calibration_bank :: StringCalibrationBank
  mc_main_generation :: u64
  mc_setup_generation :: u64
  mc_active_generation :: u64
  mc_decision_tick_count :: u64
  mc_decision_phase :: u32
  mc_detector_reset_count :: u32
  mc_main_calibration_restore_generation :: u32
  mc_audio_calibration_restore_generation :: u32
  mc_tuner_note :: u8
  mc_tuner_cents :: f64
  mc_setup_prepared_valid :: bool
  mc_prepared_exchange_initialized :: bool
  mc_prepared_claim_pending :: bool
  mc_structural_boundary_pending :: bool
  mc_release_channel_pending :: bool
  mc_status_dirty :: bool
  mc_tuner_note_dirty :: bool
  mc_tuner_cents_dirty :: bool
  mc_panic_ready_dirty :: bool
  mc_panic_requested :: bool
  mc_calibration_command :: u32
  mc_calibration_status :: u32
  mc_calibration_restore_counter :: u32
  mc_previous_calibration_phase :: CalibrationSweepPhase
  mc_parameters :: parameter_container
  mc_process_setup :: ProcessSetup


text \<open>A new object.\<close>

definition M3Component_new :: "'d \<Rightarrow> 'd M3Component" where
  "M3Component_new detector =
     \<lparr>mc_initialized = False, mc_setup_complete = False, mc_active = False, mc_processing = False,
      mc_processing_started_once = False, mc_status = status_ready,
      mc_main_config = PersistentConfig_default, mc_controller_config = PersistentConfig_default,
      mc_audio_requested_config = PersistentConfig_default, mc_active_config = PersistentConfig_default,
      mc_pending_structural_config = PersistentConfig_default,
      mc_config_request = AtomicConfigRequest_init PersistentConfig_default 0,
      mc_setup_prepared = PreparedConfig_default, mc_prepared_exchange = PreparedConfigExchange_default,
      mc_prepared_claim = invalidate, mc_generated_notes = NoteLedger_default, mc_detector = detector,
      mc_tuner_telemetry = TunerTelemetry_default,
      mc_calibration_restore = CalibrationBankTransport_default,
      mc_calibration_published = CalibrationBankTransport_default,
      mc_main_calibration_bank = StringCalibrationBank_default,
      mc_main_generation = 0, mc_setup_generation = 0, mc_active_generation = 0,
      mc_decision_tick_count = 0, mc_decision_phase = 0, mc_detector_reset_count = 0,
      mc_main_calibration_restore_generation = 0, mc_audio_calibration_restore_generation = 0,
      mc_tuner_note = kTunerNoSignalNote, mc_tuner_cents = 0, mc_setup_prepared_valid = False,
      mc_prepared_exchange_initialized = False, mc_prepared_claim_pending = False,
      mc_structural_boundary_pending = False, mc_release_channel_pending = False,
      mc_status_dirty = False, mc_tuner_note_dirty = False, mc_tuner_cents_dirty = False,
      mc_panic_ready_dirty = False, mc_panic_requested = False, mc_calibration_command = 0,
      mc_calibration_status = 0, mc_calibration_restore_counter = 0,
      mc_previous_calibration_phase = phase_idle, mc_parameters = Map.empty,
      mc_process_setup = \<lparr>su_process_mode = 0, su_symbolic_sample_size = 0, su_max_samples_per_block = 0,
        su_sample_rate = 0\<rparr>\<rparr>"

text \<open>Operations on the members.\<close>

definition on_notes :: "(NoteLedger \<Rightarrow> NoteLedger) \<Rightarrow> 'd M3Component \<Rightarrow> 'd M3Component" where
  "on_notes f C = C\<lparr>mc_generated_notes := f (mc_generated_notes C)\<rparr>"

definition on_detector :: "('d \<Rightarrow> 'd) \<Rightarrow> 'd M3Component \<Rightarrow> 'd M3Component" where
  "on_detector f C = C\<lparr>mc_detector := f (mc_detector C)\<rparr>"

definition on_telemetry :: "unit telemetry_prog \<Rightarrow> 'd M3Component \<Rightarrow> 'd M3Component" where
  "on_telemetry p C = C\<lparr>mc_tuner_telemetry := fst (run p (mc_tuner_telemetry C))\<rparr>"

definition on_published :: "unit transport_prog \<Rightarrow> 'd M3Component \<Rightarrow> 'd M3Component" where
  "on_published p C = C\<lparr>mc_calibration_published := fst (run p (mc_calibration_published C))\<rparr>"

definition on_restore :: "unit transport_prog \<Rightarrow> 'd M3Component \<Rightarrow> 'd M3Component" where
  "on_restore p C = C\<lparr>mc_calibration_restore := fst (run p (mc_calibration_restore C))\<rparr>"

definition with_exchange :: "'a exchange_prog \<Rightarrow> 'd M3Component \<Rightarrow> 'a \<times> 'd M3Component" where
  "with_exchange p C = (case run p (mc_prepared_exchange C) of (m, r) \<Rightarrow> (r, C\<lparr>mc_prepared_exchange := m\<rparr>))"

definition with_request :: "'a request_prog \<Rightarrow> 'd M3Component \<Rightarrow> 'a \<times> 'd M3Component" where
  "with_request p C = (case run p (mc_config_request C) of (m, r) \<Rightarrow> (r, C\<lparr>mc_config_request := m\<rparr>))"

definition cancel_claim :: "'d M3Component \<Rightarrow> 'd M3Component" where
  "cancel_claim C =
     (case with_exchange (cancel (mc_prepared_claim C)) C of
        ((ok, claim), C) \<Rightarrow> C\<lparr>mc_prepared_claim := claim\<rparr>)"

subsection \<open>Status and tuner\<close>

definition set_status :: "Status \<Rightarrow> 'd M3Component \<Rightarrow> 'd M3Component" where
  "set_status status C =
     (if mc_status C \<noteq> status then C\<lparr>mc_status := status, mc_status_dirty := True\<rparr> else C)"

definition raise_status :: "Status \<Rightarrow> 'd M3Component \<Rightarrow> 'd M3Component" where
  "raise_status status C = (if mc_status C < status then set_status status C else C)"

definition update_delivery_status :: "NoteDeliveryResult \<Rightarrow> 'd M3Component \<Rightarrow> 'd M3Component" where
  "update_delivery_status result C =
     (if nd_output_blocked result then raise_status status_midi_output_blocked C
      else if nd_panic_hold result then raise_status status_panic_hold C
      else if mc_status C = status_midi_output_blocked \<or> mc_status C = status_panic_hold
      then set_status status_ready C else C)"

definition update_tuner :: "TunerEstimate \<Rightarrow> 'd M3Component \<Rightarrow> 'd M3Component" where
  "update_tuner estimate C =
     (if \<not> te_updated estimate then C
      else let n = (if te_signal estimate \<and> te_note estimate \<le> 127 then te_note estimate else kTunerNoSignalNote);
               cents = (if n = kTunerNoSignalNote \<or> \<not> is_finite (te_cents estimate) then 0
                        else std_clamp (std_round (te_cents estimate * f64_of_int 10) div f64_of_int 10)
                               (f64_of_int (-50)) (f64_of_int 50));
               C = (if mc_tuner_note C \<noteq> n then C\<lparr>mc_tuner_note := n, mc_tuner_note_dirty := True\<rparr> else C)
           in if \<not> f64_eq (mc_tuner_cents C) cents
              then C\<lparr>mc_tuner_cents := cents, mc_tuner_cents_dirty := True\<rparr> else C)"

definition no_signal_estimate :: TunerEstimate where
  "no_signal_estimate =
     \<lparr>te_updated = True, te_signal = False, te_note = kTunerNoSignalNote, te_cents = 0\<rparr>"

text \<open>The telemetry is cleared and the tuner outputs show no signal.\<close>

definition tuner_off :: "TunerFrameState \<Rightarrow> 'd M3Component \<Rightarrow> 'd M3Component" where
  "tuner_off state C = update_tuner no_signal_estimate (on_telemetry (tuner_clear state) C)"

definition advance_decision_phase :: "u32 \<Rightarrow> 'd M3Component \<Rightarrow> 'd M3Component" where
  "advance_decision_phase frames C =
     (let all_frames = (ucast (mc_decision_phase C) :: u64) + ucast frames
      in C\<lparr>mc_decision_tick_count := mc_decision_tick_count C + all_frames div of_nat kDecisionQuantum,
           mc_decision_phase := ucast (all_frames mod of_nat kDecisionQuantum)\<rparr>)"

subsection \<open>Calibration\<close>

definition kCalibrationCommandNone :: u32 where "kCalibrationCommandNone = 0"
definition kCalibrationCommandFirstString :: u32 where "kCalibrationCommandFirstString = 1"
definition kCalibrationCommandCancel :: u32 where "kCalibrationCommandCancel = 9"
definition kCalibrationCommandClear :: u32 where "kCalibrationCommandClear = 10"
definition kCalibrationPhaseMask :: u32 where "kCalibrationPhaseMask = 0x07"
definition kCalibrationStringShift :: nat where "kCalibrationStringShift = 3"
definition kCalibrationRequestedFretShift :: nat where "kCalibrationRequestedFretShift = 6"
definition kCalibrationMeasuredFretShift :: nat where "kCalibrationMeasuredFretShift = 11"
definition kCalibrationInterpolatedFretShift :: nat where "kCalibrationInterpolatedFretShift = 16"
definition kCalibrationMaskShift :: nat where "kCalibrationMaskShift = 21"

fun CalibrationSweepPhase_to_u32 :: "CalibrationSweepPhase \<Rightarrow> u32" where
  "CalibrationSweepPhase_to_u32 phase_idle = 0"
| "CalibrationSweepPhase_to_u32 phase_waiting_open = 1"
| "CalibrationSweepPhase_to_u32 phase_ascending = 2"
| "CalibrationSweepPhase_to_u32 phase_descending = 3"
| "CalibrationSweepPhase_to_u32 phase_complete = 4"
| "CalibrationSweepPhase_to_u32 phase_insufficient = 5"

definition CalibrationSweepPhase_of_u32 :: "u32 \<Rightarrow> CalibrationSweepPhase" where
  "CalibrationSweepPhase_of_u32 w =
     (if w = 0 then phase_idle else if w = 1 then phase_waiting_open else if w = 2 then phase_ascending
      else if w = 3 then phase_descending else if w = 4 then phase_complete else phase_insufficient)"

definition pack_calibration_status :: "CalibrationSweepStatus \<Rightarrow> u8 \<Rightarrow> u32" where
  "pack_calibration_status status calibrated_string_mask =
     (CalibrationSweepPhase_to_u32 (ss_phase status) AND kCalibrationPhaseMask)
     OR push_bit kCalibrationStringShift (ucast (ss_string_index status) AND 0x07)
     OR push_bit kCalibrationRequestedFretShift (ucast (ss_requested_fret status) AND 0x1F)
     OR push_bit kCalibrationMeasuredFretShift (ucast (ss_measured_frets status) AND 0x1F)
     OR push_bit kCalibrationInterpolatedFretShift (ucast (ss_interpolated_frets status) AND 0x1F)
     OR push_bit kCalibrationMaskShift (ucast calibrated_string_mask)"

record StringCalibrationUiState =
  us_phase :: CalibrationSweepPhase
  us_string_index :: u8
  us_requested_fret :: u8
  us_measured_frets :: u8
  us_interpolated_frets :: u8
  us_calibrated_string_mask :: u8

definition string_calibration_ui_state :: "'d M3Component \<Rightarrow> StringCalibrationUiState" where
  "string_calibration_ui_state C =
     (let packed = mc_calibration_status C; phase = packed AND kCalibrationPhaseMask
      in \<lparr>us_phase = (if phase \<le> CalibrationSweepPhase_to_u32 phase_insufficient
                       then CalibrationSweepPhase_of_u32 phase else phase_idle),
          us_string_index = ucast (drop_bit kCalibrationStringShift packed AND 0x07),
          us_requested_fret = ucast (drop_bit kCalibrationRequestedFretShift packed AND 0x1F),
          us_measured_frets = ucast (drop_bit kCalibrationMeasuredFretShift packed AND 0x1F),
          us_interpolated_frets = ucast (drop_bit kCalibrationInterpolatedFretShift packed AND 0x1F),
          us_calibrated_string_mask = ucast (drop_bit kCalibrationMaskShift packed)\<rparr>)"

text \<open>The editor's commands; the next block applies at most one.\<close>

definition request_string_calibration :: "u8 \<Rightarrow> 'd M3Component \<Rightarrow> bool \<times> 'd M3Component" where
  "request_string_calibration string_index C =
     (if \<not> mc_initialized C \<or> kMaxVoices \<le> unat string_index then (False, C)
      else (True, C\<lparr>mc_calibration_command := kCalibrationCommandFirstString + ucast string_index\<rparr>))"

definition request_cancel_string_calibration :: "'d M3Component \<Rightarrow> 'd M3Component" where
  "request_cancel_string_calibration C =
     (if mc_initialized C then C\<lparr>mc_calibration_command := kCalibrationCommandCancel\<rparr> else C)"

definition request_clear_string_calibration :: "'d M3Component \<Rightarrow> 'd M3Component" where
  "request_clear_string_calibration C =
     (if mc_initialized C then C\<lparr>mc_calibration_command := kCalibrationCommandClear\<rparr> else C)"

definition publish_calibration_bank_from_audio :: "'d Vst3Env \<Rightarrow> 'd M3Component \<Rightarrow> 'd M3Component" where
  "publish_calibration_bank_from_audio E C =
     on_published (ct_publish (dt_calibration_bank E (mc_detector C)) (mc_audio_calibration_restore_generation C)) C"

definition publish_string_calibration_status :: "'d Vst3Env \<Rightarrow> 'd M3Component \<Rightarrow> 'd M3Component" where
  "publish_string_calibration_status E C =
     (let status = dt_calibration_status E (mc_detector C);
          C = (if ss_phase status = phase_complete \<and> mc_previous_calibration_phase C \<noteq> phase_complete
               then publish_calibration_bank_from_audio E C else C)
      in C\<lparr>mc_previous_calibration_phase := ss_phase status,
           mc_calibration_status := pack_calibration_status status
             (cb_calibrated_string_mask (dt_calibration_bank E (mc_detector C)))\<rparr>)"

definition apply_string_calibration_command :: "'d Vst3Env \<Rightarrow> 'd M3Component \<Rightarrow> 'd M3Component" where
  "apply_string_calibration_command E C =
     (let command = mc_calibration_command C;
          C = C\<lparr>mc_calibration_command := kCalibrationCommandNone\<rparr>;
          C = (if kCalibrationCommandFirstString \<le> command
                  \<and> command < kCalibrationCommandFirstString + of_nat kMaxVoices
               then on_detector (\<lambda>d. snd (dt_begin_string_calibration E
                        (ucast (command - kCalibrationCommandFirstString)) (dt_cancel_string_calibration E d))) C
               else if command = kCalibrationCommandCancel then on_detector (dt_cancel_string_calibration E) C
               else if command = kCalibrationCommandClear
               then publish_calibration_bank_from_audio E
                      (on_detector (\<lambda>d. dt_set_calibration_bank E (decode_factory_bank (env_factory_image E))
                         (dt_clear_string_calibration E d)) C)
               else C)
      in publish_string_calibration_status E C)"

definition apply_calibration_restore :: "'d Vst3Env \<Rightarrow> 'd M3Component \<Rightarrow> 'd M3Component" where
  "apply_calibration_restore E C =
     (case snd (run ct_read_latest (mc_calibration_restore C)) of
        None \<Rightarrow> C
      | Some latest \<Rightarrow>
          if bs_generation latest = mc_audio_calibration_restore_generation C then C
          else let C = on_detector (\<lambda>d. dt_set_calibration_bank E (bs_bank latest)
                         (dt_cancel_string_calibration E d)) C;
                   C = C\<lparr>mc_audio_calibration_restore_generation := bs_generation latest,
                         mc_previous_calibration_phase := ss_phase (dt_calibration_status E (mc_detector C))\<rparr>
               in publish_string_calibration_status E
                    (on_published (ct_publish (bs_bank latest) (bs_generation latest)) C))"

definition adopt_published_calibration_on_main_thread :: "'d M3Component \<Rightarrow> 'd M3Component" where
  "adopt_published_calibration_on_main_thread C =
     (case snd (run ct_read_latest (mc_calibration_published C)) of
        None \<Rightarrow> C
      | Some latest \<Rightarrow>
          if bs_generation latest = mc_main_calibration_restore_generation C
          then C\<lparr>mc_main_calibration_bank := bs_bank latest\<rparr> else C)"

subsection \<open>Configurations\<close>

definition same_persistent_config :: "PersistentConfig \<Rightarrow> PersistentConfig \<Rightarrow> bool" where
  "same_persistent_config left right \<longleftrightarrow>
     structural_config_equal left right \<and> f64_eq (input_trim_db left) (input_trim_db right)
     \<and> sensitivity left = sensitivity right \<and> response left = response right
     \<and> velocity_mode left = velocity_mode right \<and> fixed_velocity left = fixed_velocity right
     \<and> dry_passthrough left = dry_passthrough right"

definition publish_main_config :: "PersistentConfig \<Rightarrow> 'd M3Component \<Rightarrow> bool \<times> 'd M3Component" where
  "publish_main_config config C =
     (if same_persistent_config (mc_main_config C) config then (True, C\<lparr>mc_main_config := config\<rparr>)
      else
        let is_structural = (\<not> structural_config_equal (mc_main_config C) config);
            staged = (if is_structural \<and> mc_setup_complete C
                      then stage_prepared_config config (su_sample_rate (mc_process_setup C))
                      else Some PreparedConfig_default)
        in case staged of
             None \<Rightarrow> (False, C)
           | Some prepared \<Rightarrow>
               let generation = mc_main_generation C + 1;
                   (exchanged, C) =
                     (if is_structural \<and> mc_active C \<and> mc_prepared_exchange_initialized C
                      then with_exchange (publish prepared generation) C else (True, C))
               in if \<not> exchanged then (False, C)
                  else case with_request (request_publish config generation) C of
                         (False, C) \<Rightarrow> (False, C)
                       | (True, C) \<Rightarrow>
                           let C = C\<lparr>mc_main_config := config, mc_main_generation := generation\<rparr>
                           in (True, if is_structural \<and> mc_setup_complete C
                                     then C\<lparr>mc_setup_prepared := prepared, mc_setup_generation := generation,
                                            mc_setup_prepared_valid := True\<rparr>
                                     else C))"

definition claimed :: "Claim \<Rightarrow> PreparedConfigExchange \<Rightarrow> PreparedConfig" where
  "claimed claim m = sl_prepared (slots m ! the (cl_config claim))"

definition claim_matching_prepared_config :: "'d M3Component \<Rightarrow> 'd M3Component" where
  "claim_matching_prepared_config C =
     (if \<not> mc_structural_boundary_pending C \<or> mc_prepared_claim_pending C
         \<or> \<not> mc_prepared_exchange_initialized C
      then C
      else case with_exchange claim_latest C of
             ((False, claim), C) \<Rightarrow> raise_status status_reconfiguring C
           | ((True, claim), C) \<Rightarrow>
               let matches = (cl_config claim \<noteq> None
                      \<and> f64_eq (pc_sample_rate (claimed claim (mc_prepared_exchange C)))
                               (su_sample_rate (mc_process_setup C))
                      \<and> structural_config_equal (pc_requested (claimed claim (mc_prepared_exchange C)))
                                                (mc_pending_structural_config C))
               in if \<not> matches
                  then raise_status status_reconfiguring (snd (with_exchange (cancel claim) C))
                  else C\<lparr>mc_prepared_claim := claim, mc_prepared_claim_pending := True\<rparr>)"

definition reset_detector_transients :: "'d Vst3Env \<Rightarrow> 'd M3Component \<Rightarrow> 'd M3Component" where
  "reset_detector_transients E C =
     (let C = C\<lparr>mc_decision_phase := 0, mc_decision_tick_count := 0\<rparr>;
          C = on_detector (\<lambda>d. dt_reset E (dt_cancel_string_calibration E d)) C;
          C = tuner_off frame_no_signal C;
          C = publish_string_calibration_status E C
      in C\<lparr>mc_detector_reset_count := mc_detector_reset_count C + 1\<rparr>)"

definition begin_structural_boundary ::
  "'d Vst3Env \<Rightarrow> PersistentConfig \<Rightarrow> 'd M3Component \<Rightarrow> 'd M3Component" where
  "begin_structural_boundary E config C =
     (if mc_structural_boundary_pending C \<and> same_persistent_config (mc_pending_structural_config C) config
      then C
      else let C = (if mc_prepared_claim_pending C
                    then (cancel_claim C)\<lparr>mc_prepared_claim_pending := False\<rparr> else C);
               C = C\<lparr>mc_pending_structural_config := config, mc_structural_boundary_pending := True,
                     mc_release_channel_pending := True\<rparr>;
               C = on_notes request_release_all C
           in claim_matching_prepared_config (reset_detector_transients E C))"

definition commit_prepared_config_if_released :: "'d Vst3Env \<Rightarrow> 'd M3Component \<Rightarrow> 'd M3Component" where
  "commit_prepared_config_if_released E C =
     (if \<not> mc_structural_boundary_pending C then C
      else let C = (if \<not> mc_prepared_claim_pending C then claim_matching_prepared_config C else C)
      in if \<not> mc_prepared_claim_pending C \<or> release_pending (mc_generated_notes C)
         then raise_status status_reconfiguring C
         else let prepared = pc_requested (claimed (mc_prepared_claim C) (mc_prepared_exchange C));
                  generation = cl_generation (mc_prepared_claim C);
                  ((ok, claim), C) = with_exchange (commit (mc_prepared_claim C)) C;
                  C = C\<lparr>mc_prepared_claim := claim\<rparr>
              in if \<not> ok
                 then raise_status status_invalid_input_or_state
                        ((cancel_claim C)\<lparr>mc_prepared_claim_pending := False\<rparr>)
                 else let config = copy_runtime_config prepared (mc_pending_structural_config C);
                          C = C\<lparr>mc_prepared_claim_pending := False, mc_active_config := config,
                                mc_audio_requested_config := config, mc_active_generation := generation,
                                mc_structural_boundary_pending := False, mc_release_channel_pending := False\<rparr>;
                          C = on_detector (\<lambda>d. snd (dt_configure E (su_sample_rate (mc_process_setup C))
                                (mc_active_config C) d)) C
                      in if mc_status C = status_reconfiguring then set_status status_ready C else C)"

definition request_panic_recovery :: "'d Vst3Env \<Rightarrow> 'd M3Component \<Rightarrow> 'd M3Component" where
  "request_panic_recovery E C =
     on_notes (\<lambda>L. request_recovery (request_release_all L)) (on_detector (dt_reset E) C)"

end
