(* ===== verification/Vst3_Block.thy ===== *)
theory Vst3_Block
  imports Vst3_Component
begin

unbundle bit_operations_syntax

text \<open>
  A block of the VST3 plugin object (\<open>process\<close> and \<open>process_samples\<close> of \<open>vst3/vst3_component.cpp\<close>): the
  host's data, the outputs of parameters and notes, the layout check, the detector's run over the samples
  and the order of all of it. What a block changes outside the object is a record beside it: the event
  list, the memory the buffers are in, the silence flags written to the output bus, and the host's output
  parameter changes. A 32-bit sample is represented by the double it converts to.
\<close>

subsection \<open>The host's data\<close>

record AudioBusBuffers =
  bb_num_channels :: int
  bb_silence_flags :: u64
  bb_channel_buffers32 :: "channels option"
  bb_channel_buffers64 :: "channels option"

record ('q, 'o) OutputChanges =
  oc_add_parameter_data :: "ParameterId \<Rightarrow> 'o \<Rightarrow> ('q option \<times> int) \<times> 'o"
  oc_add_point :: "'q \<Rightarrow> int \<Rightarrow> f64 \<Rightarrow> 'o \<Rightarrow> (bool \<times> int) \<times> 'o"

text \<open>Of the bus arrays the first bus is read; none is a null array.\<close>

record ('h, 'q, 'o) ProcessData =
  pd_process_mode :: int
  pd_symbolic_sample_size :: int
  pd_num_samples :: int
  pd_num_inputs :: int
  pd_num_outputs :: int
  pd_inputs :: "AudioBusBuffers option"
  pd_outputs :: "AudioBusBuffers option"
  pd_input_parameter_changes :: "ParameterChanges option"
  pd_output_parameter_changes :: "('q, 'o) OutputChanges option"
  pd_output_events :: "'h add_event_fun option"

record ('h, 'o) BlockWorld =
  bw_events :: "'h Vst3EventSinkContext"
  bw_memory :: audio_memory
  bw_silence_flags :: "u64 option"
  bw_outputs :: 'o

type_synonym ('d, 'h, 'o) block_state = "'d M3Component \<times> ('h, 'o) BlockWorld"

datatype tresult = kResultOk | kResultFalse | kInvalidArgument | kOutOfMemory

definition kRealtime :: int where "kRealtime = 0"
definition kPrefetch :: int where "kPrefetch = 1"
definition kOffline :: int where "kOffline = 2"
definition kSample32 :: int where "kSample32 = 0"
definition kSample64 :: int where "kSample64 = 1"

definition is_process_mode :: "int \<Rightarrow> bool" where
  "is_process_mode mode \<longleftrightarrow> mode = kRealtime \<or> mode = kPrefetch \<or> mode = kOffline"

definition process_mode_compatible_with_setup :: "int \<Rightarrow> int \<Rightarrow> bool" where
  "process_mode_compatible_with_setup setup_mode process_mode =
     (if \<not> is_process_mode setup_mode \<or> \<not> is_process_mode process_mode then False
      else if setup_mode = kOffline \<or> process_mode = kOffline then setup_mode = process_mode
      else True)"

subsection \<open>Parameter outputs\<close>

definition push_value ::
  "('q, 'o) OutputChanges option \<Rightarrow> ParameterId \<Rightarrow> f64 \<Rightarrow> 'o \<Rightarrow> bool \<times> 'o" where
  "push_value changes pid normalized ho =
     (case changes of
        None \<Rightarrow> (False, ho)
      | Some c \<Rightarrow> push_output_value (oc_add_parameter_data c) (oc_add_point c) True pid normalized 0 ho)"

definition output_normalized :: "ParameterId \<Rightarrow> f64 \<Rightarrow> f64" where
  "output_normalized pid plain =
     (case find_vst3_parameter pid of None \<Rightarrow> f64_nan | Some spec \<Rightarrow> plain_to_normalized spec plain)"

text \<open>Each value that changed is sent once; a value the host refuses stays marked.\<close>

definition publish_parameter_outputs ::
  "('q, 'o) OutputChanges option \<Rightarrow> 'd M3Component \<times> 'o \<Rightarrow> 'd M3Component \<times> 'o" where
  "publish_parameter_outputs changes Co =
     (let (C, ho) = Co;
          (C, ho) = (if mc_status_dirty C
            then (case push_value changes kStatusParameterId
                    (output_normalized kStatusParameterId (f64_of_u8 (Status_to_u8 (mc_status C)))) ho of
                    (ok, ho) \<Rightarrow> (if ok then C\<lparr>mc_status_dirty := False\<rparr> else C, ho))
            else (C, ho));
          (C, ho) = (if mc_tuner_note_dirty C
            then (case push_value changes kTunerNoteParameterId
                    (output_normalized kTunerNoteParameterId (f64_of_u8 (mc_tuner_note C))) ho of
                    (ok, ho) \<Rightarrow> (if ok then C\<lparr>mc_tuner_note_dirty := False\<rparr> else C, ho))
            else (C, ho));
          (C, ho) = (if mc_tuner_cents_dirty C
            then (case push_value changes kTunerCentsParameterId
                    (output_normalized kTunerCentsParameterId (mc_tuner_cents C)) ho of
                    (ok, ho) \<Rightarrow> (if ok then C\<lparr>mc_tuner_cents_dirty := False\<rparr> else C, ho))
            else (C, ho))
      in if mc_panic_ready_dirty C
         then (case push_value changes kPanicParameterId 0 ho of
                 (ok, ho) \<Rightarrow> (if ok then C\<lparr>mc_panic_ready_dirty := False\<rparr> else C, ho))
         else (C, ho))"

definition publish_outputs ::
  "('q, 'o) OutputChanges option \<Rightarrow> ('d, 'h, 'o) block_state \<Rightarrow> ('d, 'h, 'o) block_state" where
  "publish_outputs changes S =
     (case publish_parameter_outputs changes (fst S, bw_outputs (snd S)) of
        (C, ho) \<Rightarrow> (C, (snd S)\<lparr>bw_outputs := ho\<rparr>))"

subsection \<open>Notes\<close>

definition component_retry_pending_releases ::
  "('h, 'q, 'o) ProcessData \<Rightarrow> ('d, 'h, 'o) block_state \<Rightarrow> ('d, 'h, 'o) block_state" where
  "component_retry_pending_releases data S =
     (case S of (C, W) \<Rightarrow>
        case retry_pending_releases (Some (push_vst3_note (pd_output_events data))) (mc_generated_notes C) (bw_events W) of
          (ok, L, ctx) \<Rightarrow>
            let C = C\<lparr>mc_generated_notes := L\<rparr>; W = W\<lparr>bw_events := ctx\<rparr>
            in (if \<not> ok then raise_status status_midi_output_blocked C
                else if \<not> mc_structural_boundary_pending C then C\<lparr>mc_release_channel_pending := False\<rparr>
                else C, W))"

definition deliver_generated_notes ::
  "('h, 'q, 'o) ProcessData \<Rightarrow> bool \<Rightarrow> bool \<Rightarrow> f64 \<Rightarrow> ('d, 'h, 'o) block_state \<Rightarrow> ('d, 'h, 'o) block_state" where
  "deliver_generated_notes data finite_input supported_layout selected_peak S =
     (case S of (C, W) \<Rightarrow>
        case deliver_queued (word_of_int (pd_num_samples data)) (Some (push_vst3_note (pd_output_events data)))
               selected_peak finite_input supported_layout (midi_routing (mc_active_config C))
               (midi_channel (mc_active_config C)) (mc_generated_notes C) (bw_events W) of
          (result, L, ctx) \<Rightarrow>
            let C = C\<lparr>mc_generated_notes := L\<rparr>; W = W\<lparr>bw_events := ctx\<rparr>
            in (if mc_status C = status_unsupported_layout \<or> mc_status C = status_invalid_input_or_state then C
                else update_delivery_status result C, W))"

text \<open>What every refused block does to the object.\<close>

definition notes_failed :: "'d M3Component \<Rightarrow> 'd M3Component" where
  "notes_failed C = tuner_off frame_unavailable (on_notes report_output_failure C)"

subsection \<open>Layout\<close>

definition bus_channels :: "bool \<Rightarrow> AudioBusBuffers \<Rightarrow> channels option" where
  "bus_channels float32 b = (if float32 then bb_channel_buffers32 b else bb_channel_buffers64 b)"

text \<open>The channel pointers of both buses, cut to the channel count, when the layout is valid.\<close>

definition valid_layout ::
  "bool \<Rightarrow> ('h, 'q, 'o) ProcessData \<Rightarrow> (AudioBusBuffers \<times> channels \<times> channels) option" where
  "valid_layout float32 data =
     (case (pd_inputs data, pd_outputs data) of
        (Some input, Some out) \<Rightarrow>
          let n = bb_num_channels input;
              valid_silence_mask = (if n = 1 then 1 else 3)
          in if pd_num_inputs data = 1 \<and> pd_num_outputs data = 1 \<and> (n = 1 \<or> n = 2)
                \<and> bb_num_channels out = n \<and> bb_silence_flags input AND NOT valid_silence_mask = 0
             then (case (bus_channels float32 input, bus_channels float32 out) of
                     (Some ic, Some oc) \<Rightarrow>
                       if ic ! 0 \<noteq> None \<and> oc ! 0 \<noteq> None
                          \<and> (n = 2 \<longrightarrow> ic ! 1 \<noteq> None \<and> oc ! 1 \<noteq> None \<and> ic ! 0 \<noteq> ic ! 1 \<and> oc ! 0 \<noteq> oc ! 1)
                       then Some (input, take (nat n) ic, take (nat n) oc) else None
                   | _ \<Rightarrow> None)
             else None
      | _ \<Rightarrow> None)"

definition zero_channel :: "nat \<Rightarrow> channels \<Rightarrow> nat \<Rightarrow> audio_memory \<times> u64 \<Rightarrow> audio_memory \<times> u64" where
  "zero_channel frames chs ch mf =
     (case chs ! ch of
        None \<Rightarrow> mf
      | Some p \<Rightarrow> (case mf of (m, flags) \<Rightarrow>
          (m(p := replicate frames 0 @ drop frames (m p)), flags OR push_bit ch 1)))"

definition zero_available_output ::
  "bool \<Rightarrow> ('h, 'q, 'o) ProcessData \<Rightarrow> ('h, 'o) BlockWorld \<Rightarrow> ('h, 'o) BlockWorld" where
  "zero_available_output float32 data W =
     (case pd_outputs data of
        None \<Rightarrow> W
      | Some out \<Rightarrow>
          if pd_num_outputs data \<le> 0 then W
          else case bus_channels float32 out of
                 None \<Rightarrow> W\<lparr>bw_silence_flags := Some 0\<rparr>
               | Some chs \<Rightarrow>
                   (case fold (zero_channel (nat (pd_num_samples data)) chs)
                           [0..<nat (std_clamp (bb_num_channels out) 0 2)] (bw_memory W, 0) of
                      (m, flags) \<Rightarrow> W\<lparr>bw_memory := m, bw_silence_flags := Some flags\<rparr>))"

subsection \<open>The detector's run\<close>

fun queue_decision :: "VoiceTransition list \<Rightarrow> u32 \<Rightarrow> u32 \<Rightarrow> NoteLedger \<Rightarrow> NoteLedger" where
  "queue_decision [] frame frames L = L"
| "queue_decision (t # ts) frame frames L =
     (case queue_transition (t\<lparr>vt_sample_offset := frame\<rparr>) frames L of
        (False, L) \<Rightarrow> report_output_failure L
      | (True, L) \<Rightarrow> queue_decision ts frame frames L)"

definition detector_frame :: "'d Vst3Env \<Rightarrow> f64 \<Rightarrow> u32 \<Rightarrow> u32 \<Rightarrow> 'd M3Component \<Rightarrow> 'd M3Component" where
  "detector_frame E sample frame frames C =
     (let (decision, d) = dt_process_sample E sample (mc_detector C);
          C = C\<lparr>mc_detector := d\<rparr>;
          C = (if dd_tuner_snapshot_ready decision then on_telemetry (tuner_publish (dd_tuner_snapshot decision)) C
               else C);
          C = update_tuner (dd_tuner decision) C
      in on_notes (queue_decision (dd_transitions decision) frame frames) C)"

fun run_detector ::
  "'d Vst3Env \<Rightarrow> (nat \<Rightarrow> f64) \<Rightarrow> u32 \<Rightarrow> nat list \<Rightarrow> 'd M3Component \<Rightarrow> 'd M3Component" where
  "run_detector E sample frames [] C = C"
| "run_detector E sample frames (frame # rest) C =
     (let C = detector_frame E (sample frame) (of_nat frame) frames C
      in if output_blocked (mc_generated_notes C) then C else run_detector E sample frames rest C)"

definition detector_input ::
  "audio_memory \<Rightarrow> channels \<Rightarrow> u64 \<Rightarrow> DryPathResult \<Rightarrow> f64 \<Rightarrow> nat \<Rightarrow> f64" where
  "detector_input m ic flags analysis gain frame =
     (let left = (if silent_channel flags 0 then 0 else sample_at m ic 0 frame);
          right = (if length ic < 2 \<or> silent_channel flags 1 then 0 else sample_at m ic 1 frame);
          selected = left * dp_detector_left_gain analysis + right * dp_detector_right_gain analysis
      in selected * gain)"

definition input_gain :: "'d Vst3Env \<Rightarrow> 'd M3Component \<Rightarrow> f64" where
  "input_gain E C = env_pow10 E (input_trim_db (mc_active_config C) div f64_of_int 20)"

definition detector_allowed :: "DryPathResult \<Rightarrow> f64 \<Rightarrow> 'd M3Component \<Rightarrow> bool" where
  "detector_allowed analysis gain C \<longleftrightarrow>
     \<not> dp_nonfinite_input analysis \<and> is_finite gain \<and> \<not> mc_structural_boundary_pending C
     \<and> \<not> release_pending (mc_generated_notes C) \<and> \<not> output_blocked (mc_generated_notes C)
     \<and> \<not> panic_hold (mc_generated_notes C)"

text \<open>The samples of a block, from the input's analysis to its peak in the telemetry.\<close>

definition process_input ::
  "'d Vst3Env \<Rightarrow> audio_memory \<Rightarrow> channels \<Rightarrow> u64 \<Rightarrow> DryPathResult \<Rightarrow> nat \<Rightarrow> 'd M3Component \<Rightarrow> 'd M3Component" where
  "process_input E m ic flags analysis frames C =
     (let gain = input_gain E C;
          C = (if dp_nonfinite_input analysis
               then notes_failed ((raise_status status_invalid_input_or_state C)\<lparr>mc_release_channel_pending := True\<rparr>)
               else C);
          C = (if detector_allowed analysis gain C
               then run_detector E (detector_input m ic flags analysis gain) (of_nat frames) [0..<frames]
                      (advance_decision_phase (of_nat frames) C)
               else tuner_off frame_unavailable C)
      in on_telemetry (publish_input_peak
           (if \<not> dp_nonfinite_input analysis \<and> is_finite gain then dp_selected_peak analysis * gain else 0)) C)"

definition process_samples ::
  "'d Vst3Env \<Rightarrow> bool \<Rightarrow> ('h, 'q, 'o) ProcessData \<Rightarrow> ('d, 'h, 'o) block_state \<Rightarrow> ('d, 'h, 'o) block_state" where
  "process_samples E float32 data S =
     (case valid_layout float32 data of
        None \<Rightarrow>
          let (C, W) = S;
              C = notes_failed ((raise_status status_unsupported_layout C)\<lparr>mc_release_channel_pending := True\<rparr>);
              W = zero_available_output float32 data W;
              (C, W) = deliver_generated_notes data True False 0 (component_retry_pending_releases data (C, W))
          in (on_notes ledger_begin_block C, W)
      | Some (input, ic, oc) \<Rightarrow>
          let (C, W) = component_retry_pending_releases data S;
              C = commit_prepared_config_if_released E C;
              frames = nat (pd_num_samples data);
              flags = bb_silence_flags input;
              analysis = analyze_detector_input (bw_memory W) (Some ic) frames flags;
              C = process_input E (bw_memory W) ic flags analysis frames C;
              (result, m) = process_dry_path (bw_memory W) (Some ic) (Some oc) frames
                 (dry_passthrough (mc_audio_requested_config C)) flags;
              W = W\<lparr>bw_memory := m, bw_silence_flags := Some (dp_output_silence_flags result)\<rparr>;
              C = (if mc_structural_boundary_pending C then on_notes ledger_begin_block C else C);
              (C, W) = deliver_generated_notes data (\<not> dp_nonfinite_input analysis) True
                         (dp_selected_peak analysis) (C, W)
          in (on_notes ledger_begin_block (publish_string_calibration_status E C), W))"

subsection \<open>The block\<close>

definition block_refused :: "('h, 'q, 'o) ProcessData \<Rightarrow> 'd M3Component \<Rightarrow> bool" where
  "block_refused data C \<longleftrightarrow>
     \<not> mc_processing C
     \<or> \<not> process_mode_compatible_with_setup (su_process_mode (mc_process_setup C)) (pd_process_mode data)
     \<or> pd_num_samples data < 0 \<or> su_max_samples_per_block (mc_process_setup C) < pd_num_samples data
     \<or> int kMaxHostFrames < pd_num_samples data
     \<or> pd_symbolic_sample_size data \<noteq> su_symbolic_sample_size (mc_process_setup C)"

definition refuse_block ::
  "('h, 'q, 'o) ProcessData \<Rightarrow> ('d, 'h, 'o) block_state \<Rightarrow> tresult \<times> ('d, 'h, 'o) block_state" where
  "refuse_block data S =
     (kInvalidArgument, publish_outputs (pd_output_parameter_changes data)
        (notes_failed (raise_status status_invalid_input_or_state (fst S)), snd S))"

definition apply_block_parameters :: "'d Vst3Env \<Rightarrow> ParameterBatch \<Rightarrow> 'd M3Component \<Rightarrow> 'd M3Component" where
  "apply_block_parameters E batch C =
     (let C = (if \<not> pb_changed batch then C
               else if pb_structural batch then begin_structural_boundary E (pb_candidate batch) C
               else let C = C\<lparr>mc_audio_requested_config :=
                                copy_runtime_config (mc_audio_requested_config C) (pb_candidate batch),
                              mc_active_config := copy_runtime_config (mc_active_config C) (pb_candidate batch)\<rparr>
                    in on_detector (dt_set_runtime_config E (mc_active_config C)) C)
      in if pb_panic batch \<or> mc_panic_requested C
         then request_panic_recovery E
                (C\<lparr>mc_panic_ready_dirty := True,
                   mc_panic_requested := (if pb_panic batch then mc_panic_requested C else False)\<rparr>)
         else C)"

definition component_process ::
  "'d Vst3Env \<Rightarrow> ('h, 'q, 'o) ProcessData \<Rightarrow> ('d, 'h, 'o) block_state \<Rightarrow> tresult \<times> ('d, 'h, 'o) block_state" where
  "component_process E data S =
     (if block_refused data (fst S) then refuse_block data S
      else case read_last_boundary_values (pd_input_parameter_changes data) (pd_num_samples data)
                  (mc_audio_requested_config (fst S)) of
             (False, batch) \<Rightarrow> refuse_block data S
           | (True, batch) \<Rightarrow>
               let C = apply_block_parameters E batch (fst S);
                   C = apply_string_calibration_command E (apply_calibration_restore E C);
                   S = (C, snd S)
               in if pd_num_samples data = 0
                  then (kResultOk, publish_outputs (pd_output_parameter_changes data)
                         (if mc_structural_boundary_pending C then raise_status status_reconfiguring C else C, snd S))
                  else if pd_symbolic_sample_size data = kSample32
                  then (kResultOk, publish_outputs (pd_output_parameter_changes data) (process_samples E True data S))
                  else if pd_symbolic_sample_size data = kSample64
                  then (kResultOk, publish_outputs (pd_output_parameter_changes data) (process_samples E False data S))
                  else refuse_block data S)"

end
