(* ===== verification/Vst3_Calls.thy ===== *)
theory Vst3_Calls
  imports Vst3_Block
begin

unbundle bit_operations_syntax

text \<open>
  The host's calls of the VST3 plugin object (\<open>vst3/vst3_component.cpp\<close>): lifecycle, setup, state and
  parameters. What the SDK's base class does is modelled where the object reads it back (the process
  setup, the parameter container); the results of its \<open>initialize\<close>, \<open>terminate\<close> and
  \<open>setBusArrangements\<close> are arguments, as are the answers of the allocator.
\<close>

subsection \<open>Lifecycle\<close>

text \<open>The members \<open>initialize\<close> and \<open>terminate\<close> both reset.\<close>

definition reset_members :: "'d M3Component \<Rightarrow> 'd M3Component" where
  "reset_members C =
     C\<lparr>mc_main_config := PersistentConfig_default, mc_controller_config := PersistentConfig_default,
       mc_audio_requested_config := PersistentConfig_default, mc_active_config := PersistentConfig_default,
       mc_pending_structural_config := PersistentConfig_default, mc_setup_generation := 0,
       mc_active_generation := 0, mc_setup_prepared := PreparedConfig_default, mc_setup_prepared_valid := False,
       mc_prepared_exchange := exchange_reset (mc_prepared_exchange C), mc_prepared_exchange_initialized := False,
       mc_prepared_claim_pending := False, mc_structural_boundary_pending := False,
       mc_release_channel_pending := False, mc_generated_notes := ledger_deactivate (mc_generated_notes C),
       mc_calibration_restore := fst (run ct_reset (mc_calibration_restore C)),
       mc_calibration_published := fst (run ct_reset (mc_calibration_published C)),
       mc_processing_started_once := False, mc_decision_phase := 0, mc_decision_tick_count := 0,
       mc_detector_reset_count := 0, mc_main_calibration_restore_generation := 0,
       mc_audio_calibration_restore_generation := 0, mc_previous_calibration_phase := phase_idle,
       mc_tuner_note := kTunerNoSignalNote, mc_tuner_cents := 0, mc_panic_ready_dirty := False,
       mc_panic_requested := False, mc_calibration_command := kCalibrationCommandNone,
       mc_calibration_restore_counter := 0, mc_status_dirty := False, mc_tuner_note_dirty := False,
       mc_tuner_cents_dirty := False, mc_status := status_ready\<rparr>"

definition component_initialize ::
  "'d Vst3Env \<Rightarrow> bool \<Rightarrow> tresult \<Rightarrow> (nat \<Rightarrow> bool) \<Rightarrow> 'd M3Component \<Rightarrow> tresult \<times> 'd M3Component" where
  "component_initialize E has_context base allocated C =
     (if mc_initialized C \<or> \<not> has_context then (kInvalidArgument, C)
      else if base \<noteq> kResultOk then (base, C)
      else case register_vst3_parameters allocated (mc_parameters C) of
             (False, container) \<Rightarrow> (kOutOfMemory, C\<lparr>mc_parameters := Map.empty\<rparr>)
           | (True, container) \<Rightarrow>
               let C = reset_members (C\<lparr>mc_parameters := container\<rparr>);
                   C = C\<lparr>mc_main_generation := 1,
                         mc_config_request := fst (run (atomic_request_reset PersistentConfig_default 1)
                                                       (mc_config_request C))\<rparr>;
                   C = on_telemetry (tuner_clear frame_unavailable) C;
                   bank = decode_factory_bank (env_factory_image E);
                   C = on_published (ct_publish bank 0) (C\<lparr>mc_main_calibration_bank := bank\<rparr>)
               in (kResultOk, C\<lparr>mc_calibration_status := pack_calibration_status CalibrationSweepStatus_default
                                  (cb_calibrated_string_mask bank), mc_initialized := True\<rparr>))"

definition component_terminate :: "'d Vst3Env \<Rightarrow> tresult \<Rightarrow> 'd M3Component \<Rightarrow> tresult \<times> 'd M3Component" where
  "component_terminate E base C =
     (if \<not> mc_initialized C \<or> mc_active C \<or> mc_processing C then (kInvalidArgument, C)
      else let C = C\<lparr>mc_parameters := Map.empty\<rparr>
      in if base \<noteq> kResultOk then (base, C)
      else let C = C\<lparr>mc_initialized := False, mc_setup_complete := False\<rparr>;
               C = (if mc_prepared_claim_pending C then cancel_claim C else C);
               C = on_detector (\<lambda>d. dt_reset E (dt_clear_string_calibration E d)) (reset_members C)
           in (kResultOk, C\<lparr>mc_main_calibration_bank := bank_clear (mc_main_calibration_bank C),
                            mc_main_generation := 0, mc_calibration_status := 0\<rparr>))"

definition kMono :: u64 where "kMono = push_bit 19 1"
definition kStereo :: u64 where "kStereo = 3"

text \<open>A bus array is the list of its arrangements, none for a null array; the count is its own argument.\<close>

definition set_bus_arrangements ::
  "tresult \<Rightarrow> u64 list option \<Rightarrow> int \<Rightarrow> u64 list option \<Rightarrow> int \<Rightarrow> 'd M3Component \<Rightarrow> tresult" where
  "set_bus_arrangements base inputs num_inputs outputs num_outputs C =
     (case (inputs, outputs) of
        (Some ins, Some outs) \<Rightarrow>
          if \<not> mc_initialized C \<or> mc_active C \<or> num_inputs \<noteq> 1 \<or> num_outputs \<noteq> 1
             \<or> ins ! 0 \<noteq> kMono \<and> ins ! 0 \<noteq> kStereo \<or> outs ! 0 \<noteq> ins ! 0
          then kResultFalse else base
      | _ \<Rightarrow> kResultFalse)"

definition can_process_sample_size :: "int \<Rightarrow> tresult" where
  "can_process_sample_size symbolic_sample_size =
     (if symbolic_sample_size = kSample32 \<or> symbolic_sample_size = kSample64 then kResultOk else kResultFalse)"

definition setup_processing :: "ProcessSetup \<Rightarrow> 'd M3Component \<Rightarrow> tresult \<times> 'd M3Component" where
  "setup_processing setup C =
     (if \<not> mc_initialized C \<or> mc_active C \<or> mc_processing C \<or> \<not> is_process_mode (su_process_mode setup)
         \<or> \<not> is_finite (su_sample_rate setup) \<or> su_sample_rate setup \<le> 0 \<or> su_max_samples_per_block setup \<le> 0
         \<or> int kMaxHostFrames < su_max_samples_per_block setup
         \<or> can_process_sample_size (su_symbolic_sample_size setup) \<noteq> kResultOk
      then (kInvalidArgument, C)
      else case with_request (snapshot 3) C of
             (None, C) \<Rightarrow> (kInvalidArgument, C)
           | (Some (config, generation), C) \<Rightarrow>
               (case stage_prepared_config config (su_sample_rate setup) of
                  None \<Rightarrow> (kInvalidArgument, C)
                | Some prepared \<Rightarrow>
                    (kResultOk,
                     C\<lparr>mc_process_setup := setup, mc_setup_prepared := prepared, mc_setup_generation := generation,
                       mc_setup_prepared_valid := True, mc_main_config := config, mc_main_generation := generation,
                       mc_setup_complete := True\<rparr>)))"

text \<open>The prepared configuration an activation starts with: the one of the setup while it still fits.\<close>

definition activation_config :: "PersistentConfig \<Rightarrow> u64 \<Rightarrow> 'd M3Component \<Rightarrow> PreparedConfig option" where
  "activation_config config generation C =
     (let prepared = mc_setup_prepared C; rate = su_sample_rate (mc_process_setup C)
      in if \<not> mc_setup_prepared_valid C \<or> mc_setup_generation C \<noteq> generation
            \<or> \<not> f64_eq (pc_sample_rate prepared) rate \<or> \<not> same_persistent_config (pc_requested prepared) config
         then stage_prepared_config config rate else Some prepared)"

definition activate :: "'d Vst3Env \<Rightarrow> bool \<Rightarrow> 'd M3Component \<Rightarrow> tresult \<times> 'd M3Component" where
  "activate E allocated C =
     (case with_request (snapshot 3) C of
        (None, C) \<Rightarrow> (kInvalidArgument, C)
      | (Some (config, generation), C) \<Rightarrow>
          (case activation_config config generation C of
             None \<Rightarrow> (kInvalidArgument, C)
           | Some prepared \<Rightarrow>
               let (ok, L) = activate_preserving_pending (\<lambda>_. allocated)
                     (word_of_int (su_max_samples_per_block (mc_process_setup C))) (mc_generated_notes C);
                   C = C\<lparr>mc_generated_notes := L\<rparr>
               in if \<not> ok then (kOutOfMemory, C)
                  else let (ok, m) = exchange_initialize prepared generation (mc_prepared_exchange C);
                           C = C\<lparr>mc_prepared_exchange := m\<rparr>
                       in if \<not> ok then (kOutOfMemory, on_notes release_storage_preserving_pending C)
                          else let active_config = copy_runtime_config (pc_requested prepared) config;
                                   C = C\<lparr>mc_setup_prepared := prepared, mc_setup_generation := generation,
                                         mc_setup_prepared_valid := True, mc_prepared_exchange_initialized := True,
                                         mc_active_generation := generation, mc_main_config := config,
                                         mc_main_generation := generation, mc_active_config := active_config,
                                         mc_audio_requested_config := active_config\<rparr>;
                                   C = adopt_published_calibration_on_main_thread C;
                                   (ok, d) = dt_configure E (su_sample_rate (mc_process_setup C)) active_config
                                               (mc_detector C);
                                   C = C\<lparr>mc_detector := d\<rparr>
                               in if \<not> ok
                                  then (kInvalidArgument, on_notes release_storage_preserving_pending
                                          (C\<lparr>mc_prepared_exchange := exchange_reset (mc_prepared_exchange C),
                                             mc_prepared_exchange_initialized := False\<rparr>))
                                  else let C = on_detector (dt_set_calibration_bank E (mc_main_calibration_bank C)) C;
                                           C = C\<lparr>mc_structural_boundary_pending := False, mc_prepared_claim_pending := False\<rparr>;
                                           C = (if \<not> release_pending (mc_generated_notes C)
                                                then C\<lparr>mc_release_channel_pending := False\<rparr> else C);
                                           C = reset_detector_transients E (C\<lparr>mc_active := True\<rparr>)
                                       in (kResultOk,
                                           C\<lparr>mc_status := (if panic_hold (mc_generated_notes C) then status_panic_hold
                                                             else status_ready),
                                             mc_status_dirty := False\<rparr>)))"

definition deactivate :: "'d M3Component \<Rightarrow> 'd M3Component" where
  "deactivate C =
     (let C = (if mc_prepared_claim_pending C then cancel_claim C else C);
          C = C\<lparr>mc_prepared_claim_pending := False,
                mc_prepared_exchange := exchange_reset (mc_prepared_exchange C),
                mc_prepared_exchange_initialized := False, mc_structural_boundary_pending := False,
                mc_active := False\<rparr>
      in tuner_off frame_unavailable (on_notes release_storage_preserving_pending C))"

text \<open>A \<open>TBool\<close> is a byte.\<close>

definition set_active :: "'d Vst3Env \<Rightarrow> bool \<Rightarrow> u8 \<Rightarrow> 'd M3Component \<Rightarrow> tresult \<times> 'd M3Component" where
  "set_active E allocated state C =
     (if \<not> (state = 0 \<or> state = 1) \<or> \<not> mc_initialized C then (kInvalidArgument, C)
      else if state = 0 \<and> \<not> mc_active C \<and> \<not> mc_processing C then (kResultOk, C)
      else if \<not> mc_setup_complete C then (kInvalidArgument, C)
      else if state = 1
      then (if mc_active C \<or> mc_processing C then (kResultFalse, C) else activate E allocated C)
      else if mc_processing C then (kResultFalse, C)
      else if \<not> mc_active C then (kResultOk, C)
      else (kResultOk, deactivate C))"

definition set_processing :: "'d Vst3Env \<Rightarrow> u8 \<Rightarrow> 'd M3Component \<Rightarrow> tresult \<times> 'd M3Component" where
  "set_processing E state C =
     (if \<not> (state = 0 \<or> state = 1) \<or> \<not> mc_initialized C \<or> \<not> mc_setup_complete C \<or> \<not> mc_active C
      then (kInvalidArgument, C)
      else if state = 1
      then (if mc_processing C then (kResultFalse, C)
            else let C = reset_detector_transients E C;
                     C = (if mc_processing_started_once C \<or> release_pending (mc_generated_notes C)
                          then raise_status status_panic_hold (on_notes request_recovery C) else C)
                 in (kResultOk, C\<lparr>mc_processing := True, mc_processing_started_once := True\<rparr>))
      else if \<not> mc_processing C then (kResultFalse, C)
      else let C = on_notes request_release_all C;
               C = (if release_pending (mc_generated_notes C) then C\<lparr>mc_release_channel_pending := True\<rparr> else C);
               C = reset_detector_transients E (on_notes request_recovery C)
           in (kResultOk, (raise_status status_panic_hold C)\<lparr>mc_processing := False\<rparr>))"

subsection \<open>State\<close>

definition set_state ::
  "'d Vst3Env \<Rightarrow> 's reader option \<Rightarrow> 's \<Rightarrow> 'd M3Component \<Rightarrow> (tresult \<times> 'd M3Component) \<times> 's" where
  "set_state E stream s C =
     (if \<not> mc_initialized C then ((kInvalidArgument, C), s)
      else case load_vst3_state_with_calibration stream s of
             (None, s) \<Rightarrow> ((kResultFalse, C), s)
           | (Some (requested, calibration), s) \<Rightarrow>
               let calibration = merge_m3_factory_calibration (env_factory_image E) calibration
               in (case publish_main_config requested C of
                     (False, C) \<Rightarrow> ((kResultFalse, C), s)
                   | (True, C) \<Rightarrow>
                       let generation = mc_calibration_restore_counter C + 1
                       in ((kResultOk, on_restore (ct_publish calibration generation)
                              (C\<lparr>mc_calibration_restore_counter := generation, mc_main_calibration_bank := calibration,
                                 mc_main_calibration_restore_generation := generation\<rparr>)), s)))"

definition get_state :: "'s writer option \<Rightarrow> 's \<Rightarrow> 'd M3Component \<Rightarrow> (tresult \<times> 'd M3Component) \<times> 's" where
  "get_state stream s C =
     (if \<not> mc_initialized C then ((kResultFalse, C), s)
      else case with_request (snapshot 3) C of
             (None, C) \<Rightarrow> ((kResultFalse, C), s)
           | (Some (config, generation), C) \<Rightarrow>
               let C = adopt_published_calibration_on_main_thread C
               in (case save_vst3_state_with_calibration config (mc_main_calibration_bank C) stream s of
                     (ok, s) \<Rightarrow> ((if ok then kResultOk else kResultFalse, C), s)))"

definition set_component_state ::
  "'s reader option \<Rightarrow> 's \<Rightarrow> 'd M3Component \<Rightarrow> (tresult \<times> 'd M3Component) \<times> 's" where
  "set_component_state stream s C =
     (if \<not> mc_initialized C then ((kInvalidArgument, C), s)
      else case load_vst3_state_with_calibration stream s of
             (None, s) \<Rightarrow> ((kResultFalse, C), s)
           | (Some (requested, ignored_calibration), s) \<Rightarrow>
               (case synchronize_vst3_parameters requested (mc_status C) (mc_parameters C) of
                  (ok, container) \<Rightarrow>
                    let C = C\<lparr>mc_parameters := container\<rparr>
                    in (if ok then (kResultOk, C\<lparr>mc_controller_config := requested\<rparr>) else (kResultFalse, C), s)))"

definition get_editor_state :: "'s writer option \<Rightarrow> 's \<Rightarrow> 'd M3Component \<Rightarrow> tresult \<times> 's" where
  "get_editor_state stream s C =
     (if \<not> mc_initialized C then (kResultFalse, s)
      else case save_vst3_state (mc_controller_config C) stream s of
             (ok, s) \<Rightarrow> (if ok then kResultOk else kResultFalse, s))"

subsection \<open>Parameters\<close>

text \<open>The string is none when the host's buffer is null; the SDK's conversion of it is \<open>to_ascii\<close>.\<close>

definition get_param_string_by_value :: "ParameterId \<Rightarrow> f64 \<Rightarrow> bool \<Rightarrow> tresult \<times> string option" where
  "get_param_string_by_value pid normalized has_text =
     (if \<not> has_text then (kInvalidArgument, None)
      else case find_vst3_parameter pid of
             None \<Rightarrow> (kResultFalse, Some [])
           | Some spec \<Rightarrow>
               (case canonical_normalized_value spec normalized of
                  None \<Rightarrow> (kResultFalse, Some [])
                | Some plain \<Rightarrow>
                    (case vst3_parameter_value_to_text pid plain (Some 128) of
                       (True, Some text) \<Rightarrow> (kResultOk, Some text)
                     | _ \<Rightarrow> (kResultFalse, Some []))))"

definition get_param_value_by_string ::
  "(string \<Rightarrow> f64 \<times> nat) \<Rightarrow> ('tchars \<Rightarrow> string) \<Rightarrow> ParameterId \<Rightarrow> 'tchars option \<Rightarrow> tresult \<times> f64 option" where
  "get_param_value_by_string strtod to_ascii pid text =
     (case (find_vst3_parameter pid, text) of
        (Some spec, Some chars) \<Rightarrow>
          if ps_read_only spec then (kResultFalse, None)
          else (case parameter_text_to_value strtod pid (Some (to_ascii chars)) of
                  None \<Rightarrow> (kResultFalse, None)
                | Some plain \<Rightarrow>
                    (case canonical_plain_value spec plain of
                       None \<Rightarrow> (kResultFalse, None)
                     | Some result \<Rightarrow> (kResultOk, Some result)))
      | _ \<Rightarrow> (kResultFalse, None))"

definition normalized_param_to_plain :: "ParameterId \<Rightarrow> f64 \<Rightarrow> f64" where
  "normalized_param_to_plain pid normalized =
     (case find_vst3_parameter pid of
        None \<Rightarrow> f64_nan
      | Some spec \<Rightarrow> (case canonical_normalized_value spec normalized of None \<Rightarrow> f64_nan | Some plain \<Rightarrow> plain))"

definition plain_param_to_normalized :: "ParameterId \<Rightarrow> f64 \<Rightarrow> f64" where
  "plain_param_to_normalized pid plain =
     (case find_vst3_parameter pid of
        None \<Rightarrow> f64_nan
      | Some spec \<Rightarrow> (case canonical_plain_value spec plain of None \<Rightarrow> f64_nan | Some normalized \<Rightarrow> normalized))"

definition set_container :: "ParameterSpec \<Rightarrow> f64 \<Rightarrow> 'd M3Component \<Rightarrow> 'd M3Component" where
  "set_container spec normalized C =
     C\<lparr>mc_parameters := snd (parameter_setNormalized spec normalized (mc_parameters C))\<rparr>"

definition set_param_normalized :: "ParameterId \<Rightarrow> f64 \<Rightarrow> 'd M3Component \<Rightarrow> tresult \<times> 'd M3Component" where
  "set_param_normalized pid normalized C =
     (case find_vst3_parameter pid of
        None \<Rightarrow> (kResultFalse, C)
      | Some spec \<Rightarrow>
          (case canonical_normalized_value spec normalized of
             None \<Rightarrow> (kResultFalse, C)
           | Some plain \<Rightarrow>
               let (result, requested) = apply_parameter (mc_main_config C) pid plain
               in if \<not> mc_initialized C \<or> ps_read_only spec \<or> result = apply_rejected
                     \<or> mc_parameters C pid = None
                  then (kResultFalse, C)
                  else if result = apply_panic
                  then (kResultOk, set_container spec 0 (C\<lparr>mc_panic_ready_dirty := True, mc_panic_requested := True\<rparr>))
                  else case publish_main_config requested C of
                         (False, C) \<Rightarrow> (kResultFalse, C)
                       | (True, C) \<Rightarrow>
                           (kResultOk, set_container spec normalized (C\<lparr>mc_controller_config := requested\<rparr>))))"

end
