(* ===== verification/Vst3_Component_Laws.thy ===== *)
theory Vst3_Component_Laws
  imports Vst3_Calls State_Stream_Laws Vst3_Parameter_Laws
begin

unbundle bit_operations_syntax

text \<open>
  What the parts of the VST3 plugin object keep: the validity of every configuration it holds, the claim on
  the exchange, and the ledger, which only ever changes by the ledger's own calls.
\<close>

subsection \<open>The ledger's calls\<close>

text \<open>The calls that do not push events.\<close>

inductive own_calls :: "NoteLedger \<Rightarrow> NoteLedger \<Rightarrow> bool" where
  none: "own_calls L L"
| begin_block: "own_calls L L' \<Longrightarrow> own_calls L (ledger_begin_block L')"
| queue: "own_calls L L' \<Longrightarrow> own_calls L (snd (queue_transition t frames L'))"
| release_all: "own_calls L L' \<Longrightarrow> own_calls L (request_release_all L')"
| failure: "own_calls L L' \<Longrightarrow> own_calls L (report_output_failure L')"
| recovery: "own_calls L L' \<Longrightarrow> own_calls L (request_recovery L')"
| drop: "own_calls L L' \<Longrightarrow> own_calls L (release_storage_preserving_pending L')"
| activate: "own_calls L L' \<Longrightarrow> own_calls L (snd (activate_preserving_pending (\<lambda>_. ok) frames L'))"

lemma own_calls_trans: "own_calls L2 L3 \<Longrightarrow> own_calls L1 L2 \<Longrightarrow> own_calls L1 L3"
  by (induction rule: own_calls.induct) (auto intro: own_calls.intros)

lemmas own_call = own_calls.intros(2-) [OF own_calls.none]

definition by_calls :: "NoteLedger \<times> 'h Vst3EventSinkContext \<Rightarrow> NoteLedger \<times> 'h Vst3EventSinkContext \<Rightarrow> bool" where
  "by_calls Ls Ls' \<longleftrightarrow> (\<exists>cs. Ls' = fold ledger_call_step cs Ls)"

lemma by_calls_refl [simp]: "by_calls Ls Ls"
  unfolding by_calls_def by (intro exI [of _ "[]"]) simp

lemma by_calls_step: "by_calls Ls Ls' \<Longrightarrow> by_calls Ls (ledger_call_step c Ls')"
  unfolding by_calls_def by (metis fold.simps fold_append comp_apply id_apply)

lemma by_calls_trans: "by_calls Ls Ls1 \<Longrightarrow> by_calls Ls1 Ls2 \<Longrightarrow> by_calls Ls Ls2"
  unfolding by_calls_def by (metis fold_append comp_apply)

lemma own_by_calls: "own_calls L L' \<Longrightarrow> by_calls (L, s) (L', s)"
proof (induction rule: own_calls.induct)
  case (begin_block L L')
  then show ?case using by_calls_step [OF begin_block.IH, of call_begin_block] by simp
next
  case (queue L L' t frames)
  then show ?case using by_calls_step [OF queue.IH, of "call_queue t frames"] by simp
next
  case (release_all L L')
  then show ?case using by_calls_step [OF release_all.IH, of call_release_all] by simp
next
  case (failure L L')
  then show ?case using by_calls_step [OF failure.IH, of call_report_failure] by simp
next
  case (recovery L L')
  then show ?case using by_calls_step [OF recovery.IH, of call_recovery] by simp
next
  case (drop L L')
  then show ?case using by_calls_step [OF drop.IH, of call_release_storage] by simp
next
  case (activate L L' ok frames)
  then show ?case using by_calls_step [OF activate.IH, of "call_activate_preserving ok frames"] by simp
qed simp

text \<open>Every sounding voice waits for its note-off.\<close>

definition waiting :: "NoteLedger \<Rightarrow> bool" where
  "waiting L \<longleftrightarrow> list_all (\<lambda>v. av_active v \<longrightarrow> av_pending_release v) (voices L)"

lemma waiting_cong: "voices L' = voices L \<Longrightarrow> waiting L' = waiting L"
  by (simp add: waiting_def)

lemma waiting_released:
  assumes "waiting L" "\<not> release_pending L"
  shows "open_notes L = {#}"
proof -
  have "\<not> av_active v" if "v \<in> set (voices L)" for v
    using that assms by (auto simp: waiting_def release_pending_def list_all_iff list_ex_iff)
  then show ?thesis by (simp add: open_notes_def active_voices_def)
qed

lemma voices_calls [simp]:
  "voices (ledger_begin_block L) = voices L" "voices (request_recovery L) = voices L"
  "voices (release_storage_preserving_pending L) = map mark_release (voices L)"
  "voices (report_output_failure L) = map mark_release (voices L)"
  by (simp_all add: ledger_begin_block_def request_recovery_def release_storage_preserving_pending_def
      drop_storage_def report_output_failure_def enter_blocked_def frame_simps)

lemma queue_calls [simp]:
  "queue_size (ledger_begin_block L) = 0" "queue_size (request_recovery L) = queue_size L"
  "queue_size (release_storage_preserving_pending L) = 0"
  "queue_size (report_output_failure L) = queue_size L"
  "queue_size (request_release_all L) = queue_size L"
  by (simp_all add: ledger_begin_block_def request_recovery_def release_storage_preserving_pending_def
      drop_storage_def report_output_failure_def enter_blocked_def frame_simps)

lemma waiting_calls [simp]:
  "waiting (ledger_begin_block L) = waiting L" "waiting (request_recovery L) = waiting L"
  "waiting (request_release_all L)" "waiting (report_output_failure L)"
  "waiting (release_storage_preserving_pending L)"
  by (auto simp: waiting_def list_all_iff mark_release_def frame_simps)

lemma activated_voices: "voices (snd (activate_preserving_pending alloc frames L)) = voices L"
  "queue_size (snd (activate_preserving_pending alloc frames L)) = 0"
  by (simp_all add: activate_preserving_pending_def allocate_storage_def drop_storage_def Let_def)

text \<open>A retry of the releases only clears voices.\<close>

lemma waiting_clear: "waiting L \<Longrightarrow> waiting (clear_voice slot L)"
  using set_update_subset_insert [of "voices L" slot ActiveVoice_default]
  by (auto simp: waiting_def clear_voice_def list_all_iff)

lemma blocked_facts [simp]:
  "waiting (enter_blocked L)" "queue_size (enter_blocked L) = queue_size L"
  using waiting_calls(4) [of L] queue_calls(4) [of L] by (simp_all add: report_output_failure_def)

lemma vst3_push_ledger: "push (Some (push_vst3_note ev)) L s t c = (ok, L', s') \<Longrightarrow> L' = L"
  by (auto simp: push_def push_vst3_note_def split: if_splits option.splits prod.splits)

lemma vst3_retry_slots_keep:
  "retry_slots (Some (push_vst3_note ev)) n sl L s = (ok, L', s') \<Longrightarrow>
     (waiting L \<longrightarrow> waiting L') \<and> queue_size L' = queue_size L"
proof (induction sl arbitrary: L s)
  case (Cons slot sl)
  let ?v = "voices L ! slot"
  obtain k L1 s1 where p: "push (Some (push_vst3_note ev)) L s (release_transition ?v n) (av_channel ?v) = (k, L1, s1)"
    by (metis prod_cases3)
  then have "L1 = L" by (rule vst3_push_ledger)
  with Cons p show ?case
    by (auto simp: Let_def waiting_clear frame_simps split: if_splits dest!: Cons.IH)
qed simp

lemma vst3_retry_notes_keep:
  "retry_notes (Some (push_vst3_note ev)) ns L s = (ok, L', s') \<Longrightarrow>
     (waiting L \<longrightarrow> waiting L') \<and> queue_size L' = queue_size L"
proof (induction ns arbitrary: L s)
  case (Cons n ns)
  obtain k L1 s1 where r: "retry_slots (Some (push_vst3_note ev)) n [0..<kMaxVoices] L s = (k, L1, s1)"
    by (metis prod_cases3)
  from vst3_retry_slots_keep [OF r] Cons.prems show ?case
    by (auto simp: r Let_def split: if_splits dest!: Cons.IH)
qed simp

lemma vst3_retry_keep:
  assumes "retry_pending_releases (Some (push_vst3_note ev)) L s = (ok, L', s')"
  shows "waiting L \<Longrightarrow> waiting L'" "queue_size L' = queue_size L"
proof -
  obtain k L1 s1 where r: "retry_notes (Some (push_vst3_note ev)) [0..<128] L s = (k, L1, s1)" by (metis prod_cases3)
  have u: "waiting (M\<lparr>cleanup_complete := c\<rparr>) = waiting M" for M c by (simp add: waiting_def)
  from vst3_retry_notes_keep [OF r] assms show "waiting L \<Longrightarrow> waiting L'" "queue_size L' = queue_size L"
    by (auto simp: retry_pending_releases_def r Let_def u split: if_splits)
qed

text \<open>A delivery of an empty queue sends nothing.\<close>

lemma deliver_nothing:
  assumes "queue_size L = 0" "deliver_queued frames (Some f) p fin lay routing start L s = (r, L', s')"
  shows "s' = s" "voices L' = voices L" "queue_size L' = 0"
proof -
  have q: "queued L = []" using assms(1) by (simp add: queued_def split: option.split)
  have c: "queued (check_delivery frames routing start L) = queued L"
    "voices (check_delivery frames routing start L) = voices L"
    "queue_size (check_delivery frames routing start L) = queue_size L"
    by (cases "storage L"; simp add: check_delivery_def Let_def queued_def)+
  have f: "voices (finish_hold p fin lay M) = voices M" "queue_size (finish_hold p fin lay M) = queue_size M" for M
    by (simp_all add: finish_hold_def)
  show "s' = s" "voices L' = voices L" "queue_size L' = 0"
    using assms by (auto simp: deliver_queued_def Let_def q f c split: if_splits)
qed

subsection \<open>The invariant of the object\<close>

definition setup_ok :: "ProcessSetup \<Rightarrow> bool" where
  "setup_ok setup \<longleftrightarrow>
     is_finite (su_sample_rate setup) \<and> \<not> su_sample_rate setup \<le> 0 \<and> 0 < su_max_samples_per_block setup
     \<and> su_max_samples_per_block setup \<le> int kMaxHostFrames"

text \<open>The audio thread's claim, none when it holds no claim.\<close>

definition current_claim :: "'d M3Component \<Rightarrow> Claim" where
  "current_claim C = (if mc_prepared_claim_pending C then mc_prepared_claim C else invalidate)"

definition exchange_ok :: "'d M3Component \<Rightarrow> bool" where
  "exchange_ok C \<longleftrightarrow>
     length (slots (mc_prepared_exchange C)) = kSlotCount
     \<and> (mc_prepared_claim_pending C \<longrightarrow> cl_config (mc_prepared_claim C) \<noteq> None)
     \<and> (if mc_prepared_exchange_initialized C
        then claim_holds config_valid (current_claim C) (mc_prepared_exchange C)
        else \<not> mc_prepared_claim_pending C)"

definition configs_ok :: "'d M3Component \<Rightarrow> bool" where
  "configs_ok C \<longleftrightarrow>
     config_valid (mc_main_config C) \<and> config_valid (mc_controller_config C)
     \<and> config_valid (mc_audio_requested_config C) \<and> config_valid (mc_active_config C)
     \<and> config_valid (mc_pending_structural_config C) \<and> config_valid (pc_requested (mc_setup_prepared C))
     \<and> request_holds config_valid (mc_config_request C)"

definition lifecycle_ok :: "'d M3Component \<Rightarrow> bool" where
  "lifecycle_ok C \<longleftrightarrow>
     (mc_processing C \<longrightarrow> mc_active C)
     \<and> (mc_active C \<longrightarrow> mc_initialized C \<and> mc_setup_complete C \<and> mc_prepared_exchange_initialized C)
     \<and> (mc_prepared_exchange_initialized C \<longrightarrow> mc_active C)
     \<and> (mc_setup_complete C \<longrightarrow> setup_ok (mc_process_setup C))"

definition component_valid :: "'d M3Component \<Rightarrow> bool" where
  "component_valid C \<longleftrightarrow>
     configs_ok C \<and> exchange_ok C \<and> lifecycle_ok C
     \<and> (mc_structural_boundary_pending C \<longrightarrow> waiting (mc_generated_notes C))"

text \<open>The part of a configuration that only a structural boundary changes.\<close>

definition structure_of :: "PersistentConfig \<Rightarrow> MidiRouting \<times> ProfileMode \<times> f64 \<times> u8 \<times> u8 \<times> u8 \<times> u8 \<times> u8" where
  "structure_of c = (midi_routing c, profile_mode c, a4_hz c, lowest_note c, highest_note c, max_polyphony c,
     max_fret c, midi_channel c)"

definition same_lifecycle :: "'d M3Component \<Rightarrow> 'd M3Component \<Rightarrow> bool" where
  "same_lifecycle C C' \<longleftrightarrow>
     mc_initialized C' = mc_initialized C \<and> mc_setup_complete C' = mc_setup_complete C
     \<and> mc_active C' = mc_active C \<and> mc_processing C' = mc_processing C
     \<and> mc_process_setup C' = mc_process_setup C"

text \<open>A step of the object that sends nothing and leaves the structure alone.\<close>

definition moves :: "'d M3Component \<Rightarrow> 'd M3Component \<Rightarrow> bool" where
  "moves C C' \<longleftrightarrow>
     (component_valid C \<longrightarrow> component_valid C') \<and> same_lifecycle C C'
     \<and> structure_of (mc_active_config C') = structure_of (mc_active_config C)
     \<and> own_calls (mc_generated_notes C) (mc_generated_notes C')
     \<and> (queue_size (mc_generated_notes C) = 0 \<longrightarrow> queue_size (mc_generated_notes C') = 0)"

lemma moves_refl [simp]: "moves C C"
  by (simp add: moves_def same_lifecycle_def own_calls.none)

lemma moves_trans: "moves C1 C2 \<Longrightarrow> moves C2 C3 \<Longrightarrow> moves C1 C3"
  by (auto simp: moves_def same_lifecycle_def intro: own_calls_trans)

lemma moves_then: "moves C1 C2 \<Longrightarrow> component_valid C1 \<Longrightarrow> (component_valid C2 \<Longrightarrow> moves C2 C3) \<Longrightarrow> moves C1 C3"
  using moves_trans [of C1 C2 C3] by (simp add: moves_def)

lemmas component_valid_defs =
  component_valid_def configs_ok_def exchange_ok_def lifecycle_ok_def current_claim_def

text \<open>A step that leaves alone what the invariant reads.\<close>

definition aside :: "'d M3Component \<Rightarrow> 'd M3Component \<Rightarrow> bool" where
  "aside C C' \<longleftrightarrow>
     same_lifecycle C C' \<and> mc_main_config C' = mc_main_config C \<and> mc_controller_config C' = mc_controller_config C
     \<and> mc_audio_requested_config C' = mc_audio_requested_config C \<and> mc_active_config C' = mc_active_config C
     \<and> mc_pending_structural_config C' = mc_pending_structural_config C
     \<and> mc_setup_prepared C' = mc_setup_prepared C \<and> mc_config_request C' = mc_config_request C
     \<and> mc_prepared_exchange C' = mc_prepared_exchange C \<and> mc_prepared_claim C' = mc_prepared_claim C
     \<and> mc_prepared_claim_pending C' = mc_prepared_claim_pending C
     \<and> mc_prepared_exchange_initialized C' = mc_prepared_exchange_initialized C
     \<and> mc_structural_boundary_pending C' = mc_structural_boundary_pending C
     \<and> mc_generated_notes C' = mc_generated_notes C"

lemma aside_refl [simp]: "aside C C"
  by (simp add: aside_def same_lifecycle_def)

lemma aside_trans: "aside C1 C2 \<Longrightarrow> aside C2 C3 \<Longrightarrow> aside C1 C3"
  by (simp add: aside_def same_lifecycle_def)

lemma aside_moves: "aside C C' \<Longrightarrow> moves C C'"
  by (simp add: aside_def moves_def component_valid_defs same_lifecycle_def own_calls.none)

lemmas aside_simps = aside_def same_lifecycle_def

lemma aside_ops:
  "aside C (set_status s C)" "aside C (raise_status s C)" "aside C (update_delivery_status r C)"
  "aside C (update_tuner e C)" "aside C (on_telemetry q C)" "aside C (on_detector f C)"
  "aside C (on_published pq C)" "aside C (on_restore pq C)" "aside C (advance_decision_phase n C)"
  by (simp_all add: aside_simps set_status_def raise_status_def update_delivery_status_def update_tuner_def
      on_telemetry_def on_detector_def on_published_def on_restore_def advance_decision_phase_def Let_def)

lemma moves_notes:
  assumes "own_calls (mc_generated_notes C) (f (mc_generated_notes C))"
    "waiting (mc_generated_notes C) \<Longrightarrow> waiting (f (mc_generated_notes C))"
    "queue_size (mc_generated_notes C) = 0 \<Longrightarrow> queue_size (f (mc_generated_notes C)) = 0"
  shows "moves C (on_notes f C)"
  using assms by (simp add: moves_def on_notes_def component_valid_defs same_lifecycle_def)

lemma moves_ledger:
  "moves C (on_notes request_release_all C)" "moves C (on_notes report_output_failure C)"
  "moves C (on_notes request_recovery C)" "moves C (on_notes ledger_begin_block C)"
  "moves C (on_notes release_storage_preserving_pending C)"
  by (rule moves_notes; simp add: own_call)+

lemma aside_tuner_off: "aside C (tuner_off s C)"
  unfolding tuner_off_def by (rule aside_trans [OF aside_ops(5) aside_ops(4)])

lemma aside_publish_bank: "aside C (publish_calibration_bank_from_audio E C)"
  unfolding publish_calibration_bank_from_audio_def by (rule aside_ops(7))

lemma aside_publish_status: "aside C (publish_string_calibration_status E C)"
proof -
  have u: "aside C (C\<lparr>mc_previous_calibration_phase := q, mc_calibration_status := w\<rparr>)" for C :: "'a M3Component" and q w
    by (simp add: aside_simps)
  show ?thesis
    unfolding publish_string_calibration_status_def Let_def
    by (simp add: u aside_trans [OF aside_publish_bank u])
qed

lemma aside_command: "aside C (apply_string_calibration_command E C)"
proof -
  have u: "aside C (C\<lparr>mc_calibration_command := w\<rparr>)" for w by (simp add: aside_simps)
  show ?thesis
    unfolding apply_string_calibration_command_def Let_def
    by (simp add: aside_trans [OF u aside_publish_status] aside_trans [OF aside_trans [OF u aside_ops(6)] aside_publish_status]
        aside_trans [OF aside_trans [OF aside_trans [OF u aside_ops(6)] aside_publish_bank] aside_publish_status])
qed

lemma aside_restore: "aside C (apply_calibration_restore E C)"
proof -
  have u: "aside C (C\<lparr>mc_audio_calibration_restore_generation := g, mc_previous_calibration_phase := q\<rparr>)"
    for C :: "'a M3Component" and g q
    by (simp add: aside_simps)
  show ?thesis
    using aside_trans [OF aside_trans [OF aside_trans [OF aside_ops(6) u] aside_ops(7)] aside_publish_status]
    by (simp add: apply_calibration_restore_def Let_def split: option.split)
qed

lemma aside_adopt_bank: "aside C (adopt_published_calibration_on_main_thread C)"
  by (simp add: adopt_published_calibration_on_main_thread_def aside_simps split: option.split)

lemma aside_reset_transients: "aside C (reset_detector_transients E C)"
proof -
  have u: "aside C (C\<lparr>mc_decision_phase := a, mc_decision_tick_count := b\<rparr>)"
    "aside C (C\<lparr>mc_detector_reset_count := n\<rparr>)" for C :: "'a M3Component" and a b n
    by (simp_all add: aside_simps)
  show ?thesis
    unfolding reset_detector_transients_def Let_def
    by (rule aside_trans [OF aside_trans [OF aside_trans [OF aside_trans [OF u(1) aside_ops(6)] aside_tuner_off] aside_publish_status] u(2)])
qed

lemma moves_failed: "moves C (notes_failed C)"
  unfolding notes_failed_def by (rule moves_trans [OF moves_ledger(2) aside_moves [OF aside_tuner_off]])

lemma moves_panic: "moves C (request_panic_recovery E C)"
proof -
  have "request_panic_recovery E C = on_notes request_recovery (on_notes request_release_all (on_detector (dt_reset E) C))"
    by (simp add: request_panic_recovery_def on_notes_def)
  then show ?thesis
    using moves_trans [OF moves_trans [OF aside_moves [OF aside_ops(6)] moves_ledger(1)] moves_ledger(3)] by simp
qed

subsection \<open>The exchange\<close>

lemma claim_slots: "claim_holds V c m \<Longrightarrow> length (slots m) = kSlotCount"
  by (simp add: claim_holds_def exchange_holds_def idle_def)

lemma moves_cancel:
  assumes "component_valid C" "mc_prepared_claim_pending C"
  shows "moves C ((cancel_claim C)\<lparr>mc_prepared_claim_pending := False\<rparr>)"
proof -
  obtain m ok c where r: "run (cancel (mc_prepared_claim C)) (mc_prepared_exchange C) = (m, ok, c)"
    by (metis prod_cases3)
  have "claim_holds config_valid (mc_prepared_claim C) (mc_prepared_exchange C)"
    using assms by (simp add: component_valid_defs split: if_splits)
  from cancel_holds [OF this r] have "exchange_holds config_valid m" "length (slots m) = kSlotCount"
    by (simp_all add: claim_holds_exchange claim_slots)
  then show ?thesis
    using assms(2)
    by (auto simp: cancel_claim_def with_exchange_def r moves_def component_valid_defs same_lifecycle_def
        claim_holds_invalidate own_calls.none)
qed

lemma moves_claim: 
  assumes "component_valid C"
  shows "moves C (claim_matching_prepared_config C)"
proof (cases "\<not> mc_structural_boundary_pending C \<or> mc_prepared_claim_pending C \<or> \<not> mc_prepared_exchange_initialized C")
  case True
  then show ?thesis by (simp add: claim_matching_prepared_config_def)
next
  case False
  obtain m ok c where r: "run claim_latest (mc_prepared_exchange C) = (m, ok, c)" by (metis prod_cases3)
  have "exchange_holds config_valid (mc_prepared_exchange C)"
    using assms False by (simp add: component_valid_defs claim_holds_invalidate)
  then have h: "claim_holds config_valid c m" using claim_latest_holds r by blast
  have put: "moves C (C\<lparr>mc_prepared_exchange := n\<rparr>)" if "exchange_holds config_valid n" for n
    using that False
    by (auto simp: moves_def component_valid_defs same_lifecycle_def claim_holds_invalidate own_calls.none
        exchange_holds_def idle_def)
  have m: "moves C (C\<lparr>mc_prepared_exchange := m\<rparr>)" using put claim_holds_exchange [OF h] .
  obtain m2 ok2 c2 where r2: "run (cancel c) m = (m2, ok2, c2)" by (metis prod_cases3)
  have m2: "moves C (C\<lparr>mc_prepared_exchange := m2\<rparr>)" using put claim_holds_exchange [OF cancel_holds [OF h r2]] .
  have keep: "moves C (C\<lparr>mc_prepared_exchange := m, mc_prepared_claim := c, mc_prepared_claim_pending := True\<rparr>)"
    if "cl_config c \<noteq> None"
    using that False h claim_slots [OF h]
    by (simp add: moves_def component_valid_defs same_lifecycle_def own_calls.none)
  note raised = moves_trans [OF m aside_moves [OF aside_ops(2)]] moves_trans [OF m2 aside_moves [OF aside_ops(2)]]
  show ?thesis
    using False keep raised
    by (cases ok) (auto simp: claim_matching_prepared_config_def with_exchange_def r r2 Let_def)
qed

lemma moves_begin:
  assumes "component_valid C" "config_valid c"
  shows "moves C (begin_structural_boundary E c C)"
proof (cases "mc_structural_boundary_pending C \<and> same_persistent_config (mc_pending_structural_config C) c")
  case True
  then show ?thesis by (simp add: begin_structural_boundary_def)
next
  case False
  define C1 where "C1 = (if mc_prepared_claim_pending C then (cancel_claim C)\<lparr>mc_prepared_claim_pending := False\<rparr> else C)"
  have k1: "moves C C1" using moves_cancel [OF assms(1)] by (simp add: C1_def)
  define C2 where "C2 = on_notes request_release_all
     (C1\<lparr>mc_pending_structural_config := c, mc_structural_boundary_pending := True, mc_release_channel_pending := True\<rparr>)"
  have k2: "moves C1 C2"
    using assms(2)
    by (simp add: C2_def moves_def on_notes_def component_valid_defs same_lifecycle_def own_call)
  have k3: "moves C (reset_detector_transients E C2)"
    using moves_trans [OF moves_trans [OF k1 k2] aside_moves [OF aside_reset_transients]] .
  have "begin_structural_boundary E c C = claim_matching_prepared_config (reset_detector_transients E C2)"
    using False by (auto simp: begin_structural_boundary_def C1_def C2_def Let_def)
  then show ?thesis using moves_then [OF k3 assms(1) moves_claim] by simp
qed

end
