(* ===== verification/Vst3_Block_Laws.thy ===== *)
theory Vst3_Block_Laws
  imports Vst3_Component_Laws Config_Validity
begin

unbundle bit_operations_syntax

text \<open>
  What a block of the VST3 plugin object keeps: the invariant, the ledger's contract with the host's event
  list, and the order of a structural change: the old notes are released before the configuration changes.
\<close>

subsection \<open>The commit\<close>

lemma raise_fields [simp]:
  "mc_generated_notes (raise_status s C) = mc_generated_notes C"
  "mc_structural_boundary_pending (raise_status s C) = mc_structural_boundary_pending C"
  "mc_pending_structural_config (raise_status s C) = mc_pending_structural_config C"
  "mc_active_config (raise_status s C) = mc_active_config C"
  using aside_ops(2) [of C s] by (simp_all add: aside_def)

lemma claim_fields [simp]:
  "mc_generated_notes (claim_matching_prepared_config C) = mc_generated_notes C"
  "mc_structural_boundary_pending (claim_matching_prepared_config C) = mc_structural_boundary_pending C"
  "mc_pending_structural_config (claim_matching_prepared_config C) = mc_pending_structural_config C"
  by (simp_all add: claim_matching_prepared_config_def with_exchange_def Let_def split: prod.split bool.split)

lemma committed_valid:
  assumes "component_valid C" "mc_prepared_claim_pending C" "run (commit (mc_prepared_claim C)) (mc_prepared_exchange C) = (m, ok, c)"
  shows "component_valid (C\<lparr>mc_prepared_exchange := m, mc_prepared_claim := c, mc_prepared_claim_pending := False\<rparr>)"
    "config_valid (pc_requested (claimed (mc_prepared_claim C) (mc_prepared_exchange C)))"
proof -
  have h: "claim_holds config_valid (mc_prepared_claim C) (mc_prepared_exchange C)" and s: "cl_config (mc_prepared_claim C) \<noteq> None"
    using assms(1,2) by (simp_all add: component_valid_defs split: if_splits)
  have "exchange_holds config_valid m" "length (slots m) = kSlotCount"
    using commit_holds [OF h assms(3)] by (simp_all add: claim_holds_exchange claim_slots)
  then show "component_valid (C\<lparr>mc_prepared_exchange := m, mc_prepared_claim := c, mc_prepared_claim_pending := False\<rparr>)"
    using assms(1,2) by (auto simp: component_valid_defs claim_holds_invalidate)
  have "the (cl_config (mc_prepared_claim C)) = cl_index (mc_prepared_claim C)"
    using h s by (auto simp: claim_holds_def between_def claim_ok_def)
  with claimed_config [OF h s] show "config_valid (pc_requested (claimed (mc_prepared_claim C) (mc_prepared_exchange C)))"
    by (simp add: claimed_def)
qed

definition commits :: "'d M3Component \<Rightarrow> 'd M3Component \<Rightarrow> bool" where
  "commits C C' \<longleftrightarrow>
     component_valid C' \<and> same_lifecycle C C' \<and> mc_generated_notes C' = mc_generated_notes C
     \<and> (structure_of (mc_active_config C') = structure_of (mc_active_config C) \<or> open_notes (mc_generated_notes C) = {#})"

lemma commits_aside: "commits C C1 \<Longrightarrow> aside C1 C2 \<Longrightarrow> commits C C2"
  using aside_moves [of C1 C2] by (simp add: commits_def moves_def aside_def same_lifecycle_def)

lemma commit_cases:
  assumes v: "component_valid C"
  shows "commits C (commit_prepared_config_if_released E C)"
proof (cases "mc_structural_boundary_pending C")
  case False
  then show ?thesis using v by (simp add: commit_prepared_config_if_released_def commits_def same_lifecycle_def)
next
  case boundary: True
  define C1 where "C1 = (if \<not> mc_prepared_claim_pending C then claim_matching_prepared_config C else C)"
  have k: "moves C C1" "mc_generated_notes C1 = mc_generated_notes C" "mc_structural_boundary_pending C1"
    using moves_claim [OF v] boundary by (simp_all add: C1_def)
  then have k1: "component_valid C1" "commits C C1" using v by (simp_all add: moves_def commits_def)
  show ?thesis
  proof (cases "\<not> mc_prepared_claim_pending C1 \<or> release_pending (mc_generated_notes C1)")
    case True
    then show ?thesis
      using boundary commits_aside [OF k1(2) aside_ops(2)]
      by (simp add: commit_prepared_config_if_released_def flip: C1_def)
  next
    case False
    obtain m ok c where r: "run (commit (mc_prepared_claim C1)) (mc_prepared_exchange C1) = (m, ok, c)" by (metis prod_cases3)
    have pend: "mc_prepared_claim_pending C1" using False by simp
    note cv = committed_valid [OF k1(1) pend r]
    have h: "claim_holds config_valid (mc_prepared_claim C1) (mc_prepared_exchange C1)"
      using k1(1) pend by (simp add: component_valid_defs split: if_splits)
    let ?new = "copy_runtime_config (pc_requested (claimed (mc_prepared_claim C1) (mc_prepared_exchange C1)))
         (mc_pending_structural_config C1)"
    have empty: "open_notes (mc_generated_notes C) = {#}"
      using waiting_released [of "mc_generated_notes C"] False k v boundary by (simp add: component_valid_def)
    have new: "config_valid ?new"
      using cv(2) k1(1) by (intro copy_runtime_valid) (simp_all add: component_valid_def configs_ok_def)
    obtain m2 ok2 c2 where r2: "run (cancel c) m = (m2, ok2, c2)" by (metis prod_cases3)
    have ex2: "exchange_holds config_valid m2"
      using cancel_holds [OF commit_holds [OF h r] r2] claim_holds_exchange by blast
    have "commits C (C1\<lparr>mc_prepared_exchange := m2, mc_prepared_claim := c2, mc_prepared_claim_pending := False\<rparr>)"
      using k1 ex2 pend
      by (auto simp: commits_def component_valid_defs same_lifecycle_def claim_holds_invalidate exchange_holds_def idle_def)
    note failed = commits_aside [OF this aside_ops(2)]
    have "commits C (C1\<lparr>mc_prepared_exchange := m, mc_prepared_claim := c, mc_prepared_claim_pending := False,
       mc_active_config := ?new, mc_audio_requested_config := ?new, mc_active_generation := g,
       mc_structural_boundary_pending := False, mc_release_channel_pending := False\<rparr>)" for g
      using cv(1) new k1(2) empty claim_holds_exchange [OF commit_holds [OF h r]]
      by (simp add: commits_def component_valid_defs same_lifecycle_def claim_holds_invalidate)
    note done_c = commits_aside [OF this aside_ops(6)] commits_aside [OF commits_aside [OF this aside_ops(6)] aside_ops(1)]
    show ?thesis
      using boundary False failed done_c
      by (simp add: commit_prepared_config_if_released_def with_exchange_def cancel_claim_def r r2 Let_def
          split: prod.split flip: C1_def)
  qed
qed

subsection \<open>Steps of a block\<close>

definition runs :: "('d, 'h, 'o) block_state \<Rightarrow> ('d, 'h, 'o) block_state \<Rightarrow> bool" where
  "runs S S' \<longleftrightarrow>
     (component_valid (fst S) \<longrightarrow> component_valid (fst S')) \<and> same_lifecycle (fst S) (fst S')
     \<and> by_calls (mc_generated_notes (fst S), bw_events (snd S)) (mc_generated_notes (fst S'), bw_events (snd S'))"

lemma runs_refl [simp]: "runs S S"
  by (simp add: runs_def same_lifecycle_def)

lemma runs_trans: "runs S1 S2 \<Longrightarrow> runs S2 S3 \<Longrightarrow> runs S1 S3"
  by (auto simp: runs_def same_lifecycle_def intro: by_calls_trans)

lemma moves_runs: "moves C C' \<Longrightarrow> bw_events W' = bw_events W \<Longrightarrow> runs (C, W) (C', W')"
  by (simp add: runs_def moves_def own_by_calls)

lemma commits_runs: "commits C C' \<Longrightarrow> runs (C, W) (C', W)"
  by (simp add: runs_def commits_def)

lemma valid_notes:
  "component_valid (C\<lparr>mc_generated_notes := L\<rparr>) \<longleftrightarrow>
     configs_ok C \<and> exchange_ok C \<and> lifecycle_ok C \<and> (mc_structural_boundary_pending C \<longrightarrow> waiting L)"
proof -
  have "exchange_ok (C\<lparr>mc_generated_notes := L\<rparr>) = exchange_ok C"
    by (simp add: exchange_ok_def current_claim_def cong: if_cong)
  then show ?thesis by (simp add: component_valid_def configs_ok_def lifecycle_ok_def)
qed

text \<open>The retry of the releases.\<close>

lemma retry_runs:
  assumes "component_retry_pending_releases data S = (C', W')"
  shows "runs S (C', W')" "mc_structural_boundary_pending C' = mc_structural_boundary_pending (fst S)"
    "mc_active_config C' = mc_active_config (fst S)" "bw_memory W' = bw_memory (snd S)"
    "queue_size (mc_generated_notes C') = queue_size (mc_generated_notes (fst S))"
    "\<exists>ok. retry_pending_releases (Some (push_vst3_note (pd_output_events data))) (mc_generated_notes (fst S)) (bw_events (snd S))
       = (ok, mc_generated_notes C', bw_events W')"
proof -
  let ?ev = "pd_output_events data"
  obtain C W where S: "S = (C, W)" by (cases S)
  obtain ok L ctx where r: "retry_pending_releases (Some (push_vst3_note ?ev)) (mc_generated_notes C) (bw_events W) = (ok, L, ctx)"
    by (metis prod_cases3)
  let ?C = "C\<lparr>mc_generated_notes := L\<rparr>"
  have C': "C' = (if \<not> ok then raise_status status_midi_output_blocked ?C
        else if \<not> mc_structural_boundary_pending C then ?C\<lparr>mc_release_channel_pending := False\<rparr> else ?C)"
    and W': "W' = W\<lparr>bw_events := ctx\<rparr>"
    using assms by (auto simp: component_retry_pending_releases_def S r Let_def)
  have u: "aside ?C (?C\<lparr>mc_release_channel_pending := False\<rparr>)" by (simp add: aside_simps)
  have a: "aside ?C C'" unfolding C' using aside_ops(2) [of ?C status_midi_output_blocked] u by simp
  note keep = vst3_retry_keep [OF r]
  have v: "component_valid ?C" if "component_valid C"
    using that keep(1) unfolding valid_notes by (simp add: component_valid_def)
  have "by_calls (mc_generated_notes C, bw_events W) (L, ctx)"
    using by_calls_step [OF by_calls_refl, of _ "call_retry ?ev"] r by (metis ledger_call_step.simps(7) snd_conv)
  moreover have "component_valid C \<longrightarrow> component_valid C'" using v aside_moves [OF a] by (simp add: moves_def)
  ultimately show "runs S (C', W')" "mc_structural_boundary_pending C' = mc_structural_boundary_pending (fst S)"
    "mc_active_config C' = mc_active_config (fst S)" "bw_memory W' = bw_memory (snd S)"
    "queue_size (mc_generated_notes C') = queue_size (mc_generated_notes (fst S))"
    using a keep(2) by (simp_all add: runs_def S W' aside_def same_lifecycle_def)
  show "\<exists>ok. retry_pending_releases (Some (push_vst3_note ?ev)) (mc_generated_notes (fst S)) (bw_events (snd S))
       = (ok, mc_generated_notes C', bw_events W')"
    using a r by (auto simp: S W' aside_def)
qed

text \<open>The delivery.\<close>

lemma deliver_runs:
  assumes "deliver_generated_notes data fin lay p S = (C', W')"
    "mc_structural_boundary_pending (fst S) \<Longrightarrow> queue_size (mc_generated_notes (fst S)) = 0"
  shows "runs S (C', W')" "mc_active_config C' = mc_active_config (fst S)"
    "\<exists>r L' frames routing start. deliver_queued frames (Some (push_vst3_note (pd_output_events data))) p fin lay
       routing start (mc_generated_notes (fst S)) (bw_events (snd S)) = (r, L', bw_events W')"
proof -
  let ?ev = "pd_output_events data"
  obtain C W where S: "S = (C, W)" by (cases S)
  let ?n = "word_of_int (pd_num_samples data)" and ?ro = "midi_routing (mc_active_config C)" and ?ch = "midi_channel (mc_active_config C)"
  obtain r L ctx where d: "deliver_queued ?n (Some (push_vst3_note ?ev)) p fin lay ?ro ?ch (mc_generated_notes C) (bw_events W)
      = (r, L, ctx)" by (metis prod_cases3)
  let ?C = "C\<lparr>mc_generated_notes := L\<rparr>"
  have C': "C' = (if mc_status ?C = status_unsupported_layout \<or> mc_status ?C = status_invalid_input_or_state then ?C
        else update_delivery_status r ?C)" and W': "W' = W\<lparr>bw_events := ctx\<rparr>"
    using assms(1) by (auto simp: deliver_generated_notes_def S d Let_def)
  have a: "aside ?C C'" unfolding C' using aside_ops(3) [of ?C r] by simp
  have v: "component_valid ?C" if "component_valid C"
    using that deliver_nothing(2) [OF _ d] waiting_cong [of L "mc_generated_notes C"] assms(2) S
    unfolding valid_notes by (simp add: component_valid_def)
  have "by_calls (mc_generated_notes C, bw_events W) (L, ctx)"
    using by_calls_step [OF by_calls_refl, of _ "call_deliver_queued ?n ?ev p fin lay ?ro ?ch"] d
    by (metis ledger_call_step.simps(8) snd_conv)
  moreover have "component_valid C \<longrightarrow> component_valid C'" using v aside_moves [OF a] by (simp add: moves_def)
  ultimately show "runs S (C', W')" "mc_active_config C' = mc_active_config (fst S)"
    using a by (simp_all add: runs_def S W' aside_def same_lifecycle_def)
  show "\<exists>r L' frames routing start. deliver_queued frames (Some (push_vst3_note ?ev)) p fin lay
       routing start (mc_generated_notes (fst S)) (bw_events (snd S)) = (r, L', bw_events W')"
    unfolding S W' using d by (simp, blast)
qed

text \<open>The detector's run.\<close>

lemma own_queue_decision: "own_calls L (queue_decision ts i n L)"
proof (induction ts arbitrary: L)
  case (Cons t ts)
  obtain ok L1 where q: "queue_transition (t\<lparr>vt_sample_offset := i\<rparr>) n L = (ok, L1)" by (meson surj_pair)
  then have "own_calls L L1" using own_call(2) [of L "t\<lparr>vt_sample_offset := i\<rparr>" n] by simp
  then show ?case
    using own_calls_trans [OF Cons.IH] own_calls.failure by (cases ok) (simp_all add: q)
qed (simp add: own_calls.none)

definition only_notes :: "'d M3Component \<Rightarrow> 'd M3Component \<Rightarrow> bool" where
  "only_notes C C' \<longleftrightarrow> (\<exists>L. own_calls (mc_generated_notes C) L \<and> aside (C\<lparr>mc_generated_notes := L\<rparr>) C')"

lemma only_notes_refl: "only_notes C C"
  unfolding only_notes_def by (intro exI [of _ "mc_generated_notes C"]) (simp add: own_calls.none aside_simps)

lemma only_notes_trans: "only_notes C1 C2 \<Longrightarrow> only_notes C2 C3 \<Longrightarrow> only_notes C1 C3"
proof -
  assume "only_notes C1 C2" "only_notes C2 C3"
  then obtain L2 L3 where l: "own_calls (mc_generated_notes C1) L2" "aside (C1\<lparr>mc_generated_notes := L2\<rparr>) C2"
    "own_calls (mc_generated_notes C2) L3" "aside (C2\<lparr>mc_generated_notes := L3\<rparr>) C3" unfolding only_notes_def by blast
  then have "mc_generated_notes C2 = L2" "aside (C1\<lparr>mc_generated_notes := L3\<rparr>) C3" by (simp_all add: aside_simps)
  with l own_calls_trans show ?thesis unfolding only_notes_def by blast
qed

lemma frame_only_notes: "only_notes C (detector_frame E x i n C)"
proof -
  obtain q d where p: "dt_process_sample E x (mc_detector C) = (q, d)" by (meson surj_pair)
  define C1 where "C1 = update_tuner (dd_tuner q) (if dd_tuner_snapshot_ready q
      then on_telemetry (tuner_publish (dd_tuner_snapshot q)) (C\<lparr>mc_detector := d\<rparr>) else C\<lparr>mc_detector := d\<rparr>)"
  have d: "aside C (C\<lparr>mc_detector := d\<rparr>)" by (simp add: aside_simps)
  have a: "aside C C1"
    unfolding C1_def using aside_trans [OF d aside_ops(4)] aside_trans [OF aside_trans [OF d aside_ops(5)] aside_ops(4)]
    by simp
  let ?L = "queue_decision (dd_transitions q) i n (mc_generated_notes C)"
  have "detector_frame E x i n C = on_notes (queue_decision (dd_transitions q) i n) C1"
    by (simp add: detector_frame_def p C1_def Let_def)
  moreover have "aside (C\<lparr>mc_generated_notes := ?L\<rparr>) (on_notes (queue_decision (dd_transitions q) i n) C1)"
    using a by (simp add: aside_simps on_notes_def)
  ultimately show ?thesis unfolding only_notes_def using own_queue_decision by fastforce
qed

lemma run_only_notes: "only_notes C (run_detector E x n fs C)"
proof (induction fs arbitrary: C)
  case (Cons f fs)
  show ?case
    using frame_only_notes [of C E "x f" "of_nat f" n] only_notes_trans [OF frame_only_notes Cons.IH]
    by (simp add: Let_def)
qed (simp add: only_notes_refl)

lemma only_notes_valid:
  assumes "only_notes C C'" "\<not> mc_structural_boundary_pending C"
  shows "(component_valid C \<longrightarrow> component_valid C') \<and> same_lifecycle C C' \<and> mc_active_config C' = mc_active_config C
    \<and> own_calls (mc_generated_notes C) (mc_generated_notes C')"
  using assms by (auto simp: only_notes_def aside_simps component_valid_defs)

text \<open>The input of a block.\<close>

lemma process_input_keeps:
  assumes "C' = process_input E m ic flags analysis frames C"
  shows "(component_valid C \<longrightarrow> component_valid C') \<and> same_lifecycle C C'
    \<and> structure_of (mc_active_config C') = structure_of (mc_active_config C)
    \<and> own_calls (mc_generated_notes C) (mc_generated_notes C')"
proof -
  define C1 where "C1 = (if dp_nonfinite_input analysis
      then notes_failed ((raise_status status_invalid_input_or_state C)\<lparr>mc_release_channel_pending := True\<rparr>) else C)"
  have u: "aside D (D\<lparr>mc_release_channel_pending := b\<rparr>)" for D :: "'a M3Component" and b by (simp add: aside_simps)
  have k1: "moves C C1"
    using moves_trans [OF aside_moves [OF aside_trans [OF aside_ops(2) u]] moves_failed] by (simp add: C1_def)
  let ?g = "input_gain E C" and ?n = "of_nat frames :: u32"
  define C2 where "C2 = (if detector_allowed analysis ?g C1
      then run_detector E (detector_input m ic flags analysis ?g) ?n [0..<frames] (advance_decision_phase ?n C1)
      else tuner_off frame_unavailable C1)"
  have k2: "(component_valid C1 \<longrightarrow> component_valid C2) \<and> same_lifecycle C1 C2
      \<and> mc_active_config C2 = mc_active_config C1 \<and> own_calls (mc_generated_notes C1) (mc_generated_notes C2)"
  proof (cases "detector_allowed analysis ?g C1")
    case True
    have a: "aside C1 (advance_decision_phase ?n C1)" by (rule aside_ops(9))
    then have b: "\<not> mc_structural_boundary_pending (advance_decision_phase ?n C1)"
      using True by (simp add: aside_def detector_allowed_def)
    show ?thesis
      using only_notes_valid [OF run_only_notes b, of E "detector_input m ic flags analysis ?g" ?n "[0..<frames]"]
        aside_moves [OF a] a True
      by (simp add: C2_def moves_def aside_def same_lifecycle_def)
  next
    case False
    then show ?thesis
      using aside_tuner_off [of C1 frame_unavailable] aside_moves [OF aside_tuner_off [of C1 frame_unavailable]]
      by (simp add: C2_def moves_def aside_def)
  qed
  have "aside C2 C'"
    unfolding assms process_input_def Let_def C2_def [symmetric] C1_def [symmetric] by (rule aside_ops(5))
  then have k3: "moves C2 C'" "mc_generated_notes C' = mc_generated_notes C2" "mc_active_config C' = mc_active_config C2"
    using aside_moves by (blast, simp_all add: aside_def)
  have "own_calls (mc_generated_notes C) (mc_generated_notes C2)"
    using k1 k2 own_calls_trans unfolding moves_def by blast
  with k1 k2 k3 show ?thesis by (simp add: moves_def same_lifecycle_def)
qed

subsection \<open>The samples of a block\<close>

text \<open>The events of a host only grow.\<close>

definition extends :: "'h Vst3EventSinkContext \<Rightarrow> 'h Vst3EventSinkContext \<Rightarrow> bool" where
  "extends s s' \<longleftrightarrow> (\<exists>ms. vst3_msgs s' = vst3_msgs s @ ms)"

lemma extends_refl [simp]: "extends s s"
  by (simp add: extends_def)

lemma extends_trans: "extends s1 s2 \<Longrightarrow> extends s2 s3 \<Longrightarrow> extends s1 s3"
  by (auto simp: extends_def)

lemma push_extends: "push (Some (push_vst3_note ev)) L s t c = (ok, L', s') \<Longrightarrow> extends s s'"
  by (auto simp: push_def push_vst3_note_def extends_def vst3_msgs_def split: if_splits option.splits prod.splits)

lemma off_extends: "deliver_note_off (Some (push_vst3_note ev)) t L s = (go, L', s') \<Longrightarrow> extends s s'"
  by (auto simp: deliver_note_off_def Let_def split: if_splits prod.splits dest: push_extends)

lemma on_extends: "deliver_note_on (Some (push_vst3_note ev)) routing start t L s = (go, L', s') \<Longrightarrow> extends s s'"
  by (auto simp: deliver_note_on_def Let_def split: if_splits prod.splits dest: push_extends)

lemma events_extend:
  "deliver_events (Some (push_vst3_note ev)) routing start frames ts L s = (L', s') \<Longrightarrow> extends s s'"
proof (induction ts arbitrary: L s)
  case (Cons t ts)
  obtain go L1 s1 where d: "(if vt_kind t = note_off then deliver_note_off (Some (push_vst3_note ev)) t L s
      else deliver_note_on (Some (push_vst3_note ev)) routing start t L s) = (go, L1, s1)" by (metis prod_cases3)
  then have "extends s s1" by (auto split: if_splits dest: off_extends on_extends)
  with Cons d show ?case by (auto split: if_splits intro: extends_trans)
qed simp

lemma queued_extends:
  "deliver_queued frames (Some (push_vst3_note ev)) p fin lay routing start L s = (r, L', s') \<Longrightarrow> extends s s'"
  by (auto simp: deliver_queued_def Let_def split: if_splits prod.splits dest: events_extend)

text \<open>Every note was off, and only note-offs were sent, before anything else was.\<close>

definition switched_in_silence :: "'h Vst3EventSinkContext \<Rightarrow> 'h Vst3EventSinkContext \<Rightarrow> bool" where
  "switched_in_silence s s' \<longleftrightarrow>
     (\<exists>ms1 ms2. vst3_msgs s' = vst3_msgs s @ ms1 @ ms2 \<and> list_all is_msg_off ms1
        \<and> play (vst3_msgs s @ ms1) {#} = Some {#})"

definition block_ok :: "('d, 'h, 'o) block_state \<Rightarrow> ('d, 'h, 'o) block_state \<Rightarrow> bool" where
  "block_ok S S' \<longleftrightarrow>
     runs S S' \<and> queue_size (mc_generated_notes (fst S')) = 0
     \<and> (structure_of (mc_active_config (fst S')) \<noteq> structure_of (mc_active_config (fst S)) \<longrightarrow>
          switched_in_silence (bw_events (snd S)) (bw_events (snd S')))"

lemma retry_offs:
  assumes "vst3_synced (L, s)" "retry_pending_releases (Some (push_vst3_note ev)) L s = (ok, L', s')"
  shows "only_offs vst3_msgs s s'" "play (vst3_msgs s') {#} = Some (open_notes L')"
proof -
  have w: "ledger_wf L" "in_sync vst3_msgs L s" using assms(1) by (simp_all add: vst3_synced_def)
  show "only_offs vst3_msgs s s'" by (rule vst3_sink.retry_pending_offs [OF w assms(2)])
  show "play (vst3_msgs s') {#} = Some (open_notes L')"
    using vst3_sink.retry_pending_releases_sync [OF w assms(2)] by (simp add: in_sync_def)
qed

lemma begin_block_end:
  "runs (C, W) (on_notes ledger_begin_block C, W)" "queue_size (mc_generated_notes (on_notes ledger_begin_block C)) = 0"
  "mc_active_config (on_notes ledger_begin_block C) = mc_active_config C"
proof -
  show "runs (C, W) (on_notes ledger_begin_block C, W)"
    by (rule moves_runs [OF moves_ledger(4) [of C]]) simp
qed (simp_all add: on_notes_def)

lemma unsupported_ok:
  assumes q: "queue_size (mc_generated_notes C) = 0" and n: "valid_layout float32 data = None"
  shows "block_ok (C, W) (process_samples E float32 data (C, W))"
proof -
  define C1 where "C1 = notes_failed ((raise_status status_unsupported_layout C)\<lparr>mc_release_channel_pending := True\<rparr>)"
  have u: "aside D (D\<lparr>mc_release_channel_pending := b\<rparr>)" for D :: "'a M3Component" and b by (simp add: aside_simps)
  have k1: "moves C C1"
    unfolding C1_def by (rule moves_trans [OF aside_moves [OF aside_trans [OF aside_ops(2) u]] moves_failed])
  let ?W = "zero_available_output float32 data W"
  have w: "bw_events ?W = bw_events W"
    by (simp add: zero_available_output_def split: option.split prod.split)
  obtain C2 W2 where r: "component_retry_pending_releases data (C1, ?W) = (C2, W2)" by (meson surj_pair)
  obtain C3 W3 where d: "deliver_generated_notes data True False 0 (C2, W2) = (C3, W3)" by (meson surj_pair)
  have q2: "queue_size (mc_generated_notes C2) = 0" using retry_runs(5) [OF r] k1 q by (simp add: moves_def)
  then have "runs (C2, W2) (C3, W3)" using deliver_runs(1) [OF d] by simp
  with moves_runs [OF k1 w] retry_runs(1) [OF r] begin_block_end(1) [of C3 W3]
  have "runs (C, W) (on_notes ledger_begin_block C3, W3)" using runs_trans by blast
  moreover have "mc_active_config C3 = mc_active_config C2"
    using deliver_runs(2) [OF d] q2 by simp
  then have "structure_of (mc_active_config C3) = structure_of (mc_active_config C)"
    using retry_runs(3) [OF r] k1 by (simp add: moves_def)
  moreover have "process_samples E float32 data (C, W) = (on_notes ledger_begin_block C3, W3)"
    by (simp add: process_samples_def n r d flip: C1_def)
  ultimately show ?thesis by (simp add: block_ok_def begin_block_end)
qed

lemma supported_ok:
  assumes v: "component_valid C" and s: "vst3_synced (mc_generated_notes C, bw_events W)"
    and l: "valid_layout float32 data = Some (input, ic, oc)"
  shows "block_ok (C, W) (process_samples E float32 data (C, W))"
proof -
  let ?n = "nat (pd_num_samples data)" and ?f = "bb_silence_flags input"
  obtain C1 W1 where r: "component_retry_pending_releases data (C, W) = (C1, W1)" by (meson surj_pair)
  note r1 = retry_runs [OF r, simplified]
  define C2 where "C2 = commit_prepared_config_if_released E C1"
  have c2: "commits C1 C2" unfolding C2_def using r1(1) v by (intro commit_cases) (simp add: runs_def)
  let ?a = "analyze_detector_input (bw_memory W1) (Some ic) ?n ?f"
  define C3 where "C3 = process_input E (bw_memory W1) ic ?f ?a ?n C2"
  note c3 = process_input_keeps [OF C3_def]
  obtain res m where p: "process_dry_path (bw_memory W1) (Some ic) (Some oc) ?n (dry_passthrough (mc_audio_requested_config C3)) ?f
      = (res, m)" by (meson surj_pair)
  let ?W2 = "W1\<lparr>bw_memory := m, bw_silence_flags := Some (dp_output_silence_flags res)\<rparr>"
  define C4 where "C4 = (if mc_structural_boundary_pending C3 then on_notes ledger_begin_block C3 else C3)"
  have c4: "moves C3 C4" "mc_active_config C4 = mc_active_config C3"
    "mc_structural_boundary_pending C4 \<Longrightarrow> queue_size (mc_generated_notes C4) = 0"
    using moves_ledger(4) [of C3]
    by (cases "mc_structural_boundary_pending C3"; simp add: C4_def on_notes_def)+
  obtain C5 W5 where d: "deliver_generated_notes data (\<not> dp_nonfinite_input ?a) True (dp_selected_peak ?a) (C4, ?W2) = (C5, W5)"
    by (meson surj_pair)
  note d5 = deliver_runs [OF d, simplified, OF c4(3)]
  define C6 where "C6 = publish_string_calibration_status E C5"
  have c6: "aside C5 C6" unfolding C6_def by (rule aside_publish_status)
  have result: "process_samples E float32 data (C, W) = (on_notes ledger_begin_block C6, W5)"
    using d [unfolded C4_def]
    by (cases "mc_structural_boundary_pending C3")
      (simp_all add: process_samples_def l r Let_def C2_def [symmetric] C3_def [symmetric] p C6_def [symmetric])
  have "runs (C2, W1) (C3, W1)" using c3 by (simp add: runs_def own_by_calls)
  moreover have "runs (C3, W1) (C4, ?W2)" by (rule moves_runs [OF c4(1)]) simp
  moreover have "runs (C5, W5) (C6, W5)" by (rule moves_runs [OF aside_moves [OF c6]]) simp
  ultimately have "runs (C, W) (on_notes ledger_begin_block C6, W5)"
    using r1(1) commits_runs [OF c2, of W1] d5(1) begin_block_end(1) [of C6 W5] by (meson runs_trans)
  moreover have "switched_in_silence (bw_events W) (bw_events W5)"
    if "structure_of (mc_active_config C6) \<noteq> structure_of (mc_active_config C)"
  proof -
    have "structure_of (mc_active_config C2) \<noteq> structure_of (mc_active_config C1)"
      using that c6 d5(2) c4(2) c3 r1(3) by (simp add: aside_def)
    then have empty: "open_notes (mc_generated_notes C1) = {#}" using c2 by (auto simp: commits_def)
    obtain ok where rr: "retry_pending_releases (Some (push_vst3_note (pd_output_events data)))
        (mc_generated_notes C) (bw_events W) = (ok, mc_generated_notes C1, bw_events W1)" using r1(6) by blast
    obtain ms1 where ms1: "vst3_msgs (bw_events W1) = vst3_msgs (bw_events W) @ ms1" "list_all is_msg_off ms1"
      using retry_offs(1) [OF s rr] unfolding only_offs_def by blast
    moreover have "play (vst3_msgs (bw_events W) @ ms1) {#} = Some {#}"
      using retry_offs(2) [OF s rr] empty ms1 by simp
    moreover have "extends (bw_events W1) (bw_events W5)"
      using d5(3) queued_extends by auto
    ultimately show ?thesis unfolding switched_in_silence_def extends_def by (metis append.assoc)
  qed
  ultimately show ?thesis by (simp add: block_ok_def result begin_block_end)
qed

lemma process_samples_ok:
  assumes "component_valid C" "vst3_synced (mc_generated_notes C, bw_events W)" "queue_size (mc_generated_notes C) = 0"
  shows "block_ok (C, W) (process_samples E float32 data (C, W))"
  using supported_ok [OF assms(1,2)] unsupported_ok [OF assms(3)]
  by (cases "valid_layout float32 data") auto

end
