(* ===== verification/Vst3_Call_Laws.thy ===== *)
theory Vst3_Call_Laws
  imports Vst3_Block_Laws
begin

unbundle bit_operations_syntax

text \<open>
  A whole block of the VST3 plugin object, from the host's data to its outputs, accepted or refused.
\<close>

lemma block_after: "moves C C1 \<Longrightarrow> block_ok (C1, W) S' \<Longrightarrow> block_ok (C, W) S'"
  using runs_trans [OF moves_runs [of C C1 W W]] by (simp add: block_ok_def moves_def)

lemma block_before:
  "block_ok S (C1, W1) \<Longrightarrow> aside C1 C2 \<Longrightarrow> bw_events W2 = bw_events W1 \<Longrightarrow> block_ok S (C2, W2)"
  using runs_trans [OF _ moves_runs [OF aside_moves, of C1 C2 W2 W1]] by (simp add: block_ok_def aside_def)

lemma block_moves:
  "moves C C' \<Longrightarrow> queue_size (mc_generated_notes C) = 0 \<Longrightarrow> block_ok (C, W) (C', W)"
  using moves_runs [of C C' W W] by (simp add: block_ok_def moves_def)

lemma own_calls_synced:
  assumes "own_calls L L'" "vst3_synced (L, s)"
  shows "vst3_synced (L', s)"
proof -
  obtain cs where "(L', s) = fold ledger_call_step cs (L, s)" using own_by_calls [OF assms(1)] by (auto simp: by_calls_def)
  moreover have "vst3_synced (fold ledger_call_step cs Ls)" if "vst3_synced Ls" for Ls
    using that by (induction cs arbitrary: Ls) (simp_all add: ledger_call_step_synced)
  ultimately show ?thesis using assms(2) by metis
qed

text \<open>The outputs of a block touch no more than the marks of what is still to be sent.\<close>

lemma publish_parameters_aside: "aside C (fst (publish_parameter_outputs ch (C, ho)))"
proof -
  have bind: "aside C0 (fst (case X of (C, ho) \<Rightarrow> f C ho))"
    if "aside C0 (fst X)" "\<And>C ho. aside C0 C \<Longrightarrow> aside C0 (fst (f C ho))" for C0 :: "'a M3Component" and X :: "'a M3Component \<times> 'b" and f
    using that by (cases X) simp
  have u: "aside C0 (C\<lparr>mc_status_dirty := b\<rparr>)" "aside C0 (C\<lparr>mc_tuner_note_dirty := b\<rparr>)"
    "aside C0 (C\<lparr>mc_tuner_cents_dirty := b\<rparr>)" "aside C0 (C\<lparr>mc_panic_ready_dirty := b\<rparr>)"
    if "aside C0 C" for C0 C :: "'a M3Component" and b using that by (simp_all add: aside_simps)
  show ?thesis
    unfolding publish_parameter_outputs_def Let_def
    by (intro bind; simp add: u split: prod.split)
qed

lemma publish_outputs_ok:
  assumes "block_ok S (C1, W1)"
  shows "block_ok S (publish_outputs ch (C1, W1))"
proof -
  obtain C2 ho where p: "publish_parameter_outputs ch (C1, bw_outputs W1) = (C2, ho)" by (meson surj_pair)
  then have "aside C1 C2" using publish_parameters_aside [of C1 ch "bw_outputs W1"] by simp
  with block_before [OF assms] p show ?thesis by (simp add: publish_outputs_def)
qed

text \<open>The parameters.\<close>

lemma copy_runtime_structure [simp]: "structure_of (copy_runtime_config c d) = structure_of c"
  by (simp add: structure_of_def copy_runtime_config_def)

lemma parameters_move:
  assumes "component_valid C" "config_valid (pb_candidate batch)"
  shows "moves C (apply_block_parameters E batch C)"
proof -
  define C1 where "C1 = (if \<not> pb_changed batch then C
       else if pb_structural batch then begin_structural_boundary E (pb_candidate batch) C
       else let C = C\<lparr>mc_audio_requested_config := copy_runtime_config (mc_audio_requested_config C) (pb_candidate batch),
                      mc_active_config := copy_runtime_config (mc_active_config C) (pb_candidate batch)\<rparr>
            in on_detector (dt_set_runtime_config E (mc_active_config C)) C)"
  have "moves C (C\<lparr>mc_audio_requested_config := copy_runtime_config (mc_audio_requested_config C) (pb_candidate batch),
      mc_active_config := copy_runtime_config (mc_active_config C) (pb_candidate batch)\<rparr>)"
    using copy_runtime_valid [OF _ assms(2)]
    by (simp add: moves_def component_valid_defs same_lifecycle_def own_calls.none)
  note runtime = moves_trans [OF this aside_moves [OF aside_ops(6)]]
  have k1: "moves C C1"
    using moves_begin [OF assms] runtime by (simp add: C1_def Let_def)
  have u: "aside C1 (C1\<lparr>mc_panic_ready_dirty := a, mc_panic_requested := b\<rparr>)" for a b by (simp add: aside_simps)
  have "apply_block_parameters E batch C = (if pb_panic batch \<or> mc_panic_requested C1
       then request_panic_recovery E (C1\<lparr>mc_panic_ready_dirty := True,
          mc_panic_requested := (if pb_panic batch then mc_panic_requested C1 else False)\<rparr>) else C1)"
    by (simp add: apply_block_parameters_def C1_def Let_def)
  then show ?thesis
    using k1 moves_trans [OF moves_trans [OF k1 aside_moves [OF u]] moves_panic] by simp
qed

text \<open>The block.\<close>

lemma refused_ok: "queue_size (mc_generated_notes (fst S)) = 0 \<Longrightarrow> block_ok S (snd (refuse_block data S))"
proof -
  assume q: "queue_size (mc_generated_notes (fst S)) = 0"
  have "moves (fst S) (notes_failed (raise_status status_invalid_input_or_state (fst S)))"
    by (rule moves_trans [OF aside_moves [OF aside_ops(2)] moves_failed])
  then have "block_ok (fst S, snd S) (notes_failed (raise_status status_invalid_input_or_state (fst S)), snd S)"
    using q by (rule block_moves)
  then show ?thesis using publish_outputs_ok by (simp add: refuse_block_def)
qed

lemma vst3_process_ok:
  assumes v: "component_valid (fst S)" and q: "queue_size (mc_generated_notes (fst S)) = 0"
    and s: "vst3_synced (mc_generated_notes (fst S), bw_events (snd S))"
  shows "block_ok S (snd (component_process E data S))"
proof (cases "block_refused data (fst S)")
  case True
  then show ?thesis by (simp add: component_process_def refused_ok [OF q])
next
  case False
  obtain C W where S: "S = (C, W)" by (cases S)
  obtain ok batch where r: "read_last_boundary_values (pd_input_parameter_changes data) (pd_num_samples data)
      (mc_audio_requested_config C) = (ok, batch)" by (meson surj_pair)
  show ?thesis
  proof (cases ok)
    case ok: False
    then show ?thesis using False r S refused_ok [OF q] by (simp add: component_process_def)
  next
    case ok: True
    have "config_valid (mc_audio_requested_config C)" using v by (simp add: S component_valid_def configs_ok_def)
    then have b: "config_valid (pb_candidate batch)" using read_batch(1) [OF _ r] by (simp add: batch_ok_def)
    define C1 where "C1 = apply_string_calibration_command E (apply_calibration_restore E (apply_block_parameters E batch C))"
    have k: "moves C C1"
      unfolding C1_def
      using moves_trans [OF moves_trans [OF parameters_move [OF _ b] aside_moves [OF aside_restore]] aside_moves [OF aside_command]]
        v S by simp
    have v1: "component_valid C1" and q1: "queue_size (mc_generated_notes C1) = 0"
      using k v q by (simp_all add: moves_def S)
    have s1: "vst3_synced (mc_generated_notes C1, bw_events W)" using k s own_calls_synced by (auto simp: moves_def S)
    have samples: "block_ok (C1, W) (process_samples E f data (C1, W))" for f
      using supported_ok [OF v1 s1] unsupported_ok [OF q1]
      by (cases "valid_layout f data") auto
    have empty: "block_ok (C1, W) (if mc_structural_boundary_pending C1 then raise_status status_reconfiguring C1 else C1, W)"
      using block_moves [OF aside_moves [OF aside_ops(2)] q1] block_moves [OF moves_refl q1] by (cases "mc_structural_boundary_pending C1") (simp_all only: if_True if_False simp_thms)
    have published: "block_ok (C, W) (publish_outputs ch T)" if "block_ok (C1, W) T" for ch T
      using publish_outputs_ok [of "(C, W)" "fst T" "snd T"] block_after [OF k that] by simp
    have refused: "block_ok (C, W) (snd (refuse_block data (C1, W)))"
      by (rule block_after [OF k refused_ok]) (simp add: q1)
    show ?thesis
      using False r ok empty refused
      by (cases "mc_structural_boundary_pending C1") (simp_all add: component_process_def S Let_def published samples flip: C1_def)
  qed
qed

text \<open>
  What the host's calls of the VST3 plugin object keep, besides the block: lifecycle, setup, state and
  parameters.
\<close>

subsection \<open>Steps that send nothing\<close>

definition steps :: "'d M3Component \<Rightarrow> 'd M3Component \<Rightarrow> bool" where
  "steps C C' \<longleftrightarrow>
     (component_valid C \<longrightarrow> component_valid C')
     \<and> own_calls (mc_generated_notes C) (mc_generated_notes C')
     \<and> (queue_size (mc_generated_notes C) = 0 \<longrightarrow> queue_size (mc_generated_notes C') = 0)"

lemma steps_refl [simp]: "steps C C"
  by (simp add: steps_def own_calls.none)

lemma steps_trans: "steps C1 C2 \<Longrightarrow> steps C2 C3 \<Longrightarrow> steps C1 C3"
  by (auto simp: steps_def intro: own_calls_trans)

lemma moves_steps: "moves C C' \<Longrightarrow> steps C C'"
  by (simp add: moves_def steps_def)

lemma aside_steps: "aside C C' \<Longrightarrow> steps C C'"
  by (rule moves_steps [OF aside_moves])

lemma steps_aside: "steps C C1 \<Longrightarrow> aside C1 C2 \<Longrightarrow> steps C C2"
  by (rule steps_trans [OF _ aside_steps])

lemma request_valid: "component_valid C \<Longrightarrow> request_holds config_valid (mc_config_request C)"
  by (simp add: component_valid_def configs_ok_def)

lemma snapshot_component:
  assumes "component_valid C" "with_request (snapshot 3) C = (q, C')"
  shows "C' = C \<and> (\<exists>c g. q = Some (c, g) \<and> config_valid c)"
  using run_snapshot [OF request_valid [OF assms(1)]] assms(2)
  by (auto simp: with_request_def)

text \<open>The main thread's publication.\<close>

lemma steps_publish:
  assumes v: "component_valid C" and c: "config_valid config" and p: "publish_main_config config C = (ok, C')"
  shows "steps C C'"
proof -
  show ?thesis
  proof (cases "same_persistent_config (mc_main_config C) config")
    case True
    have "steps C (C\<lparr>mc_main_config := config\<rparr>)"
      using c v by (simp add: steps_def component_valid_defs own_calls.none)
    then show ?thesis using p True by (simp add: publish_main_config_def)
  next
    case different: False
    define s where "s = (\<not> structural_config_equal (mc_main_config C) config)"
    define staged where "staged = (if s \<and> mc_setup_complete C
        then stage_prepared_config config (su_sample_rate (mc_process_setup C)) else Some PreparedConfig_default)"
    show ?thesis
    proof (cases staged)
      case None
      then show ?thesis
        using p different by (simp add: publish_main_config_def s_def [symmetric] staged_def [symmetric])
    next
      case (Some prepared)
      have req: "config_valid (pc_requested prepared)"
        using Some staged_config c config_valid_default
        by (auto simp: staged_def PreparedConfig_default_def split: if_splits)
      let ?g = "mc_main_generation C + 1"
      obtain q C1 where x: "(if s \<and> mc_active C \<and> mc_prepared_exchange_initialized C
          then with_exchange (publish prepared ?g) C else (True, C)) = (q, C1)" by (meson surj_pair)
      have "\<exists>m. C1 = C\<lparr>mc_prepared_exchange := m\<rparr> \<and> exchange_ok (C\<lparr>mc_prepared_exchange := m\<rparr>)"
      proof (cases "s \<and> mc_active C \<and> mc_prepared_exchange_initialized C")
        case True
        obtain m ok where r: "run (publish prepared ?g) (mc_prepared_exchange C) = (m, ok)" by (meson surj_pair)
        have h: "claim_holds config_valid (current_claim C) (mc_prepared_exchange C)"
          using v True by (simp add: component_valid_def exchange_ok_def)
        have "claim_holds config_valid (current_claim C) m" by (rule publish_keeps_claim [OF h req r])
        then have "exchange_ok (C\<lparr>mc_prepared_exchange := m\<rparr>)"
          using v True claim_slots by (auto simp: component_valid_def exchange_ok_def current_claim_def)
        then show ?thesis using x True r by (auto simp: with_exchange_def)
      next
        case False
        then show ?thesis
          using x v by (intro exI [of _ "mc_prepared_exchange C"]) (auto simp: component_valid_def)
      qed
      then obtain m where m: "C1 = C\<lparr>mc_prepared_exchange := m\<rparr>" "exchange_ok C1" by auto
      have v1: "component_valid C1" using v m by (simp add: component_valid_def configs_ok_def lifecycle_ok_def)
      then have s1: "steps C C1" by (simp add: steps_def m own_calls.none)
      obtain n ok2 where r: "run (request_publish config ?g) (mc_config_request C1) = (n, ok2)" by (meson surj_pair)
      have n: "request_holds config_valid n"
        using request_publish_holds(1) [OF request_valid [OF v1] c enums_valid [OF c] r] .
      have "steps C1 (C1\<lparr>mc_config_request := n\<rparr>)"
        using n v1 by (simp add: steps_def component_valid_defs own_calls.none)
      moreover have "steps C1 (C1\<lparr>mc_config_request := n, mc_main_config := config, mc_main_generation := ?g\<rparr>)"
        "steps C1 (C1\<lparr>mc_config_request := n, mc_main_config := config, mc_main_generation := ?g,
           mc_setup_prepared := prepared, mc_setup_generation := ?g, mc_setup_prepared_valid := True\<rparr>)"
        using n v1 c req by (simp_all add: steps_def component_valid_defs own_calls.none)
      ultimately have "steps C1 C'"
        using p different r
        by (auto simp: publish_main_config_def s_def [symmetric] staged_def [symmetric] Some Let_def x with_request_def
            split: if_splits bool.splits)
      then show ?thesis by (rule steps_trans [OF s1])
    qed
  qed
qed

subsection \<open>Initialization\<close>

lemma cleared_lifecycle:
  assumes "request_holds config_valid (mc_config_request C)" "length (slots (mc_prepared_exchange C)) = kSlotCount"
    "\<not> mc_active C" "\<not> mc_processing C" "mc_setup_complete C \<Longrightarrow> setup_ok (mc_process_setup C)"
  shows "component_valid (reset_members C)" "\<not> mc_active (reset_members C)" "\<not> mc_processing (reset_members C)"
    "mc_initialized (reset_members C) = mc_initialized C" "mc_setup_complete (reset_members C) = mc_setup_complete C"
    "mc_process_setup (reset_members C) = mc_process_setup C" "mc_config_request (reset_members C) = mc_config_request C"
    "mc_generated_notes (reset_members C) = NoteLedger_default"
proof -
  have d: "config_valid (pc_requested PreparedConfig_default)"
    using config_valid_default by (simp add: PreparedConfig_default_def)
  show "component_valid (reset_members C)"
    using assms config_valid_default d by (simp add: component_valid_defs reset_members_def)
  show "mc_generated_notes (reset_members C) = NoteLedger_default"
    by (simp add: reset_members_def ledger_deactivate_def NoteLedger_default_def)
qed (use assms in \<open>simp_all add: reset_members_def\<close>)

lemma valid_off:
  assumes "component_valid C" "\<not> mc_active C"
  shows "request_holds config_valid (mc_config_request C)" "length (slots (mc_prepared_exchange C)) = kSlotCount"
    "\<not> mc_processing C" "mc_setup_complete C \<Longrightarrow> setup_ok (mc_process_setup C)" "\<not> mc_prepared_claim_pending C"
  using assms by (auto simp: component_valid_def configs_ok_def exchange_ok_def lifecycle_ok_def)

text \<open>The fields that \<open>initialize\<close> and \<open>terminate\<close> set after the reset.\<close>

lemma valid_fields:
  "component_valid (C\<lparr>mc_parameters := q\<rparr>) = component_valid C"
  "component_valid (C\<lparr>mc_main_generation := g\<rparr>) = component_valid C"
  "component_valid (C\<lparr>mc_main_calibration_bank := b\<rparr>) = component_valid C"
  "component_valid (C\<lparr>mc_calibration_status := w\<rparr>) = component_valid C"
  "\<not> mc_active C \<Longrightarrow> component_valid (C\<lparr>mc_initialized := i\<rparr>) = component_valid C"
  "request_holds config_valid r \<Longrightarrow> component_valid C \<Longrightarrow> component_valid (C\<lparr>mc_config_request := r\<rparr>)"
  by (simp_all add: component_valid_def configs_ok_def lifecycle_ok_def exchange_ok_def current_claim_def cong: if_cong)

lemma initialize_ok:
  assumes v: "component_valid C" and r: "component_initialize E ctx base allocated C = (r, C')"
  shows "component_valid C'"
    "if mc_initialized C' \<and> \<not> mc_initialized C then mc_generated_notes C' = NoteLedger_default
     else mc_generated_notes C' = mc_generated_notes C"
proof -
  have "component_valid C' \<and> (if mc_initialized C' \<and> \<not> mc_initialized C then mc_generated_notes C' = NoteLedger_default
     else mc_generated_notes C' = mc_generated_notes C)"
  proof (cases "mc_initialized C \<or> \<not> ctx \<or> base \<noteq> kResultOk")
    case True
    then show ?thesis using assms by (auto simp: component_initialize_def split: if_splits)
  next
    case False
    then have off: "\<not> mc_active C" using v by (auto simp: component_valid_def lifecycle_ok_def)
    obtain ok q where q: "register_vst3_parameters allocated (mc_parameters C) = (ok, q)" by (meson surj_pair)
    show ?thesis
    proof (cases ok)
      case failed: False
      then show ?thesis using False r q v by (auto simp: component_initialize_def valid_fields)
    next
      case True
      define C1 where "C1 = reset_members (C\<lparr>mc_parameters := q\<rparr>)"
      note c1 = cleared_lifecycle [of "C\<lparr>mc_parameters := q\<rparr>", simplified, OF valid_off(1,2) [OF v off] off valid_off(3,4) [OF v off],
        folded C1_def]
      have req: "request_holds config_valid (fst (run (atomic_request_reset PersistentConfig_default 1) (mc_config_request C1)))"
        using valid_off(1) [OF v off] config_valid_default enums_valid [OF config_valid_default]
        by (intro request_reset_holds) (simp_all add: c1 request_holds_def)
      define C2 where "C2 = C1\<lparr>mc_main_generation := 1, mc_config_request :=
          fst (run (atomic_request_reset PersistentConfig_default 1) (mc_config_request C1))\<rparr>"
      have c2: "component_valid C2" "\<not> mc_active C2" "mc_generated_notes C2 = NoteLedger_default"
        using valid_fields(6) [OF req, of "C1\<lparr>mc_main_generation := 1\<rparr>"] c1 by (simp_all add: C2_def valid_fields)
      define bank where "bank = decode_factory_bank (env_factory_image E)"
      define C3 where "C3 = on_published (ct_publish bank 0) ((on_telemetry (tuner_clear frame_unavailable) C2)\<lparr>mc_main_calibration_bank := bank\<rparr>)"
      have "aside D (D\<lparr>mc_main_calibration_bank := bank\<rparr>)" for D :: "'a M3Component" by (simp add: aside_simps)
      then have a: "aside C2 C3" unfolding C3_def by (intro aside_trans [OF aside_trans [OF aside_ops(5)] aside_ops(7)])
      then have c3: "component_valid C3" "\<not> mc_active C3" "mc_generated_notes C3 = NoteLedger_default"
        using c2 aside_moves [OF a] by (simp_all add: moves_def aside_def same_lifecycle_def)
      have "C' = C3\<lparr>mc_calibration_status := pack_calibration_status CalibrationSweepStatus_default
          (cb_calibrated_string_mask bank), mc_initialized := True\<rparr>"
        using r False q True
        by (simp add: component_initialize_def Let_def flip: C1_def C2_def bank_def C3_def)
      then show ?thesis using c3 False by (simp add: valid_fields)
    qed
  qed
  then show "component_valid C'" "if mc_initialized C' \<and> \<not> mc_initialized C then mc_generated_notes C' = NoteLedger_default
     else mc_generated_notes C' = mc_generated_notes C" by simp_all
qed

lemma terminate_ok:
  assumes v: "component_valid C" and r: "component_terminate E base C = (r, C')"
  shows "component_valid C'"
    "mc_generated_notes C' = (if r = kResultOk then NoteLedger_default else mc_generated_notes C)"
proof -
  have "component_valid C' \<and> mc_generated_notes C' = (if r = kResultOk then NoteLedger_default else mc_generated_notes C)"
  proof (cases "\<not> mc_initialized C \<or> mc_active C \<or> mc_processing C \<or> base \<noteq> kResultOk")
    case True
    then show ?thesis using assms by (auto simp: component_terminate_def valid_fields split: if_splits)
  next
    case False
    then have off: "\<not> mc_active C" by simp
    define C1 where "C1 = C\<lparr>mc_parameters := Map.empty, mc_initialized := False, mc_setup_complete := False\<rparr>"
    have pend: "\<not> mc_prepared_claim_pending C1" using valid_off(5) [OF v off] by (simp add: C1_def)
    note c1 = cleared_lifecycle [of C1, unfolded C1_def, simplified, OF valid_off(1,2) [OF v off] off valid_off(3) [OF v off],
        folded C1_def]
    define C2 where "C2 = on_detector (\<lambda>d. dt_reset E (dt_clear_string_calibration E d)) (reset_members C1)"
    have a: "aside (reset_members C1) C2" unfolding C2_def by (rule aside_ops(6))
    then have c2: "component_valid C2" "mc_generated_notes C2 = NoteLedger_default"
      using c1 aside_moves [OF a] by (simp_all add: moves_def aside_def)
    have "C' = C2\<lparr>mc_main_calibration_bank := bank_clear (mc_main_calibration_bank C2), mc_main_generation := 0,
        mc_calibration_status := 0\<rparr>" "r = kResultOk"
      using r False pend by (auto simp: component_terminate_def Let_def C1_def C2_def)
    then show ?thesis using c2 by (simp add: valid_fields)
  qed
  then show "component_valid C'" "mc_generated_notes C' = (if r = kResultOk then NoteLedger_default else mc_generated_notes C)"
    by simp_all
qed

end
