(* ===== verification/Vst3_Host_Laws.thy ===== *)
theory Vst3_Host_Laws
  imports Vst3_Call_Laws
begin

unbundle bit_operations_syntax

text \<open>
  Setup, activation, state and parameters of the VST3 plugin object: every call keeps the invariant and
  touches the ledger only by the ledger's own calls.
\<close>

subsection \<open>Setup and activation\<close>

lemma steps_setup: "component_valid C \<Longrightarrow> steps C (snd (setup_processing setup C))"
proof (cases "\<not> mc_initialized C \<or> mc_active C \<or> mc_processing C \<or> \<not> is_process_mode (su_process_mode setup)
      \<or> \<not> is_finite (su_sample_rate setup) \<or> su_sample_rate setup \<le> 0 \<or> su_max_samples_per_block setup \<le> 0
      \<or> int kMaxHostFrames < su_max_samples_per_block setup
      \<or> can_process_sample_size (su_symbolic_sample_size setup) \<noteq> kResultOk")
  case True
  then show ?thesis by (auto simp: setup_processing_def)
next
  case False
  assume v: "component_valid C"
  obtain q C1 where s: "with_request (snapshot 3) C = (q, C1)" by (meson surj_pair)
  with snapshot_component [OF v s] obtain c g where c: "C1 = C" "q = Some (c, g)" "config_valid c" by blast
  show ?thesis
  proof (cases "stage_prepared_config c (su_sample_rate setup)")
    case None
    then show ?thesis using False by (simp add: setup_processing_def s c)
  next
    case (Some p)
    have "steps C (C\<lparr>mc_process_setup := setup, mc_setup_prepared := p, mc_setup_generation := g,
        mc_setup_prepared_valid := True, mc_main_config := c, mc_main_generation := g, mc_setup_complete := True\<rparr>)"
      using v c(3) staged_config [OF Some] False
      by (simp add: steps_def own_calls.none component_valid_defs setup_ok_def)
    then show ?thesis using False by (simp add: setup_processing_def s c Some)
  qed
qed

definition activating :: "NoteLedger \<Rightarrow> 'd M3Component \<Rightarrow> bool" where
  "activating L C \<longleftrightarrow>
     configs_ok C \<and> exchange_holds config_valid (mc_prepared_exchange C)
     \<and> length (slots (mc_prepared_exchange C)) = kSlotCount
     \<and> mc_initialized C \<and> mc_setup_complete C \<and> setup_ok (mc_process_setup C) \<and> \<not> mc_processing C
     \<and> \<not> mc_active C \<and> \<not> mc_prepared_claim_pending C \<and> mc_prepared_exchange_initialized C
     \<and> mc_generated_notes C = L \<and> (mc_structural_boundary_pending C \<longrightarrow> waiting L)"

lemma activating_aside: "activating L C \<Longrightarrow> aside C C' \<Longrightarrow> activating L C'"
  by (simp add: activating_def aside_simps configs_ok_def)

lemma activating_undone:
  assumes "activating L C"
  shows "component_valid (on_notes release_storage_preserving_pending
     (C\<lparr>mc_prepared_exchange := exchange_reset (mc_prepared_exchange C), mc_prepared_exchange_initialized := False\<rparr>))"
  using assms by (simp add: activating_def on_notes_def component_valid_defs)

lemma activating_done:
  assumes "activating L C"
  shows "component_valid (C\<lparr>mc_structural_boundary_pending := False, mc_prepared_claim_pending := False, mc_active := True\<rparr>)"
  using assms by (simp add: activating_def component_valid_defs claim_holds_invalidate)

lemma steps_activate:
  assumes v: "component_valid C" and on: "mc_initialized C" "mc_setup_complete C" "\<not> mc_active C"
  shows "steps C (snd (activate E allocated C))"
proof -
  obtain q C0 where s: "with_request (snapshot 3) C = (q, C0)" by (meson surj_pair)
  with snapshot_component [OF v s] obtain c g where c: "C0 = C" "q = Some (c, g)" "config_valid c" by blast
  show ?thesis
  proof (cases "activation_config c g C")
    case None
    then show ?thesis by (simp add: activate_def s c)
  next
    case (Some p)
    have p: "config_valid (pc_requested p)"
      using Some v c(3) staged_config
      by (auto simp: activation_config_def Let_def component_valid_def configs_ok_def split: if_splits)
    obtain ok L where L: "activate_preserving_pending (\<lambda>_. allocated)
        (word_of_int (su_max_samples_per_block (mc_process_setup C))) (mc_generated_notes C) = (ok, L)" by (meson surj_pair)
    have L1: "own_calls (mc_generated_notes C) L" "queue_size L = 0" "voices L = voices (mc_generated_notes C)"
      using own_call(7) [of "mc_generated_notes C" allocated "word_of_int (su_max_samples_per_block (mc_process_setup C))"]
        activated_voices [of "\<lambda>_. allocated" "word_of_int (su_max_samples_per_block (mc_process_setup C))" "mc_generated_notes C"]
      by (simp_all add: L)
    have w: "waiting L = waiting (mc_generated_notes C)" using L1(3) by (rule waiting_cong)
    note off = valid_off [OF v on(3)]
    define m where "m = snd (exchange_initialize p g (mc_prepared_exchange C))"
    define a where "a = copy_runtime_config (pc_requested p) c"
    define C3 where "C3 = C\<lparr>mc_generated_notes := L, mc_prepared_exchange := m, mc_setup_prepared := p,
      mc_setup_generation := g, mc_setup_prepared_valid := True, mc_prepared_exchange_initialized := True,
      mc_active_generation := g, mc_main_config := c, mc_main_generation := g, mc_active_config := a,
      mc_audio_requested_config := a\<rparr>"
    have "exchange_holds config_valid m" unfolding m_def by (rule initialize_holds [of config_valid, OF p off(2)])
    then have a3: "activating L C3"
      using v c(3) p on off copy_runtime_valid [OF p c(3)] w
      by (simp add: C3_def activating_def a_def component_valid_def configs_ok_def m_def)
    define C4 where "C4 = adopt_published_calibration_on_main_thread C3"
    obtain ok2 d where d: "dt_configure E (su_sample_rate (mc_process_setup C4)) a (mc_detector C4) = (ok2, d)" by (meson surj_pair)
    have u: "aside D (D\<lparr>mc_detector := x\<rparr>)" "aside D (D\<lparr>mc_release_channel_pending := b\<rparr>)"
      "aside D (D\<lparr>mc_status := z, mc_status_dirty := b\<rparr>)" for D :: "'a M3Component" and x b z
      by (simp_all add: aside_simps)
    define C5 where "C5 = C4\<lparr>mc_detector := d\<rparr>"
    have a5: "activating L C5"
      unfolding C5_def C4_def by (rule activating_aside [OF a3 aside_trans [OF aside_adopt_bank u(1)]])
    define C6 where "C6 = on_detector (dt_set_calibration_bank E (mc_main_calibration_bank C5)) C5"
    have a6: "activating L C6" unfolding C6_def by (rule activating_aside [OF a5 aside_ops(6)])
    let ?C7 = "C6\<lparr>mc_structural_boundary_pending := False, mc_prepared_claim_pending := False, mc_active := True\<rparr>"
    define B where "B = C6\<lparr>mc_structural_boundary_pending := False, mc_prepared_claim_pending := False\<rparr>"
    define C7 where "C7 = (if \<not> release_pending (mc_generated_notes B) then B\<lparr>mc_release_channel_pending := False\<rparr>
       else B)\<lparr>mc_active := True\<rparr>"
    have e7: "aside ?C7 C7" by (simp add: C7_def B_def aside_simps)
    define C8 where "C8 = reset_detector_transients E C7"
    have e8: "aside ?C7 (C8\<lparr>mc_status := z, mc_status_dirty := b\<rparr>)" for z b
      unfolding C8_def by (rule aside_trans [OF aside_trans [OF e7 aside_reset_transients] u(3)])
    have done_ok: "component_valid (C8\<lparr>mc_status := z, mc_status_dirty := b\<rparr>)" for z b
      using aside_moves [OF e8] activating_done [OF a6] by (simp add: moves_def)
    have led: "mc_generated_notes C8 = L" "mc_generated_notes C6 = L" "mc_generated_notes C5 = L"
      "mc_generated_notes B = L"
      using e8 a6 a5 by (simp_all add: aside_def activating_def B_def)
    have failed: "component_valid (C\<lparr>mc_generated_notes := L\<rparr>)"
      using v w unfolding valid_notes by (simp add: component_valid_def)
    have undone: "component_valid (on_notes release_storage_preserving_pending (C5\<lparr>mc_prepared_exchange :=
        exchange_reset (mc_prepared_exchange C5), mc_prepared_exchange_initialized := False\<rparr>))"
      using activating_undone [OF a5] .
    have x: "exchange_initialize p g (mc_prepared_exchange C) = (True, m)" by (simp add: m_def exchange_initialize_def)
    have own: "own_calls (mc_generated_notes C) (release_storage_preserving_pending L)"
      using own_calls.drop [OF L1(1)] .
    have "snd (activate E allocated C) = (if \<not> ok then C\<lparr>mc_generated_notes := L\<rparr>
       else if \<not> ok2 then on_notes release_storage_preserving_pending (C5\<lparr>mc_prepared_exchange :=
           exchange_reset (mc_prepared_exchange C5), mc_prepared_exchange_initialized := False\<rparr>)
       else C8\<lparr>mc_status := (if panic_hold L then status_panic_hold else status_ready), mc_status_dirty := False\<rparr>)"
      using d led led(1) [unfolded C8_def C7_def]
      by (cases "release_pending L")
        (simp_all add: activate_def s c(1,2) Some L Let_def x C7_def C8_def flip: a_def C3_def C4_def C5_def C6_def B_def)
    then show ?thesis
      using failed undone done_ok L1 own led by (simp add: steps_def on_notes_def)
  qed
qed

lemma steps_deactivate:
  assumes v: "component_valid C" and off: "\<not> mc_processing C"
  shows "steps C (deactivate C)"
proof -
  define C1 where "C1 = (if mc_prepared_claim_pending C then cancel_claim C else C)"
  have "moves C (C1\<lparr>mc_prepared_claim_pending := False\<rparr>)"
  proof (cases "mc_prepared_claim_pending C")
    case True
    then show ?thesis using moves_cancel [OF v] by (simp add: C1_def)
  next
    case False
    then have "C1\<lparr>mc_prepared_claim_pending := False\<rparr> = C" by (simp add: C1_def)
    then show ?thesis by simp
  qed
  then have m: "component_valid (C1\<lparr>mc_prepared_claim_pending := False\<rparr>)" "mc_processing C1 = mc_processing C"
    "own_calls (mc_generated_notes C) (mc_generated_notes C1)"
    "queue_size (mc_generated_notes C) = 0 \<Longrightarrow> queue_size (mc_generated_notes C1) = 0"
    using v by (simp_all add: moves_def same_lifecycle_def)
  define C2 where "C2 = C1\<lparr>mc_prepared_claim_pending := False, mc_prepared_exchange := exchange_reset (mc_prepared_exchange C1),
     mc_prepared_exchange_initialized := False, mc_structural_boundary_pending := False, mc_active := False\<rparr>"
  have "component_valid C2"
    using m(1,2) off by (simp add: C2_def component_valid_defs)
  then have "steps C C2" using m by (simp add: steps_def C2_def)
  moreover have "deactivate C = tuner_off frame_unavailable (on_notes release_storage_preserving_pending C2)"
    by (simp add: deactivate_def C1_def C2_def Let_def)
  ultimately show ?thesis
    using steps_aside [OF steps_trans [OF _ moves_steps [OF moves_ledger(5)]] aside_tuner_off] by simp
qed

lemma steps_set_active:
  assumes v: "component_valid C"
  shows "steps C (snd (set_active E allocated state C))"
  using steps_activate [OF v] steps_deactivate [OF v] by (simp add: set_active_def)

lemma steps_set_processing:
  assumes v: "component_valid C"
  shows "steps C (snd (set_processing E state C))"
proof -
  have p: "steps D (D\<lparr>mc_processing := b, mc_processing_started_once := q\<rparr>)" "steps D (D\<lparr>mc_processing := b\<rparr>)"
    if "mc_active D \<or> \<not> b" for D :: "'a M3Component" and b q
    using that by (auto simp: steps_def component_valid_defs own_calls.none)
  have act: "mc_active (reset_detector_transients E D) = mc_active D" for D
    using aside_reset_transients [of D E] by (simp add: aside_def same_lifecycle_def)
  define C1 where "C1 = reset_detector_transients E C"
  define C2 where "C2 = (if mc_processing_started_once C1 \<or> release_pending (mc_generated_notes C1)
      then raise_status status_panic_hold (on_notes request_recovery C1) else C1)"
  have c1: "steps C C1" unfolding C1_def by (rule aside_steps [OF aside_reset_transients])
  have c2: "steps C C2"
    using steps_aside [OF steps_trans [OF c1 moves_steps [OF moves_ledger(3)]] aside_ops(2)] c1 by (simp add: C2_def)
  have "mc_active C2 = mc_active C"
    using aside_ops(2) [of "on_notes request_recovery C1" status_panic_hold] act [of C]
    by (simp add: C2_def C1_def [symmetric] aside_def same_lifecycle_def on_notes_def)
  then have start: "steps C (C2\<lparr>mc_processing := True, mc_processing_started_once := True\<rparr>)" if "mc_active C"
    using that by (intro steps_trans [OF c2 p(1)]) simp
  define D1 where "D1 = on_notes request_release_all C"
  define D2 where "D2 = (if release_pending (mc_generated_notes D1) then D1\<lparr>mc_release_channel_pending := True\<rparr> else D1)"
  have "aside D1 D2" by (simp add: D2_def aside_simps)
  then have d2: "steps C D2" unfolding D1_def using steps_aside [OF moves_steps [OF moves_ledger(1)]] by blast
  note d3 = steps_aside [OF steps_aside [OF steps_trans [OF d2 moves_steps [OF moves_ledger(3)]] aside_reset_transients] aside_ops(2)]
  have stop: "steps C ((raise_status status_panic_hold (reset_detector_transients E (on_notes request_recovery D2)))\<lparr>mc_processing := False\<rparr>)"
    by (rule steps_trans [OF d3 p(2)]) simp
  show ?thesis
    using start stop
    by (simp add: set_processing_def Let_def D2_def [symmetric] D1_def [symmetric] C1_def [symmetric] C2_def [symmetric])
qed

subsection \<open>State and parameters\<close>

lemma session_valid: "load_vst3_state_with_calibration stream s = (Some (c, bank), s') \<Longrightarrow> config_valid c"
  using decoded_in_range by (auto simp: load_vst3_state_with_calibration_def split: option.splits prod.splits if_splits)

lemma steps_set_state:
  assumes v: "component_valid C"
  shows "steps C (snd (fst (set_state E stream s C)))"
proof -
  have u: "aside D (D\<lparr>mc_calibration_restore_counter := g, mc_main_calibration_bank := b,
     mc_main_calibration_restore_generation := g\<rparr>)" for D :: "'a M3Component" and g b by (simp add: aside_simps)
  have "steps C D \<and> steps C (on_restore q (D\<lparr>mc_calibration_restore_counter := g, mc_main_calibration_bank := b,
     mc_main_calibration_restore_generation := g\<rparr>))"
    if "load_vst3_state_with_calibration stream s = (Some (c, x), s')" "publish_main_config c C = (ok, D)" for c x s' ok D q g b
    using steps_publish [OF v session_valid [OF that(1)] that(2)] steps_aside [OF _ aside_trans [OF u aside_ops(8)]] by blast
  then show ?thesis by (auto simp: set_state_def Let_def split: option.split prod.split bool.split)
qed

lemma steps_get_state:
  assumes v: "component_valid C"
  shows "steps C (snd (fst (get_state stream s C)))"
proof -
  obtain q C1 where r: "with_request (snapshot 3) C = (q, C1)" by (meson surj_pair)
  with snapshot_component [OF v r] obtain c g where c: "C1 = C" "q = Some (c, g)" by blast
  show ?thesis
    using aside_steps [OF aside_adopt_bank] by (auto simp: get_state_def r c Let_def split: prod.split)
qed

lemma steps_set_component_state:
  assumes v: "component_valid C"
  shows "steps C (snd (fst (set_component_state stream s C)))"
proof -
  have a: "aside C (C\<lparr>mc_parameters := q\<rparr>)" for q by (simp add: aside_simps)
  have "steps C (C\<lparr>mc_parameters := q, mc_controller_config := c\<rparr>)"
    if "load_vst3_state_with_calibration stream s = (Some (c, x), s')" for q c x s'
    using session_valid [OF that] by (simp add: steps_def component_valid_defs own_calls.none)
  with aside_steps [OF a] show ?thesis
    by (auto simp: set_component_state_def Let_def split: option.split prod.split)
qed

lemma steps_set_param:
  assumes v: "component_valid C"
  shows "steps C (snd (set_param_normalized pid x C))"
proof (cases "\<exists>spec plain. find_vst3_parameter pid = Some spec \<and> canonical_normalized_value spec x = Some plain")
  case False
  then show ?thesis by (auto simp: set_param_normalized_def split: option.split)
next
  case True
  then obtain spec plain where s: "find_vst3_parameter pid = Some spec" "canonical_normalized_value spec x = Some plain"
    by blast
  obtain r requested where a: "apply_parameter (mc_main_config C) pid plain = (r, requested)" by (meson surj_pair)
  have c: "config_valid requested"
    using apply_parameter_valid [of "mc_main_config C" pid plain] v a by (simp add: component_valid_def configs_ok_def)
  obtain ok D where p: "publish_main_config requested C = (ok, D)" by (meson surj_pair)
  have sp: "steps C D" by (rule steps_publish [OF v c p])
  have u: "aside B (set_container spec n B)" "aside B (B\<lparr>mc_panic_ready_dirty := True, mc_panic_requested := True\<rparr>)"
    for B :: "'a M3Component" and n by (simp_all add: set_container_def aside_simps)
  have "steps D (D\<lparr>mc_controller_config := requested\<rparr>)"
    using c by (simp add: steps_def component_valid_defs own_calls.none)
  note done_ok = steps_aside [OF steps_trans [OF sp this] u(1)] and panic = aside_steps [OF aside_trans [OF u(2) u(1)]]
  show ?thesis
    using sp done_ok panic by (simp add: set_param_normalized_def s a p split: bool.split)
qed

lemma steps_commands:
  "steps C (snd (request_string_calibration i C))" "steps C (request_cancel_string_calibration C)"
  "steps C (request_clear_string_calibration C)"
proof -
  have "aside C (C\<lparr>mc_calibration_command := w\<rparr>)" for w by (simp add: aside_simps)
  note a = aside_steps [OF this]
  show "steps C (snd (request_string_calibration i C))" "steps C (request_cancel_string_calibration C)"
    "steps C (request_clear_string_calibration C)"
    by (simp_all add: request_string_calibration_def request_cancel_string_calibration_def
        request_clear_string_calibration_def a)
qed

end
