(* ===== verification/Vst3_Properties.thy ===== *)
theory Vst3_Properties
  imports Vst3_Host_Laws Config_Validity
begin

text \<open>
  The properties of the VST3 plugin object: sequences of host calls, one at a time in any order, and what
  holds after them.
\<close>

subsection \<open>Sequences of calls\<close>

text \<open>
  The calls that change state. Besides the host's arguments a call brings the answers of the SDK's base
  class and of the allocator, and a stream with its position.
\<close>

datatype ('h, 'q, 'o, 's) vst3_call =
    vst3_initialize bool tresult "nat \<Rightarrow> bool"
  | vst3_terminate tresult
  | vst3_setup_processing ProcessSetup
  | vst3_set_active bool u8
  | vst3_set_processing u8
  | vst3_process "('h, 'q, 'o) ProcessData" audio_memory
  | vst3_set_state "'s reader option" 's
  | vst3_get_state "'s writer option" 's
  | vst3_set_component_state "'s reader option" 's
  | vst3_set_parameter ParameterId f64
  | vst3_calibrate u8
  | vst3_cancel_calibration
  | vst3_clear_calibration

text \<open>The events a host accepted are recorded since the object's last \<open>initialize\<close> or \<open>terminate\<close>.\<close>

definition new_record :: "('h, 'o) BlockWorld \<Rightarrow> ('h, 'o) BlockWorld" where
  "new_record W = W\<lparr>bw_events := (bw_events W)\<lparr>vst_delivered := []\<rparr>\<rparr>"

fun vst3_call_step ::
  "'d Vst3Env \<Rightarrow> ('h, 'q, 'o, 's) vst3_call \<Rightarrow> ('d, 'h, 'o) block_state \<Rightarrow> ('d, 'h, 'o) block_state" where
  "vst3_call_step E (vst3_initialize ctx base allocated) (C, W) =
     (case component_initialize E ctx base allocated C of
        (r, C') \<Rightarrow> (C', if mc_initialized C' \<and> \<not> mc_initialized C then new_record W else W))"
| "vst3_call_step E (vst3_terminate base) (C, W) =
     (case component_terminate E base C of (r, C') \<Rightarrow> (C', if r = kResultOk then new_record W else W))"
| "vst3_call_step E (vst3_setup_processing setup) (C, W) = (snd (setup_processing setup C), W)"
| "vst3_call_step E (vst3_set_active allocated state) (C, W) = (snd (set_active E allocated state C), W)"
| "vst3_call_step E (vst3_set_processing state) (C, W) = (snd (set_processing E state C), W)"
| "vst3_call_step E (vst3_process data m) (C, W) = snd (component_process E data (C, W\<lparr>bw_memory := m\<rparr>))"
| "vst3_call_step E (vst3_set_state stream s) (C, W) = (snd (fst (set_state E stream s C)), W)"
| "vst3_call_step E (vst3_get_state stream s) (C, W) = (snd (fst (get_state stream s C)), W)"
| "vst3_call_step E (vst3_set_component_state stream s) (C, W) = (snd (fst (set_component_state stream s C)), W)"
| "vst3_call_step E (vst3_set_parameter pid x) (C, W) = (snd (set_param_normalized pid x C), W)"
| "vst3_call_step E (vst3_calibrate i) (C, W) = (snd (request_string_calibration i C), W)"
| "vst3_call_step E vst3_cancel_calibration (C, W) = (request_cancel_string_calibration C, W)"
| "vst3_call_step E vst3_clear_calibration (C, W) = (request_clear_string_calibration C, W)"

text \<open>A new object with a detector, and a host that has accepted nothing.\<close>

definition vst3_calls ::
  "'d Vst3Env \<Rightarrow> 'd \<Rightarrow> ('h, 'q, 'o, 's) vst3_call list \<Rightarrow> 'h \<Rightarrow> 'o \<Rightarrow> ('d, 'h, 'o) block_state" where
  "vst3_calls E detector cs h ho =
     fold (vst3_call_step E) cs (M3Component_new detector,
       \<lparr>bw_events = \<lparr>vst_host = h, vst_delivered = []\<rparr>, bw_memory = (\<lambda>_. []), bw_silence_flags = None, bw_outputs = ho\<rparr>)"

subsection \<open>The object over its ledger\<close>

definition led :: "('d, 'h, 'o) block_state \<Rightarrow> NoteLedger \<times> 'h Vst3EventSinkContext" where
  "led S = (mc_generated_notes (fst S), bw_events (snd S))"

definition object_ok :: "('d, 'h, 'o) block_state \<Rightarrow> bool" where
  "object_ok S \<longleftrightarrow>
     component_valid (fst S) \<and> queue_size (mc_generated_notes (fst S)) = 0
     \<and> (\<exists>cs h. led S = ledger_calls cs h)"

lemma object_synced: "object_ok S \<Longrightarrow> vst3_synced (led S)"
  unfolding object_ok_def using ledger_calls_synced by metis

lemma ledger_calls_by: "Ls = ledger_calls cs h \<Longrightarrow> by_calls Ls Ls' \<Longrightarrow> \<exists>cs' h'. Ls' = ledger_calls cs' h'"
  unfolding by_calls_def ledger_calls_def by (metis fold_append comp_apply)

lemma object_by:
  assumes "object_ok S" "component_valid (fst S')" "queue_size (mc_generated_notes (fst S')) = 0" "by_calls (led S) (led S')"
  shows "object_ok S'"
  using assms ledger_calls_by unfolding object_ok_def by metis

lemma object_steps: "object_ok (C, W) \<Longrightarrow> (component_valid C \<Longrightarrow> steps C C') \<Longrightarrow> object_ok (C', W)"
  by (rule object_by [of "(C, W)"]) (simp_all add: object_ok_def steps_def led_def own_by_calls)

lemma object_new:
  assumes "component_valid C" "mc_generated_notes C = NoteLedger_default" "vst_delivered (bw_events W) = []"
  shows "object_ok (C, W)"
proof -
  have "led (C, W) = ledger_calls [] (vst_host (bw_events W))"
    using assms(2,3) by (simp add: led_def ledger_calls_def)
  then show ?thesis using assms by (auto simp: object_ok_def NoteLedger_default_def)
qed

lemma object_memory: "object_ok (C, W\<lparr>bw_memory := m\<rparr>) = object_ok (C, W)"
  by (simp add: object_ok_def led_def)

lemma process_block:
  assumes "object_ok S"
  shows "block_ok S (snd (component_process E data S))"
  using vst3_process_ok object_synced [OF assms] assms by (metis object_ok_def led_def)

lemma call_step_ok:
  assumes "object_ok S"
  shows "object_ok (vst3_call_step E c S)"
proof -
  obtain C W where S: "S = (C, W)" by (cases S)
  note ok = assms [unfolded S] and st = object_steps [OF assms [unfolded S]]
  have v: "component_valid C" using ok by (simp add: object_ok_def)
  show ?thesis
  proof (cases c)
    case (vst3_initialize ctx base allocated)
    obtain r C' where r: "component_initialize E ctx base allocated C = (r, C')" by (meson surj_pair)
    note i = initialize_ok [OF v r]
    have "object_ok (C', W)" if "mc_generated_notes C' = mc_generated_notes C"
      using ok i(1) that by (simp add: object_ok_def led_def)
    then show ?thesis
      using i object_new [OF i(1), of "new_record W"] by (auto simp: S vst3_initialize r new_record_def split: if_splits)
  next
    case (vst3_terminate base)
    obtain r C' where r: "component_terminate E base C = (r, C')" by (meson surj_pair)
    note i = terminate_ok [OF v r]
    have "object_ok (C', W)" if "mc_generated_notes C' = mc_generated_notes C"
      using ok i(1) that by (simp add: object_ok_def led_def)
    then show ?thesis
      using i object_new [OF i(1), of "new_record W"] by (auto simp: S vst3_terminate r new_record_def split: if_splits)
  next
    case (vst3_process data m)
    have o: "object_ok (C, W\<lparr>bw_memory := m\<rparr>)" using ok by (simp add: object_memory)
    have "object_ok (snd (component_process E data (C, W\<lparr>bw_memory := m\<rparr>)))"
      using process_block [OF o, of E data] v by (intro object_by [OF o]) (simp_all add: block_ok_def runs_def led_def)
    then show ?thesis by (simp add: S vst3_process)
  qed (simp_all add: S st steps_setup steps_set_active steps_set_processing steps_set_state steps_get_state
      steps_set_component_state steps_set_param steps_commands)
qed

lemma new_valid: "component_valid (M3Component_new d)"
proof -
  have "length (slots PreparedConfigExchange_default) = kSlotCount"
    "pc_requested PreparedConfig_default = PersistentConfig_default"
    by (simp_all add: PreparedConfigExchange_default_def PreparedConfig_default_def)
  moreover have "request_holds config_valid (AtomicConfigRequest_init PersistentConfig_default 0)"
    using config_valid_default enums_valid [OF config_valid_default] by (rule request_init_holds)
  ultimately show ?thesis using config_valid_default by (simp add: M3Component_new_def component_valid_defs)
qed

lemma calls_ok: "object_ok (vst3_calls E d cs h ho)"
proof -
  have steps: "object_ok (fold (vst3_call_step E) cs S)" if "object_ok S" for S
    using that
  proof (induction cs arbitrary: S)
    case (Cons c cs)
    from Cons.IH [OF call_step_ok [OF Cons.prems]] show ?case by simp
  qed simp
  show ?thesis
    unfolding vst3_calls_def
    by (rule steps, rule object_new [OF new_valid]) (simp_all add: M3Component_new_def)
qed

text \<open>
  C37: The VST3 object refines its ledger. Whatever the host calls, in any order and with any detector, the
  ledger and the events the host accepted since the last initialization are those of some sequence of the
  ledger's own calls, so every property of such sequences holds of the object; in particular the accepted
  note events are matched and leave sounding exactly the notes the ledger holds open, and between calls
  no transition is left in its queue.
\<close>

theorem vst3_object_refines_ledger:
  "case vst3_calls E detector cs h ho of (C, W) \<Rightarrow>
     (\<exists>ls h'. (mc_generated_notes C, bw_events W) = ledger_calls ls h')
     \<and> play (vst3_msgs (bw_events W)) {#} = Some (open_notes (mc_generated_notes C))
     \<and> queue_size (mc_generated_notes C) = 0"
proof -
  obtain C W where S: "vst3_calls E detector cs h ho = (C, W)" by (meson surj_pair)
  have o: "object_ok (C, W)" using calls_ok [of E detector cs h ho] by (simp add: S)
  then show ?thesis
    using object_synced [OF o] by (auto simp: S object_ok_def led_def vst3_synced_def in_sync_def)
qed

text \<open>
  C38: A structural change waits for silence. Whatever came before, if a block leaves the object with another
  note range, tuning, routing, channel, profile or polyphony than it found, then the first events of that
  block, before any other, were note-offs only, and after them no note sounded.
\<close>

theorem vst3_switch_in_silence:
  "case vst3_calls E detector cs h ho of (C, W) \<Rightarrow>
     (case component_process E data (C, W) of (r, C', W') \<Rightarrow>
        if structure_of (mc_active_config C') = structure_of (mc_active_config C) then True
        else (\<exists>ms1 ms2. vst3_msgs (bw_events W') = vst3_msgs (bw_events W) @ ms1 @ ms2
                \<and> list_all is_msg_off ms1 \<and> play (vst3_msgs (bw_events W) @ ms1) {#} = Some {#}))"
proof -
  obtain C W where S: "vst3_calls E detector cs h ho = (C, W)" by (meson surj_pair)
  obtain r C' W' where p: "component_process E data (C, W) = (r, C', W')" by (metis prod_cases3)
  have "block_ok (C, W) (C', W')"
    using process_block [OF calls_ok [of E detector cs h ho], of E data] by (simp add: S p)
  then show ?thesis by (simp add: S p block_ok_def switched_in_silence_def)
qed

text \<open>
  C39: The VST3 object only ever holds valid configurations. After any calls, the main thread's, the
  controller's, the audio thread's, the active and the shared configuration and the one prepared for the
  setup have every field in range; the object processes only while it is active, is active only after a
  setup whose sample rate is finite and positive and whose blocks have 1 to 16384 frames, and then the exchange's
  configuration is valid too.
\<close>

theorem vst3_object_stays_valid:
  "case vst3_calls E detector cs h ho of (C, W) \<Rightarrow>
     config_valid (mc_main_config C) \<and> config_valid (mc_controller_config C)
     \<and> config_valid (mc_audio_requested_config C) \<and> config_valid (mc_active_config C)
     \<and> config_valid (pc_requested (mc_setup_prepared C)) \<and> request_holds config_valid (mc_config_request C)
     \<and> (if mc_active C
        then mc_initialized C \<and> setup_ok (mc_process_setup C)
          \<and> config_valid (pc_requested (exchange_active (mc_prepared_exchange C)))
        else \<not> mc_processing C)"
proof -
  obtain C W where S: "vst3_calls E detector cs h ho = (C, W)" by (meson surj_pair)
  then have v: "component_valid C" using calls_ok [of E detector cs h ho] by (simp add: object_ok_def)
  have "config_valid (pc_requested (exchange_active m))" if "exchange_holds config_valid m" for m
    using that tagged_nth [of "{p. config_valid (pc_requested (fst p))}" m "active_index m"]
    by (simp add: exchange_holds_def idle_def filled_def exchange_active_def)
  with v show ?thesis
    by (auto simp: S component_valid_def configs_ok_def lifecycle_ok_def exchange_ok_def claim_holds_exchange)
qed

end
