(* ===== verification/Evidence_Math.thy ===== *)
theory Evidence_Math
  imports Types_Model Float64_Sqrt Float64_Mono
begin

unbundle bit_operations_syntax

text \<open>
  What the evidence components of the detector share: sets of strings as bit masks of a byte, norms, and
  the sums they accumulate feature by feature. The elementary functions of the C library whose last bits
  it does not fix (\<open>std::exp\<close>, \<open>std::log\<close> and the like) are arguments of the definitions that call them.
\<close>

subsection \<open>Masks of strings\<close>

text \<open>The loop that counts the members of a mask, bit by bit from the lowest.\<close>

function member_count :: "u8 \<Rightarrow> nat" where
  "member_count w =
     (if w = 0 then 0 else (if w AND 1 \<noteq> 0 then 1 else 0) + member_count (drop_bit 1 w))"
  by pat_completeness auto
termination
proof (relation "measure unat")
  fix w :: u8
  assume "w \<noteq> 0"
  then have "0 < unat w" by (simp add: unat_gt_0)
  then show "(drop_bit 1 w, w) \<in> measure unat" by (simp only: in_measure unat_drop_bit_eq) (simp add: drop_bit_eq_div)
qed simp

declare member_count.simps [simp del]

text \<open>The other counting loop of the code clears the lowest member at each turn.\<close>

lemma clear_lowest_less: "w \<noteq> 0 \<Longrightarrow> unat (w AND (w - 1)) < unat w" for w :: u8
proof -
  assume "w \<noteq> 0"
  then have "unat (w - 1) < unat w" by (simp add: unat_minus_one unat_gt_0)
  moreover have "unat (w AND (w - 1)) \<le> unat (w - 1)"
    by (metis word_and_le1 word_le_nat_alt)
  ultimately show ?thesis by simp
qed

function member_bits :: "u8 \<Rightarrow> u8" where
  "member_bits w = (if w = 0 then 0 else 1 + member_bits (w AND (w - 1)))"
  by pat_completeness auto
termination
  by (relation "measure unat") (simp_all add: clear_lowest_less)

declare member_bits.simps [simp del]

definition members :: "u8 \<Rightarrow> nat list" where
  "members w = filter (bit w) [0..<kMaxVoices]"

lemma members_distinct [simp]: "distinct (members w)"
  by (simp add: members_def)

lemma members_bound: "s \<in> set (members w) \<Longrightarrow> s < kMaxVoices"
  by (simp add: members_def)

lemma bit_u8_bound: "bit (w :: u8) s \<Longrightarrow> s < kMaxVoices"
  using bit_imp_le_length [of w s] by (simp add: kMaxVoices_def)

lemma set_members [simp]: "set (members w) = {s. bit w s}"
  using bit_u8_bound by (auto simp: members_def)

lemma low_bit_word: "w AND 1 = 0 \<longleftrightarrow> \<not> bit w 0" for w :: u8
proof
  assume "w AND 1 = 0"
  then have "\<not> bit (w AND 1) 0" by simp
  then show "\<not> bit w 0" by (simp add: bit_simps)
qed (auto intro!: bit_word_eqI simp: bit_simps bit_1_iff)

lemma members_shift: "length (filter (bit w) [0..<Suc n]) = (if bit w 0 then 1 else 0) + length (filter (bit (drop_bit 1 w)) [0..<n])"
  for w :: "'a::len word"
proof -
  have u: "[0..<Suc n] = 0 # map Suc [0..<n]" by (simp add: upt_conv_Cons map_Suc_upt)
  have "bit w \<circ> Suc = bit (drop_bit 1 w)" by (auto simp: fun_eq_iff bit_simps)
  then show ?thesis by (simp add: u filter_map del: upt_Suc)
qed

lemma member_count_bits:
  assumes "unat w < 2 ^ n"
  shows "member_count w = length (filter (bit w) [0..<n])"
  using assms
proof (induction n arbitrary: w)
  case 0
  then have "w = 0" by (simp add: unat_eq_zero)
  then show ?case by (simp add: member_count.simps)
next
  case (Suc n)
  have b: "(w AND 1 = 0) = (\<not> bit w 0)"
    using low_bit_word [of w] by simp
  have "unat (drop_bit 1 w) < 2 ^ n"
    using Suc.prems by (simp only: unat_drop_bit_eq) (simp add: drop_bit_eq_div)
  note ih = Suc.IH [OF this]
  show ?case
  proof (cases "w = 0")
    case True
    then show ?thesis by (simp add: member_count.simps)
  next
    case False
    then have "member_count w = (if bit w 0 then 1 else 0) + member_count (drop_bit 1 w)"
      by (subst member_count.simps) (simp add: b)
    then show ?thesis by (simp only: ih members_shift)
  qed
qed

lemma member_count_members: "member_count w = length (members w)"
  using member_count_bits [of w 8] unsigned_less [of w] by (simp add: members_def kMaxVoices_def)

lemma member_count_0 [simp]: "member_count w = 0 \<longleftrightarrow> w = 0"
proof
  assume "member_count w = 0"
  then have "set (members w) = {}" by (simp only: member_count_members length_0_conv set_empty)
  then show "w = 0" by (intro bit_word_eqI) auto
qed (simp add: member_count.simps)

text \<open>Both counting loops count the members.\<close>

fun nat_members :: "nat \<Rightarrow> nat" where
  "nat_members n = (if n = 0 then 0 else n mod 2 + nat_members (n div 2))"

declare nat_members.simps [simp del]

lemma nat_members_0 [simp]: "nat_members 0 = 0"
  by (simp add: nat_members.simps)

lemma nat_members_double: "nat_members (2 * n) = nat_members n" "nat_members (Suc (2 * n)) = Suc (nat_members n)"
  by (subst nat_members.simps, simp)+

lemma nat_members_clear: "0 < n \<Longrightarrow> Suc (nat_members (n AND (n - 1))) = nat_members n"
proof (induction n rule: less_induct)
  case (less n)
  show ?case
  proof (cases "odd n")
    case True
    then obtain k where n: "n = Suc (2 * k)" by (metis oddE Suc_eq_plus1)
    have "n AND (n - 1) = 2 * k" by (subst and_rec) (simp add: n)
    then show ?thesis by (simp add: n nat_members_double)
  next
    case False
    then obtain k where n: "n = 2 * k" by (metis evenE)
    then have k: "0 < k" "k < n" using less.prems by simp_all
    have "(2 * k - 1) div 2 = k - 1" using k by simp
    then have "n AND (n - 1) = 2 * (k AND (k - 1))" by (subst and_rec) (simp add: n)
    then show ?thesis using less.IH [OF k(2,1)] by (simp add: n nat_members_double)
  qed
qed

lemma member_count_nat: "member_count w = nat_members (unat w)"
proof (induction w rule: member_count.induct)
  case (1 w)
  have "unat (drop_bit 1 w) = unat w div 2" by (simp only: unat_drop_bit_eq) (simp add: drop_bit_eq_div)
  moreover have "(w AND 1 = 0) = (unat w mod 2 = 0)"
    unfolding low_bit_word bit_0 even_iff_mod_2_eq_zero [symmetric] even_unat by simp
  ultimately show ?case
    using 1 by (subst member_count.simps, subst nat_members.simps) (auto simp: unat_eq_zero)
qed

lemma member_bits_count: "unat (member_bits w) = member_count w"
proof (induction w rule: member_bits.induct)
  case (1 w)
  show ?case
  proof (cases "w = 0")
    case True
    then show ?thesis by (simp add: member_bits.simps)
  next
    case False
    then have "0 < unat w" by (simp add: unat_gt_0)
    moreover have "unat (w AND (w - 1)) = unat w AND (unat w - 1)"
      using False by (simp add: unsigned_and_eq unat_minus_one)
    ultimately have c: "member_count w = Suc (member_count (w AND (w - 1)))"
      using nat_members_clear [of "unat w"] by (simp add: member_count_nat)
    have "member_count (w AND (w - 1)) \<le> 8"
      using length_filter_le [of "bit (w AND (w - 1))" "[0..<kMaxVoices]"]
      by (simp add: member_count_members members_def kMaxVoices_def)
    then have "unat (1 + member_bits (w AND (w - 1))) = Suc (member_count (w AND (w - 1)))"
      using 1 [OF False] by (simp add: unat_word_ariths)
    then show ?thesis using False by (subst member_bits.simps) (simp add: c)
  qed
qed

end
