(* ===== verification/String_Posterior.thy ===== *)
theory String_Posterior
  imports Evidence_Math Tuner_Telemetry
begin

unbundle bit_operations_syntax

text \<open>
  The posterior over physical strings of every pitch candidate (\<open>src/string_fret_posterior.cpp\<close>): each
  candidate keeps a probability per string, an update predicts them from the last frame and weighs them
  with the likelihoods of the new one. \<open>std::exp\<close> and \<open>std::log\<close> are the arguments \<open>std_exp\<close> and \<open>std_log\<close>.
\<close>

subsection \<open>State\<close>

record StringFretLikelihoodFrame =
  lf_log_likelihood :: "f64 list"
  lf_playable_mask :: u8
  lf_onset_strength :: f64

record PosteriorState =
  po_probability :: "f64 list"
  po_playable_mask :: u8
  po_initialized :: bool

type_synonym StringFretPosteriorBank = "PosteriorState list"

definition PosteriorState_default :: PosteriorState where
  "PosteriorState_default =
     \<lparr>po_probability = replicate kMaxVoices 0, po_playable_mask = 0, po_initialized = False\<rparr>"

definition StringFretPosteriorBank_default :: StringFretPosteriorBank where
  "StringFretPosteriorBank_default = replicate kMaxCandidates PosteriorState_default"

definition kSustainStayProbability :: f64 where "kSustainStayProbability = f64_rat 985 1000"
definition kProbabilityFloor :: f64 where "kProbabilityFloor = f64_rat 1 1000000000000"

subsection \<open>Update\<close>

definition frame_refused :: "nat \<Rightarrow> StringFretLikelihoodFrame \<Rightarrow> StringFretPosteriorBank \<Rightarrow> bool" where
  "frame_refused cand frame bank \<longleftrightarrow>
     length bank \<le> cand \<or> lf_playable_mask frame = 0 \<or> \<not> is_finite (lf_onset_strength frame)
     \<or> lf_onset_strength frame < 0 \<or> 1 < lf_onset_strength frame
     \<or> list_ex (\<lambda>s. bit (lf_playable_mask frame) s \<and> \<not> is_finite (lf_log_likelihood frame ! s)) [0..<kMaxVoices]"

text \<open>An array over the strings, zero at the strings outside the mask.\<close>

definition over_strings :: "u8 \<Rightarrow> (nat \<Rightarrow> f64) \<Rightarrow> f64 list" where
  "over_strings playable f = map (\<lambda>s. if bit playable s then f s else 0) [0..<kMaxVoices]"

definition predicted :: "StringFretLikelihoodFrame \<Rightarrow> PosteriorState \<Rightarrow> f64 list" where
  "predicted frame state =
     (let playable = lf_playable_mask frame;
          count = member_count playable;
          continuing = (po_initialized state \<and> po_playable_mask state = playable);
          uniform = 1 div f64_of_int (int count)
      in if \<not> continuing \<or> count = 1 then over_strings playable (\<lambda>s. uniform)
         else let stay = (1 - lf_onset_strength frame) * kSustainStayProbability + lf_onset_strength frame * uniform;
                  change = (if 1 < count then (1 - stay) div f64_of_int (int (count - 1)) else 0)
              in over_strings playable (\<lambda>s. stay * (po_probability state ! s)
                                            + change * (1 - po_probability state ! s)))"

definition maximum_log :: "StringFretLikelihoodFrame \<Rightarrow> f64" where
  "maximum_log frame =
     fold (\<lambda>s m. if bit (lf_playable_mask frame) s then std_max m (lf_log_likelihood frame ! s) else m)
       [0..<kMaxVoices] (f64_infinity True)"

definition weighed :: "(f64 \<Rightarrow> f64) \<Rightarrow> StringFretLikelihoodFrame \<Rightarrow> f64 list \<Rightarrow> f64 list" where
  "weighed std_exp frame prediction =
     over_strings (lf_playable_mask frame) (\<lambda>s. std_max kProbabilityFloor
       (prediction ! s * std_exp (std_clamp (lf_log_likelihood frame ! s - maximum_log frame) (f64_of_int (-60)) 0)))"

definition string_sum :: "u8 \<Rightarrow> f64 list \<Rightarrow> f64" where
  "string_sum playable xs = fold (\<lambda>s t. if bit playable s then t + xs ! s else t) [0..<kMaxVoices] 0"

definition posterior_update ::
  "(f64 \<Rightarrow> f64) \<Rightarrow> nat \<Rightarrow> StringFretLikelihoodFrame \<Rightarrow> StringFretPosteriorBank \<Rightarrow> bool \<times> StringFretPosteriorBank" where
  "posterior_update std_exp cand frame bank =
     (if frame_refused cand frame bank then (False, bank)
      else let playable = lf_playable_mask frame;
               posterior = weighed std_exp frame (predicted frame (bank ! cand));
               t = string_sum playable posterior
           in if \<not> is_finite t \<or> t \<le> 0 then (False, bank)
              else (True, bank[cand := \<lparr>po_probability = over_strings playable (\<lambda>s. posterior ! s div t),
                                            po_playable_mask = playable, po_initialized = True\<rparr>]))"

definition posterior_reset :: "nat \<Rightarrow> StringFretPosteriorBank \<Rightarrow> StringFretPosteriorBank" where
  "posterior_reset cand bank =
     (if cand < length bank then bank[cand := PosteriorState_default] else bank)"

definition posterior_reset_all :: "StringFretPosteriorBank \<Rightarrow> StringFretPosteriorBank" where
  "posterior_reset_all bank = StringFretPosteriorBank_default"

subsection \<open>Reading\<close>

definition posterior_probability :: "StringFretPosteriorBank \<Rightarrow> nat \<Rightarrow> nat \<Rightarrow> f64" where
  "posterior_probability bank cand string =
     (if cand < length bank \<and> string < kMaxVoices then po_probability (bank ! cand) ! string else 0)"

definition negative_log_probability :: "(f64 \<Rightarrow> f64) \<Rightarrow> StringFretPosteriorBank \<Rightarrow> nat \<Rightarrow> nat \<Rightarrow> f64" where
  "negative_log_probability std_log bank cand string =
     (let v = posterior_probability bank cand string
      in if 0 < v then - std_log (std_max v kProbabilityFloor) else f64_of_int 64)"

definition better_string :: "PosteriorState \<Rightarrow> nat \<Rightarrow> nat \<times> f64 \<Rightarrow> nat \<times> f64" where
  "better_string state s best =
     (if bit (po_playable_mask state) s \<and> snd best < po_probability state ! s
      then (s, po_probability state ! s) else best)"

definition best_string :: "StringFretPosteriorBank \<Rightarrow> nat \<Rightarrow> u8" where
  "best_string bank cand =
     (if length bank \<le> cand \<or> \<not> po_initialized (bank ! cand) then kUnassignedTunerString
      else let best = fst (fold (better_string (bank ! cand)) [0..<kMaxVoices] (kMaxVoices, f64_of_int (-1)))
           in if best < kMaxVoices then of_nat best else kUnassignedTunerString)"

subsection \<open>The best string\<close>

text \<open>A probability: not a NaN and not negative.\<close>

definition nonneg :: "f64 \<Rightarrow> bool" where
  "nonneg x \<longleftrightarrow> \<not> is_nan x \<and> 0 \<le> f64_key x"

definition state_ok :: "PosteriorState \<Rightarrow> bool" where
  "state_ok st \<longleftrightarrow>
     length (po_probability st) = kMaxVoices
     \<and> (\<forall>s < kMaxVoices. nonneg (po_probability st ! s))
     \<and> (\<forall>s < kMaxVoices. \<not> bit (po_playable_mask st) s \<longrightarrow> po_probability st ! s = 0)
     \<and> (po_initialized st \<longleftrightarrow> po_playable_mask st \<noteq> 0)"

definition bank_ok :: "StringFretPosteriorBank \<Rightarrow> bool" where
  "bank_ok bank \<longleftrightarrow> length bank = kMaxCandidates \<and> list_all state_ok bank"

lemma nonneg_div:
  assumes "nonneg x" "is_finite t" "0 < t"
  shows "nonneg (x div t)"
proof -
  have t: "\<not> is_nan t" "\<not> is_inf t" "\<not> f64_neg t" "f64_mag t \<noteq> 0"
    using assms(2,3) f64_mag_bounds(1) [of t]
    by (auto simp del: f64_mag_bounds simp: less_f64_def f64_key_def is_finite_def is_nan_def is_inf_def split: if_splits)
  have x: "\<not> is_nan x" "f64_neg x \<Longrightarrow> f64_mag x = 0"
    using assms(1) by (auto simp: nonneg_def f64_key_def f64_mag_def split: if_splits)
  have r: "nonneg (f64_round s m e)" if "0 \<le> m" "s \<Longrightarrow> m = 0" for s m e
  proof (cases "m = 0")
    case True
    then show ?thesis by (simp add: f64_round_def nonneg_def is_nan_def f64_key_def)
  next
    case False
    then have "0 < m" "\<not> s" using that by auto
    then show ?thesis
      using f64_round_key [OF \<open>0 < m\<close>, of False e] round_mag_nonneg [OF \<open>0 < m\<close>, of e] by (simp add: nonneg_def)
  qed
  have n: "0 \<le> f64_man x" "f64_mag x = 0 \<Longrightarrow> f64_man x = 0" "0 < f64_man t"
    using f64_man_bounds [of x] f64_man_bounds [of t] t(4) f64_man_0_iff [of x] f64_man_0_iff [of t] by auto
  show ?thesis
  proof (cases "is_inf x")
    case True
    then have "\<not> f64_neg x" using x(2) by (auto simp: is_inf_def)
    with True t x show ?thesis
      by (simp add: divide_f64_def f64_div_def nonneg_def f64_infinity_def f64_key_def is_nan_def)
  next
    case False
    then have "x div t = round_quotient (f64_neg x) (f64_man x) (f64_man t) (f64_exp x - f64_exp t)"
      using t x by (simp add: divide_f64_def f64_div_def Let_def)
    moreover have "nonneg (round_quotient (f64_neg x) (f64_man x) (f64_man t) (f64_exp x - f64_exp t))"
      unfolding round_quotient_def Let_def using n x(2) by (intro r) (auto simp: pos_imp_zdiv_nonneg_iff)
    ultimately show ?thesis by simp
  qed
qed

lemma floor_pos: "nonneg kProbabilityFloor"
  by code_simp

lemma nonneg_floored: "nonneg (std_max kProbabilityFloor y)"
  using floor_pos by (auto simp: std_max_def nonneg_def less_f64_def)

lemma nonneg_0 [simp]: "nonneg 0"
  by (simp add: nonneg_def zero_f64_make is_nan_def f64_key_def)

lemma over_strings_simps [simp]:
  "length (over_strings playable f) = kMaxVoices"
  "s < kMaxVoices \<Longrightarrow> over_strings playable f ! s = (if bit playable s then f s else 0)"
  by (simp_all add: over_strings_def)

lemma state_ok_default: "state_ok PosteriorState_default"
  by (simp add: state_ok_def PosteriorState_default_def)

lemma bank_ok_default: "bank_ok StringFretPosteriorBank_default"
  by (simp add: bank_ok_def StringFretPosteriorBank_default_def state_ok_default list_all_iff)

lemma update_ok:
  assumes "bank_ok bank"
  shows "bank_ok (snd (posterior_update std_exp cand frame bank))"
proof -
  let ?playable = "lf_playable_mask frame"
  let ?posterior = "weighed std_exp frame (predicted frame (bank ! cand))"
  let ?t = "string_sum ?playable ?posterior"
  have "state_ok \<lparr>po_probability = over_strings ?playable (\<lambda>s. ?posterior ! s div ?t),
      po_playable_mask = ?playable, po_initialized = True\<rparr>"
    if "is_finite ?t" "\<not> ?t \<le> 0" "?playable \<noteq> 0"
  proof -
    have "0 < ?t" using that(1,2) f64_not_less [of 0 ?t] is_finite_not_nan [OF that(1)] by (simp add: zero_f64_make is_nan_def)
    then have "nonneg (?posterior ! s div ?t)" if "s < kMaxVoices" for s
      using that \<open>is_finite ?t\<close> nonneg_floored by (intro nonneg_div) (simp_all add: weighed_def)
    with that(3) show ?thesis by (simp add: state_ok_def)
  qed
  with assms show ?thesis
    by (simp add: posterior_update_def Let_def bank_ok_def frame_refused_def list_all_update)
qed

lemma reset_ok: "bank_ok bank \<Longrightarrow> bank_ok (posterior_reset cand bank)"
  by (simp add: posterior_reset_def bank_ok_def list_all_update state_ok_default)

lemma better_fold:
  assumes "state_ok st" "n \<le> kMaxVoices"
  shows "case fold (better_string st) [0..<n] (kMaxVoices, f64_of_int (-1)) of (b, p) \<Rightarrow>
     (\<forall>s < n. bit (po_playable_mask st) s \<longrightarrow> po_probability st ! s \<le> p)
     \<and> (if b = kMaxVoices then p = f64_of_int (-1) else b < n \<and> bit (po_playable_mask st) b \<and> p = po_probability st ! b)"
  using assms(2)
proof (induction n)
  case (Suc n)
  obtain b p where f: "fold (better_string st) [0..<n] (kMaxVoices, f64_of_int (-1)) = (b, p)" by (meson surj_pair)
  have ih: "\<forall>s < n. bit (po_playable_mask st) s \<longrightarrow> po_probability st ! s \<le> p"
    "if b = kMaxVoices then p = f64_of_int (-1) else b < n \<and> bit (po_playable_mask st) b \<and> p = po_probability st ! b"
    using Suc by (simp_all add: f)
  let ?q = "po_probability st ! n"
  have q: "\<not> is_nan ?q" using assms(1) Suc.prems by (simp add: state_ok_def nonneg_def)
  have p: "\<not> is_nan p"
    using ih(2) assms(1) Suc.prems f64_of_int_finite [of "-1"]
    by (auto simp: state_ok_def nonneg_def is_finite_not_nan split: if_splits)
  have nb: "n \<noteq> kMaxVoices" using Suc.prems by simp
  have step: "fold (better_string st) [0..<Suc n] (kMaxVoices, f64_of_int (-1)) = better_string st n (b, p)" by (simp add: f)
  show ?case
  proof (cases "bit (po_playable_mask st) n \<and> p < ?q")
    case True
    then have "\<forall>s < n. bit (po_playable_mask st) s \<longrightarrow> po_probability st ! s \<le> ?q"
      using ih(1) f64_le_trans f64_less_imp_le by blast
    moreover have "?q \<le> ?q" using q by (rule f64_le_refl)
    ultimately show ?thesis using True nb unfolding step by (auto simp: better_string_def less_Suc_eq)
  next
    case False
    then have "bit (po_playable_mask st) n \<longrightarrow> ?q \<le> p" using f64_not_less [OF p q] by auto
    then show ?thesis using False ih unfolding step by (auto simp: better_string_def less_Suc_eq)
  qed
qed simp

text \<open>
  Of a candidate with a posterior, the best string is one the candidate can be played on, and no such
  string is more probable.
\<close>

lemma best_string_best:
  assumes "bank_ok bank" "cand < length bank" "po_initialized (bank ! cand)"
  shows "bit (po_playable_mask (bank ! cand)) (unat (best_string bank cand))"
    "bit (po_playable_mask (bank ! cand)) s \<Longrightarrow>
       posterior_probability bank cand s \<le> posterior_probability bank cand (unat (best_string bank cand))"
proof -
  let ?st = "bank ! cand"
  have st: "state_ok ?st" using assms(1,2) by (simp add: bank_ok_def list_all_length)
  obtain b p where f: "fold (better_string ?st) [0..<kMaxVoices] (kMaxVoices, f64_of_int (-1)) = (b, p)" by (meson surj_pair)
  from better_fold [OF st order_refl]
  have h: "\<forall>s < kMaxVoices. bit (po_playable_mask ?st) s \<longrightarrow> po_probability ?st ! s \<le> p"
    "if b = kMaxVoices then p = f64_of_int (-1) else b < kMaxVoices \<and> bit (po_playable_mask ?st) b \<and> p = po_probability ?st ! b"
    by (simp_all add: f)
  have "po_playable_mask ?st \<noteq> 0" using st assms(3) by (simp add: state_ok_def)
  then obtain i where i: "bit (po_playable_mask ?st) i" by (auto simp: bit_eq_iff)
  then have ib: "i < kMaxVoices" by (rule bit_u8_bound)
  have "b \<noteq> kMaxVoices"
  proof
    assume "b = kMaxVoices"
    then have "po_probability ?st ! i \<le> f64_of_int (-1)" using h i ib by simp
    moreover have "f64_key (f64_of_int (-1)) < 0" by code_simp
    moreover have "0 \<le> f64_key (po_probability ?st ! i)" using st ib by (simp add: state_ok_def nonneg_def)
    ultimately show False by (simp add: less_eq_f64_def)
  qed
  then have b: "b < kMaxVoices" "bit (po_playable_mask ?st) b" "p = po_probability ?st ! b" using h(2) by simp_all
  have u: "unat (best_string bank cand) = b"
    using assms(2,3) b(1) f by (simp add: best_string_def unat_of_nat kMaxVoices_def)
  show "bit (po_playable_mask ?st) (unat (best_string bank cand))" using b(2) by (simp add: u)
  show "posterior_probability bank cand s \<le> posterior_probability bank cand (unat (best_string bank cand))"
    if "bit (po_playable_mask ?st) s"
    using h(1) that bit_u8_bound [OF that] b assms(2) by (simp add: posterior_probability_def u)
qed

end
