(* ===== verification/Harmonic_Evidence.thy ===== *)
theory Harmonic_Evidence
  imports Evidence_Math
begin

text \<open>
  The view of one frame of six harmonics (\<open>src/harmonic_evidence.cpp\<close>): the normalized energies with their
  adjacent ratios, and the comparisons of two such views. \<open>std::log\<close> is the argument \<open>std_log\<close>.
\<close>

subsection \<open>The view of a frame\<close>

definition kHarmonicEvidenceCount :: nat where "kHarmonicEvidenceCount = 6"
definition kSpectralTierCount :: nat where "kSpectralTierCount = 4"
definition kLogFloor :: f64 where "kLogFloor = 1 div f64_of_int 32767"

text \<open>\<open>std::numeric_limits<double>::epsilon()\<close>.\<close>

definition double_epsilon :: f64 where "double_epsilon = f64_rat 1 (2 ^ 52)"

record HarmonicEvidence =
  he_normalized_energy :: "f64 list"
  he_adjacent_log_ratio :: "f64 list"
  he_upper_share :: f64
  he_centroid :: f64
  he_valid :: bool

definition HarmonicEvidence_default :: HarmonicEvidence where
  "HarmonicEvidence_default =
     \<lparr>he_normalized_energy = replicate kHarmonicEvidenceCount 0,
      he_adjacent_log_ratio = replicate (kHarmonicEvidenceCount - 1) 0,
      he_upper_share = 0, he_centroid = 0, he_valid = False\<rparr>"

definition square :: "f64 \<Rightarrow> f64" where "square x = x * x"

text \<open>The total of the energies, none when one of them is not a finite number of at least 0.\<close>

fun evidence_total :: "f64 \<Rightarrow> f64 list \<Rightarrow> f64 option" where
  "evidence_total t [] = Some t"
| "evidence_total t (v # vs) = (if \<not> is_finite v \<or> v < 0 then None else evidence_total (t + v) vs)"

definition floored_log :: "(f64 \<Rightarrow> f64) \<Rightarrow> f64 \<Rightarrow> f64" where
  "floored_log std_log x = std_log (std_max x kLogFloor)"

definition make_harmonic_evidence :: "(f64 \<Rightarrow> f64) \<Rightarrow> f64 list \<Rightarrow> HarmonicEvidence" where
  "make_harmonic_evidence std_log energy =
     (case evidence_total 0 energy of
        None \<Rightarrow> HarmonicEvidence_default
      | Some t \<Rightarrow>
          if \<not> is_finite t \<or> t \<le> double_epsilon then HarmonicEvidence_default
          else let shares = map (\<lambda>v. v div t) energy;
                   centroid = fold (\<lambda>h c. c + f64_of_int (int h) * (shares ! h)) [0..<length energy] 0;
                   upper = fold (\<lambda>h u. if 3 \<le> h then u + shares ! h else u) [0..<length energy] 0
               in \<lparr>he_normalized_energy = shares,
                   he_adjacent_log_ratio =
                     map (\<lambda>h. floored_log std_log (shares ! h) - floored_log std_log (shares ! (h - 1))) [1..<length energy],
                   he_upper_share = upper,
                   he_centroid = centroid div f64_of_int (int (length energy - 1)),
                   he_valid = True\<rparr>)"

subsection \<open>Comparisons\<close>

record HarmonicEvidenceComparison =
  hc_lower_log_likelihood :: f64
  hc_upper_log_likelihood :: f64
  hc_balance_log_likelihood :: f64

definition combined_log_likelihood :: "HarmonicEvidenceComparison \<Rightarrow> f64" where
  "combined_log_likelihood c = hc_lower_log_likelihood c + hc_upper_log_likelihood c + hc_balance_log_likelihood c"

definition ratio_error :: "HarmonicEvidence \<Rightarrow> HarmonicEvidence \<Rightarrow> nat list \<Rightarrow> f64" where
  "ratio_error observed reference ratios =
     fold (\<lambda>r e. e + square (he_adjacent_log_ratio observed ! r - he_adjacent_log_ratio reference ! r)) ratios 0"

definition compare_harmonic_evidence :: "HarmonicEvidence \<Rightarrow> HarmonicEvidence \<Rightarrow> HarmonicEvidenceComparison" where
  "compare_harmonic_evidence observed reference =
     (if \<not> he_valid observed \<or> \<not> he_valid reference
      then \<lparr>hc_lower_log_likelihood = f64_of_int (-64), hc_upper_log_likelihood = f64_of_int (-64),
            hc_balance_log_likelihood = f64_of_int (-64)\<rparr>
      else \<lparr>hc_lower_log_likelihood = f64_rat (-3) 4 * ratio_error observed reference [0..<2],
            hc_upper_log_likelihood =
              f64_rat (-3) 4 * ratio_error observed reference [3..<length (he_adjacent_log_ratio observed)],
            hc_balance_log_likelihood =
              f64_of_int (-8) * square (he_upper_share observed - he_upper_share reference)
              - f64_of_int 4 * square (he_centroid observed - he_centroid reference)\<rparr>)"

record SpectralTierComparison =
  tc_tier_log_likelihood :: "f64 list"
  tc_overtone_separation_log_likelihood :: f64

definition kTierBegin :: "nat list" where "kTierBegin = [0, 1, 3, 4]"
definition kTierEnd :: "nat list" where "kTierEnd = [1, 2, 4, 5]"

definition compare_spectral_tiers :: "HarmonicEvidence \<Rightarrow> HarmonicEvidence \<Rightarrow> SpectralTierComparison" where
  "compare_spectral_tiers observed reference =
     (if \<not> he_valid observed \<or> \<not> he_valid reference
      then \<lparr>tc_tier_log_likelihood = replicate kSpectralTierCount (f64_of_int (-64)),
            tc_overtone_separation_log_likelihood = f64_of_int (-64)\<rparr>
      else \<lparr>tc_tier_log_likelihood =
              map (\<lambda>tier. f64_rat (-3) 4 * ratio_error observed reference [kTierBegin ! tier..<kTierEnd ! tier]
                          div f64_of_int (int (kTierEnd ! tier - kTierBegin ! tier))) [0..<kSpectralTierCount],
            tc_overtone_separation_log_likelihood =
              f64_rat (-3) 4 * square (he_adjacent_log_ratio observed ! 2 - he_adjacent_log_ratio reference ! 2)\<rparr>)"

definition harmonic_transient_strength :: "HarmonicEvidence \<Rightarrow> HarmonicEvidence \<Rightarrow> f64" where
  "harmonic_transient_strength fast settled =
     (if \<not> he_valid fast \<or> \<not> he_valid settled then 1
      else let distance = fold (\<lambda>h d. d + \<bar>he_normalized_energy fast ! h - he_normalized_energy settled ! h\<bar>)
                            [0..<kHarmonicEvidenceCount] 0
           in std_clamp (f64_rat 1 2 * distance) 0 1)"

subsection \<open>Laws\<close>

text \<open>A view is valid exactly when its energies are a usable frame; an unusable frame gives no evidence.\<close>

lemma evidence_valid_iff:
  "he_valid (make_harmonic_evidence std_log energy) \<longleftrightarrow>
     (case evidence_total 0 energy of None \<Rightarrow> False | Some t \<Rightarrow> is_finite t \<and> \<not> t \<le> double_epsilon)"
  by (simp add: make_harmonic_evidence_def HarmonicEvidence_default_def Let_def split: option.split)

lemma evidence_lengths:
  "length energy = kHarmonicEvidenceCount \<Longrightarrow>
     length (he_normalized_energy (make_harmonic_evidence std_log energy)) = kHarmonicEvidenceCount
     \<and> length (he_adjacent_log_ratio (make_harmonic_evidence std_log energy)) = kHarmonicEvidenceCount - 1"
  by (simp add: make_harmonic_evidence_def HarmonicEvidence_default_def Let_def split: option.split)

text \<open>The transient strength is a number between 0 and 1, unless it is not a number.\<close>

lemma transient_bounds:
  "\<not> is_nan (harmonic_transient_strength fast settled) \<Longrightarrow>
     0 \<le> harmonic_transient_strength fast settled \<and> harmonic_transient_strength fast settled \<le> 1"
proof -
  assume n: "\<not> is_nan (harmonic_transient_strength fast settled)"
  have 01: "(0 :: f64) \<le> 1" "(1 :: f64) \<le> 1" "(0 :: f64) \<le> 0" by code_simp+
  have c: "0 \<le> std_clamp x 0 1 \<and> std_clamp x 0 1 \<le> 1" if "\<not> is_nan x" for x :: f64
  proof -
    have "\<not> is_nan 0" "\<not> is_nan 1" by code_simp+
    then show ?thesis using that 01 f64_not_less by (auto simp: std_clamp_def)
  qed
  have k: "\<not> is_nan x" if "\<not> is_nan (std_clamp x 0 1)" for x :: f64
    using that by (auto simp: std_clamp_def less_f64_def split: if_splits)
  show ?thesis
    using n 01 c k by (auto simp: harmonic_transient_strength_def Let_def)
qed

end
