(* ===== verification/Partial_Detuning.thy ===== *)
theory Partial_Detuning
  imports Evidence_Math
begin

unbundle bit_operations_syntax

text \<open>
  The displacement of each partial from its nominal frequency (\<open>src/partial_detuning_evidence.cpp\<close>): a tracker
  that follows the phase of six partials from decision to decision, and the comparison of its evidence with
  a reference. The elementary functions are arguments: a record of those the tracker calls.
\<close>

subsection \<open>Data\<close>

definition kPartialDetuningCount :: nat where "kPartialDetuningCount = 6"

record PartialDetuningFrame =
  pf_real :: "f64 list"
  pf_imaginary :: "f64 list"
  pf_center_hz :: "f64 list"
  pf_energy :: "f64 list"

record PartialDetuningEvidence =
  pe_residual_cents :: "f64 list"
  pe_valid_mask :: u8
  pe_upper_mean_cents :: f64
  pe_valid :: bool

record PartialAbsoluteCentsEvidence =
  pa_cents :: "f64 list"
  pa_valid_mask :: u8

record PartialDetuningComparison =
  pc_log_likelihood :: f64
  pc_common_partials :: u8
  pc_valid :: bool

record PartialDetuningTracker =
  pt_previous_real :: "f64 list"
  pt_previous_imaginary :: "f64 list"
  pt_filtered_real :: "f64 list"
  pt_filtered_imaginary :: "f64 list"
  pt_filtered_twice_real :: "f64 list"
  pt_filtered_twice_imaginary :: "f64 list"
  pt_filtered_cents :: "f64 list"
  pt_accepted_updates :: "u16 list"
  pt_previous_mask :: u8

record PhaseMath =
  math_exp :: "f64 \<Rightarrow> f64"
  math_atan2 :: "f64 \<Rightarrow> f64 \<Rightarrow> f64"
  math_log2 :: "f64 \<Rightarrow> f64"

definition PartialDetuningEvidence_default :: PartialDetuningEvidence where
  "PartialDetuningEvidence_default =
     \<lparr>pe_residual_cents = replicate kPartialDetuningCount 0, pe_valid_mask = 0, pe_upper_mean_cents = 0, pe_valid = False\<rparr>"

definition PartialDetuningComparison_default :: PartialDetuningComparison where
  "PartialDetuningComparison_default = \<lparr>pc_log_likelihood = 0, pc_common_partials = 0, pc_valid = False\<rparr>"

definition PartialDetuningTracker_default :: PartialDetuningTracker where
  "PartialDetuningTracker_default =
     (let zeros = replicate kPartialDetuningCount 0
      in \<lparr>pt_previous_real = zeros, pt_previous_imaginary = zeros, pt_filtered_real = zeros,
          pt_filtered_imaginary = zeros, pt_filtered_twice_real = zeros, pt_filtered_twice_imaginary = zeros,
          pt_filtered_cents = zeros, pt_accepted_updates = replicate kPartialDetuningCount 0, pt_previous_mask = 0\<rparr>)"

definition kTwoPi :: f64 where "kTwoPi = f64_rat 628318530717958647692 (10 ^ 20)"
definition kEnergyFloor :: f64 where "kEnergyFloor = f64_rat 1 1000000000000"
definition kMaximumOffsetFraction :: f64 where "kMaximumOffsetFraction = f64_rat 45 100"
definition kFilterMix :: f64 where "kFilterMix = f64_rat 18 100"
definition kPhasorSmoothingSeconds :: f64 where "kPhasorSmoothingSeconds = f64_rat 30 1000"
definition kRequiredUpdates :: u16 where "kRequiredUpdates = 4"

definition usable :: "PartialDetuningFrame \<Rightarrow> nat \<Rightarrow> bool" where
  "usable frame partial \<longleftrightarrow>
     is_finite (pf_real frame ! partial) \<and> is_finite (pf_imaginary frame ! partial)
     \<and> is_finite (pf_center_hz frame ! partial) \<and> is_finite (pf_energy frame ! partial)
     \<and> 0 < pf_center_hz frame ! partial \<and> kEnergyFloor < pf_energy frame ! partial"

subsection \<open>The comparison\<close>

definition partial_compared :: "PartialDetuningEvidence \<Rightarrow> f64 list \<Rightarrow> u8 \<Rightarrow> nat \<Rightarrow> bool" where
  "partial_compared observed reference_cents reference_valid_mask partial \<longleftrightarrow>
     bit (pe_valid_mask observed AND reference_valid_mask) partial
     \<and> is_finite (pe_residual_cents observed ! partial) \<and> is_finite (reference_cents ! partial)"

definition compare_partial_detuning ::
  "PartialDetuningEvidence \<Rightarrow> f64 list \<Rightarrow> u8 \<Rightarrow> f64 \<Rightarrow> PartialDetuningComparison" where
  "compare_partial_detuning observed reference_cents reference_valid_mask scale_cents =
     (if \<not> is_finite scale_cents \<or> scale_cents \<le> 0 \<or> reference_valid_mask AND 0xC0 \<noteq> 0
      then PartialDetuningComparison_default
      else let common = filter (partial_compared observed reference_cents reference_valid_mask)
                          [1..<kPartialDetuningCount];
               squared_error = fold (\<lambda>partial e.
                   let normalized = (pe_residual_cents observed ! partial - reference_cents ! partial) div scale_cents
                   in e + std_min (f64_of_int 64) (normalized * normalized)) common 0
           in if common = [] then PartialDetuningComparison_default
              else \<lparr>pc_log_likelihood = f64_rat (-1) 2 * squared_error div f64_of_int (int (length common)),
                    pc_common_partials = of_nat (length common), pc_valid = True\<rparr>)"

subsection \<open>The tracker\<close>

definition partial_reset :: "PartialDetuningTracker \<Rightarrow> PartialDetuningTracker" where
  "partial_reset T = PartialDetuningTracker_default"

definition mixed :: "f64 \<Rightarrow> f64 \<Rightarrow> f64 \<Rightarrow> f64" where
  "mixed mix x target = x + mix * (target - x)"

definition filter_partial :: "f64 \<Rightarrow> PartialDetuningFrame \<Rightarrow> nat \<Rightarrow> PartialDetuningTracker \<Rightarrow> PartialDetuningTracker" where
  "filter_partial mix frame partial T =
     (let re = mixed mix (pt_filtered_real T ! partial) (pf_real frame ! partial);
          im = mixed mix (pt_filtered_imaginary T ! partial) (pf_imaginary frame ! partial)
      in T\<lparr>pt_filtered_real := (pt_filtered_real T)[partial := re],
           pt_filtered_imaginary := (pt_filtered_imaginary T)[partial := im],
           pt_filtered_twice_real := (pt_filtered_twice_real T)[partial :=
             mixed mix (pt_filtered_twice_real T ! partial) re],
           pt_filtered_twice_imaginary := (pt_filtered_twice_imaginary T)[partial :=
             mixed mix (pt_filtered_twice_imaginary T ! partial) im]\<rparr>)"

text \<open>The frequency a partial turned out to have, from the turn of its phasor, and how far off center it is.\<close>

definition phase_offset :: "PhaseMath \<Rightarrow> f64 \<Rightarrow> nat \<Rightarrow> PartialDetuningTracker \<Rightarrow> f64" where
  "phase_offset M rate partial T =
     (let pr = pt_previous_real T ! partial; pi = pt_previous_imaginary T ! partial;
          tr = pt_filtered_twice_real T ! partial; ti = pt_filtered_twice_imaginary T ! partial
      in math_atan2 M (pr * ti - pi * tr) (pr * tr + pi * ti) * rate div kTwoPi)"

definition accept_cents :: "f64 \<Rightarrow> nat \<Rightarrow> PartialDetuningTracker \<Rightarrow> PartialDetuningTracker" where
  "accept_cents cents partial T =
     (let n = pt_accepted_updates T ! partial; filtered = pt_filtered_cents T ! partial
      in T\<lparr>pt_filtered_cents := (pt_filtered_cents T)[partial :=
             (if n = 0 then cents else filtered + kFilterMix * (cents - filtered))],
           pt_accepted_updates := (pt_accepted_updates T)[partial := (if n < - 1 then n + 1 else n)]\<rparr>)"

definition measure_partial ::
  "PhaseMath \<Rightarrow> f64 \<Rightarrow> PartialDetuningFrame \<Rightarrow> nat \<Rightarrow> PartialDetuningTracker \<Rightarrow> PartialDetuningTracker" where
  "measure_partial M rate frame partial T =
     (let offset_hz = phase_offset M rate partial T;
          measured_hz = pf_center_hz frame ! partial + offset_hz;
          cents = f64_of_int 1200 * math_log2 M (measured_hz div (pf_center_hz frame ! partial))
      in if \<bar>offset_hz\<bar> \<le> rate * kMaximumOffsetFraction \<and> 0 < measured_hz \<and> is_finite measured_hz \<and> is_finite cents
         then accept_cents cents partial T else T)"

definition update_partial ::
  "PhaseMath \<Rightarrow> f64 \<Rightarrow> f64 \<Rightarrow> PartialDetuningFrame \<Rightarrow> nat \<Rightarrow> PartialDetuningTracker \<Rightarrow> PartialDetuningTracker" where
  "update_partial M mix rate frame partial T =
     (if \<not> usable frame partial then T\<lparr>pt_accepted_updates := (pt_accepted_updates T)[partial := 0]\<rparr>
      else let T = filter_partial mix frame partial T;
               T = (if bit (pt_previous_mask T) partial then measure_partial M rate frame partial T else T)
           in T\<lparr>pt_previous_real := (pt_previous_real T)[partial := pt_filtered_twice_real T ! partial],
                pt_previous_imaginary := (pt_previous_imaginary T)[partial := pt_filtered_twice_imaginary T ! partial]\<rparr>)"

definition usable_mask :: "PartialDetuningFrame \<Rightarrow> u8" where
  "usable_mask frame =
     fold (\<lambda>partial m. if usable frame partial then m OR push_bit partial 1 else m) [0..<kPartialDetuningCount] 0"

definition partial_update ::
  "PhaseMath \<Rightarrow> PartialDetuningFrame \<Rightarrow> f64 \<Rightarrow> PartialDetuningTracker \<Rightarrow> PartialDetuningTracker" where
  "partial_update M frame rate T =
     (if \<not> is_finite rate \<or> rate \<le> 0 then partial_reset T
      else let mix = 1 - math_exp M (f64_of_int (-1) div (kPhasorSmoothingSeconds * rate))
           in (fold (update_partial M mix rate frame) [0..<kPartialDetuningCount] T)
                \<lparr>pt_previous_mask := usable_mask frame\<rparr>)"

definition settled_partial :: "PartialDetuningTracker \<Rightarrow> nat \<Rightarrow> bool" where
  "settled_partial T partial \<longleftrightarrow> kRequiredUpdates \<le> pt_accepted_updates T ! partial"

definition partial_mask :: "(nat \<Rightarrow> bool) \<Rightarrow> u8" where
  "partial_mask p = fold (\<lambda>partial m. if p partial then m OR push_bit partial 1 else m) [0..<kPartialDetuningCount] 0"

definition partial_evidence :: "PartialDetuningTracker \<Rightarrow> PartialDetuningEvidence" where
  "partial_evidence T =
     (if \<not> settled_partial T 0 then PartialDetuningEvidence_default
      else let residual = map (\<lambda>partial. if settled_partial T partial
                   then pt_filtered_cents T ! partial - pt_filtered_cents T ! 0 else 0) [0..<kPartialDetuningCount];
               upper = filter (settled_partial T) [3..<kPartialDetuningCount];
               upper_sum = fold (\<lambda>partial t. t + residual ! partial) upper 0;
               E = PartialDetuningEvidence_default
                     \<lparr>pe_residual_cents := residual, pe_valid_mask := partial_mask (settled_partial T)\<rparr>
           in if upper = [] then E
              else E\<lparr>pe_upper_mean_cents := upper_sum div f64_of_int (int (length upper)), pe_valid := True\<rparr>)"

definition absolute_partial :: "PartialDetuningTracker \<Rightarrow> nat \<Rightarrow> bool" where
  "absolute_partial T partial \<longleftrightarrow> settled_partial T partial \<and> is_finite (pt_filtered_cents T ! partial)"

definition absolute_cents_evidence :: "PartialDetuningTracker \<Rightarrow> PartialAbsoluteCentsEvidence" where
  "absolute_cents_evidence T =
     \<lparr>pa_cents = map (\<lambda>partial. if absolute_partial T partial then pt_filtered_cents T ! partial else 0)
        [0..<kPartialDetuningCount],
      pa_valid_mask = partial_mask (absolute_partial T)\<rparr>"

subsection \<open>Laws\<close>

lemma fold_mask: "bit (fold (\<lambda>i m. if p i then m OR push_bit i 1 else m) is (w :: u8)) j
    \<longleftrightarrow> bit w j \<or> (j \<in> set is \<and> p j \<and> j < 8)"
  by (induction "is" arbitrary: w) (auto simp: bit_simps)

lemma bit_partial_mask: "bit (partial_mask p) j \<longleftrightarrow> j < kPartialDetuningCount \<and> p j"
  by (auto simp: partial_mask_def fold_mask kPartialDetuningCount_def)

lemma bit_usable_mask: "bit (usable_mask frame) j \<longleftrightarrow> j < kPartialDetuningCount \<and> usable frame j"
  using bit_partial_mask [of "usable frame" j] by (simp add: partial_mask_def usable_mask_def)

lemma update_partial_other:
  assumes "i \<noteq> j"
  shows "pt_accepted_updates (update_partial M mix rate frame i T) ! j = pt_accepted_updates T ! j"
    "pt_filtered_cents (update_partial M mix rate frame i T) ! j = pt_filtered_cents T ! j"
  using assms
  by (simp_all add: update_partial_def filter_partial_def measure_partial_def accept_cents_def Let_def)

text \<open>
  A partial that is not usable loses what was gathered about it: it gives no evidence until it was measured
  often enough again.
\<close>

lemma unusable_forgotten:
  assumes "j < kPartialDetuningCount" "\<not> usable frame j" "length (pt_accepted_updates T) = kPartialDetuningCount"
    "is_finite rate" "\<not> rate \<le> 0"
  shows "\<not> bit (pe_valid_mask (partial_evidence (partial_update M frame rate T))) j"
proof -
  let ?mix = "1 - math_exp M (f64_of_int (-1) div (kPhasorSmoothingSeconds * rate))"
  have len: "length (pt_accepted_updates (update_partial M mix rate frame i U)) = length (pt_accepted_updates U)" for mix i U
    by (simp add: update_partial_def filter_partial_def measure_partial_def accept_cents_def Let_def)
  have "pt_accepted_updates (fold (update_partial M mix rate frame) is U) ! j = 0"
    if "distinct is" "j \<in> set is" "j < length (pt_accepted_updates U)" for mix "is" U
    using that
  proof (induction "is" arbitrary: U)
    case (Cons i "is")
    have keep: "pt_accepted_updates (fold (update_partial M mix rate frame) ks U) ! j = pt_accepted_updates U ! j"
      if "j \<notin> set ks" for ks U
      using that by (induction ks arbitrary: U) (auto simp: update_partial_other)
    show ?case
    proof (cases "i = j")
      case True
      with Cons.prems assms(2) show ?thesis by (simp add: keep) (simp add: update_partial_def)
    next
      case False
      with Cons.prems show ?thesis by (simp add: Cons.IH len)
    qed
  qed simp
  then have "pt_accepted_updates (partial_update M frame rate T) ! j = 0"
    using assms by (simp add: partial_update_def Let_def)
  then have "\<not> settled_partial (partial_update M frame rate T) j"
    by (simp add: settled_partial_def kRequiredUpdates_def)
  then show ?thesis
    by (simp add: partial_evidence_def Let_def PartialDetuningEvidence_default_def bit_partial_mask)
qed

text \<open>A comparison never reports more partials than both sides have, and never one beyond the sixth.\<close>

lemma common_partials_bound:
  "unat (pc_common_partials (compare_partial_detuning observed reference_cents w scale_cents)) < kPartialDetuningCount"
proof -
  have "length (filter q [1..<kPartialDetuningCount]) < kPartialDetuningCount" for q
    using length_filter_le [of q "[1..<kPartialDetuningCount]"] by (simp add: kPartialDetuningCount_def)
  moreover have "unat (of_nat n :: u8) \<le> n" for n by (simp add: unat_of_nat)
  ultimately have "unat (of_nat (length (filter q [1..<kPartialDetuningCount])) :: u8) < kPartialDetuningCount" for q
    using le_less_trans by blast
  moreover have "0 < kPartialDetuningCount" by (simp add: kPartialDetuningCount_def)
  ultimately show ?thesis
    by (simp add: compare_partial_detuning_def PartialDetuningComparison_default_def Let_def)
qed

end
