(* ===== verification/Unison_Classifier.thy ===== *)
theory Unison_Classifier
  imports Evidence_Math
begin

unbundle bit_operations_syntax

text \<open>
  The classifier of unisons (\<open>src/unison_spectral_classifier.cpp\<close>): which physical strings together explain an
  observed spectral fingerprint, by a least-squares fit of string templates over every playable subset.
\<close>

subsection \<open>Data\<close>

definition kUnisonSpectralHarmonicCount :: nat where "kUnisonSpectralHarmonicCount = 3"
definition kUnisonSpectralOffsetsPerHarmonic :: nat where "kUnisonSpectralOffsetsPerHarmonic = 34"
definition kUnisonSpectralFeatureCount :: nat where
  "kUnisonSpectralFeatureCount = kUnisonSpectralHarmonicCount * kUnisonSpectralOffsetsPerHarmonic"

type_synonym UnisonSpectralFingerprint = "f64 list"

record UnisonSpectralTemplateSet =
  ut_fingerprint :: "UnisonSpectralFingerprint list"
  ut_valid_mask :: u8

definition UnisonSpectralTemplateSet_default :: UnisonSpectralTemplateSet where
  "UnisonSpectralTemplateSet_default =
     \<lparr>ut_fingerprint = replicate kMaxVoices (replicate kUnisonSpectralFeatureCount 0), ut_valid_mask = 0\<rparr>"

record UnisonSpectralClassification =
  uc_weights :: "f64 list"
  uc_error :: f64
  uc_runner_up_error :: f64
  uc_posterior_margin :: f64
  uc_member_mask :: u8
  uc_member_count :: u8
  uc_valid :: bool

definition UnisonSpectralClassification_default :: UnisonSpectralClassification where
  "UnisonSpectralClassification_default =
     \<lparr>uc_weights = replicate kMaxVoices 0, uc_error = 0, uc_runner_up_error = 0, uc_posterior_margin = 0,
      uc_member_mask = 0, uc_member_count = 0, uc_valid = False\<rparr>"

record UnisonSpectralSingleScores =
  us_error :: "f64 list"
  us_valid_mask :: u8

definition kPivotFloor :: f64 where "kPivotFloor = f64_rat 1 1000000000000"
definition kPositiveWeightFloor :: f64 where "kPositiveWeightFloor = f64_rat 1 1000000000"
definition kMaximumUnisonMembers :: nat where "kMaximumUnisonMembers = 4"

subsection \<open>Norms\<close>

definition fingerprint_finite :: "UnisonSpectralFingerprint \<Rightarrow> bool" where
  "fingerprint_finite v \<longleftrightarrow> list_all (\<lambda>feature. is_finite feature \<and> \<not> feature < 0) v"

text \<open>The scaled sum of squares: the largest feature so far and the sum relative to it.\<close>

fun l2_step :: "f64 \<Rightarrow> f64 \<times> f64 \<Rightarrow> f64 \<times> f64" where
  "l2_step feature (scale, s) =
     (if f64_eq feature 0 then (scale, s)
      else if scale < feature then let ratio = scale div feature in (feature, 1 + s * ratio * ratio)
      else let ratio = feature div scale in (scale, s + ratio * ratio))"

definition l2_norm :: "UnisonSpectralFingerprint \<Rightarrow> f64" where
  "l2_norm v = (case fold l2_step v (0, 1) of
     (scale, s) \<Rightarrow> if f64_eq scale 0 then 0 else scale * f64_sqrt s)"

definition stable_l2_norm :: "UnisonSpectralFingerprint \<Rightarrow> f64" where
  "stable_l2_norm v = (if is_finite (l2_norm v) then l2_norm v else 0)"

text \<open>A sum over the features, accumulated from 0 in their order.\<close>

definition feature_sum :: "nat \<Rightarrow> (nat \<Rightarrow> f64) \<Rightarrow> f64" where
  "feature_sum n f = fold (\<lambda>feature t. t + f feature) [0..<n] 0"

subsection \<open>Linear equations\<close>

type_synonym equations = "f64 list list \<times> f64 list"

definition pivot_row :: "f64 list list \<Rightarrow> nat \<Rightarrow> nat \<Rightarrow> nat" where
  "pivot_row matrix column dim =
     fold (\<lambda>row pivot. if \<bar>matrix ! pivot ! column\<bar> < \<bar>matrix ! row ! column\<bar> then row else pivot)
       [column + 1..<dim] column"

definition swap_rows :: "nat \<Rightarrow> nat \<Rightarrow> 'a list \<Rightarrow> 'a list" where
  "swap_rows i j xs = xs[i := xs ! j, j := xs ! i]"

definition divide_row :: "nat \<Rightarrow> nat \<Rightarrow> equations \<Rightarrow> equations" where
  "divide_row column dim eqs =
     (case eqs of (matrix, right) \<Rightarrow>
        let divisor = matrix ! column ! column
        in (matrix[column := fold (\<lambda>item r. r[item := r ! item div divisor]) [column..<dim] (matrix ! column)],
            right[column := right ! column div divisor]))"

definition eliminate_row :: "nat \<Rightarrow> nat \<Rightarrow> nat \<Rightarrow> equations \<Rightarrow> equations" where
  "eliminate_row column dim row eqs =
     (case eqs of (matrix, right) \<Rightarrow>
        if row = column then eqs
        else let multiplier = matrix ! row ! column
             in (matrix[row := fold (\<lambda>item r. r[item := r ! item - multiplier * (matrix ! column ! item)])
                                 [column..<dim] (matrix ! row)],
                 right[row := right ! row - multiplier * (right ! column)]))"

definition solve_column :: "nat \<Rightarrow> nat \<Rightarrow> equations \<Rightarrow> equations option" where
  "solve_column dim column eqs =
     (case eqs of (matrix, right) \<Rightarrow>
        let pivot = pivot_row matrix column dim
        in if \<bar>matrix ! pivot ! column\<bar> \<le> kPivotFloor then None
           else Some (fold (eliminate_row column dim) [0..<dim]
                  (divide_row column dim (swap_rows column pivot matrix, swap_rows column pivot right))))"

fun solve_columns :: "nat \<Rightarrow> nat list \<Rightarrow> equations \<Rightarrow> equations option" where
  "solve_columns dim [] eqs = Some eqs"
| "solve_columns dim (column # columns) eqs =
     (case solve_column dim column eqs of None \<Rightarrow> None | Some eqs \<Rightarrow> solve_columns dim columns eqs)"

definition solve :: "f64 list list \<Rightarrow> f64 list \<Rightarrow> nat \<Rightarrow> f64 list option" where
  "solve matrix right dim =
     (case solve_columns dim [0..<dim] (matrix, right) of
        None \<Rightarrow> None
      | Some (_, right) \<Rightarrow> Some (map (\<lambda>i. if i < dim then right ! i else 0) [0..<kMaximumUnisonMembers]))"

subsection \<open>The fit of one group\<close>

function strip_zeros :: "u8 \<Rightarrow> u8" where
  "strip_zeros w = (if w = 0 \<or> w AND 1 \<noteq> 0 then w else strip_zeros (drop_bit 1 w))"
  by pat_completeness auto
termination
proof (relation "measure unat")
  fix w :: u8
  assume "\<not> (w = 0 \<or> w AND 1 \<noteq> 0)"
  then have "0 < unat w" by (simp add: unat_gt_0)
  then show "(drop_bit 1 w, w) \<in> measure unat"
    by (simp only: in_measure unat_drop_bit_eq) (simp add: drop_bit_eq_div)
qed simp

declare strip_zeros.simps [simp del]

definition consecutive_mask :: "u8 \<Rightarrow> nat \<Rightarrow> bool" where
  "consecutive_mask w count \<longleftrightarrow> count \<noteq> 0 \<and> strip_zeros w = push_bit count 1 - 1"

definition group_feasible :: "u8 \<Rightarrow> nat \<Rightarrow> nat \<Rightarrow> bool \<Rightarrow> u8 \<Rightarrow> bool" where
  "group_feasible available minimum_count maximum_count consecutive_only w \<longleftrightarrow>
     (let count = member_count w
      in minimum_count \<le> count \<and> count \<le> maximum_count \<and> available AND w = w
         \<and> (consecutive_only \<longrightarrow> consecutive_mask w count))"

text \<open>The normalized templates of the members, and the normalized observation.\<close>

definition normalized :: "UnisonSpectralFingerprint \<Rightarrow> nat \<Rightarrow> f64" where
  "normalized v feature = v ! feature div stable_l2_norm v"

definition templates_usable :: "UnisonSpectralTemplateSet \<Rightarrow> u8 \<Rightarrow> bool" where
  "templates_usable templates w \<longleftrightarrow>
     list_all (\<lambda>s. fingerprint_finite (ut_fingerprint templates ! s) \<and> 0 < stable_l2_norm (ut_fingerprint templates ! s))
       (members w)"

definition gram :: "UnisonSpectralTemplateSet \<Rightarrow> nat list \<Rightarrow> nat \<Rightarrow> f64 list list" where
  "gram templates ms n =
     map (\<lambda>left. map (\<lambda>right.
            if left < length ms \<and> right < length ms
            then feature_sum n (\<lambda>feature. normalized (ut_fingerprint templates ! (ms ! left)) feature
                                          * normalized (ut_fingerprint templates ! (ms ! right)) feature)
            else 0) [0..<kMaximumUnisonMembers]) [0..<kMaximumUnisonMembers]"

definition correlation :: "UnisonSpectralFingerprint \<Rightarrow> UnisonSpectralTemplateSet \<Rightarrow> nat list \<Rightarrow> f64 list" where
  "correlation observed templates ms =
     map (\<lambda>left. if left < length ms
            then feature_sum (length observed) (\<lambda>feature. normalized (ut_fingerprint templates ! (ms ! left)) feature
                                                          * normalized observed feature)
            else 0) [0..<kMaximumUnisonMembers]"

definition fit_error :: "UnisonSpectralFingerprint \<Rightarrow> UnisonSpectralTemplateSet \<Rightarrow> nat list \<Rightarrow> f64 list \<Rightarrow> f64" where
  "fit_error observed templates ms weights =
     feature_sum (length observed) (\<lambda>feature.
       let fitted = fold (\<lambda>c t. t + weights ! c * normalized (ut_fingerprint templates ! (ms ! c)) feature)
                      [0..<length ms] 0;
           residual = normalized observed feature - fitted
       in residual * residual)"

text \<open>The error of a group and its normalized weights; none when the group does not fit.\<close>

definition group_fit ::
  "UnisonSpectralFingerprint \<Rightarrow> UnisonSpectralTemplateSet \<Rightarrow> u8 \<Rightarrow> (f64 \<times> f64 list) option" where
  "group_fit observed templates w =
     (let ms = members w
      in if \<not> templates_usable templates w then None
         else case solve (gram templates ms (length observed)) (correlation observed templates ms) (length ms) of
                None \<Rightarrow> None
              | Some weights \<Rightarrow>
                  if list_ex (\<lambda>v. \<not> is_finite v \<or> v \<le> kPositiveWeightFloor) (take (length ms) weights) then None
                  else let e = fit_error observed templates ms weights
                       in if \<not> is_finite e then None else Some (e, weights))"

definition raw_weight :: "UnisonSpectralFingerprint \<Rightarrow> UnisonSpectralTemplateSet \<Rightarrow> nat list \<Rightarrow> f64 list \<Rightarrow> nat \<Rightarrow> f64" where
  "raw_weight observed templates ms weights c =
     weights ! c * stable_l2_norm observed div stable_l2_norm (ut_fingerprint templates ! (ms ! c))"

definition weights_valid :: "UnisonSpectralFingerprint \<Rightarrow> UnisonSpectralTemplateSet \<Rightarrow> u8 \<Rightarrow> f64 list \<Rightarrow> bool" where
  "weights_valid observed templates w weights \<longleftrightarrow>
     list_all (\<lambda>c. is_finite (raw_weight observed templates (members w) weights c)) [0..<member_count w]"

definition string_weights :: "UnisonSpectralFingerprint \<Rightarrow> UnisonSpectralTemplateSet \<Rightarrow> u8 \<Rightarrow> f64 list \<Rightarrow> f64 list" where
  "string_weights observed templates w weights =
     fold (\<lambda>c ws. ws[members w ! c := raw_weight observed templates (members w) weights c])
       [0..<member_count w] (replicate kMaxVoices 0)"

subsection \<open>The classification\<close>

definition classify_group ::
  "UnisonSpectralFingerprint \<Rightarrow> UnisonSpectralTemplateSet \<Rightarrow> (u8 \<Rightarrow> bool) \<Rightarrow> u8
   \<Rightarrow> UnisonSpectralClassification \<Rightarrow> UnisonSpectralClassification" where
  "classify_group observed templates feasible w best =
     (if \<not> feasible w then best
      else case group_fit observed templates w of
             None \<Rightarrow> best
           | Some (e, weights) \<Rightarrow>
               if \<not> (\<not> uc_valid best \<or> e < uc_error best \<or> f64_eq e (uc_error best) \<and> w < uc_member_mask best)
               then best\<lparr>uc_runner_up_error := std_min (uc_runner_up_error best) e\<rparr>
               else if weights_valid observed templates w weights
               then \<lparr>uc_weights = string_weights observed templates w weights, uc_error = e,
                     uc_runner_up_error = std_min (uc_runner_up_error best) (uc_error best),
                     uc_posterior_margin = 0, uc_member_mask = w,
                     uc_member_count = of_nat (member_count w), uc_valid = True\<rparr>
               else best)"

definition unfitted :: UnisonSpectralClassification where
  "unfitted = UnisonSpectralClassification_default
     \<lparr>uc_error := f64_infinity False, uc_runner_up_error := f64_infinity False, uc_posterior_margin := f64_infinity False\<rparr>"

definition classify ::
  "UnisonSpectralFingerprint \<Rightarrow> UnisonSpectralTemplateSet \<Rightarrow> u8 \<Rightarrow> nat \<Rightarrow> nat \<Rightarrow> bool \<Rightarrow> UnisonSpectralClassification" where
  "classify observed templates playable minimum_count maximum_count consecutive_only =
     (if minimum_count < 1 \<or> maximum_count < minimum_count \<or> kMaximumUnisonMembers < maximum_count
         \<or> kMaxVoices < maximum_count \<or> \<not> fingerprint_finite observed \<or> f64_eq (stable_l2_norm observed) 0
      then UnisonSpectralClassification_default
      else let best = fold (classify_group observed templates
                        (group_feasible (playable AND ut_valid_mask templates) minimum_count maximum_count consecutive_only))
                        (map of_nat [1..<2 ^ kMaxVoices]) unfitted
           in if \<not> uc_valid best then UnisonSpectralClassification_default
              else best\<lparr>uc_posterior_margin := uc_runner_up_error best - uc_error best\<rparr>)"

definition classify_single_spectral_source ::
  "UnisonSpectralFingerprint \<Rightarrow> UnisonSpectralTemplateSet \<Rightarrow> u8 \<Rightarrow> UnisonSpectralClassification" where
  "classify_single_spectral_source observed templates playable = classify observed templates playable 1 1 False"

definition classify_consecutive_unison ::
  "UnisonSpectralFingerprint \<Rightarrow> UnisonSpectralTemplateSet \<Rightarrow> u8 \<Rightarrow> nat \<Rightarrow> UnisonSpectralClassification" where
  "classify_consecutive_unison observed templates playable count =
     (if count < 2 then UnisonSpectralClassification_default
      else classify observed templates playable count count True)"

definition classify_feasible_unison ::
  "UnisonSpectralFingerprint \<Rightarrow> UnisonSpectralTemplateSet \<Rightarrow> u8 \<Rightarrow> nat \<Rightarrow> nat \<Rightarrow> UnisonSpectralClassification" where
  "classify_feasible_unison observed templates playable minimum_count maximum_count =
     (if minimum_count < 2 then UnisonSpectralClassification_default
      else classify observed templates playable minimum_count maximum_count False)"

subsection \<open>Distances and single sources\<close>

definition normalized_spectral_fingerprint_squared_distance ::
  "UnisonSpectralFingerprint \<Rightarrow> UnisonSpectralFingerprint \<Rightarrow> f64" where
  "normalized_spectral_fingerprint_squared_distance left right =
     (if \<not> fingerprint_finite left \<or> \<not> fingerprint_finite right \<or> stable_l2_norm left \<le> 0 \<or> stable_l2_norm right \<le> 0
      then f64_infinity False
      else let distance = feature_sum (length left) (\<lambda>feature.
                 let difference = normalized left feature - normalized right feature in difference * difference)
           in if is_finite distance then distance else f64_infinity False)"

text \<open>The error of the fit of one template, none for a template that does not fit.\<close>

definition single_score :: "UnisonSpectralFingerprint \<Rightarrow> UnisonSpectralFingerprint \<Rightarrow> f64 option" where
  "single_score observed template =
     (if \<not> fingerprint_finite template \<or> f64_eq (stable_l2_norm template) 0 then None
      else let c = feature_sum (length observed) (\<lambda>feature. normalized template feature * normalized observed feature)
           in if \<not> is_finite c \<or> c \<le> kPositiveWeightFloor then None
              else let e = feature_sum (length observed) (\<lambda>feature.
                         let residual = normalized observed feature
                               - c * (template ! feature) div stable_l2_norm template
                         in residual * residual)
                   in if is_finite e then Some e else None)"

definition score_single_spectral_sources ::
  "UnisonSpectralFingerprint \<Rightarrow> UnisonSpectralTemplateSet \<Rightarrow> u8 \<Rightarrow> UnisonSpectralSingleScores" where
  "score_single_spectral_sources observed templates playable =
     (let none = \<lparr>us_error = replicate kMaxVoices (f64_infinity False), us_valid_mask = 0\<rparr>
      in if \<not> fingerprint_finite observed \<or> f64_eq (stable_l2_norm observed) 0 then none
         else fold (\<lambda>s result.
                if \<not> bit (playable AND ut_valid_mask templates) s then result
                else case single_score observed (ut_fingerprint templates ! s) of
                       None \<Rightarrow> result
                     | Some e \<Rightarrow> result\<lparr>us_error := (us_error result)[s := e],
                                         us_valid_mask := us_valid_mask result OR push_bit s 1\<rparr>)
                [0..<kMaxVoices] none)"

end
