(* ===== verification/Unison_Reacquisition.thy ===== *)
theory Unison_Reacquisition
  imports Unison_Classifier
begin

unbundle bit_operations_syntax

text \<open>
  When a group of strings heard a moment ago may be taken up again after a dropout (the second half of
  \<open>src/unison_spectral_classifier.cpp\<close>). The gates are conservative: whatever the evidence, the result is the
  present assignment or the cached group, and the latter only when every gate is open.
\<close>

subsection \<open>The cached group\<close>

definition outside :: "u8 \<Rightarrow> u8 \<Rightarrow> bool" where
  "outside w strings \<longleftrightarrow> w AND NOT strings \<noteq> 0"

definition bounded_cached_unison_reacquisition ::
  "u8 \<Rightarrow> u8 \<Rightarrow> u8 \<Rightarrow> u8 \<Rightarrow> u8 \<Rightarrow> bool \<Rightarrow> f64 \<Rightarrow> bool \<Rightarrow> bool \<Rightarrow> bool \<Rightarrow> u8" where
  "bounded_cached_unison_reacquisition current_assignment cached_group fine_frequency playable maximum_polyphony
     direct_fundamental beat_coherence cache_live spectral_group_agreement quiet =
     (let cached = member_bits cached_group; current = member_bits current_assignment; fine = member_bits fine_frequency
      in if quiet \<or> \<not> cache_live \<or> \<not> direct_fundamental \<or> \<not> spectral_group_agreement
            \<or> \<not> is_finite beat_coherence \<or> beat_coherence < f64_rat 20 100
            \<or> current < 2 \<or> cached < current \<or> fine < 2 \<or> cached < fine \<or> cached < 3 \<or> 4 < cached
            \<or> maximum_polyphony = 0 \<or> maximum_polyphony < cached
            \<or> outside current_assignment cached_group \<or> outside fine_frequency cached_group
            \<or> outside cached_group playable
         then current_assignment else cached_group)"

subsection \<open>The observed group\<close>

record ObservedUnisonReacquisitionEvidence =
  oe_current_assignment_mask :: u8
  oe_cached_group_mask :: u8
  oe_pending_fine_mask :: u8
  oe_spectral_tier_mask :: u8
  oe_other_owned_mask :: u8
  oe_playable_mask :: u8
  oe_maximum_polyphony :: u8
  oe_direct_fundamental :: bool
  oe_quiet :: bool
  oe_cache_age_seconds :: f64
  oe_maximum_cache_age_seconds :: f64
  oe_pending_evidence_seconds :: f64
  oe_minimum_revalidation_seconds :: f64
  oe_pending_beat_coherence :: f64
  oe_cached_fingerprint_valid :: bool
  oe_current_fingerprint_valid :: bool
  oe_fingerprint_squared_distance :: f64
  oe_maximum_fingerprint_squared_distance :: f64

datatype ObservedUnisonReacquisitionDisposition =
    reacquisition_accepted | reacquisition_quiet | no_cache | no_direct_fundamental | current_group_invalid
  | pending_group_invalid | tier_mismatch | unplayable | ownership_conflict | over_capacity | cache_expired
  | pending_insufficient | beat_below_gate | fingerprint_unavailable | fingerprint_mismatch

record ObservedUnisonReacquisitionResult =
  or_projected_mask :: u8
  or_disposition :: ObservedUnisonReacquisitionDisposition

definition age_out_of_range :: "f64 \<Rightarrow> f64 \<Rightarrow> bool" where
  "age_out_of_range age maximum \<longleftrightarrow>
     \<not> is_finite age \<or> \<not> is_finite maximum \<or> maximum < 0 \<or> age < 0 \<or> maximum < age"

definition below_gate :: "f64 \<Rightarrow> f64 \<Rightarrow> bool" where
  "below_gate x minimum \<longleftrightarrow> \<not> is_finite x \<or> \<not> is_finite minimum \<or> minimum < 0 \<or> x < minimum"

text \<open>The first gate that is closed, in the order of the tests.\<close>

definition reacquisition_disposition ::
  "ObservedUnisonReacquisitionEvidence \<Rightarrow> ObservedUnisonReacquisitionDisposition" where
  "reacquisition_disposition e =
     (let cached = member_bits (oe_cached_group_mask e);
          current = member_bits (oe_current_assignment_mask e);
          pending = member_bits (oe_pending_fine_mask e)
      in if oe_quiet e then reacquisition_quiet
         else if cached < 3 \<or> 4 < cached then no_cache
         else if \<not> oe_direct_fundamental e then no_direct_fundamental
         else if current < 2 \<or> cached \<le> current \<or> outside (oe_current_assignment_mask e) (oe_cached_group_mask e)
         then current_group_invalid
         else if pending < 2 \<or> cached < pending \<or> outside (oe_pending_fine_mask e) (oe_cached_group_mask e)
         then pending_group_invalid
         else if oe_spectral_tier_mask e \<noteq> oe_cached_group_mask e then tier_mismatch
         else if outside (oe_cached_group_mask e) (oe_playable_mask e) then unplayable
         else if oe_cached_group_mask e AND oe_other_owned_mask e \<noteq> 0 then ownership_conflict
         else if oe_maximum_polyphony e = 0 \<or> of_nat kMaxVoices < oe_maximum_polyphony e
                 \<or> oe_maximum_polyphony e < member_bits (oe_cached_group_mask e OR oe_other_owned_mask e)
         then over_capacity
         else if age_out_of_range (oe_cache_age_seconds e) (oe_maximum_cache_age_seconds e) then cache_expired
         else if below_gate (oe_pending_evidence_seconds e) (oe_minimum_revalidation_seconds e)
         then pending_insufficient
         else if \<not> is_finite (oe_pending_beat_coherence e) \<or> oe_pending_beat_coherence e < f64_rat 20 100
         then beat_below_gate
         else if \<not> oe_cached_fingerprint_valid e \<or> \<not> oe_current_fingerprint_valid e
                 \<or> \<not> is_finite (oe_fingerprint_squared_distance e)
         then fingerprint_unavailable
         else if \<not> is_finite (oe_maximum_fingerprint_squared_distance e)
                 \<or> oe_maximum_fingerprint_squared_distance e < 0
                 \<or> oe_maximum_fingerprint_squared_distance e < oe_fingerprint_squared_distance e
         then fingerprint_mismatch
         else reacquisition_accepted)"

definition diagnose_observed_unison_reacquisition ::
  "ObservedUnisonReacquisitionEvidence \<Rightarrow> ObservedUnisonReacquisitionResult" where
  "diagnose_observed_unison_reacquisition e =
     (if reacquisition_disposition e = reacquisition_accepted
      then \<lparr>or_projected_mask = oe_cached_group_mask e, or_disposition = reacquisition_accepted\<rparr>
      else \<lparr>or_projected_mask = oe_current_assignment_mask e, or_disposition = reacquisition_disposition e\<rparr>)"

definition bounded_observed_unison_reacquisition :: "ObservedUnisonReacquisitionEvidence \<Rightarrow> u8" where
  "bounded_observed_unison_reacquisition e = or_projected_mask (diagnose_observed_unison_reacquisition e)"

definition bounded_observed_unison_cache_refresh ::
  "bool \<Rightarrow> bool \<Rightarrow> bool \<Rightarrow> bool \<Rightarrow> u8 \<Rightarrow> u8 \<Rightarrow> bool" where
  "bounded_observed_unison_cache_refresh active selected above_decay_floor quiet current_assignment fine_frequency \<longleftrightarrow>
     \<not> quiet \<and> active \<and> (selected \<or> above_decay_floor)
     \<and> 3 \<le> member_count current_assignment \<and> member_count current_assignment \<le> 4
     \<and> current_assignment = fine_frequency"

subsection \<open>Laws\<close>

text \<open>The whole of the gates: the result is the cached group only if the diagnosis is acceptance.\<close>

lemma outside_bits: "\<not> outside w strings \<longleftrightarrow> (\<forall>s. bit w s \<longrightarrow> bit strings s)"
  by (auto simp: outside_def bit_eq_iff bit_simps dest: bit_u8_bound [unfolded kMaxVoices_def])

lemma reacquisition_accepts:
  assumes "reacquisition_disposition e = reacquisition_accepted"
  shows "\<not> oe_quiet e" "oe_direct_fundamental e" "member_count (oe_cached_group_mask e) \<in> {3, 4}"
    "2 \<le> member_count (oe_current_assignment_mask e)" 
    "member_count (oe_current_assignment_mask e) < member_count (oe_cached_group_mask e)"
    "bit (oe_current_assignment_mask e) s \<Longrightarrow> bit (oe_cached_group_mask e) s"
    "bit (oe_cached_group_mask e) s \<Longrightarrow> bit (oe_playable_mask e) s \<and> \<not> bit (oe_other_owned_mask e) s"
    "member_count (oe_cached_group_mask e OR oe_other_owned_mask e) \<le> unat (oe_maximum_polyphony e)"
proof -
  note split = assms [unfolded reacquisition_disposition_def Let_def]
  note le = word_less_nat_alt word_le_nat_alt
  show "\<not> oe_quiet e" "oe_direct_fundamental e" using split by (auto split: if_splits)
  show "member_count (oe_cached_group_mask e) \<in> {3, 4}" "2 \<le> member_count (oe_current_assignment_mask e)"
    "member_count (oe_current_assignment_mask e) < member_count (oe_cached_group_mask e)"
    using split by (auto simp: le not_less not_le simp flip: member_bits_count split: if_splits)
  show "bit (oe_cached_group_mask e) s" if "bit (oe_current_assignment_mask e) s"
    using split that outside_bits by (auto split: if_splits)
  show "bit (oe_playable_mask e) s \<and> \<not> bit (oe_other_owned_mask e) s" if "bit (oe_cached_group_mask e) s"
  proof -
    have "oe_cached_group_mask e AND oe_other_owned_mask e = 0" "\<not> outside (oe_cached_group_mask e) (oe_playable_mask e)"
      using split by (auto split: if_splits)
    moreover have "s < 8" using bit_u8_bound [OF that] by (simp add: kMaxVoices_def)
    ultimately show ?thesis using that outside_bits by (auto simp: bit_eq_iff bit_simps)
  qed
  show "member_count (oe_cached_group_mask e OR oe_other_owned_mask e) \<le> unat (oe_maximum_polyphony e)"
    using split by (auto simp: le not_less simp flip: member_bits_count split: if_splits)
qed

text \<open>A reacquisition never exceeds the strings that can play the pitch, nor drops one that is assigned.\<close>

lemma reacquisition_bounded:
  "bounded_observed_unison_reacquisition e = oe_current_assignment_mask e
   \<or> reacquisition_disposition e = reacquisition_accepted
     \<and> bounded_observed_unison_reacquisition e = oe_cached_group_mask e"
  by (simp add: bounded_observed_unison_reacquisition_def diagnose_observed_unison_reacquisition_def)

end
