(* ===== verification/Unison_Laws.thy ===== *)
theory Unison_Laws
  imports Unison_Reacquisition
begin

unbundle bit_operations_syntax

text \<open>
  The classifier finds the best group: among all groups that may play the pitch and fit, the one of least error.
\<close>

text \<open>
  What a group has to satisfy to explain an observation, and the error it then has: the inputs are
  usable, the group is one the caller allows, its least-squares fit exists with positive weights, and the
  weights are finite in the units of the observation.
\<close>

definition explains ::
  "UnisonSpectralFingerprint \<Rightarrow> UnisonSpectralTemplateSet \<Rightarrow> u8 \<Rightarrow> nat \<Rightarrow> nat \<Rightarrow> bool \<Rightarrow> u8 \<Rightarrow> f64 option" where
  "explains observed templates playable lo hi consecutive_only w =
     (if 1 \<le> lo \<and> lo \<le> hi \<and> hi \<le> kMaximumUnisonMembers \<and> fingerprint_finite observed
         \<and> \<not> f64_eq (stable_l2_norm observed) 0
         \<and> group_feasible (playable AND ut_valid_mask templates) lo hi consecutive_only w
      then (case group_fit observed templates w of
              None \<Rightarrow> None
            | Some (e, weights) \<Rightarrow> if weights_valid observed templates w weights then Some e else None)
      else None)"

text \<open>The state of the search after some groups.\<close>

definition searched ::
  "(u8 \<Rightarrow> f64 option) \<Rightarrow> u8 set \<Rightarrow> UnisonSpectralClassification \<Rightarrow> bool" where
  "searched ex ws best \<longleftrightarrow>
     (uc_valid best \<longrightarrow> ex (uc_member_mask best) = Some (uc_error best)
        \<and> uc_member_count best = of_nat (member_count (uc_member_mask best)))
     \<and> (\<forall>w \<in> ws. \<forall>e. ex w = Some e \<longrightarrow> uc_valid best \<and> uc_error best \<le> e)"

lemma group_fit_finite: "group_fit observed templates w = Some (e, weights) \<Longrightarrow> is_finite e"
  by (auto simp: group_fit_def Let_def split: if_splits option.splits)

lemma classify_group_searched:
  assumes ex: "\<And>w. ex w = (if feasible w then (case group_fit observed templates w of
              None \<Rightarrow> None
            | Some (e, weights) \<Rightarrow> if weights_valid observed templates w weights then Some e else None) else None)"
    and s: "searched ex ws best"
  shows "searched ex (insert w ws) (classify_group observed templates feasible w best)"
proof (cases "feasible w \<and> group_fit observed templates w \<noteq> None")
  case False
  then have "ex w = None" by (cases "group_fit observed templates w") (auto simp: ex)
  moreover have "classify_group observed templates feasible w best = best"
    using False by (cases "group_fit observed templates w") (auto simp: classify_group_def)
  ultimately show ?thesis using s by (simp add: searched_def)
next
  case True
  then obtain e weights where f: "group_fit observed templates w = Some (e, weights)" by auto
  have fe: "is_finite e" by (rule group_fit_finite [OF f])
  have exw: "ex w = (if weights_valid observed templates w weights then Some e else None)"
    using True by (simp add: ex f)
  have fin: "is_finite e'" if "ex w' = Some e'" for w' e'
    using that group_fit_finite by (auto simp: ex split: if_splits option.splits)
  let ?better = "\<not> uc_valid best \<or> e < uc_error best \<or> f64_eq e (uc_error best) \<and> w < uc_member_mask best"
  show ?thesis
  proof (cases ?better)
    case False
    then have b: "uc_valid best" "\<not> e < uc_error best" by auto
    then have "is_finite (uc_error best)" using s fin by (auto simp: searched_def)
    then have "uc_error best \<le> e" using b(2) f64_not_less fe is_finite_not_nan by blast
    with False s b(1) show ?thesis by (auto simp: classify_group_def f True searched_def exw)
  next
    case better: True
    show ?thesis
    proof (cases "weights_valid observed templates w weights")
      case False
      with better s show ?thesis by (simp add: classify_group_def f True searched_def exw)
    next
      case True
      have le: "e \<le> e'" if "w' \<in> ws" "ex w' = Some e'" for w' e'
      proof -
        have v: "uc_valid best" "uc_error best \<le> e'" using s that by (auto simp: searched_def)
        have "e \<le> uc_error best" using better v(1) f64_less_imp_le by (auto simp: f64_eq_def less_eq_f64_def)
        then show ?thesis using v(2) f64_le_trans by blast
      qed
      have "e \<le> e" using f64_le_refl [OF is_finite_not_nan [OF fe]] .
      with better True le show ?thesis
        using \<open>feasible w \<and> _\<close> by (auto simp: classify_group_def f searched_def exw)
    qed
  qed
qed

lemma classify_groups_searched:
  assumes "\<And>w. ex w = (if feasible w then (case group_fit observed templates w of
              None \<Rightarrow> None
            | Some (e, weights) \<Rightarrow> if weights_valid observed templates w weights then Some e else None) else None)"
    and "searched ex ws best"
  shows "searched ex (set gs \<union> ws) (fold (classify_group observed templates feasible) gs best)"
  using assms(2)
proof (induction gs arbitrary: ws best)
  case (Cons g gs)
  from Cons.IH [OF classify_group_searched [OF assms(1) Cons.prems, of g]] show ?case by simp
qed simp

lemma all_groups: "set (map of_nat [1..<2 ^ kMaxVoices]) = {w :: u8. w \<noteq> 0}"
proof -
  have "w \<in> of_nat ` {1..<256}" if "w \<noteq> 0" for w :: u8
  proof (rule image_eqI [where x = "unat w"])
    show "unat w \<in> {1..<256}" using that unsigned_less [of w] by (auto simp: unat_gt_0 Suc_le_eq)
  qed simp
  moreover have "(of_nat n :: u8) \<noteq> 0" if "1 \<le> n" "n < 256" for n
  proof -
    have "unat (of_nat n :: u8) = n" using that by (simp add: unat_of_nat)
    then show ?thesis using that by auto
  qed
  ultimately show ?thesis by (auto simp: kMaxVoices_def)
qed


end
