(* ===== verification/Unison_Tracker.thy ===== *)
theory Unison_Tracker
  imports Unison_Classifier
begin

unbundle bit_operations_syntax

text \<open>
  The tracker that makes spectral fingerprints (\<open>src/unison_spectral_tracker.cpp\<close>): a bank of oscillators around
  the first harmonics of a note, and how much of the signal each one carries; and the factory templates
  (\<open>src/unison_spectral_templates.cpp\<close>). The elementary functions the tracker calls are the fields of a record; the
  generated table of templates is an argument.
\<close>

subsection \<open>Data\<close>

datatype UnisonSpectralPhase = spectral_unready | spectral_onset | spectral_settled | spectral_unlisted u8

fun phase_index :: "UnisonSpectralPhase \<Rightarrow> nat" where
  "phase_index spectral_unready = 0"
| "phase_index spectral_onset = 1"
| "phase_index spectral_settled = 2"
| "phase_index (spectral_unlisted b) = unat b"

record OscillatorMath =
  om_exp2 :: "f64 \<Rightarrow> f64"
  om_exp :: "f64 \<Rightarrow> f64"
  om_cos :: "f64 \<Rightarrow> f64"
  om_sin :: "f64 \<Rightarrow> f64"

record UnisonSpectralCorridorTracker =
  ct_cosine_step :: "f64 list"
  ct_sine_step :: "f64 list"
  ct_oscillator_real :: "f64 list"
  ct_oscillator_imaginary :: "f64 list"
  ct_correlation_real :: "f64 list"
  ct_correlation_imaginary :: "f64 list"
  ct_decay :: f64
  ct_ready_samples :: u64
  ct_settled_samples :: u64
  ct_sample_count :: u64
  ct_configured :: bool

definition UnisonSpectralCorridorTracker_default :: UnisonSpectralCorridorTracker where
  "UnisonSpectralCorridorTracker_default =
     (let zeros = replicate kUnisonSpectralFeatureCount 0
      in \<lparr>ct_cosine_step = zeros, ct_sine_step = zeros, ct_oscillator_real = zeros, ct_oscillator_imaginary = zeros,
          ct_correlation_real = zeros, ct_correlation_imaginary = zeros, ct_decay = 0, ct_ready_samples = 0,
          ct_settled_samples = 0, ct_sample_count = 0, ct_configured = False\<rparr>)"

definition kTrackerTwoPi :: f64 where "kTrackerTwoPi = f64_rat 628318530717958647692 (10 ^ 20)"
definition kNaturalLogTwo :: f64 where "kNaturalLogTwo = f64_rat 69314718055994530942 (10 ^ 20)"
definition kMemorySeconds :: f64 where "kMemorySeconds = f64_rat 150 1000"
definition kReadySeconds :: f64 where "kReadySeconds = f64_rat 200 1000"
definition kSettledSeconds :: f64 where "kSettledSeconds = f64_rat 350 1000"
definition kMinimumSampleRate :: f64 where "kMinimumSampleRate = f64_of_int 8000"
definition kMaximumSampleRate :: f64 where "kMaximumSampleRate = f64_of_int 384000"

text \<open>The bound of the clamp is the double nearest to the largest 64-bit count.\<close>

definition seconds_to_samples :: "f64 \<Rightarrow> f64 \<Rightarrow> u64" where
  "seconds_to_samples seconds rate =
     word_of_int (f64_trunc (std_clamp (std_ceil (seconds * rate)) 1 (f64_of_int (2 ^ 64 - 1))))"

subsection \<open>Configuration\<close>

definition corridor_frequency :: "OscillatorMath \<Rightarrow> f64 \<Rightarrow> nat \<Rightarrow> f64" where
  "corridor_frequency M center feature =
     (let harmonic = feature div kUnisonSpectralOffsetsPerHarmonic;
          offset = feature mod kUnisonSpectralOffsetsPerHarmonic;
          fraction = f64_of_int (int offset) div f64_of_int (int (kUnisonSpectralOffsetsPerHarmonic - 1));
          cents = f64_of_int (-100) + f64_of_int 200 * fraction
      in f64_of_int (int (harmonic + 1)) * center * om_exp M (kNaturalLogTwo * cents div f64_of_int 1200))"

definition corridor_reset :: "UnisonSpectralCorridorTracker \<Rightarrow> UnisonSpectralCorridorTracker" where
  "corridor_reset T =
     T\<lparr>ct_correlation_real := replicate kUnisonSpectralFeatureCount 0,
       ct_correlation_imaginary := replicate kUnisonSpectralFeatureCount 0,
       ct_oscillator_real := replicate kUnisonSpectralFeatureCount 1,
       ct_oscillator_imaginary := replicate kUnisonSpectralFeatureCount 0,
       ct_sample_count := 0\<rparr>"

text \<open>The steps of the oscillators, up to the first frequency beyond half the sample rate, if there is one.\<close>

fun corridor_steps ::
  "OscillatorMath \<Rightarrow> f64 \<Rightarrow> f64 \<Rightarrow> nat list \<Rightarrow> UnisonSpectralCorridorTracker \<Rightarrow> bool \<times> UnisonSpectralCorridorTracker" where
  "corridor_steps M rate center [] T = (True, T)"
| "corridor_steps M rate center (feature # rest) T =
     (let frequency = corridor_frequency M center feature;
          radians = kTrackerTwoPi * frequency div rate
      in if \<not> is_finite frequency \<or> f64_rat 1 2 * rate \<le> frequency then (False, T\<lparr>ct_configured := False\<rparr>)
         else corridor_steps M rate center rest
                (T\<lparr>ct_cosine_step := (ct_cosine_step T)[feature := om_cos M radians],
                   ct_sine_step := (ct_sine_step T)[feature := om_sin M radians]\<rparr>))"

definition corridor_configure ::
  "OscillatorMath \<Rightarrow> f64 \<Rightarrow> u8 \<Rightarrow> UnisonSpectralCorridorTracker \<Rightarrow> bool \<times> UnisonSpectralCorridorTracker" where
  "corridor_configure M rate midi_note T =
     (if \<not> is_finite rate \<or> rate < kMinimumSampleRate \<or> kMaximumSampleRate < rate \<or> 127 < midi_note then (False, T)
      else let center = midi_to_frequency (om_exp2 M) (f64_of_int (uint midi_note)) (f64_of_int 440)
           in if \<not> is_finite center \<or> center \<le> 0 then (False, T)
              else case corridor_steps M rate center [0..<kUnisonSpectralFeatureCount] T of
                     (False, T) \<Rightarrow> (False, T)
                   | (True, T) \<Rightarrow>
                       (True, corridor_reset
                          (T\<lparr>ct_decay := om_exp M (f64_of_int (-1) div (kMemorySeconds * rate)),
                             ct_ready_samples := seconds_to_samples kReadySeconds rate,
                             ct_settled_samples := seconds_to_samples kSettledSeconds rate,
                             ct_configured := True\<rparr>)))"

subsection \<open>Observation\<close>

definition observe_feature :: "f64 \<Rightarrow> nat \<Rightarrow> UnisonSpectralCorridorTracker \<Rightarrow> UnisonSpectralCorridorTracker" where
  "observe_feature sample feature T =
     (let re = ct_oscillator_real T ! feature; im = ct_oscillator_imaginary T ! feature;
          co = ct_cosine_step T ! feature; si = ct_sine_step T ! feature
      in T\<lparr>ct_correlation_real := (ct_correlation_real T)[feature :=
             ct_decay T * (ct_correlation_real T ! feature) + sample * re],
           ct_correlation_imaginary := (ct_correlation_imaginary T)[feature :=
             ct_decay T * (ct_correlation_imaginary T ! feature) - sample * im],
           ct_oscillator_real := (ct_oscillator_real T)[feature := re * co - im * si],
           ct_oscillator_imaginary := (ct_oscillator_imaginary T)[feature := im * co + re * si]\<rparr>)"

definition normalize_feature ::
  "(f64 \<Rightarrow> f64 \<Rightarrow> f64) \<Rightarrow> nat \<Rightarrow> UnisonSpectralCorridorTracker \<Rightarrow> UnisonSpectralCorridorTracker" where
  "normalize_feature hypot feature T =
     (let norm = hypot (ct_oscillator_real T ! feature) (ct_oscillator_imaginary T ! feature)
      in if 0 < norm \<and> is_finite norm
         then T\<lparr>ct_oscillator_real := (ct_oscillator_real T)[feature := ct_oscillator_real T ! feature div norm],
                ct_oscillator_imaginary := (ct_oscillator_imaginary T)[feature :=
                  ct_oscillator_imaginary T ! feature div norm]\<rparr>
         else T)"

definition corridor_observe ::
  "(f64 \<Rightarrow> f64 \<Rightarrow> f64) \<Rightarrow> f64 \<Rightarrow> UnisonSpectralCorridorTracker \<Rightarrow> UnisonSpectralCorridorTracker" where
  "corridor_observe hypot sample T =
     (if \<not> ct_configured T \<or> \<not> is_finite sample then T
      else let T = fold (observe_feature sample) [0..<kUnisonSpectralFeatureCount] T;
               T = T\<lparr>ct_sample_count := ct_sample_count T + 1\<rparr>
           in if ct_sample_count T AND 4095 = 0
              then fold (normalize_feature hypot) [0..<kUnisonSpectralFeatureCount] T else T)"

subsection \<open>Readiness and fingerprint\<close>

definition ready_with_lead :: "u64 \<Rightarrow> UnisonSpectralCorridorTracker \<Rightarrow> bool" where
  "ready_with_lead lead_samples T \<longleftrightarrow>
     ct_configured T
     \<and> (ct_ready_samples T \<le> ct_sample_count T \<or> ct_ready_samples T - ct_sample_count T \<le> lead_samples)"

definition tracker_ready :: "UnisonSpectralCorridorTracker \<Rightarrow> bool" where
  "tracker_ready = ready_with_lead 0"

definition phase_with_lead :: "u64 \<Rightarrow> UnisonSpectralCorridorTracker \<Rightarrow> UnisonSpectralPhase" where
  "phase_with_lead lead_samples T =
     (if \<not> ready_with_lead lead_samples T then spectral_unready
      else if ct_sample_count T < ct_settled_samples T then spectral_onset else spectral_settled)"

definition tracker_phase :: "UnisonSpectralCorridorTracker \<Rightarrow> UnisonSpectralPhase" where
  "tracker_phase = phase_with_lead 0"

definition feature_magnitude :: "(f64 \<Rightarrow> f64 \<Rightarrow> f64) \<Rightarrow> UnisonSpectralCorridorTracker \<Rightarrow> nat \<Rightarrow> f64" where
  "feature_magnitude hypot T feature = hypot (ct_correlation_real T ! feature) (ct_correlation_imaginary T ! feature)"

definition fingerprint_with_lead ::
  "(f64 \<Rightarrow> f64 \<Rightarrow> f64) \<Rightarrow> u64 \<Rightarrow> UnisonSpectralCorridorTracker \<Rightarrow> UnisonSpectralFingerprint" where
  "fingerprint_with_lead hypot lead_samples T =
     (let zeros = replicate kUnisonSpectralFeatureCount 0;
          result = map (feature_magnitude hypot T) [0..<kUnisonSpectralFeatureCount];
          norm = l2_norm result
      in if \<not> ready_with_lead lead_samples T then zeros
         else if \<not> is_finite norm \<or> norm \<le> 0 then zeros
         else map (\<lambda>feature. feature div norm) result)"

definition tracker_fingerprint ::
  "(f64 \<Rightarrow> f64 \<Rightarrow> f64) \<Rightarrow> UnisonSpectralCorridorTracker \<Rightarrow> UnisonSpectralFingerprint" where
  "tracker_fingerprint hypot = fingerprint_with_lead hypot 0"

subsection \<open>Factory templates\<close>

record FactorySpectralRow =
  fr_phase :: u8
  fr_note :: u8
  fr_string :: u8
  fr_fingerprint :: "u16 list"

text \<open>The row of a string, none without one; the outer none is a table that contradicts its index.\<close>

definition factory_row ::
  "(nat \<Rightarrow> int) \<Rightarrow> (nat \<Rightarrow> FactorySpectralRow) \<Rightarrow> nat \<Rightarrow> u8 \<Rightarrow> nat \<Rightarrow> FactorySpectralRow option option" where
  "factory_row row_index rows phase midi_note string =
     (let i = row_index ((phase * 128 + unat midi_note) * kMaxVoices + string)
      in if i < 0 then Some None
         else let row = rows (nat i)
              in if unat (fr_phase row) \<noteq> phase \<or> fr_note row \<noteq> midi_note \<or> unat (fr_string row) \<noteq> string then None
                 else Some (Some row))"

definition template_scale :: f64 where "template_scale = 1 div f64_of_int 65535"

fun factory_templates_from ::
  "(nat \<Rightarrow> int) \<Rightarrow> (nat \<Rightarrow> FactorySpectralRow) \<Rightarrow> nat \<Rightarrow> u8 \<Rightarrow> nat list \<Rightarrow> UnisonSpectralTemplateSet
   \<Rightarrow> UnisonSpectralTemplateSet option" where
  "factory_templates_from row_index rows phase midi_note [] S = Some S"
| "factory_templates_from row_index rows phase midi_note (string # strings) S =
     (case factory_row row_index rows phase midi_note string of
        None \<Rightarrow> None
      | Some None \<Rightarrow> factory_templates_from row_index rows phase midi_note strings S
      | Some (Some row) \<Rightarrow>
          factory_templates_from row_index rows phase midi_note strings
            (S\<lparr>ut_fingerprint := (ut_fingerprint S)[string :=
                 map (\<lambda>v. f64_of_int (uint v) * template_scale) (fr_fingerprint row)],
               ut_valid_mask := ut_valid_mask S OR push_bit string 1\<rparr>))"

definition factory_unison_spectral_templates ::
  "(nat \<Rightarrow> int) \<Rightarrow> (nat \<Rightarrow> FactorySpectralRow) \<Rightarrow> UnisonSpectralPhase \<Rightarrow> u8 \<Rightarrow> bool \<times> UnisonSpectralTemplateSet" where
  "factory_unison_spectral_templates row_index rows phase midi_note =
     (if phase_index spectral_settled < phase_index phase \<or> 127 < midi_note
      then (False, UnisonSpectralTemplateSet_default)
      else case factory_templates_from row_index rows (phase_index phase) midi_note [0..<kMaxVoices]
                  UnisonSpectralTemplateSet_default of
             None \<Rightarrow> (False, UnisonSpectralTemplateSet_default)
           | Some S \<Rightarrow> (ut_valid_mask S \<noteq> 0, S))"

subsection \<open>Laws\<close>

text \<open>A tracker only becomes ready by counting samples, and is never ready before it is configured.\<close>

lemma observe_count:
  assumes "ct_configured T" "is_finite sample"
  shows "ct_sample_count (corridor_observe hypot sample T) = ct_sample_count T + 1"
    "ct_configured (corridor_observe hypot sample T)"
    "ct_ready_samples (corridor_observe hypot sample T) = ct_ready_samples T"
proof -
  have o: "ct_sample_count (fold (observe_feature sample) fs U) = ct_sample_count U
      \<and> ct_configured (fold (observe_feature sample) fs U) = ct_configured U
      \<and> ct_ready_samples (fold (observe_feature sample) fs U) = ct_ready_samples U" for fs U
    by (induction fs arbitrary: U) (simp_all add: observe_feature_def Let_def)
  have n: "ct_sample_count (fold (normalize_feature hypot) fs U) = ct_sample_count U
      \<and> ct_configured (fold (normalize_feature hypot) fs U) = ct_configured U
      \<and> ct_ready_samples (fold (normalize_feature hypot) fs U) = ct_ready_samples U" for fs U
    by (induction fs arbitrary: U) (simp_all add: normalize_feature_def Let_def)
  show "ct_sample_count (corridor_observe hypot sample T) = ct_sample_count T + 1"
    "ct_configured (corridor_observe hypot sample T)"
    "ct_ready_samples (corridor_observe hypot sample T) = ct_ready_samples T"
    using assms by (simp_all add: corridor_observe_def Let_def o n)
qed

text \<open>A fingerprint that is not all zeros belongs to a ready tracker.\<close>

lemma fingerprint_ready:
  "f \<in> set (fingerprint_with_lead hypot lead_samples T) \<Longrightarrow> f \<noteq> 0 \<Longrightarrow> ready_with_lead lead_samples T"
  by (auto simp: fingerprint_with_lead_def Let_def split: if_splits)

text \<open>The table gives a template for a string exactly when the index has a row for it.\<close>

lemma factory_templates_mask:
  assumes "factory_templates_from row_index rows phase midi_note strings S = Some S'" "set strings \<subseteq> {0..<kMaxVoices}"
  shows "bit (ut_valid_mask S') s \<longleftrightarrow>
     bit (ut_valid_mask S) s \<or> s \<in> set strings \<and> factory_row row_index rows phase midi_note s \<noteq> Some None"
  using assms
proof (induction row_index rows phase midi_note strings S rule: factory_templates_from.induct)
  case (2 row_index rows phase midi_note string strings S)
  then have b: "string < 8" by (simp add: kMaxVoices_def)
  show ?case
  proof (cases "factory_row row_index rows phase midi_note string")
    case None
    with 2 show ?thesis by simp
  next
    case (Some r)
    then show ?thesis
      using 2 b by (cases r) (auto simp: bit_simps)
  qed
qed simp

end
