(* ===== verification/Detector_Rules.thy ===== *)
theory Detector_Rules
  imports Unison_Reacquisition Unison_Tracker Tuner_Telemetry
begin

unbundle bit_operations_syntax

text \<open>
  The rules of the detector that need no state (\<open>src/native/src/polyphonic_pitch_detector.cpp\<close>): which
  configurations it takes, the peaks and harmonic shadows among the candidates' scores, and the bounded
  decisions on physical strings (which lane or group a sounding pitch may be shown on, which group may be
  completed or resumed). Scores and energies are arrays over the candidates, indexed by semitones above
  the lowest note; a set of strings is a mask.
\<close>

definition kScoreEpsilon :: f64 where "kScoreEpsilon = f64_rat 1 (10 ^ 15)"
definition kMinimumA4Hz :: f64 where "kMinimumA4Hz = f64_of_int 400"
definition kMaximumA4Hz :: f64 where "kMaximumA4Hz = f64_of_int 480"
definition kMinimumMidiNote :: u8 where "kMinimumMidiNote = 24"
definition kMaximumMidiNote :: u8 where "kMaximumMidiNote = 108"
definition kHarmonicFundamentalRatio :: f64 where "kHarmonicFundamentalRatio = f64_rat 70 100"
definition kHarmonicIntervals :: "int list" where "kHarmonicIntervals = [12, 19, 24, 28, 31]"
definition kM3LowerCrossHarmonicIntervals :: "int list" where "kM3LowerCrossHarmonicIntervals = [3, 4, 5, 7, 9, 16]"
definition kSingleVoiceEvidenceSeconds :: f64 where "kSingleVoiceEvidenceSeconds = f64_rat 40 1000"
definition kSpectralLaneMaximumError :: f64 where "kSpectralLaneMaximumError = f64_rat 5 100"
definition kSpectralLaneMinimumMargin :: f64 where "kSpectralLaneMinimumMargin = f64_rat 2 100"
definition kGroupContinuityCacheSeconds :: f64 where "kGroupContinuityCacheSeconds = f64_rat 50 100"
definition kGroupContinuityMinimumMargin :: f64 where "kGroupContinuityMinimumMargin = f64_rat 15 100000"
definition kM3RetainedUnisonMinimumBeatCoherence :: f64 where
  "kM3RetainedUnisonMinimumBeatCoherence = f64_rat 20 100"
definition kM3RetainedUnisonRobustWeakPairFloor :: f64 where
  "kM3RetainedUnisonRobustWeakPairFloor = f64_rat 10 100"
definition kM3SpectralTierCompletionMinimumBeatCoherence :: f64 where
  "kM3SpectralTierCompletionMinimumBeatCoherence = f64_rat 20 100"
definition kM3SpectralTierCompletionMaximumBeatCoherence :: f64 where
  "kM3SpectralTierCompletionMaximumBeatCoherence = f64_rat 35 100"
definition kM3SpectralTierCompletionMinimumMargin :: f64 where "kM3SpectralTierCompletionMinimumMargin = 0"
definition kM3SpectralTierCompletionThickestStringMinimumAddedMemberRatio :: f64 where
  "kM3SpectralTierCompletionThickestStringMinimumAddedMemberRatio = f64_rat 6 100"
definition kM3SpectralTierCompletionMinimumAddedMemberRatio :: f64 where
  "kM3SpectralTierCompletionMinimumAddedMemberRatio = f64_rat 10 100"
definition kFineFrequencyInitialConsensusSeconds :: f64 where
  "kFineFrequencyInitialConsensusSeconds = f64_rat 20 100"
definition kFineFrequencyReplacementConsensusSeconds :: f64 where
  "kFineFrequencyReplacementConsensusSeconds = f64_rat 225 100"

subsection \<open>Configuration and notes\<close>

definition detector_valid_config :: "f64 \<Rightarrow> PersistentConfig \<Rightarrow> bool" where
  "detector_valid_config rate config \<longleftrightarrow>
     is_finite rate \<and> 0 < rate \<and> is_finite (a4_hz config) \<and> kMinimumA4Hz \<le> a4_hz config
     \<and> a4_hz config \<le> kMaximumA4Hz \<and> kMinimumMidiNote \<le> lowest_note config
     \<and> lowest_note config \<le> highest_note config \<and> highest_note config \<le> kMaximumMidiNote
     \<and> 1 \<le> max_polyphony config \<and> unat (max_polyphony config) \<le> kMaxVoices \<and> max_fret config \<le> 36
     \<and> (profile_mode config = profile_m3 \<or> profile_mode config = profile_general)
     \<and> unat (highest_note config) - unat (lowest_note config) + 1 \<le> kMaxCandidates"

definition harmonic_limit :: "u8 \<Rightarrow> nat" where
  "harmonic_limit n = (if n \<le> 52 then 6 else if 76 \<le> n then 3 else 4)"

definition is_m3_open_note :: "u8 \<Rightarrow> bool" where
  "is_m3_open_note n = list_ex (\<lambda>open_note. n = open_note) kM3OpenNotes"

function string_count :: "u8 \<Rightarrow> u8" where
  "string_count w = (if w = 0 then 0 else (w AND 1) + string_count (drop_bit 1 w))"
  by pat_completeness auto
termination
proof (relation "measure unat")
  fix w :: u8
  assume "w \<noteq> 0"
  then have "0 < unat w" by (simp add: unat_gt_0)
  then show "(drop_bit 1 w, w) \<in> measure unat" by (simp only: in_measure unat_drop_bit_eq) (simp add: drop_bit_eq_div)
qed simp

declare string_count.simps [simp del]

subsection \<open>Peaks and shadows\<close>

definition is_local_peak :: "f64 list \<Rightarrow> nat \<Rightarrow> nat \<Rightarrow> bool" where
  "is_local_peak scores c count \<longleftrightarrow>
     \<not> (count \<le> c \<or> scores ! c \<le> kScoreEpsilon) \<and> \<not> (0 < c \<and> scores ! c < scores ! (c - 1))
     \<and> (count \<le> c + 1 \<or> scores ! (c + 1) < scores ! c)"

definition has_m3_candidate_evidence :: "f64 list \<Rightarrow> f64 list \<Rightarrow> nat \<Rightarrow> nat \<Rightarrow> bool" where
  "has_m3_candidate_evidence scores fundamentals c count \<longleftrightarrow>
     (if count \<le> c \<or> scores ! c \<le> kScoreEpsilon then False
      else let previous_score = (if 0 < c then scores ! (c - 1) else 0);
               next_score = (if c + 1 < count then scores ! (c + 1) else 0);
               previous_fundamental = (if 0 < c then fundamentals ! (c - 1) else 0);
               next_fundamental = (if c + 1 < count then fundamentals ! (c + 1) else 0);
               fundamental_peak = (previous_fundamental \<le> fundamentals ! c \<and> next_fundamental < fundamentals ! c);
               energy_plateau = (f64_rat 85 100 * previous_score \<le> scores ! c \<and> f64_rat 85 100 * next_score \<le> scores ! c);
               local_energy_peak = (f64_rat 105 100 * previous_score \<le> scores ! c \<and> f64_rat 105 100 * next_score \<le> scores ! c);
               missing_fundamental = (fundamentals ! c \<le> f64_rat 15 100 * scores ! c)
           in fundamental_peak \<and> energy_plateau \<or> missing_fundamental \<and> local_energy_peak
              \<or> c = 0 \<and> is_local_peak scores c count)"

definition has_direct_fundamental_peak :: "f64 list \<Rightarrow> f64 list \<Rightarrow> nat \<Rightarrow> nat \<Rightarrow> bool" where
  "has_direct_fundamental_peak scores fundamentals c count \<longleftrightarrow>
     \<not> (count \<le> c \<or> scores ! c \<le> kScoreEpsilon \<or> fundamentals ! c < f64_rat 20 100 * scores ! c)
     \<and> \<not> (0 < c \<and> fundamentals ! c < fundamentals ! (c - 1))
     \<and> (count \<le> c + 1 \<or> fundamentals ! (c + 1) < fundamentals ! c)"

definition is_m3_lower_cross_harmonic_shadow :: "nat \<Rightarrow> nat \<Rightarrow> f64 list \<Rightarrow> bool" where
  "is_m3_lower_cross_harmonic_shadow c selected fundamentals \<longleftrightarrow>
     \<not> (selected \<le> c \<or> fundamentals ! selected \<le> kScoreEpsilon)
     \<and> int selected - int c \<in> set kM3LowerCrossHarmonicIntervals
     \<and> fundamentals ! c < fundamentals ! selected * kHarmonicFundamentalRatio"

definition is_harmonic_shadow :: "nat \<Rightarrow> nat \<Rightarrow> f64 list \<Rightarrow> bool" where
  "is_harmonic_shadow c selected fundamentals \<longleftrightarrow>
     \<not> (c = selected \<or> fundamentals ! selected \<le> kScoreEpsilon)
     \<and> \<bar>int c - int selected\<bar> \<in> set kHarmonicIntervals
     \<and> fundamentals ! c < fundamentals ! selected * kHarmonicFundamentalRatio"

definition has_decisive_calibrated_shape_thresholds :: "nat \<Rightarrow> nat \<Rightarrow> f64 \<Rightarrow> f64 \<Rightarrow> f64 \<Rightarrow> f64 \<Rightarrow> bool" where
  "has_decisive_calibrated_shape_thresholds playable_count measured_count best_similarity second_similarity
     minimum_similarity minimum_margin \<longleftrightarrow>
     playable_count \<noteq> 0 \<and> measured_count = playable_count \<and> minimum_similarity \<le> best_similarity
     \<and> minimum_margin \<le> best_similarity - second_similarity"

definition has_isolated_shadow_context :: "u8 \<Rightarrow> u8 \<Rightarrow> bool \<Rightarrow> bool" where
  "has_isolated_shadow_context other_eligible other_active sole_other_is_harmonic \<longleftrightarrow>
     other_active = 0 \<and> (other_eligible = 0 \<or> other_eligible = 1 \<and> sole_other_is_harmonic)"

definition has_isolated_third_partial_context :: "nat \<Rightarrow> nat \<Rightarrow> u8 \<Rightarrow> u8 \<Rightarrow> bool \<Rightarrow> bool" where
  "has_isolated_third_partial_context c strongest_other other_eligible other_active strongest_other_decisive \<longleftrightarrow>
     other_eligible = 1 \<and> other_active = 0 \<and> c < strongest_other \<and> strongest_other - c = 19
     \<and> \<not> strongest_other_decisive"

subsection \<open>Signal evidence and resuming\<close>

definition has_minimum_signal_evidence :: "u32 \<Rightarrow> f64 \<Rightarrow> bool \<Rightarrow> bool" where
  "has_minimum_signal_evidence signal_samples rate had_active_multi_string_group \<longleftrightarrow>
     (if \<not> is_finite rate \<or> rate \<le> 0 \<or> signal_samples = 0 then False
      else had_active_multi_string_group
           \<or> rate * kSingleVoiceEvidenceSeconds \<le> f64_of_int (uint signal_samples))"

definition is_resolved_unison_resume_candidate :: "bool \<Rightarrow> u8 \<Rightarrow> bool \<Rightarrow> bool \<Rightarrow> bool \<Rightarrow> f64 \<Rightarrow> u8 \<Rightarrow> bool" where
  "is_resolved_unison_resume_candidate active owned_strings fine_valid fine_multi_source beat_connected
     minimum_coherence fine_members \<longleftrightarrow>
     (let members = string_count fine_members;
          active_committed_group = (active \<and> 2 \<le> members \<and> owned_strings = fine_members);
          recent_robust_large_group = (\<not> active \<and> 3 \<le> members \<and> members \<le> 4)
      in fine_valid \<and> fine_multi_source \<and> beat_connected
         \<and> (active_committed_group \<or> recent_robust_large_group)
         \<and> is_finite minimum_coherence \<and> kM3RetainedUnisonMinimumBeatCoherence \<le> minimum_coherence)"

definition filter_resume_selection :: "bool \<Rightarrow> bool list \<Rightarrow> bool list \<Rightarrow> nat \<Rightarrow> bool list" where
  "filter_resume_selection active_resume active_candidates selected count =
     (if \<not> active_resume then selected
      else map (\<lambda>c. if c < min count (length selected) then selected ! c \<and> active_candidates ! c else selected ! c)
             [0..<length selected])"

subsection \<open>Lanes and groups\<close>

definition bounded_spectral_lane_assignment ::
  "bool \<Rightarrow> u8 \<Rightarrow> u8 \<Rightarrow> u8 \<Rightarrow> bool \<Rightarrow> bool \<Rightarrow> bool \<Rightarrow> u8 \<Rightarrow> UnisonSpectralClassification \<Rightarrow> u8" where
  "bounded_spectral_lane_assignment active current playable other_owned polyphonic fine_valid fine_multi_source
     fine_members classification =
     (let fine_confirms_lane = (fine_valid \<and> \<not> fine_multi_source \<and> string_count fine_members = 1);
          projected = uc_member_mask classification
      in if \<not> active \<or> string_count current \<noteq> 1 \<or> \<not> polyphonic \<and> \<not> fine_confirms_lane
            \<or> \<not> uc_valid classification \<or> uc_member_count classification \<noteq> 1
            \<or> \<not> is_finite (uc_error classification) \<or> kSpectralLaneMaximumError < uc_error classification
            \<or> \<not> is_finite (uc_posterior_margin classification)
            \<or> uc_posterior_margin classification < kSpectralLaneMinimumMargin then 0
         else if string_count projected \<noteq> 1 \<or> fine_confirms_lane \<and> fine_members \<noteq> projected
            \<or> projected AND playable \<noteq> projected \<or> projected AND other_owned \<noteq> 0 then 0
         else projected)"

text \<open>The strings a sounding pitch is shown and sent on.\<close>

definition assigned_strings :: "u8 \<Rightarrow> u8 \<Rightarrow> u8" where
  "assigned_strings assigned_mask assigned =
     (if assigned_mask = 0 \<and> unat assigned < kMaxVoices then push_bit (unat assigned) 1 else assigned_mask)"

definition projected_output_string_mask :: "u8 \<Rightarrow> u8 \<Rightarrow> u8 \<Rightarrow> u8 \<Rightarrow> u8" where
  "projected_output_string_mask assigned_mask assigned spectral_lane continuity_lane =
     (let projected = assigned_strings assigned_mask assigned;
          projected = (if string_count projected = 1 \<and> spectral_lane \<noteq> 0 then spectral_lane else projected)
      in if projected \<noteq> 0 \<and> continuity_lane \<noteq> 0 \<and> \<not> outside projected continuity_lane
         then continuity_lane else projected)"

definition union_projection :: "u8 \<Rightarrow> u8 \<Rightarrow> u8 \<Rightarrow> u8" where
  "union_projection current first second =
     (if first = second then first else if first = current then second
      else if second = current then first else current)"

definition physically_bounded :: "u8 \<Rightarrow> u8 \<Rightarrow> u8 \<Rightarrow> u8 \<Rightarrow> bool" where
  "physically_bounded other_owned playable maximum_polyphony w \<longleftrightarrow>
     w \<noteq> 0 \<and> 0 < maximum_polyphony \<and> unat maximum_polyphony \<le> kMaxVoices
     \<and> \<not> outside w playable \<and> w AND other_owned = 0
     \<and> string_count (w OR other_owned) \<le> maximum_polyphony"

text \<open>The observation a group continuity is decided on.\<close>

record GroupContinuityInput =
  gi_current_assignment_mask :: u8
  gi_cached_group_mask :: u8
  gi_classification :: UnisonSpectralClassification
  gi_phase :: UnisonSpectralPhase
  gi_fine_frequency_mask :: u8
  gi_minimum_beat_coherence :: f64
  gi_profile_mask :: u8
  gi_temporal_mask :: u8
  gi_tier_projection_mask :: u8
  gi_other_owned_mask :: u8
  gi_playable_mask :: u8
  gi_maximum_polyphony :: u8
  gi_active_candidate :: bool
  gi_selected_or_coasting :: bool
  gi_direct_fundamental :: bool
  gi_quiet :: bool
  gi_cache_age_seconds :: f64

definition group_bounded :: "GroupContinuityInput \<Rightarrow> u8 \<Rightarrow> bool" where
  "group_bounded g = physically_bounded (gi_other_owned_mask g) (gi_playable_mask g) (gi_maximum_polyphony g)"

definition tier_projection :: "GroupContinuityInput \<Rightarrow> u8" where
  "tier_projection g =
     (let current = gi_current_assignment_mask g; tier = gi_tier_projection_mask g
      in if 2 \<le> string_count current \<and> tier \<noteq> current \<and> \<not> outside current tier
            \<and> 2 \<le> string_count tier \<and> string_count tier \<le> 4 \<and> group_bounded g tier
         then tier else current)"

definition continuity_cache_valid :: "GroupContinuityInput \<Rightarrow> bool" where
  "continuity_cache_valid g \<longleftrightarrow>
     3 \<le> string_count (gi_cached_group_mask g) \<and> string_count (gi_cached_group_mask g) \<le> 4
     \<and> \<not> outside (gi_current_assignment_mask g) (gi_cached_group_mask g) \<and> group_bounded g (gi_cached_group_mask g)
     \<and> is_finite (gi_cache_age_seconds g) \<and> 0 \<le> gi_cache_age_seconds g
     \<and> gi_cache_age_seconds g \<le> kGroupContinuityCacheSeconds"

text \<open>The group the classifier and the fine frequencies agree on, if it is the cached one.\<close>

definition candidate_projection :: "GroupContinuityInput \<Rightarrow> u8" where
  "candidate_projection g =
     (let current = gi_current_assignment_mask g; C = gi_classification g; fine = gi_fine_frequency_mask g;
          phase_multiplier = (if gi_phase g = spectral_onset then f64_of_int 2 else 1);
          classified_members = string_count (uc_member_mask C);
          projected =
            (if 2 \<le> string_count current \<and> string_count current \<le> 4 \<and> 2 \<le> string_count fine \<and> string_count fine \<le> 4
                \<and> uc_valid C \<and> 2 \<le> classified_members \<and> classified_members \<le> 4
                \<and> uc_member_count C = classified_members \<and> uc_member_mask C AND current = current
                \<and> is_finite (uc_posterior_margin C)
                \<and> kGroupContinuityMinimumMargin * phase_multiplier \<le> uc_posterior_margin C
             then let exact_fine = (uc_member_mask C = fine);
                      corroborated = (is_finite (gi_minimum_beat_coherence g)
                        \<and> f64_rat 20 100 \<le> gi_minimum_beat_coherence g \<and> uc_member_mask C AND fine = fine
                        \<and> (uc_member_mask C = gi_profile_mask g \<or> uc_member_mask C = gi_temporal_mask g))
                  in if (exact_fine \<or> corroborated) \<and> group_bounded g (uc_member_mask C)
                     then uc_member_mask C else current
             else current)
      in if projected \<noteq> gi_cached_group_mask g then current else projected)"

definition classifier_projection :: "GroupContinuityInput \<Rightarrow> u8" where
  "classifier_projection g =
     (let current = gi_current_assignment_mask g; cached = gi_cached_group_mask g; C = gi_classification g
      in if string_count current < string_count cached \<and> uc_valid C \<and> uc_member_mask C = cached
            \<and> uc_member_count C = string_count cached \<and> is_finite (uc_posterior_margin C)
            \<and> kGroupContinuityMinimumMargin \<le> uc_posterior_margin C
         then cached else current)"

definition bounded_group_continuity_projection :: "GroupContinuityInput \<Rightarrow> u8" where
  "bounded_group_continuity_projection g =
     (let current = gi_current_assignment_mask g
      in if gi_quiet g \<or> \<not> gi_active_candidate g \<or> \<not> gi_selected_or_coasting g \<or> \<not> gi_direct_fundamental g
            \<or> gi_phase g = spectral_unready \<or> string_count current = 0 then current
         else if \<not> continuity_cache_valid g then current
         else union_projection current (union_projection current (candidate_projection g) (tier_projection g))
                (classifier_projection g))"

end
