(* ===== verification/Detector_Groups.thy ===== *)
theory Detector_Groups
  imports Detector_Rules Float64_Sqrt
begin

unbundle bit_operations_syntax

text \<open>
  The detector's rules on groups of strings that complete one another (\<open>src/native/src/polyphonic_pitch_detector.cpp\<close>):
  the string that the spectral heads may add to a group, and what is kept of the fine-frequency evidence.
  Then the laws of all the bounded decisions: none of them takes a string that another note owns or that
  cannot play the pitch, exceeds the polyphony, or drops a string that sounds.
\<close>

subsection \<open>Completing a group\<close>

record SpectralHeadEvidence =
  sh_best_string :: "u8 list"
  sh_margin :: "f64 list"

definition qualify_head :: "u8 \<Rightarrow> SpectralHeadEvidence \<Rightarrow> nat \<Rightarrow> u8 \<Rightarrow> u8" where
  "qualify_head playable heads head qualified =
     (let s = sh_best_string heads ! head
      in if kMaxVoices \<le> unat s \<or> \<not> bit playable (unat s) \<or> \<not> is_finite (sh_margin heads ! head)
            \<or> sh_margin heads ! head < kM3SpectralTierCompletionMinimumMargin
         then qualified else qualified OR push_bit (unat s) 1)"

definition spectral_tier_completion_candidate :: "u8 \<Rightarrow> u8 \<Rightarrow> SpectralHeadEvidence \<Rightarrow> u8" where
  "spectral_tier_completion_candidate fine playable heads =
     (if string_count fine < 2 \<or> 4 \<le> string_count fine then fine
      else let qualified = fold (qualify_head playable heads) [0..<length (sh_best_string heads)] fine
           in if string_count qualified \<noteq> string_count fine + 1 then fine else qualified)"

text \<open>\<open>std::max_element\<close> of an array, and the loop that finds the lowest member of a mask.\<close>

definition max_element :: "f64 list \<Rightarrow> f64" where
  "max_element xs = fold (\<lambda>x largest. if largest < x then x else largest) (tl xs) (hd xs)"

definition lowest_member :: "u8 \<Rightarrow> nat" where
  "lowest_member w = first_index (bit w) [0..<kMaxVoices]"

definition bounded_spectral_tier_completion ::
  "bool \<Rightarrow> u8 \<Rightarrow> u8 \<Rightarrow> u8 \<Rightarrow> SpectralHeadEvidence \<Rightarrow> f64 list \<Rightarrow> f64 list \<Rightarrow> u8" where
  "bounded_spectral_tier_completion active current fine playable heads added_coherence component_energy =
     (if \<not> active \<or> current = 0 then fine
      else let qualified = spectral_tier_completion_candidate fine playable heads;
               added = qualified AND NOT fine;
               added_string = lowest_member added;
               coherence = added_coherence ! added_string;
               maximum_component = max_element component_energy;
               added_ratio = (if kScoreEpsilon < maximum_component
                 then f64_sqrt (std_max 0 (component_energy ! added_string div maximum_component)) else 0);
               minimum_ratio = (if added_string = 0 then kM3SpectralTierCompletionThickestStringMinimumAddedMemberRatio
                                else kM3SpectralTierCompletionMinimumAddedMemberRatio)
           in if qualified = fine then fine
              else if outside current fine \<and> current \<noteq> qualified then fine
              else if added = 0 \<or> added AND (added - 1) \<noteq> 0 then fine
              else if is_finite coherence \<and> kM3SpectralTierCompletionMinimumBeatCoherence \<le> coherence
                      \<and> coherence < kM3SpectralTierCompletionMaximumBeatCoherence \<and> minimum_ratio \<le> added_ratio
              then qualified else fine)"

subsection \<open>Fine-frequency evidence\<close>

text \<open>The phasor history is a ring of \<open>kFineFrequencyHistoryCapacity\<close> samples.\<close>

record FineFrequencyEvidenceState =
  ff_real :: "f64 list"
  ff_imaginary :: "f64 list"
  ff_decision_ticks :: "u32 list"
  ff_component_energy :: "f64 list"
  ff_added_member_beat_coherence :: "f64 list"
  ff_frequency_deviation_hz :: f64
  ff_minimum_pairwise_beat_coherence :: f64
  ff_pending_minimum_pairwise_beat_coherence :: f64
  ff_last_decision_tick :: u32
  ff_write_index :: u16
  ff_count :: u16
  ff_pending_count :: u16
  ff_member_mask :: u8
  ff_pending_member_mask :: u8
  ff_robust_pairwise_beat_connected :: bool
  ff_pending_robust_pairwise_beat_connected :: bool
  ff_multi_source_observed :: bool
  ff_valid :: bool

definition kFineFrequencyHistoryCapacity :: nat where "kFineFrequencyHistoryCapacity = 512"

definition FineFrequencyEvidenceState_default :: FineFrequencyEvidenceState where
  "FineFrequencyEvidenceState_default =
     \<lparr>ff_real = replicate kFineFrequencyHistoryCapacity 0, ff_imaginary = replicate kFineFrequencyHistoryCapacity 0,
      ff_decision_ticks = replicate kFineFrequencyHistoryCapacity 0, ff_component_energy = replicate kMaxVoices 0,
      ff_added_member_beat_coherence = replicate kMaxVoices 0, ff_frequency_deviation_hz = 0,
      ff_minimum_pairwise_beat_coherence = 0, ff_pending_minimum_pairwise_beat_coherence = 0,
      ff_last_decision_tick = 0, ff_write_index = 0, ff_count = 0, ff_pending_count = 0, ff_member_mask = 0,
      ff_pending_member_mask = 0, ff_robust_pairwise_beat_connected = False,
      ff_pending_robust_pairwise_beat_connected = False, ff_multi_source_observed = False, ff_valid = False\<rparr>"

definition retain_fine_frequency_history_across_gap :: "FineFrequencyEvidenceState \<Rightarrow> u16 \<Rightarrow> bool" where
  "retain_fine_frequency_history_across_gap fine established \<longleftrightarrow>
     (let members = string_count (ff_member_mask fine)
      in if \<not> ff_valid fine \<or> members < 2 \<or> 4 < members then False
         else if ff_pending_member_mask fine = ff_member_mask fine \<and> established \<le> ff_pending_count fine then True
         else if \<not> ff_multi_source_observed fine then False
         else 3 \<le> members \<and> ff_robust_pairwise_beat_connected fine
              \<and> kM3RetainedUnisonRobustWeakPairFloor \<le> ff_minimum_pairwise_beat_coherence fine)"

definition committed_fine_group_matches_assignment :: "FineFrequencyEvidenceState \<Rightarrow> bool \<Rightarrow> u8 \<Rightarrow> bool" where
  "committed_fine_group_matches_assignment fine active assigned_members \<longleftrightarrow>
     (let members = string_count (ff_member_mask fine)
      in active \<and> ff_valid fine \<and> ff_multi_source_observed fine \<and> 2 \<le> members \<and> members \<le> 4
         \<and> assigned_members = ff_member_mask fine)"

definition fine_frequency_consensus_seconds :: "u8 \<Rightarrow> u8 \<Rightarrow> u8 \<Rightarrow> f64" where
  "fine_frequency_consensus_seconds current proposed playable =
     (let current_members = string_count current; proposed_members = string_count proposed;
          playable_members = string_count playable;
          first_resolved_multi = (current_members \<le> 1 \<and> 1 < proposed_members);
          complete_expansion = (2 \<le> current_members \<and> current_members < proposed_members
             \<and> proposed = playable \<and> 2 \<le> playable_members \<and> playable_members \<le> 4)
      in if current = 0 \<or> first_resolved_multi then kFineFrequencyInitialConsensusSeconds
         else if complete_expansion then 0 else kFineFrequencyReplacementConsensusSeconds)"

subsection \<open>Laws\<close>

lemma string_count_members: "unat (string_count w) = member_count w"
proof (induction w rule: string_count.induct)
  case (1 w)
  show ?case
  proof (cases "w = 0")
    case False
    have low: "w AND 1 = 0 \<or> w AND 1 = 1" by (simp add: and_one_eq mod_2_eq_odd)
    have "member_count w \<le> 8" unfolding member_count_members members_def
      using length_filter_le [of "bit w" "[0..<kMaxVoices]"] by (simp add: kMaxVoices_def)
    then have "unat ((w AND 1) + string_count (drop_bit 1 w)) = unat (w AND 1) + unat (string_count (drop_bit 1 w))"
      using 1 [OF False] low by (subst unat_add_lem [THEN iffD1]) (auto simp: member_count.simps [of w] False split: if_splits)
    with 1 [OF False] low False show ?thesis
      by (auto simp: string_count.simps [of w] member_count.simps [of w])
  qed (simp add: string_count.simps member_count.simps)
qed

lemmas string_count_word = word_le_nat_alt word_less_nat_alt string_count_members

text \<open>A spectral lane is one string, playable, and nobody else's.\<close>

lemma spectral_lane_bounded:
  "case bounded_spectral_lane_assignment active current playable other_owned polyphonic fine_valid fine_multi
          fine_members classification of w \<Rightarrow>
     if w = 0 then True
     else member_count w = 1 \<and> \<not> outside w playable \<and> w AND other_owned = 0 \<and> w = uc_member_mask classification"
proof -
  have one: "string_count w = 1 \<longleftrightarrow> member_count w = 1" for w
    by (metis string_count_members unat_1 word_unat_eq_iff)
  have out: "w AND playable = w \<Longrightarrow> \<not> outside w playable" for w
    by (metis outside_bits bit_and_iff)
  show ?thesis by (auto simp: bounded_spectral_lane_assignment_def Let_def one out)
qed

text \<open>The projection of a group that sounds is the group itself or a bounded group that contains it.\<close>

lemma union_projection_either: "P current \<Longrightarrow> P first \<Longrightarrow> P second \<Longrightarrow> P (union_projection current first second)"
  by (auto simp: union_projection_def)

lemma group_continuity_bounded:
  "case bounded_group_continuity_projection g of w \<Rightarrow>
     if w = gi_current_assignment_mask g then True
     else \<not> outside (gi_current_assignment_mask g) w \<and> \<not> outside w (gi_playable_mask g)
       \<and> w AND gi_other_owned_mask g = 0 \<and> member_count w \<in> {2..4}
       \<and> member_count (w OR gi_other_owned_mask g) \<le> unat (gi_maximum_polyphony g)
       \<and> \<not> gi_quiet g \<and> gi_active_candidate g"
proof -
  let ?ok = "\<lambda>w. w = gi_current_assignment_mask g \<or> \<not> outside (gi_current_assignment_mask g) w
      \<and> group_bounded g w \<and> member_count w \<in> {2..4}"
  have tier: "?ok (tier_projection g)"
    by (auto simp: tier_projection_def Let_def string_count_word)
  have from_cache: "?ok w" if "continuity_cache_valid g" "w = gi_current_assignment_mask g \<or> w = gi_cached_group_mask g" for w
    using that by (auto simp: continuity_cache_valid_def string_count_word)
  have cached: "?ok (candidate_projection g)" "?ok (classifier_projection g)" if "continuity_cache_valid g"
    by (rule from_cache [OF that], simp add: candidate_projection_def classifier_projection_def Let_def)+
  let ?u = "union_projection (gi_current_assignment_mask g)
        (union_projection (gi_current_assignment_mask g) (candidate_projection g) (tier_projection g))
        (classifier_projection g)"
  have u: "?ok ?u" if "continuity_cache_valid g"
    by (rule union_projection_either [where P = ?ok] | rule tier cached [OF that] disjI1 refl)+
  have b: "bounded_group_continuity_projection g = gi_current_assignment_mask g
      \<or> bounded_group_continuity_projection g = ?u \<and> continuity_cache_valid g \<and> \<not> gi_quiet g \<and> gi_active_candidate g"
    by (simp add: bounded_group_continuity_projection_def Let_def)
  have "?ok (bounded_group_continuity_projection g)" using b u by (elim disjE) (simp_all only: simp_thms)
  moreover have "bounded_group_continuity_projection g \<noteq> gi_current_assignment_mask g
      \<Longrightarrow> \<not> gi_quiet g \<and> gi_active_candidate g"
    using b by blast
  moreover have "\<not> outside w (gi_playable_mask g) \<and> w AND gi_other_owned_mask g = 0
      \<and> member_count (w OR gi_other_owned_mask g) \<le> unat (gi_maximum_polyphony g)" if "group_bounded g w" for w
    using that by (simp add: group_bounded_def physically_bounded_def string_count_word)
  ultimately show ?thesis by auto
qed

text \<open>A completion adds exactly one string, a playable one.\<close>

lemma qualify_head_bits:
  "bit q s \<Longrightarrow> bit (qualify_head playable heads h q) s"
  "bit (qualify_head playable heads h q) s \<Longrightarrow> bit q s \<or> bit playable s"
  by (auto simp: qualify_head_def Let_def bit_simps split: if_splits)

lemma qualify_heads:
  "bit fine s \<Longrightarrow> bit (fold (qualify_head playable heads) hs fine) s"
  "bit (fold (qualify_head playable heads) hs fine) s \<Longrightarrow> bit fine s \<or> bit playable s"
  by (induction hs arbitrary: fine) (auto dest: qualify_head_bits)

lemma tier_completion_adds_one:
  "case bounded_spectral_tier_completion active current fine playable heads added_coherence energy of w \<Rightarrow>
     if w = fine then True
     else active \<and> \<not> outside fine w \<and> \<not> outside (w AND NOT fine) playable
       \<and> member_count fine \<in> {2, 3} \<and> member_count w = member_count fine + 1"
proof -
  let ?q = "spectral_tier_completion_candidate fine playable heads"
  let ?w = "bounded_spectral_tier_completion active current fine playable heads added_coherence energy"
  have w: "?w = fine \<or> ?w = ?q \<and> active"
    by (simp add: bounded_spectral_tier_completion_def Let_def)
  have q: "?q = fine \<or> \<not> outside fine ?q \<and> \<not> outside (?q AND NOT fine) playable
      \<and> member_count fine \<in> {2, 3} \<and> member_count ?q = member_count fine + 1"
  proof (cases "?q = fine")
    case False
    define r where "r = fold (qualify_head playable heads) [0..<length (sh_best_string heads)] fine"
    have r: "?q = r" "\<not> string_count fine < 2" "\<not> 4 \<le> string_count fine" "string_count r = string_count fine + 1"
      using False by (simp_all add: spectral_tier_completion_candidate_def r_def Let_def split: if_splits)
    have lo: "2 \<le> member_count fine" "member_count fine < 4" using r(2,3) by (simp_all add: string_count_word)
    have "unat (string_count fine + 1) = member_count fine + 1"
      using lo string_count_members [of fine] by (subst unat_add_lem [THEN iffD1]) auto
    then have "member_count r = member_count fine + 1" using r(4) string_count_members [of r] by simp
    moreover have "\<not> outside fine r" unfolding outside_bits r_def by (blast intro: qualify_heads(1))
    moreover have "\<not> outside (r AND NOT fine) playable"
      unfolding outside_bits by (auto simp: bit_simps r_def dest: qualify_heads(2))
    ultimately show ?thesis using lo r(1) by auto
  qed simp
  have "if v = fine then True else active \<and> \<not> outside fine v \<and> \<not> outside (v AND NOT fine) playable
      \<and> member_count fine \<in> {2, 3} \<and> member_count v = member_count fine + 1" if "v = fine \<or> v = ?q \<and> active" for v
    using that q by auto
  from this [OF w] show ?thesis by simp
qed

end
