(* ===== verification/Detector_State.thy ===== *)
theory Detector_State
  imports Detector_Groups Partial_Detuning String_Posterior Factory_Calibration String_Calibration
begin

unbundle bit_operations_syntax

text \<open>
  The members of the detector (\<open>include/m3/polyphonic_pitch_detector.hpp\<close>),
  the settings it takes while it runs, and the match of a pitch with the calibrated strings: the energy of
  the harmonics corrected for detuning and its similarity with the fingerprint of a string at a fret
  (\<open>src/polyphonic_pitch_detector.cpp\<close>). The members of the offline replay build are left out, as is the scratch
  memory of the selector, which every selection clears first.
\<close>

subsection \<open>Data\<close>

definition kHarmonicCount :: nat where "kHarmonicCount = 6"
definition kMaximumHarmonicEnergyCorrection :: f64 where "kMaximumHarmonicEnergyCorrection = f64_of_int 8"

record Cell =
  fc_cosine :: f64
  fc_sine :: f64
  fc_cosine_step :: f64
  fc_sine_step :: f64
  fc_fast_real :: f64
  fc_fast_imaginary :: f64
  fc_enabled :: bool

definition Cell_default :: Cell where
  "Cell_default = \<lparr>fc_cosine = 1, fc_sine = 0, fc_cosine_step = 1, fc_sine_step = 0,
     fc_fast_real = 0, fc_fast_imaginary = 0, fc_enabled = False\<rparr>"

record CandidateState =
  cs_attack_ticks :: u8
  cs_release_ticks :: u16
  cs_evidence_ticks :: u8
  cs_evidence_gap_ticks :: u8
  cs_age_ticks :: u16
  cs_active :: bool
  cs_assigned_string :: u8
  cs_assigned_string_mask :: u8
  cs_unison_evidence_ticks :: u8
  cs_unison_gap_ticks :: u16
  cs_committed_unison_confirmed_ticks :: u16
  cs_pending_unison_mask :: u8
  cs_midi_voice_mask :: u8
  cs_emitted_note :: u8
  cs_calibrated_output_target :: u8
  cs_calibrated_output_ticks :: u8
  cs_retained_cents_q8 :: u16
  cs_retained_confidence_q15 :: u16
  cs_retained_cents_valid :: bool
  cs_polyphonic_context :: bool
  cs_calibrated_lane_committed :: bool
  cs_spectral_lane_mask :: u8
  cs_continuity_lane_mask :: u8
  cs_continuity_cached_group_mask :: u8
  cs_continuity_cached_group_tick :: u32
  cs_continuity_cached_note :: u8
  cs_latest_unison_proposal_mask :: u8
  cs_latest_unison_proposal_temporal :: bool

definition CandidateState_default :: CandidateState where
  "CandidateState_default =
     \<lparr>cs_attack_ticks = 0, cs_release_ticks = 0, cs_evidence_ticks = 0, cs_evidence_gap_ticks = 0,
      cs_age_ticks = 0, cs_active = False, cs_assigned_string = kUnassignedTunerString,
      cs_assigned_string_mask = 0, cs_unison_evidence_ticks = 0, cs_unison_gap_ticks = 0,
      cs_committed_unison_confirmed_ticks = 0, cs_pending_unison_mask = 0, cs_midi_voice_mask = 0,
      cs_emitted_note = kTunerNoSignalNote, cs_calibrated_output_target = kTunerNoSignalNote,
      cs_calibrated_output_ticks = 0, cs_retained_cents_q8 = 0, cs_retained_confidence_q15 = 0,
      cs_retained_cents_valid = False, cs_polyphonic_context = False, cs_calibrated_lane_committed = False,
      cs_spectral_lane_mask = 0, cs_continuity_lane_mask = 0, cs_continuity_cached_group_mask = 0,
      cs_continuity_cached_group_tick = 0, cs_continuity_cached_note = kTunerNoSignalNote,
      cs_latest_unison_proposal_mask = 0, cs_latest_unison_proposal_temporal = False\<rparr>"

record PhaseCentsState =
  ph_filtered_real :: f64
  ph_filtered_imaginary :: f64
  ph_filtered_twice_real :: f64
  ph_filtered_twice_imaginary :: f64
  ph_previous_real :: f64
  ph_previous_imaginary :: f64
  ph_frequency_offset :: f64
  ph_cents :: f64
  ph_accepted_updates :: u16
  ph_has_previous :: bool
  ph_valid :: bool
  ph_output_projection_valid :: bool

definition PhaseCentsState_default :: PhaseCentsState where
  "PhaseCentsState_default =
     \<lparr>ph_filtered_real = 0, ph_filtered_imaginary = 0, ph_filtered_twice_real = 0, ph_filtered_twice_imaginary = 0,
      ph_previous_real = 0, ph_previous_imaginary = 0, ph_frequency_offset = 0, ph_cents = 0,
      ph_accepted_updates = 0, ph_has_previous = False, ph_valid = False, ph_output_projection_valid = False\<rparr>"

record BeatEvidenceState =
  bt_envelope_mean :: f64
  bt_absolute_deviation :: f64
  bt_beat_hz :: f64
  bt_decisions_since_crossing :: u32
  bt_accepted_cycles :: u16
  bt_initialized :: bool
  bt_below_gate :: bool
  bt_valid :: bool

definition BeatEvidenceState_default :: BeatEvidenceState where
  "BeatEvidenceState_default =
     \<lparr>bt_envelope_mean = 0, bt_absolute_deviation = 0, bt_beat_hz = 0, bt_decisions_since_crossing = 0,
      bt_accepted_cycles = 0, bt_initialized = False, bt_below_gate = False, bt_valid = False\<rparr>"

record FineFrequencyUniformGramCache =
  gc_normalized_gram :: "(f64 \<times> f64) list list"
  gc_offsets :: "f64 list"
  gc_sample_count :: u16
  gc_tick_step :: u32
  gc_component_count :: u8
  gc_valid :: bool

definition FineFrequencyUniformGramCache_default :: FineFrequencyUniformGramCache where
  "FineFrequencyUniformGramCache_default =
     \<lparr>gc_normalized_gram = replicate kMaxVoices (replicate kMaxVoices (0, 0)), gc_offsets = replicate kMaxVoices 0,
      gc_sample_count = 0, gc_tick_step = 0, gc_component_count = 0, gc_valid = False\<rparr>"

record SpectralLaneState =
  sl_tracker :: UnisonSpectralCorridorTracker
  sl_candidate_index :: u8
  sl_midi_note :: u8
  sl_tracking :: bool

definition SpectralLaneState_default :: SpectralLaneState where
  "SpectralLaneState_default =
     \<lparr>sl_tracker = UnisonSpectralCorridorTracker_default, sl_candidate_index = 255,
      sl_midi_note = kTunerNoSignalNote, sl_tracking = False\<rparr>"

text \<open>The trackers of group continuity are the same structure.\<close>

type_synonym GroupContinuityTrackerState = SpectralLaneState

definition kMaximumGroupContinuityTrackers :: nat where "kMaximumGroupContinuityTrackers = 12"

text \<open>
  The detector: first what the signal path keeps from sample to sample, then what the decisions keep.
\<close>

record DetectorSignal =
  dk_cells :: "Cell list"
  dk_lower_cents_guard_cells :: "Cell list"
  dk_upper_cents_guard_cells :: "Cell list"
  dk_narrow_fundamental_real :: "f64 list"
  dk_narrow_fundamental_imaginary :: "f64 list"
  dk_spectral_lane_states :: "SpectralLaneState list"
  dk_spectral_lane_decimation_sum :: f64
  dk_spectral_lane_decimation_count :: u8
  dk_spectral_lane_decimation :: u8
  dk_group_continuity_trackers :: "GroupContinuityTrackerState list"
  dk_group_continuity_decimation_sum :: f64
  dk_group_continuity_decimation_count :: u8
  dk_dc_pole :: f64
  dk_narrow_correlation_decay :: f64
  dk_harmonic_memory_decay :: f64
  dk_long_harmonic_memory_decay :: f64
  dk_slow_energy_decay :: f64
  dk_previous_input :: f64
  dk_previous_dc_output :: f64
  dk_decision_phase :: u32
  dk_signal_samples :: u32
  dk_narrow_signal_samples :: u32
  dk_signal_present :: bool

record Detector = DetectorSignal +
  dk_candidate_states :: "CandidateState list"
  dk_playable_string_masks :: "u8 list"
  dk_harmonic_energy_memory :: "f64 list list"
  dk_long_harmonic_energy_memory :: "f64 list list"
  dk_harmonic_memory_updates :: "u16 list"
  dk_phase_cents_states :: "PhaseCentsState list"
  dk_partial_detuning_trackers :: "PartialDetuningTracker list"
  dk_partial_detuning_last_update_ticks :: "u32 list"
  dk_partial_detuning_cursor :: nat
  dk_beat_evidence_states :: "BeatEvidenceState list"
  dk_fine_frequency_evidence_states :: "FineFrequencyEvidenceState list"
  dk_fine_frequency_uniform_gram_cache :: "FineFrequencyUniformGramCache list"
  dk_string_fret_posteriors :: StringFretPosteriorBank
  dk_string_fret_energy_memory :: "f64 list"
  dk_selector_group_masks :: "u8 list"
  dk_calibrator :: StringSweepCalibrator
  dk_sample_rate :: f64
  dk_correlation_decay :: f64
  dk_fast_energy :: f64
  dk_slow_energy :: f64
  dk_previous_decision_energy :: f64
  dk_signal_floor :: f64
  dk_calibration_tuning_offset_cents :: f64
  dk_calibration_tuning_lane_cents :: "f64 list"
  dk_pending_calibration_tuning_lane_cents :: "f64 list"
  dk_pending_calibration_tuning_lane_observations :: "u16 list"
  dk_transition_sequence :: u32
  dk_lowest_note :: u8
  dk_candidate_count :: u8
  dk_max_polyphony :: u8
  dk_max_fret :: u8
  dk_sensitivity :: u8
  dk_response :: u8
  dk_unison_dropout_decisions :: u16
  dk_fine_frequency_decimation_decisions :: u16
  dk_calibration_tuning_evidence :: u16
  dk_calibration_tuning_lane_mask :: u8
  dk_fixed_velocity :: u8
  dk_velocity_mode :: VelocityMode
  dk_midi_routing :: MidiRouting
  dk_snapshot_generation :: u32
  dk_decision_counter :: u32
  dk_profile_mode :: ProfileMode
  dk_configured :: bool

text \<open>A detector as it is constructed.\<close>

definition Detector_default :: Detector where
  "Detector_default =
     \<lparr>dk_cells = replicate (kMaxCandidates * kHarmonicCount) Cell_default,
      dk_lower_cents_guard_cells = replicate kHarmonicCount Cell_default,
      dk_upper_cents_guard_cells = replicate kHarmonicCount Cell_default,
      dk_narrow_fundamental_real = replicate kMaxCandidates 0, dk_narrow_fundamental_imaginary = replicate kMaxCandidates 0,
      dk_spectral_lane_states = replicate kMaxVoices SpectralLaneState_default, dk_spectral_lane_decimation_sum = 0,
      dk_spectral_lane_decimation_count = 0, dk_spectral_lane_decimation = 1,
      dk_group_continuity_trackers = replicate kMaximumGroupContinuityTrackers SpectralLaneState_default,
      dk_group_continuity_decimation_sum = 0, dk_group_continuity_decimation_count = 0,
      dk_dc_pole = 0, dk_narrow_correlation_decay = 0, dk_harmonic_memory_decay = 0, dk_long_harmonic_memory_decay = 0,
      dk_slow_energy_decay = 0, dk_previous_input = 0, dk_previous_dc_output = 0, dk_decision_phase = 0,
      dk_signal_samples = 0, dk_narrow_signal_samples = 0, dk_signal_present = False,
      dk_candidate_states = replicate kMaxCandidates CandidateState_default,
      dk_playable_string_masks = replicate kMaxCandidates 0,
      dk_harmonic_energy_memory = replicate kMaxCandidates (replicate kHarmonicCount 0),
      dk_long_harmonic_energy_memory = replicate kMaxCandidates (replicate kHarmonicCount 0),
      dk_harmonic_memory_updates = replicate kMaxCandidates 0,
      dk_phase_cents_states = replicate kMaxCandidates PhaseCentsState_default,
      dk_partial_detuning_trackers = replicate kMaxCandidates PartialDetuningTracker_default,
      dk_partial_detuning_last_update_ticks = replicate kMaxCandidates 0, dk_partial_detuning_cursor = 0,
      dk_beat_evidence_states = replicate kMaxCandidates BeatEvidenceState_default,
      dk_fine_frequency_evidence_states = replicate kMaxCandidates FineFrequencyEvidenceState_default,
      dk_fine_frequency_uniform_gram_cache = replicate kMaxCandidates FineFrequencyUniformGramCache_default,
      dk_string_fret_posteriors = StringFretPosteriorBank_default, dk_string_fret_energy_memory = replicate kMaxCandidates 0,
      dk_selector_group_masks = replicate kMaxCandidates 0,
      dk_calibrator = StringSweepCalibrator_default, dk_sample_rate = 0, dk_correlation_decay = 0,
      dk_fast_energy = 0, dk_slow_energy = 0, dk_previous_decision_energy = 0, dk_signal_floor = 0,
      dk_calibration_tuning_offset_cents = 0, dk_calibration_tuning_lane_cents = replicate kMaxVoices 0,
      dk_pending_calibration_tuning_lane_cents = replicate kMaxVoices 0,
      dk_pending_calibration_tuning_lane_observations = replicate kMaxVoices 0, dk_transition_sequence = 0,
      dk_lowest_note = 0, dk_candidate_count = 0, dk_max_polyphony = 1, dk_max_fret = 24, dk_sensitivity = 50,
      dk_response = 25, dk_unison_dropout_decisions = 1, dk_fine_frequency_decimation_decisions = 1,
      dk_calibration_tuning_evidence = 0, dk_calibration_tuning_lane_mask = 0, dk_fixed_velocity = 100,
      dk_velocity_mode = velocity_dynamic, dk_midi_routing = routing_single, dk_snapshot_generation = 0,
      dk_decision_counter = 0, dk_profile_mode = profile_m3, dk_configured = False\<rparr>"

text \<open>The functions of the mathematics library that the detector calls here; the last is \<open>pow(10, x)\<close>.\<close>

record DetectorMath =
  dm_expm1 :: "f64 \<Rightarrow> f64"
  dm_atan2 :: "f64 \<Rightarrow> f64 \<Rightarrow> f64"
  dm_cos :: "f64 \<Rightarrow> f64"
  dm_log10 :: "f64 \<Rightarrow> f64"
  dm_pow10 :: "f64 \<Rightarrow> f64"
  dm_exp :: "f64 \<Rightarrow> f64"
  dm_log :: "f64 \<Rightarrow> f64"

subsection \<open>Candidates\<close>

definition candidate_state :: "Detector \<Rightarrow> nat \<Rightarrow> CandidateState" where
  "candidate_state D c = dk_candidate_states D ! c"

definition update_state :: "nat \<Rightarrow> (CandidateState \<Rightarrow> CandidateState) \<Rightarrow> Detector \<Rightarrow> Detector" where
  "update_state c f D = D\<lparr>dk_candidate_states := (dk_candidate_states D)[c := f (dk_candidate_states D ! c)]\<rparr>"

definition dk_count :: "Detector \<Rightarrow> nat" where "dk_count D = unat (dk_candidate_count D)"

definition candidate_note :: "Detector \<Rightarrow> nat \<Rightarrow> u8" where
  "candidate_note D c = dk_lowest_note D + of_nat c"

definition dk_bank :: "Detector \<Rightarrow> StringCalibrationBank" where "dk_bank D = sc_bank (dk_calibrator D)"

definition fret_point :: "Detector \<Rightarrow> u8 \<Rightarrow> nat \<Rightarrow> StringCalibrationPoint option" where
  "fret_point D n s =
     (if n < kM3OpenNotes ! s then None else usable_point (dk_bank D) s (unat n - unat (kM3OpenNotes ! s)))"

subsection \<open>Running settings\<close>

definition playable_strings :: "u8 \<Rightarrow> u8 \<Rightarrow> u8" where
  "playable_strings maximum_fret n =
     fold (\<lambda>s w. if kM3OpenNotes ! s \<le> n \<and> unat n \<le> unat (kM3OpenNotes ! s) + unat maximum_fret
                  then w OR push_bit s 1 else w) [0..<length kM3OpenNotes] 0"

definition refresh_m3_playable_string_masks :: "Detector \<Rightarrow> Detector" where
  "refresh_m3_playable_string_masks D =
     D\<lparr>dk_playable_string_masks :=
         (if dk_profile_mode D \<noteq> profile_m3 then replicate kMaxCandidates 0
          else map (\<lambda>c. if c < dk_count D then playable_strings (dk_max_fret D) (candidate_note D c) else 0)
                 [0..<kMaxCandidates])\<rparr>"

definition playable_string_mask :: "Detector \<Rightarrow> nat \<Rightarrow> u8" where
  "playable_string_mask D c =
     (if dk_profile_mode D \<noteq> profile_m3 \<or> dk_count D \<le> c then 0 else dk_playable_string_masks D ! c)"

definition invalidate_fine_frequency_uniform_gram_cache :: "Detector \<Rightarrow> Detector" where
  "invalidate_fine_frequency_uniform_gram_cache D =
     D\<lparr>dk_fine_frequency_uniform_gram_cache := replicate kMaxCandidates FineFrequencyUniformGramCache_default\<rparr>"

definition set_runtime_config :: "DetectorMath \<Rightarrow> PersistentConfig \<Rightarrow> Detector \<Rightarrow> Detector" where
  "set_runtime_config M config D =
     (let previous_max_fret = dk_max_fret D;
          sens = std_min (sensitivity config) 100;
          energy_db = f64_of_int (-70) + f64_rat 20 100 * f64_of_int (uint (100 - sens));
          D = refresh_m3_playable_string_masks
                (D\<lparr>dk_midi_routing := midi_routing config, dk_profile_mode := profile_mode config,
                   dk_sensitivity := sens, dk_signal_floor := dm_pow10 M (energy_db div f64_of_int 10),
                   dk_response := std_min (response config) 100,
                   dk_fixed_velocity := std_clamp (fixed_velocity config) 1 127,
                   dk_velocity_mode := velocity_mode config,
                   dk_max_polyphony := std_clamp (max_polyphony config) 1 (of_nat kMaxVoices),
                   dk_max_fret := std_min (max_fret config) 36\<rparr>)
      in if dk_configured D \<and> dk_max_fret D \<noteq> previous_max_fret
         then invalidate_fine_frequency_uniform_gram_cache D else D)"

text \<open>
  How the detector compares a pitch with the calibrated strings (\<open>src/native/src/polyphonic_pitch_detector.cpp\<close>): the
  energy of a harmonic corrected for the detuning of the string, the similarity of the harmonics with a
  learned fingerprint, and the tests on the two best similarities.
\<close>

definition kM3CalibratedCandidateThresholdRatio :: f64 where "kM3CalibratedCandidateThresholdRatio = f64_rat 25 100"
definition kM3CalibratedHighestOpenThresholdRatio :: f64 where "kM3CalibratedHighestOpenThresholdRatio = f64_rat 8 100"
definition kM3CalibratedCandidateMinimumSimilarity :: f64 where
  "kM3CalibratedCandidateMinimumSimilarity = f64_rat 97 100"
definition kM3CalibratedCandidateMinimumAdvantage :: f64 where
  "kM3CalibratedCandidateMinimumAdvantage = f64_rat 15 1000"
definition kM3CalibratedHighestOpenMinimumSimilarity :: f64 where
  "kM3CalibratedHighestOpenMinimumSimilarity = f64_rat 99 100"
definition kM3IsolatedLowerOctaveMinimumSimilarity :: f64 where
  "kM3IsolatedLowerOctaveMinimumSimilarity = f64_rat 96 100"
definition kM3IsolatedLowerOctaveMinimumMargin :: f64 where "kM3IsolatedLowerOctaveMinimumMargin = f64_rat 50 100"

subsection \<open>Harmonic energies\<close>

definition cell_at :: "Detector \<Rightarrow> nat \<Rightarrow> nat \<Rightarrow> Cell" where
  "cell_at D c harmonic = dk_cells D ! (c * kHarmonicCount + harmonic)"

definition cell_energy :: "Cell \<Rightarrow> f64" where
  "cell_energy cell = fc_fast_real cell * fc_fast_real cell + fc_fast_imaginary cell * fc_fast_imaginary cell"

definition harmonic_energy_at_cents :: "DetectorMath \<Rightarrow> Detector \<Rightarrow> nat \<Rightarrow> nat \<Rightarrow> f64 \<Rightarrow> f64" where
  "harmonic_energy_at_cents M D c harmonic cents =
     (if dk_count D \<le> c \<or> kHarmonicCount \<le> harmonic \<or> \<not> is_finite cents then 0
      else let cell = cell_at D c harmonic; raw = cell_energy cell
           in if \<not> fc_enabled cell then 0
              else if raw \<le> kScoreEpsilon then raw
              else let fractional_offset = dm_expm1 M (kNaturalLogTwo * cents div f64_of_int 1200);
                       center_radians = dm_atan2 M (fc_sine_step cell) (fc_cosine_step cell);
                       delta = center_radians * fractional_offset;
                       one_minus_decay = 1 - dk_correlation_decay D;
                       base = one_minus_decay * one_minus_decay;
                       factor = 1 + f64_of_int 2 * dk_correlation_decay D * (1 - dm_cos M delta) div base
                   in if base \<le> 0 then raw
                      else raw * std_clamp factor 1 kMaximumHarmonicEnergyCorrection)"

definition corrected_harmonic_energy :: "DetectorMath \<Rightarrow> Detector \<Rightarrow> nat \<Rightarrow> nat \<Rightarrow> f64" where
  "corrected_harmonic_energy M D c harmonic =
     (if dk_count D \<le> c \<or> kHarmonicCount \<le> harmonic then 0
      else let cell = cell_at D c harmonic; raw = cell_energy cell; phase = dk_phase_cents_states D ! c
           in if \<not> fc_enabled cell then 0
              else if \<not> ph_valid phase \<or> raw \<le> kScoreEpsilon then raw
              else harmonic_energy_at_cents M D c harmonic (ph_cents phase))"

definition profile_harmonic_energy :: "DetectorMath \<Rightarrow> Detector \<Rightarrow> nat \<Rightarrow> nat \<Rightarrow> f64" where
  "profile_harmonic_energy M D c harmonic =
     (let selector_energy = corrected_harmonic_energy M D c harmonic
      in if dk_count D \<le> c \<or> kHarmonicCount \<le> harmonic \<or> \<not> ph_valid (dk_phase_cents_states D ! c)
         then selector_energy
         else let detuning = partial_evidence (dk_partial_detuning_trackers D ! c)
              in if \<not> bit (pe_valid_mask detuning) harmonic then selector_energy
                 else harmonic_energy_at_cents M D c harmonic
                        (ph_cents (dk_phase_cents_states D ! c) + pe_residual_cents detuning ! harmonic))"

subsection \<open>Similarity with a fingerprint\<close>

definition sum_over :: "nat \<Rightarrow> (nat \<Rightarrow> f64) \<Rightarrow> f64" where
  "sum_over n f = fold (\<lambda>i t. t + f i) [0..<n] 0"

text \<open>A quality and a repeatability temper the similarity with a learned point.\<close>

definition quality_weight :: "StringCalibrationPoint \<Rightarrow> f64" where
  "quality_weight p = (if cp_quality p = quality_measured then 1 else f64_rat 55 100)"

definition confidence_weight :: "StringCalibrationPoint \<Rightarrow> f64" where
  "confidence_weight p = f64_rat 75 100 + f64_rat 25 100 * (f64_of_int (uint (cp_confidence_q15 p)) div f64_of_int 32767)"

definition learned_harmonic :: "StringCalibrationPoint \<Rightarrow> nat \<Rightarrow> f64" where
  "learned_harmonic p harmonic = f64_of_int (uint (cp_harmonic_profile_q15 p ! harmonic)) div f64_of_int 32767"

definition calibration_similarity :: "DetectorMath \<Rightarrow> Detector \<Rightarrow> nat \<Rightarrow> nat \<Rightarrow> f64" where
  "calibration_similarity M D c s =
     (if dk_count D \<le> c \<or> length kM3OpenNotes \<le> s then 0
      else case fret_point D (candidate_note D c) s of
             None \<Rightarrow> 0
           | Some p \<Rightarrow>
               let current = map (corrected_harmonic_energy M D c) [0..<kCalibrationHarmonicCount];
                   t = sum_over kCalibrationHarmonicCount (\<lambda>h. current ! h);
                   observed = (\<lambda>h. current ! h div t);
                   dot = sum_over kCalibrationHarmonicCount (\<lambda>h. observed h * learned_harmonic p h);
                   current_norm = sum_over kCalibrationHarmonicCount (\<lambda>h. observed h * observed h);
                   learned_norm = sum_over kCalibrationHarmonicCount (\<lambda>h. learned_harmonic p h * learned_harmonic p h);
                   denominator = f64_sqrt (current_norm * learned_norm)
               in if t \<le> kScoreEpsilon \<or> denominator \<le> kScoreEpsilon then 0
                  else std_clamp (dot div denominator) 0 1 * quality_weight p * confidence_weight p)"

subsection \<open>The best and the second string\<close>

record ShapeScan =
  sn_best :: f64
  sn_second :: f64
  sn_playable_count :: nat
  sn_measured_count :: nat

definition take_similarity :: "f64 \<Rightarrow> ShapeScan \<Rightarrow> ShapeScan" where
  "take_similarity similarity scan =
     (if sn_best scan < similarity then scan\<lparr>sn_second := sn_best scan, sn_best := similarity\<rparr>
      else if sn_second scan < similarity then scan\<lparr>sn_second := similarity\<rparr> else scan)"

definition scan_string :: "DetectorMath \<Rightarrow> Detector \<Rightarrow> nat \<Rightarrow> nat \<Rightarrow> ShapeScan \<Rightarrow> ShapeScan" where
  "scan_string M D c s scan =
     (if \<not> bit (playable_string_mask D c) s then scan
      else let scan = scan\<lparr>sn_playable_count := sn_playable_count scan + 1\<rparr>
           in case fret_point D (candidate_note D c) s of
                None \<Rightarrow> scan
              | Some p \<Rightarrow> take_similarity (calibration_similarity M D c s)
                            (scan\<lparr>sn_measured_count := sn_measured_count scan + 1\<rparr>))"

definition scan_strings :: "DetectorMath \<Rightarrow> Detector \<Rightarrow> nat \<Rightarrow> ShapeScan" where
  "scan_strings M D c =
     fold (scan_string M D c) [0..<length kM3OpenNotes]
       \<lparr>sn_best = f64_of_int (-1), sn_second = f64_of_int (-1), sn_playable_count = 0, sn_measured_count = 0\<rparr>"

definition has_calibrated_shape_thresholds :: "DetectorMath \<Rightarrow> Detector \<Rightarrow> nat \<Rightarrow> nat \<Rightarrow> f64 \<Rightarrow> f64 \<Rightarrow> bool" where
  "has_calibrated_shape_thresholds M D c count minimum_similarity minimum_margin \<longleftrightarrow>
     (if count \<le> c \<or> cb_calibrated_string_mask (dk_bank D) = 0 then False
      else let scan = scan_strings M D c
           in has_decisive_calibrated_shape_thresholds (sn_playable_count scan) (sn_measured_count scan)
                (sn_best scan) (sn_second scan) minimum_similarity minimum_margin)"

definition has_decisive_calibrated_shape :: "DetectorMath \<Rightarrow> Detector \<Rightarrow> nat \<Rightarrow> nat \<Rightarrow> bool" where
  "has_decisive_calibrated_shape M D c count \<longleftrightarrow>
     has_calibrated_shape_thresholds M D c count kM3IsolatedLowerOctaveMinimumSimilarity
       kM3IsolatedLowerOctaveMinimumMargin"

definition highest_open_similarity :: "DetectorMath \<Rightarrow> Detector \<Rightarrow> nat \<Rightarrow> f64" where
  "highest_open_similarity M D c =
     (let s = length kM3OpenNotes - 1
      in if bit (playable_string_mask D c) s \<and> fret_point D (candidate_note D c) s \<noteq> None
         then calibration_similarity M D c s else f64_of_int (-1))"

definition has_calibrated_direct_support ::
  "DetectorMath \<Rightarrow> Detector \<Rightarrow> f64 list \<Rightarrow> f64 list \<Rightarrow> nat \<Rightarrow> nat \<Rightarrow> f64 \<Rightarrow> bool" where
  "has_calibrated_direct_support M D scores fundamentals c count threshold \<longleftrightarrow>
     (if count \<le> c \<or> cb_calibrated_string_mask (dk_bank D) = 0 then False
      else let n = candidate_note D c;
               threshold_ratio = (if n = last kM3OpenNotes then kM3CalibratedHighestOpenThresholdRatio
                                  else kM3CalibratedCandidateThresholdRatio);
               scan = scan_strings M D c;
               bounded_complete_shape = (sn_playable_count scan = 2
                 \<or> n = last kM3OpenNotes \<and> sn_playable_count scan = length kM3OpenNotes - 1)
           in if scores ! c \<le> threshold * threshold_ratio \<or> fundamentals ! c < f64_rat 85 100 * scores ! c
                 \<or> \<not> has_direct_fundamental_peak scores fundamentals c count then False
              else if n < last kM3OpenNotes then False
              else if \<not> bounded_complete_shape \<or> sn_measured_count scan \<noteq> sn_playable_count scan then False
              else if n = last kM3OpenNotes
              then kM3CalibratedHighestOpenMinimumSimilarity \<le> highest_open_similarity M D c
              else kM3CalibratedCandidateMinimumSimilarity \<le> sn_best scan
                   \<and> kM3CalibratedCandidateMinimumAdvantage \<le> sn_best scan - sn_second scan)"

end
