(* ===== verification/Detector_Voices.thy ===== *)
theory Detector_Voices
  imports Detector_State
begin

unbundle bit_operations_syntax

text \<open>
  The note lifecycle of the detector (\<open>src/native/src/polyphonic_pitch_detector.cpp\<close>): how a decision turns the
  candidates that were selected into note-ons and note-offs. First the transitions themselves and the note
  a candidate is heard at (which calibration may move to an adjacent fret), then the times of attack and
  release and the hand-over to a neighbour, then the three loops of \<open>make_decision\<close>: evidence, release,
  attack. A decision under construction is the list of its transitions with the detector.
\<close>

definition kAttackReferenceSampleRate :: f64 where "kAttackReferenceSampleRate = f64_of_int 48000"
definition kMinimumReleaseSeconds :: f64 where "kMinimumReleaseSeconds = f64_rat 50 1000"
definition kMaximumReleaseSeconds :: f64 where "kMaximumReleaseSeconds = f64_rat 220 1000"
definition kMultiVoiceEvidenceSeconds :: f64 where "kMultiVoiceEvidenceSeconds = f64_rat 50 1000"
definition kMinimumBeatHz :: f64 where "kMinimumBeatHz = f64_rat 25 100"
definition kMaximumBeatHz :: f64 where "kMaximumBeatHz = f64_of_int 12"
definition kMinimumBeatAwareHoldSeconds :: f64 where "kMinimumBeatAwareHoldSeconds = f64_rat 750 1000"
definition kMaximumBeatAwareHoldSeconds :: f64 where "kMaximumBeatAwareHoldSeconds = f64_of_int 3"
definition kBeatCyclesToHold :: f64 where "kBeatCyclesToHold = f64_rat 15 10"
definition kAttackEnergyRatio :: f64 where "kAttackEnergyRatio = f64_rat 95 100"
definition kM3CalibratedOutputMinimumAgeSeconds :: f64 where "kM3CalibratedOutputMinimumAgeSeconds = f64_rat 50 1000"
definition kM3CalibratedOutputMinimumImprovementCents :: f64 where
  "kM3CalibratedOutputMinimumImprovementCents = f64_of_int 50"
definition kM3CalibratedOutputMaximumProjectedErrorCents :: f64 where
  "kM3CalibratedOutputMaximumProjectedErrorCents = f64_of_int 15"
definition kM3CalibratedOutputConsensusDecisions :: u8 where "kM3CalibratedOutputConsensusDecisions = 2"
definition kM3AdjacentHandoffOnsetSeconds :: f64 where "kM3AdjacentHandoffOnsetSeconds = f64_rat 100 1000"
definition kCandidateEvidenceDropoutDecisions :: u8 where "kCandidateEvidenceDropoutDecisions = 2"
definition kCandidateMigrationSemitones :: nat where "kCandidateMigrationSemitones = 2"

type_synonym emission = "VoiceTransition list \<times> Detector"

subsection \<open>Velocities and times\<close>

definition dynamic_velocity :: "DetectorMath \<Rightarrow> Detector \<Rightarrow> u8" where
  "dynamic_velocity M D =
     (if dk_velocity_mode D = velocity_fixed then dk_fixed_velocity D
      else let amplitude = f64_sqrt (std_max 0 (dk_fast_energy D));
               db = f64_of_int 20 * dm_log10 M (std_max amplitude (f64_rat 1 (10 ^ 12)));
               fraction = std_clamp ((db + f64_of_int 60) div f64_of_int 54) 0 1
           in word_of_int (f64_lround (1 + fraction * f64_of_int 126)))"

text \<open>A time in decisions, at least one and at most the largest count of its type.\<close>

definition decisions_in :: "f64 \<Rightarrow> f64 \<Rightarrow> int \<Rightarrow> int" where
  "decisions_in seconds rate limit =
     f64_trunc (std_clamp (std_ceil (seconds * rate div f64_of_int (int kDecisionQuantum))) 1 (f64_of_int limit))"

definition attack_decisions :: "Detector \<Rightarrow> u8" where
  "attack_decisions D =
     (let reference_decisions = f64_of_int (2 + uint (dk_response D) div 20);
          seconds = reference_decisions * f64_of_int (int kDecisionQuantum) div kAttackReferenceSampleRate
      in word_of_int (decisions_in seconds (dk_sample_rate D) (2 ^ 8 - 1)))"

definition release_decisions :: "Detector \<Rightarrow> u16" where
  "release_decisions D =
     (let fraction = f64_of_int (uint (dk_response D)) div f64_of_int 100;
          seconds = kMinimumReleaseSeconds + fraction * (kMaximumReleaseSeconds - kMinimumReleaseSeconds)
      in word_of_int (decisions_in seconds (dk_sample_rate D) (2 ^ 16 - 1)))"

definition unison_dropout_decisions :: "Detector \<Rightarrow> nat \<Rightarrow> u16" where
  "unison_dropout_decisions D c =
     (if dk_count D \<le> c then dk_unison_dropout_decisions D
      else let beat = dk_beat_evidence_states D ! c
           in if \<not> bt_valid beat \<or> bt_beat_hz beat < kMinimumBeatHz \<or> kMaximumBeatHz < bt_beat_hz beat
              then dk_unison_dropout_decisions D
              else let hold_seconds = std_clamp (kBeatCyclesToHold div bt_beat_hz beat)
                         kMinimumBeatAwareHoldSeconds kMaximumBeatAwareHoldSeconds
                   in std_max (dk_unison_dropout_decisions D)
                        (word_of_int (decisions_in hold_seconds (dk_sample_rate D) (2 ^ 16 - 1))))"

definition candidate_release_decisions :: "Detector \<Rightarrow> nat \<Rightarrow> bool \<Rightarrow> u16" where
  "candidate_release_decisions D c quiet =
     (let ordinary = release_decisions D
      in if quiet \<or> dk_profile_mode D \<noteq> profile_m3 \<or> dk_count D \<le> c then ordinary
         else let ms = cs_assigned_string_mask (candidate_state D c)
              in if ms \<noteq> 0 \<and> ms AND (ms - 1) \<noteq> 0 then std_max ordinary (unison_dropout_decisions D c)
                 else ordinary)"

definition candidate_evidence_decisions :: "Detector \<Rightarrow> bool \<Rightarrow> u8" where
  "candidate_evidence_decisions D multi_voice =
     word_of_int (decisions_in (if multi_voice then kMultiVoiceEvidenceSeconds else kSingleVoiceEvidenceSeconds)
       (dk_sample_rate D) (2 ^ 8 - 1))"

subsection \<open>Transitions\<close>

definition append_transition :: "TransitionKind \<Rightarrow> u8 \<Rightarrow> u8 \<Rightarrow> u8 \<Rightarrow> emission \<Rightarrow> emission" where
  "append_transition kind n velocity voice_id E =
     (case E of (ts, D) \<Rightarrow>
        (snd (fixed_vector_push_back kMaxTickTransitions ts
           \<lparr>vt_sample_offset = 0, vt_kind = kind, vt_note = n, vt_velocity = velocity,
            vt_sequence = dk_transition_sequence D, vt_voice_id = voice_id\<rparr>),
         D\<lparr>dk_transition_sequence := dk_transition_sequence D + 1\<rparr>))"

definition candidate_output_note :: "Detector \<Rightarrow> nat \<Rightarrow> u8" where
  "candidate_output_note D c =
     (if dk_count D \<le> c then kTunerNoSignalNote
      else let emitted = cs_emitted_note (candidate_state D c)
           in if emitted < 128 then emitted else candidate_note D c)"

definition candidate_output_cents_q8 :: "Detector \<Rightarrow> nat \<Rightarrow> u16 \<Rightarrow> u16" where
  "candidate_output_cents_q8 D c detected_cents =
     (if dk_count D \<le> c then detected_cents
      else let detected_note = uint (dk_lowest_note D) + int c;
               adjusted = sint detected_cents + (detected_note - uint (candidate_output_note D c)) * 100 * 256
           in word_of_int (std_clamp adjusted (- 32768) 32767))"

text \<open>One transition for each lane of a mask, in the order of the lanes.\<close>

definition append_lanes :: "TransitionKind \<Rightarrow> u8 \<Rightarrow> u8 \<Rightarrow> u8 \<Rightarrow> emission \<Rightarrow> emission" where
  "append_lanes kind n velocity w =
     fold (\<lambda>s E. if bit w s then append_transition kind n velocity (of_nat s) E else E) [0..<kMaxVoices]"

definition change_lane :: "u8 \<Rightarrow> u8 \<Rightarrow> u8 \<Rightarrow> nat \<Rightarrow> emission \<Rightarrow> emission" where
  "change_lane previous n velocity s E =
     append_transition note_on n velocity (of_nat s) (append_transition note_off previous 0 (of_nat s) E)"

definition change_candidate_output_note :: "DetectorMath \<Rightarrow> nat \<Rightarrow> u8 \<Rightarrow> emission \<Rightarrow> emission" where
  "change_candidate_output_note M c n E =
     (case E of (ts, D) \<Rightarrow>
        if dk_count D \<le> c \<or> 128 \<le> n then E
        else let previous = candidate_output_note D c; velocity = dynamic_velocity M D
             in if previous = n then E
                else let E' = (if dk_midi_routing D = routing_per_voice
                               then fold (\<lambda>s E. if bit (cs_midi_voice_mask (candidate_state D c)) s
                                      then change_lane previous n velocity s E else E) [0..<kMaxVoices] E
                               else append_transition note_on n velocity kUnassignedVoiceId
                                      (append_transition note_off previous 0 kUnassignedVoiceId E))
                     in (fst E', update_state c (cs_emitted_note_update (\<lambda>_. n)) (snd E')))"

definition per_string :: "Detector \<Rightarrow> bool" where
  "per_string D \<longleftrightarrow> dk_profile_mode D = profile_m3 \<and> dk_midi_routing D = routing_per_voice"

definition forget_harmonics :: "nat \<Rightarrow> Detector \<Rightarrow> Detector" where
  "forget_harmonics c D =
     D\<lparr>dk_harmonic_energy_memory := (dk_harmonic_energy_memory D)[c := replicate kHarmonicCount 0],
       dk_long_harmonic_energy_memory := (dk_long_harmonic_energy_memory D)[c := replicate kHarmonicCount 0],
       dk_harmonic_memory_updates := (dk_harmonic_memory_updates D)[c := 0]\<rparr>"

definition append_candidate_note_on :: "nat \<Rightarrow> u8 \<Rightarrow> emission \<Rightarrow> bool \<times> emission" where
  "append_candidate_note_on c velocity E =
     (case E of (ts, D) \<Rightarrow>
        if dk_count D \<le> c then (False, E)
        else let n = candidate_note D c; st = candidate_state D c;
                 desired = assigned_strings (cs_assigned_string_mask st) (cs_assigned_string st)
             in if per_string D
                then if desired = 0 then (False, E)
                     else let E' = append_lanes note_on n velocity desired
                                (ts, update_state c (cs_emitted_note_update (\<lambda>_. n)) D)
                          in (True, (fst E', forget_harmonics c
                                (update_state c (cs_midi_voice_mask_update (\<lambda>_. desired)) (snd E'))))
                else let E' = append_transition note_on n velocity kUnassignedVoiceId
                           (ts, update_state c (cs_emitted_note_update (\<lambda>_. n)) D)
                     in (True, (fst E', forget_harmonics c (snd E'))))"

definition append_candidate_note_off :: "nat \<Rightarrow> emission \<Rightarrow> bool \<times> emission" where
  "append_candidate_note_off c E =
     (case E of (ts, D) \<Rightarrow>
        if dk_count D \<le> c then (False, E)
        else let n = candidate_output_note D c; lanes = cs_midi_voice_mask (candidate_state D c)
             in if per_string D
                then if kMaxTickTransitions - length ts < unat (string_count lanes) then (False, E)
                     else (True, append_lanes note_off n 0 lanes E)
                else if length ts = kMaxTickTransitions then (False, E)
                else (True, append_transition note_off n 0 kUnassignedVoiceId E))"

subsection \<open>Notes moved by the calibration\<close>

definition forget_output_target :: "CandidateState \<Rightarrow> CandidateState" where
  "forget_output_target st = st\<lparr>cs_calibrated_output_target := kTunerNoSignalNote, cs_calibrated_output_ticks := 0\<rparr>"

definition start_output_target :: "u8 \<Rightarrow> CandidateState \<Rightarrow> CandidateState" where
  "start_output_target n st = st\<lparr>cs_calibrated_output_target := n, cs_calibrated_output_ticks := 1\<rparr>"

definition count_output_target :: "CandidateState \<Rightarrow> CandidateState" where
  "count_output_target st =
     (if cs_calibrated_output_ticks st < - 1 then st\<lparr>cs_calibrated_output_ticks := cs_calibrated_output_ticks st + 1\<rparr>
      else st)"

definition forget_target :: "nat \<Rightarrow> emission \<Rightarrow> emission" where
  "forget_target c E = (fst E, update_state c forget_output_target (snd E))"

text \<open>A note is moved once two decisions in a row agree; then \<open>keep\<close> says what becomes of the target.\<close>

definition reach_consensus :: "DetectorMath \<Rightarrow> nat \<Rightarrow> u8 \<Rightarrow> (emission \<Rightarrow> emission) \<Rightarrow> emission \<Rightarrow> emission" where
  "reach_consensus M c n keep E =
     (case E of (ts, D) \<Rightarrow>
        if cs_calibrated_output_target (candidate_state D c) \<noteq> n
        then (ts, update_state c (start_output_target n) D)
        else let D = update_state c count_output_target D
             in if cs_calibrated_output_ticks (candidate_state D c) < kM3CalibratedOutputConsensusDecisions
                then (ts, D) else keep (change_candidate_output_note M c n (ts, D)))"

text \<open>A projection is trusted if the pitch lies close to the calibrated centre it is moved to.\<close>

definition trusted_projection :: "Detector \<Rightarrow> nat \<Rightarrow> nat \<Rightarrow> f64 \<Rightarrow> CalibratedNoteProjection \<Rightarrow> bool" where
  "trusted_projection D c s cents projection \<longleftrightarrow>
     pn_changed projection
     \<and> (case fret_point D (pn_note projection) s of
          None \<Rightarrow> False
        | Some p \<Rightarrow>
            let observed_pitch = f64_of_int 100 * f64_of_int (uint (candidate_note D c)) + cents;
                projected_center = f64_of_int 100 * f64_of_int (uint (pn_note projection))
                  + f64_of_int (sint (cp_cents_offset_q8 p)) div f64_of_int 256
            in \<bar>observed_pitch - projected_center\<bar> \<le> kM3CalibratedOutputMaximumProjectedErrorCents)"

definition output_collision :: "Detector \<Rightarrow> bool list \<Rightarrow> nat \<Rightarrow> u8 \<Rightarrow> bool" where
  "output_collision D selected c n \<longleftrightarrow>
     list_ex (\<lambda>other. other \<noteq> c
         \<and> (selected ! other \<and> candidate_note D other = n
            \<or> cs_active (candidate_state D other) \<and> candidate_output_note D other = n)) [0..<dk_count D]"

definition calibrate_output_note :: "DetectorMath \<Rightarrow> bool list \<Rightarrow> nat \<Rightarrow> nat \<Rightarrow> emission \<Rightarrow> emission" where
  "calibrate_output_note M selected selected_note_count c E =
     (case E of (ts, D) \<Rightarrow>
        let st = candidate_state D c;
            minimum_age = decisions_in kM3CalibratedOutputMinimumAgeSeconds (dk_sample_rate D) (2 ^ 16 - 1);
            member_mask = assigned_strings (cs_assigned_string_mask st) (cs_assigned_string st)
        in if \<not> selected ! c \<or> \<not> cs_active st \<or> selected_note_count < 2 \<or> uint (cs_age_ticks st) < minimum_age
              \<or> string_count member_mask \<noteq> 1 \<or> \<not> ph_output_projection_valid (dk_phase_cents_states D ! c)
           then forget_target c E
           else let s = lowest_member member_mask; cents = ph_cents (dk_phase_cents_states D ! c)
                in if \<not> is_finite cents then forget_target c E
                   else let cents_q8 = word_of_int (std_clamp (f64_lround (cents * f64_of_int 256)) (- 32768) 32767);
                            detected_note = candidate_note D c;
                            projection = project_calibrated_note detected_note cents_q8 True (of_nat s) (dk_bank D)
                              (dk_max_fret D) kM3CalibratedOutputMinimumImprovementCents
                        in if \<not> trusted_projection D c s cents projection
                           then if candidate_output_note D c = detected_note then forget_target c E
                                else reach_consensus M c detected_note (forget_target c) E
                           else if output_collision D selected c (pn_note projection)
                           then forget_target c (change_candidate_output_note M c detected_note E)
                           else reach_consensus M c (pn_note projection) id E)"

definition update_calibrated_output_notes :: "DetectorMath \<Rightarrow> bool list \<Rightarrow> nat \<Rightarrow> emission \<Rightarrow> emission" where
  "update_calibrated_output_notes M selected selected_note_count E =
     (if dk_profile_mode (snd E) \<noteq> profile_m3 then E
      else fold (calibrate_output_note M selected selected_note_count) [0..<dk_count (snd E)] E)"

subsection \<open>Handing over to a neighbour\<close>

definition owned_strings :: "CandidateState \<Rightarrow> u8" where
  "owned_strings st =
     assigned_strings (cs_assigned_string_mask st OR cs_midi_voice_mask st) (cs_assigned_string st)"

text \<open>The string whose fingerprint an attacking pitch matches best.\<close>

definition better_similarity :: "DetectorMath \<Rightarrow> Detector \<Rightarrow> nat \<Rightarrow> nat \<Rightarrow> f64 \<times> u8 \<Rightarrow> f64 \<times> u8" where
  "better_similarity M D c s best =
     (if \<not> bit (playable_string_mask D c) s \<or> fret_point D (candidate_note D c) s = None then best
      else let similarity = calibration_similarity M D c s
           in if fst best < similarity then (similarity, of_nat s) else best)"

definition best_similar_string :: "DetectorMath \<Rightarrow> Detector \<Rightarrow> nat \<Rightarrow> u8" where
  "best_similar_string M D c =
     snd (fold (better_similarity M D c) [0..<length kM3OpenNotes] (f64_of_int (-1), kUnassignedTunerString))"

definition replacement_usable :: "DetectorMath \<Rightarrow> Detector \<Rightarrow> bool list \<Rightarrow> nat \<Rightarrow> nat \<Rightarrow> nat \<Rightarrow> bool" where
  "replacement_usable M D selected selected_count c other \<longleftrightarrow>
     (let replacement = candidate_state D other; owned = owned_strings (candidate_state D c);
          onset_ticks = decisions_in kM3AdjacentHandoffOnsetSeconds (dk_sample_rate D) (2 ^ 16 - 1)
      in other \<noteq> c \<and> selected ! other \<and> uint (cs_age_ticks replacement) \<le> onset_ticks
         \<and> (cs_active replacement
            \<or> \<not> (selected_count < 2 \<or> \<not> has_decisive_calibrated_shape M D other (dk_count D))
              \<and> (let s = unat (best_similar_string M D other) in s < length kM3OpenNotes \<and> bit owned s)))"

definition should_handoff_adjacent_coasting_candidate ::
  "DetectorMath \<Rightarrow> Detector \<Rightarrow> nat \<Rightarrow> f64 list \<Rightarrow> f64 list \<Rightarrow> bool list \<Rightarrow> nat \<Rightarrow> bool \<Rightarrow> bool" where
  "should_handoff_adjacent_coasting_candidate M D c scores fundamentals selected selected_count quiet \<longleftrightarrow>
     (let count = dk_count D
      in if quiet \<or> dk_profile_mode D \<noteq> profile_m3 \<or> count \<le> c \<or> \<not> cs_active (candidate_state D c) \<or> selected ! c
         then False
         else let owned_count = string_count (owned_strings (candidate_state D c))
              in case find (\<lambda>other. replacement_usable M D selected selected_count c other
                       \<and> \<bar>int other - int c\<bar> = 1 \<and> has_direct_fundamental_peak scores fundamentals other count) [0..<count] of
                   None \<Rightarrow> False
                 | Some other \<Rightarrow>
                     \<not> 1 < owned_count
                     \<or> owned_count = 2 \<and> \<not> has_direct_fundamental_peak scores fundamentals c count
                       \<and> scores ! c \<le> scores ! other)"

definition should_handoff_coasting_candidate_to_resolved_group :: "Detector \<Rightarrow> nat \<Rightarrow> bool list \<Rightarrow> bool" where
  "should_handoff_coasting_candidate_to_resolved_group D c selected \<longleftrightarrow>
     (let owned = owned_strings (candidate_state D c)
      in if dk_count D \<le> c \<or> selected ! c \<or> \<not> cs_active (candidate_state D c) then False
         else if string_count owned \<noteq> 1 then False
         else list_ex (\<lambda>other. other \<noteq> c \<and> selected ! other \<and> cs_active (candidate_state D other)
                \<and> 2 \<le> string_count (dk_selector_group_masks D ! other)
                \<and> string_count (dk_selector_group_masks D ! other) \<le> 4
                \<and> dk_selector_group_masks D ! other AND owned \<noteq> 0) [0..<dk_count D])"

end
