(* ===== verification/Detector_Lifecycle.thy ===== *)
theory Detector_Lifecycle
  imports Detector_Voices
begin

unbundle bit_operations_syntax

text \<open>
  The note lifecycle of one decision, \<open>make_decision\<close> of \<open>src/native/src/polyphonic_pitch_detector.cpp\<close> from
  \<open>update_calibrated_output_notes\<close> to the end of its third loop over the candidates: calibrated output notes,
  evidence of silent candidates, release and lane changes of sounding ones, attack. Its inputs are the
  candidates selected by the spectral part with their scores.
\<close>

record DecisionInput =
  di_selected :: "bool list"
  di_selected_voice_count :: nat
  di_scores :: "f64 list"
  di_fundamentals :: "f64 list"
  di_quiet :: bool
  di_had_active_voice :: bool

subsection \<open>Evidence\<close>

definition nat_distance :: "nat \<Rightarrow> nat \<Rightarrow> nat" where
  "nat_distance a b = (if b < a then a - b else b - a)"

text \<open>A selected pitch that is near the candidate but near no sounding one.\<close>

definition migrating_observation :: "Detector \<Rightarrow> bool list \<Rightarrow> nat \<Rightarrow> bool" where
  "migrating_observation D selected c \<longleftrightarrow>
     list_ex (\<lambda>probe. selected ! probe
        \<and> \<not> list_ex (\<lambda>active. cs_active (candidate_state D active)
                \<and> nat_distance probe active \<le> kCandidateMigrationSemitones) [0..<dk_count D]
        \<and> nat_distance probe c \<le> kCandidateMigrationSemitones) [0..<dk_count D]"

definition observed_candidate :: "DecisionInput \<Rightarrow> Detector \<Rightarrow> nat \<Rightarrow> bool" where
  "observed_candidate X D c \<longleftrightarrow>
     has_direct_fundamental_peak (di_scores X) (di_fundamentals X) c (dk_count D)
     \<or> di_selected X ! c \<and> dk_profile_mode D = profile_m3
       \<and> (dk_max_fret D \<le> 2 \<or> is_local_peak (di_scores X) c (dk_count D)
          \<or> has_m3_candidate_evidence (di_scores X) (di_fundamentals X) c (dk_count D))
     \<or> di_had_active_voice X \<and> dk_profile_mode D = profile_m3 \<and> migrating_observation D (di_selected X) c"

definition evidence_ticked :: "bool \<Rightarrow> bool \<Rightarrow> CandidateState \<Rightarrow> CandidateState" where
  "evidence_ticked observed had_active st =
     (if \<not> observed
      then if cs_evidence_ticks st \<noteq> 0 \<and> cs_evidence_gap_ticks st < kCandidateEvidenceDropoutDecisions
           then st\<lparr>cs_evidence_gap_ticks := cs_evidence_gap_ticks st + 1\<rparr>
           else st\<lparr>cs_evidence_ticks := 0, cs_evidence_gap_ticks := 0\<rparr>
      else if \<not> had_active then st\<lparr>cs_evidence_ticks := - 1\<rparr>
      else if cs_evidence_ticks st < 255
      then st\<lparr>cs_evidence_gap_ticks := 0, cs_evidence_ticks := cs_evidence_ticks st + 1\<rparr>
      else st)"

definition gather_evidence :: "DecisionInput \<Rightarrow> nat \<Rightarrow> Detector \<Rightarrow> Detector" where
  "gather_evidence X c D =
     (if cs_active (candidate_state D c) then D
      else update_state c (evidence_ticked (observed_candidate X D c) (di_had_active_voice X)) D)"

subsection \<open>Release\<close>

definition clear_candidate :: "nat \<Rightarrow> emission \<Rightarrow> emission" where
  "clear_candidate c E = (fst E, update_state c (\<lambda>_. CandidateState_default) (snd E))"

text \<open>The strings a sounding note moved away from are released, those it moved to are struck.\<close>

definition move_lanes :: "DetectorMath \<Rightarrow> nat \<Rightarrow> emission \<Rightarrow> emission" where
  "move_lanes M c E =
     (let D = snd E; st = candidate_state D c;
          desired = projected_output_string_mask (cs_assigned_string_mask st) (cs_assigned_string st)
            (cs_spectral_lane_mask st) (cs_continuity_lane_mask st);
          removed = cs_midi_voice_mask st AND NOT desired;
          added = desired AND NOT (cs_midi_voice_mask st);
          n = candidate_output_note D c;
          E' = append_lanes note_on n (dynamic_velocity M D) added (append_lanes note_off n 0 removed E)
      in (fst E', update_state c (cs_midi_voice_mask_update (\<lambda>_. desired)) (snd E')))"

text \<open>A sounding candidate that is no longer selected ages towards its note-off.\<close>

definition coast_candidate :: "DecisionInput \<Rightarrow> nat \<Rightarrow> emission \<times> nat \<Rightarrow> emission \<times> nat" where
  "coast_candidate X c R =
     (case R of ((ts, D), active_count) \<Rightarrow>
        let D = update_state c (\<lambda>st. if cs_release_ticks st < - 1
                  then st\<lparr>cs_release_ticks := cs_release_ticks st + 1\<rparr> else st) D
        in if candidate_release_decisions D c (di_quiet X) \<le> cs_release_ticks (candidate_state D c)
           then case append_candidate_note_off c (ts, D) of
                  (released, E) \<Rightarrow> if released then (clear_candidate c E, active_count) else (E, active_count + 1)
           else ((ts, D), active_count + 1))"

definition release_candidate :: "DetectorMath \<Rightarrow> DecisionInput \<Rightarrow> nat \<Rightarrow> emission \<times> nat \<Rightarrow> emission \<times> nat" where
  "release_candidate M X c R =
     (case R of ((ts, D), active_count) \<Rightarrow>
        if \<not> cs_active (candidate_state D c) then R
        else if di_selected X ! c
        then let D = update_state c (cs_release_ticks_update (\<lambda>_. 0)) D
             in (if per_string D then move_lanes M c (ts, D) else (ts, D), active_count + 1)
        else if should_handoff_coasting_candidate_to_resolved_group D c (di_selected X)
                \<or> should_handoff_adjacent_coasting_candidate M D c (di_scores X) (di_fundamentals X) (di_selected X)
                    (di_selected_voice_count X) (di_quiet X)
        then case append_candidate_note_off c (ts, D) of
               (released, E) \<Rightarrow> if released then (clear_candidate c E, active_count)
                               else coast_candidate X c (E, active_count)
        else coast_candidate X c R)"

subsection \<open>Attack\<close>

definition tick_age :: "CandidateState \<Rightarrow> CandidateState" where
  "tick_age st = (if cs_age_ticks st < - 1 then st\<lparr>cs_age_ticks := cs_age_ticks st + 1\<rparr> else st)"

definition tick_attack :: "CandidateState \<Rightarrow> CandidateState" where
  "tick_attack st = (if cs_attack_ticks st < 255 then st\<lparr>cs_attack_ticks := cs_attack_ticks st + 1\<rparr> else st)"

text \<open>The evidence a candidate needs before its attack when another note already sounds.\<close>

definition pre_attack_evidence :: "Detector \<Rightarrow> u8" where
  "pre_attack_evidence D =
     (let needed = candidate_evidence_decisions D False; attack = attack_decisions D
      in if attack < needed then needed - attack + 1 else 1)"

text \<open>What becomes of the state of a selected silent candidate before it may strike.\<close>

definition prepare_attack :: "DecisionInput \<Rightarrow> Detector \<Rightarrow> CandidateState \<Rightarrow> CandidateState option" where
  "prepare_attack X D st =
     (if dk_fast_energy D < dk_slow_energy D * kAttackEnergyRatio \<or> cs_evidence_ticks st = 0
         \<or> di_had_active_voice X \<and> cs_evidence_ticks st < pre_attack_evidence D then None
      else Some (tick_age (tick_attack st)))"

definition stalled_attack :: "Detector \<Rightarrow> CandidateState \<Rightarrow> CandidateState" where
  "stalled_attack D st =
     (if dk_fast_energy D < dk_slow_energy D * kAttackEnergyRatio
      then st\<lparr>cs_attack_ticks := 0, cs_evidence_ticks := 0, cs_evidence_gap_ticks := 0\<rparr>
      else st\<lparr>cs_attack_ticks := 0\<rparr>)"

definition strike_candidate :: "DetectorMath \<Rightarrow> nat \<Rightarrow> emission \<times> nat \<Rightarrow> emission \<times> nat" where
  "strike_candidate M c R =
     (case R of (E, active_count) \<Rightarrow>
        if cs_attack_ticks (candidate_state (snd E) c) < attack_decisions (snd E) then R
        else case append_candidate_note_on c (dynamic_velocity M (snd E)) E of
               (struck, (ts, D)) \<Rightarrow>
                 if \<not> struck then ((ts, update_state c (cs_attack_ticks_update (\<lambda>_. attack_decisions D)) D), active_count)
                 else ((ts, update_state c (\<lambda>st. st\<lparr>cs_active := True, cs_attack_ticks := 0, cs_evidence_ticks := 0\<rparr>) D),
                       active_count + 1))"

definition attack_candidate :: "DetectorMath \<Rightarrow> DecisionInput \<Rightarrow> nat \<Rightarrow> emission \<times> nat \<Rightarrow> emission \<times> nat" where
  "attack_candidate M X c R =
     (case R of ((ts, D), active_count) \<Rightarrow>
        if \<not> di_selected X ! c
        then if cs_active (candidate_state D c) then R
             else ((ts, update_state c (\<lambda>st. st\<lparr>cs_attack_ticks := 0, cs_age_ticks := 0\<rparr>) D), active_count)
        else let D = update_state c (cs_release_ticks_update (\<lambda>_. 0)) D
             in if cs_active (candidate_state D c) then ((ts, update_state c tick_age D), active_count)
                else if unat (dk_max_polyphony D) \<le> active_count
                then (clear_candidate c (ts, D), active_count)
                else case prepare_attack X D (candidate_state D c) of
                       None \<Rightarrow> ((ts, update_state c (stalled_attack D) D), active_count)
                     | Some st \<Rightarrow> strike_candidate M c ((ts, update_state c (\<lambda>_. st) D), active_count))"

subsection \<open>The decision\<close>

definition note_lifecycle :: "DetectorMath \<Rightarrow> DecisionInput \<Rightarrow> emission \<Rightarrow> emission" where
  "note_lifecycle M X E =
     (let cs = [0..<dk_count (snd E)];
          E = update_calibrated_output_notes M (di_selected X) (di_selected_voice_count X) E;
          E = (fst E, fold (gather_evidence X) cs (snd E));
          R = fold (release_candidate M X) cs (E, 0)
      in fst (fold (attack_candidate M X) cs R))"

end
