(* ===== verification/Detector_Lifecycle_Laws.thy ===== *)
theory Detector_Lifecycle_Laws
  imports Detector_Lifecycle "HOL-Library.Multiset"
begin

unbundle bit_operations_syntax

text \<open>
  What a decision says is what it does. The notes the detector holds are a multiset of pairs of a voice and
  a note; the transitions of a decision, performed in order on the notes held before it, give the notes held
  after it, and never release a note that is not held. The decision's vector takes sixteen transitions and
  drops the rest without a trace.
\<close>

subsection \<open>Held notes and performed transitions\<close>

definition strikes :: "bool \<Rightarrow> u8 \<Rightarrow> u8 \<Rightarrow> (u8 \<times> u8) multiset" where
  "strikes by_string lanes n =
     (if by_string then mset (map (\<lambda>s. (of_nat s, n)) (filter (bit lanes) [0..<kMaxVoices]))
      else {#(kUnassignedVoiceId, n)#})"

definition heard :: "Detector \<Rightarrow> nat \<Rightarrow> (u8 \<times> u8) multiset" where
  "heard D c =
     (if cs_active (candidate_state D c)
      then strikes (per_string D) (cs_midi_voice_mask (candidate_state D c)) (candidate_output_note D c)
      else {#})"

definition ringing :: "Detector \<Rightarrow> (u8 \<times> u8) multiset" where
  "ringing D = sum_list (map (heard D) [0..<dk_count D])"

type_synonym keyed_transition = "TransitionKind \<times> u8 \<times> u8"

definition transition_key :: "VoiceTransition \<Rightarrow> keyed_transition" where
  "transition_key t = (vt_kind t, vt_voice_id t, vt_note t)"

fun perform_keys :: "keyed_transition list \<Rightarrow> (u8 \<times> u8) multiset \<Rightarrow> (u8 \<times> u8) multiset option" where
  "perform_keys [] H = Some H"
| "perform_keys ((kind, key) # ks) H =
     (if kind = note_on then perform_keys ks (add_mset key H)
      else if key \<in># H then perform_keys ks (H - {#key#})
      else None)"

definition perform :: "VoiceTransition list \<Rightarrow> (u8 \<times> u8) multiset \<Rightarrow> (u8 \<times> u8) multiset option" where
  "perform ts H = perform_keys (map transition_key ts) H"

lemma perform_keys_append:
  "perform_keys (ks @ ls) H = Option.bind (perform_keys ks H) (perform_keys ls)"
  by (induction ks H rule: perform_keys.induct) auto

lemma perform_append: "perform (ts @ us) H = Option.bind (perform ts H) (perform us)"
  by (cases "perform_keys (map transition_key ts) H") (simp_all add: perform_def perform_keys_append)

lemma perform_ons: "perform_keys (map (\<lambda>k. (note_on, k)) keys) H = Some (mset keys + H)"
  by (induction keys arbitrary: H) auto

lemma perform_offs: "perform_keys (map (\<lambda>k. (note_off, k)) keys) (mset keys + H) = Some H"
  by (induction keys) auto

lemma perform_swaps:
  "perform_keys (concat (map (\<lambda>s. [(note_off, of_nat s, p), (note_on, of_nat s, n)]) ss))
       (mset (map (\<lambda>s. (of_nat s, p)) ss) + H)
     = Some (mset (map (\<lambda>s. (of_nat s, n)) ss) + H)"
  by (induction ss arbitrary: H) (auto simp flip: union_mset_add_mset_right)

subsection \<open>Steps of a decision\<close>

definition shaped :: "emission \<Rightarrow> bool" where
  "shaped E \<longleftrightarrow> length (fst E) \<le> kMaxTickTransitions \<and> dk_count (snd E) \<le> length (dk_candidate_states (snd E))"

definition same_routing :: "Detector \<Rightarrow> Detector \<Rightarrow> bool" where
  "same_routing D D' \<longleftrightarrow> dk_candidate_count D' = dk_candidate_count D \<and> dk_lowest_note D' = dk_lowest_note D
     \<and> dk_profile_mode D' = dk_profile_mode D \<and> dk_midi_routing D' = dk_midi_routing D"

definition carried :: "emission \<Rightarrow> emission \<Rightarrow> bool" where
  "carried E E' \<longleftrightarrow> same_routing (snd E) (snd E')
     \<and> (shaped E \<longrightarrow> shaped E' \<and> (\<exists>us. fst E' = take kMaxTickTransitions (fst E @ us)
          \<and> perform us (ringing (snd E)) = Some (ringing (snd E'))))"

lemma carried_refl [intro, simp]: "carried E E"
  by (auto simp: carried_def same_routing_def shaped_def perform_def intro!: exI [of _ "[]"])

lemma take_take_append: "take k (take k xs @ ys) = take k (xs @ ys)"
  by (simp add: take_append min_def)

lemma carried_trans:
  assumes "carried E E'" "carried E' E''"
  shows "carried E E''"
proof -
  have "\<exists>us. fst E'' = take kMaxTickTransitions (fst E @ us) \<and> perform us (ringing (snd E)) = Some (ringing (snd E''))"
    if s: "shaped E" "shaped E'"
  proof -
    obtain us vs where "fst E' = take kMaxTickTransitions (fst E @ us)" "perform us (ringing (snd E)) = Some (ringing (snd E'))"
      "fst E'' = take kMaxTickTransitions (fst E' @ vs)" "perform vs (ringing (snd E')) = Some (ringing (snd E''))"
      using assms s by (auto simp: carried_def)
    then show ?thesis
      by (intro exI [of _ "us @ vs"]) (simp add: perform_append take_take_append del: take_append flip: append_assoc)
  qed
  then show ?thesis using assms by (auto simp: carried_def same_routing_def)
qed

lemma carried_same: "carried E E' \<Longrightarrow> same_routing (snd E) (snd E')"
  by (simp add: carried_def)

lemma same_routing_count: "same_routing D D' \<Longrightarrow> dk_count D' = dk_count D"
  by (simp add: same_routing_def dk_count_def)

text \<open>A loop over the candidates; \<open>view\<close> finds the emission in the state of the loop.\<close>

lemma carried_fold:
  assumes "\<And>c R. c < dk_count (snd (view R)) \<Longrightarrow> same_routing (snd (view start)) (snd (view R)) \<Longrightarrow>
             carried (view R) (view (f c R))"
    and "n = dk_count (snd (view start))"
  shows "carried (view start) (view (fold f [0..<n] start))"
proof -
  have "carried (view R) (view (fold f cs R))"
    if "\<forall>c \<in> set cs. c < n" "same_routing (snd (view start)) (snd (view R))" for cs R
    using that
  proof (induction cs arbitrary: R)
    case (Cons c cs)
    then have "c < dk_count (snd (view R))" using assms(2) by (simp add: same_routing_count)
    then have "carried (view R) (view (f c R))" using assms(1) Cons.prems(2) by simp
    moreover from this have "same_routing (snd (view start)) (snd (view (f c R)))"
      using Cons.prems(2) carried_same by (auto simp: same_routing_def)
    ultimately show ?case using Cons carried_trans by simp
  qed simp
  then show ?thesis by (simp add: same_routing_def)
qed

subsection \<open>One candidate at a time\<close>

lemma update_state_simps [simp]:
  "dk_count (update_state c f D) = dk_count D" "per_string (update_state c f D) = per_string D"
  "same_routing D (update_state c f D)" "length (dk_candidate_states (update_state c f D)) = length (dk_candidate_states D)"
  "candidate_note (update_state c f D) c' = candidate_note D c'"
  "dk_transition_sequence (update_state c f D) = dk_transition_sequence D"
  by (simp_all add: update_state_def dk_count_def per_string_def same_routing_def candidate_note_def)

lemma candidate_state_update:
  "c < length (dk_candidate_states D) \<Longrightarrow>
   candidate_state (update_state c f D) c' = (if c' = c then f (candidate_state D c) else candidate_state D c')"
  by (simp add: candidate_state_def update_state_def)

lemma output_note_update:
  "c < length (dk_candidate_states D) \<Longrightarrow> c' \<noteq> c \<Longrightarrow>
   candidate_output_note (update_state c f D) c' = candidate_output_note D c'"
  by (simp add: candidate_output_note_def candidate_state_update Let_def)

lemma heard_update_other:
  "c < length (dk_candidate_states D) \<Longrightarrow> c' \<noteq> c \<Longrightarrow> heard (update_state c f D) c' = heard D c'"
  by (simp add: heard_def candidate_state_update output_note_update)

lemma ringing_sum: "ringing D = (\<Sum>c < dk_count D. heard D c)"
  by (simp add: ringing_def interv_sum_list_conv_sum_set_nat atLeast0LessThan)

text \<open>The notes of the other candidates.\<close>

definition others :: "Detector \<Rightarrow> nat \<Rightarrow> (u8 \<times> u8) multiset" where
  "others D c = (\<Sum>c' \<in> {..< dk_count D} - {c}. heard D c')"

lemma others_update:
  "c < length (dk_candidate_states D) \<Longrightarrow> others (update_state c f D) c = others D c"
  by (simp add: others_def heard_update_other)

lemma ringing_split: "c < dk_count D \<Longrightarrow> ringing D = heard D c + others D c"
  by (simp add: ringing_sum others_def sum.remove)

lemma ringing_update:
  "c < dk_count D \<Longrightarrow> dk_count D \<le> length (dk_candidate_states D) \<Longrightarrow>
   ringing (update_state c f D) = heard (update_state c f D) c + others D c"
  by (simp add: ringing_sum others_def sum.remove [of _ c] heard_update_other)

text \<open>A change of bookkeeping that is not heard.\<close>

lemma carried_silent:
  assumes "c < dk_count D" "dk_count D \<le> length (dk_candidate_states D) \<Longrightarrow> heard (update_state c f D) c = heard D c"
  shows "carried (ts, D) (ts, update_state c f D)"
  using assms ringing_update [of c D f] ringing_split [of c D]
  by (auto simp: carried_def shaped_def perform_def intro!: exI [of _ "[]"])

lemma heard_cong:
  "c < length (dk_candidate_states D) \<Longrightarrow> cs_active (f (candidate_state D c)) = cs_active (candidate_state D c) \<Longrightarrow>
   cs_midi_voice_mask (f (candidate_state D c)) = cs_midi_voice_mask (candidate_state D c) \<Longrightarrow>
   cs_emitted_note (f (candidate_state D c)) = cs_emitted_note (candidate_state D c) \<Longrightarrow>
   heard (update_state c f D) c = heard D c"
  by (simp add: heard_def candidate_state_update candidate_output_note_def Let_def)

lemma heard_silent:
  "c < length (dk_candidate_states D) \<Longrightarrow> \<not> cs_active (candidate_state D c) \<Longrightarrow> \<not> cs_active (f (candidate_state D c)) \<Longrightarrow>
   heard (update_state c f D) c = heard D c"
  by (simp add: heard_def candidate_state_update)

subsection \<open>Transitions\<close>

text \<open>A call that only appends transitions: their keys, in order, up to the capacity.\<close>

definition sends :: "keyed_transition list \<Rightarrow> emission \<Rightarrow> emission \<Rightarrow> bool" where
  "sends ks E E' \<longleftrightarrow>
     (\<exists>us. map transition_key us = ks \<and> (length (fst E) \<le> kMaxTickTransitions \<longrightarrow> fst E' = take kMaxTickTransitions (fst E @ us)))
     \<and> (\<exists>q. snd E' = (snd E)\<lparr>dk_transition_sequence := q\<rparr>)"

lemma sends_Nil [simp]: "sends [] E E"
  by (cases E) (auto simp: sends_def intro!: exI [of _ "dk_transition_sequence (snd E)"])

lemma sends_append:
  assumes "sends ks E E'" "sends ls E' E''"
  shows "sends (ks @ ls) E E''"
proof -
  obtain us vs where "map transition_key us = ks" "map transition_key vs = ls"
    "length (fst E) \<le> kMaxTickTransitions \<Longrightarrow> fst E' = take kMaxTickTransitions (fst E @ us)"
    "length (fst E') \<le> kMaxTickTransitions \<Longrightarrow> fst E'' = take kMaxTickTransitions (fst E' @ vs)"
    using assms by (auto simp: sends_def)
  then have "map transition_key (us @ vs) = ks @ ls
      \<and> (length (fst E) \<le> kMaxTickTransitions \<longrightarrow> fst E'' = take kMaxTickTransitions (fst E @ (us @ vs)))"
    using take_take_append [of kMaxTickTransitions "fst E @ us" vs] by (simp del: take_append)
  moreover have "\<exists>q. snd E'' = (snd E)\<lparr>dk_transition_sequence := q\<rparr>"
    using assms by (auto simp: sends_def)
  ultimately show ?thesis unfolding sends_def by blast
qed

lemma sends_transition: "sends [(kind, lane, n)] E (append_transition kind n velocity lane E)"
proof (cases E)
  case (Pair ts D)
  let ?t = "\<lparr>vt_sample_offset = 0, vt_kind = kind, vt_note = n, vt_velocity = velocity,
      vt_sequence = dk_transition_sequence D, vt_voice_id = lane\<rparr>"
  have "length ts \<le> kMaxTickTransitions \<Longrightarrow>
      snd (fixed_vector_push_back kMaxTickTransitions ts ?t) = take kMaxTickTransitions (ts @ [?t])"
    by (auto simp: fixed_vector_push_back_def)
  then show ?thesis using Pair
    by (auto simp: sends_def append_transition_def transition_key_def intro!: exI [of _ "[?t]"])
qed

lemma sends_fold:
  assumes "\<And>s E. sends (g s) E (f s E)"
  shows "sends (concat (map g (filter P ss))) E (fold (\<lambda>s E. if P s then f s E else E) ss E)"
proof (induction ss arbitrary: E)
  case (Cons s ss)
  show ?case using sends_append [OF assms [of s E] Cons.IH] Cons.IH by simp
qed simp

lemma sends_lanes:
  "sends (map (\<lambda>s. (kind, of_nat s, n)) (filter (bit w) [0..<kMaxVoices])) E (append_lanes kind n velocity w E)"
  using sends_fold [of "\<lambda>s. [(kind, of_nat s, n)]" "\<lambda>s. append_transition kind n velocity (of_nat s)" "bit w"
      "[0..<kMaxVoices]" E] sends_transition
  by (simp add: append_lanes_def)

lemma sends_change_lane: "sends [(note_off, of_nat s, p), (note_on, of_nat s, n)] E (change_lane p n velocity s E)"
  using sends_append [OF sends_transition sends_transition] by (simp add: change_lane_def)

text \<open>Transitions that lead from the notes of a candidate to those it has after its update.\<close>

lemma sequence_simps [simp]:
  "candidate_state (D\<lparr>dk_transition_sequence := q\<rparr>) = candidate_state D"
  "heard (D\<lparr>dk_transition_sequence := q\<rparr>) = heard D" "dk_count (D\<lparr>dk_transition_sequence := q\<rparr>) = dk_count D"
  "per_string (D\<lparr>dk_transition_sequence := q\<rparr>) = per_string D"
  "candidate_output_note (D\<lparr>dk_transition_sequence := q\<rparr>) = candidate_output_note D"
  "candidate_note (D\<lparr>dk_transition_sequence := q\<rparr>) = candidate_note D"
  "update_state c f (D\<lparr>dk_transition_sequence := q\<rparr>) = (update_state c f D)\<lparr>dk_transition_sequence := q\<rparr>"
  "same_routing D' (D\<lparr>dk_transition_sequence := q\<rparr>) = same_routing D' D"
  by (simp_all add: fun_eq_iff candidate_state_def heard_def dk_count_def per_string_def candidate_output_note_def
      candidate_note_def update_state_def same_routing_def Let_def)

text \<open>The detector with the updated candidate, up to members that are not heard.\<close>

definition alike :: "Detector \<Rightarrow> Detector \<Rightarrow> bool" where
  "alike D D' \<longleftrightarrow> same_routing D D' \<and> dk_candidate_states D' = dk_candidate_states D"

lemma alike_heard: "alike D D' \<Longrightarrow> heard D' = heard D" "alike D D' \<Longrightarrow> dk_count D' = dk_count D"
  by (auto simp: fun_eq_iff alike_def same_routing_def heard_def candidate_state_def per_string_def dk_count_def
      candidate_output_note_def candidate_note_def Let_def)

lemma alike_ringing: "alike D D' \<Longrightarrow> ringing D' = ringing D"
  by (simp add: ringing_def alike_heard)

lemma carried_sends:
  assumes "sends ks (ts, D1) E'" "c < dk_count D" "alike (update_state c f D) D'"
    "dk_count D \<le> length (dk_candidate_states D) \<Longrightarrow>
       perform_keys ks (heard D c + others D c) = Some (heard (update_state c f D) c + others D c)"
  shows "carried (ts, D) (fst E', D')"
proof -
  obtain us where us: "map transition_key us = ks"
      "length ts \<le> kMaxTickTransitions \<Longrightarrow> fst E' = take kMaxTickTransitions (ts @ us)"
    using assms(1) by (auto simp: sends_def)
  have "perform us (ringing D) = Some (ringing D')" if "dk_count D \<le> length (dk_candidate_states D)"
    using assms(2,3,4) that by (simp add: perform_def us(1) ringing_split others_update alike_ringing)
  moreover have "same_routing D D'" "length (dk_candidate_states D') = length (dk_candidate_states D)" "dk_count D' = dk_count D"
    using assms(3) by (simp_all add: alike_def update_state_def same_routing_def dk_count_def)
  ultimately show ?thesis using us(2) by (auto simp: carried_def shaped_def)
qed

lemma alike_sends: "sends ks (ts, D) E' \<Longrightarrow> alike (update_state c f D) (update_state c f (snd E'))"
  by (auto simp: sends_def alike_def same_routing_def) 

text \<open>
  Every step of a decision carries the held notes: moved output notes, moved lanes, releases and attacks.
  Composed, the whole note lifecycle does.
\<close>

lemma candidate_length:
  "shaped (ts, D) \<Longrightarrow> c < dk_count D \<Longrightarrow> c < length (dk_candidate_states D)"
  by (simp add: shaped_def)

lemma carried_shaped: "(shaped E \<Longrightarrow> carried E E') \<Longrightarrow> same_routing (snd E) (snd E') \<Longrightarrow> carried E E'"
  by (auto simp: carried_def)

lemma carried_bookkeeping:
  assumes "c < dk_count D" "\<And>st. cs_active (f st) = cs_active st" "\<And>st. cs_midi_voice_mask (f st) = cs_midi_voice_mask st"
    "\<And>st. cs_emitted_note (f st) = cs_emitted_note st"
  shows "carried (ts, D) (ts, update_state c f D)"
  by (rule carried_silent [OF assms(1)]) (use assms in \<open>simp add: heard_cong\<close>)

subsection \<open>Moved output notes\<close>

lemma output_note_emitted:
  "c < dk_count D \<Longrightarrow> c < length (dk_candidate_states D) \<Longrightarrow> n < 128 \<or> n = candidate_note D c \<Longrightarrow>
   cs_emitted_note (f (candidate_state D c)) = n \<Longrightarrow> candidate_output_note (update_state c f D) c = n"
  by (auto simp: candidate_output_note_def candidate_state_update Let_def)

lemma carried_change_note:
  assumes "dk_profile_mode (snd E) = profile_m3" "c < dk_count (snd E)" "cs_active (candidate_state (snd E) c)"
  shows "carried E (change_candidate_output_note M c n E)"
proof (cases E)
  case (Pair ts D)
  define p where "p = candidate_output_note D c"
  let ?ms = "filter (bit (cs_midi_voice_mask (candidate_state D c))) [0..<kMaxVoices]"
  let ?f = "cs_emitted_note_update (\<lambda>_. n) :: CandidateState \<Rightarrow> CandidateState"
  have h: "heard D c = strikes (per_string D) (cs_midi_voice_mask (candidate_state D c)) p"
    using assms Pair by (simp add: heard_def p_def)
  have h': "heard (update_state c ?f D) c = strikes (per_string D) (cs_midi_voice_mask (candidate_state D c)) n"
    if "dk_count D \<le> length (dk_candidate_states D)" "n < 128"
    using that assms Pair output_note_emitted [of c D n ?f] by (simp add: heard_def candidate_state_update)
  show ?thesis
  proof (cases "128 \<le> n \<or> p = n")
    case True
    then show ?thesis using Pair by (auto simp: change_candidate_output_note_def Let_def p_def)
  next
    case False
    then have n: "n < 128" by (simp add: not_le)
    show ?thesis
    proof (cases "dk_midi_routing D = routing_per_voice")
      case True
      then have ps: "per_string D" using assms Pair by (simp add: per_string_def)
      have "carried (ts, D) (fst E', update_state c ?f (snd E'))"
        if "sends (concat (map (\<lambda>s. [(note_off, of_nat s, p), (note_on, of_nat s, n)]) ?ms)) (ts, D) E'" for E'
        by (rule carried_sends [OF that _ alike_sends [OF that]]) (use assms Pair h h' n ps in \<open>simp_all add: strikes_def perform_swaps del: mset_map\<close>)
      from this [OF sends_fold [OF sends_change_lane [where velocity = "dynamic_velocity M D"]]] show ?thesis
        using Pair True False assms by (simp add: change_candidate_output_note_def Let_def flip: p_def)
    next
      case False
      then have ps: "\<not> per_string D" by (simp add: per_string_def)
      have "carried (ts, D) (fst E', update_state c ?f (snd E'))"
        if "sends ([(note_off, kUnassignedVoiceId, p)] @ [(note_on, kUnassignedVoiceId, n)]) (ts, D) E'" for E'
        by (rule carried_sends [OF that _ alike_sends [OF that]]) (use assms Pair h h' n ps in \<open>simp_all add: strikes_def\<close>)
      from this [OF sends_append [OF sends_transition sends_transition]] show ?thesis
        using Pair False \<open>\<not> (128 \<le> n \<or> p = n)\<close> assms by (simp add: change_candidate_output_note_def Let_def flip: p_def)
    qed
  qed
qed

lemma output_target_carried:
  "c < dk_count D \<Longrightarrow> carried (ts, D) (ts, update_state c forget_output_target D)"
  "c < dk_count D \<Longrightarrow> carried (ts, D) (ts, update_state c (start_output_target n) D)"
  "c < dk_count D \<Longrightarrow> carried (ts, D) (ts, update_state c count_output_target D)"
  by (rule carried_bookkeeping; simp add: forget_output_target_def start_output_target_def count_output_target_def)+

lemma calibrate_profile:
  "carried E E' \<Longrightarrow> dk_profile_mode (snd E) = profile_m3 \<Longrightarrow> dk_profile_mode (snd E') = profile_m3"
  "carried E E' \<Longrightarrow> c < dk_count (snd E) \<Longrightarrow> c < dk_count (snd E')"
  by (simp_all add: carried_def same_routing_def dk_count_def)

lemma active_update:
  assumes "\<And>st. cs_active (f st) = cs_active st"
  shows "cs_active (candidate_state (update_state c f D) c') = cs_active (candidate_state D c')"
proof (cases "c' = c \<and> c < length (dk_candidate_states D)")
  case True
  then show ?thesis using assms [of "dk_candidate_states D ! c"] by (simp add: candidate_state_def update_state_def)
next
  case False
  then have "(dk_candidate_states D)[c := f (dk_candidate_states D ! c)] ! c' = dk_candidate_states D ! c'"
    by (cases "c' = c") (simp_all add: not_less list_update_beyond)
  then show ?thesis by (simp add: candidate_state_def update_state_def)
qed

lemma profile_update [simp]: "dk_profile_mode (update_state c f D) = dk_profile_mode D"
  by (simp add: update_state_def)

lemma carried_forget: "c < dk_count (snd E) \<Longrightarrow> carried E (forget_target c E)"
  using output_target_carried(1) [of c "snd E" "fst E"] by (simp add: forget_target_def)

lemma carried_consensus:
  assumes "c < dk_count (snd E)" "dk_profile_mode (snd E) = profile_m3" "cs_active (candidate_state (snd E) c)"
    and keep: "\<And>E. c < dk_count (snd E) \<Longrightarrow> carried E (keep E)"
  shows "carried E (reach_consensus M c n keep E)"
proof (cases E)
  case (Pair ts D)
  let ?E = "(ts, update_state c count_output_target D)"
  have ch: "carried ?E (change_candidate_output_note M c n ?E)"
    by (rule carried_change_note) (use assms Pair in \<open>simp_all add: count_output_target_def active_update\<close>)
  moreover have "carried (change_candidate_output_note M c n ?E) (keep (change_candidate_output_note M c n ?E))"
    by (rule keep, rule calibrate_profile(2) [OF ch]) (use assms Pair in simp_all)
  ultimately have "carried ?E (keep (change_candidate_output_note M c n ?E))" by (rule carried_trans)
  moreover have e: "carried (ts, D) ?E" "carried (ts, D) (ts, update_state c (start_output_target n) D)"
    using output_target_carried assms(1) Pair by simp_all
  ultimately have "carried (ts, D) (keep (change_candidate_output_note M c n ?E))" by (blast intro: carried_trans)
  with e show ?thesis by (simp add: reach_consensus_def Let_def Pair)
qed

lemma carried_calibrate:
  assumes "c < dk_count (snd E)" "dk_profile_mode (snd E) = profile_m3"
  shows "carried E (calibrate_output_note M selected selected_note_count c E)"
proof (cases "cs_active (candidate_state (snd E) c)")
  case True
  have f: "carried E (forget_target c E)" by (rule carried_forget [OF assms(1)])
  have k: "carried E (reach_consensus M c n (forget_target c) E)" "carried E (reach_consensus M c n id E)" for n
    by (rule carried_consensus [OF assms True]; simp add: carried_forget)+
  have ch: "carried E (change_candidate_output_note M c n E)" for n
    by (rule carried_change_note [OF assms(2,1) True])
  have fch: "carried E (forget_target c (change_candidate_output_note M c n E))" for n
    by (rule carried_trans [OF ch carried_forget]) (rule calibrate_profile(2) [OF ch assms(1)])
  show ?thesis using f k fch by (cases E) (simp add: calibrate_output_note_def Let_def)
next
  case False
  then show ?thesis using carried_forget [OF assms(1)] by (cases E) (simp add: calibrate_output_note_def Let_def)
qed

lemma carried_calibrated_notes: "carried E (update_calibrated_output_notes M selected selected_note_count E)"
proof (cases "dk_profile_mode (snd E) = profile_m3")
  case True
  have "carried E (fold (calibrate_output_note M selected selected_note_count) [0..<dk_count (snd E)] E)"
    by (rule carried_fold [where view = "\<lambda>E. E"], rule carried_calibrate) (use True in \<open>simp_all add: same_routing_def\<close>)
  then show ?thesis using True by (simp add: update_calibrated_output_notes_def)
qed (simp add: update_calibrated_output_notes_def)

subsection \<open>Evidence and releases\<close>

lemma evidence_ticked_simps [simp]:
  "cs_active (evidence_ticked seen had st) = cs_active st"
  "cs_midi_voice_mask (evidence_ticked seen had st) = cs_midi_voice_mask st"
  "cs_emitted_note (evidence_ticked seen had st) = cs_emitted_note st"
  by (simp_all add: evidence_ticked_def)

lemma carried_gather: "c < dk_count D \<Longrightarrow> carried (ts, D) (ts, gather_evidence X c D)"
  by (simp add: gather_evidence_def carried_bookkeeping)

lemma lanes_split:
  "mset (map g (filter (bit (w :: u8)) ss))
     = mset (map g (filter (bit (w AND v)) ss)) + mset (map g (filter (bit (w AND NOT v)) ss))"
  if "\<forall>s \<in> set ss. s < 8"
  using that by (induction ss) (simp_all add: bit_simps)

lemma carried_move_lanes:
  assumes "c < dk_count (snd E)" "per_string (snd E)" "cs_active (candidate_state (snd E) c)"
  shows "carried E (move_lanes M c E)"
proof (cases E)
  case (Pair ts D)
  define old where "old = cs_midi_voice_mask (candidate_state D c)"
  define new where "new = projected_output_string_mask (cs_assigned_string_mask (candidate_state D c))
     (cs_assigned_string (candidate_state D c)) (cs_spectral_lane_mask (candidate_state D c))
     (cs_continuity_lane_mask (candidate_state D c))"
  define n where "n = candidate_output_note D c"
  let ?lanes = "\<lambda>w. map (\<lambda>s. (of_nat s, n)) (filter (bit w) [0..<kMaxVoices])"
  let ?f = "cs_midi_voice_mask_update (\<lambda>_. new) :: CandidateState \<Rightarrow> CandidateState"
  have h: "heard D c = mset (?lanes old)" using assms Pair by (simp add: heard_def strikes_def old_def n_def)
  have h': "heard (update_state c ?f D) c = mset (?lanes new)" if "dk_count D \<le> length (dk_candidate_states D)"
    using that assms Pair
    by (simp add: heard_def strikes_def candidate_state_update n_def candidate_output_note_def Let_def)
  have "mset (?lanes old) = mset (?lanes (old AND new)) + mset (?lanes (old AND NOT new))"
    "mset (?lanes new) = mset (?lanes (new AND old)) + mset (?lanes (new AND NOT old))"
    by (rule lanes_split; simp add: kMaxVoices_def)+
  then have s: "mset (?lanes old) = mset (?lanes (old AND NOT new)) + mset (?lanes (old AND new))"
    "mset (?lanes new) = mset (?lanes (new AND NOT old)) + mset (?lanes (old AND new))"
    by (simp_all only: add.commute and.commute [of new old])
  have k: "map (\<lambda>s. (kind, of_nat s, n)) (filter (bit w) [0..<kMaxVoices]) = map (\<lambda>k. (kind, k)) (?lanes w)" for kind w
    by simp
  let ?ks = "map (\<lambda>k. (note_off, k)) (?lanes (old AND NOT new)) @ map (\<lambda>k. (note_on, k)) (?lanes (new AND NOT old))"
  have "perform_keys ?ks (heard D c + others D c) = Some (heard (update_state c ?f D) c + others D c)"
    if "dk_count D \<le> length (dk_candidate_states D)"
    unfolding h h' [OF that] s perform_keys_append
    by (simp only: add.assoc perform_offs Option.bind.simps perform_ons)
  then have "carried (ts, D) (fst E', update_state c ?f (snd E'))" if "sends ?ks (ts, D) E'" for E'
    by (intro carried_sends [OF that _ alike_sends [OF that]]) (use assms Pair in simp_all)
  from this [OF sends_append [OF sends_lanes [where n = n, unfolded k] sends_lanes [where n = n, unfolded k]]]
  show ?thesis using assms Pair by (simp add: move_lanes_def Let_def flip: old_def new_def n_def)
qed

text \<open>A note-off ends what the candidate held; without room nothing happens.\<close>

lemma carried_note_off:
  assumes "c < dk_count (snd E)" "cs_active (candidate_state (snd E) c)"
  shows "case append_candidate_note_off c E of (released, E') \<Rightarrow>
     if released then carried E (clear_candidate c E') else E' = E"
proof (cases E)
  case (Pair ts D)
  let ?f = "\<lambda>_. CandidateState_default"
  let ?m = "cs_midi_voice_mask (candidate_state D c)" and ?n = "candidate_output_note D c"
  have h: "heard D c = strikes (per_string D) ?m ?n" using assms Pair by (simp add: heard_def)
  have h': "heard (update_state c ?f D) c = {#}" if "dk_count D \<le> length (dk_candidate_states D)"
    using that assms Pair by (simp add: heard_def candidate_state_update CandidateState_default_def)
  have by_string: "carried (ts, D) (clear_candidate c (append_lanes note_off ?n 0 ?m (ts, D)))" if "per_string D"
    unfolding clear_candidate_def
    by (rule carried_sends [OF sends_lanes _ alike_sends [OF sends_lanes]])
      (use assms Pair h h' that perform_offs [of "map (\<lambda>s. (of_nat s, ?n)) (filter (bit ?m) [0..<kMaxVoices])" "others D c"]
       in \<open>simp_all add: strikes_def comp_def\<close>)
  have single: "carried (ts, D) (clear_candidate c (append_transition note_off ?n 0 kUnassignedVoiceId (ts, D)))"
    if "\<not> per_string D"
    unfolding clear_candidate_def
    by (rule carried_sends [OF sends_transition _ alike_sends [OF sends_transition]])
      (use assms Pair h h' that in \<open>simp_all add: strikes_def\<close>)
  show ?thesis using by_string single assms Pair by (simp add: append_candidate_note_off_def Let_def)
qed

lemma carried_coast:
  assumes "c < dk_count D" "cs_active (candidate_state D c)"
  shows "carried (ts, D) (fst (coast_candidate X c ((ts, D), k)))"
proof -
  let ?f = "\<lambda>st. if cs_release_ticks st < - 1 then st\<lparr>cs_release_ticks := cs_release_ticks st + 1\<rparr> else st"
  let ?E = "(ts, update_state c ?f D)"
  have b: "carried (ts, D) ?E" by (rule carried_bookkeeping) (simp_all add: assms)
  have "cs_active (candidate_state (snd ?E) c)" using assms by (simp add: active_update)
  moreover obtain released E' where app: "append_candidate_note_off c ?E = (released, E')" by (cases "append_candidate_note_off c ?E")
  ultimately have "if released then carried ?E (clear_candidate c E') else E' = ?E"
    using carried_note_off [of c ?E] assms by simp
  then have "if released then carried (ts, D) (clear_candidate c E') else E' = ?E"
    using carried_trans [OF b] by (simp split: if_splits)
  then show ?thesis using b app by (auto simp: coast_candidate_def Let_def split: if_splits)
qed

lemma carried_release:
  assumes "c < dk_count (snd E)"
  shows "carried E (fst (release_candidate M X c (E, k)))"
proof (cases E)
  case (Pair ts D)
  show ?thesis
  proof (cases "cs_active (candidate_state D c)")
    case True
    let ?E = "(ts, update_state c (cs_release_ticks_update (\<lambda>_. 0)) D)"
    have b: "carried E ?E" unfolding Pair by (rule carried_bookkeeping) (use assms Pair in simp_all)
    have "carried ?E (move_lanes M c ?E)" if "per_string D"
      by (rule carried_move_lanes) (use assms Pair True that in \<open>simp_all add: active_update\<close>)
    then have m: "carried E (move_lanes M c ?E)" if "per_string D" using that carried_trans [OF b] by blast
    have off: "case append_candidate_note_off c (ts, D) of (released, E') \<Rightarrow>
        if released then carried (ts, D) (clear_candidate c E') else E' = (ts, D)"
      using carried_note_off [of c "(ts, D)"] assms Pair True by simp
    have coast: "carried (ts, D) (fst (coast_candidate X c ((ts, D), k)))"
      by (rule carried_coast) (use assms Pair True in simp_all)
    show ?thesis
      using b m off coast True Pair by (auto simp: release_candidate_def Let_def split: prod.splits if_splits)
  qed (simp add: release_candidate_def Pair)
qed

subsection \<open>Attacks\<close>

lemma alike_states:
  "same_routing D D' \<Longrightarrow> dk_candidate_states D' = (dk_candidate_states D)[c := f (dk_candidate_states D ! c)] \<Longrightarrow>
   alike (update_state c f D) D'"
  by (simp add: alike_def update_state_def same_routing_def)

text \<open>A candidate that strikes holds its note on every lane the note-ons were sent on.\<close>

lemma carried_strike:
  assumes "c < dk_count D" "\<not> cs_active (candidate_state D c)"
  shows "carried (ts, D) (fst (strike_candidate M c ((ts, D), k)))"
proof -
  define n where "n = candidate_note D c"
  define lanes where "lanes = assigned_strings (cs_assigned_string_mask (candidate_state D c)) (cs_assigned_string (candidate_state D c))"
  define v where "v = dynamic_velocity M D"
  let ?on = "\<lambda>st. st\<lparr>cs_active := True, cs_attack_ticks := 0, cs_evidence_ticks := 0\<rparr>"
  let ?D1 = "update_state c (cs_emitted_note_update (\<lambda>_. n)) D"
  have silent: "heard D c = {#}" using assms by (simp add: heard_def)
  have stay: "carried (ts, D) (ts, update_state c (cs_attack_ticks_update (\<lambda>_. a)) D)" for a
    by (rule carried_bookkeeping) (simp_all add: assms)
  have by_string: "carried (ts, D) (fst E', update_state c ?on (forget_harmonics c
        (update_state c (cs_midi_voice_mask_update (\<lambda>_. lanes)) (snd E'))))"
    if ps: "per_string D" and e: "sends (map (\<lambda>s. (note_on, of_nat s, n)) (filter (bit lanes) [0..<kMaxVoices])) (ts, ?D1) E'" for E'
  proof -
    let ?f = "\<lambda>st. ?on (st\<lparr>cs_emitted_note := n, cs_midi_voice_mask := lanes\<rparr>)"
    let ?keys = "map (\<lambda>s. (of_nat s, n)) (filter (bit lanes) [0..<kMaxVoices])"
    have "heard (update_state c ?f D) c = mset ?keys" if "dk_count D \<le> length (dk_candidate_states D)"
      using that assms ps output_note_emitted [of c D n ?f]
      by (simp add: heard_def strikes_def candidate_state_update n_def)
    then have "perform_keys (map (\<lambda>k. (note_on, k)) ?keys) (heard D c + others D c)
        = Some (heard (update_state c ?f D) c + others D c)" if "dk_count D \<le> length (dk_candidate_states D)"
      using that by (simp only: silent perform_ons add_0)
    moreover have "alike (update_state c ?f D) (update_state c ?on (forget_harmonics c
        (update_state c (cs_midi_voice_mask_update (\<lambda>_. lanes)) (snd E'))))"
      by (cases "c < length (dk_candidate_states D)"; intro alike_states)
        (use e in \<open>auto simp: sends_def update_state_def forget_harmonics_def same_routing_def list_update_beyond\<close>)
    ultimately show ?thesis by (intro carried_sends [OF e assms(1)]) (simp_all add: comp_def)
  qed
  have single: "carried (ts, D) (fst E', update_state c ?on (forget_harmonics c (snd E')))"
    if ps: "\<not> per_string D" and e: "sends [(note_on, kUnassignedVoiceId, n)] (ts, ?D1) E'" for E'
  proof -
    let ?f = "\<lambda>st. ?on (st\<lparr>cs_emitted_note := n\<rparr>)"
    have "heard (update_state c ?f D) c = {#(kUnassignedVoiceId, n)#}"
      if "dk_count D \<le> length (dk_candidate_states D)"
      using that assms ps output_note_emitted [of c D n ?f]
      by (simp add: heard_def strikes_def candidate_state_update n_def)
    then have "perform_keys [(note_on, kUnassignedVoiceId, n)] (heard D c + others D c)
        = Some (heard (update_state c ?f D) c + others D c)" if "dk_count D \<le> length (dk_candidate_states D)"
      using that by (simp only: silent perform_keys.simps simp_thms if_True add_0 add_mset_add_single [of _ "others D c"] add.commute)
    moreover have "alike (update_state c ?f D) (update_state c ?on (forget_harmonics c (snd E')))"
      by (cases "c < length (dk_candidate_states D)"; intro alike_states)
        (use e in \<open>auto simp: sends_def update_state_def forget_harmonics_def same_routing_def list_update_beyond\<close>)
    ultimately show ?thesis
      by (intro carried_sends [OF e assms(1)]) simp_all
  qed
  show ?thesis
    using stay by_string [OF _ sends_lanes] single [OF _ sends_transition] assms(1)
    by (simp add: strike_candidate_def append_candidate_note_on_def Let_def flip: n_def lanes_def v_def)
qed

lemma candidate_active_kept:
  "\<not> cs_active (candidate_state D c) \<Longrightarrow> \<not> cs_active (f (candidate_state D c)) \<Longrightarrow>
   \<not> cs_active (candidate_state (update_state c f D) c)"
  by (cases "c < length (dk_candidate_states D)")
    (simp_all add: candidate_state_def update_state_def list_update_beyond)

lemma carried_attack:
  assumes "c < dk_count (snd E)"
  shows "carried E (fst (attack_candidate M X c (E, k)))"
proof (cases E)
  case (Pair ts D)
  let ?D = "update_state c (cs_release_ticks_update (\<lambda>_. 0)) D"
  have c: "c < dk_count D" "c < dk_count ?D" using assms Pair by simp_all
  have b: "carried (ts, D) (ts, ?D)" by (rule carried_bookkeeping) (simp_all add: c)
  have idle: "carried (ts, D) (ts, update_state c (\<lambda>st. st\<lparr>cs_attack_ticks := 0, cs_age_ticks := 0\<rparr>) D)"
    by (rule carried_bookkeeping) (simp_all add: c)
  have age: "carried (ts, ?D) (ts, update_state c tick_age ?D)"
    by (rule carried_bookkeeping) (simp_all add: c tick_age_def)
  have stalled: "carried (ts, ?D) (ts, update_state c (stalled_attack ?D) ?D)"
    by (rule carried_bookkeeping) (simp_all add: c stalled_attack_def)
  have silent: "carried (ts, ?D) (ts, update_state c (\<lambda>_. st) ?D)" if "\<not> cs_active (candidate_state ?D c)" "\<not> cs_active st" for st
    by (rule carried_silent) (use c that in \<open>simp_all add: heard_silent\<close>)
  have clear: "carried (ts, ?D) (clear_candidate c (ts, ?D))" if "\<not> cs_active (candidate_state ?D c)"
    using silent [OF that] by (simp add: clear_candidate_def CandidateState_default_def)
  have strike: "carried (ts, ?D) (fst (strike_candidate M c ((ts, update_state c (\<lambda>_. st) ?D), k)))"
    if "\<not> cs_active (candidate_state ?D c)" "prepare_attack X ?D (candidate_state ?D c) = Some st" for st
  proof -
    have "\<not> cs_active st" using that by (auto simp: prepare_attack_def tick_age_def tick_attack_def split: if_splits)
    with that have "\<not> cs_active (candidate_state (update_state c (\<lambda>_. st) ?D) c)" by (simp add: candidate_active_kept)
    then have "carried (ts, update_state c (\<lambda>_. st) ?D) (fst (strike_candidate M c ((ts, update_state c (\<lambda>_. st) ?D), k)))"
      by (rule carried_strike [rotated]) (simp add: c)
    then show ?thesis using silent that \<open>\<not> cs_active st\<close> carried_trans by blast
  qed
  have "carried (ts, ?D) (fst (attack_candidate M X c (E, k)))" if "di_selected X ! c"
    using age stalled clear strike that Pair by (auto simp: attack_candidate_def Let_def split: option.split)
  then have "carried (ts, D) (fst (attack_candidate M X c (E, k)))" if "di_selected X ! c"
    using b that carried_trans by blast
  then show ?thesis using idle Pair by (cases "di_selected X ! c") (simp_all add: attack_candidate_def)
qed

subsection \<open>The decision\<close>

theorem lifecycle_carried: "carried E (note_lifecycle M X E)"
proof -
  define E1 where "E1 = update_calibrated_output_notes M (di_selected X) (di_selected_voice_count X) E"
  define n where "n = dk_count (snd E)"
  define E2 where "E2 = (fst E1, fold (gather_evidence X) [0..<n] (snd E1))"
  define R where "R = fold (release_candidate M X) [0..<n] (E2, 0)"
  have 1: "carried E E1" unfolding E1_def by (rule carried_calibrated_notes)
  then have n1: "dk_count (snd E1) = n" using same_routing_count [OF carried_same] by (simp add: n_def)
  have 2: "carried E1 E2"
    unfolding E2_def using carried_fold [where view = "\<lambda>D. (fst E1, D)" and f = "gather_evidence X" and start = "snd E1" and n = n]
    by (simp add: n1 carried_gather)
  then have n2: "dk_count (snd E2) = n" using n1 same_routing_count [OF carried_same] by simp
  have 3: "carried E2 (fst R)"
    unfolding R_def using carried_fold [where view = fst and f = "release_candidate M X" and start = "(E2, 0)" and n = n]
    by (simp add: n2 carried_release split_paired_all)
  then have n3: "dk_count (snd (fst R)) = n" using n2 same_routing_count [OF carried_same] by simp
  have 4: "carried (fst R) (fst (fold (attack_candidate M X) [0..<n] R))"
    using carried_fold [where view = fst and f = "attack_candidate M X" and start = R and n = n]
    by (simp add: n3 carried_attack split_paired_all)
  have "note_lifecycle M X E = fst (fold (attack_candidate M X) [0..<n] R)"
    by (simp add: note_lifecycle_def Let_def E1_def E2_def R_def n_def)
  then show ?thesis using 1 2 3 4 carried_trans by metis
qed

end
