(* ===== verification/Detector_Properties.thy ===== *)
theory Detector_Properties
  imports Detector_Lifecycle_Laws
begin

unbundle bit_operations_syntax

text \<open>
  The polyphony of a decision: releases count the notes that stay, and an attack only adds a note while the
  count is below the limit, so a decision never leaves more notes than the limit or than it found.
\<close>

definition active_candidates :: "Detector \<Rightarrow> nat" where
  "active_candidates D = length (filter (\<lambda>c. cs_active (candidate_state D c)) [0..<dk_count D])"

subsection \<open>Frames\<close>

text \<open>A step that may start or end the notes of the candidates of a set only.\<close>

definition only_at :: "nat set \<Rightarrow> Detector \<Rightarrow> Detector \<Rightarrow> bool" where
  "only_at C D D' \<longleftrightarrow> dk_max_polyphony D' = dk_max_polyphony D \<and> dk_count D' = dk_count D
     \<and> length (dk_candidate_states D') = length (dk_candidate_states D)
     \<and> (\<forall>c. c \<notin> C \<longrightarrow> cs_active (candidate_state D' c) = cs_active (candidate_state D c))"

lemma only_at_refl [simp]: "only_at C D D"
  by (simp add: only_at_def)

lemma only_at_trans: "only_at C D D' \<Longrightarrow> only_at C D' D'' \<Longrightarrow> only_at C D D''"
  by (simp add: only_at_def)

lemma only_at_mono: "only_at {} D D' \<Longrightarrow> only_at C D D'"
  by (simp add: only_at_def)

lemma only_at_update [simp]: "only_at {c} D (update_state c f D)"
  by (simp add: only_at_def) (simp add: update_state_def candidate_state_def)

lemma only_at_bookkeeping: "(\<And>st. cs_active (f st) = cs_active st) \<Longrightarrow> only_at {} D (update_state c f D)"
  by (simp add: only_at_def active_update) (simp add: update_state_def)

lemma only_at_sends: "sends ks E E' \<Longrightarrow> only_at {} (snd E) (snd E')"
  by (auto simp: sends_def only_at_def)

lemma only_at_forget [simp]: "only_at {} D (forget_harmonics c D)"
  by (simp add: only_at_def forget_harmonics_def dk_count_def candidate_state_def)

lemma only_at_count: "only_at C D D' \<Longrightarrow> dk_count D' = dk_count D"
  by (simp add: only_at_def)

lemma only_at_active: "only_at {} D D' \<Longrightarrow> cs_active (candidate_state D' c) = cs_active (candidate_state D c)"
  by (simp add: only_at_def)

lemma only_at_polyphony: "only_at C D D' \<Longrightarrow> dk_max_polyphony D' = dk_max_polyphony D"
  by (simp add: only_at_def)

subsection \<open>Steps that start and end no note\<close>

lemma change_note_only: "only_at {} (snd E) (snd (change_candidate_output_note M c n E))"
proof (cases E)
  case (Pair ts D)
  have upd: "only_at {} D (update_state c (cs_emitted_note_update (\<lambda>_. n)) (snd E'))" if "sends ks (ts, D) E'" for ks E'
    by (rule only_at_trans [OF only_at_sends [OF that, simplified] only_at_bookkeeping]) simp
  have "sends (concat (map (\<lambda>s. [(note_off, of_nat s, p), (note_on, of_nat s, n)]) (filter (bit w) [0..<kMaxVoices]))) (ts, D)
      (fold (\<lambda>s E. if bit w s then change_lane p n v s E else E) [0..<kMaxVoices] (ts, D))" for p v and w :: u8
    by (rule sends_fold, rule sends_change_lane)
  from upd [OF this] upd [OF sends_append [OF sends_transition sends_transition]] show ?thesis
    by (simp add: change_candidate_output_note_def Pair Let_def)
qed

lemma calibrate_only: "only_at {} (snd E) (snd (calibrate_output_note M selected k c E))"
proof -
  have target: "only_at {} D (update_state c forget_output_target D)" "only_at {} D (update_state c (start_output_target n) D)"
    "only_at {} D (update_state c count_output_target D)" for D n
    by (rule only_at_bookkeeping; simp add: forget_output_target_def start_output_target_def count_output_target_def)+
  have f: "only_at {} (snd E) (snd (forget_target c E))" for E by (simp add: forget_target_def target)
  have fc: "only_at {} (snd E) (snd (forget_target c (change_candidate_output_note M c n E)))" for E n
    by (rule only_at_trans [OF change_note_only f])
  have "only_at {} (snd E) (snd (reach_consensus M c n keep E))"
    if keep: "\<And>E. only_at {} (snd E) (snd (keep (change_candidate_output_note M c n E)))" for E n keep
  proof (cases E)
    case (Pair ts D)
    have "only_at {} D (snd (keep (change_candidate_output_note M c n (ts, update_state c count_output_target D))))"
      by (rule only_at_trans [OF target(3)]) (use keep [of "(ts, update_state c count_output_target D)"] in simp)
    with target show ?thesis by (simp add: reach_consensus_def Pair Let_def)
  qed
  then have k: "only_at {} (snd E) (snd (reach_consensus M c n (forget_target c) E))"
    "only_at {} (snd E) (snd (reach_consensus M c n id E))" for n
    using fc change_note_only by simp_all
  show ?thesis
  proof (cases E)
    case (Pair ts D)
    show ?thesis using f [of E] fc [of E] k by (simp add: Pair calibrate_output_note_def Let_def)
  qed
qed

lemma only_at_fold:
  "(\<And>c R. only_at {} (view R) (view (f c R))) \<Longrightarrow> only_at {} (view R) (view (fold f cs R))"
  by (induction cs arbitrary: R) (auto intro: only_at_trans)

lemma calibrated_notes_only: "only_at {} (snd E) (snd (update_calibrated_output_notes M selected k E))"
  using only_at_fold [where view = snd and f = "calibrate_output_note M selected k"]
  by (simp add: update_calibrated_output_notes_def calibrate_only)

lemma gather_only: "only_at {} D (fold (gather_evidence X) cs D)"
  using only_at_fold [where view = "\<lambda>D. D" and f = "gather_evidence X"]
  by (simp add: gather_evidence_def only_at_bookkeeping)

subsection \<open>Releases\<close>

lemma note_off_only: "only_at {} (snd E) (snd (snd (append_candidate_note_off c E)))"
proof (cases E)
  case (Pair ts D)
  show ?thesis
    using only_at_sends [OF sends_lanes, of "(ts, D)"] only_at_sends [OF sends_transition, of "(ts, D)"]
    by (simp add: append_candidate_note_off_def Pair Let_def)
qed

lemma move_lanes_only: "only_at {} (snd E) (snd (move_lanes M c E))"
proof -
  have "only_at {} (snd E) (update_state c (cs_midi_voice_mask_update (\<lambda>_. w)) (snd E'))" if "sends ks E E'" for w ks E'
    by (rule only_at_trans [OF only_at_sends [OF that] only_at_bookkeeping]) simp
  from this [OF sends_append [OF sends_lanes sends_lanes]] show ?thesis by (simp add: move_lanes_def Let_def)
qed

text \<open>A step that leaves other candidates alone and counts the candidate exactly if it stays.\<close>

definition stays_counted :: "nat \<Rightarrow> Detector \<Rightarrow> nat \<Rightarrow> emission \<times> nat \<Rightarrow> bool" where
  "stays_counted c D k R \<longleftrightarrow> only_at {c} D (snd (fst R))
     \<and> (if cs_active (candidate_state (snd (fst R)) c) then cs_active (candidate_state D c) \<and> snd R = k + 1 else snd R = k)"

lemma stays_countedI:
  "only_at {} D (snd E) \<Longrightarrow> cs_active (candidate_state D c) \<Longrightarrow> stays_counted c D k (E, k + 1)"
  by (simp add: stays_counted_def only_at_mono only_at_active)

lemma ends_countedI:
  "only_at {} D (snd E) \<Longrightarrow> c < length (dk_candidate_states D) \<Longrightarrow> stays_counted c D k (clear_candidate c E, k)"
  by (auto simp: stays_counted_def clear_candidate_def candidate_state_update CandidateState_default_def only_at_def)
    (auto simp: update_state_def candidate_state_def)

lemma coast_counted:
  assumes "c < length (dk_candidate_states D)" "cs_active (candidate_state D c)"
  shows "stays_counted c D k (coast_candidate X c ((ts, D), k))"
proof -
  let ?f = "\<lambda>st. if cs_release_ticks st < - 1 then st\<lparr>cs_release_ticks := cs_release_ticks st + 1\<rparr> else st"
  let ?E = "(ts, update_state c ?f D)"
  have b: "only_at {} D (snd ?E)" using only_at_bookkeeping [of ?f D c] by simp
  obtain released E' where app: "append_candidate_note_off c ?E = (released, E')" by (cases "append_candidate_note_off c ?E")
  have e: "only_at {} D (snd E')" using only_at_trans [OF b note_off_only, of c] app by simp
  show ?thesis
    using stays_countedI [OF b assms(2), of k] stays_countedI [OF e assms(2), of k] ends_countedI [OF e assms(1), of k] app
    by (simp add: coast_candidate_def Let_def)
qed

lemma release_counted:
  assumes "c < length (dk_candidate_states D)"
  shows "stays_counted c D k (release_candidate M X c ((ts, D), k))"
proof (cases "cs_active (candidate_state D c)")
  case True
  let ?E = "(ts, update_state c (cs_release_ticks_update (\<lambda>_. 0)) D)"
  have b: "only_at {} D (snd ?E)" using only_at_bookkeeping [of "cs_release_ticks_update (\<lambda>_. 0)" D c] by simp
  have m: "only_at {} D (snd (move_lanes M c ?E))" using only_at_trans [OF b move_lanes_only] by simp
  obtain released E' where app: "append_candidate_note_off c (ts, D) = (released, E')" by (cases "append_candidate_note_off c (ts, D)")
  have e: "only_at {} D (snd E')" using note_off_only [of "(ts, D)" c] app by simp
  have "E' = (ts, D)" if "\<not> released"
    using app that by (simp add: append_candidate_note_off_def Let_def split: if_splits)
  then show ?thesis
    using True coast_counted [OF assms True, of k X ts] stays_countedI [OF b True, of k] stays_countedI [OF m True, of k]
      ends_countedI [OF e assms, of k] app
    by (simp add: release_candidate_def Let_def)
qed (simp add: release_candidate_def stays_counted_def)

lemma release_loop:
  assumes "distinct cs" "\<forall>c \<in> set cs. c < length (dk_candidate_states D)"
  shows "case fold (release_candidate M X) cs ((ts, D), k) of ((ts', D'), k') \<Rightarrow>
     only_at (set cs) D D' \<and> k' = k + length (filter (\<lambda>c. cs_active (candidate_state D' c)) cs)
     \<and> (\<forall>c. cs_active (candidate_state D' c) \<longrightarrow> cs_active (candidate_state D c))"
  using assms
proof (induction cs arbitrary: ts D k)
  case (Cons c cs)
  obtain ts1 D1 k1 where r: "release_candidate M X c ((ts, D), k) = ((ts1, D1), k1)" by (metis surj_pair)
  have s: "stays_counted c D k ((ts1, D1), k1)" using release_counted [of c D k M X ts] Cons.prems r by simp
  then have l: "length (dk_candidate_states D1) = length (dk_candidate_states D)" by (simp add: stays_counted_def only_at_def)
  obtain ts' D' k' where f: "fold (release_candidate M X) cs ((ts1, D1), k1) = ((ts', D'), k')" by (metis surj_pair)
  have "only_at (set cs) D1 D'" "k' = k1 + length (filter (\<lambda>c. cs_active (candidate_state D' c)) cs)"
    "\<And>c. cs_active (candidate_state D' c) \<Longrightarrow> cs_active (candidate_state D1 c)"
    using Cons.IH [where D = D1 and ts = ts1 and k = k1] Cons.prems f l by auto
  with s r f Cons.prems show ?case
    by (auto simp: stays_counted_def only_at_def split: if_splits) (metis)+
qed simp

subsection \<open>Attacks\<close>

text \<open>An attack keeps what sounds and counts the note it adds, which it only adds below the limit.\<close>

definition starts_counted :: "nat \<Rightarrow> Detector \<Rightarrow> nat \<Rightarrow> emission \<times> nat \<Rightarrow> bool" where
  "starts_counted c D k R \<longleftrightarrow> only_at {c} D (snd (fst R))
     \<and> (if cs_active (candidate_state D c) then cs_active (candidate_state (snd (fst R)) c) \<and> snd R = k
        else if cs_active (candidate_state (snd (fst R)) c) then snd R = k + 1 \<and> k < unat (dk_max_polyphony D)
        else snd R = k)"

lemma starts_countedI:
  "only_at {} D (snd E) \<Longrightarrow> starts_counted c D k (E, k)"
  by (simp add: starts_counted_def only_at_mono only_at_active)

lemma starts_counted_after:
  "only_at {} D D1 \<Longrightarrow> starts_counted c D1 k R \<Longrightarrow> starts_counted c D k R"
  by (auto simp: starts_counted_def only_at_def split: if_splits)

lemma note_on_only: "only_at {} (snd E) (snd (snd (append_candidate_note_on c v E)))"
proof (cases E)
  case (Pair ts D)
  let ?D1 = "update_state c (cs_emitted_note_update (\<lambda>_. candidate_note D c)) D"
  have 1: "only_at {} D ?D1" by (rule only_at_bookkeeping) simp
  have e: "only_at {} D (snd E')" if "sends ks (ts, ?D1) E'" for ks E'
    using only_at_trans [OF 1] only_at_sends [OF that] by simp
  have m: "only_at {} D (update_state c (cs_midi_voice_mask_update (\<lambda>_. w)) (snd E'))" if "sends ks (ts, ?D1) E'" for w ks E'
    by (rule only_at_trans [OF e [OF that] only_at_bookkeeping]) simp
  show ?thesis
    using only_at_trans [OF e [OF sends_transition] only_at_forget] only_at_trans [OF m [OF sends_lanes] only_at_forget]
    by (simp add: append_candidate_note_on_def Pair Let_def)
qed

lemma strike_counted:
  assumes "c < length (dk_candidate_states D)" "\<not> cs_active (candidate_state D c)" "k < unat (dk_max_polyphony D)"
  shows "starts_counted c D k (strike_candidate M c ((ts, D), k))"
proof -
  let ?on = "\<lambda>st. st\<lparr>cs_active := True, cs_attack_ticks := 0, cs_evidence_ticks := 0\<rparr>"
  obtain struck ts' D' where app: "append_candidate_note_on c (dynamic_velocity M D) (ts, D) = (struck, (ts', D'))"
    by (metis surj_pair)
  have o: "only_at {} D D'" using note_on_only [of "(ts, D)" c "dynamic_velocity M D"] app by simp
  have "only_at {c} D (update_state c ?on D')" by (rule only_at_trans [OF only_at_mono [OF o] only_at_update])
  moreover have "cs_active (candidate_state (update_state c ?on D') c)"
    using assms(1) o by (simp add: candidate_state_update only_at_def)
  moreover have "only_at {} D (update_state c (cs_attack_ticks_update (\<lambda>_. a)) D')" for a
    by (rule only_at_trans [OF o only_at_bookkeeping]) simp
  ultimately show ?thesis using assms starts_countedI app
    by (simp add: strike_candidate_def) (simp add: starts_counted_def)
qed

lemma attack_counted:
  assumes "c < length (dk_candidate_states D)"
  shows "starts_counted c D k (attack_candidate M X c ((ts, D), k))"
proof (cases "di_selected X ! c")
  case True
  let ?D = "update_state c (cs_release_ticks_update (\<lambda>_. 0)) D"
  have b: "only_at {} D ?D" by (rule only_at_bookkeeping) simp
  have c: "c < length (dk_candidate_states ?D)" using assms by simp
  have age: "only_at {} ?D (update_state c tick_age ?D)" "only_at {} ?D (update_state c (stalled_attack ?D) ?D)"
    by (rule only_at_bookkeeping, simp add: tick_age_def stalled_attack_def)+
  have silent: "only_at {} ?D (update_state c (\<lambda>_. st) ?D)" if "\<not> cs_active (candidate_state ?D c)" "\<not> cs_active st" for st
    using that c by (auto simp: only_at_def candidate_state_update) (simp add: update_state_def)
  have strike: "starts_counted c ?D k (strike_candidate M c ((ts, update_state c (\<lambda>_. st) ?D), k))"
    if "\<not> cs_active (candidate_state ?D c)" "prepare_attack X ?D (candidate_state ?D c) = Some st" "k < unat (dk_max_polyphony ?D)" for st
  proof -
    have st: "\<not> cs_active st" using that by (auto simp: prepare_attack_def tick_age_def tick_attack_def split: if_splits)
    have "starts_counted c (update_state c (\<lambda>_. st) ?D) k (strike_candidate M c ((ts, update_state c (\<lambda>_. st) ?D), k))"
      by (rule strike_counted) (use assms st that only_at_polyphony [OF silent [OF that(1) st]] in \<open>simp_all add: candidate_active_kept\<close>)
    then show ?thesis by (rule starts_counted_after [OF silent [OF that(1) st]])
  qed
  have "starts_counted c ?D k (attack_candidate M X c ((ts, D), k))"
    using strike starts_countedI [of ?D "(ts, update_state c tick_age ?D)"] age starts_countedI [of ?D "(ts, update_state c (stalled_attack ?D) ?D)"]
      starts_countedI [of ?D "(ts, update_state c (\<lambda>_. CandidateState_default) ?D)"] silent [of CandidateState_default] True
    by (auto simp: attack_candidate_def Let_def clear_candidate_def CandidateState_default_def not_le split: option.split)
  then show ?thesis by (rule starts_counted_after [OF b])
next
  case False
  have "only_at {} D (update_state c (\<lambda>st. st\<lparr>cs_attack_ticks := 0, cs_age_ticks := 0\<rparr>) D)" by (rule only_at_bookkeeping) simp
  then show ?thesis using False starts_countedI [of D "(ts, D)"] starts_countedI [of D "(ts, update_state c (\<lambda>st. st\<lparr>cs_attack_ticks := 0, cs_age_ticks := 0\<rparr>) D)"]
    by (simp add: attack_candidate_def)
qed

lemma attack_loop:
  assumes "distinct cs" "\<forall>c \<in> set cs. c < length (dk_candidate_states D)"
  shows "case fold (attack_candidate M X) cs ((ts, D), k) of ((ts', D'), k') \<Rightarrow>
     only_at (set cs) D D' \<and> k' \<le> max k (unat (dk_max_polyphony D)) \<and> k \<le> k'
     \<and> length (filter (\<lambda>c. cs_active (candidate_state D' c)) cs) + k
       = length (filter (\<lambda>c. cs_active (candidate_state D c)) cs) + k'"
  using assms
proof (induction cs arbitrary: ts D k)
  case (Cons c cs)
  obtain ts1 D1 k1 where r: "attack_candidate M X c ((ts, D), k) = ((ts1, D1), k1)" by (metis surj_pair)
  have s: "starts_counted c D k ((ts1, D1), k1)" using attack_counted [of c D k M X ts] Cons.prems r by simp
  then have l: "length (dk_candidate_states D1) = length (dk_candidate_states D)" "dk_max_polyphony D1 = dk_max_polyphony D"
    by (simp_all add: starts_counted_def only_at_def)
  have same: "filter (\<lambda>c. cs_active (candidate_state D1 c)) cs = filter (\<lambda>c. cs_active (candidate_state D c)) cs"
    using s Cons.prems(1) by (intro filter_cong) (auto simp: starts_counted_def only_at_def)
  obtain ts' D' k' where f: "fold (attack_candidate M X) cs ((ts1, D1), k1) = ((ts', D'), k')" by (metis surj_pair)
  have "only_at (set cs) D1 D'" "k' \<le> max k1 (unat (dk_max_polyphony D))" "k1 \<le> k'"
    "length (filter (\<lambda>c. cs_active (candidate_state D' c)) cs) + k1 = length (filter (\<lambda>c. cs_active (candidate_state D c)) cs) + k'"
    using Cons.IH [where D = D1 and ts = ts1 and k = k1] Cons.prems f l same by auto
  moreover from this have "cs_active (candidate_state D' c) = cs_active (candidate_state D1 c)"
    using Cons.prems(1) by (simp add: only_at_def)
  ultimately show ?case using s r f
    by (auto simp: starts_counted_def only_at_def split: if_splits)
qed simp

text \<open>
  C20: A decision never leaves more notes sounding than the polyphony allows, or than sounded before it if the
  limit was lowered meanwhile: whatever candidates are selected, at most the larger of the two is active after
  the note lifecycle.
\<close>

theorem polyphony_bounded:
  assumes "dk_count D \<le> length (dk_candidate_states D)"
  shows "active_candidates (snd (note_lifecycle M X (ts, D))) \<le> max (active_candidates D) (unat (dk_max_polyphony D))"
proof -
  let ?on = "\<lambda>D. length (filter (\<lambda>c. cs_active (candidate_state D c)) [0..<dk_count D])"
  define E1 where "E1 = update_calibrated_output_notes M (di_selected X) (di_selected_voice_count X) (ts, D)"
  define D2 where "D2 = fold (gather_evidence X) [0..<dk_count D] (snd E1)"
  have o: "only_at {} D D2"
    unfolding D2_def by (rule only_at_trans [OF _ gather_only]) (use calibrated_notes_only [of "(ts, D)"] in \<open>simp add: E1_def\<close>)
  obtain ts3 D3 k3 where r: "fold (release_candidate M X) [0..<dk_count D] ((fst E1, D2), 0) = ((ts3, D3), k3)" by (metis surj_pair)
  obtain ts4 D4 k4 where a: "fold (attack_candidate M X) [0..<dk_count D] ((ts3, D3), k3) = ((ts4, D4), k4)" by (metis surj_pair)
  have "note_lifecycle M X (ts, D) = (ts4, D4)"
    using r a by (simp add: note_lifecycle_def Let_def E1_def D2_def)
  moreover have "\<forall>c \<in> set [0..<dk_count D]. c < length (dk_candidate_states D2)" using assms o by (simp add: only_at_def)
  from release_loop [where M = M and X = X and ts = "fst E1" and k = 0, OF distinct_upt this] r
  have R: "only_at (set [0..<dk_count D]) D2 D3" "k3 = ?on D3"
    "\<And>c. cs_active (candidate_state D3 c) \<Longrightarrow> cs_active (candidate_state D2 c)"
    using o by (simp_all add: only_at_def)
  have "\<forall>c \<in> set [0..<dk_count D]. c < length (dk_candidate_states D3)" using assms o R(1) by (simp add: only_at_def)
  from attack_loop [where M = M and X = X and ts = ts3 and k = k3, OF distinct_upt this] a
  have A: "only_at (set [0..<dk_count D]) D3 D4" "k4 \<le> max k3 (unat (dk_max_polyphony D3))" "?on D4 = k4"
    using o R(1,2) by (simp_all add: only_at_def)
  have "?on D3 \<le> ?on D"
    using R(1,3) o only_at_active [OF o]
    by (auto simp: only_at_def length_filter_conv_card intro!: card_mono)
  with A(2,3) R o \<open>note_lifecycle M X (ts, D) = (ts4, D4)\<close> show ?thesis
    by (simp add: active_candidates_def only_at_def)
qed

text \<open>The configured range of notes with a chord of two selected candidates, over the identity as mathematics.\<close>

definition sample_detector :: Detector where
  "sample_detector = Detector_default\<lparr>dk_candidate_count := 53, dk_lowest_note := 32, dk_max_polyphony := 8\<rparr>"

definition sample_math :: DetectorMath where
  "sample_math = \<lparr>dm_expm1 = id, dm_atan2 = (\<lambda>y x. y), dm_cos = id, dm_log10 = id, dm_pow10 = id, dm_exp = id, dm_log = id\<rparr>"

definition sample_input :: DecisionInput where
  "sample_input = \<lparr>di_selected = (replicate kMaxCandidates False)[4 := True, 11 := True], di_selected_voice_count = 2,
     di_scores = replicate kMaxCandidates 1, di_fundamentals = replicate kMaxCandidates 1,
     di_quiet = False, di_had_active_voice = False\<rparr>"

lemma sample_detector_simps:
  "dk_count sample_detector = 53" "length (dk_candidate_states sample_detector) = 87" "dk_max_polyphony sample_detector = 8"
  "candidate_state sample_detector c = (replicate 87 CandidateState_default) ! c"
  by (simp_all add: sample_detector_def dk_count_def Detector_default_def kMaxCandidates_def candidate_state_def)

theorem polyphony_bounded_witness:
  "active_candidates (snd (note_lifecycle sample_math sample_input ([], sample_detector))) \<le> 8"
proof -
  have "active_candidates sample_detector = 0"
    by (simp add: active_candidates_def sample_detector_simps CandidateState_default_def filter_False)
  then show ?thesis
    using polyphony_bounded [of sample_detector sample_math sample_input "[]"] by (simp add: sample_detector_simps)
qed

text \<open>The properties of the detector's decisions.\<close>

text \<open>
  C12: The note lifecycle of a decision says exactly what it does. It asks for a list of transitions which,
  performed in order on the notes the detector holds (one per string under per-voice routing, one per pitch
  otherwise), never releases a note that is not held and leaves exactly the notes the detector holds
  afterwards. The decision carries the first sixteen of them; with less than sixteen it carries them all.
\<close>

theorem decision_in_sync:
  assumes "dk_count D \<le> length (dk_candidate_states D)"
  shows "case note_lifecycle M X ([], D) of (ts, D') \<Rightarrow>
     \<exists>us. ts = take kMaxTickTransitions us \<and> perform us (ringing D) = Some (ringing D')"
proof -
  obtain ts D' where l: "note_lifecycle M X ([], D) = (ts, D')" by (metis surj_pair)
  obtain us where "ts = take kMaxTickTransitions us" "perform us (ringing D) = Some (ringing D')"
    using lifecycle_carried [of "([], D)" M X] assms by (auto simp: carried_def shaped_def l)
  then show ?thesis by (auto simp: l)
qed

theorem decision_in_sync_witness:
  "case note_lifecycle sample_math sample_input ([], sample_detector) of (ts, D') \<Rightarrow>
     \<exists>us. ts = take kMaxTickTransitions us \<and> perform us (ringing sample_detector) = Some (ringing D')"
  by (rule decision_in_sync) (simp add: sample_detector_simps)

text \<open>
  Nothing tells the lifecycle that its vector is full: a sounding note whose strings change in a decision that
  already carries sixteen transitions changes them silently.
\<close>

lemma full_decision_loses_lanes:
  assumes "length ts = kMaxTickTransitions" "c < length (dk_candidate_states D)"
  shows "fst (move_lanes M c (ts, D)) = ts"
    "cs_midi_voice_mask (candidate_state (snd (move_lanes M c (ts, D))) c)
       = projected_output_string_mask (cs_assigned_string_mask (candidate_state D c)) (cs_assigned_string (candidate_state D c))
           (cs_spectral_lane_mask (candidate_state D c)) (cs_continuity_lane_mask (candidate_state D c))"
proof -
  have "fst E' = ts \<and> candidate_state (snd E') = candidate_state D \<and> dk_candidate_states (snd E') = dk_candidate_states D"
    if "sends ks (ts, D) E'" for ks E'
    using that assms(1) by (auto simp: sends_def)
  from this [OF sends_append [OF sends_lanes sends_lanes]]
  show "fst (move_lanes M c (ts, D)) = ts"
    "cs_midi_voice_mask (candidate_state (snd (move_lanes M c (ts, D))) c)
       = projected_output_string_mask (cs_assigned_string_mask (candidate_state D c)) (cs_assigned_string (candidate_state D c))
           (cs_spectral_lane_mask (candidate_state D c)) (cs_continuity_lane_mask (candidate_state D c))"
    using assms(2) by (simp_all add: move_lanes_def Let_def candidate_state_update)
qed

end
