(* ===== verification/Detector_Selection.thy ===== *)
theory Detector_Selection
  imports Detector_Voices Harmonic_Evidence
begin

unbundle bit_operations_syntax

text \<open>
  Which pitches a decision takes for sounding (\<open>select_m3_feasible_candidates\<close> of
  \<open>src/polyphonic_pitch_detector.cpp\<close>): groups of strings that are kept together, candidates with enough
  evidence, harmonic shadows of stronger candidates, and at last a table over the sets of strings (entry
  \<open>used\<close> is the best choice that takes exactly those strings), in which every candidate is given a string or
  a whole group. The members of the offline replay build are left out.
\<close>

definition kNarrowFundamentalSeconds :: f64 where "kNarrowFundamentalSeconds = f64_rat 250 1000"
definition kNarrowFundamentalRelativeFloor :: f64 where "kNarrowFundamentalRelativeFloor = f64_rat 12 100"
definition kM3StringMaskCount :: nat where "kM3StringMaskCount = 2 ^ 8"
definition kM3OpenChordMinimum :: nat where "kM3OpenChordMinimum = 2"
definition kM3FrettedNotePenalty :: f64 where "kM3FrettedNotePenalty = f64_rat 20 100"
definition kM3FretPenalty :: f64 where "kM3FretPenalty = f64_rat 5 1000"
definition kM3CalibratedBandRescueScoreRatio :: f64 where "kM3CalibratedBandRescueScoreRatio = f64_rat 20 100"
definition kM3CalibratedBandRescueFundamentalRatio :: f64 where "kM3CalibratedBandRescueFundamentalRatio = f64_rat 80 100"
definition kM3CalibratedBandRescueScorePeakRatio :: f64 where "kM3CalibratedBandRescueScorePeakRatio = f64_rat 90 100"
definition kM3CalibratedBandRescueFundamentalPeakRatio :: f64 where
  "kM3CalibratedBandRescueFundamentalPeakRatio = f64_rat 80 100"
definition kM3CalibratedBandRescueMinimumSimilarity :: f64 where
  "kM3CalibratedBandRescueMinimumSimilarity = f64_rat 97 100"
definition kM3CalibratedBandRescueMinimumMargin :: f64 where "kM3CalibratedBandRescueMinimumMargin = f64_rat 2 100"
definition kM3CalibratedBandRescueMinimumString :: u8 where "kM3CalibratedBandRescueMinimumString = 6"
definition kM3IsolatedThirdPartialMinimumSimilarity :: f64 where
  "kM3IsolatedThirdPartialMinimumSimilarity = f64_rat 90 100"
definition kM3IsolatedThirdPartialMinimumMargin :: f64 where "kM3IsolatedThirdPartialMinimumMargin = f64_rat 20 100"
definition kM3RetainedUnisonDecayFloorRatio :: f64 where "kM3RetainedUnisonDecayFloorRatio = f64_rat 50 100"
definition kM3RetainedUnisonRobustConfirmationSeconds :: f64 where
  "kM3RetainedUnisonRobustConfirmationSeconds = f64_rat 75 100"

text \<open>What a decision measured: the scores, the energies of the fundamentals, and the threshold.\<close>

record Spectrum =
  sp_scores :: "f64 list"
  sp_fundamentals :: "f64 list"
  sp_narrow_fundamentals :: "f64 list"
  sp_threshold :: f64

definition score :: "Spectrum \<Rightarrow> nat \<Rightarrow> f64" where "score S c = sp_scores S ! c"
definition fundamental :: "Spectrum \<Rightarrow> nat \<Rightarrow> f64" where "fundamental S c = sp_fundamentals S ! c"

definition fine_state :: "Detector \<Rightarrow> nat \<Rightarrow> FineFrequencyEvidenceState" where
  "fine_state D c = dk_fine_frequency_evidence_states D ! c"

definition local_peak :: "Detector \<Rightarrow> Spectrum \<Rightarrow> nat \<Rightarrow> bool" where
  "local_peak D S c \<longleftrightarrow> is_local_peak (sp_scores S) c (dk_count D)"

definition direct_peak :: "Detector \<Rightarrow> Spectrum \<Rightarrow> nat \<Rightarrow> bool" where
  "direct_peak D S c \<longleftrightarrow> has_direct_fundamental_peak (sp_scores S) (sp_fundamentals S) c (dk_count D)"

definition m3_evidence :: "Detector \<Rightarrow> Spectrum \<Rightarrow> nat \<Rightarrow> bool" where
  "m3_evidence D S c \<longleftrightarrow> has_m3_candidate_evidence (sp_scores S) (sp_fundamentals S) c (dk_count D)"

definition direct_support :: "DetectorMath \<Rightarrow> Detector \<Rightarrow> Spectrum \<Rightarrow> nat \<Rightarrow> bool" where
  "direct_support M D S c \<longleftrightarrow>
     has_calibrated_direct_support M D (sp_scores S) (sp_fundamentals S) c (dk_count D) (sp_threshold S)"

subsection \<open>Groups that are kept together\<close>

text \<open>A sounding group whose strings still beat against each other is an option of its own.\<close>

definition retained_group :: "Detector \<Rightarrow> Spectrum \<Rightarrow> nat \<Rightarrow> bool" where
  "retained_group D S c \<longleftrightarrow>
     (let st = candidate_state D c; fine = fine_state D c; committed = cs_assigned_string_mask st;
          ms = string_count committed;
          robust_confirmation_ticks =
            word_of_int (decisions_in kM3RetainedUnisonRobustConfirmationSeconds (dk_sample_rate D) (2 ^ 16 - 1));
          minimum_supported = (kM3RetainedUnisonMinimumBeatCoherence \<le> ff_minimum_pairwise_beat_coherence fine);
          robust_supported = (3 \<le> ms \<and> ff_robust_pairwise_beat_connected fine
             \<and> kM3RetainedUnisonRobustWeakPairFloor \<le> ff_minimum_pairwise_beat_coherence fine
             \<and> robust_confirmation_ticks \<le> cs_committed_unison_confirmed_ticks st)
      in cs_active st \<and> 2 \<le> ms \<and> ms \<le> 4 \<and> ms \<le> dk_max_polyphony D
         \<and> ff_valid fine \<and> ff_multi_source_observed fine \<and> ff_member_mask fine = committed
         \<and> (minimum_supported \<or> robust_supported) \<and> committed AND playable_string_mask D c = committed
         \<and> \<not> score S c \<le> sp_threshold S * kM3RetainedUnisonDecayFloorRatio)"

definition consider_retained :: "Detector \<Rightarrow> Spectrum \<Rightarrow> nat \<Rightarrow> u8 list \<times> nat option \<Rightarrow> u8 list \<times> nat option" where
  "consider_retained D S c G =
     (case G of (masks, retained) \<Rightarrow>
        if \<not> retained_group D S c then G
        else (masks[c := cs_assigned_string_mask (candidate_state D c)],
              case retained of None \<Rightarrow> Some c
              | Some r \<Rightarrow> if score S c \<le> score S r then retained else Some c))"

text \<open>The heads of the spectrum: for each the best string, and its margin over the second.\<close>

definition reference_energy :: "StringCalibrationPoint \<Rightarrow> f64 list" where
  "reference_energy p = map (\<lambda>h. f64_of_int (uint (cp_harmonic_profile_q15 p ! h))) [0..<kHarmonicEvidenceCount]"

definition settled_energy :: "Detector \<Rightarrow> nat \<Rightarrow> f64 list" where
  "settled_energy D c =
     map (\<lambda>h. f64_rat 25 100 * (dk_harmonic_energy_memory D ! c ! h)
              + f64_rat 75 100 * (dk_long_harmonic_energy_memory D ! c ! h)) [0..<kHarmonicEvidenceCount]"

definition head_scores :: "f64 \<Rightarrow> HarmonicEvidence \<Rightarrow> HarmonicEvidence \<Rightarrow> HarmonicEvidence \<Rightarrow> f64 list" where
  "head_scores transient fast settled reference =
     (let f = compare_spectral_tiers fast reference; t = compare_spectral_tiers settled reference
      in map (\<lambda>tier. (1 - transient) * (tc_tier_log_likelihood f ! tier) + transient * (tc_tier_log_likelihood t ! tier))
           [0..<kSpectralTierCount]
         @ [(1 - transient) * tc_overtone_separation_log_likelihood f
            + transient * tc_overtone_separation_log_likelihood t])"

record HeadScan =
  hd_best_string :: "u8 list"
  hd_best :: "f64 list"
  hd_second :: "f64 list"

definition take_head :: "nat \<Rightarrow> f64 list \<Rightarrow> nat \<Rightarrow> HeadScan \<Rightarrow> HeadScan" where
  "take_head s scores h scan =
     (if hd_best scan ! h < scores ! h
      then scan\<lparr>hd_second := (hd_second scan)[h := hd_best scan ! h], hd_best := (hd_best scan)[h := scores ! h],
                hd_best_string := (hd_best_string scan)[h := of_nat s]\<rparr>
      else if hd_second scan ! h < scores ! h then scan\<lparr>hd_second := (hd_second scan)[h := scores ! h]\<rparr>
      else scan)"

definition string_fret_spectral_head_evidence :: "DetectorMath \<Rightarrow> Detector \<Rightarrow> nat \<Rightarrow> SpectralHeadEvidence" where
  "string_fret_spectral_head_evidence M D c =
     (let heads = kSpectralTierCount + 1; unassigned = replicate heads kUnassignedTunerString
      in if dk_count D \<le> c then \<lparr>sh_best_string = unassigned, sh_margin = replicate heads 0\<rparr>
         else let fast_energy = map (profile_harmonic_energy M D c) [0..<kHarmonicEvidenceCount];
                  settled_total = sum_over kHarmonicEvidenceCount (\<lambda>h. settled_energy D c ! h);
                  fast = make_harmonic_evidence (dm_log M) fast_energy;
                  settled = make_harmonic_evidence (dm_log M)
                    (if settled_total \<le> kScoreEpsilon then fast_energy else settled_energy D c);
                  transient = harmonic_transient_strength fast settled;
                  consider = (\<lambda>s scan. if \<not> bit (playable_string_mask D c) s then scan
                    else case fret_point D (candidate_note D c) s of
                           None \<Rightarrow> scan
                         | Some p \<Rightarrow> fold (take_head s (head_scores transient fast settled
                                         (make_harmonic_evidence (dm_log M) (reference_energy p)))) [0..<heads] scan);
                  scan = fold consider [0..<length kM3OpenNotes]
                    \<lparr>hd_best_string = unassigned, hd_best = replicate heads (f64_infinity True),
                     hd_second = replicate heads (f64_infinity True)\<rparr>
              in \<lparr>sh_best_string = hd_best_string scan,
                  sh_margin = map (\<lambda>h. if is_finite (hd_best scan ! h) \<and> is_finite (hd_second scan ! h)
                                       then hd_best scan ! h - hd_second scan ! h else 0) [0..<heads]\<rparr>)"

text \<open>A sounding pair or triple may be completed by one string and kept together so.\<close>

definition completed_group :: "DetectorMath \<Rightarrow> Detector \<Rightarrow> Spectrum \<Rightarrow> nat \<Rightarrow> u8 option" where
  "completed_group M D S c =
     (let st = candidate_state D c; fine = fine_state D c; playable = playable_string_mask D c;
          fine_group = ff_member_mask fine AND playable; fine_members = string_count fine_group;
          completion = bounded_spectral_tier_completion True (cs_assigned_string_mask st) fine_group playable
            (string_fret_spectral_head_evidence M D c) (ff_added_member_beat_coherence fine) (ff_component_energy fine);
          completion_members = string_count completion
      in if \<not> cs_active st \<or> \<not> ff_valid fine \<or> \<not> ff_multi_source_observed fine \<or> fine_members < 2 \<or> 4 \<le> fine_members
            \<or> score S c \<le> sp_threshold S * kM3RetainedUnisonDecayFloorRatio \<or> \<not> direct_peak D S c
         then None
         else if completion \<noteq> fine_group \<and> 2 \<le> completion_members \<and> completion_members \<le> 4
                 \<and> completion_members \<le> dk_max_polyphony D
         then Some completion else None)"

definition consider_completion :: "DetectorMath \<Rightarrow> Detector \<Rightarrow> Spectrum \<Rightarrow> nat \<Rightarrow> u8 list \<Rightarrow> u8 list" where
  "consider_completion M D S c masks =
     (case completed_group M D S c of None \<Rightarrow> masks | Some w \<Rightarrow> masks[c := w])"

text \<open>The groups by candidate, and the retained candidate with the best score.\<close>

definition selector_groups :: "DetectorMath \<Rightarrow> Detector \<Rightarrow> Spectrum \<Rightarrow> u8 list \<times> nat option" where
  "selector_groups M D S =
     (case fold (consider_retained D S) [0..<dk_count D] (replicate kMaxCandidates 0, None) of
        (masks, retained) \<Rightarrow> (fold (consider_completion M D S) [0..<dk_count D] masks, retained))"

subsection \<open>Evidence\<close>

definition kPitchBandCount :: nat where "kPitchBandCount = 4"
definition kPitchBandSemitones :: nat where "kPitchBandSemitones = 12"

definition pitch_band_for_note :: "u8 \<Rightarrow> nat" where
  "pitch_band_for_note n =
     std_min (kPitchBandCount - 1)
       ((if hd kM3OpenNotes < n then unat (n - hd kM3OpenNotes) else 0) div kPitchBandSemitones)"

definition band_of :: "Detector \<Rightarrow> nat \<Rightarrow> nat" where
  "band_of D c = pitch_band_for_note (candidate_note D c)"

definition pitch_band_peaks :: "Detector \<Rightarrow> (nat \<Rightarrow> f64) \<Rightarrow> f64 list" where
  "pitch_band_peaks D f =
     fold (\<lambda>c peaks. if playable_string_mask D c = 0 then peaks
                     else peaks[band_of D c := std_max (peaks ! band_of D c) (f c)])
       [0..<dk_count D] (replicate kPitchBandCount 0)"

definition maximum_narrow_fundamental :: "Detector \<Rightarrow> Spectrum \<Rightarrow> f64" where
  "maximum_narrow_fundamental D S =
     fold (\<lambda>c m. std_max m (sp_narrow_fundamentals S ! c)) [0..<dk_count D] 0"

text \<open>The best and second-best calibrated string of a candidate, from similarity 0 on.\<close>

record RescueScan =
  rs_best :: f64
  rs_second :: f64
  rs_string :: u8

definition rescue_string :: "DetectorMath \<Rightarrow> Detector \<Rightarrow> nat \<Rightarrow> nat \<Rightarrow> RescueScan \<Rightarrow> RescueScan" where
  "rescue_string M D c s scan =
     (if \<not> bit (playable_string_mask D c) s \<or> fret_point D (candidate_note D c) s = None then scan
      else let similarity = calibration_similarity M D c s
           in if rs_best scan < similarity
              then scan\<lparr>rs_second := rs_best scan, rs_best := similarity, rs_string := of_nat s\<rparr>
              else if rs_second scan < similarity then scan\<lparr>rs_second := similarity\<rparr> else scan)"

definition rescue_scan :: "DetectorMath \<Rightarrow> Detector \<Rightarrow> nat \<Rightarrow> RescueScan" where
  "rescue_scan M D c =
     fold (rescue_string M D c) [0..<length kM3OpenNotes]
       \<lparr>rs_best = 0, rs_second = 0, rs_string = kUnassignedTunerString\<rparr>"

definition calibrated_band_rescue :: "DetectorMath \<Rightarrow> Detector \<Rightarrow> Spectrum \<Rightarrow> nat \<Rightarrow> bool" where
  "calibrated_band_rescue M D S c \<longleftrightarrow>
     \<not> direct_support M D S c \<and> score S c \<le> sp_threshold S
     \<and> sp_threshold S * kM3CalibratedBandRescueScoreRatio < score S c
     \<and> kM3CalibratedBandRescueFundamentalRatio * score S c \<le> fundamental S c
     \<and> direct_peak D S c \<and> (local_peak D S c \<or> m3_evidence D S c)
     \<and> (let score_peak_ratio = score S c div std_max (pitch_band_peaks D (score S) ! band_of D c) kScoreEpsilon;
            fundamental_peak_ratio =
              fundamental S c div std_max (pitch_band_peaks D (fundamental S) ! band_of D c) kScoreEpsilon;
            scan = rescue_scan M D c
        in kM3CalibratedBandRescueScorePeakRatio \<le> score_peak_ratio
           \<and> kM3CalibratedBandRescueFundamentalPeakRatio \<le> fundamental_peak_ratio
           \<and> kM3CalibratedBandRescueMinimumString \<le> rs_string scan
           \<and> kM3CalibratedBandRescueMinimumSimilarity \<le> rs_best scan
           \<and> kM3CalibratedBandRescueMinimumMargin \<le> rs_best scan - rs_second scan)"

text \<open>What the evidence says of a candidate; the fret prior is the largest one that applies to it.\<close>

record Admission =
  ad_eligible :: bool
  ad_score :: f64
  ad_rescue :: bool

definition Admission_default :: Admission where
  "Admission_default = \<lparr>ad_eligible = False, ad_score = 0, ad_rescue = False\<rparr>"

definition narrow_profile :: "Detector \<Rightarrow> bool" where "narrow_profile D \<longleftrightarrow> dk_max_fret D \<le> 2"

definition narrow_admission :: "Detector \<Rightarrow> Spectrum \<Rightarrow> nat \<Rightarrow> Admission" where
  "narrow_admission D S c =
     (let largest = maximum_narrow_fundamental D S;
          narrow_floor = std_max kScoreEpsilon (largest * kNarrowFundamentalRelativeFloor)
      in \<lparr>ad_eligible = narrow_floor \<le> sp_narrow_fundamentals S ! c,
          ad_score = sp_narrow_fundamentals S ! c div std_max largest kScoreEpsilon, ad_rescue = False\<rparr>)"

definition normalized_score :: "Detector \<Rightarrow> Spectrum \<Rightarrow> nat \<Rightarrow> f64" where
  "normalized_score D S c = score S c div std_max (dk_fast_energy D) kScoreEpsilon"

definition wide_admission :: "DetectorMath \<Rightarrow> Detector \<Rightarrow> Spectrum \<Rightarrow> nat \<Rightarrow> Admission" where
  "wide_admission M D S c =
     (let calibrated_direct = direct_support M D S c; rescue = calibrated_band_rescue M D S c;
          calibrated_floor = kM3FrettedNotePenalty + kM3FretPenalty * f64_of_int (uint (dk_max_fret D)) + f64_rat 1 100
      in if score S c \<le> sp_threshold S \<and> \<not> calibrated_direct \<and> \<not> rescue then Admission_default
         else \<lparr>ad_eligible = cs_active (candidate_state D c) \<or> local_peak D S c \<or> m3_evidence D S c,
               ad_score = (if calibrated_direct then std_max (normalized_score D S c) calibrated_floor
                           else normalized_score D S c),
               ad_rescue = rescue\<rparr>)"

definition admission :: "DetectorMath \<Rightarrow> Detector \<Rightarrow> Spectrum \<Rightarrow> nat \<Rightarrow> Admission" where
  "admission M D S c =
     (if dk_count D \<le> c \<or> playable_string_mask D c = 0 then Admission_default
      else if narrow_profile D then narrow_admission D S c else wide_admission M D S c)"

subsection \<open>Harmonic shadows\<close>

text \<open>The candidates by descending score: the next one that is eligible and not yet processed.\<close>

definition outranks :: "Spectrum \<Rightarrow> nat \<Rightarrow> nat \<Rightarrow> bool" where
  "outranks S probe c \<longleftrightarrow> \<not> (score S probe < score S c \<or> f64_eq (score S probe) (score S c) \<and> c < probe)"

definition next_ranked :: "Detector \<Rightarrow> Spectrum \<Rightarrow> bool list \<Rightarrow> bool list \<Rightarrow> nat option" where
  "next_ranked D S raw processed =
     fold (\<lambda>probe best. if raw ! probe \<and> \<not> processed ! probe \<and> (case best of None \<Rightarrow> True | Some c \<Rightarrow> outranks S probe c)
                        then Some probe else best) [0..<dk_count D] None"

definition distinct_lower_peak :: "Detector \<Rightarrow> Spectrum \<Rightarrow> nat \<Rightarrow> nat \<Rightarrow> bool" where
  "distinct_lower_peak D S c stronger \<longleftrightarrow>
     c < stronger \<and> local_peak D S c \<and> f64_rat 20 100 * score S c \<le> fundamental S c"

definition distinct_higher_peak :: "DetectorMath \<Rightarrow> Detector \<Rightarrow> Spectrum \<Rightarrow> nat \<Rightarrow> nat \<Rightarrow> bool" where
  "distinct_higher_peak M D S c stronger \<longleftrightarrow>
     stronger < c
     \<and> (cs_active (candidate_state D c) \<and> direct_peak D S c
        \<or> local_peak D S c \<and> f64_rat 85 100 * score S c \<le> fundamental S c
          \<and> (f64_rat 85 100 * fundamental S stronger \<le> fundamental S c \<or> direct_support M D S c))"

definition shadows :: "DetectorMath \<Rightarrow> Detector \<Rightarrow> Spectrum \<Rightarrow> nat \<Rightarrow> nat \<Rightarrow> bool" where
  "shadows M D S c stronger \<longleftrightarrow>
     (is_harmonic_shadow c stronger (sp_fundamentals S) \<or> is_m3_lower_cross_harmonic_shadow c stronger (sp_fundamentals S))
     \<and> \<not> distinct_lower_peak D S c stronger \<and> \<not> distinct_higher_peak M D S c stronger"

definition shadow_kind :: "Spectrum \<Rightarrow> nat \<Rightarrow> nat \<Rightarrow> u8" where
  "shadow_kind S c stronger =
     (if is_harmonic_shadow c stronger (sp_fundamentals S) then 1 else 0)
     OR (if is_m3_lower_cross_harmonic_shadow c stronger (sp_fundamentals S) then 2 else 0)"

record Ranking =
  rk_processed :: "bool list"
  rk_spectral :: "bool list"
  rk_shadowed_by :: "nat option list"
  rk_kinds :: "u8 list"

definition rank_next :: "DetectorMath \<Rightarrow> Detector \<Rightarrow> Spectrum \<Rightarrow> bool list \<Rightarrow> Ranking \<Rightarrow> Ranking" where
  "rank_next M D S raw R =
     (case next_ranked D S raw (rk_processed R) of
        None \<Rightarrow> R
      | Some c \<Rightarrow>
          let R = R\<lparr>rk_processed := (rk_processed R)[c := True]\<rparr>
          in case find (\<lambda>stronger. rk_spectral R ! stronger \<and> shadows M D S c stronger) [0..<dk_count D] of
               None \<Rightarrow> R\<lparr>rk_spectral := (rk_spectral R)[c := True]\<rparr>
             | Some stronger \<Rightarrow>
                 R\<lparr>rk_spectral := (rk_spectral R)[c := False],
                   rk_shadowed_by := (rk_shadowed_by R)[c := Some stronger],
                   rk_kinds := (rk_kinds R)[c := shadow_kind S c stronger]\<rparr>)"

definition ranking :: "DetectorMath \<Rightarrow> Detector \<Rightarrow> Spectrum \<Rightarrow> bool list \<Rightarrow> Ranking" where
  "ranking M D S raw =
     fold (\<lambda>_. rank_next M D S raw) [0..<dk_count D]
       \<lparr>rk_processed = replicate kMaxCandidates False, rk_spectral = replicate kMaxCandidates False,
        rk_shadowed_by = replicate kMaxCandidates None, rk_kinds = replicate kMaxCandidates 0\<rparr>"

text \<open>A lone source whose lower octave is its calibrated fundamental: the octave gives way to it.\<close>

definition strongest_other :: "Detector \<Rightarrow> Spectrum \<Rightarrow> bool list \<Rightarrow> nat \<Rightarrow> nat \<Rightarrow> nat option" where
  "strongest_other D S spectral c stronger =
     fold (\<lambda>other best. if other = c \<or> other = stronger \<or> \<not> spectral ! other then best
             else case best of None \<Rightarrow> Some other | Some b \<Rightarrow> if score S b < score S other then Some other else best)
       [0..<dk_count D] None"

definition count_others :: "Detector \<Rightarrow> nat \<Rightarrow> nat \<Rightarrow> (nat \<Rightarrow> bool) \<Rightarrow> u8" where
  "count_others D c stronger P =
     fold (\<lambda>other k. if other = c \<or> other = stronger \<or> \<not> P other then k else k + 1) [0..<dk_count D] 0"

definition unshadow :: "DetectorMath \<Rightarrow> Detector \<Rightarrow> Spectrum \<Rightarrow> Ranking \<Rightarrow> nat \<Rightarrow> bool list \<Rightarrow> bool list" where
  "unshadow M D S R c spectral =
     (case rk_shadowed_by R ! c of
        None \<Rightarrow> spectral
      | Some stronger \<Rightarrow>
          let other_eligible = count_others D c stronger (\<lambda>other. spectral ! other);
              other_active = count_others D c stronger (\<lambda>other. cs_active (candidate_state D other));
              best = strongest_other D S spectral c stronger;
              sole_other_is_harmonic =
                (case best of None \<Rightarrow> False
                 | Some other \<Rightarrow> has_isolated_third_partial_context c other other_eligible other_active
                                   (has_decisive_calibrated_shape M D other (dk_count D)));
              isolated = (stronger = c + 12 \<and> rk_kinds R ! c = 1
                \<and> has_isolated_shadow_context other_eligible other_active sole_other_is_harmonic
                \<and> local_peak D S c \<and> m3_evidence D S c \<and> \<not> direct_peak D S c
                \<and> has_calibrated_shape_thresholds M D c (dk_count D)
                    (if sole_other_is_harmonic then kM3IsolatedThirdPartialMinimumSimilarity
                     else kM3IsolatedLowerOctaveMinimumSimilarity)
                    (if sole_other_is_harmonic then kM3IsolatedThirdPartialMinimumMargin
                     else kM3IsolatedLowerOctaveMinimumMargin));
              replaced = spectral[c := True, stronger := False]
          in if \<not> isolated then spectral
             else case best of Some other \<Rightarrow> if sole_other_is_harmonic then replaced[other := False] else replaced
                  | None \<Rightarrow> replaced)"

definition spectral_eligible :: "DetectorMath \<Rightarrow> Detector \<Rightarrow> Spectrum \<Rightarrow> bool list" where
  "spectral_eligible M D S =
     (let R = ranking M D S (map (\<lambda>c. ad_eligible (admission M D S c)) [0..<kMaxCandidates])
      in fold (unshadow M D S R) [0..<dk_count D] (rk_spectral R))"

subsection \<open>The pool\<close>

record M3PoolCandidate =
  pc_detector_index :: nat
  pc_string_mask :: u8
  pc_score :: f64
  pc_active :: bool

definition kPoolCapacity :: nat where "kPoolCapacity = kMaxVoices * kMaxVoices"

text \<open>The selection's results so far: groups, retained candidate, admissions, and who is no shadow.\<close>

record Candidates =
  ca_groups :: "u8 list"
  ca_priority :: "nat option"
  ca_admissions :: "Admission list"
  ca_spectral :: "bool list"

definition selection_score :: "Candidates \<Rightarrow> nat \<Rightarrow> f64" where
  "selection_score A c = ad_score (ca_admissions A ! c)"

definition group_option :: "Detector \<Rightarrow> Spectrum \<Rightarrow> Candidates \<Rightarrow> nat \<Rightarrow> M3PoolCandidate list \<Rightarrow> M3PoolCandidate list" where
  "group_option D S A c pool =
     (let group_mask = ca_groups A ! c; group_members = string_count group_mask
      in if ca_priority A = Some c \<or> group_members < 2 \<or> 4 < group_members \<or> dk_max_polyphony D < group_members
            \<or> kPoolCapacity \<le> length pool then pool
         else pool @ [\<lparr>pc_detector_index = c, pc_string_mask = group_mask,
                       pc_score = (if 0 < selection_score A c then selection_score A c else normalized_score D S c),
                       pc_active = True\<rparr>])"

definition in_pool :: "M3PoolCandidate list \<Rightarrow> nat \<Rightarrow> bool" where
  "in_pool pool c \<longleftrightarrow> list_ex (\<lambda>p. pc_detector_index p = c) pool"

text \<open>The next candidate for a string: sounding ones first, then the best score.\<close>

definition preferred :: "Detector \<Rightarrow> Candidates \<Rightarrow> nat \<Rightarrow> nat \<Rightarrow> bool" where
  "preferred D A c best \<longleftrightarrow>
     (let ca = cs_active (candidate_state D c); ba = cs_active (candidate_state D best)
      in ca \<and> \<not> ba
         \<or> ca = ba \<and> (selection_score A best < selection_score A c
                       \<or> f64_eq (selection_score A c) (selection_score A best) \<and> c < best))"

definition string_candidate :: "Detector \<Rightarrow> Candidates \<Rightarrow> nat \<Rightarrow> nat list \<Rightarrow> nat option" where
  "string_candidate D A s taken =
     fold (\<lambda>c best. if ca_priority A = Some c \<or> \<not> ca_spectral A ! c \<or> c \<in> set taken
                       \<or> ad_rescue (ca_admissions A ! c) \<or> \<not> bit (playable_string_mask D c) s then best
                     else case best of None \<Rightarrow> Some c | Some b \<Rightarrow> if preferred D A c b then Some c else best)
       [0..<dk_count D] None"

text \<open>The candidates of one string; \<open>taken\<close> are those it has had.\<close>

fun string_options ::
  "Detector \<Rightarrow> Candidates \<Rightarrow> nat \<Rightarrow> nat \<Rightarrow> nat list \<Rightarrow> M3PoolCandidate list \<Rightarrow> M3PoolCandidate list" where
  "string_options D A s 0 taken pool = pool"
| "string_options D A s (Suc ranks) taken pool =
     (case string_candidate D A s taken of
        None \<Rightarrow> pool
      | Some c \<Rightarrow>
          if in_pool pool c then string_options D A s ranks (c # taken) pool
          else if kPoolCapacity \<le> length pool then pool
          else string_options D A s ranks (c # taken)
                 (pool @ [\<lparr>pc_detector_index = c, pc_string_mask = playable_string_mask D c,
                           pc_score = selection_score A c, pc_active = cs_active (candidate_state D c)\<rparr>]))"

definition build_pool :: "Detector \<Rightarrow> Spectrum \<Rightarrow> Candidates \<Rightarrow> M3PoolCandidate list" where
  "build_pool D S A =
     fold (\<lambda>s pool. string_options D A s (unat (dk_max_polyphony D)) [] pool) [0..<length kM3OpenNotes]
       (fold (group_option D S A) [0..<dk_count D] [])"

subsection \<open>The table\<close>

record M3DpState =
  dp_score_sum :: f64
  dp_chosen :: u64
  dp_voice_count :: u8
  dp_retained_active :: u8
  dp_valid :: bool

definition M3DpState_default :: M3DpState where
  "M3DpState_default =
     \<lparr>dp_score_sum = 0, dp_chosen = 0, dp_voice_count = 0, dp_retained_active = 0, dp_valid = False\<rparr>"

definition better_state :: "M3DpState \<Rightarrow> M3DpState \<Rightarrow> bool" where
  "better_state proposal current \<longleftrightarrow>
     \<not> dp_valid current \<or> dp_score_sum current < dp_score_sum proposal
     \<or> f64_eq (dp_score_sum proposal) (dp_score_sum current)
       \<and> (dp_retained_active current < dp_retained_active proposal
          \<or> dp_retained_active proposal = dp_retained_active current
            \<and> dp_voice_count current < dp_voice_count proposal)"

definition extend_state :: "nat \<Rightarrow> bool \<Rightarrow> f64 \<Rightarrow> u8 \<Rightarrow> M3DpState \<Rightarrow> M3DpState" where
  "extend_state index active added lanes state =
     state\<lparr>dp_valid := True, dp_score_sum := dp_score_sum state + added,
           dp_chosen := dp_chosen state OR push_bit index 1, dp_voice_count := dp_voice_count state + lanes,
           dp_retained_active := dp_retained_active state + (if active then 1 else 0)\<rparr>"

definition propose :: "nat \<Rightarrow> M3DpState \<Rightarrow> M3DpState list \<Rightarrow> M3DpState list" where
  "propose used proposal table = (if better_state proposal (table ! used) then table[used := proposal] else table)"

text \<open>Which strings an option must take as a whole; a single one when the mask has less than two members.\<close>

definition atomic_group :: "Detector \<Rightarrow> Candidates \<Rightarrow> M3PoolCandidate \<Rightarrow> u8" where
  "atomic_group D A option =
     (let c = pc_detector_index option; group_mask = ca_groups A ! c; st = candidate_state D c; fine = fine_state D c;
          committed = cs_assigned_string_mask st; committed_members = string_count committed;
          fine_members = string_count (ff_member_mask fine)
      in if 2 \<le> string_count group_mask then group_mask
         else if cs_active st \<and> 2 \<le> committed_members \<and> committed_members \<le> 4 \<and> ff_valid fine
                 \<and> ff_multi_source_observed fine \<and> 2 \<le> fine_members \<and> fine_members \<le> 4
                 \<and> ff_member_mask fine = committed \<and> committed AND pc_string_mask option = committed
         then committed else group_mask)"

text \<open>How many candidates may be open strings; from two on a fret has a price.\<close>

definition open_candidate :: "Detector \<Rightarrow> Spectrum \<Rightarrow> nat \<Rightarrow> bool" where
  "open_candidate D S c \<longleftrightarrow>
     is_m3_open_note (candidate_note D c) \<and> (narrow_profile D \<or> f64_rat 50 100 * score S c \<le> fundamental S c)"

definition open_candidate_count :: "Detector \<Rightarrow> Spectrum \<Rightarrow> M3PoolCandidate list \<Rightarrow> nat" where
  "open_candidate_count D S pool = length (filter (\<lambda>p. open_candidate D S (pc_detector_index p)) pool)"

definition lane_score :: "Detector \<Rightarrow> nat \<Rightarrow> M3PoolCandidate \<Rightarrow> nat \<Rightarrow> f64" where
  "lane_score D open_count option s =
     (let n = candidate_note D (pc_detector_index option); fret = n - kM3OpenNotes ! s;
          assignment_penalty =
            (if (kM3OpenChordMinimum \<le> open_count \<or> last kM3OpenNotes < n) \<and> 0 < fret
             then kM3FrettedNotePenalty + kM3FretPenalty * f64_of_int (uint fret) else 0)
      in pc_score option - assignment_penalty)"

text \<open>One option takes its whole group.\<close>

definition group_step :: "Detector \<Rightarrow> nat \<Rightarrow> M3PoolCandidate \<Rightarrow> u8 \<Rightarrow> nat \<Rightarrow> M3DpState list \<Rightarrow> M3DpState list" where
  "group_step D index option atomic used table =
     (let state = table ! used; ms = string_count atomic; occupied = (of_nat used :: u8)
      in if \<not> dp_valid state \<or> occupied AND atomic \<noteq> 0
            \<or> unat (dk_max_polyphony D) < unat (dp_voice_count state) + unat ms then table
         else propose (unat (occupied OR atomic)) (extend_state index (pc_active option) (pc_score option) ms state) table)"

text \<open>One option takes one of its free strings.\<close>

definition lane_step :: "Detector \<Rightarrow> nat \<Rightarrow> nat \<Rightarrow> M3PoolCandidate \<Rightarrow> nat \<Rightarrow> M3DpState list \<Rightarrow> M3DpState list" where
  "lane_step D open_count index option used table =
     (let state = table ! used; occupied = (of_nat used :: u8)
      in if \<not> dp_valid state \<or> dk_max_polyphony D \<le> dp_voice_count state then table
         else fold (\<lambda>s table. propose (unat (occupied OR push_bit s 1))
                        (extend_state index (pc_active option) (lane_score D open_count option s) 1 state) table)
                (members (pc_string_mask option AND NOT occupied)) table)"

definition option_step ::
  "Detector \<Rightarrow> Candidates \<Rightarrow> nat \<Rightarrow> nat \<times> M3PoolCandidate \<Rightarrow> M3DpState list \<Rightarrow> M3DpState list" where
  "option_step D A open_count io table =
     (case io of (index, option) \<Rightarrow>
        let atomic = atomic_group D A option; masks = rev [0..<kM3StringMaskCount]
        in if 2 \<le> string_count atomic then fold (group_step D index option atomic) masks table
           else fold (lane_step D open_count index option) masks table)"

text \<open>The table starts with the empty set, or with the retained group.\<close>

definition seed_table :: "Detector \<Rightarrow> Spectrum \<Rightarrow> Candidates \<Rightarrow> M3DpState list" where
  "seed_table D S A =
     (let empty_table = replicate kM3StringMaskCount M3DpState_default
      in case ca_priority A of
           None \<Rightarrow> empty_table[0 := (empty_table ! 0)\<lparr>dp_valid := True\<rparr>]
         | Some c \<Rightarrow>
             let w = ca_groups A ! c
             in empty_table[unat w := (empty_table ! unat w)\<lparr>dp_valid := True, dp_score_sum := normalized_score D S c,
                   dp_voice_count := string_count w, dp_retained_active := 1\<rparr>])"

definition fill_table :: "Detector \<Rightarrow> Spectrum \<Rightarrow> Candidates \<Rightarrow> M3PoolCandidate list \<Rightarrow> M3DpState list" where
  "fill_table D S A pool =
     fold (option_step D A (open_candidate_count D S pool)) (enumerate 0 pool) (seed_table D S A)"

definition best_entry :: "M3DpState list \<Rightarrow> M3DpState \<times> u8" where
  "best_entry table =
     fold (\<lambda>used best. if dp_valid (table ! used) \<and> better_state (table ! used) (fst best)
                       then (table ! used, of_nat used) else best)
       [0..<length table] (M3DpState_default, 0)"

subsection \<open>The selection\<close>

text \<open>Alone in an empty choice, the strongest direct candidate of the pool.\<close>

definition strongest_direct :: "Detector \<Rightarrow> Spectrum \<Rightarrow> Candidates \<Rightarrow> M3PoolCandidate list \<Rightarrow> nat option" where
  "strongest_direct D S A pool =
     fold (\<lambda>p best. let c = pc_detector_index p
             in if \<not> direct_peak D S c then best
                else case best of None \<Rightarrow> Some c
                     | Some b \<Rightarrow> if selection_score A c \<le> selection_score A b then best else Some c) pool None"

text \<open>Beside a choice with room, the best candidate of its band with a free string.\<close>

definition rescued_candidate :: "Detector \<Rightarrow> Candidates \<Rightarrow> bool list \<Rightarrow> u8 \<Rightarrow> nat option" where
  "rescued_candidate D A selected used =
     fold (\<lambda>c best. if \<not> ad_rescue (ca_admissions A ! c) \<or> \<not> ca_spectral A ! c \<or> selected ! c
                       \<or> playable_string_mask D c AND NOT used = 0 then best
                     else case best of None \<Rightarrow> Some c
                          | Some b \<Rightarrow> if selection_score A c \<le> selection_score A b then best else Some c)
       [0..<dk_count D] None"

definition select_one :: "nat option \<Rightarrow> bool list \<Rightarrow> bool list" where
  "select_one c selected = (case c of None \<Rightarrow> selected | Some c \<Rightarrow> selected[c := True])"

definition take_selection ::
  "Detector \<Rightarrow> Spectrum \<Rightarrow> Candidates \<Rightarrow> M3PoolCandidate list \<Rightarrow> M3DpState \<times> u8 \<Rightarrow> bool list" where
  "take_selection D S A pool best =
     (case best of (state, used) \<Rightarrow>
        let selected = select_one (ca_priority A) (replicate kMaxCandidates False);
            selected = fold (\<lambda>(index, p) selected. if bit (dp_chosen state) index
                               then selected[pc_detector_index p := True] else selected) (enumerate 0 pool) selected;
            selected = (if dp_voice_count state = 0 then select_one (strongest_direct D S A pool) selected else selected)
        in if 0 < dp_voice_count state \<and> dp_voice_count state < dk_max_polyphony D
           then select_one (rescued_candidate D A selected used) selected else selected)"

definition selection_candidates :: "DetectorMath \<Rightarrow> Detector \<Rightarrow> Spectrum \<Rightarrow> Candidates" where
  "selection_candidates M D S =
     (case selector_groups M D S of
        (groups, retained) \<Rightarrow>
          \<lparr>ca_groups = groups, ca_priority = retained,
           ca_admissions = map (admission M D S) [0..<kMaxCandidates], ca_spectral = spectral_eligible M D S\<rparr>)"

definition select_m3_feasible_candidates :: "DetectorMath \<Rightarrow> Detector \<Rightarrow> Spectrum \<Rightarrow> bool list \<times> Detector" where
  "select_m3_feasible_candidates M D S =
     (let narrow_ready = (\<not> narrow_profile D
            \<or> dk_sample_rate D * kNarrowFundamentalSeconds \<le> f64_of_int (uint (dk_narrow_signal_samples D)))
      in if \<not> narrow_ready
         then (replicate kMaxCandidates False, D\<lparr>dk_selector_group_masks := replicate kMaxCandidates 0\<rparr>)
         else let A = selection_candidates M D S; pool = build_pool D S A
              in (take_selection D S A pool (best_entry (fill_table D S A pool)),
                  D\<lparr>dk_selector_group_masks := ca_groups A\<rparr>))"

end
