(* ===== verification/Detector_Selection_Laws.thy ===== *)
theory Detector_Selection_Laws
  imports Detector_Selection Detector_Properties
begin

unbundle bit_operations_syntax

text \<open>
  What a selection is. \<open>feasible\<close> says which sets of strings the options of the pool can take, and for what
  score; the table of the selector holds feasible choices only, and for every set of strings the best one.
  Whatever is selected can then be played together, every pitch on strings of its own.
\<close>

subsection \<open>Masks of strings\<close>

lemma and_zero_bits: "v AND w = 0 \<longleftrightarrow> (\<forall>s. \<not> (bit v s \<and> bit w s))" for v w :: "'a::len word"
proof
  assume "v AND w = 0"
  then have "bit (v AND w) s = bit (0 :: 'a word) s" for s by simp
  then show "\<forall>s. \<not> (bit v s \<and> bit w s)" by (simp add: bit_and_iff)
qed (auto intro!: bit_word_eqI simp: bit_and_iff)

lemma nonzero_bit: "v \<noteq> 0 \<Longrightarrow> \<exists>s. bit v s" for v :: "'a::len word"
proof (rule ccontr)
  assume "v \<noteq> 0" "\<not> (\<exists>s. bit v s)"
  then show False using bit_word_eqI [of v 0] by auto
qed

lemma member_count_card: "member_count w = card {s. bit w s}"
  by (metis member_count_members members_distinct distinct_card set_members)

lemma finite_members [simp]: "finite {s. bit (w :: u8) s}"
  by (metis List.finite_set set_members)

lemma member_count_disjoint: "v AND w = 0 \<Longrightarrow> member_count (v OR w) = member_count v + member_count w"
proof -
  assume d: "v AND w = 0"
  have "{s. bit v s} \<inter> {s. bit w s} = {}" using d by (auto simp: and_zero_bits)
  moreover have "{s. bit (v OR w) s} = {s. bit v s} \<union> {s. bit w s}" by (auto simp: bit_simps)
  ultimately show ?thesis by (simp add: member_count_card card_Un_disjoint)
qed

lemma member_count_string [simp]: "s < kMaxVoices \<Longrightarrow> member_count (2 ^ s) = 1"
proof -
  assume "s < kMaxVoices"
  then have "{t. bit (2 ^ s :: u8) t} = {s}" by (auto simp: bit_simps kMaxVoices_def)
  then show ?thesis by (simp add: member_count_card)
qed

lemma member_count_zero [simp]: "member_count 0 = 0"
  by (simp add: member_count.simps)

lemma member_count_le: "member_count w \<le> 8"
  using length_filter_le [of "bit w" "[0..<kMaxVoices]"] by (simp add: member_count_members members_def kMaxVoices_def)

lemma mask_grows:
  fixes v w :: u8
  assumes "v AND w = 0" "w \<noteq> 0"
  shows "unat v < unat (v OR w)"
proof -
  have "v OR w \<noteq> v"
  proof
    assume "v OR w = v"
    then have "bit v s" if "bit w s" for s using that by (metis bit_or_iff)
    then have "w = 0" using assms(1) by (intro bit_word_eqI) (auto simp: and_zero_bits)
    with assms(2) show False ..
  qed
  moreover have "v \<le> v OR w" by (rule le_word_or2)
  ultimately have "v < v OR w" by (simp add: less_le)
  then show ?thesis by (simp add: word_less_nat_alt)
qed

lemma mask_index: "unat (w :: u8) < kM3StringMaskCount"
  using unsigned_less [of w] by (simp add: kM3StringMaskCount_def)

lemma of_nat_index: "used < kM3StringMaskCount \<Longrightarrow> unat (of_nat used :: u8) = used"
  by (simp add: kM3StringMaskCount_def unat_of_nat)

lemma string_nonzero: "s < kMaxVoices \<Longrightarrow> (2 ^ s :: u8) \<noteq> 0"
  using member_count_string [of s] member_count_0 [of "2 ^ s"] by (auto simp del: member_count_string)

lemma string_count_string [simp]: "s < kMaxVoices \<Longrightarrow> string_count (2 ^ s) = 1"
  using string_count_members [of "2 ^ s"] by (simp add: word_unat_eq_iff)

subsection \<open>Feasible choices\<close>

text \<open>The strings an option of the pool can take, with the score it then adds.\<close>

definition takes :: "Detector \<Rightarrow> Candidates \<Rightarrow> nat \<Rightarrow> M3PoolCandidate \<Rightarrow> u8 \<Rightarrow> f64 \<Rightarrow> bool" where
  "takes D A open_count option l added \<longleftrightarrow>
     (if 2 \<le> string_count (atomic_group D A option)
      then l = atomic_group D A option \<and> added = pc_score option
      else \<exists>s. bit (pc_string_mask option) s \<and> l = push_bit s 1 \<and> added = lane_score D open_count option s)"

definition seed_mask :: "Candidates \<Rightarrow> u8" where
  "seed_mask A = (case ca_priority A of None \<Rightarrow> 0 | Some c \<Rightarrow> ca_groups A ! c)"

definition seed_score :: "Detector \<Rightarrow> Spectrum \<Rightarrow> Candidates \<Rightarrow> f64" where
  "seed_score D S A = (case ca_priority A of None \<Rightarrow> 0 | Some c \<Rightarrow> normalized_score D S c)"

text \<open>
  A choice among the first \<open>k\<close> options of the pool: the strings it uses, its score summed in the order of the
  pool, and the options it takes. No string is used twice, and no more strings than voices.
\<close>

inductive feasible ::
  "Detector \<Rightarrow> Spectrum \<Rightarrow> Candidates \<Rightarrow> M3PoolCandidate list \<Rightarrow> nat \<Rightarrow> u8 \<Rightarrow> f64 \<Rightarrow> nat set \<Rightarrow> bool"
  for D S A pool where
    start: "feasible D S A pool 0 (seed_mask A) (seed_score D S A) {}"
  | leave: "feasible D S A pool k w x I \<Longrightarrow> k < length pool \<Longrightarrow> feasible D S A pool (Suc k) w x I"
  | take: "feasible D S A pool k w x I \<Longrightarrow> k < length pool
      \<Longrightarrow> takes D A (open_candidate_count D S pool) (pool ! k) l added \<Longrightarrow> w AND l = 0
      \<Longrightarrow> member_count (w OR l) \<le> unat (dk_max_polyphony D)
      \<Longrightarrow> feasible D S A pool (Suc k) (w OR l) (x + added) (insert k I)"

lemma takes_nonzero: "takes D A n option l added \<Longrightarrow> l \<noteq> 0"
  using string_nonzero bit_u8_bound by (auto simp: takes_def string_count.simps split: if_splits)

subsection \<open>A step of the table\<close>

text \<open>The two steps are one: propose every free taking of the option to the entry of its strings.\<close>

definition free_takings :: "Detector \<Rightarrow> Candidates \<Rightarrow> nat \<Rightarrow> M3PoolCandidate \<Rightarrow> u8 \<Rightarrow> (u8 \<times> f64) list" where
  "free_takings D A open_count option w =
     (let atomic = atomic_group D A option
      in if 2 \<le> string_count atomic then (if w AND atomic = 0 then [(atomic, pc_score option)] else [])
         else map (\<lambda>s. (push_bit s 1, lane_score D open_count option s)) (members (pc_string_mask option AND NOT w)))"

lemma free_takings_iff:
  "(l, added) \<in> set (free_takings D A n option w) \<longleftrightarrow> takes D A n option l added \<and> w AND l = 0"
proof -
  have d: "w AND 2 ^ s = 0 \<longleftrightarrow> \<not> bit w s" if "s < kMaxVoices" for s
    using that by (auto simp: and_zero_bits bit_simps kMaxVoices_def)
  have m: "s \<in> set (members (pc_string_mask option AND NOT w)) \<longleftrightarrow> bit (pc_string_mask option) s \<and> \<not> bit w s \<and> s < kMaxVoices" for s
    by (auto simp: bit_simps kMaxVoices_def)
  show ?thesis
    using d bit_u8_bound by (auto simp: free_takings_def takes_def Let_def image_iff m simp del: set_members)
qed

definition advance ::
  "nat \<Rightarrow> bool \<Rightarrow> u8 \<Rightarrow> u8 \<Rightarrow> (u8 \<times> f64) list \<Rightarrow> M3DpState list \<Rightarrow> M3DpState list" where
  "advance index active limit w ls T =
     (let e = T ! unat w
      in if dp_valid e
         then fold (\<lambda>(l, added). propose (unat (w OR l)) (extend_state index active added (string_count l) e))
                (filter (\<lambda>(l, added). unat (dp_voice_count e) + member_count l \<le> unat limit) ls) T
         else T)"

lemma group_step_advance:
  assumes "2 \<le> string_count (atomic_group D A option)"
  shows "group_step D index option (atomic_group D A option) (unat w) T
    = advance index (pc_active option) (dk_max_polyphony D) w (free_takings D A n option w) T"
  using assms by (auto simp: group_step_def advance_def free_takings_def Let_def string_count_members not_le)

lemma lane_step_advance:
  assumes "\<not> 2 \<le> string_count (atomic_group D A option)"
  shows "lane_step D n index option (unat w) T
    = advance index (pc_active option) (dk_max_polyphony D) w (free_takings D A n option w) T"
proof -
  let ?ss = "members (pc_string_mask option AND NOT w)" and ?e = "T ! unat w"
  have one: "s < kMaxVoices" if "s \<in> set ?ss" for s using that bit_u8_bound by simp
  let ?fits = "\<lambda>(l, added :: f64). unat (dp_voice_count ?e) + member_count l \<le> unat (dk_max_polyphony D)"
  have "filter (?fits \<circ> (\<lambda>s. (2 ^ s, lane_score D n option s))) ?ss
      = (if dp_voice_count ?e < dk_max_polyphony D then ?ss else [])"
    using one by (auto simp: word_less_nat_alt filter_empty_conv filter_id_conv)
  then show ?thesis
    using one
    by (auto simp: lane_step_def advance_def free_takings_def Let_def assms filter_map fold_map not_le[symmetric]
        comp_def intro!: fold_cong)
qed

lemma fold_down:
  "(\<And>u T. u < n \<Longrightarrow> P (Suc u) T \<Longrightarrow> P u (f u T)) \<Longrightarrow> P n T \<Longrightarrow> P 0 (fold f (rev [0..<n]) T)"
  by (induction n arbitrary: T) auto

lemma fold_invariant: "P T \<Longrightarrow> (\<And>x T. x \<in> set xs \<Longrightarrow> P T \<Longrightarrow> P (f x T)) \<Longrightarrow> P (fold f xs T)"
  by (induction xs arbitrary: T) auto

lemma length_propose [simp]: "length (propose u e T) = length T"
  by (simp add: propose_def)

lemma propose_nth:
  "m < length T \<Longrightarrow> propose u e T ! m = (if m = u \<and> better_state e (T ! u) then e else T ! m)"
  by (simp add: propose_def nth_list_update)

lemma unat_mask_eq: "unat v = unat w \<longleftrightarrow> v = w" for v w :: u8
  by (simp add: word_unat_eq_iff)

subsection \<open>The entries are feasible\<close>

definition entry_ok :: "Detector \<Rightarrow> Spectrum \<Rightarrow> Candidates \<Rightarrow> M3PoolCandidate list \<Rightarrow> nat \<Rightarrow> u8 \<Rightarrow> M3DpState \<Rightarrow> bool" where
  "entry_ok D S A pool k w e \<longleftrightarrow>
     (dp_valid e \<longrightarrow> feasible D S A pool k w (dp_score_sum e) {i. bit (dp_chosen e) i} \<and> unat (dp_voice_count e) = member_count w)"

definition table_ok :: "Detector \<Rightarrow> Spectrum \<Rightarrow> Candidates \<Rightarrow> M3PoolCandidate list \<Rightarrow> nat \<Rightarrow> M3DpState list \<Rightarrow> bool" where
  "table_ok D S A pool k T \<longleftrightarrow> length T = kM3StringMaskCount \<and> dp_valid (T ! unat (seed_mask A))
     \<and> (\<forall>w. entry_ok D S A pool k w (T ! unat w))"

text \<open>During the pass of option \<open>k\<close> the entries below \<open>u\<close> are still those of the table before it.\<close>

definition pass_ok ::
  "Detector \<Rightarrow> Spectrum \<Rightarrow> Candidates \<Rightarrow> M3PoolCandidate list \<Rightarrow> nat \<Rightarrow> M3DpState list \<Rightarrow> nat \<Rightarrow> M3DpState list \<Rightarrow> bool" where
  "pass_ok D S A pool k T0 u T \<longleftrightarrow>
     table_ok D S A pool (Suc k) T \<and> (\<forall>w :: u8. unat w < u \<longrightarrow> T ! unat w = T0 ! unat w)"

lemma propose_mask:
  fixes v w :: u8
  shows "length T = kM3StringMaskCount \<Longrightarrow>
     propose (unat v) e T ! unat w = (if w = v \<and> better_state e (T ! unat v) then e else T ! unat w)"
  using mask_index [of w] by (simp add: propose_nth unat_mask_eq)

lemma entry_later: "entry_ok D S A pool k w e \<Longrightarrow> k < length pool \<Longrightarrow> entry_ok D S A pool (Suc k) w e"
  by (auto simp: entry_ok_def intro: feasible.leave)

lemma entry_extended:
  assumes "entry_ok D S A pool k w e" "dp_valid e" "k < length pool" "length pool \<le> kPoolCapacity"
    "takes D A (open_candidate_count D S pool) (pool ! k) l added" "w AND l = 0"
    "unat (dp_voice_count e) + member_count l \<le> unat (dk_max_polyphony D)"
  shows "entry_ok D S A pool (Suc k) (w OR l) (extend_state k active added (string_count l) e)"
proof -
  have f: "feasible D S A pool k w (dp_score_sum e) {i. bit (dp_chosen e) i}" and v: "unat (dp_voice_count e) = member_count w"
    using assms(1,2) by (simp_all add: entry_ok_def)
  have c: "{i. bit (dp_chosen e OR push_bit k 1) i} = insert k {i. bit (dp_chosen e) i}"
    using assms(3,4) by (auto simp: bit_simps kPoolCapacity_def kMaxVoices_def)
  have n: "member_count (w OR l) = member_count w + member_count l" by (rule member_count_disjoint [OF assms(6)])
  have "unat (dp_voice_count e + string_count l) = unat (dp_voice_count e) + unat (string_count l)"
    using member_count_le [of w] member_count_le [of l] v string_count_members [of l] by (subst unat_add_lem [THEN iffD1]) auto
  then show ?thesis
    using feasible.take [OF f assms(3,5,6)] assms(7) v n c
    by (simp add: entry_ok_def extend_state_def string_count_members)
qed

lemma propose_pass:
  assumes "pass_ok D S A pool k T0 (unat w) T" "entry_ok D S A pool k w e" "dp_valid e" "k < length pool" "length pool \<le> kPoolCapacity"
    "(l, added) \<in> set (free_takings D A (open_candidate_count D S pool) (pool ! k) w)"
    "unat (dp_voice_count e) + member_count l \<le> unat (dk_max_polyphony D)"
  shows "pass_ok D S A pool k T0 (unat w) (propose (unat (w OR l)) (extend_state k active added (string_count l) e) T)"
proof -
  have t: "takes D A (open_candidate_count D S pool) (pool ! k) l added" "w AND l = 0" using assms(6) by (simp_all add: free_takings_iff)
  note x = entry_extended [OF assms(2-5) t assms(7), of active]
  have g: "unat w < unat (w OR l)" using mask_grows [OF t(2) takes_nonzero [OF t(1)]] .
  have n: "length T = kM3StringMaskCount" using assms(1) by (simp add: pass_ok_def table_ok_def)
  have "entry_ok D S A pool (Suc k) v (propose (unat (w OR l)) (extend_state k active added (string_count l) e) T ! unat v)" for v
    using assms(1) x by (simp only: propose_mask [OF n]) (simp add: pass_ok_def table_ok_def)
  moreover have "propose (unat (w OR l)) (extend_state k active added (string_count l) e) T ! unat v = T0 ! unat v"
    if "unat v < unat w" for v :: u8
    using assms(1) g that by (simp only: propose_mask [OF n]) (auto simp: pass_ok_def)
  moreover have "dp_valid (propose (unat (w OR l)) (extend_state k active added (string_count l) e) T ! unat (seed_mask A))"
    using assms(1) by (simp only: propose_mask [OF n]) (auto simp: pass_ok_def table_ok_def extend_state_def)
  ultimately show ?thesis using n by (simp add: pass_ok_def table_ok_def)
qed

text \<open>The entry a step extends is the one of the table before the pass.\<close>

lemma pass_entry:
  assumes "pass_ok D S A pool k T0 (Suc (unat w)) T" "table_ok D S A pool k T0"
  shows "T ! unat w = T0 ! unat w" "entry_ok D S A pool k w (T ! unat w)" "pass_ok D S A pool k T0 (unat w) T"
  using assms by (simp_all add: pass_ok_def table_ok_def)

lemma advance_pass:
  assumes "pass_ok D S A pool k T0 (Suc (unat w)) T" "table_ok D S A pool k T0" "k < length pool" "length pool \<le> kPoolCapacity"
  shows "pass_ok D S A pool k T0 (unat w)
      (advance k active (dk_max_polyphony D) w (free_takings D A (open_candidate_count D S pool) (pool ! k) w) T)"
proof (cases "dp_valid (T ! unat w)")
  case True
  let ?e = "T ! unat w" and ?P = "pass_ok D S A pool k T0 (unat w)"
  have "?P (fold (\<lambda>(l, added). propose (unat (w OR l)) (extend_state k active added (string_count l) ?e))
      (filter (\<lambda>(l, added). unat (dp_voice_count ?e) + member_count l \<le> unat (dk_max_polyphony D))
        (free_takings D A (open_candidate_count D S pool) (pool ! k) w)) T)"
    by (rule fold_invariant [where P = ?P, OF pass_entry(3) [OF assms(1,2)]], clarsimp)
      (rule propose_pass [OF _ pass_entry(2) [OF assms(1,2)] True assms(3,4)])
  then show ?thesis using True by (simp add: advance_def Let_def)
qed (use assms(1) in \<open>simp add: advance_def pass_ok_def\<close>)

lemma option_step_advance:
  "option_step D A n (k, option) T
    = fold (\<lambda>u. advance k (pc_active option) (dk_max_polyphony D) (of_nat u) (free_takings D A n option (of_nat u)))
        (rev [0..<kM3StringMaskCount]) T"
proof -
  have "fold f (rev [0..<kM3StringMaskCount]) T = fold g (rev [0..<kM3StringMaskCount]) T"
    if "\<And>w. f (unat w) = g (unat (w :: u8))" for f g :: "nat \<Rightarrow> M3DpState list \<Rightarrow> M3DpState list"
    using that of_nat_index by (intro fold_cong) (metis atLeastLessThan_iff set_rev set_upt)+
  note this [of "group_step D k option (atomic_group D A option)"] this [of "lane_step D n k option"]
  then show ?thesis
    by (auto simp: option_step_def Let_def group_step_advance lane_step_advance fun_eq_iff)
qed

lemma option_step_ok:
  assumes "table_ok D S A pool k T" "k < length pool" "length pool \<le> kPoolCapacity"
  shows "table_ok D S A pool (Suc k) (option_step D A (open_candidate_count D S pool) (k, pool ! k) T)"
proof -
  have "pass_ok D S A pool k T kM3StringMaskCount T"
    using assms(1,2) by (auto simp: pass_ok_def table_ok_def intro: entry_later)
  then have "pass_ok D S A pool k T 0 (option_step D A (open_candidate_count D S pool) (k, pool ! k) T)"
    unfolding option_step_advance
  proof (rule fold_down [where P = "pass_ok D S A pool k T", rotated])
    fix u U assume u: "u < kM3StringMaskCount" and "pass_ok D S A pool k T (Suc u) U"
    then show "pass_ok D S A pool k T u (advance k (pc_active (pool ! k)) (dk_max_polyphony D) (of_nat u)
        (free_takings D A (open_candidate_count D S pool) (pool ! k) (of_nat u)) U)"
      using advance_pass [of D S A pool k T "of_nat u" U "pc_active (pool ! k)"] assms by (simp add: of_nat_index)
  qed
  then show ?thesis by (simp add: pass_ok_def)
qed

lemma seed_table_nth:
  "seed_table D S A ! unat w
     = (if w = seed_mask A
        then \<lparr>dp_score_sum = seed_score D S A, dp_chosen = 0, dp_voice_count = string_count (seed_mask A),
              dp_retained_active = (if ca_priority A = None then 0 else 1), dp_valid = True\<rparr>
        else M3DpState_default)"
proof -
  have n: "(replicate kM3StringMaskCount x)[unat v := y] ! unat w = (if w = v then y else x)" for x y :: M3DpState and v :: u8
    using mask_index [of w] mask_index [of v] by (auto simp: nth_list_update unat_mask_eq)
  have z: "string_count 0 = 0" "0 < kM3StringMaskCount" by (simp_all add: string_count.simps kM3StringMaskCount_def)
  show ?thesis
    using n [where v = 0] n mask_index by (cases "ca_priority A")
      (simp_all add: seed_table_def seed_mask_def seed_score_def Let_def M3DpState_default_def z)
qed

lemma seed_ok: "table_ok D S A pool 0 (seed_table D S A)"
proof -
  have "length (seed_table D S A) = kM3StringMaskCount" by (simp add: seed_table_def Let_def split: option.split)
  moreover have "entry_ok D S A pool 0 w (seed_table D S A ! unat w)" for w
    using feasible.start [of D S A pool]
    by (simp add: seed_table_nth entry_ok_def string_count_members M3DpState_default_def)
  ultimately show ?thesis by (simp add: table_ok_def seed_table_nth)
qed

lemma fill_table_prefix:
  assumes "length pool \<le> kPoolCapacity" "k \<le> length pool"
  shows "table_ok D S A pool k (fold (option_step D A (open_candidate_count D S pool)) (take k (enumerate 0 pool)) (seed_table D S A))"
  using assms(2)
proof (induction k)
  case (Suc k)
  then show ?case
    using option_step_ok [of D S A pool k] assms(1) by (simp add: take_Suc_conv_app_nth nth_enumerate_eq)
qed (simp add: seed_ok)

lemma fill_table_ok: "length pool \<le> kPoolCapacity \<Longrightarrow> table_ok D S A pool (length pool) (fill_table D S A pool)"
  using fill_table_prefix [of pool "length pool" D S A] by (simp add: fill_table_def)

subsection \<open>No feasible choice is better\<close>

text \<open>Every score a choice can add is a finite number.\<close>

definition finite_scores :: "Detector \<Rightarrow> Spectrum \<Rightarrow> Candidates \<Rightarrow> M3PoolCandidate list \<Rightarrow> bool" where
  "finite_scores D S A pool \<longleftrightarrow>
     is_finite (seed_score D S A)
     \<and> list_all (\<lambda>p. is_finite (pc_score p)
          \<and> list_all (\<lambda>s. is_finite (lane_score D (open_candidate_count D S pool) p s)) (members (pc_string_mask p))) pool"

lemma takes_finite:
  assumes "finite_scores D S A pool" "k < length pool" "takes D A (open_candidate_count D S pool) (pool ! k) l added"
  shows "is_finite added"
  using assms by (auto simp: finite_scores_def takes_def list_all_iff split: if_splits)

lemma feasible_number:
  assumes "feasible D S A pool k w x I" "finite_scores D S A pool"
  shows "\<not> is_nan x"
  using assms
proof (induction rule: feasible.induct)
  case start
  then show ?case by (simp add: finite_scores_def is_finite_def is_nan_def)
next
  case (take k w x I l added)
  then show ?case using f64_add_finite(1) takes_finite by blast
qed

text \<open>A table that has an entry of at least a score.\<close>

definition covers :: "M3DpState list \<Rightarrow> u8 \<Rightarrow> f64 \<Rightarrow> bool" where
  "covers T w x \<longleftrightarrow> dp_valid (T ! unat w) \<and> x \<le> dp_score_sum (T ! unat w)"

lemma better_covers:
  assumes "\<not> is_nan (dp_score_sum e)" "dp_valid p" "\<not> is_nan (dp_score_sum p)"
  shows "better_state p e \<Longrightarrow> dp_valid e \<Longrightarrow> dp_score_sum e \<le> dp_score_sum p"
    "\<not> better_state p e \<Longrightarrow> dp_valid e \<and> dp_score_sum p \<le> dp_score_sum e"
  using assms f64_not_less [of "dp_score_sum e" "dp_score_sum p"]
  by (auto simp: better_state_def f64_less_imp_le f64_eq_def less_eq_f64_def)

lemma propose_covers:
  assumes "length T = kM3StringMaskCount" "dp_valid p" "\<not> is_nan (dp_score_sum p)"
    "dp_valid (T ! unat v) \<longrightarrow> \<not> is_nan (dp_score_sum (T ! unat v))"
  shows "covers T w x \<Longrightarrow> covers (propose (unat v) p T) w x" "covers (propose (unat v) p T) v (dp_score_sum p)"
proof -
  have b: "dp_score_sum (T ! unat v) \<le> dp_score_sum p" if "better_state p (T ! unat v)" "dp_valid (T ! unat v)"
    using better_covers(1) [of "T ! unat v" p] assms that by simp
  show "covers T w x \<Longrightarrow> covers (propose (unat v) p T) w x"
    using assms(2) b f64_le_trans by (auto simp: covers_def propose_mask [OF assms(1)])
  have "dp_valid (T ! unat v) \<and> dp_score_sum p \<le> dp_score_sum (T ! unat v)" if "\<not> better_state p (T ! unat v)"
    using that assms better_covers(2) [of "T ! unat v" p] by (cases "dp_valid (T ! unat v)") (auto simp: better_state_def)
  then show "covers (propose (unat v) p T) v (dp_score_sum p)"
    using assms(2,3) by (auto simp: covers_def propose_mask [OF assms(1)] f64_le_refl)
qed

text \<open>A step keeps what is covered and covers every taking of its entry.\<close>

lemma entry_number:
  "entry_ok D S A pool k w e \<Longrightarrow> finite_scores D S A pool \<Longrightarrow> dp_valid e \<Longrightarrow> \<not> is_nan (dp_score_sum e)"
  using feasible_number by (auto simp: entry_ok_def)

lemma pass_propose_covers:
  assumes "pass_ok D S A pool k T0 (unat w) T" "entry_ok D S A pool k w e" "dp_valid e" "k < length pool" "finite_scores D S A pool"
    "(l, added) \<in> set (free_takings D A (open_candidate_count D S pool) (pool ! k) w)"
  shows "covers T v x \<Longrightarrow> covers (propose (unat (w OR l)) (extend_state k active added (string_count l) e) T) v x"
    "covers (propose (unat (w OR l)) (extend_state k active added (string_count l) e) T) (w OR l) (dp_score_sum e + added)"
proof -
  let ?p = "extend_state k active added (string_count l) e"
  have t: "takes D A (open_candidate_count D S pool) (pool ! k) l added" using assms(6) by (simp add: free_takings_iff)
  have n: "length T = kM3StringMaskCount" and ok: "entry_ok D S A pool (Suc k) (w OR l) (T ! unat (w OR l))"
    using assms(1) by (simp_all add: pass_ok_def table_ok_def)
  have p: "dp_valid ?p" "\<not> is_nan (dp_score_sum ?p)" "dp_score_sum ?p = dp_score_sum e + added"
    using f64_add_finite(1) [OF entry_number [OF assms(2,5,3)] takes_finite [OF assms(5,4) t]] by (simp_all add: extend_state_def)
  note c = propose_covers [OF n p(1,2), of "w OR l"]
  show "covers T v x \<Longrightarrow> covers (propose (unat (w OR l)) ?p T) v x" "covers (propose (unat (w OR l)) ?p T) (w OR l) (dp_score_sum e + added)"
    using c entry_number [OF ok assms(5)] p(3) by auto
qed

lemma advance_covers:
  fixes active :: bool
  assumes "pass_ok D S A pool k T0 (Suc (unat w)) T" "table_ok D S A pool k T0" "k < length pool" "length pool \<le> kPoolCapacity"
    "finite_scores D S A pool"
  defines "T' \<equiv> advance k active (dk_max_polyphony D) w (free_takings D A (open_candidate_count D S pool) (pool ! k) w) T"
  shows "covers T v x \<Longrightarrow> covers T' v x"
    "takes D A (open_candidate_count D S pool) (pool ! k) l added \<Longrightarrow> w AND l = 0 \<Longrightarrow> member_count (w OR l) \<le> unat (dk_max_polyphony D)
      \<Longrightarrow> dp_valid (T ! unat w) \<Longrightarrow> covers T' (w OR l) (dp_score_sum (T ! unat w) + added)"
proof -
  let ?e = "T ! unat w" and ?P = "pass_ok D S A pool k T0 (unat w)"
  let ?f = "\<lambda>(l, added). propose (unat (w OR l)) (extend_state k active added (string_count l) ?e)"
  let ?free = "free_takings D A (open_candidate_count D S pool) (pool ! k) w"
  let ?fit = "\<lambda>(l, added :: f64). unat (dp_voice_count ?e) + member_count l \<le> unat (dk_max_polyphony D)"
  note e = pass_entry [OF assms(1,2)]
  have all: "(\<forall>v x. covers U v x \<longrightarrow> covers (fold ?f ls U) v x)
      \<and> (\<forall>(l, added) \<in> set ls. covers (fold ?f ls U) (w OR l) (dp_score_sum ?e + added))"
    if "?P U" "set ls \<subseteq> set (filter ?fit ?free)" "dp_valid ?e" for ls U
    using that
  proof (induction ls arbitrary: U)
    case (Cons la ls)
    obtain l added where la: "la = (l, added)" by (cases la)
    have m: "(l, added) \<in> set ?free" "?fit (l, added)" using Cons.prems(2) by (auto simp: la)
    have P: "?P (?f la U)" using propose_pass [OF Cons.prems(1) e(2) Cons.prems(3) assms(3,4) m(1)] m(2) by (simp add: la)
    note c = pass_propose_covers [OF Cons.prems(1) e(2) Cons.prems(3) assms(3,5) m(1), where active = active]
    have ih: "(\<forall>v x. covers (?f la U) v x \<longrightarrow> covers (fold ?f ls (?f la U)) v x)
      \<and> (\<forall>(l, added) \<in> set ls. covers (fold ?f ls (?f la U)) (w OR l) (dp_score_sum ?e + added))"
      by (rule Cons.IH [OF P _ Cons.prems(3)]) (use Cons.prems(2) in simp)
    then show ?case using c by (simp add: la)
  qed simp
  have T': "T' = (if dp_valid ?e then fold ?f (filter ?fit ?free) T else T)" by (simp add: T'_def advance_def Let_def)
  show "covers T v x \<Longrightarrow> covers T' v x" using all [OF e(3) order_refl] by (cases "dp_valid ?e") (simp_all add: T')
  assume t: "takes D A (open_candidate_count D S pool) (pool ! k) l added" "w AND l = 0" "member_count (w OR l) \<le> unat (dk_max_polyphony D)"
    and v: "dp_valid ?e"
  have "unat (dp_voice_count ?e) = member_count w" using e(2) v by (simp add: entry_ok_def)
  then have "(l, added) \<in> set (filter ?fit ?free)" using t by (simp add: free_takings_iff member_count_disjoint)
  then show "covers T' (w OR l) (dp_score_sum ?e + added)" using all [OF e(3) order_refl v] v by (auto simp: T')
qed

definition table_best :: "Detector \<Rightarrow> Spectrum \<Rightarrow> Candidates \<Rightarrow> M3PoolCandidate list \<Rightarrow> nat \<Rightarrow> M3DpState list \<Rightarrow> bool" where
  "table_best D S A pool k T \<longleftrightarrow> (\<forall>w x I. feasible D S A pool k w x I \<longrightarrow> covers T w x)"

text \<open>During a pass: what was covered is, and the takings of the entries from \<open>u\<close> on are covered.\<close>

definition pass_best ::
  "Detector \<Rightarrow> Spectrum \<Rightarrow> Candidates \<Rightarrow> M3PoolCandidate list \<Rightarrow> nat \<Rightarrow> M3DpState list \<Rightarrow> nat \<Rightarrow> M3DpState list \<Rightarrow> bool" where
  "pass_best D S A pool k T0 u T \<longleftrightarrow> pass_ok D S A pool k T0 u T \<and> (\<forall>w x. covers T0 w x \<longrightarrow> covers T w x)
     \<and> (\<forall>w l added. u \<le> unat w \<and> takes D A (open_candidate_count D S pool) (pool ! k) l added \<and> w AND l = 0
          \<and> member_count (w OR l) \<le> unat (dk_max_polyphony D) \<and> dp_valid (T0 ! unat w)
          \<longrightarrow> covers T (w OR l) (dp_score_sum (T0 ! unat w) + added))"

lemma option_step_best:
  assumes "table_ok D S A pool k T" "table_best D S A pool k T" "k < length pool" "length pool \<le> kPoolCapacity" "finite_scores D S A pool"
  shows "table_best D S A pool (Suc k) (option_step D A (open_candidate_count D S pool) (k, pool ! k) T)"
proof -
  let ?n = "open_candidate_count D S pool"
  let ?T' = "option_step D A ?n (k, pool ! k) T"
  have "pass_best D S A pool k T kM3StringMaskCount T"
    using assms(1,3) mask_index by (auto simp: pass_best_def pass_ok_def table_ok_def not_le intro: entry_later dest: leD)
  then have P: "pass_best D S A pool k T 0 ?T'"
    unfolding option_step_advance
  proof (rule fold_down [where P = "pass_best D S A pool k T", rotated])
    fix u U assume u: "u < kM3StringMaskCount" and U: "pass_best D S A pool k T (Suc u) U"
    define v :: u8 where "v = of_nat u"
    have v: "unat v = u" using u by (simp add: v_def of_nat_index)
    have p: "pass_ok D S A pool k T (Suc (unat v)) U" using U by (simp add: pass_best_def v)
    let ?U' = "advance k (pc_active (pool ! k)) (dk_max_polyphony D) v (free_takings D A ?n (pool ! k) v) U"
    note c = advance_covers [OF p assms(1,3-5), where active = "pc_active (pool ! k)"]
    have "pass_ok D S A pool k T u ?U'" using advance_pass [OF p assms(1,3,4)] by (simp add: v)
    moreover have "covers ?U' w x" if "covers T w x" for w x using U that c(1) by (auto simp: pass_best_def)
    moreover have "covers ?U' (w OR l) (dp_score_sum (T ! unat w) + added)"
      if "u \<le> unat w" "takes D A ?n (pool ! k) l added" "w AND l = 0" "member_count (w OR l) \<le> unat (dk_max_polyphony D)"
        "dp_valid (T ! unat w)" for w l added
    proof (cases "w = v")
      case True
      then show ?thesis using c(2) [of l added] that pass_entry(1) [OF p assms(1)] by simp
    next
      case False
      then have "Suc u \<le> unat w" using that(1) v unat_mask_eq [of w v] by simp
      then show ?thesis using U that c(1) by (auto simp: pass_best_def)
    qed
    ultimately show "pass_best D S A pool k T u (advance k (pc_active (pool ! k)) (dk_max_polyphony D) (of_nat u)
        (free_takings D A ?n (pool ! k) (of_nat u)) U)"
      unfolding pass_best_def v_def by blast
  qed
  show ?thesis
    unfolding table_best_def
  proof (intro allI impI)
    fix w x I assume "feasible D S A pool (Suc k) w x I"
    then show "covers ?T' w x"
    proof (cases rule: feasible.cases)
      case leave
      then show ?thesis using assms(2) P by (auto simp: table_best_def pass_best_def)
    next
      case (take w0 x0 I0 l added)
      have c: "covers T w0 x0" using assms(2) take by (auto simp: table_best_def)
      then have v: "dp_valid (T ! unat w0)" "x0 \<le> dp_score_sum (T ! unat w0)" by (simp_all add: covers_def)
      have "entry_ok D S A pool k w0 (T ! unat w0)" using assms(1) by (simp add: table_ok_def)
      from entry_number [OF this assms(5) v(1)] have "\<not> is_nan (dp_score_sum (T ! unat w0))" .
      then have "x0 + added \<le> dp_score_sum (T ! unat w0) + added"
        using f64_add_finite(2) f64_le_not_nan [OF v(2)] v(2) takes_finite [OF assms(5,3), of l added] take by simp
      moreover have "covers ?T' (w0 OR l) (dp_score_sum (T ! unat w0) + added)"
        using P take v(1) by (auto simp: pass_best_def)
      ultimately show ?thesis using take f64_le_trans by (auto simp: covers_def)
    qed
  qed
qed

lemma fill_table_best:
  assumes "length pool \<le> kPoolCapacity" "finite_scores D S A pool"
  shows "table_best D S A pool (length pool) (fill_table D S A pool)"
proof -
  have "table_best D S A pool k (fold (option_step D A (open_candidate_count D S pool)) (take k (enumerate 0 pool)) (seed_table D S A))"
    if "k \<le> length pool" for k
    using that
  proof (induction k)
    case 0
    have "covers (seed_table D S A) (seed_mask A) (seed_score D S A)"
      using assms(2) feasible_number [OF feasible.start assms(2)] by (simp add: covers_def seed_table_nth f64_le_refl)
    then show ?case by (auto simp: table_best_def elim: feasible.cases)
  next
    case (Suc k)
    then show ?case
      using option_step_best [OF fill_table_prefix [OF assms(1), of k]] assms
      by (simp add: take_Suc_conv_app_nth nth_enumerate_eq)
  qed
  from this [of "length pool"] show ?thesis by (simp add: fill_table_def)
qed

subsection \<open>The best entry\<close>

lemma best_entry_valid:
  fixes v :: u8
  assumes "length T = kM3StringMaskCount" "dp_valid (T ! unat v)" "best_entry T = (e, w)"
  shows "dp_valid e" "e = T ! unat w"
proof -
  let ?step = "\<lambda>used best. if dp_valid (T ! used) \<and> better_state (T ! used) (fst best) then (T ! used, of_nat used) else best"
  have ok: "(dp_valid (fst (fold ?step us b)) \<longleftrightarrow> dp_valid (fst b) \<or> (\<exists>u \<in> set us. dp_valid (T ! u)))
      \<and> (dp_valid (fst (fold ?step us b)) \<longrightarrow> fst (fold ?step us b) = T ! unat (snd (fold ?step us b)))"
    if "\<forall>u \<in> set us. u < kM3StringMaskCount" "dp_valid (fst b) \<longrightarrow> fst b = T ! unat (snd b)" for us and b :: "M3DpState \<times> u8"
    using that
  proof (induction us arbitrary: b)
    case (Cons u us)
    have "dp_valid (fst (?step u b)) \<longleftrightarrow> dp_valid (fst b) \<or> dp_valid (T ! u)"
      by (auto simp: better_state_def)
    moreover have "dp_valid (fst (?step u b)) \<longrightarrow> fst (?step u b) = T ! unat (snd (?step u b))"
      using Cons.prems of_nat_index [of u] by simp
    ultimately show ?case using Cons.IH [of "?step u b"] Cons.prems(1) by simp
  qed simp
  have "\<exists>u \<in> set [0..<kM3StringMaskCount]. dp_valid (T ! u)" using assms(2) mask_index [of v] by auto
  then show "dp_valid e" "e = T ! unat w"
    using ok [of "[0..<kM3StringMaskCount]" "(M3DpState_default, 0)"] assms(1,3)
    by (auto simp: best_entry_def M3DpState_default_def)
qed

text \<open>What a feasible choice is: each of its options has strings of its own.\<close>

lemma feasible_lanes:
  assumes "feasible D S A pool k w x I"
  shows "I \<subseteq> {..<k} \<and> k \<le> length pool \<and> (\<forall>s. bit (seed_mask A) s \<longrightarrow> bit w s)
    \<and> (w = seed_mask A \<or> member_count w \<le> unat (dk_max_polyphony D))
    \<and> (\<exists>lanes. (\<forall>i \<in> I. (\<exists>added. takes D A (open_candidate_count D S pool) (pool ! i) (lanes i) added)
                  \<and> (\<forall>s. bit (lanes i) s \<longrightarrow> bit w s \<and> \<not> bit (seed_mask A) s))
        \<and> (\<forall>i \<in> I. \<forall>j \<in> I. i \<noteq> j \<longrightarrow> lanes i AND lanes j = 0))"
  using assms
proof (induction rule: feasible.induct)
  case (take k w x I l added)
  then obtain lanes where IH: "I \<subseteq> {..<k}" "\<forall>s. bit (seed_mask A) s \<longrightarrow> bit w s"
    "\<forall>i \<in> I. (\<exists>added. takes D A (open_candidate_count D S pool) (pool ! i) (lanes i) added)
       \<and> (\<forall>s. bit (lanes i) s \<longrightarrow> bit w s \<and> \<not> bit (seed_mask A) s)"
    "\<forall>i \<in> I. \<forall>j \<in> I. i \<noteq> j \<longrightarrow> lanes i AND lanes j = 0" by auto
  have d: "\<not> bit w s" if "bit l s" for s using take.hyps(4) that by (auto simp: and_zero_bits)
  have k: "k \<notin> I" using IH(1) by auto
  let ?lanes = "lanes(k := l)"
  have 1: "\<forall>i \<in> insert k I. (\<exists>added. takes D A (open_candidate_count D S pool) (pool ! i) (?lanes i) added)
       \<and> (\<forall>s. bit (?lanes i) s \<longrightarrow> bit (w OR l) s \<and> \<not> bit (seed_mask A) s)"
    using IH(2,3) d take.hyps(3) k by (auto simp: bit_or_iff)
  have "\<forall>i \<in> I. lanes i AND l = 0" using IH(3) d by (auto simp: and_zero_bits)
  then have "\<forall>i \<in> insert k I. \<forall>j \<in> insert k I. i \<noteq> j \<longrightarrow> ?lanes i AND ?lanes j = 0"
    using IH(4) k by (auto simp: and.commute)
  with 1 take.hyps(2,5) IH(1,2) show ?case by (intro conjI exI [of _ ?lanes]) (auto simp: bit_or_iff)
next
  case (leave k w x I)
  then show ?case by (elim conjE exE) (intro conjI, auto)
qed auto

subsection \<open>The options of the pool\<close>

text \<open>A group that is kept together: playable strings, two at least, and no more than voices.\<close>

definition group_ok :: "Detector \<Rightarrow> nat \<Rightarrow> u8 \<Rightarrow> bool" where
  "group_ok D c w \<longleftrightarrow> w = 0 \<or> \<not> outside w (playable_string_mask D c) \<and> 2 \<le> member_count w \<and> member_count w \<le> unat (dk_max_polyphony D)"

definition groups_ok :: "Detector \<Rightarrow> u8 list \<Rightarrow> bool" where
  "groups_ok D masks \<longleftrightarrow> length masks = kMaxCandidates \<and> (\<forall>c. c < kMaxCandidates \<longrightarrow> group_ok D c (masks ! c))"

definition priority_ok :: "Detector \<Rightarrow> u8 list \<times> nat option \<Rightarrow> bool" where
  "priority_ok D G \<longleftrightarrow> groups_ok D (fst G)
     \<and> (case snd G of None \<Rightarrow> True | Some r \<Rightarrow> r < dk_count D \<and> r < kMaxCandidates \<and> fst G ! r \<noteq> 0)"

lemma retained_group_ok:
  assumes "retained_group D S c"
  shows "group_ok D c (cs_assigned_string_mask (candidate_state D c))" "cs_assigned_string_mask (candidate_state D c) \<noteq> 0"
proof -
  let ?w = "cs_assigned_string_mask (candidate_state D c)"
  have w: "2 \<le> string_count ?w" "string_count ?w \<le> dk_max_polyphony D" "?w AND playable_string_mask D c = ?w"
    using assms by (simp_all add: retained_group_def Let_def)
  have "\<not> outside ?w (playable_string_mask D c)" by (metis w(3) outside_bits bit_and_iff)
  with w(1,2) show "group_ok D c ?w" by (simp add: group_ok_def word_le_nat_alt string_count_members)
  from w(1) show "?w \<noteq> 0" by (auto simp: string_count.simps)
qed

lemma completed_group_ok:
  assumes "completed_group M D S c = Some w"
  shows "group_ok D c w" "w \<noteq> 0"
proof -
  define fine where "fine = ff_member_mask (fine_state D c) AND playable_string_mask D c"
  define heads where "heads = string_fret_spectral_head_evidence M D c"
  have w: "w = bounded_spectral_tier_completion True (cs_assigned_string_mask (candidate_state D c)) fine
        (playable_string_mask D c) heads (ff_added_member_beat_coherence (fine_state D c)) (ff_component_energy (fine_state D c))"
    "w \<noteq> fine" "2 \<le> string_count w" "string_count w \<le> dk_max_polyphony D"
    using assms by (auto simp: completed_group_def Let_def fine_def heads_def split: if_splits)
  have "\<not> outside (w AND NOT fine) (playable_string_mask D c)"
    using tier_completion_adds_one [of True "cs_assigned_string_mask (candidate_state D c)" fine "playable_string_mask D c" heads
        "ff_added_member_beat_coherence (fine_state D c)" "ff_component_energy (fine_state D c)"] w(1,2) by simp
  then have "\<not> outside w (playable_string_mask D c)"
    using bit_u8_bound [of w] unfolding outside_bits fine_def by (auto simp: bit_simps kMaxVoices_def)
  with w(3,4) show "group_ok D c w" by (simp add: group_ok_def word_le_nat_alt string_count_members)
  from w(3) show "w \<noteq> 0" by (auto simp: string_count.simps)
qed

lemma groups_ok_update: "groups_ok D masks \<Longrightarrow> group_ok D c w \<Longrightarrow> groups_ok D (masks[c := w])"
  by (cases "c < length masks") (auto simp: groups_ok_def nth_list_update)

lemma update_nonzero: "w \<noteq> 0 \<Longrightarrow> masks ! r \<noteq> 0 \<Longrightarrow> masks[c := w] ! r \<noteq> (0 :: u8)"
  by (metis list_update_beyond not_less nth_list_update_eq nth_list_update_neq)

lemma consider_retained_ok:
  assumes "priority_ok D G" "c < dk_count D" "dk_count D \<le> kMaxCandidates"
  shows "priority_ok D (consider_retained D S c G)"
proof -
  obtain masks retained where G: "G = (masks, retained)" by (cases G)
  have "length masks = kMaxCandidates" using assms(1) by (simp add: G priority_ok_def groups_ok_def)
  then show ?thesis
    using assms retained_group_ok [of D S c]
    by (auto simp: G consider_retained_def priority_ok_def groups_ok_update nth_list_update split: option.splits)
qed

lemma consider_completion_ok:
  assumes "priority_ok D (masks, retained)"
  shows "priority_ok D (consider_completion M D S c masks, retained)"
proof -
  have "length masks = kMaxCandidates" using assms by (simp add: priority_ok_def groups_ok_def)
  then show ?thesis
    using assms completed_group_ok [of M D S c]
    by (auto simp: consider_completion_def priority_ok_def groups_ok_update update_nonzero split: option.splits)
qed

lemma selector_groups_ok:
  assumes "dk_count D \<le> kMaxCandidates"
  shows "priority_ok D (selector_groups M D S)"
proof -
  have "priority_ok D (fold (consider_retained D S) [0..<dk_count D] (replicate kMaxCandidates 0, None))"
  proof (rule fold_invariant)
    show "priority_ok D (replicate kMaxCandidates 0, None)" by (simp add: priority_ok_def groups_ok_def group_ok_def)
  qed (simp add: consider_retained_ok assms)
  moreover obtain masks retained where "fold (consider_retained D S) [0..<dk_count D] (replicate kMaxCandidates 0, None) = (masks, retained)"
    by (metis surj_pair)
  moreover have "priority_ok D (fold (consider_completion M D S) cs masks, retained)" if "priority_ok D (masks, retained)" for cs
    using that by (induction cs arbitrary: masks) (auto intro: consider_completion_ok)
  ultimately show ?thesis by (simp add: selector_groups_def)
qed

text \<open>The pool holds a candidate once, never the retained one, with a group or all its playable strings.\<close>

definition option_ok :: "Detector \<Rightarrow> Candidates \<Rightarrow> M3PoolCandidate \<Rightarrow> bool" where
  "option_ok D A p \<longleftrightarrow> pc_detector_index p < dk_count D \<and> ca_priority A \<noteq> Some (pc_detector_index p)
     \<and> (pc_string_mask p = ca_groups A ! pc_detector_index p \<and> 2 \<le> member_count (pc_string_mask p)
        \<or> pc_string_mask p = playable_string_mask D (pc_detector_index p) \<and> pc_string_mask p \<noteq> 0)"

definition pool_ok :: "Detector \<Rightarrow> Candidates \<Rightarrow> M3PoolCandidate list \<Rightarrow> bool" where
  "pool_ok D A pool \<longleftrightarrow> length pool \<le> kPoolCapacity \<and> distinct (map pc_detector_index pool) \<and> (\<forall>p \<in> set pool. option_ok D A p)"

lemma in_pool_iff: "in_pool pool c \<longleftrightarrow> c \<in> set (map pc_detector_index pool)"
  by (auto simp: in_pool_def list_ex_iff)

lemma group_option_ok:
  assumes "pool_ok D A pool" "c < dk_count D" "\<forall>p \<in> set pool. pc_detector_index p < c"
  shows "pool_ok D A (group_option D S A c pool)" "\<forall>p \<in> set (group_option D S A c pool). pc_detector_index p < Suc c"
  using assms
  by (auto simp: group_option_def Let_def pool_ok_def option_ok_def word_le_nat_alt string_count_members not_less
      less_imp_neq less_SucI)

lemma group_options_ok:
  "k \<le> dk_count D \<Longrightarrow> pool_ok D A (fold (group_option D S A) [0..<k] [])
     \<and> (\<forall>p \<in> set (fold (group_option D S A) [0..<k] []). pc_detector_index p < k)"
proof (induction k)
  case (Suc k)
  then show ?case using group_option_ok [of D A "fold (group_option D S A) [0..<k] []" k S] by simp
qed (simp add: pool_ok_def)

lemma fold_pick:
  assumes "\<And>c best. c \<in> set cs \<Longrightarrow> f c best = best \<or> f c best = Some (g c) \<and> Q c" "fold f cs b = Some v"
  shows "b = Some v \<or> (\<exists>c \<in> set cs. v = g c \<and> Q c)"
  using assms
proof (induction cs arbitrary: b)
  case (Cons c cs)
  have "f c b = Some v \<or> (\<exists>c \<in> set cs. v = g c \<and> Q c)"
    by (rule Cons.IH [of "f c b"]) (use Cons.prems in simp_all)
  with Cons.prems(1) [of c b] show ?case by fastforce
qed simp

lemma string_candidate_ok:
  assumes "string_candidate D A s taken = Some c"
  shows "c < dk_count D \<and> ca_priority A \<noteq> Some c \<and> bit (playable_string_mask D c) s"
proof -
  have "(None :: nat option) = Some c \<or> (\<exists>d \<in> set [0..<dk_count D]. c = d \<and> (ca_priority A \<noteq> Some d \<and> bit (playable_string_mask D d) s))"
    by (rule fold_pick [OF _ assms [unfolded string_candidate_def]]) (simp split: option.split)
  then show ?thesis by simp
qed

lemma string_options_ok: "pool_ok D A pool \<Longrightarrow> pool_ok D A (string_options D A s ranks taken pool)"
proof (induction ranks arbitrary: taken pool)
  case (Suc ranks)
  show ?case
  proof (cases "string_candidate D A s taken")
    case (Some c)
    let ?p = "\<lparr>pc_detector_index = c, pc_string_mask = playable_string_mask D c,
      pc_score = selection_score A c, pc_active = cs_active (candidate_state D c)\<rparr>"
    note c = string_candidate_ok [OF Some]
    have "playable_string_mask D c \<noteq> 0" using c by auto
    with c have "pool_ok D A (pool @ [?p])" if "\<not> in_pool pool c" "\<not> kPoolCapacity \<le> length pool"
      using Suc.prems that by (simp add: pool_ok_def option_ok_def in_pool_iff)
    then show ?thesis using Suc.IH Suc.prems Some by simp
  qed (use Suc.prems in simp)
qed simp

lemma build_pool_ok: "pool_ok D A (build_pool D S A)"
  unfolding build_pool_def
  by (rule fold_invariant [where P = "pool_ok D A"]) (simp_all add: group_options_ok string_options_ok)

subsection \<open>A selection can be played\<close>

text \<open>
  The selected candidates can sound together: every one of them has strings of its own that can play it, and
  all of them together are no more than the voices.
\<close>

definition lanes_fit :: "Detector \<Rightarrow> (nat \<Rightarrow> u8) \<Rightarrow> bool list \<Rightarrow> u8 \<Rightarrow> bool" where
  "lanes_fit D lanes selected w \<longleftrightarrow>
     (\<forall>c < dk_count D. selected ! c \<longrightarrow>
        lanes c \<noteq> 0 \<and> \<not> outside (lanes c) (playable_string_mask D c) \<and> \<not> outside (lanes c) w)
     \<and> (\<forall>c < dk_count D. \<forall>d < dk_count D. selected ! c \<and> selected ! d \<and> c \<noteq> d \<longrightarrow> lanes c AND lanes d = 0)"

lemma lanes_fitI:
  assumes "\<And>c. c < dk_count D \<Longrightarrow> selected ! c \<Longrightarrow>
      lanes c \<noteq> 0 \<and> \<not> outside (lanes c) (playable_string_mask D c) \<and> \<not> outside (lanes c) w"
    "\<And>c d. c < dk_count D \<Longrightarrow> selected ! c \<Longrightarrow> d < dk_count D \<Longrightarrow> selected ! d \<Longrightarrow> c \<noteq> d \<Longrightarrow> lanes c AND lanes d = 0"
  shows "lanes_fit D lanes selected w"
  using assms by (simp add: lanes_fit_def)

definition playable_together :: "Detector \<Rightarrow> bool list \<Rightarrow> bool" where
  "playable_together D selected \<longleftrightarrow>
     (\<exists>lanes w. lanes_fit D lanes selected w \<and> member_count w \<le> unat (dk_max_polyphony D))"

lemma option_mask_ok:
  assumes "groups_ok D (ca_groups A)" "option_ok D A p" "dk_count D \<le> kMaxCandidates"
  shows "\<not> outside (pc_string_mask p) (playable_string_mask D (pc_detector_index p))" "pc_string_mask p \<noteq> 0"
proof -
  have "group_ok D (pc_detector_index p) (ca_groups A ! pc_detector_index p)"
    using assms by (simp add: groups_ok_def option_ok_def)
  then show "\<not> outside (pc_string_mask p) (playable_string_mask D (pc_detector_index p))" "pc_string_mask p \<noteq> 0"
    using assms(2) by (auto simp: option_ok_def group_ok_def outside_bits)
qed

lemma takes_playable:
  assumes "groups_ok D (ca_groups A)" "option_ok D A p" "dk_count D \<le> kMaxCandidates" "takes D A n p l added"
  shows "\<not> outside l (playable_string_mask D (pc_detector_index p))"
proof -
  let ?c = "pc_detector_index p"
  have g: "group_ok D ?c (ca_groups A ! ?c)" using assms(1-3) by (simp add: groups_ok_def option_ok_def)
  have two: "2 \<le> string_count w \<longleftrightarrow> 2 \<le> member_count w" for w by (simp add: word_le_nat_alt string_count_members)
  note m = option_mask_ok(1) [OF assms(1-3)]
  show ?thesis
  proof (cases "2 \<le> string_count (atomic_group D A p)")
    case True
    then have "l = ca_groups A ! ?c \<and> 2 \<le> member_count l \<or> l AND pc_string_mask p = l"
      using assms(4) by (auto simp: takes_def atomic_group_def Let_def two split: if_splits)
    then show ?thesis
    proof
      assume "l AND pc_string_mask p = l"
      then have "bit (pc_string_mask p) s" if "bit l s" for s using that by (metis bit_and_iff)
      with m show ?thesis by (simp add: outside_bits)
    qed (use g in \<open>auto simp: group_ok_def\<close>)
  next
    case False
    then obtain s where "bit (pc_string_mask p) s" "l = push_bit s 1" using assms(4) by (auto simp: takes_def)
    with m show ?thesis by (auto simp: outside_bits bit_simps bit_1_iff)
  qed
qed

text \<open>What is selected by the retained group and the chosen options.\<close>

definition chosen_selection :: "Candidates \<Rightarrow> M3PoolCandidate list \<Rightarrow> u64 \<Rightarrow> bool list" where
  "chosen_selection A pool chosen =
     fold (\<lambda>(index, p) selected. if bit chosen index then selected[pc_detector_index p := True] else selected)
       (enumerate 0 pool) (select_one (ca_priority A) (replicate kMaxCandidates False))"

lemma length_select_one [simp]: "length (select_one c selected) = length selected"
  by (simp add: select_one_def split: option.split)

lemma set_true_nth: "d < length selected \<Longrightarrow> selected[c := True] ! d \<longleftrightarrow> selected ! d \<or> c = d"
  by (cases "c = d") auto

lemma select_one_nth:
  "d < length selected \<Longrightarrow> select_one c selected ! d \<longleftrightarrow> selected ! d \<or> c = Some d"
  by (auto simp: select_one_def set_true_nth split: option.split)

lemma chosen_selection_nth:
  assumes "c < kMaxCandidates"
  shows "chosen_selection A pool chosen ! c \<longleftrightarrow>
      ca_priority A = Some c \<or> (\<exists>i < length pool. bit chosen i \<and> pc_detector_index (pool ! i) = c)"
proof -
  define f where "f = (\<lambda>(index, p :: M3PoolCandidate) selected. if bit chosen index then selected[pc_detector_index p := True] else selected)"
  have f: "length (f ip sel) = length sel"
      "c < length sel \<Longrightarrow> f ip sel ! c \<longleftrightarrow> sel ! c \<or> bit chosen (fst ip) \<and> pc_detector_index (snd ip) = c" for ip sel
    by (simp_all add: f_def set_true_nth split: prod.split)
  have "fold f ips sel ! c \<longleftrightarrow> sel ! c \<or> (\<exists>ip \<in> set ips. bit chosen (fst ip) \<and> pc_detector_index (snd ip) = c)"
    if "c < length sel" for ips sel
    using that
  proof (induction ips arbitrary: sel)
    case (Cons ip ips)
    then show ?case by (simp add: f)
  qed simp
  from this [of "select_one (ca_priority A) (replicate kMaxCandidates False)" "enumerate 0 pool"] assms
  moreover have "(\<exists>ip \<in> set (enumerate 0 pool). bit chosen (fst ip) \<and> pc_detector_index (snd ip) = c)
      \<longleftrightarrow> (\<exists>i < length pool. bit chosen i \<and> pc_detector_index (pool ! i) = c)"
    by (auto simp: in_set_enumerate_eq intro: bexI [where x = "(i, pool ! i)" for i])
  ultimately show ?thesis by (auto simp: chosen_selection_def f_def [symmetric] select_one_nth)
qed

lemma chosen_fit:
  assumes "priority_ok D (ca_groups A, ca_priority A)" "pool_ok D A pool" "dk_count D \<le> kMaxCandidates"
    "feasible D S A pool (length pool) w x {i. bit chosen i}"
  shows "\<exists>lanes. lanes_fit D lanes (chosen_selection A pool chosen) w" "member_count w \<le> unat (dk_max_polyphony D)"
proof -
  obtain lanes where L: "{i. bit chosen i} \<subseteq> {..<length pool}" "\<forall>s. bit (seed_mask A) s \<longrightarrow> bit w s"
    "\<forall>i. bit chosen i \<longrightarrow> (\<exists>added. takes D A (open_candidate_count D S pool) (pool ! i) (lanes i) added)
       \<and> (\<forall>s. bit (lanes i) s \<longrightarrow> bit w s \<and> \<not> bit (seed_mask A) s)"
    "\<forall>i j. bit chosen i \<and> bit chosen j \<and> i \<noteq> j \<longrightarrow> lanes i AND lanes j = 0"
    and le: "w = seed_mask A \<or> member_count w \<le> unat (dk_max_polyphony D)"
    using feasible_lanes [OF assms(4)] by auto
  have seed: "seed_mask A = 0 \<and> ca_priority A = None
      \<or> (\<exists>r. ca_priority A = Some r \<and> r < dk_count D \<and> seed_mask A \<noteq> 0 \<and> group_ok D r (seed_mask A))"
    using assms(1) by (auto simp: priority_ok_def seed_mask_def groups_ok_def split: option.splits)
  then show "member_count w \<le> unat (dk_max_polyphony D)"
    using le by (auto simp: group_ok_def)
  define pos where "pos c = (THE i. i < length pool \<and> pc_detector_index (pool ! i) = c)" for c
  have pos: "pos (pc_detector_index (pool ! i)) = i" if "i < length pool" for i
    unfolding pos_def
    using that assms(2) nth_eq_iff_index_eq [of "map pc_detector_index pool"]
    by (intro the_equality) (auto simp: pool_ok_def)
  define own where "own c = (if ca_priority A = Some c then seed_mask A else lanes (pos c))" for c
  have pool: "option_ok D A (pool ! i)" if "i < length pool" for i using assms(2) that by (simp add: pool_ok_def)
  have sel: "ca_priority A = Some c \<and> own c = seed_mask A
      \<or> (\<exists>i. bit chosen i \<and> i < length pool \<and> pc_detector_index (pool ! i) = c \<and> ca_priority A \<noteq> Some c \<and> own c = lanes i)"
    if "c < dk_count D" "chosen_selection A pool chosen ! c" for c
    using that assms(3) chosen_selection_nth [of c A pool chosen] pos pool by (auto simp: own_def option_ok_def)
  have "own c \<noteq> 0 \<and> \<not> outside (own c) (playable_string_mask D c) \<and> \<not> outside (own c) w"
    if c: "c < dk_count D" "chosen_selection A pool chosen ! c" for c
    using sel [OF c]
  proof (elim disjE exE conjE)
    assume "ca_priority A = Some c" "own c = seed_mask A"
    then show ?thesis using seed L(2) by (auto simp: group_ok_def outside_bits)
  next
    fix i assume i: "bit chosen i" "i < length pool" "pc_detector_index (pool ! i) = c" "own c = lanes i"
    obtain added where t: "takes D A (open_candidate_count D S pool) (pool ! i) (lanes i) added" using L(3) i(1) by blast
    have "groups_ok D (ca_groups A)" using assms(1) by (simp add: priority_ok_def)
    from takes_playable [OF this pool [OF i(2)] assms(3) t] takes_nonzero [OF t] L(3) i
    show ?thesis by (auto simp: outside_bits)
  qed
  moreover have same: "i = j" if "bit chosen i" "bit chosen j" "bit (lanes i) s" "bit (lanes j) s" for i j s
    using L(4) that by (auto simp: and_zero_bits)
  have "own c AND own d = 0"
    if c: "c < dk_count D" "chosen_selection A pool chosen ! c" and d: "d < dk_count D" "chosen_selection A pool chosen ! d"
      and "c \<noteq> d" for c d
    using sel [OF c] sel [OF d] \<open>c \<noteq> d\<close> L(3) by (auto simp: and_zero_bits dest: same)
  ultimately show "\<exists>lanes. lanes_fit D lanes (chosen_selection A pool chosen) w"
    unfolding lanes_fit_def by blast
qed

text \<open>One more candidate with a free string of its own.\<close>

lemma lanes_fit_more:
  assumes "lanes_fit D lanes selected w" "length selected = kMaxCandidates" "dk_count D \<le> kMaxCandidates"
    "c < dk_count D" "\<not> selected ! c" "bit (playable_string_mask D c) s" "\<not> bit w s"
  shows "lanes_fit D (lanes(c := push_bit s 1)) (selected[c := True]) (w OR push_bit s 1)"
    "member_count (w OR push_bit s 1) = member_count w + 1"
proof -
  have s: "s < kMaxVoices" using assms(6) bit_u8_bound by blast
  have b: "bit (2 ^ s :: u8) t \<longleftrightarrow> t = s" for t using s by (auto simp: bit_simps kMaxVoices_def)
  have sel: "selected[c := True] ! d \<longleftrightarrow> selected ! d \<or> c = d" if "d < dk_count D" for d
    using that assms(2,3) by (simp add: set_true_nth)
  have nz: "(push_bit s 1 :: u8) \<noteq> 0" using string_nonzero [OF s] by simp
  have out: "\<not> bit (lanes d) s" if "d < dk_count D" "selected ! d" for d
    using assms(1,7) that by (auto simp: lanes_fit_def outside_bits)
  have 1: "(lanes(c := push_bit s 1)) d \<noteq> 0 \<and> \<not> outside ((lanes(c := push_bit s 1)) d) (playable_string_mask D d)
      \<and> \<not> outside ((lanes(c := push_bit s 1)) d) (w OR push_bit s 1)" if "d < dk_count D" "selected ! d \<or> c = d" for d
    using assms(1,5,6) that nz by (auto simp: lanes_fit_def outside_bits b bit_or_iff)
  have new: "lanes d AND push_bit s 1 = 0" if "d < dk_count D" "selected ! d" for d
    using out [OF that] by (auto simp: and_zero_bits b)
  have 2: "(lanes(c := push_bit s 1)) d AND (lanes(c := push_bit s 1)) e = 0"
    if "d < dk_count D" "selected ! d \<or> c = d" "e < dk_count D" "selected ! e \<or> c = e" "d \<noteq> e" for d e
  proof (cases "c = d \<or> c = e")
    case True
    then show ?thesis using that new [of d] new [of e] by (cases "c = d") (simp_all add: and.commute)
  next
    case False
    then show ?thesis using assms(1) that by (simp add: lanes_fit_def)
  qed
  show "lanes_fit D (lanes(c := push_bit s 1)) (selected[c := True]) (w OR push_bit s 1)"
  proof (rule lanes_fitI)
    fix d assume d: "d < dk_count D" "selected[c := True] ! d"
    show "(lanes(c := push_bit s 1)) d \<noteq> 0 \<and> \<not> outside ((lanes(c := push_bit s 1)) d) (playable_string_mask D d)
      \<and> \<not> outside ((lanes(c := push_bit s 1)) d) (w OR push_bit s 1)"
      by (rule 1 [OF d(1) sel [OF d(1), THEN iffD1, OF d(2)]])
  next
    fix d e assume d: "d < dk_count D" "selected[c := True] ! d" and e: "e < dk_count D" "selected[c := True] ! e" and "d \<noteq> e"
    show "(lanes(c := push_bit s 1)) d AND (lanes(c := push_bit s 1)) e = 0"
      by (rule 2 [OF d(1) sel [OF d(1), THEN iffD1, OF d(2)] e(1) sel [OF e(1), THEN iffD1, OF e(2)] \<open>d \<noteq> e\<close>])
  qed
  have "w AND push_bit s 1 = 0" using assms(7) by (auto simp: and_zero_bits b)
  then show "member_count (w OR push_bit s 1) = member_count w + 1"
    using s by (simp add: member_count_disjoint)
qed

lemma strongest_direct_pool:
  "strongest_direct D S A pool = Some c \<Longrightarrow> \<exists>p \<in> set pool. c = pc_detector_index p"
  unfolding strongest_direct_def
  by (drule fold_pick [where g = pc_detector_index and Q = "\<lambda>_. True", rotated])
    (auto simp: Let_def split: option.split)

lemma rescued_candidate_free:
  "rescued_candidate D A selected w = Some c \<Longrightarrow>
     c < dk_count D \<and> \<not> selected ! c \<and> playable_string_mask D c AND NOT w \<noteq> 0"
  unfolding rescued_candidate_def
  by (drule fold_pick [where g = "\<lambda>c. c" and Q = "\<lambda>c. \<not> selected ! c \<and> playable_string_mask D c AND NOT w \<noteq> 0", rotated])
    (auto split: option.split)

lemma selection_playable_table:
  assumes "dk_count D \<le> kMaxCandidates" "0 < dk_max_polyphony D" "priority_ok D (ca_groups A, ca_priority A)" "pool_ok D A pool"
  shows "playable_together D (take_selection D S A pool (best_entry (fill_table D S A pool)))"
proof -
  obtain e w where b: "best_entry (fill_table D S A pool) = (e, w)" by (cases "best_entry (fill_table D S A pool)")
  have ok: "table_ok D S A pool (length pool) (fill_table D S A pool)"
    using fill_table_ok assms(4) by (simp add: pool_ok_def)
  have t: "length (fill_table D S A pool) = kM3StringMaskCount" "dp_valid (fill_table D S A pool ! unat (seed_mask A))"
    using ok by (simp_all add: table_ok_def)
  note e = best_entry_valid [OF t b]
  have "entry_ok D S A pool (length pool) w e" using ok by (subst e(2)) (simp add: table_ok_def)
  with e(1) have f: "feasible D S A pool (length pool) w (dp_score_sum e) {i. bit (dp_chosen e) i}"
    and v: "unat (dp_voice_count e) = member_count w" by (simp_all add: entry_ok_def)
  let ?sel = "chosen_selection A pool (dp_chosen e)"
  obtain lanes where fit: "lanes_fit D lanes ?sel w" and le: "member_count w \<le> unat (dk_max_polyphony D)"
    using chosen_fit [OF assms(3,4,1) f] by blast
  have len: "length ?sel = kMaxCandidates"
    unfolding chosen_selection_def by (rule fold_invariant [where P = "\<lambda>xs. length xs = kMaxCandidates"]) auto
  have v0: "dp_voice_count e = 0 \<longleftrightarrow> w = 0" using v by (metis member_count_0 unat_eq_zero)
  have take: "take_selection D S A pool (e, w) =
      (let sel = (if w = 0 then select_one (strongest_direct D S A pool) ?sel else ?sel)
       in if w \<noteq> 0 \<and> member_count w < unat (dk_max_polyphony D)
          then select_one (rescued_candidate D A sel w) sel else sel)"
    using v v0 by (simp add: take_selection_def chosen_selection_def Let_def word_less_nat_alt word_gt_0)
  have more: "playable_together D (?sel[c := True])"
    if "c < dk_count D" "\<not> ?sel ! c" "bit (playable_string_mask D c) s" "\<not> bit w s" "member_count w < unat (dk_max_polyphony D)" for c s
    using lanes_fit_more [OF fit len assms(1) that(1-4)] that(5) unfolding playable_together_def by (metis Suc_eq_plus1 Suc_leI)
  have plain: "playable_together D ?sel" using fit le unfolding playable_together_def by blast
  show ?thesis
  proof (cases "w = 0")
    case True
    have none: "\<not> ?sel ! c" if "c < dk_count D" for c
      using fit that True nonzero_bit [of "lanes c"] by (auto simp: lanes_fit_def outside_bits)
    show ?thesis
    proof (cases "strongest_direct D S A pool")
      case (Some c)
      then obtain p where p: "p \<in> set pool" "c = pc_detector_index p" using strongest_direct_pool by blast
      then have o: "option_ok D A p" using assms(4) by (simp add: pool_ok_def)
      then have c: "c < dk_count D" using p(2) by (simp add: option_ok_def)
      have "groups_ok D (ca_groups A)" using assms(3) by (simp add: priority_ok_def)
      note mask = option_mask_ok [OF this o assms(1)]
      obtain s where "bit (pc_string_mask p) s" using nonzero_bit [OF mask(2)] by blast
      then have "\<exists>s. bit (playable_string_mask D c) s" using mask(1) by (auto simp: outside_bits p(2))
      then obtain s where "bit (playable_string_mask D c) s" by blast
      then show ?thesis
        using more [OF c none [OF c]] assms(2) unfolding b take
        by (simp add: Let_def True Some select_one_def word_less_nat_alt)
    qed (use plain in \<open>simp add: b take [unfolded True] True Let_def select_one_def\<close>)
  next
    case False
    show ?thesis
    proof (cases "member_count w < unat (dk_max_polyphony D) \<and> rescued_candidate D A ?sel w \<noteq> None")
      case True
      then obtain c where c: "rescued_candidate D A ?sel w = Some c" by blast
      note r = rescued_candidate_free [OF c]
      then obtain s where "bit (playable_string_mask D c AND NOT w) s" using nonzero_bit by blast
      then have "bit (playable_string_mask D c) s" "\<not> bit w s" by (auto simp: bit_simps)
      then show ?thesis using more r True c False by (simp add: b take Let_def select_one_def)
    qed (use plain False in \<open>auto simp: b take Let_def select_one_def split: option.split\<close>)
  qed
qed

lemma best_entry_best:
  fixes w :: u8
  assumes "length T = kM3StringMaskCount" "\<And>w :: u8. dp_valid (T ! unat w) \<Longrightarrow> \<not> is_nan (dp_score_sum (T ! unat w))"
    "dp_valid (T ! unat w)"
  shows "dp_score_sum (T ! unat w) \<le> dp_score_sum (fst (best_entry T))"
proof -
  define step :: "nat \<Rightarrow> M3DpState \<times> u8 \<Rightarrow> M3DpState \<times> u8" where
    "step used best = (if dp_valid (T ! used) \<and> better_state (T ! used) (fst best) then (T ! used, of_nat used) else best)"
    for used best
  define num where "num (e :: M3DpState) \<longleftrightarrow> (dp_valid e \<longrightarrow> \<not> is_nan (dp_score_sum e))" for e
  have T: "num (T ! u)" if "u < kM3StringMaskCount" for u
    using assms(2) [of "of_nat u"] of_nat_index [OF that] by (simp add: num_def)
  have "(dp_valid (fst b) \<longrightarrow> dp_score_sum (fst b) \<le> dp_score_sum (fst (fold step us b)))
      \<and> (\<forall>u \<in> set us. dp_valid (T ! u) \<longrightarrow> dp_score_sum (T ! u) \<le> dp_score_sum (fst (fold step us b)))"
    if "\<forall>u \<in> set us. u < kM3StringMaskCount" "num (fst b)" for us and b :: "M3DpState \<times> u8"
    using that
  proof (induction us arbitrary: b)
    case Nil
    then show ?case by (auto simp: num_def f64_le_refl)
  next
    case (Cons u us)
    have u: "num (T ! u)" using T Cons.prems(1) by simp
    have n: "num (fst (step u b))" using Cons.prems(2) u by (simp add: step_def)
    have valid: "dp_valid (fst (step u b))" if "dp_valid (fst b) \<or> dp_valid (T ! u)"
      using that by (auto simp: step_def better_state_def)
    have old: "dp_score_sum (fst b) \<le> dp_score_sum (fst (step u b))" if "dp_valid (fst b)"
      using that Cons.prems(2) u better_covers(1) [of "fst b" "T ! u"] by (auto simp: step_def num_def f64_le_refl)
    have new: "dp_score_sum (T ! u) \<le> dp_score_sum (fst (step u b))" if "dp_valid (T ! u)"
    proof (cases "better_state (T ! u) (fst b)")
      case True
      then show ?thesis using that u by (simp add: step_def num_def f64_le_refl)
    next
      case False
      then have "dp_valid (fst b)" by (simp add: better_state_def)
      then show ?thesis using False that u Cons.prems(2) better_covers(2) [of "fst b" "T ! u"] by (simp add: step_def num_def)
    qed
    have i: "\<forall>v \<in> set us. v < kM3StringMaskCount" using Cons.prems(1) by simp
    have later: "dp_score_sum (fst (step u b)) \<le> dp_score_sum (fst (fold step us (step u b)))"
      if "dp_valid (fst (step u b))"
      using Cons.IH [OF i n] that by blast
    have rest: "\<forall>v \<in> set us. dp_valid (T ! v) \<longrightarrow> dp_score_sum (T ! v) \<le> dp_score_sum (fst (fold step us (step u b)))"
      using Cons.IH [OF i n] by blast
    have "dp_score_sum (fst b) \<le> dp_score_sum (fst (fold step us (step u b)))" if "dp_valid (fst b)"
      using f64_le_trans [OF old [OF that] later] valid that by blast
    moreover have "dp_score_sum (T ! u) \<le> dp_score_sum (fst (fold step us (step u b)))" if "dp_valid (T ! u)"
      using f64_le_trans [OF new [OF that] later] valid that by blast
    ultimately show ?case using rest by (simp only: fold_Cons comp_def list.set) blast
  qed
  from this [of "[0..<kM3StringMaskCount]" "(M3DpState_default, 0)"] assms(1,3) mask_index [of w]
  show ?thesis by (simp add: best_entry_def step_def [abs_def] num_def M3DpState_default_def)
qed

theorem selection_playable:
  assumes "dk_count D \<le> kMaxCandidates" "0 < dk_max_polyphony D"
  shows "playable_together D (fst (select_m3_feasible_candidates M D S))"
proof -
  have none: "playable_together D (replicate kMaxCandidates False)"
    unfolding playable_together_def
    by (rule exI [of _ "\<lambda>_. 0"], rule exI [of _ 0]) (use assms(1) in \<open>simp add: lanes_fit_def\<close>)
  obtain groups retained where g: "selector_groups M D S = (groups, retained)" by (cases "selector_groups M D S")
  let ?A = "selection_candidates M D S"
  have "priority_ok D (ca_groups ?A, ca_priority ?A)"
    using selector_groups_ok [OF assms(1), of M S] by (simp add: selection_candidates_def g)
  from selection_playable_table [OF assms this build_pool_ok] none
  show ?thesis by (simp add: select_m3_feasible_candidates_def Let_def)
qed

theorem selection_best:
  assumes "finite_scores D S (selection_candidates M D S) (build_pool D S (selection_candidates M D S))"
  shows "let A = selection_candidates M D S; pool = build_pool D S A; k = length pool
    in case best_entry (fill_table D S A pool) of (best, used) \<Rightarrow>
         feasible D S A pool k used (dp_score_sum best) {i. bit (dp_chosen best) i}
         \<and> (\<forall>w x I. feasible D S A pool k w x I \<longrightarrow> x \<le> dp_score_sum best)"
proof -
  define A where "A = selection_candidates M D S"
  define pool where "pool = build_pool D S A"
  define T where "T = fill_table D S A pool"
  have fin: "finite_scores D S A pool" using assms by (simp add: A_def pool_def)
  have cap: "length pool \<le> kPoolCapacity" using build_pool_ok by (simp add: pool_def pool_ok_def)
  have ok: "table_ok D S A pool (length pool) T" unfolding T_def by (rule fill_table_ok [OF cap])
  have entry: "entry_ok D S A pool (length pool) w (T ! unat w)" for w using ok by (simp add: table_ok_def)
  have len: "length T = kM3StringMaskCount" and seed: "dp_valid (T ! unat (seed_mask A))" using ok by (simp_all add: table_ok_def)
  obtain best used where b: "best_entry T = (best, used)" by (cases "best_entry T")
  note e = best_entry_valid [OF len seed b]
  have "feasible D S A pool (length pool) used (dp_score_sum best) {i. bit (dp_chosen best) i}"
    using entry [of used] e(1) by (simp add: entry_ok_def e(2) [symmetric])
  moreover have "x \<le> dp_score_sum best" if f: "feasible D S A pool (length pool) w x I" for w x I
  proof -
    have c: "covers T w x" using fill_table_best [OF cap fin] f by (auto simp: table_best_def T_def)
    then have "dp_score_sum (T ! unat w) \<le> dp_score_sum best"
      using best_entry_best [OF len entry_number [OF entry fin], of w] b by (simp add: covers_def)
    with c show ?thesis by (auto simp: covers_def intro: f64_le_trans)
  qed
  ultimately show ?thesis
    using b by (auto simp: Let_def A_def [symmetric] pool_def [symmetric] T_def [symmetric])
qed

end
