(* ===== verification/Spec2Isabelle.thy ===== *)
theory Spec2Isabelle
  imports Ledger_Properties State_Properties Config_Exchange_Properties Config_Request_Properties
    Tuner_Telemetry_Laws Calibration_Transport_Laws Factory_Calibration String_Sweep_Laws
    Vst3_Parameter_Laws State_Stream_Laws Dry_Path Clap_Properties Vst3_Properties String_Posterior
    Harmonic_Evidence Partial_Detuning Unison_Laws Unison_Tracker Detector_Properties
    Detector_Selection_Laws
begin

text \<open>
  A verification development for the native plugin of polyphonic-audio-to-midi (directory \<open>src/native\<close>):
  a CLAP and VST3 audio effect for the eight-string M3 guitar that detects notes and plays them as MIDI.
  Paths below are under \<open>src/native\<close>.

  \<^bold>\<open>The program.\<close> The audio thread hands each block to the dry path (\<open>plugin/dry_path.hpp\<close>), which copies the
  signal and selects the detector's input. The detector reports voice transitions; the ledger
  (\<open>src/generated_note_ledger.cpp\<close>) queues them, tracks which notes the host has heard, and delivers them
  through a sink, the VST3 event list (\<open>vst3/vst3_event_sink.cpp\<close>) or the MIDI pipeline of CLAP
  (\<open>plugin/midi_pipeline.cpp\<close>). The main thread hands new configurations over without a lock
  (\<open>plugin/prepared_config_exchange.cpp\<close>), the audio thread shows its state to the editor through
  \<open>src/tuner_telemetry.cpp\<close> and its calibration through \<open>src/calibration_bank_transport.cpp\<close>. Parameters follow
  one contract (\<open>src/parameter_contract.cpp\<close>), which \<open>vst3/vst3_parameter_bridge.cpp\<close> translates for VST3 hosts.
  A session is a configuration image (\<open>src/state_image.cpp\<close>) and a calibration image
  (\<open>src/calibration_state_image.cpp\<close>) written to the host's stream. A calibration is learned string by string
  (\<open>src/string_calibration.cpp\<close>), laid over a factory prior and used to correct notes
  (\<open>src/factory_calibration.cpp\<close>). Two plugin objects, \<open>plugin/clap_adapter.cpp\<close> and \<open>vst3/vst3_component.cpp\<close>,
  compose all of this behind the callbacks of their hosts. The detector scores its candidates with the evidence
  modules: energies of harmonics (\<open>src/harmonic_evidence.cpp\<close>), detuning of partials
  (\<open>src/partial_detuning_evidence.cpp\<close>), a posterior over the strings that may play a pitch
  (\<open>src/string_fret_posterior.cpp\<close>), and a classifier of several strings on one pitch
  (\<open>src/unison_spectral_classifier.cpp\<close>) over the spectra of a tracker and of factory templates
  (\<open>src/unison_spectral_tracker.cpp\<close>, \<open>src/unison_spectral_templates.cpp\<close>).

  \<^bold>\<open>Values.\<close> A fixed-width integer is a word, a \<open>std::int16_t\<close> a 16-bit word read as signed, a size or index a
  \<open>nat\<close> (bounded by the fixed arrays it indexes). A \<open>double\<close> is its 64-bit pattern and every operation on it is
  computed exactly and rounded once (\<open>Float64\<close>, with \<open>Float64_Sqrt\<close> for the square root; \<open>Float64_Laws\<close> and
  \<open>Float64_Mono\<close> hold the laws: order, clamping, rounding, monotone sums, exact small integers). Errors are
  values: none, a flag, or the code's own enumeration. A \<open>std::array\<close> is a list of its length; an index out of
  range never occurs in the code that is modelled. \<open>M3_Prelude\<close> has the shared facts on lists and words,
  \<open>Types_Model\<close> the shared types (\<open>include/m3/types.hpp\<close>, \<open>constants.hpp\<close>, \<open>fixed_vector.hpp\<close>).

  \<^bold>\<open>Theories and code.\<close>
  \<^item> \<open>Note_Ledger\<close> is the ledger (record \<open>NoteLedger\<close>, one definition per method); \<open>Note_Queue\<close> relates its queue
    to a stable sort; \<open>Note_Invariant\<close>, \<open>Note_Steps\<close> and \<open>Note_Delivery\<close> have its invariant, its steps, and
    the locale \<open>note_sink\<close> of what a sink promises; \<open>Vst3_Event_Sink\<close> and \<open>Midi_Pipeline\<close> are the two sinks,
    which interpret it (\<open>Midi_Pipeline_Laws\<close>); \<open>Ledger_Properties\<close> has the properties.
  \<^item> \<open>Parameter_Contract\<close> and \<open>Parameter_Laws\<close> are the parameters; \<open>Vst3_Parameter_Bridge\<close> is their VST3 side,
    \<open>Vst3_Parameter_Laws\<close> what a block's changes may do.
  \<^item> \<open>Byte_Codec\<close> has the byte and CRC helpers (locale \<open>word_codec\<close>, interpreted for 16, 32 and 64 bits);
    \<open>State_Image\<close>, \<open>State_Roundtrip\<close> and \<open>State_Properties\<close> are the configuration image.
  \<^item> \<open>Atomic_Programs\<close> gives programs of atomic actions, their interleavings and a rely-guarantee predicate (locale
    \<open>two_threads\<close>), \<open>Seqlock\<close> the odd/even protocol (locale \<open>seqlock\<close>). On them rest \<open>Config_Exchange\<close> with its
    laws, threads and properties (the three-slot exchange), \<open>Config_Request\<close> (the shared request, interpretation
    \<open>request\<close>), \<open>Tuner_Telemetry\<close> (interpretation \<open>telemetry\<close>) and \<open>Calibration_Transport\<close> (\<open>transport\<close>).
  \<^item> \<open>Calibration_Bank\<close>, \<open>Calibration_Image\<close> and \<open>Calibration_Properties\<close> are the bank and its image;
    \<open>Factory_Calibration\<close> the merge and the note correction; \<open>String_Calibration\<close> and
    \<open>String_Observe\<close> the calibrator, \<open>String_Sweep_Laws\<close> the order of a sweep as a step relation.
  \<^item> \<open>State_Streams\<close> and \<open>State_Stream_Laws\<close> are the session streams of both formats; \<open>Dry_Path\<close>
    the audio path over a memory of buffers.
  \<^item> \<open>Solo_Runs\<close> says what the exchange and the request do without interference, \<open>Config_Validity\<close>
    when configurations are valid and can be prepared; both plugin objects rest on them.
  \<^item> \<open>Clap_Interface\<close> and \<open>Clap_Adapter\<close> are the CLAP object (record \<open>Adapter\<close>, one definition per callback), with the
    diagnostic build's \<open>Probe_Processor\<close>; \<open>Clap_Adapter_Laws\<close> has its invariant, \<open>Clap_Properties\<close> sequences of
    callbacks.
  \<^item> \<open>Vst3_Component\<close>, \<open>Vst3_Block\<close> and \<open>Vst3_Calls\<close> are the VST3 object (record \<open>M3Component\<close>): its parts, a block,
    and the host's calls. \<open>Vst3_Component_Laws\<close> and \<open>Vst3_Block_Laws\<close> have its invariant and
    what a block keeps, \<open>Vst3_Call_Laws\<close> and \<open>Vst3_Host_Laws\<close> the calls, \<open>Vst3_Properties\<close> sequences of calls.
  \<^item> \<open>Evidence_Math\<close> counts the members of a mask of strings. \<open>Harmonic_Evidence\<close>, \<open>Partial_Detuning\<close> and
    \<open>String_Posterior\<close> are the evidence modules, each with its laws; \<open>Unison_Classifier\<close> is the least-squares
    classifier, \<open>Unison_Reacquisition\<close> the decisions that restore a group, \<open>Unison_Laws\<close> the optimality of
    a classification, \<open>Unison_Tracker\<close> the corridor tracker and the factory templates.
  \<^item> The detector is modelled from the selection of its candidates on. \<open>Detector_Rules\<close> has its thresholds, onset and attack rules,
    \<open>Detector_Groups\<close> the groups of candidates and the lanes of a group, \<open>Detector_State\<close> its members and the
    match of a pitch with the calibrated strings, \<open>Detector_Voices\<close> the queries over the
    active voices, \<open>Detector_Selection\<close> the choice of the candidates that sound, \<open>Detector_Lifecycle\<close> the part of
    \<open>make_decision\<close> that ends, moves, repeats and starts notes. \<open>Detector_Selection_Laws\<close> says which choices are
    feasible and shows that the selection's table finds a best one, \<open>Detector_Lifecycle_Laws\<close> shows what a decision's transitions carry, \<open>Detector_Properties\<close> has the bound on
    the voices and the properties.

  \<^bold>\<open>What is shown.\<close> Notes: the host never hears a release without a note nor keeps a note the ledger forgot,
  pending releases are delivered, panic holds and blocked outputs end only as documented. Hand-over: no data
  race, no torn configuration, telemetry frame or calibration in any interleaving, and the newest configuration
  wins. State: images and whole sessions round-trip through any stream that keeps its contract, corrupted bytes
  are refused, loading ends and yields valid data only. Parameters and calibration: values stay in range, changes
  of a block are all or nothing, a sweep visits every fret in order and writes its own row only, a correction
  moves a note by at most one fret. Audio: the dry signal is right under every aliasing of the buffers. Plugin
  objects: after any sequence of host calls every configuration is valid, the host holds exactly the notes the
  object holds, and a structural change waits until nothing sounds. Evidence: the classifier returns a best
  explanation; lemmas show that posteriors stay non-negative and are best where they say so, that evidence is valid
  exactly for usable energies, and that a restored group is bounded by what was played and can be played. Detector:
  the transitions of a decision are exactly the change of the notes that ring, as long as their list has room, and a
  decision starts no note beyond the polyphony it was configured with; the selected pitches can be played together,
  each on strings of its own, and no feasible choice of strings has a higher score than the selected one.

  \<^bold>\<open>Assumptions and bounds.\<close> Code outside the repository is an argument: host event lists, queues and streams (which
  may answer anything, unless a property names the contract it needs), \<open>std::strtod\<close>, \<open>std::exp2\<close>, the
  allocator, the SDK's base class and string conversions, \<open>std::pow\<close>, and the functions \<open>exp\<close>, \<open>log\<close>, \<open>log2\<close>, \<open>atan2\<close>,
  \<open>log10\<close>, \<open>expm1\<close>, \<open>sin\<close>, \<open>cos\<close> and \<open>hypot\<close> whose rounding the standard leaves open. The built-in factory image and the generated
  template tables, data files, are arguments too. Atomics are sequentially consistent, as the code's
  \<open>memory_order_seq_cst\<close> asks for (the weaker orders of the exchange are taken as if they were). The seqlock
  properties assume fewer writes than wrap the sequence word. No definition uses fuel: every loop is structural
  or has a measure.

  \<^bold>\<open>Not modelled.\<close> The signal half of the detector (\<open>src/polyphonic_pitch_detector.cpp\<close>): its filters and
  transforms, the assignment of strings, the fine-frequency and unison estimators and the tuner's snapshot. The
  selection takes the measured energies as its argument, the note lifecycle the selected candidates, and the VST3
  object the whole detector. Also the VST3 diagnostic probe and the report file of the CLAP
  probe, the graphical editor, factories and entry points, the offline evaluation programs, tests and tooling, and
  the JSFX predecessor.
\<close>

end
